(* ===== verification/Prelude.thy ===== *)
theory Prelude
  imports Main "HOL-Library.Char_ord"
begin

text \<open>
  Shared vocabulary of the development: handlers as state-and-error computations with a
  Hoare-style proof calculus, table operations in the shape the code uses them (first match,
  conditional update with a count, conditional delete), and the string functions of the
  JavaScript standard library the code calls. Strings are lists of characters; letters with a
  case are the ASCII letters.
\<close>

named_theorems hoare \<open>rules of the Hoare calculus for handlers\<close>
named_theorems table_simps \<open>equations about table operations\<close>

section \<open>Errors and handlers\<close>

text \<open>The exceptions the handlers raise, by class, with their message.\<close>

datatype error =
    NotFound string
  | BadRequest string
  | Forbidden string
  | Unauthorized string
  | ServiceUnavailable string
  | TooManyRequests string
  | Conflict string
  | UniqueViolation string   \<comment> \<open>Prisma's P2002\<close>
  | PayloadTooLarge string
  | MessageIdConflict string \<comment> \<open>a \<open>BadRequestException\<close> of the inbound pipeline\<close>
  | OwnerUnresolved nat      \<comment> \<open>a \<open>ServiceUnavailableException\<close> of the inbound pipeline\<close>
  | RecordNotFound           \<comment> \<open>Prisma's P2025: an update by key that matches no row\<close>
  | Failure string           \<comment> \<open>a plain \<open>Error\<close>\<close>

text \<open>
  A handler takes the state and returns a result or an exception, and the state it leaves.
  An exception leaves the writes made before it, unless they were inside a transaction.
\<close>

type_synonym ('s, 'a) act = "'s \<Rightarrow> (error + 'a) \<times> 's"

definition ret :: "'a \<Rightarrow> ('s, 'a) act" where
  "ret x s = (Inr x, s)"

definition throw :: "error \<Rightarrow> ('s, 'a) act" where
  "throw e s = (Inl e, s)"

definition bnd :: "('s, 'a) act \<Rightarrow> ('a \<Rightarrow> ('s, 'b) act) \<Rightarrow> ('s, 'b) act" where
  "bnd m f s = (case m s of (Inl e, s') \<Rightarrow> (Inl e, s') | (Inr x, s') \<Rightarrow> f x s')"

definition sq :: "('s, 'a) act \<Rightarrow> ('s, 'b) act \<Rightarrow> ('s, 'b) act" where
  "sq m n = bnd m (\<lambda>_. n)"

text \<open>Read a projection of the state; write the state.\<close>

definition reads :: "('s \<Rightarrow> 'a) \<Rightarrow> ('s, 'a) act" where
  "reads f s = (Inr (f s), s)"

definition modify :: "('s \<Rightarrow> 's) \<Rightarrow> ('s, unit) act" where
  "modify f s = (Inr (), f s)"

definition require :: "bool \<Rightarrow> error \<Rightarrow> ('s, unit) act" where
  "require b e = (if b then ret () else throw e)"

definition when_act :: "bool \<Rightarrow> ('s, unit) act \<Rightarrow> ('s, unit) act" where
  "when_act b m = (if b then m else ret ())"

text \<open>\<open>prisma.$transaction\<close>: all writes of the body or, when it throws, none of them.\<close>

definition txn :: "('s, 'a) act \<Rightarrow> ('s, 'a) act" where
  "txn m s = (case m s of (Inl e, s') \<Rightarrow> (Inl e, s) | (Inr x, s') \<Rightarrow> (Inr x, s'))"

text \<open>\<open>try { m } catch (e) { h(e) }\<close>.\<close>

definition catch_act :: "('s, 'a) act \<Rightarrow> (error \<Rightarrow> ('s, 'a) act) \<Rightarrow> ('s, 'a) act" where
  "catch_act m h s = (case m s of (Inl e, s') \<Rightarrow> h e s' | (Inr x, s') \<Rightarrow> (Inr x, s'))"

text \<open>\<open>for (const x of xs) await f(x)\<close>, collecting the results in order.\<close>

fun each :: "('x \<Rightarrow> ('s, 'a) act) \<Rightarrow> 'x list \<Rightarrow> ('s, 'a list) act" where
  "each f [] = ret []"
| "each f (x # xs) = bnd (f x) (\<lambda>y. bnd (each f xs) (\<lambda>ys. ret (y # ys)))"

definition result :: "('s, 'a) act \<Rightarrow> 's \<Rightarrow> error + 'a" where
  "result m s = fst (m s)"

definition final :: "('s, 'a) act \<Rightarrow> 's \<Rightarrow> 's" where
  "final m s = snd (m s)"

lemmas act_defs = ret_def throw_def bnd_def sq_def reads_def modify_def require_def when_act_def
  txn_def catch_act_def

section \<open>Hoare calculus\<close>

text \<open>
  \<open>triple P m Q E\<close>: from a state in \<open>P\<close>, the handler either returns \<open>x\<close> in a state in \<open>Q x\<close>
  or throws and leaves a state in \<open>E\<close>.
\<close>

definition triple :: "('s \<Rightarrow> bool) \<Rightarrow> ('s, 'a) act \<Rightarrow> ('a \<Rightarrow> 's \<Rightarrow> bool) \<Rightarrow> ('s \<Rightarrow> bool) \<Rightarrow> bool" where
  "triple P m Q E \<longleftrightarrow>
     (\<forall>s. P s \<longrightarrow> (case m s of (Inl e, s') \<Rightarrow> E s' | (Inr x, s') \<Rightarrow> Q x s'))"

lemma tripleI:
  "(\<And>s r s'. P s \<Longrightarrow> m s = (r, s') \<Longrightarrow> (case r of Inl e \<Rightarrow> E s' | Inr x \<Rightarrow> Q x s')) \<Longrightarrow> triple P m Q E"
  by (auto simp: triple_def split: prod.splits sum.splits)

lemma triple_retD: "triple P m Q E \<Longrightarrow> P s \<Longrightarrow> m s = (Inr x, s') \<Longrightarrow> Q x s'"
  by (auto simp: triple_def split: prod.splits sum.splits)

lemma triple_throwD: "triple P m Q E \<Longrightarrow> P s \<Longrightarrow> m s = (Inl e, s') \<Longrightarrow> E s'"
  unfolding triple_def by (fastforce split: prod.splits sum.splits)

lemma triple_ret [hoare]: "(\<And>s. P s \<Longrightarrow> Q x s) \<Longrightarrow> triple P (ret x) Q E"
  by (simp add: triple_def ret_def)

lemma triple_throw [hoare]: "(\<And>s. P s \<Longrightarrow> E s) \<Longrightarrow> triple P (throw e) Q E"
  by (simp add: triple_def throw_def)

lemma triple_bnd:
  "triple P m R E \<Longrightarrow> (\<And>x. triple (R x) (f x) Q E) \<Longrightarrow> triple P (bnd m f) Q E"
  unfolding triple_def bnd_def by (fastforce split: prod.splits sum.splits)

lemma triple_sq:
  "triple P m (\<lambda>_. R) E \<Longrightarrow> triple R n Q E \<Longrightarrow> triple P (sq m n) Q E"
  unfolding sq_def by (rule triple_bnd [where R = "\<lambda>_. R"])

lemma triple_reads [hoare]: "(\<And>s. P s \<Longrightarrow> Q (f s) s) \<Longrightarrow> triple P (reads f) Q E"
  by (simp add: triple_def reads_def)

lemma triple_modify [hoare]: "(\<And>s. P s \<Longrightarrow> Q () (f s)) \<Longrightarrow> triple P (modify f) Q E"
  by (simp add: triple_def modify_def)

lemma triple_require [hoare]:
  "(\<And>s. P s \<Longrightarrow> b \<Longrightarrow> Q () s) \<Longrightarrow> (\<And>s. P s \<Longrightarrow> \<not> b \<Longrightarrow> E s) \<Longrightarrow> triple P (require b e) Q E"
  by (simp add: triple_def require_def ret_def throw_def)

lemma triple_when [hoare]:
  "(b \<Longrightarrow> triple P m Q E) \<Longrightarrow> (\<And>s. P s \<Longrightarrow> \<not> b \<Longrightarrow> Q () s) \<Longrightarrow> triple P (when_act b m) Q E"
  by (simp add: triple_def when_act_def ret_def)

lemma triple_if [hoare]:
  "(b \<Longrightarrow> triple P m Q E) \<Longrightarrow> (\<not> b \<Longrightarrow> triple P n Q E) \<Longrightarrow> triple P (if b then m else n) Q E"
  by simp

lemma triple_option [hoare]:
  "(z = None \<Longrightarrow> triple P m Q E) \<Longrightarrow> (\<And>x. z = Some x \<Longrightarrow> triple P (f x) Q E) \<Longrightarrow>
   triple P (case z of None \<Rightarrow> m | Some x \<Rightarrow> f x) Q E"
  by (cases z) simp_all

lemma triple_conseq:
  "triple P' m Q' E' \<Longrightarrow> (\<And>s. P s \<Longrightarrow> P' s) \<Longrightarrow> (\<And>x s. Q' x s \<Longrightarrow> Q x s) \<Longrightarrow> (\<And>s. E' s \<Longrightarrow> E s) \<Longrightarrow>
   triple P m Q E"
  unfolding triple_def by (fastforce split: prod.splits sum.splits)

text \<open>
  A transaction that throws restores the state it started from, so its body may break \<open>E\<close>
  on the way.
\<close>

lemma triple_txn:
  "(\<And>s. P s \<Longrightarrow> E s) \<Longrightarrow> triple P m Q (\<lambda>_. True) \<Longrightarrow> triple P (txn m) Q E"
  unfolding triple_def txn_def by (fastforce split: prod.splits sum.splits)

lemma triple_catch:
  "triple P m Q R \<Longrightarrow> (\<And>e. triple R (h e) Q E) \<Longrightarrow> triple P (catch_act m h) Q E"
  unfolding triple_def catch_act_def by (fastforce split: prod.splits sum.splits)

text \<open>Loop rule: an invariant of every iteration is an invariant of the loop.\<close>

lemma triple_each:
  assumes "\<And>x. x \<in> set xs \<Longrightarrow> triple P (f x) (\<lambda>_. P) E"
  shows "triple P (each f xs) (\<lambda>_. P) E"
  using assms
proof (induction xs)
  case Nil
  show ?case by (simp add: triple_ret)
next
  case (Cons x xs)
  have "triple P (f x) (\<lambda>_. P) E" and "triple P (each f xs) (\<lambda>_. P) E"
    using Cons by simp_all
  then show ?case
    by (auto intro!: triple_bnd triple_ret)
qed

section \<open>Successful runs\<close>

lemma run_bnd: "bnd m f d = (Inr x, d') \<longleftrightarrow> (\<exists>y d1. m d = (Inr y, d1) \<and> f y d1 = (Inr x, d'))"
  by (auto simp: bnd_def split: prod.splits sum.splits)

lemma run_sq: "sq m n d = (Inr x, d') \<longleftrightarrow> (\<exists>y d1. m d = (Inr y, d1) \<and> n d1 = (Inr x, d'))"
  by (auto simp: sq_def run_bnd)

lemma run_txn: "txn m d = (Inr x, d') \<longleftrightarrow> m d = (Inr x, d')"
  by (auto simp: txn_def split: prod.splits sum.splits)

lemma run_ret: "ret y d = (Inr x, d') \<longleftrightarrow> x = y \<and> d' = d"
  by (auto simp: ret_def)

lemma run_reads: "reads f d = (Inr x, d') \<longleftrightarrow> x = f d \<and> d' = d"
  by (auto simp: reads_def)

lemma run_modify: "modify f d = (Inr x, d') \<longleftrightarrow> d' = f d"
  by (auto simp: modify_def)

lemma run_require: "require b e d = (Inr x, d') \<longleftrightarrow> b \<and> d' = d"
  by (auto simp: require_def ret_def throw_def)

lemma run_throw: "throw e d = (Inr x, d') \<longleftrightarrow> False"
  by (auto simp: throw_def)

lemmas run_rules = run_bnd run_sq run_txn run_ret run_reads run_modify run_require run_throw

lemma succeeds: "isl (fst z) = False \<Longrightarrow> \<exists>r d'. z = (Inr r, d')"
  by (cases z; cases "fst z") auto

section \<open>Preservation of a relation between the states before and after\<close>

text \<open>
  Frame conditions ("nothing outside \<dots> changes") and invariants ("if it held, it still
  holds") are both reflexive and transitive relations between the state before and the state
  after a handler. The locale gives the composition rules once for every such relation.
\<close>

locale frame =
  fixes R :: "'s \<Rightarrow> 's \<Rightarrow> bool"
  assumes frame_refl: "R s s"
    and frame_trans: "R s t \<Longrightarrow> R t u \<Longrightarrow> R s u"
begin

definition stays :: "('s, 'a) act \<Rightarrow> bool" where
  "stays m \<longleftrightarrow> (\<forall>s. R s (snd (m s)))"

lemma stays_ret: "stays (ret x)"
  by (simp add: stays_def ret_def frame_refl)

lemma stays_throw: "stays (throw e)"
  by (simp add: stays_def throw_def frame_refl)

lemma stays_reads: "stays (reads f)"
  by (simp add: stays_def reads_def frame_refl)

lemma stays_require: "stays (require b e)"
  by (simp add: require_def stays_ret stays_throw)

lemma stays_bnd: "stays m \<Longrightarrow> (\<And>x. stays (f x)) \<Longrightarrow> stays (bnd m f)"
  unfolding stays_def bnd_def
  by (auto split: prod.splits sum.splits) (metis frame_trans snd_conv)+

lemma stays_sq: "stays m \<Longrightarrow> stays n \<Longrightarrow> stays (sq m n)"
  by (simp add: sq_def stays_bnd)

lemma stays_when: "stays m \<Longrightarrow> stays (when_act b m)"
  by (simp add: when_act_def stays_ret)

lemma stays_modify: "(\<And>s. R s (f s)) \<Longrightarrow> stays (modify f)"
  by (simp add: stays_def modify_def)

lemma stays_if: "stays m \<Longrightarrow> stays n \<Longrightarrow> stays (if b then m else n)"
  by simp

lemma stays_option: "stays m \<Longrightarrow> (\<And>x. stays (f x)) \<Longrightarrow> stays (case z of None \<Rightarrow> m | Some x \<Rightarrow> f x)"
  by (cases z) simp_all

lemma stays_sum: "(\<And>e. stays (g e)) \<Longrightarrow> (\<And>x. stays (f x)) \<Longrightarrow> stays (case z of Inl e \<Rightarrow> g e | Inr x \<Rightarrow> f x)"
  by (cases z) simp_all

lemma stays_txn: "stays m \<Longrightarrow> stays (txn m)"
  unfolding stays_def txn_def
  by (auto split: prod.splits sum.splits simp: frame_refl) (metis snd_conv)

lemma stays_catch: "stays m \<Longrightarrow> (\<And>e. stays (h e)) \<Longrightarrow> stays (catch_act m h)"
  unfolding stays_def catch_act_def
  by (auto split: prod.splits sum.splits) (metis frame_trans snd_conv)+

lemma stays_each: "(\<And>x. stays (f x)) \<Longrightarrow> stays (each f xs)"
  by (induction xs) (simp_all add: stays_ret stays_bnd)

lemmas stays_intros = stays_ret stays_throw stays_reads stays_require stays_bnd stays_sq
  stays_when stays_if stays_option stays_sum stays_txn stays_catch stays_each

lemma staysD: "stays m \<Longrightarrow> m s = (r, s') \<Longrightarrow> R s s'"
  unfolding stays_def by (metis snd_conv)

end

text \<open>An invariant as a frame.\<close>

definition keeps :: "('s \<Rightarrow> bool) \<Rightarrow> 's \<Rightarrow> 's \<Rightarrow> bool" where
  "keeps P s s' \<longleftrightarrow> (P s \<longrightarrow> P s')"

interpretation keeps: frame "keeps P" for P
  by unfold_locales (auto simp: keeps_def)

section \<open>Tables\<close>

text \<open>
  A table is the list of its rows in the order of their auto-increment key. The operations are
  those the code uses of its database client: \<open>findFirst\<close>, \<open>findMany\<close>, \<open>count\<close>, \<open>updateMany\<close>
  and \<open>deleteMany\<close>.
\<close>

definition find_row :: "('r \<Rightarrow> bool) \<Rightarrow> 'r list \<Rightarrow> 'r option" where
  "find_row p rows = List.find p rows"

definition update_rows :: "('r \<Rightarrow> bool) \<Rightarrow> ('r \<Rightarrow> 'r) \<Rightarrow> 'r list \<Rightarrow> 'r list" where
  "update_rows p f rows = map (\<lambda>r. if p r then f r else r) rows"

definition count_rows :: "('r \<Rightarrow> bool) \<Rightarrow> 'r list \<Rightarrow> nat" where
  "count_rows p rows = length (filter p rows)"

definition delete_rows :: "('r \<Rightarrow> bool) \<Rightarrow> 'r list \<Rightarrow> 'r list" where
  "delete_rows p rows = filter (\<lambda>r. \<not> p r) rows"

lemma find_row_Nil [simp]: "find_row p [] = None"
  by (simp add: find_row_def)

lemma find_row_Cons [simp]: "find_row p (r # rs) = (if p r then Some r else find_row p rs)"
  by (simp add: find_row_def)

lemma find_row_SomeD: "find_row p rows = Some r \<Longrightarrow> r \<in> set rows \<and> p r"
  by (induction rows) (auto split: if_splits)

lemma find_row_None_iff: "find_row p rows = None \<longleftrightarrow> (\<forall>r \<in> set rows. \<not> p r)"
  by (induction rows) auto

lemma find_row_append:
  "find_row p (xs @ ys) = (case find_row p xs of None \<Rightarrow> find_row p ys | Some r \<Rightarrow> Some r)"
  by (induction xs) auto

lemma find_row_unique:
  "r \<in> set rows \<Longrightarrow> p r \<Longrightarrow> (\<And>r'. r' \<in> set rows \<Longrightarrow> p r' \<Longrightarrow> r' = r) \<Longrightarrow> find_row p rows = Some r"
  by (metis find_row_SomeD find_row_None_iff option.exhaust)

lemma update_rows_Nil [simp]: "update_rows p f [] = []"
  by (simp add: update_rows_def)

lemma update_rows_Cons [simp]:
  "update_rows p f (r # rs) = (if p r then f r else r) # update_rows p f rs"
  by (simp add: update_rows_def)

lemma length_update_rows [simp]: "length (update_rows p f rows) = length rows"
  by (simp add: update_rows_def)

lemma set_update_rows:
  "set (update_rows p f rows) = {r \<in> set rows. \<not> p r} \<union> f ` {r \<in> set rows. p r}"
  by (auto simp: update_rows_def)

lemma map_update_rows:
  "(\<And>r. g (f r) = g r) \<Longrightarrow> map g (update_rows p f rows) = map g rows"
  by (simp add: update_rows_def)

lemma update_rows_none: "(\<forall>r \<in> set rows. \<not> p r) \<Longrightarrow> update_rows p f rows = rows"
  by (induction rows) auto

lemma count_rows_Nil [simp]: "count_rows p [] = 0"
  by (simp add: count_rows_def)

lemma count_rows_Cons [simp]: "count_rows p (r # rs) = (if p r then Suc (count_rows p rs) else count_rows p rs)"
  by (simp add: count_rows_def)

lemma count_rows_append [simp]: "count_rows p (xs @ ys) = count_rows p xs + count_rows p ys"
  by (simp add: count_rows_def)

lemma count_rows_0_iff: "count_rows p rows = 0 \<longleftrightarrow> (\<forall>r \<in> set rows. \<not> p r)"
  by (simp add: count_rows_def filter_empty_conv)

lemma count_rows_distinct:
  "distinct (map k rows) \<Longrightarrow> (\<And>r. p r \<Longrightarrow> k r = i) \<Longrightarrow> count_rows p rows \<le> 1"
proof (induction rows)
  case (Cons r rs)
  show ?case
  proof (cases "p r")
    case True
    have "\<forall>x \<in> set rs. \<not> p x"
      using Cons.prems True by force
    with True show ?thesis
      by (simp add: count_rows_0_iff)
  qed (use Cons in simp)
qed simp

lemma set_delete_rows: "set (delete_rows p rows) = {r \<in> set rows. \<not> p r}"
  by (auto simp: delete_rows_def)

lemma find_row_update_rows:
  "(\<And>r. p r \<Longrightarrow> q (f r) = q r) \<Longrightarrow>
   find_row q (update_rows p f rows) = map_option (\<lambda>r. if p r then f r else r) (find_row q rows)"
  by (induction rows) auto

lemma distinct_map_update:
  "(\<And>r. g (f r) = g r) \<Longrightarrow> distinct (map g (update_rows p f rows)) = distinct (map g rows)"
  by (simp add: map_update_rows)

lemmas table_ops = find_row_SomeD find_row_None_iff set_update_rows set_delete_rows

section \<open>Strings\<close>

definition code_of :: "char \<Rightarrow> nat" where
  "code_of c = of_char c"

definition lower_char :: "char \<Rightarrow> char" where
  "lower_char c = (let n = code_of c in if 65 \<le> n \<and> n \<le> 90 then char_of (n + 32) else c)"

text \<open>\<open>String.prototype.toLowerCase\<close> on ASCII text.\<close>

definition lower :: "string \<Rightarrow> string" where
  "lower s = map lower_char s"

text \<open>White space that \<open>String.prototype.trim\<close> and \<open>\s\<close> know below code point 256.\<close>

definition is_space :: "char \<Rightarrow> bool" where
  "is_space c = (let n = code_of c in (9 \<le> n \<and> n \<le> 13) \<or> n = 32 \<or> n = 160)"

definition trim_by :: "(char \<Rightarrow> bool) \<Rightarrow> string \<Rightarrow> string" where
  "trim_by sp s = rev (dropWhile sp (rev (dropWhile sp s)))"

definition trim :: "string \<Rightarrow> string" where
  "trim s = trim_by is_space s"

fun starts_with :: "string \<Rightarrow> string \<Rightarrow> bool" where
  "starts_with s [] = True"
| "starts_with [] (p # ps) = False"
| "starts_with (c # s) (p # ps) = (c = p \<and> starts_with s ps)"

definition ends_with :: "string \<Rightarrow> string \<Rightarrow> bool" where
  "ends_with s p = starts_with (rev s) (rev p)"

fun str_includes :: "string \<Rightarrow> string \<Rightarrow> bool" where
  "str_includes [] p = (p = [])"
| "str_includes (c # s) p = (starts_with (c # s) p \<or> str_includes s p)"

lemma starts_with_iff: "starts_with s p \<longleftrightarrow> (\<exists>t. s = p @ t)"
  by (induction s p rule: starts_with.induct) auto

lemma ends_with_iff: "ends_with s p \<longleftrightarrow> (\<exists>t. s = t @ p)"
  unfolding ends_with_def starts_with_iff by (metis rev_append rev_rev_ident)

lemma str_includes_iff: "str_includes s p \<longleftrightarrow> (\<exists>a b. s = a @ p @ b)"
proof (induction s)
  case (Cons c s)
  have "(\<exists>a b. c # s = a @ p @ b) \<longleftrightarrow> (\<exists>b. c # s = p @ b) \<or> (\<exists>a b. s = a @ p @ b)"
    by (metis Cons_eq_append_conv append_Cons append_Nil)
  then show ?case
    using Cons by (auto simp: starts_with_iff)
qed simp

text \<open>Decimal digits: \<open>String(n)\<close> for a non-negative integer and \<open>padStart\<close>.\<close>

definition digit :: "nat \<Rightarrow> char" where
  "digit d = char_of (48 + d)"

fun nat_str :: "nat \<Rightarrow> string" where
  "nat_str n = (if n < 10 then [digit n] else nat_str (n div 10) @ [digit (n mod 10)])"

declare nat_str.simps [simp del]

definition int_str :: "int \<Rightarrow> string" where
  "int_str i = (if i < 0 then CHR ''-'' # nat_str (nat (- i)) else nat_str (nat i))"

definition is_digit :: "char \<Rightarrow> bool" where
  "is_digit c = (let n = code_of c in 48 \<le> n \<and> n \<le> 57)"

definition digit_val :: "char \<Rightarrow> nat" where
  "digit_val c = code_of c - 48"

definition digits_val :: "string \<Rightarrow> nat" where
  "digits_val s = foldl (\<lambda>a c. 10 * a + digit_val c) 0 s"

definition pad_start :: "nat \<Rightarrow> char \<Rightarrow> string \<Rightarrow> string" where
  "pad_start n c s = replicate (n - length s) c @ s"

lemma code_of_digit: "d < 10 \<Longrightarrow> code_of (digit d) = 48 + d"
  by (simp add: code_of_def digit_def)

lemma digit_val_digit: "d < 10 \<Longrightarrow> digit_val (digit d) = d"
  by (simp add: digit_val_def code_of_digit)

lemma is_digit_digit: "d < 10 \<Longrightarrow> is_digit (digit d)"
  by (simp add: is_digit_def code_of_digit)

lemma digits_val_snoc: "digits_val (s @ [c]) = 10 * digits_val s + digit_val c"
  by (simp add: digits_val_def)

lemma digits_val_nat_str [simp]: "digits_val (nat_str n) = n"
proof (induction n rule: nat_str.induct)
  case (1 n)
  show ?case
  proof (cases "n < 10")
    case True
    then show ?thesis
      by (simp add: nat_str.simps [of n] digits_val_def digit_val_digit)
  next
    case False
    then show ?thesis
      using 1 by (simp add: nat_str.simps [of n] digits_val_snoc digit_val_digit)
  qed
qed

lemma nat_str_inject [simp]: "nat_str m = nat_str n \<longleftrightarrow> m = n"
  by (metis digits_val_nat_str)

lemma nat_str_digits: "list_all is_digit (nat_str n)"
proof (induction n rule: nat_str.induct)
  case (1 n)
  then show ?case
    by (cases "n < 10") (simp_all add: nat_str.simps [of n] is_digit_digit)
qed

lemma nat_str_not_Nil [simp]: "nat_str n \<noteq> []"
  by (subst nat_str.simps) simp

lemma digits_val_zeros: "digits_val (replicate k (CHR ''0'') @ s) = digits_val s"
proof (induction k)
  case (Suc k)
  have "digits_val (CHR ''0'' # t) = digits_val t" for t
    by (simp add: digits_val_def digit_val_def code_of_def)
  with Suc show ?case by simp
qed simp

end
