(* ===== verification/Permissions.thy ===== *)
theory Permissions
  imports Prelude
begin

text \<open>
  The RBAC catalog (\<open>auth/permissions.ts\<close>) and the route guard over it
  (\<open>auth/permissions.guard.ts\<close>): the permission keys, the catalog served to the admin UI (its
  Russian labels are not modelled), the role presets, and the decision of the guard.
\<close>

section \<open>Catalog\<close>

datatype permission =
    TICKET_VIEW
  | TICKET_CREATE
  | TICKET_REPLY
  | TICKET_EDIT
  | TICKET_ASSIGN
  | TICKET_DELETE
  | TICKET_MERGE
  | TICKET_NOTE
  | KB_VIEW
  | KB_MANAGE
  | NEWS_MANAGE
  | USER_MANAGE
  | STAFF_MANAGE
  | ORG_MANAGE
  | ORG_DELETE
  | REPORT_RUN
  | REPORT_MANAGE
  | ADMIN_SETTINGS
  | ADMIN_SLA
  | ADMIN_WORKFLOW
  | MAIL_VIEW
  | MAIL_REPLAY
  | MAIL_PROMOTE_CAPTURED
  | MAIL_RECONCILE
  | MAIL_CONFIGURE
  | ADMIN_DEPARTMENTS
  | ADMIN_CUSTOMFIELDS
  | ADMIN_ALARIS

fun perm_key :: "permission \<Rightarrow> string" where
  "perm_key TICKET_VIEW = ''ticket.view''"
| "perm_key TICKET_CREATE = ''ticket.create''"
| "perm_key TICKET_REPLY = ''ticket.reply''"
| "perm_key TICKET_EDIT = ''ticket.edit''"
| "perm_key TICKET_ASSIGN = ''ticket.assign''"
| "perm_key TICKET_DELETE = ''ticket.delete''"
| "perm_key TICKET_MERGE = ''ticket.merge''"
| "perm_key TICKET_NOTE = ''ticket.note''"
| "perm_key KB_VIEW = ''kb.view''"
| "perm_key KB_MANAGE = ''kb.manage''"
| "perm_key NEWS_MANAGE = ''news.manage''"
| "perm_key USER_MANAGE = ''user.manage''"
| "perm_key STAFF_MANAGE = ''staff.manage''"
| "perm_key ORG_MANAGE = ''org.manage''"
| "perm_key ORG_DELETE = ''org.delete''"
| "perm_key REPORT_RUN = ''report.run''"
| "perm_key REPORT_MANAGE = ''report.manage''"
| "perm_key ADMIN_SETTINGS = ''admin.settings''"
| "perm_key ADMIN_SLA = ''admin.sla''"
| "perm_key ADMIN_WORKFLOW = ''admin.workflow''"
| "perm_key MAIL_VIEW = ''mail.view''"
| "perm_key MAIL_REPLAY = ''mail.replay''"
| "perm_key MAIL_PROMOTE_CAPTURED = ''mail.capture.promote''"
| "perm_key MAIL_RECONCILE = ''mail.reconcile''"
| "perm_key MAIL_CONFIGURE = ''mail.configure''"
| "perm_key ADMIN_DEPARTMENTS = ''admin.departments''"
| "perm_key ADMIN_CUSTOMFIELDS = ''admin.customfields''"
| "perm_key ADMIN_ALARIS = ''admin.alaris''"

definition ALL_PERMISSIONS :: "permission list" where
  "ALL_PERMISSIONS =
     [TICKET_VIEW, TICKET_CREATE, TICKET_REPLY, TICKET_EDIT, TICKET_ASSIGN,
      TICKET_DELETE, TICKET_MERGE, TICKET_NOTE, KB_VIEW, KB_MANAGE,
      NEWS_MANAGE, USER_MANAGE, STAFF_MANAGE, ORG_MANAGE, ORG_DELETE,
      REPORT_RUN, REPORT_MANAGE, ADMIN_SETTINGS, ADMIN_SLA, ADMIN_WORKFLOW,
      MAIL_VIEW, MAIL_REPLAY, MAIL_PROMOTE_CAPTURED, MAIL_RECONCILE, MAIL_CONFIGURE,
      ADMIN_DEPARTMENTS, ADMIN_CUSTOMFIELDS, ADMIN_ALARIS]"

definition PERMISSION_SET :: "string set" where
  "PERMISSION_SET = set (map perm_key ALL_PERMISSIONS)"

definition isKnownPermission :: "string \<Rightarrow> bool" where
  "isKnownPermission key \<longleftrightarrow> key \<in> PERMISSION_SET"

definition unknownPermissions :: "string list \<Rightarrow> string list" where
  "unknownPermissions keys = filter (\<lambda>k. k \<notin> PERMISSION_SET) keys"

datatype permission_category = Tickets | Knowledgebase | News | People | Reports | Admin

definition PERMISSION_CATALOG :: "(permission \<times> permission_category) list" where
  "PERMISSION_CATALOG =
     [(TICKET_VIEW, Tickets), (TICKET_CREATE, Tickets), (TICKET_REPLY, Tickets),
      (TICKET_EDIT, Tickets), (TICKET_ASSIGN, Tickets), (TICKET_DELETE, Tickets),
      (TICKET_MERGE, Tickets), (TICKET_NOTE, Tickets), (KB_VIEW, Knowledgebase),
      (KB_MANAGE, Knowledgebase), (NEWS_MANAGE, News), (USER_MANAGE, People),
      (STAFF_MANAGE, People), (ORG_MANAGE, People), (ORG_DELETE, People),
      (REPORT_RUN, Reports), (REPORT_MANAGE, Reports), (ADMIN_SETTINGS, Admin),
      (ADMIN_SLA, Admin), (ADMIN_WORKFLOW, Admin), (MAIL_VIEW, Admin),
      (MAIL_REPLAY, Admin), (MAIL_PROMOTE_CAPTURED, Admin), (MAIL_RECONCILE, Admin),
      (MAIL_CONFIGURE, Admin), (ADMIN_DEPARTMENTS, Admin), (ADMIN_CUSTOMFIELDS, Admin),
      (ADMIN_ALARIS, Admin)]"

definition MANAGER_PERMISSIONS :: "permission list" where
  "MANAGER_PERMISSIONS =
     [TICKET_VIEW, TICKET_CREATE, TICKET_REPLY, TICKET_EDIT, TICKET_ASSIGN,
      TICKET_DELETE, TICKET_MERGE, TICKET_NOTE, KB_VIEW, KB_MANAGE,
      NEWS_MANAGE, USER_MANAGE, ORG_MANAGE, REPORT_RUN, REPORT_MANAGE,
      MAIL_VIEW]"

definition AGENT_PERMISSIONS :: "permission list" where
  "AGENT_PERMISSIONS =
     [TICKET_VIEW, TICKET_CREATE, TICKET_REPLY, TICKET_EDIT, TICKET_ASSIGN,
      TICKET_MERGE, TICKET_NOTE, KB_VIEW, KB_MANAGE, USER_MANAGE,
      ORG_MANAGE, REPORT_RUN]"

datatype role_key = Administrator | Manager | Agent

record role_template =
  rt_key :: role_key
  rt_isAdmin :: bool
  rt_permissions :: "permission list"

definition ROLE_TEMPLATES :: "role_template list" where
  "ROLE_TEMPLATES =
     [\<lparr>rt_key = Administrator, rt_isAdmin = True, rt_permissions = ALL_PERMISSIONS\<rparr>,
      \<lparr>rt_key = Manager, rt_isAdmin = False, rt_permissions = MANAGER_PERMISSIONS\<rparr>,
      \<lparr>rt_key = Agent, rt_isAdmin = False, rt_permissions = AGENT_PERMISSIONS\<rparr>]"

section \<open>The guard\<close>

text \<open>The authenticated principal (\<open>AuthStaff\<close>), with the live permissions of its group.\<close>

record principal =
  pc_staffId :: nat
  pc_email :: string
  pc_isAdmin :: bool
  pc_permissions :: "string list"

text \<open>
  \<open>PermissionsGuard.canActivate\<close>: \<open>required\<close> is the metadata of the route (\<open>None\<close> when it has
  none), \<open>user\<close> the principal an earlier guard put on the request.
\<close>

definition permissionsGuard :: "string list option \<Rightarrow> principal option \<Rightarrow> error + bool" where
  "permissionsGuard required user =
     (case required of
        None \<Rightarrow> Inr True
      | Some req \<Rightarrow>
          if req = [] then Inr True
          else (case user of
                  None \<Rightarrow> Inl (Forbidden ''Not authenticated'')
                | Some st \<Rightarrow>
                    if pc_isAdmin st then Inr True
                    else if list_all (\<lambda>perm. perm \<in> set (pc_permissions st)) req then Inr True
                    else Inl (Forbidden ''Insufficient permissions'')))"

section \<open>Facts\<close>

lemma ALL_PERMISSIONS_complete: "p \<in> set ALL_PERMISSIONS"
  by (cases p) (simp_all add: ALL_PERMISSIONS_def)

lemma perm_key_inj: "perm_key p = perm_key q \<Longrightarrow> p = q"
  by (cases p; cases q) simp_all

lemma isKnownPermission_iff: "isKnownPermission k \<longleftrightarrow> (\<exists>p. k = perm_key p)"
  unfolding isKnownPermission_def PERMISSION_SET_def using ALL_PERMISSIONS_complete by auto

lemma unknownPermissions_Nil_iff: "unknownPermissions ks = [] \<longleftrightarrow> (\<forall>k \<in> set ks. isKnownPermission k)"
  by (simp add: unknownPermissions_def isKnownPermission_def filter_empty_conv)

lemma catalog_keys: "map fst PERMISSION_CATALOG = ALL_PERMISSIONS"
  by (simp add: PERMISSION_CATALOG_def ALL_PERMISSIONS_def)

lemma guard_passes_iff:
  "permissionsGuard (Some req) (Some st) = Inr True \<longleftrightarrow>
     req = [] \<or> pc_isAdmin st \<or> set req \<subseteq> set (pc_permissions st)"
  by (auto simp: permissionsGuard_def list_all_iff)

text \<open>The keys that change the product's configuration, its staff or its mail routing.\<close>

definition system_permission :: "permission \<Rightarrow> bool" where
  "system_permission p \<longleftrightarrow>
     starts_with (perm_key p) ''admin.'' \<or> p \<in> {STAFF_MANAGE, ORG_DELETE, MAIL_REPLAY,
       MAIL_PROMOTE_CAPTURED, MAIL_RECONCILE, MAIL_CONFIGURE}"

lemma presets_nested:
  "set AGENT_PERMISSIONS \<subseteq> set MANAGER_PERMISSIONS" "set MANAGER_PERMISSIONS \<subseteq> set ALL_PERMISSIONS"
  by (simp_all add: AGENT_PERMISSIONS_def MANAGER_PERMISSIONS_def ALL_PERMISSIONS_def)

lemma preset_not_system: "p \<in> set MANAGER_PERMISSIONS \<Longrightarrow> \<not> system_permission p"
  by (auto simp: MANAGER_PERMISSIONS_def system_permission_def)

text \<open>
  Least privilege of the built-in roles: whatever staff member carries the permissions of a
  non-administrator role template, no route that requires a system permission (any
  \<open>admin.*\<close> key, staff management, organisation deletion, mail replay, promotion,
  reconciliation or configuration) lets it through, while the administrator template passes
  every route.
\<close>

theorem role_templates_least_privilege:
  assumes "r \<in> set ROLE_TEMPLATES"
    and "pc_isAdmin st = rt_isAdmin r" and "pc_permissions st = map perm_key (rt_permissions r)"
    and "system_permission p" and "perm_key p \<in> set req"
  shows "permissionsGuard (Some req) (Some st) =
    (if rt_key r = Administrator then Inr True else Inl (Forbidden ''Insufficient permissions''))"
proof (cases "rt_key r = Administrator")
  case True
  with assms(1,2) have "pc_isAdmin st" by (auto simp: ROLE_TEMPLATES_def)
  with True show ?thesis by (simp add: permissionsGuard_def)
next
  case False
  with assms(1) have na: "\<not> rt_isAdmin r" and sub: "set (rt_permissions r) \<subseteq> set MANAGER_PERMISSIONS"
    using presets_nested by (auto simp: ROLE_TEMPLATES_def)
  have "perm_key p \<notin> set (pc_permissions st)"
    using assms(3,4) sub preset_not_system perm_key_inj by (auto dest: perm_key_inj)
  then have "\<not> list_all (\<lambda>k. k \<in> set (pc_permissions st)) req"
    using assms(5) by (auto simp: list_all_iff)
  with na False assms(2,5) show ?thesis
    by (auto simp: permissionsGuard_def)
qed

theorem role_templates_least_privilege_witness:
  "permissionsGuard (Some [''admin.sla''])
     (Some \<lparr>pc_staffId = 2, pc_email = ''m@x'', pc_isAdmin = False,
            pc_permissions = map perm_key MANAGER_PERMISSIONS\<rparr>) =
   Inl (Forbidden ''Insufficient permissions'')"
  using role_templates_least_privilege
    [of "\<lparr>rt_key = Manager, rt_isAdmin = False, rt_permissions = MANAGER_PERMISSIONS\<rparr>"
        "\<lparr>pc_staffId = 2, pc_email = ''m@x'', pc_isAdmin = False,
            pc_permissions = map perm_key MANAGER_PERMISSIONS\<rparr>" ADMIN_SLA "[''admin.sla'']"]
  by (simp add: ROLE_TEMPLATES_def system_permission_def)

end
