(* ===== verification/JsValue.thy ===== *)
theory JsValue
  imports Prelude Complex_Main
begin

text \<open>
  The dynamic values the code inspects at run time: the JSON stored in rule criteria and
  actions, and ticket columns read by name. Numbers are exact rationals (rounding to doubles is
  not modelled); the string form of a \<open>Date\<close> depends on the time zone of the host, so it is a
  field of the environment record \<open>host\<close>, beside the other library functions the source calls
  and does not define.
\<close>

section \<open>Host environment\<close>

record host =
  h_date_string :: "int \<Rightarrow> string"    \<comment> \<open>\<open>String(date)\<close>\<close>
  h_sha256 :: "string \<Rightarrow> string"       \<comment> \<open>hex digest of \<open>node:crypto\<close>\<close>

section \<open>Values\<close>

datatype js =
    JUndef
  | JNull
  | JBool bool
  | JNum rat
  | JStr string
  | JDate int
  | JArr "js list"
  | JObj "(string \<times> js) list"

datatype js_number = NaN | PosInf | NegInf | Fin rat

text \<open>Property read on an object; reading a property of \<open>null\<close> or \<open>undefined\<close> is a
  \<open>TypeError\<close>, which the callers model.\<close>

fun js_prop :: "js \<Rightarrow> string \<Rightarrow> js" where
  "js_prop (JObj kvs) k = (case map_of kvs k of None \<Rightarrow> JUndef | Some v \<Rightarrow> v)"
| "js_prop _ _ = JUndef"

definition js_is_nullish :: "js \<Rightarrow> bool" where
  "js_is_nullish v \<longleftrightarrow> v = JNull \<or> v = JUndef"

text \<open>The operator \<open>a ?? b\<close>.\<close>

definition js_or_else :: "js \<Rightarrow> js \<Rightarrow> js" where
  "js_or_else a b = (if js_is_nullish a then b else a)"

section \<open>Numbers as text\<close>

definition rat_is_int :: "rat \<Rightarrow> bool" where
  "rat_is_int r \<longleftrightarrow> snd (quotient_of r) = 1"

definition rat_int :: "rat \<Rightarrow> int" where
  "rat_int r = fst (quotient_of r)"

text \<open>
  \<open>String(n)\<close>: the decimal digits of an integer; for a decimal fraction the shortest expansion
  (at most 20 places; the exponent notation of very large and very small numbers is not modelled).
\<close>

fun frac_places :: "nat \<Rightarrow> rat \<Rightarrow> nat" where
  "frac_places 0 r = 0"
| "frac_places (Suc k) r = (if rat_is_int r then 0 else Suc (frac_places k (10 * r)))"

definition num_str :: "rat \<Rightarrow> string" where
  "num_str r =
     (let k = frac_places 20 r; n = floor (\<bar>r\<bar> * 10 ^ k); sg = (if r < 0 then ''-'' else '''')
      in if k = 0 then int_str (floor r)
         else sg @ int_str (n div 10 ^ k) @ ''.'' @ pad_start k (CHR ''0'') (nat_str (nat (n mod 10 ^ k))))"

text \<open>\<open>String(v)\<close>.\<close>

fun js_string :: "host \<Rightarrow> js \<Rightarrow> string" and js_join :: "host \<Rightarrow> js list \<Rightarrow> string" where
  "js_string h JUndef = ''undefined''"
| "js_string h JNull = ''null''"
| "js_string h (JBool b) = (if b then ''true'' else ''false'')"
| "js_string h (JNum r) = num_str r"
| "js_string h (JStr s) = s"
| "js_string h (JDate t) = h_date_string h t"
| "js_string h (JArr vs) = js_join h vs"
| "js_string h (JObj _) = ''[object Object]''"
| "js_join h [] = ''''"
| "js_join h [v] = (if js_is_nullish v then '''' else js_string h v)"
| "js_join h (v # vs) = (if js_is_nullish v then '''' else js_string h v) @ '','' @ js_join h vs"

section \<open>Text as numbers\<close>

text \<open>\<open>Number(s)\<close>: white space around is dropped, the empty string is 0, then an optional sign
  and either \<open>Infinity\<close> or a decimal literal, or a prefixed hexadecimal, octal or binary literal.\<close>

definition span_digits :: "string \<Rightarrow> string \<times> string" where
  "span_digits s = (takeWhile is_digit s, dropWhile is_digit s)"

definition pow10 :: "int \<Rightarrow> rat" where
  "pow10 k = (if 0 \<le> k then 10 ^ nat k else 1 / 10 ^ nat (- k))"

fun parse_exponent :: "string \<Rightarrow> int option" where
  "parse_exponent [] = Some 0"
| "parse_exponent (c # s) =
     (if c = CHR ''e'' \<or> c = CHR ''E'' then
        (let (neg, ds) = (case s of [] \<Rightarrow> (False, [])
                            | d # r \<Rightarrow> if d = CHR ''-'' then (True, r) else if d = CHR ''+'' then (False, r) else (False, s))
         in if ds \<noteq> [] \<and> list_all is_digit ds
            then Some (if neg then - int (digits_val ds) else int (digits_val ds)) else None)
      else None)"

definition parse_decimal :: "string \<Rightarrow> rat option" where
  "parse_decimal s =
     (let (i, r) = span_digits s;
          (f, r') = (case r of [] \<Rightarrow> ([], []) | c # t \<Rightarrow> if c = CHR ''.'' then span_digits t else ([], r))
      in if i = [] \<and> f = [] then None
         else map_option (\<lambda>e. of_nat (digits_val (i @ f)) * pow10 (e - int (length f))) (parse_exponent r'))"

definition hex_val :: "char \<Rightarrow> nat option" where
  "hex_val c = (let n = code_of (lower_char c) in
     if is_digit c then Some (digit_val c) else if 97 \<le> n \<and> n \<le> 102 then Some (n - 87) else None)"

fun parse_radix :: "nat \<Rightarrow> nat \<Rightarrow> string \<Rightarrow> nat option" where
  "parse_radix b acc [] = Some acc"
| "parse_radix b acc (c # s) =
     (case hex_val c of None \<Rightarrow> None | Some d \<Rightarrow> if d < b then parse_radix b (b * acc + d) s else None)"

definition radix_of :: "char \<Rightarrow> nat option" where
  "radix_of c = (let l = lower_char c in
     if l = CHR ''x'' then Some 16 else if l = CHR ''o'' then Some 8 else if l = CHR ''b'' then Some 2 else None)"

definition fin_of :: "rat option \<Rightarrow> js_number" where
  "fin_of z = (case z of None \<Rightarrow> NaN | Some r \<Rightarrow> Fin r)"

fun neg_number :: "js_number \<Rightarrow> js_number" where
  "neg_number NaN = NaN"
| "neg_number PosInf = NegInf"
| "neg_number NegInf = PosInf"
| "neg_number (Fin r) = Fin (- r)"

definition parse_signless :: "string \<Rightarrow> js_number" where
  "parse_signless s = (if s = ''Infinity'' then PosInf else fin_of (parse_decimal s))"

definition string_number :: "string \<Rightarrow> js_number" where
  "string_number s =
     (case trim s of
        [] \<Rightarrow> Fin 0
      | c # r \<Rightarrow>
          if c = CHR ''-'' then neg_number (parse_signless r)
          else if c = CHR ''+'' then parse_signless r
          else (case r of
                  d # ds \<Rightarrow>
                    (case (if c = CHR ''0'' then radix_of d else None) of
                       Some b \<Rightarrow> if ds = [] then NaN else fin_of (map_option of_nat (parse_radix b 0 ds))
                     | None \<Rightarrow> parse_signless (c # r))
                | [] \<Rightarrow> parse_signless (c # r)))"

text \<open>\<open>Number(v)\<close>.\<close>

fun js_to_number :: "host \<Rightarrow> js \<Rightarrow> js_number" where
  "js_to_number h JUndef = NaN"
| "js_to_number h JNull = Fin 0"
| "js_to_number h (JBool b) = Fin (if b then 1 else 0)"
| "js_to_number h (JNum r) = Fin r"
| "js_to_number h (JStr s) = string_number s"
| "js_to_number h (JDate t) = Fin (of_int t)"
| "js_to_number h (JArr vs) = string_number (js_join h vs)"
| "js_to_number h (JObj _) = NaN"

text \<open>\<open>a > b\<close> and \<open>a < b\<close> for a finite number \<open>a\<close>.\<close>

fun num_gt :: "rat \<Rightarrow> js_number \<Rightarrow> bool" where
  "num_gt a NaN = False"
| "num_gt a PosInf = False"
| "num_gt a NegInf = True"
| "num_gt a (Fin b) = (a > b)"

fun num_lt :: "rat \<Rightarrow> js_number \<Rightarrow> bool" where
  "num_lt a NaN = False"
| "num_lt a PosInf = True"
| "num_lt a NegInf = False"
| "num_lt a (Fin b) = (a < b)"

text \<open>\<open>Number.isSafeInteger\<close>.\<close>

definition safe_integer :: "rat \<Rightarrow> bool" where
  "safe_integer r \<longleftrightarrow> rat_is_int r \<and> \<bar>rat_int r\<bar> \<le> 9007199254740991"

lemma rat_is_int_of_int [simp]: "rat_is_int (of_int n)" "rat_int (of_int n) = n"
  by (simp_all add: rat_is_int_def rat_int_def)

lemma rat_is_int_of_nat [simp]: "rat_is_int (of_nat n)" "rat_int (of_nat n) = int n"
  using rat_is_int_of_int [of "int n"] by simp_all

lemma num_str_int [simp]: "num_str (of_int n) = int_str n"
proof -
  have "frac_places 20 (of_int n) = 0"
    by (subst frac_places.simps(2) [of 19, simplified]) simp
  then show ?thesis by (simp add: num_str_def Let_def)
qed

lemma rat_is_int_numeral [simp]:
  "rat_is_int (numeral n)" "rat_int (numeral n) = numeral n" "rat_is_int 0" "rat_int 0 = 0" "rat_is_int 1" "rat_int 1 = 1"
  using rat_is_int_of_int [of "numeral n"] rat_is_int_of_int [of 0] rat_is_int_of_int [of 1] by simp_all

end
