(* ===== verification/Schema.thy ===== *)
theory Schema
  imports JsValue
begin

text \<open>
  The persistent state: the rows of the database tables the modelled services read and write
  (\<open>apps/api/prisma/schema.prisma\<close>), with the columns they use, and the database as a record of
  tables. Row keys are natural numbers drawn from one counter per table; instants are
  milliseconds since the epoch.
\<close>

type_synonym time = int

section \<open>Enumerations\<close>

datatype actor_type = ByStaff | ByUser | BySystem
datatype creation_mode = ModeWeb | ModeEmail | ModeApi | ModeStaff | ModeAlaris
datatype sla_target = FirstResponse | Resolution
datatype outbound_state = Queued | Processing | Sent | Retry | Failed | Ambiguous
datatype outbound_kind = StaffReply | Autoresponder | AutoCloseMail | WorkflowMail | ReportMail | InternalNotification
datatype event_state = EPending | EProcessing | EProcessed | ERetry | EQuarantined
datatype role = TO | CC | BCC

text \<open>Visibility order of the recipient roles: \<open>TO\<close> before \<open>CC\<close> before \<open>BCC\<close>.\<close>

fun role_rank :: "role \<Rightarrow> nat" where
  "role_rank TO = 0"
| "role_rank CC = 1"
| "role_rank BCC = 2"

instantiation role :: linorder
begin

definition less_eq_role :: "role \<Rightarrow> role \<Rightarrow> bool" where
  "less_eq_role a b \<longleftrightarrow> role_rank a \<le> role_rank b"

definition less_role :: "role \<Rightarrow> role \<Rightarrow> bool" where
  "less_role a b \<longleftrightarrow> role_rank a < role_rank b"

instance
proof
  fix a b c :: role
  show "a < b \<longleftrightarrow> a \<le> b \<and> \<not> b \<le> a"
    by (auto simp: less_role_def less_eq_role_def)
  show "a \<le> a"
    by (simp add: less_eq_role_def)
  show "a \<le> b \<Longrightarrow> b \<le> c \<Longrightarrow> a \<le> c"
    by (simp add: less_eq_role_def)
  show "a \<le> b \<Longrightarrow> b \<le> a \<Longrightarrow> a = b"
    by (cases a; cases b) (simp_all add: less_eq_role_def)
  show "a \<le> b \<or> b \<le> a"
    by (auto simp: less_eq_role_def)
qed

end

section \<open>Rows\<close>

record ticket =
  t_id :: nat
  t_kayakoId :: "nat option"
  t_mask :: string
  t_subject :: string
  t_departmentId :: nat
  t_statusId :: nat
  t_priorityId :: nat
  t_typeId :: "nat option"
  t_userId :: "nat option"
  t_requesterName :: string
  t_requesterEmail :: string
  t_ownerStaffId :: "nat option"
  t_slaPlanId :: "nat option"
  t_dueAt :: "time option"
  t_resolutionDueAt :: "time option"
  t_firstResponseAt :: "time option"
  t_resolvedAt :: "time option"
  t_reopenedAt :: "time option"
  t_creationMode :: creation_mode
  t_creator :: actor_type
  t_flagType :: string
  t_totalReplies :: int
  t_hasAttachments :: bool
  t_hasNotes :: bool
  t_isResolved :: bool
  t_isEscalated :: bool
  t_escalationLevel :: nat
  t_wasReopened :: bool
  t_isPhoneCall :: bool
  t_ipAddress :: string
  t_messageId :: "string option"
  t_mergedIntoId :: "nat option"
  t_customFields :: js
  t_tags :: "string list"          \<comment> \<open>the many-to-many relation to \<open>TicketTag\<close>\<close>
  t_lastReplyAt :: "time option"
  t_lastActivityAt :: time
  t_createdAt :: time

record post =
  p_id :: nat
  p_ticketId :: nat
  p_authorType :: actor_type
  p_staffId :: "nat option"
  p_userId :: "nat option"
  p_fullName :: string
  p_email :: string
  p_subject :: string
  p_contents :: string
  p_isHtml :: bool
  p_isEmailed :: bool
  p_isThirdParty :: bool
  p_creationMode :: creation_mode
  p_messageId :: "string option"
  p_inboundMessageId :: "string option"
  p_createdAt :: time

record tnote =
  n_id :: nat
  n_ticketId :: nat
  n_staffId :: "nat option"
  n_contents :: string

record attachment =
  a_id :: nat
  a_ticketId :: "nat option"
  a_postId :: "nat option"
  a_noteId :: "nat option"
  a_fileName :: string
  a_mimeType :: string
  a_size :: nat
  a_storageKey :: string
  a_claimToken :: "string option"

record audit =
  au_id :: nat
  au_ticketId :: nat
  au_staffId :: "nat option"
  au_actorType :: actor_type
  au_action :: string
  au_field :: "string option"
  au_oldValue :: "string option"
  au_newValue :: "string option"

record tlink =
  l_id :: nat
  l_sourceId :: nat
  l_targetId :: nat
  l_linkType :: string

record staff =
  s_id :: nat
  s_email :: string
  s_firstName :: string
  s_lastName :: string
  s_passwordHash :: string
  s_isEnabled :: bool
  s_authVersion :: int
  s_groupId :: nat
  s_lastLoginAt :: "time option"
  s_signature :: string
  s_username :: string

record staff_group =
  g_id :: nat
  g_title :: string
  g_isAdmin :: bool
  g_permissions :: "string list"

record ticket_status =
  st_id :: nat
  st_title :: string
  st_displayOrder :: int
  st_markAsResolved :: bool
  st_isDefault :: bool

record sla_schedule =
  sc_id :: nat
  sc_workHours :: "(string \<times> (string \<times> string) list) list"
  sc_holidays :: "time list"

record sla_plan =
  pl_id :: nat
  pl_isEnabled :: bool
  pl_firstResponseSeconds :: "int option"
  pl_resolutionSeconds :: "int option"
  pl_scheduleId :: "nat option"

record escalation_rule =
  ru_id :: nat
  ru_slaPlanId :: nat
  ru_name :: string
  ru_targetType :: sla_target
  ru_thresholdSeconds :: int
  ru_actions :: "js list"
  ru_isEnabled :: bool

record sla_event =
  ev_id :: nat
  ev_ticketId :: nat
  ev_breachType :: sla_target
  ev_sourceKey :: string

record workflow =
  w_id :: nat
  w_title :: string
  w_criteria :: js
  w_actions :: js
  w_isEnabled :: bool
  w_sortOrder :: int
  w_updatedAt :: time

record workflow_event =
  e_id :: nat
  e_ticketId :: nat
  e_eventType :: string
  e_sourceKey :: string
  e_actions :: js
  e_state :: event_state
  e_attempts :: nat
  e_nextAttemptAt :: "time option"
  e_leaseOwner :: "string option"
  e_leaseExpiresAt :: "time option"
  e_leaseVersion :: nat
  e_lastError :: "string option"
  e_processedAt :: "time option"
  e_createdAt :: time
  e_updatedAt :: time

record outbound =
  o_id :: nat
  o_ticketId :: "nat option"
  o_postId :: "nat option"
  o_emailQueueId :: "nat option"
  o_reportRunId :: "nat option"
  o_slaEventId :: "nat option"
  o_idempotencyKey :: "string option"
  o_kind :: outbound_kind
  o_state :: outbound_state
  o_messageId :: string
  o_fromAddress :: string
  o_replyToAddress :: "string option"
  o_subject :: string
  o_htmlBody :: string
  o_textBody :: string
  o_inReplyTo :: "string option"
  o_references :: "string list"
  o_recipients :: "(string \<times> role) list"
  o_attachments :: "(string \<times> string \<times> string) list"   \<comment> \<open>file name, MIME type, storage key\<close>
  o_attempts :: nat
  o_nextAttemptAt :: "time option"
  o_leaseOwner :: "string option"
  o_leaseExpiresAt :: "time option"
  o_leaseVersion :: nat
  o_lastError :: "string option"
  o_providerResponse :: "string option"
  o_acceptedAt :: "time option"
  o_sentAt :: "time option"
  o_createdAt :: time

record email_template =
  tp_key :: string
  tp_locale :: string
  tp_subject :: string
  tp_html :: string
  tp_text :: string

record macro =
  m_id :: nat
  m_title :: string
  m_replyText :: string
  m_actions :: js

record email_queue =
  q_id :: nat
  q_emailAddress :: string
  q_departmentId :: "nat option"
  q_signature :: string
  q_isEnabled :: bool

record client =
  u_id :: nat
  u_fullName :: string
  u_emails :: "(string \<times> bool) list"      \<comment> \<open>address, primary\<close>
  u_organizationId :: "nat option"

datatype field_type = CHECKBOX | DATE | MULTISELECT | NUMBER | TEXT | TEXTAREA | PASSWORD | RADIO | SELECT | FILE | CUSTOM

record custom_field =
  cf_fieldKey :: string
  cf_type :: field_type
  cf_isRequired :: bool
  cf_isEncrypted :: bool

section \<open>The database\<close>

record db =
  tickets :: "ticket list"
  posts :: "post list"
  ticket_notes :: "tnote list"
  attachments :: "attachment list"
  watchers :: "(nat \<times> nat) list"           \<comment> \<open>ticket, staff\<close>
  tag_names :: "string list"
  audits :: "audit list"
  links :: "tlink list"
  dept_staff :: "(nat \<times> nat) list"         \<comment> \<open>department, staff\<close>
  staffs :: "staff list"
  groups :: "staff_group list"
  statuses :: "ticket_status list"
  priorities :: "nat list"
  types :: "nat list"
  departments :: "nat list"
  plans :: "sla_plan list"
  schedules :: "sla_schedule list"
  rules :: "escalation_rule list"
  sla_events :: "sla_event list"
  workflows :: "workflow list"
  wf_events :: "workflow_event list"
  outbox :: "outbound list"
  templates :: "email_template list"
  macros :: "macro list"
  time_entries :: "(nat \<times> nat) list"      \<comment> \<open>entry, ticket\<close>
  follow_ups :: "(nat \<times> nat) list"        \<comment> \<open>follow-up, ticket\<close>
  ticket_recipients :: "(nat \<times> string \<times> role) list"
  queues :: "email_queue list"
  clients :: "client list"
  ticket_fields :: "custom_field list"     \<comment> \<open>the definitions of the \<open>TICKET\<close> scope\<close>
  seq_ticket :: nat
  seq_post :: nat
  seq_note :: nat
  seq_audit :: nat
  seq_link :: nat
  seq_sla :: nat
  seq_event :: nat
  seq_outbox :: nat
  seq_client :: nat

type_synonym 'a act_db = "(db, 'a) act"

text \<open>Lookups by key.\<close>

definition ticket_by_id :: "nat \<Rightarrow> db \<Rightarrow> ticket option" where
  "ticket_by_id i d = find_row (\<lambda>t. t_id t = i) (tickets d)"

definition staff_by_id :: "nat \<Rightarrow> db \<Rightarrow> staff option" where
  "staff_by_id i d = find_row (\<lambda>s. s_id s = i) (staffs d)"

definition group_by_id :: "nat \<Rightarrow> db \<Rightarrow> staff_group option" where
  "group_by_id i d = find_row (\<lambda>g. g_id g = i) (groups d)"

definition status_by_id :: "nat \<Rightarrow> db \<Rightarrow> ticket_status option" where
  "status_by_id i d = find_row (\<lambda>s. st_id s = i) (statuses d)"

text \<open>\<open>staff.staffGroup.isAdmin\<close> and \<open>staff.departments.some(\<dots>)\<close>.\<close>

definition staff_is_admin :: "db \<Rightarrow> staff \<Rightarrow> bool" where
  "staff_is_admin d s = (case group_by_id (s_groupId s) d of None \<Rightarrow> False | Some g \<Rightarrow> g_isAdmin g)"

definition is_member :: "db \<Rightarrow> nat \<Rightarrow> nat \<Rightarrow> bool" where
  "is_member d dep sid \<longleftrightarrow> (dep, sid) \<in> set (dept_staff d)"

text \<open>
  A ticket update by key: it throws when no row has the key, and when the new row refers to a
  department, status, priority, type, owner, plan or merge target that does not exist (the
  foreign keys of the table).
\<close>

definition opt_in :: "nat option \<Rightarrow> nat list \<Rightarrow> bool" where
  "opt_in z ids = (case z of None \<Rightarrow> True | Some i \<Rightarrow> i \<in> set ids)"

definition ticket_fk :: "db \<Rightarrow> ticket \<Rightarrow> bool" where
  "ticket_fk d t \<longleftrightarrow>
     t_departmentId t \<in> set (departments d) \<and> t_statusId t \<in> st_id ` set (statuses d) \<and>
     t_priorityId t \<in> set (priorities d) \<and> opt_in (t_typeId t) (types d) \<and>
     opt_in (t_ownerStaffId t) (map s_id (staffs d)) \<and> opt_in (t_slaPlanId t) (map pl_id (plans d)) \<and>
     opt_in (t_mergedIntoId t) (map t_id (tickets d))"

definition set_tickets :: "(nat \<Rightarrow> bool) \<Rightarrow> (ticket \<Rightarrow> ticket) \<Rightarrow> db \<Rightarrow> db" where
  "set_tickets p f d = d\<lparr>tickets := update_rows (\<lambda>t. p (t_id t)) f (tickets d)\<rparr>"

definition update_ticket :: "nat \<Rightarrow> (ticket \<Rightarrow> ticket) \<Rightarrow> ticket act_db" where
  "update_ticket i f d =
     (case ticket_by_id i d of
        None \<Rightarrow> (Inl RecordNotFound, d)
      | Some t \<Rightarrow>
          if ticket_fk d (f t) then (Inr (f t), set_tickets (\<lambda>j. j = i) f d)
          else (Inl (Failure ''P2003''), d))"

text \<open>\<open>ticket.updateMany\<close>: returns the number of rows changed.\<close>

definition update_many_tickets :: "(ticket \<Rightarrow> bool) \<Rightarrow> (ticket \<Rightarrow> ticket) \<Rightarrow> nat act_db" where
  "update_many_tickets p f d =
     (Inr (count_rows p (tickets d)), d\<lparr>tickets := update_rows p f (tickets d)\<rparr>)"

text \<open>The audit log of a ticket (\<open>TicketsService.writeAudit\<close>).\<close>

definition writeAudit ::
  "nat \<Rightarrow> string \<Rightarrow> nat option \<Rightarrow> actor_type \<Rightarrow> string option \<Rightarrow> string option \<Rightarrow> string option \<Rightarrow> nat act_db" where
  "writeAudit ticketId action staffId actorType field oldValue newValue d =
     (Inr (seq_audit d),
      d\<lparr>audits := audits d @ [\<lparr>au_id = seq_audit d, au_ticketId = ticketId, au_staffId = staffId,
           au_actorType = actorType, au_action = action, au_field = field, au_oldValue = oldValue,
           au_newValue = newValue\<rparr>],
        seq_audit := Suc (seq_audit d)\<rparr>)"

lemma ticket_by_id_SomeD: "ticket_by_id i d = Some t \<Longrightarrow> t \<in> set (tickets d) \<and> t_id t = i"
  by (auto simp: ticket_by_id_def dest: find_row_SomeD)

section \<open>Sample rows\<close>

text \<open>An empty database, and rows with default columns, for concrete evaluations.\<close>

definition empty_db :: db where
  "empty_db =
     \<lparr>tickets = [], posts = [], ticket_notes = [], attachments = [], watchers = [], tag_names = [],
      audits = [], links = [], dept_staff = [], staffs = [], groups = [], statuses = [],
      priorities = [], types = [], departments = [], plans = [], schedules = [], rules = [],
      sla_events = [], workflows = [], wf_events = [], outbox = [], templates = [], macros = [],
      time_entries = [], follow_ups = [], ticket_recipients = [], queues = [],
      clients = [], ticket_fields = [], seq_ticket = 0, seq_post = 0, seq_note = 0, seq_audit = 0,
      seq_link = 0, seq_sla = 0, seq_event = 0, seq_outbox = 0, seq_client = 0\<rparr>"

definition sample_ticket :: "nat \<Rightarrow> nat \<Rightarrow> ticket" where
  "sample_ticket i dep =
     \<lparr>t_id = i, t_kayakoId = None, t_mask = '''', t_subject = ''Subject'', t_departmentId = dep,
      t_statusId = 1, t_priorityId = 1, t_typeId = None, t_userId = None,
      t_requesterName = ''Ann'', t_requesterEmail = ''ann@example.org'', t_ownerStaffId = None,
      t_slaPlanId = None, t_dueAt = None, t_resolutionDueAt = None, t_firstResponseAt = None,
      t_resolvedAt = None, t_reopenedAt = None, t_creationMode = ModeWeb, t_creator = ByUser,
      t_flagType = ''NONE'', t_totalReplies = 0, t_hasAttachments = False, t_hasNotes = False,
      t_isResolved = False, t_isEscalated = False, t_escalationLevel = 0, t_wasReopened = False,
      t_isPhoneCall = False, t_ipAddress = '''', t_messageId = None, t_mergedIntoId = None,
      t_customFields = JObj [], t_tags = [], t_lastReplyAt = None, t_lastActivityAt = 0,
      t_createdAt = 0\<rparr>"

definition sample_post :: "nat \<Rightarrow> nat \<Rightarrow> post" where
  "sample_post i tid =
     \<lparr>p_id = i, p_ticketId = tid, p_authorType = ByUser, p_staffId = None, p_userId = None,
      p_fullName = ''Ann'', p_email = ''ann@example.org'', p_subject = ''Subject'', p_contents = ''Hi'',
      p_isHtml = False, p_isEmailed = False, p_isThirdParty = False, p_creationMode = ModeWeb,
      p_messageId = None, p_inboundMessageId = None, p_createdAt = 0\<rparr>"

definition sample_staff :: "nat \<Rightarrow> nat \<Rightarrow> staff" where
  "sample_staff i gid =
     \<lparr>s_id = i, s_email = ''a@b.c'', s_firstName = ''Al'', s_lastName = ''Bo'', s_passwordHash = '''',
      s_isEnabled = True, s_authVersion = 0, s_groupId = gid, s_lastLoginAt = None,
      s_signature = '''', s_username = ''''\<rparr>"

definition sample_group :: "nat \<Rightarrow> bool \<Rightarrow> staff_group" where
  "sample_group i admin = \<lparr>g_id = i, g_title = ''Group'', g_isAdmin = admin, g_permissions = []\<rparr>"

end
