(* ===== verification/TicketAccess.thy ===== *)
theory TicketAccess
  imports Schema
begin

text \<open>
  Department isolation of tickets (\<open>tickets/ticket-access-policy.service.ts\<close>). A staff member who
  is not an administrator sees exactly the tickets of the departments they have a
  \<open>DepartmentStaff\<close> row for. The locale \<open>access_policy\<close> is what the ticket service relies on: a
  visibility predicate, a lookup and a mutation fence that obey it; the policy of the source is
  its interpretation.
\<close>

section \<open>The policy\<close>

record actor =
  ac_staffId :: nat
  ac_isAdmin :: bool

record department_scope =
  ds_unrestricted :: bool
  ds_departmentIds :: "nat list"

text \<open>\<open>[...new Set(xs)]\<close>: the distinct elements in the order of their first occurrence.\<close>

definition js_set :: "'a list \<Rightarrow> 'a list" where
  "js_set xs = rev (remdups (rev xs))"

definition resolveScope :: "actor \<Rightarrow> db \<Rightarrow> department_scope" where
  "resolveScope a d =
     (if ac_isAdmin a then \<lparr>ds_unrestricted = True, ds_departmentIds = []\<rparr>
      else \<lparr>ds_unrestricted = False,
            ds_departmentIds = js_set (map fst (filter (\<lambda>(dep, sid). sid = ac_staffId a) (dept_staff d)))\<rparr>)"

text \<open>The relation predicate: the ticket's department has a membership row of the actor.\<close>

definition ticketWhere :: "actor \<Rightarrow> db \<Rightarrow> ticket \<Rightarrow> bool" where
  "ticketWhere a d t \<longleftrightarrow> ac_isAdmin a \<or> is_member d (t_departmentId t) (ac_staffId a)"

definition ticketWhereForScope :: "department_scope \<Rightarrow> ticket \<Rightarrow> bool" where
  "ticketWhereForScope sc t \<longleftrightarrow> ds_unrestricted sc \<or> t_departmentId t \<in> set (ds_departmentIds sc)"

definition assertCanAccessDepartment :: "actor \<Rightarrow> nat \<Rightarrow> unit act_db" where
  "assertCanAccessDepartment a dep =
     bnd (reads (resolveScope a)) (\<lambda>scope.
       require (ds_unrestricted scope \<or> dep \<in> set (ds_departmentIds scope)) (NotFound ''Department not found''))"

definition assertCanAccessDepartmentInTransaction :: "actor \<Rightarrow> nat \<Rightarrow> unit act_db" where
  "assertCanAccessDepartmentInTransaction a dep =
     (if ac_isAdmin a then ret ()
      else bnd (reads (\<lambda>d. is_member d dep (ac_staffId a))) (\<lambda>membership.
        require membership (NotFound ''Department not found'')))"

definition assertCanAccessTicket :: "actor \<Rightarrow> nat \<Rightarrow> unit act_db" where
  "assertCanAccessTicket a ticketId =
     bnd (reads (\<lambda>d. find_row (\<lambda>t. t_id t = ticketId \<and> ticketWhere a d t) (tickets d))) (\<lambda>ticket.
       require (ticket \<noteq> None) (NotFound ''Ticket not found''))"

definition fenceTicket :: "actor \<Rightarrow> nat \<Rightarrow> time \<Rightarrow> unit act_db" where
  "fenceTicket a ticketId now =
     bnd (\<lambda>d. update_many_tickets (\<lambda>t. t_id t = ticketId \<and> ticketWhere a d t)
                (\<lambda>t. t\<lparr>t_lastActivityAt := now\<rparr>) d) (\<lambda>count.
       require (count = 1) (NotFound ''Ticket not found''))"

definition assertCanAccessTickets :: "actor \<Rightarrow> nat list \<Rightarrow> unit act_db" where
  "assertCanAccessTickets a ticketIds =
     (let uniqueIds = js_set ticketIds
      in if uniqueIds = [] then ret ()
         else bnd (reads (\<lambda>d. filter (\<lambda>t. t_id t \<in> set uniqueIds \<and> ticketWhere a d t) (tickets d))) (\<lambda>visible.
           require (length visible = length uniqueIds) (NotFound ''One or more tickets not found'')))"

definition assertCanAccessAttachment :: "actor \<Rightarrow> nat \<Rightarrow> unit act_db" where
  "assertCanAccessAttachment a attachmentId =
     bnd (reads (\<lambda>d. find_row (\<lambda>x. a_id x = attachmentId) (attachments d))) (\<lambda>attachment.
       case attachment of
         None \<Rightarrow> throw (NotFound ''Attachment not found'')
       | Some x \<Rightarrow> (case a_ticketId x of
           None \<Rightarrow> throw (NotFound ''Attachment not found'')
         | Some ticketId \<Rightarrow> assertCanAccessTicket a ticketId))"

definition assertCanAccessTimeEntry :: "actor \<Rightarrow> nat \<Rightarrow> unit act_db" where
  "assertCanAccessTimeEntry a timeEntryId =
     bnd (reads (\<lambda>d. map_of (time_entries d) timeEntryId)) (\<lambda>entry.
       case entry of
         None \<Rightarrow> throw (NotFound ''Time entry not found'')
       | Some ticketId \<Rightarrow> assertCanAccessTicket a ticketId)"

definition assertCanAccessFollowUp :: "actor \<Rightarrow> nat \<Rightarrow> unit act_db" where
  "assertCanAccessFollowUp a followUpId =
     bnd (reads (\<lambda>d. map_of (follow_ups d) followUpId)) (\<lambda>followUp.
       case followUp of
         None \<Rightarrow> throw (NotFound ''Follow-up not found'')
       | Some ticketId \<Rightarrow> assertCanAccessTicket a ticketId)"

definition assertAssigneeCanHandleDepartments :: "nat \<Rightarrow> nat list \<Rightarrow> unit act_db" where
  "assertAssigneeCanHandleDepartments assigneeStaffId departmentIds =
     bnd (reads (staff_by_id assigneeStaffId)) (\<lambda>staff.
       case staff of
         None \<Rightarrow> throw (NotFound (''Staff '' @ nat_str assigneeStaffId @ '' not found''))
       | Some s \<Rightarrow>
           if \<not> s_isEnabled s then
             throw (BadRequest (''Staff '' @ nat_str assigneeStaffId @ '' is disabled and cannot be assigned''))
           else bnd (reads (\<lambda>d. staff_is_admin d s)) (\<lambda>admin.
             if admin then ret ()
             else bnd (reads (\<lambda>d. \<exists>dep \<in> set departmentIds. \<not> is_member d dep assigneeStaffId)) (\<lambda>outside.
               require (\<not> outside) (BadRequest ''Assignee cannot access this ticket department''))))"

section \<open>Facts about the policy\<close>

lemma set_js_set [simp]: "set (js_set xs) = set xs"
  by (simp add: js_set_def)

lemma distinct_js_set [simp]: "distinct (js_set xs)"
  by (simp add: js_set_def)

lemma js_set_Nil_iff [simp]: "js_set xs = [] \<longleftrightarrow> xs = []"
  by (simp add: js_set_def)

lemma resolveScope_where: "ticketWhereForScope (resolveScope a d) t = ticketWhere a d t"
  by (force simp: ticketWhereForScope_def resolveScope_def ticketWhere_def is_member_def)

lemma ticketWhere_cong:
  "dept_staff d' = dept_staff d \<Longrightarrow> t_departmentId t' = t_departmentId t \<Longrightarrow> ticketWhere a d' t' = ticketWhere a d t"
  by (simp add: ticketWhere_def is_member_def)

text \<open>Keys of a table are distinct; the next key is above every key in use.\<close>

definition ids_ok :: "db \<Rightarrow> bool" where
  "ids_ok d \<longleftrightarrow>
     distinct (map t_id (tickets d)) \<and> (\<forall>t \<in> set (tickets d). t_id t < seq_ticket d) \<and>
     distinct (map p_id (posts d)) \<and> (\<forall>p \<in> set (posts d). p_id p < seq_post d \<and> p_ticketId p < seq_ticket d)"

lemma ids_ok_ticket_unique:
  "ids_ok d \<Longrightarrow> t \<in> set (tickets d) \<Longrightarrow> ticket_by_id (t_id t) d = Some t"
  unfolding ids_ok_def ticket_by_id_def
  by (rule find_row_unique) (auto simp: distinct_map inj_on_def)

definition accessible :: "actor \<Rightarrow> db \<Rightarrow> nat \<Rightarrow> bool" where
  "accessible a d i \<longleftrightarrow> (\<exists>t. ticket_by_id i d = Some t \<and> ticketWhere a d t)"

lemma accessible_iff:
  assumes "ids_ok d"
  shows "accessible a d i \<longleftrightarrow> (\<exists>t \<in> set (tickets d). t_id t = i \<and> ticketWhere a d t)"
  unfolding accessible_def using ids_ok_ticket_unique [OF assms] ticket_by_id_SomeD by blast

lemma find_visible_None:
  "ids_ok d \<Longrightarrow> find_row (\<lambda>t. t_id t = i \<and> ticketWhere a d t) (tickets d) = None \<longleftrightarrow> \<not> accessible a d i"
  by (auto simp: find_row_None_iff accessible_iff)

lemma count_visible_le:
  "distinct (map t_id (tickets d)) \<Longrightarrow> count_rows (\<lambda>t. t_id t = i \<and> ticketWhere a d t) (tickets d) \<le> 1"
  by (rule count_rows_distinct [where k = t_id and i = i]) simp_all

lemma count_visible:
  assumes "ids_ok d"
  shows "count_rows (\<lambda>t. t_id t = i \<and> ticketWhere a d t) (tickets d) = (if accessible a d i then 1 else 0)"
proof (cases "accessible a d i")
  case True
  have "count_rows (\<lambda>t. t_id t = i \<and> ticketWhere a d t) (tickets d) \<le> 1"
    using assms by (intro count_visible_le) (simp add: ids_ok_def)
  moreover have "count_rows (\<lambda>t. t_id t = i \<and> ticketWhere a d t) (tickets d) \<noteq> 0"
    using True by (auto simp: count_rows_0_iff accessible_iff [OF assms])
  ultimately show ?thesis using True by simp
next
  case False
  then show ?thesis by (auto simp: count_rows_0_iff accessible_iff [OF assms])
qed

section \<open>What a handler may touch\<close>

text \<open>
  The rows that belong to the tickets of a set of ids: the ticket itself and its posts, notes,
  attachments, audit entries, watchers and links.
\<close>

record ticket_slice =
  sl_tickets :: "ticket list"
  sl_posts :: "post list"
  sl_notes :: "tnote list"
  sl_attachments :: "attachment list"
  sl_audits :: "audit list"
  sl_watchers :: "(nat \<times> nat) list"
  sl_links :: "tlink list"

definition slice :: "nat set \<Rightarrow> db \<Rightarrow> ticket_slice" where
  "slice H d =
     \<lparr>sl_tickets = filter (\<lambda>t. t_id t \<in> H) (tickets d),
      sl_posts = filter (\<lambda>p. p_ticketId p \<in> H) (posts d),
      sl_notes = filter (\<lambda>n. n_ticketId n \<in> H) (ticket_notes d),
      sl_attachments = filter (\<lambda>x. a_ticketId x \<in> Some ` H) (attachments d),
      sl_audits = filter (\<lambda>x. au_ticketId x \<in> H) (audits d),
      sl_watchers = filter (\<lambda>x. fst x \<in> H) (watchers d),
      sl_links = filter (\<lambda>l. l_sourceId l \<in> H \<or> l_targetId l \<in> H) (links d)\<rparr>"

text \<open>The ids \<open>H\<close> are in use and belong to tickets the actor cannot see.\<close>

definition hidden_ok :: "actor \<Rightarrow> nat set \<Rightarrow> db \<Rightarrow> bool" where
  "hidden_ok a H d \<longleftrightarrow>
     distinct (map t_id (tickets d)) \<and> (\<forall>t \<in> set (tickets d). t_id t < seq_ticket d) \<and>
     (\<forall>i \<in> H. i < seq_ticket d) \<and>
     (\<forall>t \<in> set (tickets d). t_id t \<in> H \<longrightarrow> \<not> ticketWhere a d t)"

definition isolates :: "actor \<Rightarrow> nat set \<Rightarrow> db \<Rightarrow> db \<Rightarrow> bool" where
  "isolates a H d d' \<longleftrightarrow> (hidden_ok a H d \<longrightarrow> hidden_ok a H d' \<and> slice H d' = slice H d)"

text \<open>
  What the ticket commands rely on: a per-ticket guard, a fence for writes and a guard for a
  whole set of tickets. Each of them leaves hidden rows alone, and when it succeeds none of the
  tickets it was asked about is hidden.
\<close>

locale access_policy = frame R for R :: "'s \<Rightarrow> 's \<Rightarrow> bool" +
  fixes ok :: "'s \<Rightarrow> bool"
    and hidden :: "nat set"
    and guard :: "nat \<Rightarrow> ('s, unit) act"
    and fence :: "nat \<Rightarrow> time \<Rightarrow> ('s, unit) act"
    and bulk :: "nat list \<Rightarrow> ('s, unit) act"
  assumes unconstrained: "\<not> ok s \<Longrightarrow> R s t"
    and guard_frame: "R s (snd (guard i s))"
    and fence_frame: "R s (snd (fence i now s))"
    and bulk_frame: "R s (snd (bulk is s))"
    and guard_sound: "ok s \<Longrightarrow> fst (guard i s) = Inr () \<Longrightarrow> i \<notin> hidden"
    and fence_sound: "ok s \<Longrightarrow> fst (fence i now s) = Inr () \<Longrightarrow> i \<notin> hidden"
    and bulk_sound: "ok s \<Longrightarrow> fst (bulk is s) = Inr () \<Longrightarrow> set is \<inter> hidden = {}"
begin

lemma stays_checked:
  assumes frame_m: "\<And>s. R s (snd (m s))"
    and sound: "\<And>s. ok s \<Longrightarrow> fst (m s) = Inr () \<Longrightarrow> P"
    and body: "P \<Longrightarrow> stays (f ())"
  shows "stays (bnd m f)"
  unfolding stays_def
proof
  fix s
  show "R s (snd (bnd m f s))"
  proof (cases "m s")
    case (Pair r s')
    show ?thesis
    proof (cases r)
      case (Inl e)
      then show ?thesis using frame_m [of s] Pair by (simp add: bnd_def)
    next
      case (Inr u)
      show ?thesis
      proof (cases "ok s")
        case True
        then have P using sound [of s] Pair Inr by simp
        then have "R s' (snd (f u s'))" using body by (simp add: stays_def)
        with frame_m [of s] Pair Inr frame_trans show ?thesis by (auto simp: bnd_def)
      qed (rule unconstrained)
    qed
  qed
qed

lemma stays_guard: "stays (guard i)"
  by (simp add: stays_def guard_frame)

lemma stays_fence: "stays (fence i now)"
  by (simp add: stays_def fence_frame)

lemma stays_bulk: "stays (bulk is)"
  by (simp add: stays_def bulk_frame)

lemma guarded: "(i \<notin> hidden \<Longrightarrow> stays m) \<Longrightarrow> stays (sq (guard i) m)"
  unfolding sq_def by (rule stays_checked [OF guard_frame guard_sound])

lemma fenced: "(i \<notin> hidden \<Longrightarrow> stays m) \<Longrightarrow> stays (sq (fence i now) m)"
  unfolding sq_def by (rule stays_checked [OF fence_frame fence_sound])

lemma bulk_guarded: "(set is \<inter> hidden = {} \<Longrightarrow> stays m) \<Longrightarrow> stays (sq (bulk is) m)"
  unfolding sq_def by (rule stays_checked [OF bulk_frame bulk_sound])

end

lemma hidden_ok_visible: "hidden_ok a H d \<Longrightarrow> t \<in> set (tickets d) \<Longrightarrow> ticketWhere a d t \<Longrightarrow> t_id t \<notin> H"
  by (auto simp: hidden_ok_def)

lemma ticketWhere_activity [simp]: "ticketWhere a (d\<lparr>tickets := ts\<rparr>) t = ticketWhere a d t"
  by (simp add: ticketWhere_def is_member_def)

lemma slice_tickets_update:
  assumes "\<And>t. p t \<Longrightarrow> t \<in> set (tickets d) \<Longrightarrow> t_id t \<notin> H \<and> t_id (f t) = t_id t"
  shows "filter (\<lambda>t. t_id t \<in> H) (update_rows p f (tickets d)) = filter (\<lambda>t. t_id t \<in> H) (tickets d)"
  using assms
proof -
  have "filter (\<lambda>t. t_id t \<in> H) (update_rows p f ts) = filter (\<lambda>t. t_id t \<in> H) ts"
    if "\<forall>t \<in> set ts. p t \<longrightarrow> t_id t \<notin> H \<and> t_id (f t) = t_id t" for ts
    using that by (induction ts) auto
  then show ?thesis using assms by blast
qed

lemma map_t_id_update:
  "(\<And>t. p t \<Longrightarrow> t \<in> set ts \<Longrightarrow> t_id (f t) = t_id t) \<Longrightarrow> map t_id (update_rows p f ts) = map t_id ts"
  by (induction ts) auto

text \<open>Updates of rows of tickets outside \<open>H\<close> leave everything about \<open>H\<close> as it was.\<close>

lemma isolates_update:
  assumes "\<And>t. hidden_ok a H d \<Longrightarrow> p t \<Longrightarrow> t \<in> set (tickets d) \<Longrightarrow> t_id t \<notin> H \<and> t_id (f t) = t_id t"
  shows "isolates a H d (d\<lparr>tickets := update_rows p f (tickets d)\<rparr>)"
proof -
  let ?d = "d\<lparr>tickets := update_rows p f (tickets d)\<rparr>"
  have "hidden_ok a H ?d \<and> slice H ?d = slice H d" if ok: "hidden_ok a H d"
  proof
    note upd = assms [OF ok]
    have ids: "map t_id (tickets ?d) = map t_id (tickets d)"
      using upd by (simp add: map_t_id_update)
    have "\<not> ticketWhere a d t" if "t \<in> set (update_rows p f (tickets d))" "t_id t \<in> H" for t
      using that upd ok by (auto simp: set_update_rows hidden_ok_def)
    moreover have "t_id t < seq_ticket d" if "t \<in> set (update_rows p f (tickets d))" for t
      using that upd ok by (fastforce simp: set_update_rows hidden_ok_def)
    ultimately show "hidden_ok a H ?d"
      using ok ids by (simp add: hidden_ok_def)
    show "slice H ?d = slice H d"
      using upd by (simp add: slice_def slice_tickets_update)
  qed
  then show ?thesis by (simp add: isolates_def)
qed

interpretation iso: frame "isolates a H" for a H
  by unfold_locales (auto simp: isolates_def)

lemma assertCanAccessTicket_state [simp]: "snd (assertCanAccessTicket a i d) = d"
  by (simp add: assertCanAccessTicket_def act_defs)

lemma assertCanAccessTickets_state [simp]: "snd (assertCanAccessTickets a is d) = d"
  by (simp add: assertCanAccessTickets_def act_defs Let_def)

lemma assertCanAccessTicket_visible:
  "fst (assertCanAccessTicket a i d) = Inr () \<Longrightarrow>
   \<exists>t \<in> set (tickets d). t_id t = i \<and> ticketWhere a d t"
  by (cases "find_row (\<lambda>t. t_id t = i \<and> ticketWhere a d t) (tickets d)")
     (auto simp: assertCanAccessTicket_def act_defs dest: find_row_SomeD)

lemma fenceTicket_frame: "isolates a H d (snd (fenceTicket a i now d))"
proof -
  have "snd (fenceTicket a i now d) =
      d\<lparr>tickets := update_rows (\<lambda>t. t_id t = i \<and> ticketWhere a d t) (\<lambda>t. t\<lparr>t_lastActivityAt := now\<rparr>) (tickets d)\<rparr>"
    by (simp add: fenceTicket_def act_defs update_many_tickets_def)
  moreover have "isolates a H d \<dots>"
    by (rule isolates_update) (auto dest: hidden_ok_visible)
  ultimately show ?thesis by simp
qed

lemma fenceTicket_visible:
  assumes "fst (fenceTicket a i now d) = Inr ()"
  shows "\<exists>t \<in> set (tickets d). t_id t = i \<and> ticketWhere a d t"
proof -
  have "count_rows (\<lambda>t. t_id t = i \<and> ticketWhere a d t) (tickets d) \<noteq> 0"
    using assms by (auto simp: fenceTicket_def act_defs update_many_tickets_def split: if_splits)
  then show ?thesis by (auto simp: count_rows_0_iff)
qed

lemma visible_subset_card:
  assumes "distinct (map t_id ts)" "distinct is"
    and "length (filter (\<lambda>t. t_id t \<in> set is \<and> P t) ts) = length is"
  shows "\<forall>i \<in> set is. \<exists>t \<in> set ts. t_id t = i \<and> P t"
proof -
  let ?vs = "filter (\<lambda>t. t_id t \<in> set is \<and> P t) ts"
  have "distinct (map t_id ?vs)"
    using assms(1) by (induction ts) auto
  then have "card (t_id ` set ?vs) = length is"
    using assms(3) by (metis distinct_card length_map set_map)
  moreover have "t_id ` set ?vs \<subseteq> set is" by auto
  ultimately have "t_id ` set ?vs = set is"
    using assms(2) by (simp add: card_subset_eq distinct_card)
  then have "i \<in> t_id ` set ?vs" if "i \<in> set is" for i
    using that by blast
  then show ?thesis by fastforce
qed

lemma assertCanAccessTickets_visible:
  assumes "distinct (map t_id (tickets d))" "fst (assertCanAccessTickets a is d) = Inr ()"
  shows "\<forall>i \<in> set is. \<exists>t \<in> set (tickets d). t_id t = i \<and> ticketWhere a d t"
proof (cases "is = []")
  case False
  have "length (filter (\<lambda>t. t_id t \<in> set (js_set is) \<and> ticketWhere a d t) (tickets d)) = length (js_set is)"
    using assms(2) False
    by (auto simp: assertCanAccessTickets_def act_defs Let_def split: if_splits)
  from visible_subset_card [OF assms(1) distinct_js_set this] show ?thesis
    by simp
qed simp

interpretation acc: access_policy "isolates a H" "hidden_ok a H" H "assertCanAccessTicket a" "fenceTicket a"
  "assertCanAccessTickets a" for a H
proof unfold_locales
  fix s t :: db and i :: nat and now :: time and is' :: "nat list"
  show "\<not> hidden_ok a H s \<Longrightarrow> isolates a H s t"
    by (simp add: isolates_def)
  show "isolates a H s (snd (assertCanAccessTicket a i s))"
    by (simp add: iso.frame_refl)
  show "isolates a H s (snd (fenceTicket a i now s))"
    by (rule fenceTicket_frame)
  show "isolates a H s (snd (assertCanAccessTickets a is' s))"
    by (simp add: iso.frame_refl)
  show "hidden_ok a H s \<Longrightarrow> fst (assertCanAccessTicket a i s) = Inr () \<Longrightarrow> i \<notin> H"
    by (auto dest!: assertCanAccessTicket_visible dest: hidden_ok_visible)
  show "hidden_ok a H s \<Longrightarrow> fst (fenceTicket a i now s) = Inr () \<Longrightarrow> i \<notin> H"
    by (auto dest!: fenceTicket_visible dest: hidden_ok_visible)
  show "hidden_ok a H s \<Longrightarrow> fst (assertCanAccessTickets a is' s) = Inr () \<Longrightarrow> set is' \<inter> H = {}"
    using assertCanAccessTickets_visible [of s a is'] hidden_ok_visible [of a H s]
    by (metis disjoint_iff hidden_ok_def)
qed

section \<open>Properties\<close>

text \<open>
  C31: The bulk check is all or nothing. It succeeds exactly when every requested ticket exists and
  is visible to the actor, however often an id is repeated; otherwise it answers \<open>NotFound\<close>, the
  same for hidden and for missing tickets. It never writes.
\<close>

theorem assertCanAccessTickets_all_or_nothing:
  assumes "ids_ok d"
  shows "assertCanAccessTickets a is d =
    (if \<forall>i \<in> set is. accessible a d i then Inr () else Inl (NotFound ''One or more tickets not found''), d)"
proof -
  let ?v = "filter (\<lambda>t. t_id t \<in> set is \<and> ticketWhere a d t) (tickets d)"
  have dist: "distinct (map t_id (tickets d))" using assms by (simp add: ids_ok_def)
  then have dv: "distinct (map t_id ?v)"
    by (simp add: distinct_map inj_on_def)
  have "length ?v = length (js_set is) \<longleftrightarrow> (\<forall>i \<in> set is. accessible a d i)"
  proof
    assume "length ?v = length (js_set is)"
    with visible_subset_card [OF dist distinct_js_set [of "is"]] show "\<forall>i \<in> set is. accessible a d i"
      by (auto simp: accessible_iff [OF assms])
  next
    assume all: "\<forall>i \<in> set is. accessible a d i"
    have "t_id ` set ?v = set is"
      using all by (auto simp: accessible_iff [OF assms])
    then show "length ?v = length (js_set is)"
      using dv by (metis distinct_card distinct_js_set length_map set_js_set set_map)
  qed
  then show ?thesis
    by (auto simp: assertCanAccessTickets_def act_defs Let_def)
qed

definition two_departments :: db where
  "two_departments = empty_db\<lparr>tickets := [sample_ticket 0 10, sample_ticket 1 20], seq_ticket := 2,
     dept_staff := [(10, 7)], departments := [10, 20]\<rparr>"

lemma ids_ok_two_departments: "ids_ok two_departments"
  by (simp add: two_departments_def ids_ok_def empty_db_def sample_ticket_def)

lemma department_20_hidden: "\<not> accessible \<lparr>ac_staffId = 7, ac_isAdmin = False\<rparr> two_departments 1"
  unfolding accessible_iff [OF ids_ok_two_departments]
  by (simp add: two_departments_def ticketWhere_def is_member_def empty_db_def sample_ticket_def)

theorem assertCanAccessTickets_all_or_nothing_witness:
  "assertCanAccessTickets \<lparr>ac_staffId = 7, ac_isAdmin = False\<rparr> [0, 1] two_departments =
     (Inl (NotFound ''One or more tickets not found''), two_departments)"
  by (subst assertCanAccessTickets_all_or_nothing [OF ids_ok_two_departments]) (simp add: department_20_hidden del: One_nat_def)

text \<open>
  The mutation fence agrees with the visibility rule: it succeeds exactly for the tickets the
  actor can see at that moment, it then writes the activity time of that one ticket and nothing
  else, and for any other ticket it answers \<open>NotFound\<close> and writes nothing.
\<close>

theorem fenceTicket_spec:
  assumes "ids_ok d"
  shows "fenceTicket a i now d =
    (if accessible a d i
     then (Inr (), set_tickets (\<lambda>j. j = i) (\<lambda>t. t\<lparr>t_lastActivityAt := now\<rparr>) d)
     else (Inl (NotFound ''Ticket not found''), d))"
proof (cases "accessible a d i")
  case True
  then have "ticketWhere a d t" if "t \<in> set (tickets d)" "t_id t = i" for t
    using that ids_ok_ticket_unique [OF assms that(1)] by (auto simp: accessible_def)
  then have "update_rows (\<lambda>t. t_id t = i \<and> ticketWhere a d t) f (tickets d) =
      update_rows (\<lambda>t. t_id t = i) f (tickets d)" for f
    by (simp add: update_rows_def)
  then show ?thesis
    using True
    by (simp add: fenceTicket_def act_defs update_many_tickets_def count_visible [OF assms] set_tickets_def)
next
  case False
  then have "update_rows (\<lambda>t. t_id t = i \<and> ticketWhere a d t) f (tickets d) = tickets d" for f
    by (intro update_rows_none) (auto simp: accessible_iff [OF assms])
  then show ?thesis
    using False
    by (simp add: fenceTicket_def act_defs update_many_tickets_def count_visible [OF assms])
qed

theorem fenceTicket_spec_witness:
  "fenceTicket \<lparr>ac_staffId = 7, ac_isAdmin = False\<rparr> 1 5 two_departments =
     (Inl (NotFound ''Ticket not found''), two_departments)"
  by (subst fenceTicket_spec [OF ids_ok_two_departments]) (simp add: department_20_hidden del: One_nat_def)

end
