(* ===== verification/MailAccess.thy ===== *)
theory MailAccess
  imports TicketAccess
begin

text \<open>
  The department scope of mail operators (\<open>mail/mail-access-policy.service.ts\<close>): queues, tickets
  and inbound deliveries a non-administrator may see, and the departments they may give a queue to.
\<close>

record mail_actor =
  ma_staffId :: int
  ma_isAdmin :: bool

datatype owner_kind = RECEIVING | ROUTED | TICKET | UNRESOLVED

record delivery_owner =
  dl_id :: nat
  dl_effectiveOwnerKind :: owner_kind
  dl_effectiveOwnerDepartmentId :: "nat option"
  dl_effectiveOwnerTicketId :: "nat option"

definition assertValidActor :: "mail_actor \<Rightarrow> unit act_db" where
  "assertValidActor actor = require (ma_staffId actor > 0) (Forbidden ''Invalid mail operator context'')"

definition mailScope :: "mail_actor \<Rightarrow> department_scope act_db" where
  "mailScope actor =
     sq (assertValidActor actor)
       (if ma_isAdmin actor then ret \<lparr>ds_unrestricted = True, ds_departmentIds = []\<rparr>
        else bnd (reads (\<lambda>d. filter (\<lambda>(dep, sid). int sid = ma_staffId actor) (dept_staff d))) (\<lambda>assignments.
          ret \<lparr>ds_unrestricted = False, ds_departmentIds = js_set (map fst assignments)\<rparr>))"

definition opt_allowed :: "department_scope \<Rightarrow> nat option \<Rightarrow> bool" where
  "opt_allowed sc z = (case z of None \<Rightarrow> False | Some dep \<Rightarrow> dep \<in> set (ds_departmentIds sc))"

definition queueWhereForScope :: "department_scope \<Rightarrow> nat option \<Rightarrow> bool" where
  "queueWhereForScope sc queueDepartmentId \<longleftrightarrow> ds_unrestricted sc \<or> opt_allowed sc queueDepartmentId"

definition deliveryWhereForScope :: "department_scope \<Rightarrow> db \<Rightarrow> delivery_owner \<Rightarrow> bool" where
  "deliveryWhereForScope sc d x \<longleftrightarrow>
     ds_unrestricted sc \<or>
     (dl_effectiveOwnerKind x \<in> {RECEIVING, ROUTED} \<and> opt_allowed sc (dl_effectiveOwnerDepartmentId x)) \<or>
     (dl_effectiveOwnerKind x = TICKET \<and>
        (case dl_effectiveOwnerTicketId x of
           None \<Rightarrow> False
         | Some i \<Rightarrow> (case ticket_by_id i d of None \<Rightarrow> False | Some t \<Rightarrow> t_departmentId t \<in> set (ds_departmentIds sc))))"

definition deliveryByIdWhereForScope :: "nat \<Rightarrow> department_scope \<Rightarrow> db \<Rightarrow> delivery_owner \<Rightarrow> bool" where
  "deliveryByIdWhereForScope i sc d x \<longleftrightarrow> dl_id x = i \<and> (ds_unrestricted sc \<or> deliveryWhereForScope sc d x)"

definition assertCanTargetQueueDepartment :: "department_scope \<Rightarrow> nat option \<Rightarrow> unit act_db" where
  "assertCanTargetQueueDepartment sc departmentId =
     (if ds_unrestricted sc then ret ()
      else require (opt_allowed sc departmentId) (NotFound ''Department not found''))"

text \<open>
  Inbound deliveries follow their owner. For a valid operator who is not an administrator, a
  delivery is visible exactly when its settled department is one of theirs, or it belongs to an
  existing ticket whose current department is one of theirs; an unresolved delivery, and one whose
  ticket is gone, is visible to administrators only.
\<close>

theorem deliveryWhereForScope_spec:
  assumes "mailScope actor d = (Inr sc, d')" "\<not> ma_isAdmin actor"
  shows "d' = d \<and> deliveryWhereForScope sc d x =
    (\<exists>dep. is_member d dep (nat (ma_staffId actor)) \<and>
      (if dl_effectiveOwnerKind x = TICKET
       then \<exists>i t. dl_effectiveOwnerTicketId x = Some i \<and> ticket_by_id i d = Some t \<and> t_departmentId t = dep
       else dl_effectiveOwnerKind x \<noteq> UNRESOLVED \<and> dl_effectiveOwnerDepartmentId x = Some dep))"
proof -
  let ?mine = "map fst (filter (\<lambda>(dep, sid). int sid = ma_staffId actor) (dept_staff d))"
  have sc: "d' = d" "sc = \<lparr>ds_unrestricted = False, ds_departmentIds = js_set ?mine\<rparr>" "ma_staffId actor > 0"
    using assms by (auto simp: mailScope_def assertValidActor_def act_defs split: if_splits)
  have mine: "dep \<in> set ?mine \<longleftrightarrow> is_member d dep (nat (ma_staffId actor))" for dep
  proof -
    have "dep \<in> set ?mine \<longleftrightarrow> (\<exists>sid. (dep, sid) \<in> set (dept_staff d) \<and> int sid = ma_staffId actor)"
      by force
    also have "\<dots> \<longleftrightarrow> is_member d dep (nat (ma_staffId actor))"
      using sc(3) by (metis is_member_def nat_0_le nat_int less_imp_le)
    finally show ?thesis .
  qed
  show ?thesis
    unfolding deliveryWhereForScope_def opt_allowed_def sc(1,2)
    by (cases "dl_effectiveOwnerKind x") (auto simp: mine simp del: set_map set_filter split: option.splits)
qed

definition sample_delivery :: "owner_kind \<Rightarrow> delivery_owner" where
  "sample_delivery k =
     \<lparr>dl_id = 1, dl_effectiveOwnerKind = k, dl_effectiveOwnerDepartmentId = Some 10, dl_effectiveOwnerTicketId = Some 1\<rparr>"

theorem deliveryWhereForScope_spec_witness:
  "\<not> deliveryWhereForScope \<lparr>ds_unrestricted = False, ds_departmentIds = [10]\<rparr> two_departments (sample_delivery TICKET)"
proof -
  have "mailScope \<lparr>ma_staffId = 7, ma_isAdmin = False\<rparr> two_departments =
      (Inr \<lparr>ds_unrestricted = False, ds_departmentIds = [10]\<rparr>, two_departments)"
    by (simp add: mailScope_def assertValidActor_def act_defs two_departments_def empty_db_def js_set_def)
  from deliveryWhereForScope_spec [OF this, of "sample_delivery TICKET"] show ?thesis
    by (simp add: sample_delivery_def is_member_def ticket_by_id_def two_departments_def empty_db_def sample_ticket_def)
qed

end
