(* ===== verification/MailText.thy ===== *)
theory MailText
  imports Schema
begin

text \<open>
  The text side of outgoing mail (\<open>mail/mail.service.ts\<close>, \<open>common/email.util.ts\<close>): address
  normalisation, escaping, template rendering, and the bounded diagnostics made from what a
  mail server answers.
\<close>

section \<open>Addresses\<close>

text \<open>The byte set \<open>[\x20\t\n\r\f\v]\<close>.\<close>

definition is_ascii_space :: "char \<Rightarrow> bool" where
  "is_ascii_space c = (let n = code_of c in n = 32 \<or> (9 \<le> n \<and> n \<le> 13))"

definition normalizeEmail :: "string \<Rightarrow> string" where
  "normalizeEmail email = lower (trim_by is_ascii_space email)"

section \<open>Plain text as HTML\<close>

definition replace_char :: "char \<Rightarrow> string \<Rightarrow> string \<Rightarrow> string" where
  "replace_char c r s = concat (map (\<lambda>x. if x = c then r else [x]) s)"

definition escape_html :: "string \<Rightarrow> string" where
  "escape_html text =
     replace_char (CHR ''>'') ''&gt;''
       (replace_char (CHR ''<'') ''&lt;''
         (replace_char (CHR ''&'') ''&amp;'' text))"

definition textToSafeHtml :: "string \<Rightarrow> string" where
  "textToSafeHtml text =
     ''<pre style='' @ [CHR 0x22] @ ''font-family:inherit;white-space:pre-wrap'' @ [CHR 0x22] @ ''>'' @
     escape_html text @ ''</pre>''"

section \<open>Templates\<close>

record rendered_template =
  r_subject :: string
  r_html :: string
  r_text :: string

text \<open>Variables are an association list; \<open>vars[k] ?? ''\<close> is the value of an own key or nothing.\<close>

type_synonym vars = "(string \<times> string) list"

definition var_value :: "vars \<Rightarrow> string \<Rightarrow> string" where
  "var_value vars k = (case map_of vars k of None \<Rightarrow> '''' | Some v \<Rightarrow> v)"

definition is_word_char :: "char \<Rightarrow> bool" where
  "is_word_char c = (let n = code_of c in is_digit c \<or> (65 \<le> n \<and> n \<le> 90) \<or> (97 \<le> n \<and> n \<le> 122) \<or> n = 95)"

text \<open>
  A placeholder \<open>{{name}}\<close> at the head of the text: its name and the rest. The name is the
  longest run of word characters, which must be followed by the closing braces.
\<close>

definition placeholder :: "string \<Rightarrow> (string \<times> string) option" where
  "placeholder s =
     (if starts_with s ''{{'' then
        (let name = takeWhile is_word_char (drop 2 s); rest = dropWhile is_word_char (drop 2 s)
         in if name \<noteq> [] \<and> starts_with rest ''}}'' then Some (name, drop 2 rest) else None)
      else None)"

lemma placeholder_shorter: "placeholder s = Some (k, rest) \<Longrightarrow> length rest < length s"
proof -
  assume "placeholder s = Some (k, rest)"
  then have r: "rest = drop 2 (dropWhile is_word_char (drop 2 s))" and "starts_with s ''{{''"
    by (auto simp: placeholder_def Let_def split: if_splits)
  then have "s \<noteq> []" by (cases s) auto
  moreover have "length (dropWhile is_word_char (drop 2 s)) \<le> length (drop 2 s)"
    by (rule length_dropWhile_le)
  ultimately show ?thesis using r by (cases s) auto
qed

text \<open>\<open>str.replace(/\{\{(\w+)\}\}/g, \<dots>)\<close>, scanning from the left.\<close>

function replace_placeholders :: "vars \<Rightarrow> string \<Rightarrow> string" where
  "replace_placeholders vars s =
     (case s of
        [] \<Rightarrow> []
      | c # cs \<Rightarrow>
          (case placeholder s of
             Some (k, rest) \<Rightarrow> var_value vars k @ replace_placeholders vars rest
           | None \<Rightarrow> c # replace_placeholders vars cs))"
  by pat_completeness auto
termination
  by (relation "measure (length \<circ> snd)") (auto dest: placeholder_shorter)

declare replace_placeholders.simps [simp del]

definition render_row :: "vars \<Rightarrow> email_template \<Rightarrow> rendered_template" where
  "render_row vars tpl =
     \<lparr>r_subject = replace_placeholders vars (tp_subject tpl),
      r_html = replace_placeholders vars (tp_html tpl),
      r_text = replace_placeholders vars (tp_text tpl)\<rparr>"

text \<open>Lookup by key and locale, with the English template as the fallback.\<close>

definition template_row :: "db \<Rightarrow> string \<Rightarrow> string \<Rightarrow> email_template option" where
  "template_row d key loc = find_row (\<lambda>t. tp_key t = key \<and> tp_locale t = loc) (templates d)"

definition template_with_fallback :: "db \<Rightarrow> string \<Rightarrow> string \<Rightarrow> email_template option" where
  "template_with_fallback d key loc =
     (case template_row d key loc of
        Some t \<Rightarrow> Some t
      | None \<Rightarrow> if loc \<noteq> ''en'' then template_row d key ''en'' else None)"

text \<open>\<open>JSON.stringify\<close> of an object of strings.\<close>

definition hex_digit :: "nat \<Rightarrow> char" where
  "hex_digit n = (if n < 10 then char_of (48 + n) else char_of (87 + n))"

definition json_char :: "char \<Rightarrow> string" where
  "json_char c = (let n = code_of c in
     if n = 34 then [CHR 0x5C, c] else if n = 92 then [c, c]
     else if n = 8 then [CHR 0x5C, CHR ''b''] else if n = 9 then [CHR 0x5C, CHR ''t'']
     else if n = 10 then [CHR 0x5C, CHR ''n''] else if n = 12 then [CHR 0x5C, CHR ''f'']
     else if n = 13 then [CHR 0x5C, CHR ''r'']
     else if n < 32 then [CHR 0x5C, CHR ''u'', CHR ''0'', CHR ''0'', hex_digit (n div 16), hex_digit (n mod 16)]
     else [c])"

definition json_string :: "string \<Rightarrow> string" where
  "json_string s = CHR 0x22 # concat (map json_char s) @ [CHR 0x22]"

fun json_fields :: "vars \<Rightarrow> string" where
  "json_fields [] = []"
| "json_fields [(k, v)] = json_string k @ '':'' @ json_string v"
| "json_fields ((k, v) # kvs) = json_string k @ '':'' @ json_string v @ '','' @ json_fields kvs"

definition json_vars :: "vars \<Rightarrow> string" where
  "json_vars vars = ''{'' @ json_fields vars @ ''}''"

definition renderTemplate :: "db \<Rightarrow> string \<Rightarrow> string \<Rightarrow> vars \<Rightarrow> rendered_template" where
  "renderTemplate d key loc vars =
     (case template_with_fallback d key loc of
        None \<Rightarrow>
          \<lparr>r_subject = (case map_of vars ''subject'' of None \<Rightarrow> key | Some v \<Rightarrow> v),
           r_html = json_vars vars, r_text = json_vars vars\<rparr>
      | Some tpl \<Rightarrow> render_row vars tpl)"

definition assertRequiredTemplateContent :: "string \<Rightarrow> string \<Rightarrow> rendered_template \<Rightarrow> unit act_db" where
  "assertRequiredTemplateContent key loc r =
     require (trim (r_subject r) \<noteq> [] \<and> trim (r_html r) \<noteq> [] \<and> trim (r_text r) \<noteq> [])
       (Failure (''Required email template '' @ [CHR 0x22] @ key @ [CHR 0x22] @ '' ('' @ loc @ '') is empty''))"

definition renderTemplateRequired :: "string \<Rightarrow> string \<Rightarrow> vars \<Rightarrow> rendered_template act_db" where
  "renderTemplateRequired key loc vars =
     bnd (reads (\<lambda>d. template_with_fallback d key loc)) (\<lambda>tpl.
       case tpl of
         None \<Rightarrow> throw (Failure (''Required email template '' @ [CHR 0x22] @ key @ [CHR 0x22] @ '' ('' @ loc @ '') is not configured''))
       | Some t \<Rightarrow> sq (assertRequiredTemplateContent key loc (render_row vars t)) (ret (render_row vars t)))"

section \<open>Diagnostics\<close>

text \<open>What the mail library rejects with: a numeric reply code, a symbolic code, a message and
  the name of the error object, each when present.\<close>

record smtp_error =
  x_responseCode :: "int option"
  x_code :: "string option"
  x_message :: "string option"
  x_name :: "string option"

datatype failure_class = FcRetry | FcFailed | FcAmbiguous

definition OUTBOX_MAX_ATTEMPTS :: nat where
  "OUTBOX_MAX_ATTEMPTS = 5"

definition upper_char :: "char \<Rightarrow> char" where
  "upper_char c = (let n = code_of c in if 97 \<le> n \<and> n \<le> 122 then char_of (n - 32) else c)"

text \<open>
  The regular expression \<open>/timed?\s*out|connection\s*(reset|closed|lost)|socket\s*(hang|closed)/\<close>:
  one of the heads, white space, one of the tails, anywhere in the text.
\<close>

fun gap_match :: "string list \<Rightarrow> string list \<Rightarrow> string \<Rightarrow> bool" where
  "gap_match heads tails [] = False"
| "gap_match heads tails (c # cs) =
     ((\<exists>h \<in> set heads. starts_with (c # cs) h \<and>
        (\<exists>t \<in> set tails. starts_with (dropWhile is_space (drop (length h) (c # cs))) t)) \<or>
      gap_match heads tails cs)"

definition looks_like_disconnect :: "string \<Rightarrow> bool" where
  "looks_like_disconnect message =
     (gap_match [''time'', ''timed''] [''out''] message \<or>
      gap_match [''connection''] [''reset'', ''closed'', ''lost''] message \<or>
      gap_match [''socket''] [''hang'', ''closed''] message)"

definition retry_delay :: "nat \<Rightarrow> int" where
  "retry_delay attempts = min (60 * 60000) (60000 * 2 ^ (attempts - 1))"

definition retryAt :: "time \<Rightarrow> nat \<Rightarrow> time" where
  "retryAt now attempts = now + retry_delay attempts"

definition classifyFailure :: "time \<Rightarrow> smtp_error \<Rightarrow> nat \<Rightarrow> failure_class \<times> time option" where
  "classifyFailure now err attempts =
     (let bounded = (if attempts \<ge> OUTBOX_MAX_ATTEMPTS then (FcFailed, None)
                     else (FcRetry, Some (retryAt now attempts)));
          by_text =
            (let code = (case x_code err of None \<Rightarrow> '''' | Some c \<Rightarrow> map upper_char c);
                 message = (case x_message err of None \<Rightarrow> '''' | Some m \<Rightarrow> lower m)
             in if code \<in> {''ECONNRESET'', ''ECONNABORTED'', ''ETIMEDOUT'', ''ESOCKET'', ''EPIPE'', ''ECONNREFUSED''}
                   \<or> looks_like_disconnect message
                then (FcAmbiguous, None) else bounded)
      in case x_responseCode err of
           Some responseCode \<Rightarrow>
             if responseCode \<ge> 500 then (FcFailed, None)
             else if responseCode \<ge> 400 then bounded
             else by_text
         | None \<Rightarrow> by_text)"

definition errorKind :: "smtp_error \<Rightarrow> string" where
  "errorKind err =
     (case x_code err of Some c \<Rightarrow> take 64 c
      | None \<Rightarrow> (case x_name err of Some n \<Rightarrow> take 64 n | None \<Rightarrow> ''UnknownError''))"

definition is_code_char :: "char \<Rightarrow> bool" where
  "is_code_char c = (is_word_char c \<or> c = CHR ''-'')"

definition sanitizeFailure :: "smtp_error \<Rightarrow> string" where
  "sanitizeFailure err =
     (let responseCode = (case x_responseCode err of Some n \<Rightarrow> ''SMTP '' @ int_str n | None \<Rightarrow> '''');
          code = (case x_code err of Some c \<Rightarrow> take 48 (filter is_code_char c) | None \<Rightarrow> '''');
          kind = (if responseCode \<noteq> '''' then responseCode else if code \<noteq> '''' then code else errorKind err)
      in take 256 (''Delivery failed: '' @ kind))"

text \<open>\<open>/\b([245]\d\d)\b/\<close>: a three-digit status that is a word of its own; the flag says whether
  the character before is a word character.\<close>

fun find_status :: "bool \<Rightarrow> string \<Rightarrow> string option" where
  "find_status w (a # b # c # s) =
     (if \<not> w \<and> a \<in> set ''245'' \<and> is_digit b \<and> is_digit c \<and> (s = [] \<or> \<not> is_word_char (hd s))
      then Some [a, b, c]
      else find_status (is_word_char a) (b # c # s))"
| "find_status w s = None"

definition sanitizeProviderResponse :: "string option \<Rightarrow> string option" where
  "sanitizeProviderResponse z =
     (case z of
        None \<Rightarrow> None
      | Some v \<Rightarrow> if v = [] then None
                 else (case find_status False v of
                         Some st \<Rightarrow> Some (''SMTP '' @ st @ '' accepted'')
                       | None \<Rightarrow> Some ''SMTP accepted''))"

section \<open>Facts and properties\<close>

text \<open>The reader of the three entities \<open>escape_html\<close> produces.\<close>

fun unescape_html :: "string \<Rightarrow> string" where
  "unescape_html [] = []"
| "unescape_html (c # s) =
     (if starts_with (c # s) ''&amp;'' then CHR ''&'' # unescape_html (drop 4 s)
      else if starts_with (c # s) ''&lt;'' then CHR ''<'' # unescape_html (drop 3 s)
      else if starts_with (c # s) ''&gt;'' then CHR ''>'' # unescape_html (drop 3 s)
      else c # unescape_html s)"

lemma replace_char_Nil [simp]: "replace_char c r [] = []"
  by (simp add: replace_char_def)

lemma replace_char_Cons [simp]: "replace_char c r (x # s) = (if x = c then r else [x]) @ replace_char c r s"
  by (simp add: replace_char_def)

lemma replace_char_append [simp]: "replace_char c r (s @ t) = replace_char c r s @ replace_char c r t"
  by (simp add: replace_char_def)

lemma escape_html_Nil [simp]: "escape_html [] = []"
  by (simp add: escape_html_def)

lemma escape_html_Cons:
  "escape_html (x # s) =
     (if x = CHR ''&'' then ''&amp;'' else if x = CHR ''<'' then ''&lt;''
      else if x = CHR ''>'' then ''&gt;'' else [x]) @ escape_html s"
  by (simp add: escape_html_def)

text \<open>
  Escaping is safe and loses nothing: the escaped text has no angle bracket, and replacing the
  three entities by their characters gives the administrator's text back, so no text can open or
  close an HTML element in the mail and none is altered.
\<close>

theorem escape_html_safe:
  "CHR ''<'' \<notin> set (escape_html body) \<and> CHR ''>'' \<notin> set (escape_html body) \<and>
   unescape_html (escape_html body) = body"
  by (induction body) (simp_all add: escape_html_Cons)

lemma placeholder_hit:
  "name \<noteq> [] \<Longrightarrow> list_all is_word_char name \<Longrightarrow> placeholder (''{{'' @ name @ ''}}'' @ rest) = Some (name, rest)"
proof -
  assume name: "name \<noteq> []" "list_all is_word_char name"
  have "takeWhile is_word_char (name @ ''}}'' @ rest) = name"
    and "dropWhile is_word_char (name @ ''}}'' @ rest) = ''}}'' @ rest"
    using name(2) by (induction name) (auto simp: is_word_char_def is_digit_def code_of_def)
  then show ?thesis
    using name(1) by (simp add: placeholder_def Let_def)
qed

lemma placeholder_no_brace: "c \<noteq> CHR ''{'' \<Longrightarrow> placeholder (c # s) = None"
  by (simp add: placeholder_def)

lemma replace_skip: "CHR ''{'' \<notin> set pre \<Longrightarrow> replace_placeholders vars (pre @ s) = pre @ replace_placeholders vars s"
proof (induction pre)
  case (Cons c pre)
  then have "placeholder (c # pre @ s) = None"
    by (intro placeholder_no_brace) auto
  then show ?case
    using Cons by (simp add: replace_placeholders.simps [of vars "c # pre @ s"])
qed simp

text \<open>
  Rendering substitutes in one pass. Text before a placeholder is copied, the placeholder
  becomes exactly the value of its variable (the empty text for an unknown one), and scanning
  goes on behind it, so braces inside a customer's value are never expanded.
\<close>

theorem replace_placeholders_step:
  assumes "CHR ''{'' \<notin> set pre" "name \<noteq> []" "list_all is_word_char name"
  shows "replace_placeholders vars (pre @ ''{{'' @ name @ ''}}'' @ rest) =
         pre @ var_value vars name @ replace_placeholders vars rest"
proof -
  have "replace_placeholders vars (''{{'' @ name @ ''}}'' @ rest) =
        var_value vars name @ replace_placeholders vars rest"
    using placeholder_hit [OF assms(2,3), of rest]
    by (simp add: replace_placeholders.simps [of vars "CHR ''{'' # u" for u])
  with replace_skip [OF assms(1)] show ?thesis by simp
qed

theorem replace_placeholders_step_witness:
  "replace_placeholders [(''name'', ''{{x}}'')] (''Hi '' @ ''{{'' @ ''name'' @ ''}}'' @ ''!'') = ''Hi {{x}}!''"
  by (subst replace_placeholders_step)
     (simp_all add: is_word_char_def is_digit_def code_of_def var_value_def
       replace_placeholders.simps [of _ "[]"] replace_placeholders.simps [of _ "''!''"] placeholder_no_brace)

lemma retry_delay_bounds: "60000 \<le> retry_delay n \<and> retry_delay n \<le> 3600000"
proof -
  have "(1::int) \<le> 2 ^ (n - 1)" by simp
  then show ?thesis by (simp add: retry_delay_def min_def)
qed

text \<open>
  An automatic retry is scheduled only while fewer than five attempts were made, at least one
  minute and at most one hour ahead, never on a permanent reply (5xx) and never, without a reply
  code, after a lost connection or a timeout: those outcomes are ambiguous and wait for an operator.
\<close>

theorem classifyFailure_retry:
  assumes "classifyFailure now err attempts = (FcRetry, nextAt)"
  shows "attempts < OUTBOX_MAX_ATTEMPTS \<and> (\<exists>t. nextAt = Some t \<and> now + 60000 \<le> t \<and> t \<le> now + 3600000) \<and>
    (case x_responseCode err of
       Some c \<Rightarrow> c < 500
     | None \<Rightarrow> \<not> looks_like_disconnect (case x_message err of None \<Rightarrow> '''' | Some m \<Rightarrow> lower m))"
proof -
  have att: "attempts < OUTBOX_MAX_ATTEMPTS \<and> nextAt = Some (retryAt now attempts)"
    using assms by (auto simp: classifyFailure_def Let_def split: option.splits if_splits)
  moreover have "now + 60000 \<le> retryAt now attempts \<and> retryAt now attempts \<le> now + 3600000"
    using retry_delay_bounds [of attempts] by (simp add: retryAt_def)
  moreover have "case x_responseCode err of Some c \<Rightarrow> c < 500
     | None \<Rightarrow> \<not> looks_like_disconnect (case x_message err of None \<Rightarrow> '''' | Some m \<Rightarrow> lower m)"
    using assms by (auto simp: classifyFailure_def Let_def split: option.splits if_splits)
  ultimately show ?thesis by blast
qed

theorem classifyFailure_retry_witness:
  "3 < OUTBOX_MAX_ATTEMPTS"
  using classifyFailure_retry [of 0 "\<lparr>x_responseCode = Some 451, x_code = None, x_message = None, x_name = None\<rparr>" 3 "Some 240000"]
  by (simp add: classifyFailure_def retryAt_def retry_delay_def OUTBOX_MAX_ATTEMPTS_def)

lemma find_status_shape: "find_status w s = Some st \<Longrightarrow> \<exists>a b c. st = [a, b, c] \<and> a \<in> set ''245'' \<and> is_digit b \<and> is_digit c"
  by (induction w s rule: find_status.induct) (auto split: if_splits)

text \<open>
  Nothing of a relay's answer beyond a three-digit 2xx, 4xx or 5xx status reaches the ticket
  timeline, and the diagnostic of a failed attempt is at most 256 characters long.
\<close>

theorem diagnostics_bounded:
  "sanitizeProviderResponse z \<in> {None, Some ''SMTP accepted''} \<union>
     {Some (''SMTP '' @ [a, b, c] @ '' accepted'') | a b c. a \<in> set ''245'' \<and> is_digit b \<and> is_digit c} \<and>
   length (sanitizeFailure err) \<le> 256"
proof
  show "sanitizeProviderResponse z \<in> {None, Some ''SMTP accepted''} \<union>
     {Some (''SMTP '' @ [a, b, c] @ '' accepted'') | a b c. a \<in> set ''245'' \<and> is_digit b \<and> is_digit c}"
    by (auto simp: sanitizeProviderResponse_def split: option.splits dest!: find_status_shape)
  show "length (sanitizeFailure err) \<le> 256"
    by (simp add: sanitizeFailure_def Let_def)
qed

end
