(* ===== verification/Outbox.thy ===== *)
theory Outbox
  imports MailText MailAccess
begin

text \<open>
  The durable outbox of \<open>mail/mail.service.ts\<close>: the commands that create a row inside a business
  transaction, the worker that claims and delivers one, and the operator's retry. Identifiers,
  the clock, the answer of the mail server and whether the database accepts the final write are
  arguments. Waking a worker through Redis is an acceleration without effect on the rows.
\<close>

section \<open>Configuration\<close>

record mail_config =
  mc_enabled :: bool                       \<comment> \<open>\<open>TELECOM_HD_OUTBOUND_DELIVERY_ENABLED === true\<close>\<close>
  mc_canaryEmailId :: "nat option"
  mc_canaryRecipient :: "string option"
  mc_from :: string                        \<comment> \<open>\<open>TELECOM_HD_MAIL_FROM\<close>\<close>
  mc_storage :: "(string \<Rightarrow> string) option" \<comment> \<open>\<open>storageService.pathForKey\<close>\<close>

definition OUTBOX_LEASE_MS :: int where
  "OUTBOX_LEASE_MS = 5 * 60000"

definition OUTBOX_RECOVERY_BATCH :: nat where
  "OUTBOX_RECOVERY_BATCH = 100"

definition outboundCanary :: "mail_config \<Rightarrow> (nat \<times> string) option" where
  "outboundCanary cfg =
     (let recipient = normalizeEmail (case mc_canaryRecipient cfg of None \<Rightarrow> '''' | Some r \<Rightarrow> r)
      in case mc_canaryEmailId cfg of
           None \<Rightarrow> None
         | Some emailId \<Rightarrow> if recipient \<noteq> '''' then Some (emailId, recipient) else None)"

definition isAllowedOutboundCanaryId :: "mail_config \<Rightarrow> nat \<Rightarrow> bool" where
  "isAllowedOutboundCanaryId cfg i = (case outboundCanary cfg of None \<Rightarrow> True | Some (emailId, _) \<Rightarrow> emailId = i)"

definition one_recipient :: "(string \<times> role) list \<Rightarrow> string \<Rightarrow> bool" where
  "one_recipient rs to = (case rs of [(email, r)] \<Rightarrow> r = TO \<and> normalizeEmail email = to | _ \<Rightarrow> False)"

definition matchesOutboundCanaryRecipient :: "mail_config \<Rightarrow> outbound \<Rightarrow> bool" where
  "matchesOutboundCanaryRecipient cfg ob =
     (case outboundCanary cfg of None \<Rightarrow> True | Some (_, recipient) \<Rightarrow> one_recipient (o_recipients ob) recipient)"

definition outbound_by_id :: "nat \<Rightarrow> db \<Rightarrow> outbound option" where
  "outbound_by_id i d = find_row (\<lambda>ob. o_id ob = i) (outbox d)"

definition isApprovedOutboundCanaryCommand :: "mail_config \<Rightarrow> nat \<Rightarrow> db \<Rightarrow> bool" where
  "isApprovedOutboundCanaryCommand cfg i d =
     (isAllowedOutboundCanaryId cfg i \<and>
      (outboundCanary cfg = None \<or>
       (case outbound_by_id i d of None \<Rightarrow> False | Some ob \<Rightarrow> matchesOutboundCanaryRecipient cfg ob)))"

definition assertDirectOutboundAllowed :: "mail_config \<Rightarrow> unit act_db" where
  "assertDirectOutboundAllowed cfg =
     sq (require (mc_enabled cfg) (ServiceUnavailable ''Outbound email delivery is disabled''))
        (require (outboundCanary cfg = None)
          (ServiceUnavailable ''Outbound canary only permits its selected durable outbox row; direct email is disabled''))"

section \<open>Creating commands\<close>

definition createOutboundMessageId :: "string \<Rightarrow> string" where
  "createOutboundMessageId uuid = ''<'' @ uuid @ ''@23telecom.local>''"

text \<open>Columns a command does not name take the defaults of the schema.\<close>

definition new_outbound :: "mail_config \<Rightarrow> string \<Rightarrow> time \<Rightarrow> outbound_kind \<Rightarrow> outbound" where
  "new_outbound cfg messageId now kind =
     \<lparr>o_id = 0, o_ticketId = None, o_postId = None, o_emailQueueId = None, o_reportRunId = None,
      o_slaEventId = None, o_idempotencyKey = None, o_kind = kind, o_state = Queued,
      o_messageId = messageId, o_fromAddress = mc_from cfg, o_replyToAddress = None,
      o_subject = '''', o_htmlBody = '''', o_textBody = '''', o_inReplyTo = None, o_references = [],
      o_recipients = [], o_attachments = [], o_attempts = 0, o_nextAttemptAt = None,
      o_leaseOwner = None, o_leaseExpiresAt = None, o_leaseVersion = 0, o_lastError = None,
      o_providerResponse = None, o_acceptedAt = None, o_sentAt = None, o_createdAt = now\<rparr>"

definition clash :: "'a option \<Rightarrow> 'a option \<Rightarrow> bool" where
  "clash x y \<longleftrightarrow> x \<noteq> None \<and> x = y"

text \<open>Insert under the unique indexes and the foreign key of the table.\<close>

definition insert_outbound :: "outbound \<Rightarrow> nat act_db" where
  "insert_outbound ob d =
     (if (\<exists>r \<in> set (outbox d). clash (o_idempotencyKey r) (o_idempotencyKey ob) \<or> o_messageId r = o_messageId ob \<or>
            clash (o_postId r) (o_postId ob) \<or> clash (o_reportRunId r) (o_reportRunId ob)) \<or>
         \<not> distinct (map fst (o_recipients ob))
      then (Inl (UniqueViolation ''OutboundEmail''), d)
      else if \<not> opt_in (o_ticketId ob) (map t_id (tickets d)) then (Inl (Failure ''P2003''), d)
      else (Inr (seq_outbox d),
            d\<lparr>outbox := outbox d @ [ob\<lparr>o_id := seq_outbox d\<rparr>], seq_outbox := Suc (seq_outbox d)\<rparr>))"

record automated_input =
  ai_ticketId :: nat
  ai_emailQueueId :: "nat option"
  ai_kind :: outbound_kind
  ai_templateKey :: string
  ai_locale :: string
  ai_to :: string
  ai_vars :: vars

definition createAutomatedTicketEmail :: "mail_config \<Rightarrow> string \<Rightarrow> time \<Rightarrow> automated_input \<Rightarrow> nat act_db" where
  "createAutomatedTicketEmail cfg uuid now input =
     bnd (renderTemplateRequired (ai_templateKey input) (ai_locale input) (ai_vars input)) (\<lambda>rendered.
       insert_outbound ((new_outbound cfg (createOutboundMessageId uuid) now (ai_kind input))
         \<lparr>o_ticketId := Some (ai_ticketId input), o_emailQueueId := ai_emailQueueId input,
          o_subject := r_subject rendered, o_htmlBody := r_html rendered, o_textBody := r_text rendered,
          o_recipients := [(ai_to input, TO)]\<rparr>))"

record notification_input =
  ni_ticketId :: nat
  ni_templateKey :: string
  ni_locale :: string
  ni_to :: string
  ni_vars :: vars
  ni_idempotencyKey :: string
  ni_slaEventId :: "nat option"

definition outbound_by_key :: "string \<Rightarrow> db \<Rightarrow> outbound option" where
  "outbound_by_key key d = find_row (\<lambda>ob. o_idempotencyKey ob = Some key) (outbox d)"

definition assertInternalNotificationIdentity :: "outbound \<Rightarrow> notification_input \<Rightarrow> string \<Rightarrow> unit act_db" where
  "assertInternalNotificationIdentity command input to =
     require (o_ticketId command = Some (ni_ticketId input) \<and> o_kind command = InternalNotification \<and>
              o_slaEventId command = ni_slaEventId input \<and> one_recipient (o_recipients command) to)
       (Failure ''Internal notification idempotency key conflicts with another command'')"

text \<open>\<open>outboundEmail.upsert\<close> with an empty update: the row with the key, or a new one.\<close>

definition upsert_outbound :: "string \<Rightarrow> outbound \<Rightarrow> outbound act_db" where
  "upsert_outbound key ob =
     bnd (reads (outbound_by_key key)) (\<lambda>found.
       case found of
         Some r \<Rightarrow> ret r
       | None \<Rightarrow> bnd (insert_outbound ob) (\<lambda>i. ret (ob\<lparr>o_id := i\<rparr>)))"

definition createInternalNotificationEmail :: "mail_config \<Rightarrow> string \<Rightarrow> time \<Rightarrow> notification_input \<Rightarrow> nat act_db" where
  "createInternalNotificationEmail cfg uuid now input =
     (let to = normalizeEmail (ni_to input) in
      sq (require (ni_ticketId input > 0) (Failure ''Internal notification ticket id is invalid''))
     (sq (require (to \<noteq> '''') (Failure ''Internal notification recipient is empty''))
     (sq (require (trim (ni_templateKey input) \<noteq> '''') (Failure ''Internal notification template key is empty''))
     (sq (require (ni_idempotencyKey input \<noteq> '''' \<and> length (ni_idempotencyKey input) \<le> 255)
           (Failure ''Internal notification idempotency key is invalid''))
     (bnd (reads (outbound_by_key (ni_idempotencyKey input))) (\<lambda>existing.
        case existing of
          Some r \<Rightarrow> sq (assertInternalNotificationIdentity r input to) (ret (o_id r))
        | None \<Rightarrow>
            bnd (renderTemplateRequired (ni_templateKey input) (ni_locale input) (ni_vars input)) (\<lambda>rendered.
            bnd (upsert_outbound (ni_idempotencyKey input)
                  ((new_outbound cfg (createOutboundMessageId uuid) now InternalNotification)
                   \<lparr>o_ticketId := Some (ni_ticketId input), o_idempotencyKey := Some (ni_idempotencyKey input),
                    o_slaEventId := ni_slaEventId input, o_subject := r_subject rendered,
                    o_htmlBody := r_html rendered, o_textBody := r_text rendered,
                    o_recipients := [(to, TO)]\<rparr>)) (\<lambda>command.
            sq (assertInternalNotificationIdentity command input to) (ret (o_id command))))))))))"

record workflow_mail_input =
  wi_ticketId :: nat
  wi_to :: string
  wi_subject :: string
  wi_text :: string
  wi_idempotencyKey :: string

definition assertWorkflowTicketEmailIdentity :: "outbound \<Rightarrow> workflow_mail_input \<Rightarrow> string \<Rightarrow> string \<Rightarrow> nat act_db" where
  "assertWorkflowTicketEmailIdentity command input to body =
     sq (require (o_ticketId command = Some (wi_ticketId input) \<and> o_postId command = None \<and>
                  o_kind command = WorkflowMail \<and> o_subject command = wi_subject input \<and>
                  o_htmlBody command = textToSafeHtml body \<and> o_textBody command = body \<and>
                  one_recipient (o_recipients command) to)
          (Failure ''Workflow email idempotency key conflicts with another command''))
        (ret (o_id command))"

definition workflow_outbound :: "mail_config \<Rightarrow> string \<Rightarrow> time \<Rightarrow> workflow_mail_input \<Rightarrow> string \<Rightarrow> string \<Rightarrow> outbound" where
  "workflow_outbound cfg uuid now input to body =
     (new_outbound cfg (createOutboundMessageId uuid) now WorkflowMail)
       \<lparr>o_ticketId := Some (wi_ticketId input), o_idempotencyKey := Some (wi_idempotencyKey input),
        o_subject := wi_subject input, o_htmlBody := textToSafeHtml body, o_textBody := body,
        o_recipients := [(to, TO)]\<rparr>"

definition createWorkflowTicketEmail :: "mail_config \<Rightarrow> string \<Rightarrow> time \<Rightarrow> workflow_mail_input \<Rightarrow> nat act_db" where
  "createWorkflowTicketEmail cfg uuid now input =
     (let to = normalizeEmail (wi_to input); body = trim (wi_text input) in
      sq (require (to \<noteq> '''') (Failure ''Workflow email recipient is empty''))
     (sq (require (body \<noteq> '''') (Failure ''Workflow email body is empty''))
     (sq (require (length body \<le> 50000) (Failure ''Workflow email body exceeds 50000 characters''))
     (sq (require (wi_idempotencyKey input \<noteq> '''' \<and> length (wi_idempotencyKey input) \<le> 255)
           (Failure ''Workflow email idempotency key is invalid''))
     (catch_act
       (txn (bnd (reads (ticket_by_id (wi_ticketId input))) (\<lambda>ticket.
          sq (require (case ticket of None \<Rightarrow> False
                       | Some t \<Rightarrow> t_requesterEmail t \<noteq> '''' \<and> normalizeEmail (t_requesterEmail t) = to)
                (Failure ''Workflow email requester changed or is unavailable''))
         (bnd (reads (outbound_by_key (wi_idempotencyKey input))) (\<lambda>existing.
            case existing of
              Some r \<Rightarrow> assertWorkflowTicketEmailIdentity r input to body
            | None \<Rightarrow> insert_outbound (workflow_outbound cfg uuid now input to body))))))
       (\<lambda>err. case err of
            UniqueViolation _ \<Rightarrow>
              bnd (reads (outbound_by_key (wi_idempotencyKey input))) (\<lambda>winner.
                case winner of
                  None \<Rightarrow> throw err
                | Some r \<Rightarrow> assertWorkflowTicketEmailIdentity r input to body)
          | _ \<Rightarrow> throw err))))))"

record report_mail_input =
  ri_reportRunId :: nat
  ri_to :: "string list"
  ri_subject :: string
  ri_text :: string
  ri_idempotencyKey :: string

definition createReportEmail :: "mail_config \<Rightarrow> string \<Rightarrow> time \<Rightarrow> report_mail_input \<Rightarrow> nat act_db" where
  "createReportEmail cfg uuid now input =
     (let recipients = js_set (filter (\<lambda>e. e \<noteq> '''') (map normalizeEmail (ri_to input)));
          body = trim (ri_text input) in
      sq (require (ri_reportRunId input > 0) (Failure ''Report email run id is invalid''))
     (sq (require (recipients \<noteq> []) (Failure ''Report email has no recipients''))
     (sq (require (body \<noteq> '''') (Failure ''Report email body is empty''))
     (sq (require (length body \<le> 5000000) (Failure ''Report email body exceeds 5000000 characters''))
     (sq (require (ri_idempotencyKey input \<noteq> '''' \<and> length (ri_idempotencyKey input) \<le> 255)
           (Failure ''Report email idempotency key is invalid''))
       (insert_outbound ((new_outbound cfg (createOutboundMessageId uuid) now ReportMail)
         \<lparr>o_reportRunId := Some (ri_reportRunId input), o_idempotencyKey := Some (ri_idempotencyKey input),
          o_subject := ri_subject input, o_htmlBody := textToSafeHtml body, o_textBody := body,
          o_recipients := map (\<lambda>e. (e, TO)) recipients\<rparr>)))))))"

section \<open>Delivery\<close>

text \<open>\<open>outboundEmail.updateMany\<close>: returns the number of rows changed.\<close>

definition update_outbox :: "(outbound \<Rightarrow> bool) \<Rightarrow> (outbound \<Rightarrow> outbound) \<Rightarrow> nat act_db" where
  "update_outbox p f d = (Inr (count_rows p (outbox d)), d\<lparr>outbox := update_rows p f (outbox d)\<rparr>)"

definition stale_lease :: "time \<Rightarrow> outbound \<Rightarrow> bool" where
  "stale_lease now r \<longleftrightarrow>
     o_state r = Processing \<and> (case o_leaseExpiresAt r of None \<Rightarrow> True | Some t \<Rightarrow> t < now)"

definition markStaleProcessingAmbiguous :: "time \<Rightarrow> nat option \<Rightarrow> nat act_db" where
  "markStaleProcessingAmbiguous now z =
     update_outbox (\<lambda>r. (z = None \<or> z = Some (o_id r)) \<and> stale_lease now r)
       (\<lambda>r. r\<lparr>o_state := Ambiguous, o_leaseOwner := None, o_leaseExpiresAt := None, o_nextAttemptAt := None,
              o_lastError := Some ''Delivery worker lease expired; SMTP outcome is unknown''\<rparr>)"

definition deliverable :: "time \<Rightarrow> outbound \<Rightarrow> bool" where
  "deliverable now r \<longleftrightarrow>
     o_state r = Queued \<or> (o_state r = Retry \<and> (case o_nextAttemptAt r of None \<Rightarrow> False | Some t \<Rightarrow> t \<le> now))"

definition claim_outbound :: "nat \<Rightarrow> string \<Rightarrow> time \<Rightarrow> nat act_db" where
  "claim_outbound i leaseOwner now =
     update_outbox (\<lambda>r. o_id r = i \<and> deliverable now r)
       (\<lambda>r. r\<lparr>o_state := Processing, o_attempts := Suc (o_attempts r), o_leaseOwner := Some leaseOwner,
              o_leaseExpiresAt := Some (now + OUTBOX_LEASE_MS), o_leaseVersion := Suc (o_leaseVersion r)\<rparr>)"

text \<open>The fence of every later write of a worker: the row is still the one it claimed.\<close>

definition holds_lease :: "nat \<Rightarrow> string \<Rightarrow> nat \<Rightarrow> outbound \<Rightarrow> bool" where
  "holds_lease i leaseOwner leaseVersion r \<longleftrightarrow>
     o_id r = i \<and> o_state r = Processing \<and> o_leaseOwner r = Some leaseOwner \<and> o_leaseVersion r = leaseVersion"

definition released :: "outbound_state \<Rightarrow> string option \<Rightarrow> outbound \<Rightarrow> outbound" where
  "released st err r =
     r\<lparr>o_state := st, o_leaseOwner := None, o_leaseExpiresAt := None, o_nextAttemptAt := None, o_lastError := err\<rparr>"

definition rejectCanary :: "outbound \<Rightarrow> string \<Rightarrow> nat act_db" where
  "rejectCanary ob leaseOwner =
     update_outbox (holds_lease (o_id ob) leaseOwner (o_leaseVersion ob))
       (released Failed (Some ''Outbound canary recipient guard rejected this row; no SMTP attempt was made''))"

definition extendLease :: "nat \<Rightarrow> string \<Rightarrow> nat \<Rightarrow> time \<Rightarrow> nat act_db" where
  "extendLease i leaseOwner leaseVersion now =
     update_outbox (holds_lease i leaseOwner leaseVersion) (\<lambda>r. r\<lparr>o_leaseExpiresAt := Some (now + OUTBOX_LEASE_MS)\<rparr>)"

definition set_emailed :: "nat \<Rightarrow> unit act_db" where
  "set_emailed postId =
     modify (\<lambda>d. d\<lparr>posts := update_rows (\<lambda>p. p_id p = postId) (\<lambda>p. p\<lparr>p_isEmailed := True\<rparr>) (posts d)\<rparr>)"

definition set_first_response :: "nat \<Rightarrow> time \<Rightarrow> nat act_db" where
  "set_first_response ticketId now =
     update_many_tickets (\<lambda>t. t_id t = ticketId \<and> t_firstResponseAt t = None) (\<lambda>t. t\<lparr>t_firstResponseAt := Some now\<rparr>)"

definition markSent :: "outbound \<Rightarrow> string \<Rightarrow> string option \<Rightarrow> string option \<Rightarrow> time \<Rightarrow> bool act_db" where
  "markSent ob leaseOwner response messageId now =
     (let providerResponse = sanitizeProviderResponse (case response of Some r \<Rightarrow> Some r | None \<Rightarrow> messageId) in
      txn (bnd (update_outbox (holds_lease (o_id ob) leaseOwner (o_leaseVersion ob))
                 (\<lambda>r. (released Sent None r)
                    \<lparr>o_providerResponse := providerResponse, o_acceptedAt := Some now, o_sentAt := Some now\<rparr>)) (\<lambda>count.
           if count \<noteq> 1 then ret False
           else sq (case o_postId ob of None \<Rightarrow> ret () | Some postId \<Rightarrow> set_emailed postId)
               (sq (case (o_kind ob, o_ticketId ob) of
                      (StaffReply, Some ticketId) \<Rightarrow> set_first_response ticketId now
                    | _ \<Rightarrow> ret 0)
                   (ret True)))))"

definition markAmbiguousAfterSmtpAcceptance :: "outbound \<Rightarrow> string \<Rightarrow> nat act_db" where
  "markAmbiguousAfterSmtpAcceptance ob leaseOwner =
     update_outbox (holds_lease (o_id ob) leaseOwner (o_leaseVersion ob))
       (released Ambiguous (Some ''SMTP accepted but delivery state could not be persisted''))"

fun failure_state :: "failure_class \<Rightarrow> outbound_state" where
  "failure_state FcRetry = Retry"
| "failure_state FcFailed = Failed"
| "failure_state FcAmbiguous = Ambiguous"

definition recordDeliveryFailure :: "outbound \<Rightarrow> string \<Rightarrow> smtp_error \<Rightarrow> time \<Rightarrow> nat act_db" where
  "recordDeliveryFailure ob leaseOwner err now =
     (let (state, nextAttemptAt) = classifyFailure now err (o_attempts ob) in
      update_outbox (holds_lease (o_id ob) leaseOwner (o_leaseVersion ob))
        (\<lambda>r. (released (failure_state state) (Some (sanitizeFailure err)) r)\<lparr>o_nextAttemptAt := nextAttemptAt\<rparr>))"

text \<open>What is handed to the mail library.\<close>

datatype auto_submitted = NotAutomatic | AutoReplied | AutoGenerated

record send_options =
  so_from :: string
  so_replyTo :: "string option"
  so_to :: "string list"
  so_cc :: "string list"
  so_bcc :: "string list"
  so_subject :: string
  so_html :: string
  so_text :: string
  so_messageId :: string
  so_autoSubmitted :: auto_submitted
  so_inReplyTo :: "string option"
  so_references :: "string list"
  so_attachments :: "(string \<times> string \<times> string) list"

definition recipientsByRole :: "outbound \<Rightarrow> role \<Rightarrow> string list" where
  "recipientsByRole ob r = map fst (filter (\<lambda>(email, q). q = r) (o_recipients ob))"

definition plain_error :: "string \<Rightarrow> smtp_error" where
  "plain_error message = \<lparr>x_responseCode = None, x_code = None, x_message = Some message, x_name = Some ''Error''\<rparr>"

definition non_empty :: "string option \<Rightarrow> string option" where
  "non_empty z = (if z = Some '''' then None else z)"

definition toSendMailOptions :: "mail_config \<Rightarrow> outbound \<Rightarrow> smtp_error + send_options" where
  "toSendMailOptions cfg ob =
     (if o_kind ob = StaffReply \<and> o_ticketId ob = None then Inl (plain_error ''Staff reply outbox row has no ticket'')
      else if mc_storage cfg = None \<and> o_attachments ob \<noteq> [] then
        Inl (plain_error ''Outbound attachment storage is unavailable'')
      else if recipientsByRole ob TO = [] then Inl (plain_error ''Outbound email has no To recipient'')
      else Inr \<lparr>so_from = o_fromAddress ob, so_replyTo = non_empty (o_replyToAddress ob),
                so_to = recipientsByRole ob TO, so_cc = recipientsByRole ob CC, so_bcc = recipientsByRole ob BCC,
                so_subject = o_subject ob, so_html = o_htmlBody ob, so_text = o_textBody ob,
                so_messageId = o_messageId ob,
                so_autoSubmitted = (case o_kind ob of Autoresponder \<Rightarrow> AutoReplied | StaffReply \<Rightarrow> NotAutomatic
                                    | _ \<Rightarrow> AutoGenerated),
                so_inReplyTo = non_empty (o_inReplyTo ob), so_references = o_references ob,
                so_attachments = map (\<lambda>(fileName, mimeType, storageKey).
                  (fileName, mimeType, (case mc_storage cfg of Some pathForKey \<Rightarrow> pathForKey storageKey | None \<Rightarrow> storageKey)))
                  (o_attachments ob)\<rparr>)"

text \<open>
  The environment of one delivery: the mail server's answer to the message, whether the database
  accepts the write that records an acceptance, and the time then.
\<close>

record delivery_env =
  dv_smtp :: "send_options \<Rightarrow> smtp_error + (string option \<times> string option)"   \<comment> \<open>response, message id\<close>
  dv_persists :: bool
  dv_settledAt :: time

definition claimed_row :: "nat \<Rightarrow> string \<Rightarrow> db \<Rightarrow> outbound option" where
  "claimed_row i leaseOwner d =
     (case outbound_by_id i d of
        Some r \<Rightarrow> if o_state r = Processing \<and> o_leaseOwner r = Some leaseOwner \<and> o_leaseVersion r \<ge> 1 then Some r else None
      | None \<Rightarrow> None)"

definition transmit :: "mail_config \<Rightarrow> delivery_env \<Rightarrow> outbound \<Rightarrow> smtp_error + (string option \<times> string option)" where
  "transmit cfg env ob = (case toSendMailOptions cfg ob of Inl e \<Rightarrow> Inl e | Inr opts \<Rightarrow> dv_smtp env opts)"

definition settle_outbound :: "mail_config \<Rightarrow> delivery_env \<Rightarrow> outbound \<Rightarrow> string \<Rightarrow> unit act_db" where
  "settle_outbound cfg env ob leaseOwner =
     (case transmit cfg env ob of
        Inl err \<Rightarrow> sq (recordDeliveryFailure ob leaseOwner err (dv_settledAt env)) (ret ())
      | Inr (response, messageId) \<Rightarrow>
          if dv_persists env then sq (markSent ob leaseOwner response messageId (dv_settledAt env)) (ret ())
          else sq (markAmbiguousAfterSmtpAcceptance ob leaseOwner) (ret ()))"

definition processOutboundEmail :: "mail_config \<Rightarrow> delivery_env \<Rightarrow> nat \<Rightarrow> string \<Rightarrow> time \<Rightarrow> unit act_db" where
  "processOutboundEmail cfg env i leaseOwner now =
     (if \<not> mc_enabled cfg then ret ()
      else bnd (reads (isApprovedOutboundCanaryCommand cfg i)) (\<lambda>approved.
        if \<not> approved then ret ()
        else bnd (markStaleProcessingAmbiguous now (Some i)) (\<lambda>stale.
          if stale > 0 then ret ()
          else bnd (claim_outbound i leaseOwner now) (\<lambda>count.
            if count \<noteq> 1 then ret ()
            else bnd (reads (claimed_row i leaseOwner)) (\<lambda>row.
              case row of
                None \<Rightarrow> ret ()
              | Some ob \<Rightarrow>
                  if \<not> matchesOutboundCanaryRecipient cfg ob then sq (rejectCanary ob leaseOwner) (ret ())
                  else settle_outbound cfg env ob leaseOwner)))))"

text \<open>The recovery scan: the rows it wakes, oldest first, after expired leases were set aside.\<close>

definition recoverDurableOutbox :: "mail_config \<Rightarrow> time \<Rightarrow> nat list act_db" where
  "recoverDurableOutbox cfg now =
     (let canary = outboundCanary cfg; only = map_option fst canary in
      if \<not> mc_enabled cfg then ret []
      else bnd (reads (\<lambda>d. case only of None \<Rightarrow> True | Some i \<Rightarrow> isApprovedOutboundCanaryCommand cfg i d)) (\<lambda>approved.
        if \<not> approved then ret []
        else sq (markStaleProcessingAmbiguous now only)
               (reads (\<lambda>d. take OUTBOX_RECOVERY_BATCH (map o_id (sort_key o_createdAt
                  (filter (\<lambda>r. (only = None \<or> only = Some (o_id r)) \<and> deliverable now r) (outbox d))))))))"

section \<open>Operator retry\<close>

definition retry_scope :: "department_scope \<Rightarrow> db \<Rightarrow> nat \<Rightarrow> outbound \<Rightarrow> bool" where
  "retry_scope sc d i r \<longleftrightarrow>
     o_id r = i \<and>
     (ds_unrestricted sc \<or>
      (case o_ticketId r of
         None \<Rightarrow> False
       | Some tid \<Rightarrow> (case ticket_by_id tid d of None \<Rightarrow> False | Some t \<Rightarrow> ticketWhereForScope sc t)))"

definition retryOutboundEmail :: "mail_config \<Rightarrow> mail_actor \<Rightarrow> nat \<Rightarrow> outbound option act_db" where
  "retryOutboundEmail cfg actor i =
     sq (require (mc_enabled cfg) (ServiceUnavailable ''Outbound email delivery is disabled''))
    (bnd (reads (isApprovedOutboundCanaryCommand cfg i)) (\<lambda>approved.
     sq (require approved (ServiceUnavailable ''Outbound email is outside the active SMTP canary''))
    (bnd (mailScope actor) (\<lambda>scope.
     txn (bnd (reads (\<lambda>d. find_row (retry_scope scope d i) (outbox d))) (\<lambda>row.
       case row of
         None \<Rightarrow> ret None
       | Some r \<Rightarrow>
           if o_state r = Sent \<or> \<not> matchesOutboundCanaryRecipient cfg r then ret None
           else bnd (\<lambda>d. update_outbox (\<lambda>x. retry_scope scope d i x \<and> o_state x \<in> {Failed, Ambiguous, Retry})
                            (released Queued None) d) (\<lambda>count.
             if count \<noteq> 1 then ret None
             else sq (case o_ticketId r of
                        None \<Rightarrow> ret 0
                      | Some tid \<Rightarrow> writeAudit tid ''OUTBOUND_RETRY'' (Some (nat (ma_staffId actor))) ByStaff
                          (Some ''outboundEmailId'') None (Some (nat_str (o_id r))))
                    (reads (\<lambda>d. find_row (retry_scope scope d i) (outbox d))))))))))"

end
