(* ===== verification/Lease.thy ===== *)
theory Lease
  imports Prelude
begin

text \<open>
  What a lease promises, for any table of leased work: a settlement carries the token of the claim
  it settles, changes only the row that still holds this token, and gives the lease up.
\<close>

locale lease_fence =
  fixes rows :: "'d \<Rightarrow> 'r list"
    and key :: "'r \<Rightarrow> nat"
    and token :: "'r \<Rightarrow> 't option"
    and patch :: "'r \<Rightarrow> 'r"
    and settle :: "nat \<Rightarrow> 't \<Rightarrow> 'd \<Rightarrow> 'd"
  assumes settle_rows: "rows (settle i tk d) = map (\<lambda>r. if key r = i \<and> token r = Some tk then patch r else r) (rows d)"
    and patch_releases: "token (patch r) = None"
    and patch_key: "key (patch r) = key r"
begin

lemma lost_lease: "(\<forall>r \<in> set (rows d). key r = i \<longrightarrow> token r \<noteq> Some tk) \<Longrightarrow> rows (settle i tk d) = rows d"
  by (auto simp: settle_rows intro!: map_idI)

lemma settle_once: "rows (settle i tk (settle i tk d)) = rows (settle i tk d)"
  by (simp add: settle_rows patch_releases patch_key comp_def)

lemma other_rows: "filter (\<lambda>r. key r \<noteq> i) (rows (settle i tk d)) = filter (\<lambda>r. key r \<noteq> i) (rows d)"
proof -
  have "filter (\<lambda>r. key r \<noteq> i) (map (\<lambda>r. if key r = i \<and> token r = Some tk then patch r else r) rs) =
        filter (\<lambda>r. key r \<noteq> i) rs" for rs
    by (induction rs) (auto simp: patch_key)
  then show ?thesis by (simp add: settle_rows)
qed

text \<open>Two claims of one row: whichever settles first, the other finds its lease gone.\<close>

lemma settled_elsewhere:
  assumes "\<And>r r'. r \<in> set (rows d) \<Longrightarrow> r' \<in> set (rows d) \<Longrightarrow> key r = key r' \<Longrightarrow> r = r'"
    and "r \<in> set (rows d)" "key r = i" "token r = Some tk" "tk' \<noteq> tk"
  shows "rows (settle i tk' d) = rows d"
  using assms by (intro lost_lease) force

end

end
