(* ===== verification/OutboxRun.thy ===== *)
theory OutboxRun
  imports Outbox Lease
begin

text \<open>
  Concurrent delivery. Any number of workers, recovery scans and operators act on the outbox;
  every database statement of \<open>processOutboundEmail\<close>, \<open>extendLease\<close>, \<open>recoverDurableOutbox\<close> and
  \<open>retryOutboundEmail\<close> is one step, in any order. A worker between its claim and its last write is
  a job; a worker may die at any point. The run records which claims the mail server accepted and
  how often an operator put a row back into the queue.
\<close>

section \<open>Fenced writes\<close>

text \<open>The token of an outbox row in delivery: owner and version of its claim.\<close>

definition outbox_token :: "outbound \<Rightarrow> (string \<times> nat) option" where
  "outbox_token r =
     (case o_leaseOwner r of
        Some w \<Rightarrow> if o_state r = Processing then Some (w, o_leaseVersion r) else None
      | None \<Rightarrow> None)"

lemma holds_lease_token: "holds_lease i w v r \<longleftrightarrow> o_id r = i \<and> outbox_token r = Some (w, v)"
  by (auto simp: holds_lease_def outbox_token_def split: option.splits)

lemma released_sel [simp]:
  "o_id (released st e r) = o_id r" "o_state (released st e r) = st" "o_leaseVersion (released st e r) = o_leaseVersion r"
  "o_attempts (released st e r) = o_attempts r" "outbox_token (released st e r) = None"
  "o_leaseOwner (released st e r) = None" "o_lastError (released st e r) = e"
  by (simp_all add: released_def outbox_token_def)

definition settle_lease :: "(outbound \<Rightarrow> outbound) \<Rightarrow> nat \<Rightarrow> string \<times> nat \<Rightarrow> db \<Rightarrow> db" where
  "settle_lease f i tk d = final (update_outbox (holds_lease i (fst tk) (snd tk)) f) d"

lemma outbox_update_outbox [simp]:
  "outbox (snd (update_outbox p f d)) = update_rows p f (outbox d)"
  "seq_outbox (snd (update_outbox p f d)) = seq_outbox d"
  by (simp_all add: update_outbox_def)

interpretation delivery_lease: lease_fence outbox o_id outbox_token "released st e" "settle_lease (released st e)" for st e
proof unfold_locales
  fix i tk d r
  show "outbox (settle_lease (released st e) i tk d) =
      map (\<lambda>r. if o_id r = i \<and> outbox_token r = Some tk then released st e r else r) (outbox d)"
    by (simp add: settle_lease_def final_def update_rows_def holds_lease_token)
qed simp_all

section \<open>Runs\<close>

record job =
  j_row :: outbound          \<comment> \<open>the row as read after the claim\<close>
  j_owner :: string
  j_accepted :: bool

record world =
  w_db :: db
  w_jobs :: "job list"
  w_acks :: "(nat \<times> nat) list"   \<comment> \<open>row and lease version of every acceptance by the mail server\<close>
  w_retries :: "nat list"        \<comment> \<open>rows an operator put back into the queue\<close>

text \<open>A row as \<open>insert_outbound\<close> is given it by the commands.\<close>

definition fresh_command :: "outbound \<Rightarrow> bool" where
  "fresh_command r \<longleftrightarrow> o_state r = Queued \<and> o_attempts r = 0 \<and> o_leaseVersion r = 0"

inductive mail_step :: "mail_config \<Rightarrow> world \<Rightarrow> world \<Rightarrow> bool" for cfg where
  create: "fresh_command r \<Longrightarrow> mail_step cfg w (w\<lparr>w_db := final (insert_outbound r) (w_db w)\<rparr>)"
| elsewhere: "outbox d = outbox (w_db w) \<Longrightarrow> seq_outbox d = seq_outbox (w_db w) \<Longrightarrow> mail_step cfg w (w\<lparr>w_db := d\<rparr>)"
| expire: "mail_step cfg w (w\<lparr>w_db := final (markStaleProcessingAmbiguous now z) (w_db w)\<rparr>)"
| claim: "claim_outbound i owner now (w_db w) = (Inr 1, d) \<Longrightarrow> claimed_row i owner d = Some r \<Longrightarrow>
    mail_step cfg w (w\<lparr>w_db := d, w_jobs := w_jobs w @ [\<lparr>j_row = r, j_owner = owner, j_accepted = False\<rparr>]\<rparr>)"
| claim_die: "mail_step cfg w (w\<lparr>w_db := final (claim_outbound i owner now) (w_db w)\<rparr>)"
| heartbeat: "mail_step cfg w (w\<lparr>w_db := final (extendLease i owner v now) (w_db w)\<rparr>)"
| die: "w_jobs w = js1 @ j # js2 \<Longrightarrow> mail_step cfg w (w\<lparr>w_jobs := js1 @ js2\<rparr>)"
| reject: "w_jobs w = js1 @ j # js2 \<Longrightarrow> \<not> j_accepted j \<Longrightarrow>
    mail_step cfg w (w\<lparr>w_db := final (rejectCanary (j_row j) (j_owner j)) (w_db w), w_jobs := js1 @ js2\<rparr>)"
| accept: "w_jobs w = js1 @ j # js2 \<Longrightarrow> \<not> j_accepted j \<Longrightarrow>
    mail_step cfg w (w\<lparr>w_jobs := js1 @ j\<lparr>j_accepted := True\<rparr> # js2,
      w_acks := w_acks w @ [(o_id (j_row j), o_leaseVersion (j_row j))]\<rparr>)"
| failed: "w_jobs w = js1 @ j # js2 \<Longrightarrow> \<not> j_accepted j \<Longrightarrow>
    mail_step cfg w (w\<lparr>w_db := final (recordDeliveryFailure (j_row j) (j_owner j) err now) (w_db w), w_jobs := js1 @ js2\<rparr>)"
| sent: "w_jobs w = js1 @ j # js2 \<Longrightarrow> j_accepted j \<Longrightarrow>
    mail_step cfg w (w\<lparr>w_db := final (markSent (j_row j) (j_owner j) response mid now) (w_db w), w_jobs := js1 @ js2\<rparr>)"
| unsure: "w_jobs w = js1 @ j # js2 \<Longrightarrow> j_accepted j \<Longrightarrow>
    mail_step cfg w (w\<lparr>w_db := final (markAmbiguousAfterSmtpAcceptance (j_row j) (j_owner j)) (w_db w), w_jobs := js1 @ js2\<rparr>)"
| operator: "retryOutboundEmail cfg actor i (w_db w) = (Inr (Some r), d) \<Longrightarrow>
    mail_step cfg w (w\<lparr>w_db := d, w_retries := w_retries w @ [i]\<rparr>)"

text \<open>The start: an empty outbox and no worker.\<close>

definition mail_init :: "world \<Rightarrow> bool" where
  "mail_init w \<longleftrightarrow> outbox (w_db w) = [] \<and> w_jobs w = [] \<and> w_acks w = [] \<and> w_retries w = []"

inductive mail_run :: "mail_config \<Rightarrow> world \<Rightarrow> bool" for cfg where
  start: "mail_init w \<Longrightarrow> mail_run cfg w"
| more: "mail_run cfg w \<Longrightarrow> mail_step cfg w w' \<Longrightarrow> mail_run cfg w'"

section \<open>The effect of each step on the outbox\<close>

text \<open>
  Every statement on the outbox either appends a fresh row or rewrites rows in place; the
  rewriting is summarised per row.
\<close>

definition waiting :: "outbound \<Rightarrow> bool" where
  "waiting r \<longleftrightarrow> o_state r \<in> {Queued, Retry}"

definition acks_of :: "nat \<Rightarrow> world \<Rightarrow> nat" where
  "acks_of i w = count_rows (\<lambda>a. fst a = i) (w_acks w)"

definition open_jobs :: "nat \<Rightarrow> world \<Rightarrow> nat" where
  "open_jobs i w = count_rows (\<lambda>j. o_id (j_row j) = i \<and> \<not> j_accepted j) (w_jobs w)"

definition retries_of :: "nat \<Rightarrow> world \<Rightarrow> nat" where
  "retries_of i w = count_rows (\<lambda>k. k = i) (w_retries w)"

definition waiting_rows :: "nat \<Rightarrow> db \<Rightarrow> nat" where
  "waiting_rows i d = count_rows (\<lambda>r. o_id r = i \<and> waiting r) (outbox d)"

lemma waiting_update:
  assumes "\<And>r. o_id (f r) = o_id r"
  shows "count_rows (\<lambda>r. o_id r = i \<and> waiting r) (update_rows p f rows) + count_rows (\<lambda>r. p r \<and> o_id r = i \<and> waiting r) rows
       = count_rows (\<lambda>r. o_id r = i \<and> waiting r) rows + count_rows (\<lambda>r. p r \<and> o_id r = i \<and> waiting (f r)) rows"
  using assms by (induction rows) auto

lemma count_rows_le: "(\<And>r. p r \<Longrightarrow> q r) \<Longrightarrow> count_rows p rows \<le> count_rows q rows"
  by (induction rows) auto

lemma waiting_falls:
  assumes "\<And>r. o_id (f r) = o_id r" "\<And>r. \<not> waiting (f r)"
  shows "count_rows (\<lambda>r. o_id r = i \<and> waiting r) (update_rows p f rows) \<le> count_rows (\<lambda>r. o_id r = i \<and> waiting r) rows"
  using waiting_update [OF assms(1), where i = i and p = p and rows = rows] assms(2) by (simp add: count_rows_def)

lemma waiting_rises:
  assumes "\<And>r. o_id (f r) = o_id r" "\<And>r. p r \<Longrightarrow> o_id r = k" "count_rows p rows \<le> 1"
  shows "count_rows (\<lambda>r. o_id r = i \<and> waiting r) (update_rows p f rows) \<le>
         count_rows (\<lambda>r. o_id r = i \<and> waiting r) rows + (if i = k then 1 else 0)"
proof -
  have "count_rows (\<lambda>r. p r \<and> o_id r = i \<and> waiting (f r)) rows \<le> (if i = k then 1 else 0)"
  proof (cases "i = k")
    case True
    then show ?thesis using count_rows_le [of "\<lambda>r. p r \<and> o_id r = i \<and> waiting (f r)" p rows] assms(3) by simp
  next
    case False
    then show ?thesis using assms(2) by (auto simp: count_rows_0_iff)
  qed
  then show ?thesis
    using waiting_update [OF assms(1), where i = i and p = p and rows = rows] by simp
qed

text \<open>The shape of every statement: a conditional rewrite of rows.\<close>

lemma outbox_final_simps [simp]:
  "outbox (final (update_outbox p f) d) = update_rows p f (outbox d)"
  "seq_outbox (final (update_outbox p f) d) = seq_outbox d"
  by (simp_all add: final_def)

lemma set_emailed_outbox [simp]:
  "outbox (snd (set_emailed p d)) = outbox d" "seq_outbox (snd (set_emailed p d)) = seq_outbox d"
  by (simp_all add: set_emailed_def modify_def)

lemma set_first_response_outbox [simp]:
  "outbox (snd (set_first_response t now d)) = outbox d" "seq_outbox (snd (set_first_response t now d)) = seq_outbox d"
  by (simp_all add: set_first_response_def update_many_tickets_def)

definition sent_patch :: "string option \<Rightarrow> string option \<Rightarrow> time \<Rightarrow> outbound \<Rightarrow> outbound" where
  "sent_patch response mid now r =
     (released Sent None r)\<lparr>o_providerResponse := sanitizeProviderResponse (case response of Some x \<Rightarrow> Some x | None \<Rightarrow> mid),
       o_acceptedAt := Some now, o_sentAt := Some now\<rparr>"

lemma sent_patch_sel [simp]:
  "o_id (sent_patch x y now r) = o_id r" "o_state (sent_patch x y now r) = Sent"
  "o_leaseVersion (sent_patch x y now r) = o_leaseVersion r" "o_attempts (sent_patch x y now r) = o_attempts r"
  by (simp_all add: sent_patch_def)

lemma lease_unique:
  assumes "distinct (map o_id (outbox d))"
  shows "count_rows (holds_lease i w v) (outbox d) \<le> 1"
  by (rule count_rows_distinct [OF assms, where i = i]) (simp add: holds_lease_def)

lemma markSent_outbox:
  assumes "distinct (map o_id (outbox d))"
  shows "outbox (final (markSent ob w response mid now) d) =
           update_rows (holds_lease (o_id ob) w (o_leaseVersion ob)) (sent_patch response mid now) (outbox d)
       \<and> seq_outbox (final (markSent ob w response mid now) d) = seq_outbox d"
proof -
  let ?p = "holds_lease (o_id ob) w (o_leaseVersion ob)"
  have "count_rows ?p (outbox d) = 0 \<or> count_rows ?p (outbox d) = 1"
    using lease_unique [OF assms, of "o_id ob" w "o_leaseVersion ob"] by linarith
  then show ?thesis
  proof
    assume none: "count_rows ?p (outbox d) = 0"
    then have "update_rows ?p f (outbox d) = outbox d" for f
      by (simp add: update_rows_none count_rows_0_iff)
    with none show ?thesis
      by (simp add: markSent_def act_defs final_def update_outbox_def Let_def)
  next
    assume "count_rows ?p (outbox d) = 1"
    then show ?thesis
      by (simp add: markSent_def act_defs final_def update_outbox_def Let_def sent_patch_def [abs_def]
            set_emailed_def set_first_response_def update_many_tickets_def
          split: option.splits outbound_kind.splits)
  qed
qed

definition failure_patch :: "outbound \<Rightarrow> smtp_error \<Rightarrow> time \<Rightarrow> outbound \<Rightarrow> outbound" where
  "failure_patch ob err now r =
     (released (failure_state (fst (classifyFailure now err (o_attempts ob)))) (Some (sanitizeFailure err)) r)
       \<lparr>o_nextAttemptAt := snd (classifyFailure now err (o_attempts ob))\<rparr>"

lemma failure_patch_sel [simp]:
  "o_id (failure_patch ob err now r) = o_id r" "o_leaseVersion (failure_patch ob err now r) = o_leaseVersion r"
  "o_state (failure_patch ob err now r) = failure_state (fst (classifyFailure now err (o_attempts ob)))"
  "o_attempts (failure_patch ob err now r) = o_attempts r"
  by (simp_all add: failure_patch_def)

lemma recordDeliveryFailure_eq:
  "recordDeliveryFailure ob w err now =
     update_outbox (holds_lease (o_id ob) w (o_leaseVersion ob)) (failure_patch ob err now)"
  by (simp add: recordDeliveryFailure_def failure_patch_def [abs_def] split_beta Let_def)

text \<open>The shape of a successful operator retry: exactly one row leaves an unfinished state.\<close>

lemma retryOutboundEmail_outbox:
  assumes "retryOutboundEmail cfg actor i d = (Inr (Some r'), d')"
  shows "\<exists>p. outbox d' = update_rows p (released Queued None) (outbox d) \<and> seq_outbox d' = seq_outbox d \<and>
           count_rows p (outbox d) = 1 \<and> (\<forall>r. p r \<longrightarrow> o_id r = i \<and> o_state r \<in> {Failed, Ambiguous, Retry})"
proof -
  obtain sc where "mailScope actor d = (Inr sc, d)"
    using assms by (auto simp: retryOutboundEmail_def mailScope_def assertValidActor_def act_defs split: if_splits)
  let ?p = "\<lambda>x. retry_scope sc d i x \<and> o_state x \<in> {Failed, Ambiguous, Retry}"
  have "outbox d' = update_rows ?p (released Queued None) (outbox d) \<and> seq_outbox d' = seq_outbox d
      \<and> count_rows ?p (outbox d) = 1"
    using assms \<open>mailScope actor d = (Inr sc, d)\<close>
    by (auto simp: retryOutboundEmail_def act_defs update_outbox_def writeAudit_def
        split: if_splits option.splits prod.splits sum.splits)
  moreover have "\<forall>r. ?p r \<longrightarrow> o_id r = i \<and> o_state r \<in> {Failed, Ambiguous, Retry}"
    by (simp add: retry_scope_def)
  ultimately show ?thesis by blast
qed

lemma claim_outbound_outbox:
  "claim_outbound i w now d = (Inr n, d') \<Longrightarrow>
   n = count_rows (\<lambda>r. o_id r = i \<and> deliverable now r) (outbox d) \<and> d' = final (claim_outbound i w now) d"
  by (auto simp: claim_outbound_def update_outbox_def final_def)

lemma deliverable_waiting: "deliverable now r \<Longrightarrow> waiting r"
  by (auto simp: deliverable_def waiting_def)

section \<open>Invariants\<close>

definition outbox_ids :: "db \<Rightarrow> bool" where
  "outbox_ids d \<longleftrightarrow> distinct (map o_id (outbox d)) \<and> (\<forall>r \<in> set (outbox d). o_id r < seq_outbox d)"

text \<open>
  The delivery budget of a row: acceptances so far, jobs that may still be accepted, and one more
  when the row waits for a claim, never exceed one plus the number of operator retries.
\<close>

definition budget :: "world \<Rightarrow> bool" where
  "budget w \<longleftrightarrow> (\<forall>i. acks_of i w + open_jobs i w + waiting_rows i (w_db w) \<le>
     retries_of i w + (if i < seq_outbox (w_db w) then 1 else 0))"

definition sent_backed :: "world \<Rightarrow> bool" where
  "sent_backed w \<longleftrightarrow>
     (\<forall>r \<in> set (outbox (w_db w)). o_state r = Sent \<longrightarrow> (o_id r, o_leaseVersion r) \<in> set (w_acks w)) \<and>
     (\<forall>j \<in> set (w_jobs w). j_accepted j \<longrightarrow> (o_id (j_row j), o_leaseVersion (j_row j)) \<in> set (w_acks w))"

definition tries_bound :: "nat \<Rightarrow> outbound \<Rightarrow> bool" where
  "tries_bound k r \<longleftrightarrow> o_attempts r = o_leaseVersion r \<and>
     (case o_state r of Queued \<Rightarrow> o_attempts r \<le> 4 + k | Retry \<Rightarrow> o_attempts r \<le> 4 | _ \<Rightarrow> o_attempts r \<le> 5 + k)"

definition tries_bounded :: "world \<Rightarrow> bool" where
  "tries_bounded w \<longleftrightarrow>
     (\<forall>r \<in> set (outbox (w_db w)). tries_bound (retries_of (o_id r) w) r) \<and>
     (\<forall>j \<in> set (w_jobs w). o_attempts (j_row j) = o_leaseVersion (j_row j))"

lemma outbox_ids_update:
  "outbox_ids d \<Longrightarrow> outbox d' = update_rows p f (outbox d) \<Longrightarrow> seq_outbox d' = seq_outbox d \<Longrightarrow>
   (\<And>r. o_id (f r) = o_id r) \<Longrightarrow> outbox_ids d'"
  by (auto simp: outbox_ids_def distinct_map_update set_update_rows)

lemma insert_outbound_cases:
  "final (insert_outbound r) d \<in> {d, d\<lparr>outbox := outbox d @ [r\<lparr>o_id := seq_outbox d\<rparr>], seq_outbox := Suc (seq_outbox d)\<rparr>}"
  unfolding insert_outbound_def final_def by (simp del: map_map)

lemma insert_keeps_ids: "outbox_ids d \<Longrightarrow> outbox_ids (final (insert_outbound r) d)"
  using insert_outbound_cases [of r d] by (auto simp: outbox_ids_def less_Suc_eq) force

lemmas statement_defs = markStaleProcessingAmbiguous_def claim_outbound_def extendLease_def rejectCanary_def
  markAmbiguousAfterSmtpAcceptance_def recordDeliveryFailure_eq

lemma step_keeps_ids:
  assumes "mail_step cfg w w'" "outbox_ids (w_db w)"
  shows "outbox_ids (w_db w')"
  using assms(1)
proof cases
  case (sent js1 j js2 response mid now)
  then show ?thesis
    using markSent_outbox [of "w_db w" "j_row j" "j_owner j" response mid now] assms(2)
    by (auto simp: outbox_ids_def distinct_map_update set_update_rows)
next
  case (operator actor i r d)
  then show ?thesis
    using retryOutboundEmail_outbox [of cfg actor i "w_db w" r d] assms(2)
    by (auto intro: outbox_ids_update)
next
  case (claim i owner now d r)
  then have "d = final (claim_outbound i owner now) (w_db w)"
    by (metis claim_outbound_outbox)
  then show ?thesis
    using claim assms(2) by (auto simp: statement_defs intro: outbox_ids_update)
qed (use assms(2) in \<open>auto simp: statement_defs insert_keeps_ids intro: outbox_ids_update\<close>,
     (auto simp: outbox_ids_def)?)

text \<open>A step that changes rows in place keeps the budget when the new value of the three counts
  is covered.\<close>

lemma budget_step:
  assumes "budget w" "seq_outbox (w_db w) \<le> seq_outbox (w_db w')"
    and "\<And>i. acks_of i w' + open_jobs i w' + waiting_rows i (w_db w') + retries_of i w \<le>
             acks_of i w + open_jobs i w + waiting_rows i (w_db w) + retries_of i w'"
  shows "budget w'"
  unfolding budget_def
proof
  fix i
  have "acks_of i w + open_jobs i w + waiting_rows i (w_db w) \<le> retries_of i w + (if i < seq_outbox (w_db w) then 1 else 0)"
    using assms(1) by (simp add: budget_def)
  with assms(3) [of i] assms(2)
  show "acks_of i w' + open_jobs i w' + waiting_rows i (w_db w') \<le> retries_of i w' + (if i < seq_outbox (w_db w') then 1 else 0)"
    by (auto split: if_splits)
qed

lemma waiting_rows_falls:
  assumes "outbox d' = update_rows p f (outbox d)" "\<And>r. o_id (f r) = o_id r" "\<And>r. \<not> waiting (f r)"
  shows "waiting_rows i d' \<le> waiting_rows i d"
  unfolding waiting_rows_def assms(1) by (rule waiting_falls [OF assms(2,3)])

lemma waiting_rows_rises:
  assumes "outbox d' = update_rows p f (outbox d)" "\<And>r. o_id (f r) = o_id r" "\<And>r. p r \<Longrightarrow> o_id r = k"
    "count_rows p (outbox d) \<le> 1"
  shows "waiting_rows i d' \<le> waiting_rows i d + (if i = k then 1 else 0)"
  unfolding waiting_rows_def assms(1) by (rule waiting_rises [OF assms(2,3,4)])

lemma claim_lowers_waiting:
  assumes "claim_outbound i w now d = (Inr 1, d')"
  shows "waiting_rows k d' + (if k = i then 1 else 0) \<le> waiting_rows k d"
proof -
  let ?p = "\<lambda>r. o_id r = i \<and> deliverable now r"
  let ?f = "\<lambda>r. r\<lparr>o_state := Processing, o_attempts := Suc (o_attempts r), o_leaseOwner := Some w,
              o_leaseExpiresAt := Some (now + OUTBOX_LEASE_MS), o_leaseVersion := Suc (o_leaseVersion r)\<rparr>"
  have d': "outbox d' = update_rows ?p ?f (outbox d)" and one: "count_rows ?p (outbox d) = 1"
    using assms by (auto simp: claim_outbound_def update_outbox_def)
  have "waiting_rows k d' + count_rows (\<lambda>r. ?p r \<and> o_id r = k \<and> waiting r) (outbox d) =
      waiting_rows k d + count_rows (\<lambda>r. ?p r \<and> o_id r = k \<and> waiting (?f r)) (outbox d)"
    unfolding waiting_rows_def d' by (rule waiting_update) simp
  moreover have "count_rows (\<lambda>r. ?p r \<and> o_id r = k \<and> waiting (?f r)) (outbox d) = 0"
    by (simp add: count_rows_0_iff waiting_def)
  moreover have "(\<lambda>r. ?p r \<and> o_id r = k \<and> waiting r) = (if k = i then ?p else (\<lambda>_. False))"
    by (auto simp: deliverable_waiting)
  ultimately show ?thesis
    using one by (simp split: if_splits)
qed

lemma claimed_row_id: "claimed_row i owner d = Some r \<Longrightarrow> o_id r = i \<and> r \<in> set (outbox d)"
  by (auto simp: claimed_row_def outbound_by_id_def split: option.splits if_splits dest: find_row_SomeD)

lemma failed_raises_waiting:
  assumes "distinct (map o_id (outbox d))"
  shows "waiting_rows i (final (recordDeliveryFailure ob w err now) d) \<le> waiting_rows i d + (if i = o_id ob then 1 else 0)"
  by (rule waiting_rows_rises [where p = "holds_lease (o_id ob) w (o_leaseVersion ob)" and f = "failure_patch ob err now"])
     (simp_all add: recordDeliveryFailure_eq holds_lease_def [where i = "o_id ob"] lease_unique [OF assms, simplified])

lemma waiting_rows_update:
  assumes "\<And>r. o_id (f r) = o_id r" "\<And>r. \<not> waiting (f r)"
  shows "waiting_rows i (final (update_outbox p f) d) \<le> waiting_rows i d"
  by (rule waiting_rows_falls [OF _ assms]) simp

lemma budget_create:
  assumes "budget w"
  shows "budget (w\<lparr>w_db := final (insert_outbound r) (w_db w)\<rparr>)"
proof -
  let ?d = "w_db w"
  consider "final (insert_outbound r) ?d = ?d"
    | "final (insert_outbound r) ?d = ?d\<lparr>outbox := outbox ?d @ [r\<lparr>o_id := seq_outbox ?d\<rparr>], seq_outbox := Suc (seq_outbox ?d)\<rparr>"
    using insert_outbound_cases [of r ?d] by auto
  then show ?thesis
  proof cases
    case 1
    with assms show ?thesis by simp
  next
    case 2
    show ?thesis
      unfolding budget_def
    proof
      fix i
      have b: "acks_of i w + open_jobs i w + waiting_rows i ?d \<le> retries_of i w + (if i < seq_outbox ?d then 1 else 0)"
        using assms by (simp add: budget_def)
      have "waiting_rows i (final (insert_outbound r) ?d) \<le> waiting_rows i ?d + (if i = seq_outbox ?d then 1 else 0)"
        by (simp add: 2 waiting_rows_def)
      with b show "acks_of i (w\<lparr>w_db := final (insert_outbound r) ?d\<rparr>) + open_jobs i (w\<lparr>w_db := final (insert_outbound r) ?d\<rparr>) +
          waiting_rows i (w_db (w\<lparr>w_db := final (insert_outbound r) ?d\<rparr>)) \<le> retries_of i (w\<lparr>w_db := final (insert_outbound r) ?d\<rparr>) +
          (if i < seq_outbox (w_db (w\<lparr>w_db := final (insert_outbound r) ?d\<rparr>)) then 1 else 0)"
        by (auto simp: 2 acks_of_def open_jobs_def retries_of_def split: if_splits)
    qed
  qed
qed

lemma statement_seq [simp]:
  "seq_outbox (final (markStaleProcessingAmbiguous now z) d) = seq_outbox d"
  "seq_outbox (final (claim_outbound i owner now) d) = seq_outbox d"
  "seq_outbox (final (extendLease i owner v now) d) = seq_outbox d"
  "seq_outbox (final (rejectCanary ob owner) d) = seq_outbox d"
  "seq_outbox (final (markAmbiguousAfterSmtpAcceptance ob owner) d) = seq_outbox d"
  "seq_outbox (final (recordDeliveryFailure ob owner err now) d) = seq_outbox d"
  by (simp_all add: statement_defs)

lemma budget_same_jobs:
  assumes "budget w" "seq_outbox d = seq_outbox (w_db w)" "\<And>k. waiting_rows k d \<le> waiting_rows k (w_db w)"
  shows "budget (w\<lparr>w_db := d\<rparr>)"
  using assms(2,3) by (intro budget_step [OF assms(1)]) (simp_all add: acks_of_def open_jobs_def retries_of_def)

text \<open>A job that ends frees its share of the budget unless it was accepted.\<close>

lemma budget_settle:
  assumes "budget w" "w_jobs w = js1 @ j # js2" "seq_outbox d = seq_outbox (w_db w)"
    and "\<And>k. waiting_rows k d \<le> waiting_rows k (w_db w) + (if k = o_id (j_row j) \<and> \<not> j_accepted j then 1 else 0)"
  shows "budget (w\<lparr>w_db := d, w_jobs := js1 @ js2\<rparr>)"
proof (rule budget_step [OF assms(1)])
  show "seq_outbox (w_db w) \<le> seq_outbox (w_db (w\<lparr>w_db := d, w_jobs := js1 @ js2\<rparr>))"
    using assms(3) by simp
  fix k
  show "acks_of k (w\<lparr>w_db := d, w_jobs := js1 @ js2\<rparr>) + open_jobs k (w\<lparr>w_db := d, w_jobs := js1 @ js2\<rparr>) +
        waiting_rows k (w_db (w\<lparr>w_db := d, w_jobs := js1 @ js2\<rparr>)) + retries_of k w
      \<le> acks_of k w + open_jobs k w + waiting_rows k (w_db w) + retries_of k (w\<lparr>w_db := d, w_jobs := js1 @ js2\<rparr>)"
    using assms(2) assms(4) [of k] by (auto simp: acks_of_def open_jobs_def retries_of_def split: if_splits)
qed

lemma waiting_rows_heartbeat [simp]: "waiting_rows k (final (extendLease i owner v now) d) = waiting_rows k d"
  unfolding waiting_rows_def extendLease_def outbox_final_simps
  using waiting_update [of "\<lambda>r. r\<lparr>o_leaseExpiresAt := Some (now + OUTBOX_LEASE_MS)\<rparr>" k "holds_lease i owner v" "outbox d"]
  by (simp add: waiting_def)

lemma waiting_rows_release:
  "waiting_rows k (final (markStaleProcessingAmbiguous now z) d) \<le> waiting_rows k d"
  "waiting_rows k (final (claim_outbound i owner now) d) \<le> waiting_rows k d"
  "waiting_rows k (final (rejectCanary ob owner) d) \<le> waiting_rows k d"
  "waiting_rows k (final (markAmbiguousAfterSmtpAcceptance ob owner) d) \<le> waiting_rows k d"
  unfolding markStaleProcessingAmbiguous_def claim_outbound_def rejectCanary_def markAmbiguousAfterSmtpAcceptance_def
  by (rule waiting_rows_update; simp add: waiting_def)+

lemma step_keeps_budget:
  assumes "mail_step cfg w w'" "outbox_ids (w_db w)" "budget w"
  shows "budget w'"
  using assms(1)
proof cases
  case (create r)
  then show ?thesis using budget_create [OF assms(3)] by simp
next
  case (elsewhere d)
  then show ?thesis using budget_same_jobs [OF assms(3)] by (simp add: waiting_rows_def)
next
  case (expire now z)
  then show ?thesis
    using budget_same_jobs [OF assms(3) _ waiting_rows_release(1)] by simp
next
  case (claim i owner now d r)
  note low = claim_lowers_waiting [OF claim(2)]
  show ?thesis
  proof (rule budget_step [OF assms(3)])
    show "seq_outbox (w_db w) \<le> seq_outbox (w_db w')"
      using claim by (auto simp: claim_outbound_def update_outbox_def)
    fix k
    show "acks_of k w' + open_jobs k w' + waiting_rows k (w_db w') + retries_of k w \<le>
        acks_of k w + open_jobs k w + waiting_rows k (w_db w) + retries_of k w'"
      using claim low [of k] claimed_row_id [of i owner d r]
      by (auto simp: open_jobs_def acks_of_def retries_of_def split: if_splits)
  qed
next
  case (claim_die i owner now)
  then show ?thesis
    using budget_same_jobs [OF assms(3) _ waiting_rows_release(2)] by simp
next
  case (heartbeat i owner v now)
  then show ?thesis
    using budget_same_jobs [OF assms(3), of "final (extendLease i owner v now) (w_db w)"]
    by simp
next
  case (die js1 j js2)
  then show ?thesis
    using budget_settle [OF assms(3) die(2), of "w_db w"] by simp
next
  case (reject js1 j js2)
  show ?thesis
    unfolding reject(1)
    by (intro budget_settle [OF assms(3) reject(2)]) (simp_all add: waiting_rows_release trans_le_add1)
next
  case (accept js1 j js2)
  then show ?thesis
    by (intro budget_step [OF assms(3)]) (auto simp: acks_of_def retries_of_def open_jobs_def)
next
  case (failed js1 j js2 err now)
  have "distinct (map o_id (outbox (w_db w)))"
    using assms(2) by (simp add: outbox_ids_def)
  from failed_raises_waiting [OF this] show ?thesis
    unfolding failed(1) using failed(3)
    by (intro budget_settle [OF assms(3) failed(2)]) simp_all
next
  case (sent js1 j js2 response mid now)
  let ?d = "final (markSent (j_row j) (j_owner j) response mid now) (w_db w)"
  have s: "outbox ?d = update_rows (holds_lease (o_id (j_row j)) (j_owner j) (o_leaseVersion (j_row j))) (sent_patch response mid now) (outbox (w_db w))"
    "seq_outbox ?d = seq_outbox (w_db w)"
    using markSent_outbox assms(2) by (auto simp: outbox_ids_def)
  have "waiting_rows k ?d \<le> waiting_rows k (w_db w)" for k
    by (rule waiting_rows_falls [OF s(1)]) (simp_all add: waiting_def)
  then show ?thesis
    unfolding sent(1) by (intro budget_settle [OF assms(3) sent(2)]) (simp_all add: s(2) trans_le_add1)
next
  case (unsure js1 j js2)
  show ?thesis
    unfolding unsure(1)
    by (intro budget_settle [OF assms(3) unsure(2)]) (simp_all add: waiting_rows_release trans_le_add1)
next
  case (operator actor i r d)
  obtain p where p: "outbox d = update_rows p (released Queued None) (outbox (w_db w))" "seq_outbox d = seq_outbox (w_db w)"
    "count_rows p (outbox (w_db w)) = 1" "\<forall>r. p r \<longrightarrow> o_id r = i \<and> o_state r \<in> {Failed, Ambiguous, Retry}"
    using retryOutboundEmail_outbox operator by blast
  have rise: "waiting_rows k d \<le> waiting_rows k (w_db w) + (if k = i then 1 else 0)" for k
    by (rule waiting_rows_rises [OF p(1)]) (use p in auto)
  show ?thesis
  proof (rule budget_step [OF assms(3)])
    show "seq_outbox (w_db w) \<le> seq_outbox (w_db w')" using operator p(2) by simp
    fix k
    show "acks_of k w' + open_jobs k w' + waiting_rows k (w_db w') + retries_of k w \<le>
        acks_of k w + open_jobs k w + waiting_rows k (w_db w) + retries_of k w'"
      using rise [of k] operator by (auto simp: acks_of_def open_jobs_def retries_of_def split: if_splits)
  qed
qed

text \<open>Statements that rewrite rows, for the two row-wise invariants: what becomes of a row.\<close>

lemma set_update_cases:
  "r' \<in> set (update_rows p f rows) \<Longrightarrow> (\<exists>r \<in> set rows. \<not> p r \<and> r' = r) \<or> (\<exists>r \<in> set rows. p r \<and> r' = f r)"
  by (auto simp: set_update_rows)

lemma sent_backed_update:
  assumes "sent_backed w" "outbox d = update_rows p f (outbox (w_db w))"
    and "\<And>r. p r \<Longrightarrow> r \<in> set (outbox (w_db w)) \<Longrightarrow> o_state (f r) = Sent \<Longrightarrow> (o_id (f r), o_leaseVersion (f r)) \<in> set (w_acks w)"
    and "set js \<subseteq> set (w_jobs w)"
  shows "sent_backed (w\<lparr>w_db := d, w_jobs := js\<rparr>)"
  using assms unfolding sent_backed_def by (auto simp: set_update_rows)

lemma sent_backed_update_db:
  assumes "sent_backed w" "outbox d = update_rows p f (outbox (w_db w))" "\<And>r. p r \<Longrightarrow> o_state (f r) \<noteq> Sent"
  shows "sent_backed (w\<lparr>w_db := d\<rparr>)"
  using sent_backed_update [OF assms(1,2), of "w_jobs w"] assms(3) by simp

lemmas sent_backed_stmt = sent_backed_update_db [OF _ outbox_final_simps(1)]
lemmas sent_backed_job = sent_backed_update [OF _ outbox_final_simps(1)]

lemma failure_not_sent [simp]: "failure_state c \<noteq> Sent" "failure_state c \<noteq> Queued"
  by (cases c; simp)+

lemma step_keeps_sent_backed:
  assumes "mail_step cfg w w'" "outbox_ids (w_db w)" "sent_backed w"
  shows "sent_backed w'"
  using assms(1)
proof cases
  case (create r)
  then show ?thesis
    using insert_outbound_cases [of r "w_db w"] assms(3) by (auto simp: sent_backed_def fresh_command_def)
next
  case (elsewhere d)
  then show ?thesis using assms(3) by (simp add: sent_backed_def)
next
  case (expire now z)
  then show ?thesis
    unfolding expire markStaleProcessingAmbiguous_def
    by (intro sent_backed_stmt [OF assms(3)]) auto
next
  case (claim i owner now d r)
  have d: "d = final (claim_outbound i owner now) (w_db w)"
    using claim claim_outbound_outbox by blast
  have "sent_backed (w\<lparr>w_db := d\<rparr>)"
    unfolding d claim_outbound_def by (intro sent_backed_stmt [OF assms(3)]) auto
  then show ?thesis using claim by (auto simp: sent_backed_def)
next
  case (claim_die i owner now)
  then show ?thesis
    unfolding claim_die claim_outbound_def by (intro sent_backed_stmt [OF assms(3)]) auto
next
  case (heartbeat i owner v now)
  then show ?thesis
    unfolding heartbeat extendLease_def
    by (intro sent_backed_stmt [OF assms(3)]) (auto simp: holds_lease_def)
next
  case (die js1 j js2)
  then show ?thesis using assms(3) by (simp add: sent_backed_def)
next
  case (reject js1 j js2)
  then show ?thesis
    unfolding reject(1) rejectCanary_def by (intro sent_backed_job [OF assms(3)]) auto
next
  case (accept js1 j js2)
  then show ?thesis using assms(3) by (auto simp: sent_backed_def)
next
  case (failed js1 j js2 err now)
  then show ?thesis
    unfolding failed(1) recordDeliveryFailure_eq by (intro sent_backed_job [OF assms(3)]) auto
next
  case (sent js1 j js2 response mid now)
  have s: "outbox (final (markSent (j_row j) (j_owner j) response mid now) (w_db w)) =
      update_rows (holds_lease (o_id (j_row j)) (j_owner j) (o_leaseVersion (j_row j))) (sent_patch response mid now) (outbox (w_db w))"
    using markSent_outbox assms(2) by (auto simp: outbox_ids_def)
  have "(o_id (j_row j), o_leaseVersion (j_row j)) \<in> set (w_acks w)"
    using sent assms(3) by (auto simp: sent_backed_def)
  then show ?thesis
    unfolding sent(1)
    by (intro sent_backed_update [OF assms(3) s]) (use sent in \<open>auto simp: holds_lease_def\<close>)
next
  case (unsure js1 j js2)
  then show ?thesis
    unfolding unsure(1) markAmbiguousAfterSmtpAcceptance_def by (intro sent_backed_job [OF assms(3)]) auto
next
  case (operator actor i r d)
  then obtain p where "outbox d = update_rows p (released Queued None) (outbox (w_db w))"
    using retryOutboundEmail_outbox by blast
  then have "sent_backed (w\<lparr>w_db := d\<rparr>)"
    by (rule sent_backed_update_db [OF assms(3)]) simp
  then show ?thesis using operator by (simp add: sent_backed_def)
qed

lemma tries_update:
  assumes "tries_bounded w" "outbox d = update_rows p f (outbox (w_db w))" "set js \<subseteq> set (w_jobs w)"
    and "\<And>r. p r \<Longrightarrow> o_id (f r) = o_id r"
    and "\<And>r k. p r \<Longrightarrow> r \<in> set (outbox (w_db w)) \<Longrightarrow> tries_bound k r \<Longrightarrow> tries_bound k (f r)"
  shows "tries_bounded (w\<lparr>w_db := d, w_jobs := js\<rparr>)"
  using assms unfolding tries_bounded_def by (auto simp: set_update_rows retries_of_def)

lemma tries_update_db:
  assumes "tries_bounded w" "outbox d = update_rows p f (outbox (w_db w))"
    and "\<And>r. p r \<Longrightarrow> o_id (f r) = o_id r" "\<And>r k. p r \<Longrightarrow> tries_bound k r \<Longrightarrow> tries_bound k (f r)"
  shows "tries_bounded (w\<lparr>w_db := d\<rparr>)"
  using tries_update [OF assms(1,2), of "w_jobs w"] assms(3,4) by simp

lemma tries_bound_released: "tries_bound k r \<Longrightarrow> st \<in> {Failed, Ambiguous, Sent} \<Longrightarrow> tries_bound k (released st e r)"
  by (auto simp: tries_bound_def released_def split: outbound_state.splits)

lemma tries_bound_mono: "tries_bound k r \<Longrightarrow> k \<le> k' \<Longrightarrow> tries_bound k' r"
  by (auto simp: tries_bound_def split: outbound_state.splits)

lemma tries_bound_any: "tries_bound k r \<Longrightarrow> o_attempts r \<le> 5 + k"
  by (auto simp: tries_bound_def split: outbound_state.splits)

lemma classify_retry_attempts: "failure_state (fst (classifyFailure now err n)) = Retry \<Longrightarrow> n \<le> 4"
  by (cases "fst (classifyFailure now err n)")
     (auto simp: classifyFailure_def Let_def OUTBOX_MAX_ATTEMPTS_def split: option.splits if_splits)

lemma tries_bound_failure:
  assumes "tries_bound k r" "o_attempts ob = o_leaseVersion ob" "o_leaseVersion r = o_leaseVersion ob"
  shows "tries_bound k (failure_patch ob err now r)"
proof -
  have "o_attempts r = o_attempts ob" "o_attempts r \<le> 5 + k"
    using assms tries_bound_any [OF assms(1)] by (auto simp: tries_bound_def)
  moreover have "o_attempts r = o_leaseVersion r"
    using assms by (simp add: tries_bound_def)
  ultimately show ?thesis
    using classify_retry_attempts [of now err "o_attempts ob"]
    by (cases "fst (classifyFailure now err (o_attempts ob))") (auto simp: tries_bound_def)
qed

lemmas tries_stmt = tries_update_db [OF _ outbox_final_simps(1)]
lemmas tries_job = tries_update [OF _ outbox_final_simps(1)]

lemma tries_bound_claim:
  "tries_bound k r \<Longrightarrow> waiting r \<Longrightarrow>
   tries_bound k (r\<lparr>o_state := Processing, o_attempts := Suc (o_attempts r), o_leaseOwner := w,
     o_leaseExpiresAt := t, o_leaseVersion := Suc (o_leaseVersion r)\<rparr>)"
  by (auto simp: tries_bound_def waiting_def)

lemma tries_bound_lease: "tries_bound k (r\<lparr>o_leaseExpiresAt := t\<rparr>) = tries_bound k r"
  by (cases "o_state r") (simp_all add: tries_bound_def)

lemma tries_bound_sent: "tries_bound k r \<Longrightarrow> tries_bound k (sent_patch x y now r)"
  using tries_bound_any [of k r] by (simp add: tries_bound_def)

lemma tries_claim:
  assumes "tries_bounded w"
  shows "tries_bounded (w\<lparr>w_db := final (claim_outbound i owner now) (w_db w)\<rparr>)"
  unfolding claim_outbound_def
  by (intro tries_stmt [OF assms]) (auto intro: tries_bound_claim deliverable_waiting)

lemma step_keeps_tries:
  assumes "mail_step cfg w w'" "outbox_ids (w_db w)" "tries_bounded w"
  shows "tries_bounded w'"
  using assms(1)
proof cases
  case (create r)
  then show ?thesis
    using insert_outbound_cases [of r "w_db w"] assms(3)
    by (auto simp: tries_bounded_def fresh_command_def tries_bound_def retries_of_def)
next
  case (elsewhere d)
  then show ?thesis using assms(3) by (simp add: tries_bounded_def retries_of_def)
next
  case (expire now z)
  show ?thesis
    unfolding expire markStaleProcessingAmbiguous_def
    by (intro tries_stmt [OF assms(3)]) (auto simp: tries_bound_def stale_lease_def)
next
  case (claim i owner now d r)
  have d: "d = final (claim_outbound i owner now) (w_db w)"
    using claim claim_outbound_outbox by blast
  have t: "tries_bounded (w\<lparr>w_db := d\<rparr>)"
    unfolding d by (rule tries_claim [OF assms(3)])
  moreover have "o_attempts r = o_leaseVersion r"
    using t claimed_row_id [of i owner d r] claim by (auto simp: tries_bounded_def tries_bound_def)
  ultimately show ?thesis using claim by (auto simp: tries_bounded_def retries_of_def)
next
  case (claim_die i owner now)
  then show ?thesis using tries_claim [OF assms(3)] by simp
next
  case (heartbeat i owner v now)
  show ?thesis
    unfolding heartbeat extendLease_def by (intro tries_stmt [OF assms(3)]) (auto simp: tries_bound_lease)
next
  case (die js1 j js2)
  then show ?thesis using assms(3) by (simp add: tries_bounded_def retries_of_def)
next
  case (reject js1 j js2)
  then show ?thesis
    unfolding reject(1) rejectCanary_def by (intro tries_job [OF assms(3)]) (auto intro: tries_bound_released)
next
  case (accept js1 j js2)
  then show ?thesis using assms(3) by (auto simp: tries_bounded_def retries_of_def)
next
  case (failed js1 j js2 err now)
  then have "o_attempts (j_row j) = o_leaseVersion (j_row j)"
    using assms(3) by (simp add: tries_bounded_def)
  with failed show ?thesis
    unfolding failed(1) recordDeliveryFailure_eq
    by (intro tries_job [OF assms(3)]) (auto intro: tries_bound_failure simp: holds_lease_def)
next
  case (sent js1 j js2 response mid now)
  have s: "outbox (final (markSent (j_row j) (j_owner j) response mid now) (w_db w)) =
      update_rows (holds_lease (o_id (j_row j)) (j_owner j) (o_leaseVersion (j_row j))) (sent_patch response mid now) (outbox (w_db w))"
    using markSent_outbox assms(2) by (auto simp: outbox_ids_def)
  show ?thesis
    unfolding sent(1) by (intro tries_update [OF assms(3) s]) (use sent in \<open>auto intro: tries_bound_sent\<close>)
next
  case (unsure js1 j js2)
  then show ?thesis
    unfolding unsure(1) markAmbiguousAfterSmtpAcceptance_def
    by (intro tries_job [OF assms(3)]) (auto intro: tries_bound_released)
next
  case (operator actor i r d)
  then obtain p where p: "outbox d = update_rows p (released Queued None) (outbox (w_db w))"
      "\<forall>r. p r \<longrightarrow> o_id r = i \<and> o_state r \<in> {Failed, Ambiguous, Retry}"
    using retryOutboundEmail_outbox by blast
  have "tries_bound (retries_of (o_id x) w') x" if "x \<in> set (outbox d)" for x
  proof -
    have old: "tries_bound (retries_of (o_id y) w) y" if "y \<in> set (outbox (w_db w))" for y
      using assms(3) that by (simp add: tries_bounded_def)
    have r: "retries_of k w' = retries_of k w + (if k = i then 1 else 0)" for k
      using operator by (simp add: retries_of_def)
    from set_update_cases [OF that [unfolded p(1)]] show ?thesis
    proof (elim disjE bexE conjE)
      fix y assume "y \<in> set (outbox (w_db w))" "x = y"
      then show ?thesis using tries_bound_mono [OF old] r by simp
    next
      fix y assume "y \<in> set (outbox (w_db w))" "p y" "x = released Queued None y"
      then show ?thesis using tries_bound_any [OF old] old [of y] r p(2) by (fastforce simp: tries_bound_def)
    qed
  qed
  then show ?thesis using operator assms(3) by (auto simp: tries_bounded_def)
qed

section \<open>Properties\<close>

lemma run_invariants:
  "mail_run cfg w \<Longrightarrow> outbox_ids (w_db w) \<and> budget w \<and> sent_backed w \<and> tries_bounded w"
proof (induction rule: mail_run.induct)
  case (start w)
  then show ?case
    by (simp add: mail_init_def outbox_ids_def budget_def sent_backed_def tries_bounded_def acks_of_def
        open_jobs_def waiting_rows_def)
next
  case (more w w')
  then show ?case
    using step_keeps_ids step_keeps_budget step_keeps_sent_backed step_keeps_tries by blast
qed


text \<open>
  C18: A row never claims a delivery that did not happen: in every reachable state, a row marked
  \<open>SENT\<close> was accepted by the mail server under exactly the claim the row records, also when an
  older worker finished late.
\<close>

theorem sent_means_accepted:
  assumes "mail_run cfg w" "r \<in> set (outbox (w_db w))" "o_state r = Sent"
  shows "(o_id r, o_leaseVersion r) \<in> set (w_acks w)"
  using run_invariants [OF assms(1)] assms(2,3) by (simp add: sent_backed_def)

text \<open>
  C19: The number of delivery attempts of a row is bounded: five, plus one for every operator retry
  of that row. No interleaving of failures and crashes makes the workers loop on a row.
\<close>

theorem attempts_bounded:
  assumes "mail_run cfg w" "r \<in> set (outbox (w_db w))"
  shows "o_attempts r \<le> 5 + retries_of (o_id r) w"
  using run_invariants [OF assms(1)] assms(2) tries_bound_any by (auto simp: tries_bounded_def)

text \<open>A run of one delivery, for the witnesses.\<close>

definition sample_config :: mail_config where
  "sample_config = \<lparr>mc_enabled = True, mc_canaryEmailId = None, mc_canaryRecipient = None, mc_from = ''hd@example.org'', mc_storage = None\<rparr>"

definition sample_command :: outbound where
  "sample_command = (new_outbound sample_config ''<1@23telecom.local>'' 0 AutoCloseMail)\<lparr>o_recipients := [(''ann@example.org'', TO)]\<rparr>"

definition sample_claimed :: outbound where
  "sample_claimed = sample_command\<lparr>o_state := Processing, o_attempts := 1, o_leaseOwner := Some ''w'',
     o_leaseExpiresAt := Some 300000, o_leaseVersion := 1\<rparr>"

definition sample_world :: "outbound \<Rightarrow> (nat \<times> nat) list \<Rightarrow> world" where
  "sample_world r as = \<lparr>w_db = empty_db\<lparr>outbox := [r], seq_outbox := 1\<rparr>, w_jobs = [], w_acks = as, w_retries = []\<rparr>"

definition sample_sent :: outbound where
  "sample_sent = sent_patch None None 5 sample_claimed"

lemma sample_run: "mail_run sample_config (sample_world sample_sent [(0, 1)])"
proof -
  let ?w0 = "\<lparr>w_db = empty_db, w_jobs = [], w_acks = [], w_retries = []\<rparr>"
  let ?w1 = "?w0\<lparr>w_db := final (insert_outbound sample_command) empty_db\<rparr>"
  let ?j = "\<lparr>j_row = sample_claimed, j_owner = ''w'', j_accepted = False\<rparr>"
  let ?w2 = "\<lparr>w_db = empty_db\<lparr>outbox := [sample_claimed], seq_outbox := 1\<rparr>, w_jobs = [?j], w_acks = [], w_retries = []\<rparr>"
  let ?w3 = "?w2\<lparr>w_jobs := [?j\<lparr>j_accepted := True\<rparr>], w_acks := [(0, 1)]\<rparr>"
  note defs = sample_command_def sample_claimed_def sample_config_def new_outbound_def empty_db_def
  have "mail_run sample_config ?w0"
    by (rule mail_run.start) (simp add: mail_init_def empty_db_def)
  moreover have "mail_step sample_config ?w0 ?w1"
    using mail_step.create [of sample_command sample_config ?w0] by (simp add: fresh_command_def defs)
  ultimately have 1: "mail_run sample_config ?w1" by (rule mail_run.more)
  have "w_db ?w1 = empty_db\<lparr>outbox := [sample_command], seq_outbox := 1\<rparr>"
    by (simp add: insert_outbound_def final_def defs clash_def opt_in_def)
  moreover have "claim_outbound 0 ''w'' 0 (empty_db\<lparr>outbox := [sample_command], seq_outbox := 1\<rparr>) =
      (Inr 1, empty_db\<lparr>outbox := [sample_claimed], seq_outbox := 1\<rparr>)"
    by (simp add: claim_outbound_def update_outbox_def deliverable_def defs OUTBOX_LEASE_MS_def)
  moreover have "claimed_row 0 ''w'' (empty_db\<lparr>outbox := [sample_claimed], seq_outbox := 1\<rparr>) = Some sample_claimed"
    by (simp add: claimed_row_def outbound_by_id_def defs)
  ultimately have "mail_step sample_config ?w1 ?w2"
    using mail_step.claim [of 0 "''w''" 0 ?w1 "empty_db\<lparr>outbox := [sample_claimed], seq_outbox := 1\<rparr>" sample_claimed sample_config] by simp
  with 1 have 2: "mail_run sample_config ?w2" by (rule mail_run.more)
  have "mail_step sample_config ?w2 ?w3"
    using mail_step.accept [of ?w2 "[]" ?j "[]" sample_config] by (simp add: defs)
  with 2 have 3: "mail_run sample_config ?w3" by (rule mail_run.more)
  have "final (markSent sample_claimed ''w'' None None 5) (w_db ?w3) = empty_db\<lparr>outbox := [sample_sent], seq_outbox := 1\<rparr>"
    by (simp add: markSent_def act_defs final_def update_outbox_def holds_lease_def sample_sent_def sent_patch_def defs Let_def)
  then have "mail_step sample_config ?w3 (sample_world sample_sent [(0, 1)])"
    using mail_step.sent [of ?w3 "[]" "?j\<lparr>j_accepted := True\<rparr>" "[]" sample_config None None 5]
    by (simp add: sample_world_def)
  with 3 show ?thesis by (rule mail_run.more)
qed


theorem sent_means_accepted_witness:
  "(o_id sample_sent, o_leaseVersion sample_sent) \<in> set (w_acks (sample_world sample_sent [(0, 1)]))"
  by (rule sent_means_accepted [OF sample_run]) (simp_all add: sample_world_def sample_sent_def)

theorem attempts_bounded_witness:
  "o_attempts sample_sent \<le> 5 + retries_of (o_id sample_sent) (sample_world sample_sent [(0, 1)])"
  by (rule attempts_bounded [OF sample_run]) (simp add: sample_world_def)

end
