(* ===== verification/Notifications.thy ===== *)
theory Notifications
  imports Outbox
begin

text \<open>
  Staff notifications (\<open>tickets/notification.service.ts\<close>): alerts for an assignment and for a
  customer's reply, written to the outbox inside the transaction of the event they report. The
  record \<open>env\<close> gathers what a handler takes from outside: the host, the mail configuration, the
  clock, and the generator of identifiers (the identifier of the next outbox row).
\<close>

record env =
  en_host :: host
  en_mail :: mail_config
  en_uuid :: "nat \<Rightarrow> string"
  en_now :: time

definition notify :: "env \<Rightarrow> notification_input \<Rightarrow> nat act_db" where
  "notify env input =
     bnd (reads seq_outbox) (\<lambda>n. createInternalNotificationEmail (en_mail env) (en_uuid env n) (en_now env) input)"

definition or_string :: "string \<Rightarrow> string \<Rightarrow> string" where
  "or_string a b = (if a \<noteq> '''' then a else b)"

definition staff_display :: "staff \<Rightarrow> string" where
  "staff_display s = or_string (trim (s_firstName s @ '' '' @ s_lastName s)) (s_email s)"

definition in_scope :: "db \<Rightarrow> staff \<Rightarrow> nat \<Rightarrow> bool" where
  "in_scope d s departmentId \<longleftrightarrow> staff_is_admin d s \<or> is_member d departmentId (s_id s)"

definition staff_alert :: "ticket \<Rightarrow> staff \<Rightarrow> string \<Rightarrow> string \<Rightarrow> notification_input" where
  "staff_alert ticket s templateKey key =
     \<lparr>ni_ticketId = t_id ticket, ni_templateKey = templateKey, ni_locale = ''en'', ni_to = s_email s,
      ni_vars = [(''mask'', t_mask ticket), (''subject'', t_subject ticket), (''name'', staff_display s),
                 (''staffName'', staff_display s)],
      ni_idempotencyKey = key, ni_slaEventId = None\<rparr>"

definition queueAssignmentNotification :: "env \<Rightarrow> ticket \<Rightarrow> nat \<Rightarrow> string \<Rightarrow> nat option act_db" where
  "queueAssignmentNotification env ticket staffId sourceKey =
     bnd (reads (\<lambda>d. (staff_by_id staffId d, d))) (\<lambda>(staff, d).
       case staff of
         None \<Rightarrow> ret None
       | Some s \<Rightarrow>
           if \<not> s_isEnabled s \<or> s_email s = '''' then ret None
           else if \<not> in_scope d s (t_departmentId ticket) then ret None
           else bnd (notify env (staff_alert ticket s ''notify_staff_assigned''
                       (''internal:assignment:'' @ sourceKey @ '':staff:'' @ nat_str (s_id s))))
                  (\<lambda>i. ret (Some i)))"

definition eligible_watchers :: "ticket \<Rightarrow> db \<Rightarrow> staff list" where
  "eligible_watchers ticket d =
     filter (\<lambda>s. s_isEnabled s \<and> in_scope d s (t_departmentId ticket))
       (List.map_filter (\<lambda>(tid, sid). if tid = t_id ticket then staff_by_id sid d else None)
         (sort_key snd (watchers d)))"

definition watcher_key :: "nat \<Rightarrow> staff \<Rightarrow> string" where
  "watcher_key postId s = ''internal:watcher-reply:post:'' @ nat_str postId @ '':staff:'' @ nat_str (s_id s)"

definition queueWatcherNotificationsForUserReply :: "env \<Rightarrow> ticket \<Rightarrow> nat \<Rightarrow> nat list act_db" where
  "queueWatcherNotificationsForUserReply env ticket postId =
     sq (require (postId > 0) (Failure ''Watcher notification source post id is invalid''))
       (bnd (reads (eligible_watchers ticket)) (\<lambda>ws.
          each (\<lambda>s. notify env (staff_alert ticket s ''notify_staff_user_replied'' (watcher_key postId s)))
            (filter (\<lambda>s. s_email s \<noteq> '''') ws)))"

section \<open>Facts\<close>

text \<open>What a notification command leaves behind: one row under its key, for its recipient.\<close>

definition notified :: "notification_input \<Rightarrow> nat \<Rightarrow> db \<Rightarrow> bool" where
  "notified input i d \<longleftrightarrow>
     (\<exists>r \<in> set (outbox d). o_id r = i \<and> o_idempotencyKey r = Some (ni_idempotencyKey input) \<and>
        o_ticketId r = Some (ni_ticketId input) \<and> o_kind r = InternalNotification \<and>
        o_slaEventId r = ni_slaEventId input \<and> one_recipient (o_recipients r) (normalizeEmail (ni_to input)))"

lemma identity_result:
  "assertInternalNotificationIdentity r input to d = (x, d') \<Longrightarrow>
   d' = d \<and> (x = Inr () \<longleftrightarrow> o_ticketId r = Some (ni_ticketId input) \<and> o_kind r = InternalNotification \<and>
     o_slaEventId r = ni_slaEventId input \<and> one_recipient (o_recipients r) to)"
  by (auto simp: assertInternalNotificationIdentity_def act_defs split: if_splits)

lemma outbound_by_key_Some: "outbound_by_key key d = Some r \<Longrightarrow> r \<in> set (outbox d) \<and> o_idempotencyKey r = Some key"
  by (auto simp: outbound_by_key_def dest: find_row_SomeD)

lemma renderTemplateRequired_state: "renderTemplateRequired key loc vs d = (x, d') \<Longrightarrow> d' = d"
  by (auto simp: renderTemplateRequired_def assertRequiredTemplateContent_def act_defs split: option.splits if_splits)

lemma insert_outbound_Inr:
  "insert_outbound r d = (Inr i, d') \<Longrightarrow>
   i = seq_outbox d \<and> d' = d\<lparr>outbox := outbox d @ [r\<lparr>o_id := seq_outbox d\<rparr>], seq_outbox := Suc (seq_outbox d)\<rparr>"
  by (auto simp: insert_outbound_def split: if_splits)

lemma insert_outbound_Inl: "insert_outbound r d = (Inl e, d') \<Longrightarrow> d' = d"
  by (auto simp: insert_outbound_def split: if_splits)

lemma upsert_outbound_Inr:
  assumes "upsert_outbound key r d = (Inr c, d')" "outbound_by_key key d = None"
  shows "c = r\<lparr>o_id := seq_outbox d\<rparr> \<and> d' = d\<lparr>outbox := outbox d @ [c], seq_outbox := Suc (seq_outbox d)\<rparr>"
  using assms by (auto simp: upsert_outbound_def act_defs split: prod.splits sum.splits dest: insert_outbound_Inr)

text \<open>The guards of \<open>createInternalNotificationEmail\<close>, in the order of the code.\<close>

definition notification_ok :: "notification_input \<Rightarrow> bool" where
  "notification_ok input \<longleftrightarrow> ni_ticketId input > 0 \<and> normalizeEmail (ni_to input) \<noteq> '''' \<and>
     trim (ni_templateKey input) \<noteq> '''' \<and> ni_idempotencyKey input \<noteq> '''' \<and> length (ni_idempotencyKey input) \<le> 255"

lemma createInternal_found:
  assumes "outbound_by_key (ni_idempotencyKey input) d = Some r"
  shows "createInternalNotificationEmail cfg uuid now input d = (Inr i, d') \<longleftrightarrow>
    notification_ok input \<and> d' = d \<and> i = o_id r \<and> o_ticketId r = Some (ni_ticketId input) \<and> o_kind r = InternalNotification \<and>
     o_slaEventId r = ni_slaEventId input \<and> one_recipient (o_recipients r) (normalizeEmail (ni_to input))"
  using assms
  by (auto simp: createInternalNotificationEmail_def notification_ok_def Let_def act_defs
      assertInternalNotificationIdentity_def split: if_splits)

lemma createInternal_new:
  assumes "outbound_by_key (ni_idempotencyKey input) d = None"
    "createInternalNotificationEmail cfg uuid now input d = (Inr i, d')"
  shows "notification_ok input \<and> (\<exists>r. i = seq_outbox d \<and> o_id r = i \<and> o_idempotencyKey r = Some (ni_idempotencyKey input) \<and>
    d' = d\<lparr>outbox := outbox d @ [r], seq_outbox := Suc (seq_outbox d)\<rparr> \<and>
    o_ticketId r = Some (ni_ticketId input) \<and> o_kind r = InternalNotification \<and>
    o_slaEventId r = ni_slaEventId input \<and> one_recipient (o_recipients r) (normalizeEmail (ni_to input)))"
proof -
  let ?key = "ni_idempotencyKey input"
  let ?row = "\<lambda>rendered. (new_outbound cfg (createOutboundMessageId uuid) now InternalNotification)
        \<lparr>o_ticketId := Some (ni_ticketId input), o_idempotencyKey := Some ?key,
         o_slaEventId := ni_slaEventId input, o_subject := r_subject rendered, o_htmlBody := r_html rendered,
         o_textBody := r_text rendered, o_recipients := [(normalizeEmail (ni_to input), TO)]\<rparr>"
  have ok: "notification_ok input"
    using assms(2) by (auto simp: createInternalNotificationEmail_def notification_ok_def Let_def act_defs split: if_splits)
  then obtain rendered d1 c d2 where
    "renderTemplateRequired (ni_templateKey input) (ni_locale input) (ni_vars input) d = (Inr rendered, d1)"
    "upsert_outbound ?key (?row rendered) d1 = (Inr c, d2)"
    "assertInternalNotificationIdentity c input (normalizeEmail (ni_to input)) d2 = (Inr (), d')" "i = o_id c"
    using assms by (auto simp: createInternalNotificationEmail_def notification_ok_def Let_def act_defs split: prod.splits sum.splits)
  moreover from this(1) have "d1 = d" by (rule renderTemplateRequired_state)
  ultimately have u: "upsert_outbound ?key (?row rendered) d = (Inr c, d2)"
    and a: "assertInternalNotificationIdentity c input (normalizeEmail (ni_to input)) d2 = (Inr (), d')" "i = o_id c"
    by simp_all
  from upsert_outbound_Inr [OF u assms(1)] have "o_idempotencyKey c = Some ?key" "o_id c = seq_outbox d"
    "d2 = d\<lparr>outbox := outbox d @ [c], seq_outbox := Suc (seq_outbox d)\<rparr>"
    by simp_all
  with ok identity_result [OF a(1)] a(2) show ?thesis by auto
qed

lemma createInternal_notified:
  "createInternalNotificationEmail cfg uuid now input d = (Inr i, d') \<Longrightarrow> notified input i d'"
proof (cases "outbound_by_key (ni_idempotencyKey input) d")
  case None
  moreover assume "createInternalNotificationEmail cfg uuid now input d = (Inr i, d')"
  ultimately show ?thesis using createInternal_new [OF None] by (fastforce simp: notified_def)
next
  case (Some r)
  moreover assume "createInternalNotificationEmail cfg uuid now input d = (Inr i, d')"
  ultimately show ?thesis
    using createInternal_found [OF Some] outbound_by_key_Some [OF Some] by (auto simp: notified_def)
qed

text \<open>
  A notification command is idempotent. Once it succeeded, repeating it for the same business
  event, at any later time and with any fresh message id, returns the same row and changes nothing;
  the row is addressed to the recipient of the event.
\<close>

theorem notification_idempotent:
  assumes "createInternalNotificationEmail cfg uuid now input d = (Inr i, d')"
  shows "createInternalNotificationEmail cfg uuid' now' input d' = (Inr i, d') \<and> notified input i d'"
proof
  show "createInternalNotificationEmail cfg uuid' now' input d' = (Inr i, d')"
  proof (cases "outbound_by_key (ni_idempotencyKey input) d")
    case None
    from createInternal_new [OF None assms] obtain r where r: "notification_ok input" "i = seq_outbox d" "o_id r = i"
      "o_idempotencyKey r = Some (ni_idempotencyKey input)" "d' = d\<lparr>outbox := outbox d @ [r], seq_outbox := Suc (seq_outbox d)\<rparr>"
      "o_ticketId r = Some (ni_ticketId input)" "o_kind r = InternalNotification"
      "o_slaEventId r = ni_slaEventId input" "one_recipient (o_recipients r) (normalizeEmail (ni_to input))"
      by blast
    have "outbound_by_key (ni_idempotencyKey input) d' = Some r"
      using None r by (simp add: outbound_by_key_def find_row_append)
    then show ?thesis using r by (simp add: createInternal_found)
  next
    case (Some r)
    then show ?thesis using assms createInternal_found [OF Some] by auto
  qed
  show "notified input i d'"
    by (rule createInternal_notified [OF assms])
qed

definition notify_template :: email_template where
  "notify_template = \<lparr>tp_key = ''notify_staff_assigned'', tp_locale = ''en'', tp_subject = ''S'', tp_html = ''H'', tp_text = ''T''\<rparr>"

definition sample_alert :: notification_input where
  "sample_alert = \<lparr>ni_ticketId = 1, ni_templateKey = ''notify_staff_assigned'', ni_locale = ''en'', ni_to = ''a@b.c'',
     ni_vars = [], ni_idempotencyKey = ''k'', ni_slaEventId = None\<rparr>"

definition plain_config :: mail_config where
  "plain_config = \<lparr>mc_enabled = True, mc_canaryEmailId = None, mc_canaryRecipient = None, mc_from = '''', mc_storage = None\<rparr>"

definition notify_db :: db where
  "notify_db = empty_db\<lparr>tickets := [sample_ticket 1 10], templates := [notify_template]\<rparr>"

lemma render_plain: "c \<noteq> CHR ''{'' \<Longrightarrow> replace_placeholders vs [c] = [c]"
  by (simp add: replace_placeholders.simps [of vs "[c]"] placeholder_no_brace replace_placeholders.simps [of vs "[]"])

lemma notify_template_renders:
  "renderTemplateRequired ''notify_staff_assigned'' ''en'' vs notify_db =
     (Inr \<lparr>r_subject = ''S'', r_html = ''H'', r_text = ''T''\<rparr>, notify_db)"
  by (simp add: renderTemplateRequired_def template_with_fallback_def template_row_def notify_db_def notify_template_def
      assertRequiredTemplateContent_def act_defs render_row_def render_plain trim_def trim_by_def is_space_def code_of_def)

lemma plain_address: "normalizeEmail ''a@b.c'' = ''a@b.c''"
  by (simp add: normalizeEmail_def trim_by_def is_ascii_space_def lower_def lower_char_def code_of_def Let_def)

lemma sample_alert_created:
  "\<exists>d'. createInternalNotificationEmail plain_config ''u'' 0 sample_alert notify_db = (Inr 0, d')"
proof -
  have k: "outbound_by_key ''k'' notify_db = None"
    by (simp add: outbound_by_key_def notify_db_def empty_db_def)
  have t: "trim ''notify_staff_assigned'' \<noteq> ''''"
    by (simp add: trim_def trim_by_def is_space_def code_of_def)
  have i: "insert_outbound r notify_db = (Inr 0, notify_db\<lparr>outbox := [r\<lparr>o_id := 0\<rparr>], seq_outbox := 1\<rparr>)"
    if "o_ticketId r = Some 1" "o_recipients r = [x]" for r x
    using that by (simp add: insert_outbound_def notify_db_def empty_db_def sample_ticket_def opt_in_def)
  show ?thesis
    by (simp add: createInternalNotificationEmail_def sample_alert_def Let_def bnd_def sq_def require_def ret_def reads_def
        t k plain_address notify_template_renders upsert_outbound_def i assertInternalNotificationIdentity_def
        one_recipient_def new_outbound_def)
qed

theorem notification_idempotent_witness:
  "\<exists>d'. createInternalNotificationEmail plain_config ''v'' 9 sample_alert d' = (Inr 0, d')"
  using sample_alert_created notification_idempotent by blast

text \<open>
  C38: An assignment alert respects department isolation. A command is only created for an assignee
  who exists, is enabled, has an address, and at that moment is an administrator or a member of
  the ticket's department; it is addressed to exactly that person.
\<close>

theorem assignment_alert_in_scope:
  assumes "queueAssignmentNotification env ticket staffId src d = (Inr (Some i), d')"
  shows "\<exists>s. staff_by_id staffId d = Some s \<and> s_isEnabled s \<and> s_email s \<noteq> '''' \<and> in_scope d s (t_departmentId ticket) \<and>
    (\<exists>r \<in> set (outbox d'). o_id r = i \<and> o_ticketId r = Some (t_id ticket) \<and>
       one_recipient (o_recipients r) (normalizeEmail (s_email s)))"
proof -
  obtain s where s: "staff_by_id staffId d = Some s" "s_isEnabled s" "s_email s \<noteq> ''''" "in_scope d s (t_departmentId ticket)"
    and n: "notify env (staff_alert ticket s ''notify_staff_assigned''
        (''internal:assignment:'' @ src @ '':staff:'' @ nat_str (s_id s))) d = (Inr i, d')"
    using assms by (auto simp: queueAssignmentNotification_def act_defs split: option.splits if_splits prod.splits sum.splits)
  then have "notified (staff_alert ticket s ''notify_staff_assigned''
        (''internal:assignment:'' @ src @ '':staff:'' @ nat_str (s_id s))) i d'"
    by (auto simp: notify_def act_defs dest: createInternal_notified)
  with s show ?thesis by (fastforce simp: notified_def staff_alert_def)
qed

definition sample_env :: env where
  "sample_env = \<lparr>en_host = \<lparr>h_date_string = (\<lambda>_. ''date''), h_sha256 = (\<lambda>s. s)\<rparr>, en_mail = plain_config,
     en_uuid = nat_str, en_now = 1000\<rparr>"

definition assign_db :: db where
  "assign_db = notify_db\<lparr>tickets := [sample_ticket 2 10], staffs := [sample_staff 3 4], groups := [sample_group 4 False], dept_staff := [(10, 3)]\<rparr>"

lemma assign_db_alert: "\<exists>d'. queueAssignmentNotification sample_env (sample_ticket 2 10) 3 ''audit:1'' assign_db = (Inr (Some 0), d')"
proof -
  let ?key = "''internal:assignment:'' @ ''audit:1'' @ '':staff:'' @ nat_str 3"
  have k: "outbound_by_key key assign_db = None" for key
    by (simp add: outbound_by_key_def assign_db_def notify_db_def empty_db_def)
  have t: "trim ''notify_staff_assigned'' \<noteq> ''''"
    by (simp add: trim_def trim_by_def is_space_def code_of_def)
  have i: "insert_outbound r assign_db = (Inr 0, assign_db\<lparr>outbox := [r\<lparr>o_id := 0\<rparr>], seq_outbox := 1\<rparr>)"
    if "o_ticketId r = Some 2" "o_recipients r = [x]" for r x
    using that by (simp add: insert_outbound_def assign_db_def notify_db_def empty_db_def sample_ticket_def opt_in_def)
  have m: "renderTemplateRequired ''notify_staff_assigned'' ''en'' vs assign_db =
      (Inr \<lparr>r_subject = ''S'', r_html = ''H'', r_text = ''T''\<rparr>, assign_db)" for vs
    by (simp add: renderTemplateRequired_def template_with_fallback_def template_row_def assign_db_def notify_db_def
        notify_template_def assertRequiredTemplateContent_def act_defs render_row_def render_plain trim_def trim_by_def
        is_space_def code_of_def)
  have s: "staff_by_id 3 assign_db = Some (sample_staff 3 4)"
    by (simp add: staff_by_id_def assign_db_def sample_staff_def)
  have sc: "in_scope assign_db (sample_staff 3 4) 10"
    by (simp add: in_scope_def is_member_def assign_db_def sample_staff_def)
  have q: "seq_outbox assign_db = 0"
    by (simp add: assign_db_def notify_db_def empty_db_def)
  have ti: "t_id (sample_ticket 2 10) = 2" "t_departmentId (sample_ticket 2 10) = 10"
    by (simp_all add: sample_ticket_def)
  have sf: "s_isEnabled (sample_staff 3 4)" "s_email (sample_staff 3 4) = ''a@b.c''" "s_id (sample_staff 3 4) = 3"
    by (simp_all add: sample_staff_def)
  have len: "length ?key \<le> 255"
    by (simp add: nat_str.simps [of 3])
  show ?thesis
    using len
    by (simp add: queueAssignmentNotification_def notify_def createInternalNotificationEmail_def staff_alert_def Let_def
        bnd_def sq_def require_def ret_def reads_def t k i m s sc q ti sf plain_address upsert_outbound_def
        assertInternalNotificationIdentity_def one_recipient_def new_outbound_def)
qed

theorem assignment_alert_in_scope_witness:
  "\<exists>s. staff_by_id 3 assign_db = Some s \<and> s_isEnabled s \<and> in_scope assign_db s 10"
proof -
  have "t_departmentId (sample_ticket 2 10) = 10" by (simp add: sample_ticket_def)
  then show ?thesis
    using assign_db_alert assignment_alert_in_scope [of sample_env "sample_ticket 2 10" 3 "''audit:1''" assign_db 0] by metis
qed

end
