(* ===== verification/WorkflowMatching.thy ===== *)
theory WorkflowMatching
  imports Schema
begin

text \<open>
  The rule engine (\<open>workflow/workflow-matching.ts\<close>): matching a rule's criteria against the columns
  of a ticket, turning its actions into one change of scalar columns, and running the ordered
  chain of rules so that each sees what earlier rules changed. Rules are stored as JSON that may
  be older than today's validation, so every shape is handled.
\<close>

section \<open>Criteria\<close>

definition js_nat_opt :: "nat option \<Rightarrow> js" where
  "js_nat_opt z = (case z of None \<Rightarrow> JNull | Some n \<Rightarrow> JNum (of_nat n))"

definition js_date_opt :: "time option \<Rightarrow> js" where
  "js_date_opt z = (case z of None \<Rightarrow> JNull | Some n \<Rightarrow> JDate n)"

fun creation_mode_str :: "creation_mode \<Rightarrow> string" where
  "creation_mode_str ModeWeb = ''WEB''"
| "creation_mode_str ModeEmail = ''EMAIL''"
| "creation_mode_str ModeApi = ''API''"
| "creation_mode_str ModeStaff = ''STAFF''"
| "creation_mode_str ModeAlaris = ''ALARIS''"

fun actor_type_str :: "actor_type \<Rightarrow> string" where
  "actor_type_str ByStaff = ''STAFF''"
| "actor_type_str ByUser = ''USER''"
| "actor_type_str BySystem = ''SYSTEM''"

text \<open>\<open>ticket[field]\<close>: the columns of the row by name; the value of any other name is undefined.
  The automatic \<open>updatedAt\<close> column is not part of the model.\<close>

definition ticket_columns :: "ticket \<Rightarrow> (string \<times> js) list" where
  "ticket_columns t =
     [(''id'', JNum (of_nat (t_id t))), (''kayakoId'', js_nat_opt (t_kayakoId t)), (''mask'', JStr (t_mask t)),
      (''subject'', JStr (t_subject t)), (''departmentId'', JNum (of_nat (t_departmentId t))),
      (''statusId'', JNum (of_nat (t_statusId t))), (''priorityId'', JNum (of_nat (t_priorityId t))),
      (''typeId'', js_nat_opt (t_typeId t)), (''userId'', js_nat_opt (t_userId t)),
      (''requesterName'', JStr (t_requesterName t)), (''requesterEmail'', JStr (t_requesterEmail t)),
      (''ownerStaffId'', js_nat_opt (t_ownerStaffId t)), (''slaPlanId'', js_nat_opt (t_slaPlanId t)),
      (''dueAt'', js_date_opt (t_dueAt t)), (''resolutionDueAt'', js_date_opt (t_resolutionDueAt t)),
      (''firstResponseAt'', js_date_opt (t_firstResponseAt t)), (''resolvedAt'', js_date_opt (t_resolvedAt t)),
      (''reopenedAt'', js_date_opt (t_reopenedAt t)), (''creationMode'', JStr (creation_mode_str (t_creationMode t))),
      (''creator'', JStr (actor_type_str (t_creator t))), (''flagType'', JStr (t_flagType t)),
      (''totalReplies'', JNum (of_int (t_totalReplies t))), (''hasAttachments'', JBool (t_hasAttachments t)),
      (''hasNotes'', JBool (t_hasNotes t)), (''isResolved'', JBool (t_isResolved t)),
      (''isEscalated'', JBool (t_isEscalated t)), (''escalationLevel'', JNum (of_nat (t_escalationLevel t))),
      (''wasReopened'', JBool (t_wasReopened t)), (''isPhoneCall'', JBool (t_isPhoneCall t)),
      (''ipAddress'', JStr (t_ipAddress t)), (''messageId'', case t_messageId t of None \<Rightarrow> JNull | Some m \<Rightarrow> JStr m),
      (''mergedIntoId'', js_nat_opt (t_mergedIntoId t)), (''customFields'', t_customFields t),
      (''lastReplyAt'', js_date_opt (t_lastReplyAt t)), (''lastActivityAt'', JDate (t_lastActivityAt t)),
      (''createdAt'', JDate (t_createdAt t))]"

definition ticket_field :: "ticket \<Rightarrow> string \<Rightarrow> js" where
  "ticket_field t field = (case map_of (ticket_columns t) field of None \<Rightarrow> JUndef | Some v \<Rightarrow> v)"

definition lower_text :: "host \<Rightarrow> js \<Rightarrow> string" where
  "lower_text h v = lower (js_string h (js_or_else v (JStr '''')))"

definition criterion_holds :: "host \<Rightarrow> ticket \<Rightarrow> js \<Rightarrow> bool" where
  "criterion_holds h t criterion =
     (let raw = ticket_field t (js_string h (js_prop criterion ''field''));
          fieldValue = lower_text h raw;
          criterionValue = lower_text h (js_prop criterion ''value'')
      in case js_prop criterion ''op'' of
           JStr op \<Rightarrow>
             if op = ''eq'' \<or> op = ''is'' then fieldValue = criterionValue
             else if op = ''neq'' \<or> op = ''is_not'' then fieldValue \<noteq> criterionValue
             else if op = ''contains'' then str_includes fieldValue criterionValue
             else if op = ''not_contains'' then \<not> str_includes fieldValue criterionValue
             else if op = ''starts_with'' then starts_with fieldValue criterionValue
             else if op = ''ends_with'' then ends_with fieldValue criterionValue
             else if op = ''gt'' then
               (case raw of JNum n \<Rightarrow> num_gt n (js_to_number h (js_prop criterion ''value'')) | _ \<Rightarrow> False)
             else if op = ''lt'' then
               (case raw of JNum n \<Rightarrow> num_lt n (js_to_number h (js_prop criterion ''value'')) | _ \<Rightarrow> False)
             else False
         | _ \<Rightarrow> False)"

text \<open>\<open>criteria.every(\<dots>)\<close> stops at the first criterion that fails; reading a property of a
  \<open>null\<close> criterion throws.\<close>

fun every_criterion :: "host \<Rightarrow> ticket \<Rightarrow> js list \<Rightarrow> error + bool" where
  "every_criterion h t [] = Inr True"
| "every_criterion h t (c # cs) =
     (if js_is_nullish c then Inl (Failure ''TypeError'')
      else if criterion_holds h t c then every_criterion h t cs
      else Inr False)"

definition workflowMatchesTicket :: "host \<Rightarrow> ticket \<Rightarrow> workflow \<Rightarrow> error + bool" where
  "workflowMatchesTicket h t w =
     (case w_criteria w of
        JArr criteria \<Rightarrow> if criteria = [] then Inr True else every_criterion h t criteria
      | _ \<Rightarrow> Inr True)"

section \<open>Actions\<close>

definition isWorkflowAction :: "js \<Rightarrow> bool" where
  "isWorkflowAction v =
     (case v of JObj _ \<Rightarrow> (case js_prop v ''type'' of JStr _ \<Rightarrow> True | _ \<Rightarrow> False) | _ \<Rightarrow> False)"

fun js_text :: "js \<Rightarrow> string" where
  "js_text (JStr s) = s"
| "js_text _ = ''''"

definition action_type :: "js \<Rightarrow> string" where
  "action_type a = js_text (js_prop a ''type'')"

definition positive_safe :: "rat \<Rightarrow> nat option" where
  "positive_safe r = (if safe_integer r \<and> r > 0 then Some (nat (rat_int r)) else None)"

fun positiveInteger :: "js \<Rightarrow> nat option" where
  "positiveInteger (JNum r) = positive_safe r"
| "positiveInteger (JStr s) =
     (let d = trim s in if d \<noteq> [] \<and> list_all is_digit d then positive_safe (of_nat (digits_val d)) else None)"
| "positiveInteger _ = None"

text \<open>The columns a rule changes; \<open>None\<close> is a column it does not mention.\<close>

record ticket_mutation =
  mu_departmentId :: "nat option"
  mu_ownerStaffId :: "nat option option"
  mu_statusId :: "nat option"
  mu_priorityId :: "nat option"
  mu_typeId :: "nat option option"

definition no_mutation :: ticket_mutation where
  "no_mutation = \<lparr>mu_departmentId = None, mu_ownerStaffId = None, mu_statusId = None, mu_priorityId = None, mu_typeId = None\<rparr>"

record action_plan =
  ap_actions :: "js list"
  ap_ticketMutation :: ticket_mutation
  ap_assignedOwnerId :: "nat option"
  ap_skippedOwnerIds :: "nat list"

definition overwrite :: "'a option \<Rightarrow> 'a option \<Rightarrow> 'a option" where
  "overwrite new old = (case new of None \<Rightarrow> old | Some v \<Rightarrow> Some v)"

definition plan_action :: "(nat \<Rightarrow> bool) \<Rightarrow> js \<Rightarrow> action_plan \<Rightarrow> action_plan" where
  "plan_action canAssignOwner a p =
     (let ty = action_type a; m = ap_ticketMutation p in
      if ty = ''change_department'' \<or> ty = ''assign_group'' then
        p\<lparr>ap_ticketMutation := m\<lparr>mu_departmentId :=
            overwrite (positiveInteger (js_or_else (js_prop a ''departmentId'') (js_prop a ''value''))) (mu_departmentId m)\<rparr>\<rparr>
      else if ty = ''assign'' \<or> ty = ''change_owner'' \<or> ty = ''assign_staff'' then
        (let rawOwner = (if js_prop a ''ownerStaffId'' \<noteq> JUndef then js_prop a ''ownerStaffId'' else js_prop a ''value'')
         in if rawOwner = JNull then
              p\<lparr>ap_ticketMutation := m\<lparr>mu_ownerStaffId := Some None\<rparr>, ap_assignedOwnerId := None\<rparr>
            else case positiveInteger rawOwner of
                   None \<Rightarrow> p
                 | Some ownerStaffId \<Rightarrow>
                     if \<not> canAssignOwner ownerStaffId then p\<lparr>ap_skippedOwnerIds := ap_skippedOwnerIds p @ [ownerStaffId]\<rparr>
                     else p\<lparr>ap_ticketMutation := m\<lparr>mu_ownerStaffId := Some (Some ownerStaffId)\<rparr>,
                            ap_assignedOwnerId := Some ownerStaffId\<rparr>)
      else if ty = ''change_status'' \<or> ty = ''set_status'' then
        p\<lparr>ap_ticketMutation := m\<lparr>mu_statusId :=
            overwrite (positiveInteger (js_or_else (js_prop a ''statusId'') (js_prop a ''value''))) (mu_statusId m)\<rparr>\<rparr>
      else if ty = ''change_priority'' \<or> ty = ''set_priority'' then
        p\<lparr>ap_ticketMutation := m\<lparr>mu_priorityId :=
            overwrite (positiveInteger (js_or_else (js_prop a ''priorityId'') (js_prop a ''value''))) (mu_priorityId m)\<rparr>\<rparr>
      else if ty = ''change_type'' then
        (let rawType = (if js_prop a ''typeId'' \<noteq> JUndef then js_prop a ''typeId'' else js_prop a ''value'')
         in if rawType = JNull then p\<lparr>ap_ticketMutation := m\<lparr>mu_typeId := Some None\<rparr>\<rparr>
            else p\<lparr>ap_ticketMutation := m\<lparr>mu_typeId := overwrite (map_option Some (positiveInteger rawType)) (mu_typeId m)\<rparr>\<rparr>)
      else p)"

definition planWorkflowActions :: "(nat \<Rightarrow> bool) \<Rightarrow> js \<Rightarrow> action_plan" where
  "planWorkflowActions canAssignOwner v =
     (let actions = (case v of JArr vs \<Rightarrow> filter isWorkflowAction vs | _ \<Rightarrow> [])
      in fold (plan_action canAssignOwner) actions
           \<lparr>ap_actions = actions, ap_ticketMutation = no_mutation, ap_assignedOwnerId = None, ap_skippedOwnerIds = []\<rparr>)"

definition upd_opt :: "'a option \<Rightarrow> 'a \<Rightarrow> 'a" where
  "upd_opt z x = (case z of None \<Rightarrow> x | Some y \<Rightarrow> y)"

definition applyWorkflowTicketMutation :: "ticket_mutation \<Rightarrow> ticket \<Rightarrow> ticket" where
  "applyWorkflowTicketMutation m t =
     t\<lparr>t_departmentId := upd_opt (mu_departmentId m) (t_departmentId t),
       t_ownerStaffId := upd_opt (mu_ownerStaffId m) (t_ownerStaffId t),
       t_statusId := upd_opt (mu_statusId m) (t_statusId t),
       t_priorityId := upd_opt (mu_priorityId m) (t_priorityId t),
       t_typeId := upd_opt (mu_typeId m) (t_typeId t)\<rparr>"

section \<open>The chain\<close>

record chain_step =
  cs_workflow :: workflow
  cs_before :: ticket
  cs_actionPlan :: action_plan
  cs_after :: ticket

fun rule_chain :: "host \<Rightarrow> (nat \<Rightarrow> bool) \<Rightarrow> ticket \<Rightarrow> workflow list \<Rightarrow> error + chain_step list" where
  "rule_chain h can t [] = Inr []"
| "rule_chain h can t (w # ws) =
     (case workflowMatchesTicket h t w of
        Inl e \<Rightarrow> Inl e
      | Inr False \<Rightarrow> rule_chain h can t ws
      | Inr True \<Rightarrow>
          (let plan = planWorkflowActions can (w_actions w);
               after = applyWorkflowTicketMutation (ap_ticketMutation plan) t
           in case rule_chain h can after ws of
                Inl e \<Rightarrow> Inl e
              | Inr steps \<Rightarrow> Inr (\<lparr>cs_workflow = w, cs_before = t, cs_actionPlan = plan, cs_after = after\<rparr> # steps)))"

text \<open>\<open>.sort((a, b) => a.sortOrder - b.sortOrder || a.id - b.id)\<close>: a stable sort by the pair.\<close>

definition ordered_rules :: "workflow list \<Rightarrow> workflow list" where
  "ordered_rules ws = sort_key w_sortOrder (sort_key w_id (filter w_isEnabled ws))"

definition projectWorkflowRuleChain ::
  "host \<Rightarrow> (nat \<Rightarrow> bool) \<Rightarrow> ticket \<Rightarrow> workflow list \<Rightarrow> error + chain_step list" where
  "projectWorkflowRuleChain h can t ws = rule_chain h can t (ordered_rules ws)"

section \<open>Facts about plans\<close>

text \<open>What every prefix of the action loop keeps: the recorded assignee is the owner the mutation
  sets, was checked, and all recorded ids are positive.\<close>

definition plan_ok :: "(nat \<Rightarrow> bool) \<Rightarrow> action_plan \<Rightarrow> bool" where
  "plan_ok can p \<longleftrightarrow>
     (let m = ap_ticketMutation p in
      (\<forall>s. ap_assignedOwnerId p = Some s \<longleftrightarrow> mu_ownerStaffId m = Some (Some s)) \<and>
      (\<forall>s. ap_assignedOwnerId p = Some s \<longrightarrow> can s \<and> s > 0) \<and>
      (\<forall>s \<in> set (ap_skippedOwnerIds p). \<not> can s) \<and>
      (\<forall>i. mu_departmentId m = Some i \<longrightarrow> i > 0) \<and> (\<forall>i. mu_statusId m = Some i \<longrightarrow> i > 0) \<and>
      (\<forall>i. mu_priorityId m = Some i \<longrightarrow> i > 0) \<and> (\<forall>i. mu_typeId m = Some (Some i) \<longrightarrow> i > 0))"

lemma positive_safe_pos: "positive_safe r = Some n \<Longrightarrow> n > 0"
proof -
  assume "positive_safe r = Some n"
  then have r: "safe_integer r" "r > 0" "n = nat (rat_int r)"
    by (auto simp: positive_safe_def split: if_splits)
  obtain a b where q: "quotient_of r = (a, b)" by fastforce
  have "r = of_int a / of_int b" using quotient_of_div [OF q] .
  moreover have "b = 1" using r(1) q by (simp add: safe_integer_def rat_is_int_def)
  ultimately have "a > 0" using r(2) by simp
  then show ?thesis using r(3) q by (simp add: rat_int_def)
qed

lemma positiveInteger_pos: "positiveInteger v = Some n \<Longrightarrow> n > 0"
  by (cases v) (auto simp: Let_def positive_safe_pos split: if_splits)

lemma overwrite_cases: "overwrite new old = Some i \<Longrightarrow> new = Some i \<or> old = Some i"
  by (cases new) (simp_all add: overwrite_def)

lemma plan_ok_updates:
  assumes "plan_ok can p"
  shows "plan_ok can (p\<lparr>ap_ticketMutation := (ap_ticketMutation p)\<lparr>mu_departmentId := overwrite (positiveInteger v) (mu_departmentId (ap_ticketMutation p))\<rparr>\<rparr>)"
    "plan_ok can (p\<lparr>ap_ticketMutation := (ap_ticketMutation p)\<lparr>mu_statusId := overwrite (positiveInteger v) (mu_statusId (ap_ticketMutation p))\<rparr>\<rparr>)"
    "plan_ok can (p\<lparr>ap_ticketMutation := (ap_ticketMutation p)\<lparr>mu_priorityId := overwrite (positiveInteger v) (mu_priorityId (ap_ticketMutation p))\<rparr>\<rparr>)"
    "plan_ok can (p\<lparr>ap_ticketMutation := (ap_ticketMutation p)\<lparr>mu_typeId := Some None\<rparr>\<rparr>)"
    "plan_ok can (p\<lparr>ap_ticketMutation := (ap_ticketMutation p)\<lparr>mu_typeId := overwrite (map_option Some (positiveInteger v)) (mu_typeId (ap_ticketMutation p))\<rparr>\<rparr>)"
    "plan_ok can (p\<lparr>ap_ticketMutation := (ap_ticketMutation p)\<lparr>mu_ownerStaffId := Some None\<rparr>, ap_assignedOwnerId := None\<rparr>)"
    "positiveInteger v = Some i \<Longrightarrow> can i \<Longrightarrow>
      plan_ok can (p\<lparr>ap_ticketMutation := (ap_ticketMutation p)\<lparr>mu_ownerStaffId := Some (Some i)\<rparr>, ap_assignedOwnerId := Some i\<rparr>)"
    "\<not> can i \<Longrightarrow> plan_ok can (p\<lparr>ap_skippedOwnerIds := ap_skippedOwnerIds p @ [i]\<rparr>)"
  using assms by (auto simp: plan_ok_def Let_def dest!: overwrite_cases dest: positiveInteger_pos)

lemma plan_ok_if: "(b \<Longrightarrow> plan_ok can x) \<Longrightarrow> (\<not> b \<Longrightarrow> plan_ok can y) \<Longrightarrow> plan_ok can (if b then x else y)"
  by simp

lemma plan_ok_option:
  "(z = None \<Longrightarrow> plan_ok can x) \<Longrightarrow> (\<And>i. z = Some i \<Longrightarrow> plan_ok can (f i)) \<Longrightarrow> plan_ok can (case z of None \<Rightarrow> x | Some i \<Rightarrow> f i)"
  by (cases z) simp_all

lemma plan_action_ok:
  assumes "plan_ok can p"
  shows "plan_ok can (plan_action can a p)"
  unfolding plan_action_def Let_def
  by (intro plan_ok_if plan_ok_option plan_ok_updates [OF assms] assms) (assumption | erule notnotD)+

lemma fold_plan_ok: "plan_ok can p \<Longrightarrow> plan_ok can (fold (plan_action can) as p)"
  by (induction as arbitrary: p) (auto intro: plan_action_ok)

lemma planWorkflowActions_ok: "plan_ok can (planWorkflowActions can v)"
  unfolding planWorkflowActions_def Let_def
  by (rule fold_plan_ok) (simp add: plan_ok_def no_mutation_def)


definition reassign_actions :: js where
  "reassign_actions = JArr [JObj [(''type'', JStr ''assign''), (''value'', JNum 3)],
     JNull, JObj [(''type'', JStr ''assign_staff''), (''ownerStaffId'', JStr ''9'')]]"


section \<open>Facts about the chain\<close>

definition chain_final :: "ticket \<Rightarrow> chain_step list \<Rightarrow> ticket" where
  "chain_final t steps = (if steps = [] then t else cs_after (last steps))"

lemma chain_final_simps [simp]:
  "chain_final t [] = t" "chain_final t (s # ss) = chain_final (cs_after s) ss"
  by (simp_all add: chain_final_def)

definition one_step :: "(nat \<Rightarrow> bool) \<Rightarrow> ticket \<Rightarrow> workflow \<Rightarrow> chain_step" where
  "one_step can t w =
     (let plan = planWorkflowActions can (w_actions w)
      in \<lparr>cs_workflow = w, cs_before = t, cs_actionPlan = plan,
          cs_after = applyWorkflowTicketMutation (ap_ticketMutation plan) t\<rparr>)"

lemma one_step_sel [simp]:
  "cs_workflow (one_step can t w) = w" "cs_before (one_step can t w) = t"
  "cs_actionPlan (one_step can t w) = planWorkflowActions can (w_actions w)"
  "cs_after (one_step can t w) = applyWorkflowTicketMutation (ap_ticketMutation (planWorkflowActions can (w_actions w))) t"
  by (simp_all add: one_step_def Let_def)

text \<open>A chain split at any rule: the second part starts from what the first part left.\<close>

lemma rule_chain_append:
  "rule_chain h can t (us @ vs) =
     (case rule_chain h can t us of
        Inl e \<Rightarrow> Inl e
      | Inr s1 \<Rightarrow> (case rule_chain h can (chain_final t s1) vs of Inl e \<Rightarrow> Inl e | Inr s2 \<Rightarrow> Inr (s1 @ s2)))"
proof (induction us arbitrary: t)
  case Nil
  show ?case by (simp split: sum.split)
next
  case (Cons w us)
  show ?case
    by (auto simp: Let_def Cons split: sum.split bool.split)
qed

lemma rule_chain_one:
  "rule_chain h can t [w] =
     (case workflowMatchesTicket h t w of
        Inl e \<Rightarrow> Inl e | Inr b \<Rightarrow> Inr (if b then [one_step can t w] else []))"
  by (simp add: one_step_def Let_def split: sum.split bool.split)


definition sample_host :: host where
  "sample_host = \<lparr>h_date_string = (\<lambda>_. ''date''), h_sha256 = (\<lambda>s. s)\<rparr>"

definition sample_rule :: "nat \<Rightarrow> int \<Rightarrow> js \<Rightarrow> js \<Rightarrow> workflow" where
  "sample_rule i order criteria actions =
     \<lparr>w_id = i, w_title = ''Rule'', w_criteria = criteria, w_actions = actions, w_isEnabled = True,
      w_sortOrder = order, w_updatedAt = 0\<rparr>"

text \<open>The first rule moves the ticket to status 5; the second matches status 5 only.\<close>

definition chained_rules :: "workflow list" where
  "chained_rules =
     [sample_rule 2 20 (JArr [JObj [(''field'', JStr ''statusId''), (''op'', JStr ''eq''), (''value'', JNum 5)]])
        (JArr [JObj [(''type'', JStr ''set_priority''), (''value'', JStr ''4'')]]),
      sample_rule 1 10 (JArr []) (JArr [JObj [(''type'', JStr ''change_status''), (''value'', JNum 5)]])]"

definition status_rule :: workflow where
  "status_rule = sample_rule 2 20 (JArr [JObj [(''field'', JStr ''statusId''), (''op'', JStr ''eq''), (''value'', JNum 5)]])
     (JArr [JObj [(''type'', JStr ''set_priority''), (''value'', JStr ''4'')]])"

lemma chained_rules_ordered:
  "ordered_rules chained_rules =
     [sample_rule 1 10 (JArr []) (JArr [JObj [(''type'', JStr ''change_status''), (''value'', JNum 5)]])] @ status_rule # []"
  by (simp add: ordered_rules_def chained_rules_def sample_rule_def status_rule_def)

lemma chained_rules_run:
  "\<exists>s. projectWorkflowRuleChain sample_host (\<lambda>_. True) (sample_ticket 1 10) chained_rules = Inr s"
proof -
  have "(case projectWorkflowRuleChain sample_host (\<lambda>_. True) (sample_ticket 1 10) chained_rules of Inl _ \<Rightarrow> False | Inr s \<Rightarrow> True)"
    by code_simp
  then show ?thesis by (auto split: sum.splits)
qed


text \<open>The order of the chain.\<close>

lemma ordered_rules_sorted: "sorted (map w_sortOrder (ordered_rules ws))"
  by (simp add: ordered_rules_def)

lemma ordered_rules_set: "set (ordered_rules ws) = {w \<in> set ws. w_isEnabled w}"
  by (auto simp: ordered_rules_def)

text \<open>
  A stored criterion that is \<open>null\<close> makes matching fail with an exception as soon as it is
  reached, instead of counting as a criterion that does not hold.
\<close>

theorem null_criterion_throws:
  "w_criteria w = JArr (JNull # cs) \<Longrightarrow> workflowMatchesTicket h t w = Inl (Failure ''TypeError'')"
  by (simp add: workflowMatchesTicket_def js_is_nullish_def)

theorem null_criterion_throws_witness:
  "workflowMatchesTicket sample_host (sample_ticket 1 10) (sample_rule 1 0 (JArr [JNull]) (JArr [])) = Inl (Failure ''TypeError'')"
  by (rule null_criterion_throws [where cs = "[]"]) (simp add: sample_rule_def)

end
