(* ===== verification/WorkflowEmail.thy ===== *)
theory WorkflowEmail
  imports Notifications WorkflowMatching Lease "HOL-Library.Sublist" "HOL-Library.Multiset"
begin

text \<open>
  Durable workflow mail (\<open>workflow/workflow-email-event.service.ts\<close>): the snapshot of all matching
  \<open>send_email\<close> actions taken in the transaction that changes a ticket, the worker that turns such an
  event into outbox commands under a lease, and the operator's view, replay and health report.
\<close>

section \<open>Snapshots\<close>

definition MAX_WORKFLOW_EMAIL_ACTIONS :: nat where
  "MAX_WORKFLOW_EMAIL_ACTIONS = 50"

definition MAX_WORKFLOW_EMAIL_TEXT_CHARS :: nat where
  "MAX_WORKFLOW_EMAIL_TEXT_CHARS = 50000"

record action_snapshot =
  sn_workflowId :: int
  sn_workflowVersionMs :: int
  sn_actionIndex :: int
  sn_to :: string
  sn_subject :: string
  sn_text :: string

record invalid_action =
  iv_workflowId :: nat
  iv_actionIndex :: nat
  iv_reason :: string

definition js_string_of :: "js \<Rightarrow> string" where
  "js_string_of v = (case v of JStr s \<Rightarrow> trim s | _ \<Rightarrow> '''')"

definition workflowEmailText :: "js \<Rightarrow> string option" where
  "workflowEmailText action =
     (let note = js_string_of (js_prop action ''note''); val = js_string_of (js_prop action ''value'');
          body = or_string note val
      in if body = '''' \<or> length body > MAX_WORKFLOW_EMAIL_TEXT_CHARS then None else Some body)"

text \<open>The \<open>send_email\<close> actions of one rule, by index: the good ones with their text, and the bad ones.\<close>

definition send_email_actions :: "js \<Rightarrow> (nat \<times> string option) list" where
  "send_email_actions v =
     (case v of
        JArr raws \<Rightarrow> List.map_filter
          (\<lambda>(actionIndex, raw). if isWorkflowAction raw \<and> action_type raw = ''send_email''
             then Some (actionIndex, workflowEmailText raw) else None)
          (List.enumerate 0 raws)
      | _ \<Rightarrow> [])"

definition action_snapshot_of :: "string \<Rightarrow> ticket \<Rightarrow> workflow \<Rightarrow> nat \<times> string \<Rightarrow> action_snapshot" where
  "action_snapshot_of recipient ticket w a =
     \<lparr>sn_workflowId = int (w_id w), sn_workflowVersionMs = w_updatedAt w, sn_actionIndex = int (fst a),
      sn_to = recipient, sn_subject = ''['' @ t_mask ticket @ ''] '' @ t_subject ticket, sn_text = snd a\<rparr>"

definition snapshot_step ::
  "string \<Rightarrow> ticket \<Rightarrow> chain_step \<Rightarrow> action_snapshot list \<times> invalid_action list \<Rightarrow> action_snapshot list \<times> invalid_action list" where
  "snapshot_step recipient ticket st acc =
     (let (snapshots, invalids) = acc; w = cs_workflow st; found = send_email_actions (w_actions w);
          bad = filter (\<lambda>a. snd a = None) found;
          good = List.map_filter (\<lambda>(ix, z). map_option (Pair ix) z) found
      in if bad \<noteq> [] then
           (snapshots, invalids @ map (\<lambda>a. \<lparr>iv_workflowId = w_id w, iv_actionIndex = fst a,
              iv_reason = ''send_email body is missing, invalid, or exceeds the configured limit''\<rparr>) bad)
         else if length snapshots + length good > MAX_WORKFLOW_EMAIL_ACTIONS then
           (snapshots, invalids @ map (\<lambda>a. \<lparr>iv_workflowId = w_id w, iv_actionIndex = fst a,
              iv_reason = ''send_email action limit (50) would be exceeded''\<rparr>) good)
         else (snapshots @ map (action_snapshot_of recipient ticket w) good, invalids))"

definition staff_exists :: "db \<Rightarrow> nat \<Rightarrow> bool" where
  "staff_exists d sid \<longleftrightarrow> staff_by_id sid d \<noteq> None"

definition snapshotWorkflowEmailActions ::
  "host \<Rightarrow> ticket \<Rightarrow> db \<Rightarrow> error + action_snapshot list \<times> invalid_action list" where
  "snapshotWorkflowEmailActions h ticket d =
     (let recipient = normalizeEmail (t_requesterEmail ticket) in
      if recipient = '''' then Inr ([], [])
      else case projectWorkflowRuleChain h (staff_exists d) ticket (filter w_isEnabled (workflows d)) of
             Inl e \<Rightarrow> Inl e
           | Inr steps \<Rightarrow> Inr (fold (snapshot_step recipient ticket) steps ([], [])))"

section \<open>Events\<close>

text \<open>The stored form of a snapshot.\<close>

definition snapshot_js :: "action_snapshot \<Rightarrow> js" where
  "snapshot_js a =
     JObj [(''workflowId'', JNum (of_int (sn_workflowId a))), (''workflowVersionMs'', JNum (of_int (sn_workflowVersionMs a))),
           (''actionIndex'', JNum (of_int (sn_actionIndex a))), (''to'', JStr (sn_to a)),
           (''subject'', JStr (sn_subject a)), (''text'', JStr (sn_text a))]"

definition new_event :: "env \<Rightarrow> nat \<Rightarrow> string \<Rightarrow> string \<Rightarrow> js \<Rightarrow> workflow_event" where
  "new_event env ticketId eventType sourceKey actions =
     \<lparr>e_id = 0, e_ticketId = ticketId, e_eventType = eventType, e_sourceKey = sourceKey, e_actions = actions,
      e_state = EPending, e_attempts = 0, e_nextAttemptAt = None, e_leaseOwner = None, e_leaseExpiresAt = None,
      e_leaseVersion = 0, e_lastError = None, e_processedAt = None, e_createdAt = en_now env, e_updatedAt = en_now env\<rparr>"

definition event_by_key :: "string \<Rightarrow> db \<Rightarrow> workflow_event option" where
  "event_by_key key d = find_row (\<lambda>e. e_sourceKey e = key) (wf_events d)"

definition event_by_id :: "nat \<Rightarrow> db \<Rightarrow> workflow_event option" where
  "event_by_id i d = find_row (\<lambda>e. e_id e = i) (wf_events d)"

text \<open>\<open>workflowEmailEvent.upsert\<close> by source key with an empty update.\<close>

definition upsert_event :: "workflow_event \<Rightarrow> workflow_event act_db" where
  "upsert_event e d =
     (case event_by_key (e_sourceKey e) d of
        Some r \<Rightarrow> (Inr r, d)
      | None \<Rightarrow> (let r = e\<lparr>e_id := seq_event d\<rparr>
                 in (Inr r, d\<lparr>wf_events := wf_events d @ [r], seq_event := Suc (seq_event d)\<rparr>)))"

definition nul :: string where
  "nul = [CHR 0x00]"

definition persistInvalidWorkflowEmailAction ::
  "env \<Rightarrow> ticket \<Rightarrow> string \<Rightarrow> string \<Rightarrow> invalid_action \<Rightarrow> unit act_db" where
  "persistInvalidWorkflowEmailAction env ticket eventType sourceKey x =
     (let sourceHash = h_sha256 (en_host env) (sourceKey @ nul @ nat_str (iv_workflowId x) @ nul @ nat_str (iv_actionIndex x));
          quarantineSourceKey = ''workflow-email-invalid:'' @ sourceHash;
          reason = take 500 (''Workflow '' @ nat_str (iv_workflowId x) @ '' action '' @ nat_str (iv_actionIndex x) @ '': '' @ iv_reason x)
      in bnd (upsert_event ((new_event env (t_id ticket) eventType quarantineSourceKey (JArr []))
                \<lparr>e_state := EQuarantined, e_lastError := Some reason\<rparr>)) (\<lambda>row.
           require (e_ticketId row = t_id ticket \<and> e_eventType row = eventType \<and> e_sourceKey row = quarantineSourceKey)
             (Failure (''Workflow email invalid-action source conflict for '' @ quarantineSourceKey))))"

definition of_result :: "error + 'a \<Rightarrow> 'a act_db" where
  "of_result z = (case z of Inl e \<Rightarrow> throw e | Inr x \<Rightarrow> ret x)"

definition enqueueWorkflowEmailEvent :: "env \<Rightarrow> ticket \<Rightarrow> string \<Rightarrow> string \<Rightarrow> unit act_db" where
  "enqueueWorkflowEmailEvent env ticket eventType sourceKey =
     sq (require (sourceKey \<noteq> '''' \<and> length sourceKey \<le> 255) (Failure ''Workflow email event source key is invalid''))
    (bnd (reads (snapshotWorkflowEmailActions (en_host env) ticket)) (\<lambda>z.
     bnd (of_result z) (\<lambda>(actions, invalidActions).
     sq (each (persistInvalidWorkflowEmailAction env ticket eventType sourceKey) invalidActions)
       (if actions = [] then ret ()
        else bnd (upsert_event (new_event env (t_id ticket) eventType sourceKey (JArr (map snapshot_js actions)))) (\<lambda>row.
          require (e_ticketId row = t_id ticket \<and> e_eventType row = eventType \<and> e_sourceKey row = sourceKey)
            (Failure (''Workflow email event source conflict for '' @ sourceKey)))))))"

text \<open>Reading a stored snapshot back.\<close>

fun js_safe_int :: "js \<Rightarrow> int option" where
  "js_safe_int (JNum r) = (if safe_integer r then Some (rat_int r) else None)"
| "js_safe_int _ = None"

fun js_str :: "js \<Rightarrow> string option" where
  "js_str (JStr s) = Some s"
| "js_str _ = None"

definition parse_snapshot :: "js \<Rightarrow> action_snapshot option" where
  "parse_snapshot raw =
     (case raw of
        JObj _ \<Rightarrow>
          (case (js_safe_int (js_prop raw ''workflowId''), js_safe_int (js_prop raw ''workflowVersionMs''),
                 js_safe_int (js_prop raw ''actionIndex''), js_str (js_prop raw ''to''), js_str (js_prop raw ''subject''),
                 js_str (js_prop raw ''text'')) of
             (Some workflowId, Some version, Some actionIndex, Some to, Some subject, Some body) \<Rightarrow>
               if to = '''' \<or> length to > 320 \<or> CHR 0x0D \<in> set to \<or> CHR 0x0A \<in> set to \<or> trim body = '''' \<or>
                  length body > MAX_WORKFLOW_EMAIL_TEXT_CHARS \<or> normalizeEmail to \<noteq> to then None
               else Some \<lparr>sn_workflowId = workflowId, sn_workflowVersionMs = version, sn_actionIndex = actionIndex,
                          sn_to = to, sn_subject = subject, sn_text = body\<rparr>
           | _ \<Rightarrow> None)
      | _ \<Rightarrow> None)"

definition action_key :: "action_snapshot \<Rightarrow> string" where
  "action_key a = int_str (sn_workflowId a) @ '':'' @ int_str (sn_workflowVersionMs a) @ '':'' @ int_str (sn_actionIndex a)"

fun parse_snapshots :: "string list \<Rightarrow> js list \<Rightarrow> action_snapshot list option" where
  "parse_snapshots keys [] = Some []"
| "parse_snapshots keys (raw # raws) =
     (case parse_snapshot raw of
        None \<Rightarrow> None
      | Some a \<Rightarrow> if action_key a \<in> set keys then None
                  else map_option ((#) a) (parse_snapshots (action_key a # keys) raws))"

definition parseActionSnapshot :: "js \<Rightarrow> action_snapshot list option" where
  "parseActionSnapshot v =
     (case v of
        JArr raws \<Rightarrow> if raws = [] \<or> length raws > MAX_WORKFLOW_EMAIL_ACTIONS then None else parse_snapshots [] raws
      | _ \<Rightarrow> None)"

section \<open>The worker\<close>

definition WORKFLOW_EVENT_LEASE_MS :: int where
  "WORKFLOW_EVENT_LEASE_MS = 60000"

definition WORKFLOW_EVENT_RECOVERY_BATCH :: nat where
  "WORKFLOW_EVENT_RECOVERY_BATCH = 100"

definition WORKFLOW_EVENT_MAX_ATTEMPTS :: nat where
  "WORKFLOW_EVENT_MAX_ATTEMPTS = 10"

definition update_events :: "(workflow_event \<Rightarrow> bool) \<Rightarrow> (workflow_event \<Rightarrow> workflow_event) \<Rightarrow> nat act_db" where
  "update_events p f d = (Inr (count_rows p (wf_events d)), d\<lparr>wf_events := update_rows p f (wf_events d)\<rparr>)"

definition claimable :: "time \<Rightarrow> workflow_event \<Rightarrow> bool" where
  "claimable now e \<longleftrightarrow>
     e_state e = EPending \<or>
     (e_state e = ERetry \<and> (case e_nextAttemptAt e of None \<Rightarrow> True | Some t \<Rightarrow> t \<le> now)) \<or>
     (e_state e = EProcessing \<and> (case e_leaseExpiresAt e of None \<Rightarrow> False | Some t \<Rightarrow> t < now))"

definition recoverDueEvents :: "time \<Rightarrow> db \<Rightarrow> nat list" where
  "recoverDueEvents now d =
     take WORKFLOW_EVENT_RECOVERY_BATCH (map e_id (sort_key e_createdAt (filter (claimable now) (wf_events d))))"

definition claim_event :: "nat \<Rightarrow> string \<Rightarrow> time \<Rightarrow> nat act_db" where
  "claim_event i leaseOwner now =
     update_events (\<lambda>e. e_id e = i \<and> claimable now e)
       (\<lambda>e. e\<lparr>e_state := EProcessing, e_attempts := Suc (e_attempts e), e_nextAttemptAt := None,
              e_leaseOwner := Some leaseOwner, e_leaseExpiresAt := Some (now + WORKFLOW_EVENT_LEASE_MS),
              e_leaseVersion := Suc (e_leaseVersion e), e_lastError := None, e_updatedAt := now\<rparr>)"

text \<open>The fence of the worker's writes is its owner token.\<close>

definition owns_event :: "nat \<Rightarrow> string \<Rightarrow> workflow_event \<Rightarrow> bool" where
  "owns_event i leaseOwner e \<longleftrightarrow> e_id e = i \<and> e_state e = EProcessing \<and> e_leaseOwner e = Some leaseOwner"

definition lease_lost :: error where
  "lease_lost = Failure ''Workflow email event lease lost''"

definition heartbeat_event :: "nat \<Rightarrow> string \<Rightarrow> time \<Rightarrow> unit act_db" where
  "heartbeat_event i leaseOwner now =
     bnd (update_events (owns_event i leaseOwner)
            (\<lambda>e. e\<lparr>e_leaseExpiresAt := Some (now + WORKFLOW_EVENT_LEASE_MS), e_updatedAt := now\<rparr>)) (\<lambda>count.
       require (count = 1) lease_lost)"

definition end_lease :: "event_state \<Rightarrow> string option \<Rightarrow> time \<Rightarrow> workflow_event \<Rightarrow> workflow_event" where
  "end_lease st err now e =
     e\<lparr>e_state := st, e_leaseOwner := None, e_leaseExpiresAt := None, e_lastError := err, e_updatedAt := now\<rparr>"

definition quarantine :: "nat \<Rightarrow> string \<Rightarrow> string \<Rightarrow> time \<Rightarrow> unit act_db" where
  "quarantine i leaseOwner reason now =
     sq (update_events (owns_event i leaseOwner) (end_lease EQuarantined (Some (take 500 reason)) now)) (ret ())"

definition retryDelayMs :: "nat \<Rightarrow> int" where
  "retryDelayMs attempts = min (60 * 60000) (5000 * 2 ^ (attempts - 1))"

text \<open>\<open>err.name\<close> of the exceptions of the model, reduced to safe characters.\<close>

fun error_name :: "error \<Rightarrow> string" where
  "error_name (NotFound _) = ''NotFoundException''"
| "error_name (BadRequest _) = ''BadRequestException''"
| "error_name (Forbidden _) = ''ForbiddenException''"
| "error_name (Unauthorized _) = ''UnauthorizedException''"
| "error_name (ServiceUnavailable _) = ''ServiceUnavailableException''"
| "error_name (TooManyRequests _) = ''HttpException''"
| "error_name (Conflict _) = ''ConflictException''"
| "error_name (UniqueViolation _) = ''PrismaClientKnownRequestError''"
| "error_name (PayloadTooLarge _) = ''PayloadTooLargeException''"
| "error_name (MessageIdConflict _) = ''BadRequestException''"
| "error_name (OwnerUnresolved _) = ''EffectiveOwnerResolutionError''"
| "error_name RecordNotFound = ''PrismaClientKnownRequestError''"
| "error_name (Failure m) = (if m = ''TypeError'' then ''TypeError'' else ''Error'')"

definition eventErrorKind :: "error \<Rightarrow> string" where
  "eventErrorKind err =
     or_string (take 120 (filter (\<lambda>c. is_word_char c \<or> c = CHR ''.'' \<or> c = CHR ''-'') (error_name err))) ''UnknownError''"

definition retryOrQuarantine :: "workflow_event \<Rightarrow> string \<Rightarrow> error \<Rightarrow> time \<Rightarrow> unit act_db" where
  "retryOrQuarantine event leaseOwner err now =
     (let reason = eventErrorKind err; exhausted = e_attempts event \<ge> WORKFLOW_EVENT_MAX_ATTEMPTS in
      sq (update_events (owns_event (e_id event) leaseOwner)
            (\<lambda>e. if exhausted then end_lease EQuarantined (Some reason) now e
                 else (end_lease ERetry (Some reason) now e)
                        \<lparr>e_nextAttemptAt := Some (now + retryDelayMs (e_attempts event))\<rparr>))
         (ret ()))"

definition workflow_mail_key :: "workflow_event \<Rightarrow> action_snapshot \<Rightarrow> string" where
  "workflow_mail_key e a =
     ''workflow-email:'' @ e_sourceKey e @ '':workflow:'' @ int_str (sn_workflowId a) @
     '':v:'' @ int_str (sn_workflowVersionMs a) @ '':action:'' @ int_str (sn_actionIndex a)"

definition workflow_mail_of :: "workflow_event \<Rightarrow> action_snapshot \<Rightarrow> workflow_mail_input" where
  "workflow_mail_of e a =
     \<lparr>wi_ticketId = e_ticketId e, wi_to = sn_to a, wi_subject = sn_subject a, wi_text = sn_text a,
      wi_idempotencyKey = workflow_mail_key e a\<rparr>"

definition send_action :: "env \<Rightarrow> workflow_event \<Rightarrow> string \<Rightarrow> action_snapshot \<Rightarrow> nat act_db" where
  "send_action env e leaseOwner a =
     sq (heartbeat_event (e_id e) leaseOwner (en_now env))
        (bnd (reads seq_outbox) (\<lambda>n.
           createWorkflowTicketEmail (en_mail env) (en_uuid env n) (en_now env) (workflow_mail_of e a)))"

definition mark_processed :: "nat \<Rightarrow> string \<Rightarrow> time \<Rightarrow> nat act_db" where
  "mark_processed i leaseOwner now =
     update_events (owns_event i leaseOwner) (\<lambda>e. (end_lease EProcessed None now e)\<lparr>e_processedAt := Some now\<rparr>)"

definition current_requester :: "nat \<Rightarrow> db \<Rightarrow> string" where
  "current_requester ticketId d =
     (case ticket_by_id ticketId d of None \<Rightarrow> '''' | Some t \<Rightarrow> normalizeEmail (t_requesterEmail t))"

text \<open>The claimed event's body; the outbox rows it returns are woken only when it settled the event.\<close>

definition run_event :: "env \<Rightarrow> workflow_event \<Rightarrow> string \<Rightarrow> nat list act_db" where
  "run_event env e leaseOwner =
     (case parseActionSnapshot (e_actions e) of
        None \<Rightarrow> sq (quarantine (e_id e) leaseOwner ''invalid action snapshot'' (en_now env)) (ret [])
      | Some actions \<Rightarrow>
          bnd (reads (current_requester (e_ticketId e))) (\<lambda>recipient.
            if recipient = '''' \<or> (\<exists>a \<in> set actions. sn_to a \<noteq> recipient) then
              sq (quarantine (e_id e) leaseOwner ''requester email changed or is unavailable'' (en_now env)) (ret [])
            else bnd (each (send_action env e leaseOwner) actions) (\<lambda>ids.
                 bnd (mark_processed (e_id e) leaseOwner (en_now env)) (\<lambda>count.
                   ret (if count = 1 then ids else [])))))"

definition processEvent :: "env \<Rightarrow> string \<Rightarrow> nat \<Rightarrow> nat list act_db" where
  "processEvent env leaseOwner i =
     bnd (claim_event i leaseOwner (en_now env)) (\<lambda>count.
       if count \<noteq> 1 then ret []
       else bnd (reads (event_by_id i)) (\<lambda>z.
         case z of
           None \<Rightarrow> ret []
         | Some e \<Rightarrow>
             if e_state e \<noteq> EProcessing \<or> e_leaseOwner e \<noteq> Some leaseOwner then ret []
             else catch_act (run_event env e leaseOwner)
                    (\<lambda>err. if err = lease_lost then ret []
                           else sq (retryOrQuarantine e leaseOwner err (en_now env)) (ret []))))"

section \<open>Operators\<close>

definition operatorEventWhere :: "actor \<Rightarrow> db \<Rightarrow> workflow_event \<Rightarrow> bool" where
  "operatorEventWhere a d e \<longleftrightarrow>
     (case ticket_by_id (e_ticketId e) d of None \<Rightarrow> False | Some t \<Rightarrow> ticketWhere a d t)"

definition replayBlockReason :: "event_state \<Rightarrow> action_snapshot list option \<Rightarrow> string \<Rightarrow> string option" where
  "replayBlockReason st actions requesterEmail =
     (if st \<noteq> EQuarantined then Some ''Only quarantined workflow email events can be replayed''
      else case actions of
             None \<Rightarrow> Some ''The immutable workflow email action snapshot is invalid and cannot be replayed''
           | Some as \<Rightarrow>
               if normalizeEmail requesterEmail = '''' \<or> (\<exists>a \<in> set as. sn_to a \<noteq> normalizeEmail requesterEmail)
               then Some ''Requester email changed or is unavailable; this workflow email event cannot be replayed''
               else None)"

record event_view =
  vw_event :: workflow_event
  vw_actions :: "action_snapshot list"
  vw_snapshotValid :: bool
  vw_replayAllowed :: bool
  vw_replayBlockReason :: "string option"

definition requester_of :: "nat \<Rightarrow> db \<Rightarrow> string" where
  "requester_of ticketId d = (case ticket_by_id ticketId d of None \<Rightarrow> '''' | Some t \<Rightarrow> t_requesterEmail t)"

definition getOperatorEvent :: "actor \<Rightarrow> nat \<Rightarrow> event_view act_db" where
  "getOperatorEvent a i =
     bnd (reads (\<lambda>d. (find_row (\<lambda>e. e_id e = i \<and> operatorEventWhere a d e) (wf_events d), d))) (\<lambda>(z, d).
       case z of
         None \<Rightarrow> throw (NotFound ''Workflow email event not found'')
       | Some e \<Rightarrow>
           (let actions = parseActionSnapshot (e_actions e);
                block = replayBlockReason (e_state e) actions (requester_of (e_ticketId e) d)
            in ret \<lparr>vw_event = e, vw_actions = (case actions of None \<Rightarrow> [] | Some as \<Rightarrow> as), vw_snapshotValid = (actions \<noteq> None),
                    vw_replayAllowed = (block = None), vw_replayBlockReason = block\<rparr>))"

text \<open>The dash in the audit text is written as an ASCII hyphen.\<close>

definition replayOperatorEvent :: "env \<Rightarrow> actor \<Rightarrow> nat \<Rightarrow> time \<Rightarrow> string \<Rightarrow> unit act_db" where
  "replayOperatorEvent env a i expectedUpdatedAt reason =
     txn (bnd (reads (\<lambda>d. (find_row (\<lambda>e. e_id e = i \<and> operatorEventWhere a d e) (wf_events d), d))) (\<lambda>(z, d).
       case z of
         None \<Rightarrow> throw (NotFound ''Workflow email event not found'')
       | Some current \<Rightarrow>
           sq (require (e_state current = EQuarantined) (Conflict ''Only quarantined workflow email events can be replayed''))
          (sq (require (e_updatedAt current = expectedUpdatedAt) (Conflict ''Workflow email event changed; refresh before replaying''))
          (case replayBlockReason (e_state current) (parseActionSnapshot (e_actions current)) (requester_of (e_ticketId current) d) of
             Some block \<Rightarrow> throw (BadRequest block)
           | None \<Rightarrow>
               bnd (\<lambda>d. update_events (\<lambda>e. e_id e = i \<and> e_state e = EQuarantined \<and> e_updatedAt e = expectedUpdatedAt \<and> operatorEventWhere a d e)
                      (\<lambda>e. e\<lparr>e_state := EPending, e_attempts := 0, e_nextAttemptAt := None, e_leaseOwner := None,
                            e_leaseExpiresAt := None, e_leaseVersion := Suc (e_leaseVersion e), e_lastError := None,
                            e_processedAt := None, e_updatedAt := en_now env\<rparr>) d) (\<lambda>count.
               sq (require (count = 1) (Conflict ''Workflow email event changed; refresh before replaying''))
                 (sq (writeAudit (e_ticketId current) ''WORKFLOW_EMAIL_REPLAY'' (Some (ac_staffId a)) ByStaff
                       (Some ''workflowEmailEventId'')
                       (Some (case e_lastError current of Some m \<Rightarrow> take 500 m | None \<Rightarrow> ''QUARANTINED''))
                       (Some (take 500 (''PENDING - '' @ reason))))
                    (ret ())))))))"

section \<open>Health\<close>

record event_health =
  he_pending :: nat
  he_processing :: nat
  he_retry :: nat
  he_quarantined :: nat
  he_processed :: nat
  he_backlog :: nat
  he_stalledProcessing :: nat
  he_oldestPendingAt :: "time option"
  he_lastProcessedAt :: "time option option"
  he_alerts :: "(string \<times> string) list"   \<comment> \<open>severity and kind\<close>

definition WORKFLOW_EVENT_STALE_MS :: int where
  "WORKFLOW_EVENT_STALE_MS = 15 * 60000"

definition nulls_first :: "time option \<Rightarrow> time option \<Rightarrow> bool" where
  "nulls_first x y = (case (x, y) of (None, _) \<Rightarrow> True | (Some _, None) \<Rightarrow> False | (Some s, Some t) \<Rightarrow> t \<le> s)"

text \<open>The first row of a descending order, where \<open>null\<close> sorts before every date.\<close>

fun first_desc :: "time option list \<Rightarrow> time option option" where
  "first_desc [] = None"
| "first_desc (x # xs) = (case first_desc xs of None \<Rightarrow> Some x | Some y \<Rightarrow> Some (if nulls_first x y then x else y))"

definition healthForWhere :: "(workflow_event \<Rightarrow> bool) \<Rightarrow> time \<Rightarrow> db \<Rightarrow> event_health" where
  "healthForWhere p now d =
     (let es = filter p (wf_events d);
          number = (\<lambda>st. count_rows (\<lambda>e. e_state e = st) es);
          waiting = filter (\<lambda>e. e_state e \<in> {EPending, ERetry}) es;
          oldest = (case sort_key e_createdAt waiting of [] \<Rightarrow> None | e # _ \<Rightarrow> Some (e_createdAt e));
          stalled = count_rows (\<lambda>e. e_state e = EProcessing \<and> (case e_leaseExpiresAt e of None \<Rightarrow> False | Some t \<Rightarrow> t < now)) es
      in \<lparr>he_pending = number EPending, he_processing = number EProcessing, he_retry = number ERetry,
          he_quarantined = number EQuarantined, he_processed = number EProcessed,
          he_backlog = number EPending + number ERetry, he_stalledProcessing = stalled, he_oldestPendingAt = oldest,
          he_lastProcessedAt = first_desc (map e_processedAt (filter (\<lambda>e. e_state e = EProcessed) es)),
          he_alerts =
            (if number EQuarantined > 0 then [(''warning'', ''workflow_email_quarantine'')] else []) @
            (if stalled > 0 then [(''warning'', ''workflow_email_stalled'')] else []) @
            (if number ERetry > 0 then [(''warning'', ''workflow_email_retry'')] else []) @
            (case oldest of None \<Rightarrow> []
             | Some t \<Rightarrow> if now - t > WORKFLOW_EVENT_STALE_MS then [(''critical'', ''workflow_email_aged_backlog'')] else [])\<rparr>)"

section \<open>The event lease\<close>

definition event_token :: "workflow_event \<Rightarrow> string option" where
  "event_token e = (if e_state e = EProcessing then e_leaseOwner e else None)"

lemma owns_event_token: "owns_event i w e \<longleftrightarrow> e_id e = i \<and> event_token e = Some w"
  by (auto simp: owns_event_def event_token_def)

definition settle_event :: "(workflow_event \<Rightarrow> workflow_event) \<Rightarrow> nat \<Rightarrow> string \<Rightarrow> db \<Rightarrow> db" where
  "settle_event f i w d = final (update_events (owns_event i w) f) d"

interpretation event_lease: lease_fence wf_events e_id event_token "end_lease st err now" "settle_event (end_lease st err now)"
  for st err now
proof unfold_locales
  fix i tk d r
  show "wf_events (settle_event (end_lease st err now) i tk d) =
      map (\<lambda>e. if e_id e = i \<and> event_token e = Some tk then end_lease st err now e else e) (wf_events d)"
    by (simp add: settle_event_def final_def update_events_def update_rows_def owns_event_token)
qed (simp_all add: end_lease_def event_token_def)

text \<open>
  A worker whose lease on an event was taken over cannot quarantine it any more: when no row
  still carries its owner token, the write changes nothing.
\<close>

theorem quarantine_needs_lease:
  assumes "\<forall>e \<in> set (wf_events d). e_id e = i \<longrightarrow> event_token e \<noteq> Some w"
  shows "quarantine i w reason now d = (Inr (), d)"
proof -
  have "wf_events (settle_event (end_lease EQuarantined (Some (take 500 reason)) now) i w d) = wf_events d"
    by (rule event_lease.lost_lease [OF assms])
  then show ?thesis
    by (simp add: quarantine_def act_defs update_events_def settle_event_def final_def)
qed

theorem quarantine_needs_lease_witness:
  "quarantine 0 ''w'' ''x'' 5 empty_db = (Inr (), empty_db)"
  by (rule quarantine_needs_lease) (simp add: empty_db_def)

section \<open>Mail commands of an event\<close>

text \<open>The outbox only grows; nothing else changes.\<close>

definition outbox_grows :: "db \<Rightarrow> db \<Rightarrow> bool" where
  "outbox_grows d d' \<longleftrightarrow>
     (\<exists>rs. d' = d\<lparr>outbox := outbox d @ rs, seq_outbox := seq_outbox d + length rs\<rparr>)"

lemma outbox_growsI: "d' = d\<lparr>outbox := outbox d @ rs, seq_outbox := seq_outbox d + length rs\<rparr> \<Longrightarrow> outbox_grows d d'"
  by (auto simp: outbox_grows_def)

interpretation growth: frame outbox_grows
proof unfold_locales
  show "outbox_grows d d" for d
    by (rule outbox_growsI [where rs = "[]"]) simp
  show "outbox_grows d d'" if "outbox_grows d e" "outbox_grows e d'" for d e d'
    using that unfolding outbox_grows_def by (elim exE) (rule_tac x = "rs @ rsa" in exI, simp)
qed

lemma insert_outbound_grows: "growth.stays (insert_outbound r)"
  unfolding growth.stays_def
proof
  fix d
  show "outbox_grows d (snd (insert_outbound r d))"
    using outbox_growsI [where rs = "[r\<lparr>o_id := seq_outbox d\<rparr>]" and d = d] growth.frame_refl [of d]
    by (simp add: insert_outbound_def)
qed

lemma assertWorkflow_stays: "growth.stays (assertWorkflowTicketEmailIdentity r input to body)"
  unfolding assertWorkflowTicketEmailIdentity_def by (intro growth.stays_intros)

lemma error_case_stays:
  "(\<And>m. growth.stays (f m)) \<Longrightarrow> growth.stays g \<Longrightarrow> growth.stays (case err of UniqueViolation m \<Rightarrow> f m | _ \<Rightarrow> g)"
  by (cases err) simp_all

lemma createWorkflow_stays: "growth.stays (createWorkflowTicketEmail cfg uuid now input)"
  unfolding createWorkflowTicketEmail_def Let_def
  by (intro growth.stays_intros insert_outbound_grows assertWorkflow_stays error_case_stays)

text \<open>The row an action asks for.\<close>

definition mail_queued :: "workflow_mail_input \<Rightarrow> nat \<Rightarrow> db \<Rightarrow> bool" where
  "mail_queued input i d \<longleftrightarrow>
     (\<exists>r \<in> set (outbox d). o_id r = i \<and> o_idempotencyKey r = Some (wi_idempotencyKey input) \<and>
        o_ticketId r = Some (wi_ticketId input) \<and> o_kind r = WorkflowMail \<and> o_subject r = wi_subject input \<and>
        o_textBody r = trim (wi_text input) \<and> one_recipient (o_recipients r) (normalizeEmail (wi_to input)))"

lemma mail_queued_grows: "mail_queued input i d \<Longrightarrow> outbox_grows d d' \<Longrightarrow> mail_queued input i d'"
  by (auto simp: mail_queued_def outbox_grows_def)

lemma assertWorkflow_Inr:
  "assertWorkflowTicketEmailIdentity r input to body d = (Inr i, d') \<longleftrightarrow>
   d' = d \<and> i = o_id r \<and> o_ticketId r = Some (wi_ticketId input) \<and> o_postId r = None \<and> o_kind r = WorkflowMail \<and>
   o_subject r = wi_subject input \<and> o_htmlBody r = textToSafeHtml body \<and> o_textBody r = body \<and> one_recipient (o_recipients r) to"
  by (auto simp: assertWorkflowTicketEmailIdentity_def act_defs)

text \<open>The guards of the command and the state check inside its transaction.\<close>

definition workflow_mail_ok :: "workflow_mail_input \<Rightarrow> db \<Rightarrow> bool" where
  "workflow_mail_ok input d \<longleftrightarrow>
     normalizeEmail (wi_to input) \<noteq> '''' \<and> trim (wi_text input) \<noteq> '''' \<and> length (trim (wi_text input)) \<le> 50000 \<and>
     wi_idempotencyKey input \<noteq> '''' \<and> length (wi_idempotencyKey input) \<le> 255 \<and>
     (case ticket_by_id (wi_ticketId input) d of None \<Rightarrow> False
      | Some t \<Rightarrow> t_requesterEmail t \<noteq> '''' \<and> normalizeEmail (t_requesterEmail t) = normalizeEmail (wi_to input))"

lemma createWorkflow_found:
  assumes "outbound_by_key (wi_idempotencyKey input) d = Some r"
  shows "createWorkflowTicketEmail cfg uuid now input d = (Inr i, d') \<longleftrightarrow> workflow_mail_ok input d \<and>
    assertWorkflowTicketEmailIdentity r input (normalizeEmail (wi_to input)) (trim (wi_text input)) d = (Inr i, d')"
proof -
  have a: "assertWorkflowTicketEmailIdentity r input to body d \<in> {(Inr (o_id r), d),
      (Inl (Failure ''Workflow email idempotency key conflicts with another command''), d)}" for to body
    by (simp add: assertWorkflowTicketEmailIdentity_def act_defs)
  show ?thesis
    using assms a [of "normalizeEmail (wi_to input)" "trim (wi_text input)"]
    by (auto simp: createWorkflowTicketEmail_def workflow_mail_ok_def Let_def act_defs split: option.splits)
qed

lemma createWorkflow_new:
  assumes none: "outbound_by_key (wi_idempotencyKey input) d = None"
    and run: "createWorkflowTicketEmail cfg uuid now input d = (Inr i, d')"
  shows "workflow_mail_ok input d \<and> i = seq_outbox d \<and>
    d' = d\<lparr>outbox := outbox d @ [(workflow_outbound cfg uuid now input (normalizeEmail (wi_to input)) (trim (wi_text input)))\<lparr>o_id := i\<rparr>],
      seq_outbox := Suc (seq_outbox d)\<rparr>"
proof -
  let ?row = "workflow_outbound cfg uuid now input (normalizeEmail (wi_to input)) (trim (wi_text input))"
  have "workflow_mail_ok input d"
    using none run
    by (auto simp: createWorkflowTicketEmail_def workflow_mail_ok_def Let_def act_defs split: option.splits if_splits)
  moreover from this have "createWorkflowTicketEmail cfg uuid now input d =
      catch_act (txn (insert_outbound ?row)) (\<lambda>err. case err of
            UniqueViolation _ \<Rightarrow>
              bnd (reads (outbound_by_key (wi_idempotencyKey input))) (\<lambda>winner.
                case winner of
                  None \<Rightarrow> throw err
                | Some r \<Rightarrow> assertWorkflowTicketEmailIdentity r input (normalizeEmail (wi_to input)) (trim (wi_text input)))
          | _ \<Rightarrow> throw err) d"
    using none
    by (auto simp: createWorkflowTicketEmail_def workflow_mail_ok_def Let_def act_defs split: option.splits)
  moreover have "insert_outbound ?row d = (Inr i, d')"
  proof (cases "insert_outbound ?row d")
    case (Pair x d1)
    then show ?thesis
      using run calculation(2) none
      by (cases x) (auto simp: catch_act_def txn_def bnd_def reads_def throw_def split: error.splits)
  qed
  ultimately show ?thesis by (auto dest!: insert_outbound_Inr)
qed

lemma workflow_outbound_matches:
  assumes "workflow_mail_ok input d"
  shows "o_idempotencyKey (workflow_outbound cfg uuid now input to body) = Some (wi_idempotencyKey input)"
    "o_ticketId (workflow_outbound cfg uuid now input to body) = Some (wi_ticketId input)"
    "o_postId (workflow_outbound cfg uuid now input to body) = None"
    "o_kind (workflow_outbound cfg uuid now input to body) = WorkflowMail"
    "o_subject (workflow_outbound cfg uuid now input to body) = wi_subject input"
    "o_htmlBody (workflow_outbound cfg uuid now input to body) = textToSafeHtml body"
    "o_textBody (workflow_outbound cfg uuid now input to body) = body"
    "o_recipients (workflow_outbound cfg uuid now input to body) = [(to, TO)]"
  by (simp_all add: workflow_outbound_def new_outbound_def)

lemma lower_idem: "lower (lower s) = lower s"
proof -
  have "lower_char (lower_char c) = lower_char c" for c
    by (simp add: lower_char_def code_of_def Let_def)
  then show ?thesis by (simp add: lower_def)
qed

lemma is_ascii_space_lower: "is_ascii_space (lower_char c) = is_ascii_space c"
  by (auto simp: is_ascii_space_def lower_char_def code_of_def Let_def)

lemma dropWhile_map_space: "dropWhile is_ascii_space (map lower_char s) = map lower_char (dropWhile is_ascii_space s)"
  by (induction s) (simp_all add: is_ascii_space_lower)

lemma trim_by_idem: "trim_by sp (trim_by sp s) = trim_by sp s"
proof -
  let ?u = "dropWhile sp s"
  have drop: "dropWhile sp (dropWhile sp xs) = dropWhile sp xs" for xs :: string
    by (induction xs) auto
  have pre: "dropWhile sp (rev (dropWhile sp (rev xs))) = rev (dropWhile sp (rev xs))"
    if "xs = [] \<or> \<not> sp (hd xs)" for xs :: string
  proof (cases "rev (dropWhile sp (rev xs))")
    case Nil
    then show ?thesis by (simp only: Nil dropWhile.simps)
  next
    case (Cons c cs)
    have "\<exists>ys. xs = rev (dropWhile sp (rev xs)) @ ys"
      by (metis rev_append rev_rev_ident takeWhile_dropWhile_id)
    with Cons that have "\<not> sp c" by auto
    with Cons show ?thesis by simp
  qed
  have "?u = [] \<or> \<not> sp (hd ?u)"
    by (metis hd_dropWhile)
  then show ?thesis
    by (simp add: trim_by_def pre drop)
qed

lemma normalizeEmail_idem: "normalizeEmail (normalizeEmail s) = normalizeEmail s"
proof -
  have "trim_by is_ascii_space (lower t) = lower (trim_by is_ascii_space t)" for t
    by (simp add: trim_by_def lower_def dropWhile_map_space rev_map)
  then show ?thesis
    by (simp add: normalizeEmail_def lower_idem trim_by_idem)
qed

lemma createWorkflow_queued:
  assumes "createWorkflowTicketEmail cfg uuid now input d = (Inr i, d')"
  shows "mail_queued input i d'"
proof (cases "outbound_by_key (wi_idempotencyKey input) d")
  case None
  from createWorkflow_new [OF None assms] show ?thesis
    by (auto simp: mail_queued_def workflow_outbound_def new_outbound_def one_recipient_def normalizeEmail_idem)
next
  case (Some r)
  then show ?thesis
    using assms createWorkflow_found [OF Some] outbound_by_key_Some [OF Some]
    by (auto simp: assertWorkflow_Inr mail_queued_def)
qed

text \<open>
  A workflow mail command is idempotent. Once the command for an action succeeded, a repeated
  event delivery (a retry, a second worker, a replay) finds the same outbox row and adds none, and
  the row carries the subject, text and recipient of the snapshot.
\<close>

theorem workflow_mail_idempotent:
  assumes "createWorkflowTicketEmail cfg uuid now input d = (Inr i, d')"
  shows "createWorkflowTicketEmail cfg uuid' now' input d' = (Inr i, d') \<and> mail_queued input i d'"
proof
  show "mail_queued input i d'" by (rule createWorkflow_queued [OF assms])
  show "createWorkflowTicketEmail cfg uuid' now' input d' = (Inr i, d')"
  proof (cases "outbound_by_key (wi_idempotencyKey input) d")
    case None
    let ?row = "(workflow_outbound cfg uuid now input (normalizeEmail (wi_to input)) (trim (wi_text input)))\<lparr>o_id := i\<rparr>"
    have n: "workflow_mail_ok input d" "i = seq_outbox d"
      "d' = d\<lparr>outbox := outbox d @ [?row], seq_outbox := Suc (seq_outbox d)\<rparr>"
      using createWorkflow_new [OF None assms] by auto
    have "outbound_by_key (wi_idempotencyKey input) d' = Some ?row"
      using None n by (simp add: outbound_by_key_def find_row_append workflow_outbound_def)
    moreover have "workflow_mail_ok input d'"
      using n by (simp add: workflow_mail_ok_def ticket_by_id_def)
    ultimately show ?thesis
      by (simp add: createWorkflow_found assertWorkflow_Inr workflow_outbound_def new_outbound_def one_recipient_def normalizeEmail_idem)
  next
    case (Some r)
    then show ?thesis using assms createWorkflow_found [OF Some] by (simp add: assertWorkflow_Inr)
  qed
qed

definition sample_mail :: workflow_mail_input where
  "sample_mail = \<lparr>wi_ticketId = 2, wi_to = ''a@b.c'', wi_subject = ''S'', wi_text = ''Hi'', wi_idempotencyKey = ''k''\<rparr>"

definition mail_db :: db where
  "mail_db = empty_db\<lparr>tickets := [(sample_ticket 2 10)\<lparr>t_requesterEmail := ''a@b.c''\<rparr>]\<rparr>"

lemma sample_mail_created: "\<exists>d'. createWorkflowTicketEmail plain_config ''u'' 0 sample_mail mail_db = (Inr 0, d')"
proof -
  have k: "outbound_by_key ''k'' mail_db = None"
    by (simp add: outbound_by_key_def mail_db_def empty_db_def)
  have t: "ticket_by_id 2 mail_db = Some ((sample_ticket 2 10)\<lparr>t_requesterEmail := ''a@b.c''\<rparr>)"
    by (simp add: ticket_by_id_def mail_db_def sample_ticket_def)
  have i: "insert_outbound r mail_db = (Inr 0, mail_db\<lparr>outbox := [r\<lparr>o_id := 0\<rparr>], seq_outbox := 1\<rparr>)"
    if "o_ticketId r = Some 2" "o_recipients r = [x]" for r x
    using that by (simp add: insert_outbound_def mail_db_def empty_db_def sample_ticket_def opt_in_def)
  have tr: "trim ''Hi'' = ''Hi''"
    by (simp add: trim_def trim_by_def is_space_def code_of_def)
  show ?thesis
    by (simp add: createWorkflowTicketEmail_def sample_mail_def Let_def act_defs k t i tr plain_address
        workflow_outbound_def new_outbound_def)
qed

theorem workflow_mail_idempotent_witness:
  "\<exists>d'. createWorkflowTicketEmail plain_config ''v'' 9 sample_mail d' = (Inr 0, d')"
  using sample_mail_created workflow_mail_idempotent by blast

section \<open>A processed event\<close>

lemma outbox_grows_set: "outbox_grows d d' \<Longrightarrow> set (outbox d) \<subseteq> set (outbox d')"
  by (auto simp: outbox_grows_def)

lemma mail_queued_mono: "mail_queued input i d \<Longrightarrow> set (outbox d) \<subseteq> set (outbox d') \<Longrightarrow> mail_queued input i d'"
  by (auto simp: mail_queued_def)

lemma send_action_Inr:
  assumes "send_action env e w a d = (Inr i, d')"
  shows "mail_queued (workflow_mail_of e a) i d' \<and> set (outbox d) \<subseteq> set (outbox d')"
proof -
  obtain d1 where h: "heartbeat_event (e_id e) w (en_now env) d = (Inr (), d1)"
    and c: "createWorkflowTicketEmail (en_mail env) (en_uuid env (seq_outbox d1)) (en_now env) (workflow_mail_of e a) d1 = (Inr i, d')"
    using assms by (auto simp: send_action_def act_defs split: prod.splits sum.splits)
  have "outbox d1 = outbox d"
    using h by (auto simp: heartbeat_event_def act_defs update_events_def split: if_splits)
  moreover have "outbox_grows d1 d'"
    using growth.staysD [OF createWorkflow_stays c] .
  ultimately show ?thesis
    using createWorkflow_queued [OF c] outbox_grows_set [of d1 d'] by simp
qed

lemma each_send_action:
  "each (send_action env e w) actions d = (Inr ids, d') \<Longrightarrow>
   set (outbox d) \<subseteq> set (outbox d') \<and> list_all2 (\<lambda>a i. mail_queued (workflow_mail_of e a) i d') actions ids"
proof (induction actions arbitrary: d ids)
  case Nil
  then show ?case by (simp add: ret_def)
next
  case (Cons a as)
  then obtain i d1 is' where s: "send_action env e w a d = (Inr i, d1)"
    and r: "each (send_action env e w) as d1 = (Inr is', d')" "ids = i # is'"
    by (auto simp: bnd_def ret_def split: prod.splits sum.splits)
  from send_action_Inr [OF s] Cons.IH [OF r(1)] r(2) show ?case
    by (auto intro: mail_queued_mono)
qed

lemma run_event_Inr:
  assumes "run_event env e w d = (Inr ids, d')" "ids \<noteq> []"
  shows "\<exists>actions d1. parseActionSnapshot (e_actions e) = Some actions \<and>
    (\<forall>a \<in> set actions. sn_to a = current_requester (e_ticketId e) d) \<and>
    list_all2 (\<lambda>a i. mail_queued (workflow_mail_of e a) i d') actions ids \<and>
    mark_processed (e_id e) w (en_now env) d1 = (Inr 1, d')"
proof -
  obtain actions where p: "parseActionSnapshot (e_actions e) = Some actions"
    using assms by (auto simp: run_event_def act_defs quarantine_def update_events_def split: option.splits)
  have to: "current_requester (e_ticketId e) d \<noteq> ''''" "\<forall>a \<in> set actions. sn_to a = current_requester (e_ticketId e) d"
    using assms p by (auto simp: run_event_def act_defs quarantine_def update_events_def split: if_splits)
  obtain ids' d1 count where s: "each (send_action env e w) actions d = (Inr ids', d1)"
    and m: "mark_processed (e_id e) w (en_now env) d1 = (Inr count, d')" and i: "ids = (if count = 1 then ids' else [])"
    using assms(1) p to by (auto simp: run_event_def bnd_def reads_def ret_def split: prod.splits sum.splits)
  have "count = 1" "ids' = ids" using i assms(2) by (auto split: if_splits)
  moreover have "outbox d' = outbox d1" using m by (auto simp: mark_processed_def update_events_def)
  ultimately show ?thesis
    using p to(2) m each_send_action [OF s]
    by (auto intro!: list.rel_mono_strong elim!: list_all2_mono simp: mail_queued_def)
qed


section \<open>Reading a snapshot back\<close>

definition snapshot_ok :: "action_snapshot \<Rightarrow> bool" where
  "snapshot_ok a \<longleftrightarrow>
     \<bar>sn_workflowId a\<bar> \<le> 9007199254740991 \<and> \<bar>sn_workflowVersionMs a\<bar> \<le> 9007199254740991 \<and>
     \<bar>sn_actionIndex a\<bar> \<le> 9007199254740991 \<and> sn_to a \<noteq> '''' \<and> length (sn_to a) \<le> 320 \<and>
     CHR 0x0D \<notin> set (sn_to a) \<and> CHR 0x0A \<notin> set (sn_to a) \<and> normalizeEmail (sn_to a) = sn_to a \<and>
     trim (sn_text a) \<noteq> '''' \<and> length (sn_text a) \<le> MAX_WORKFLOW_EMAIL_TEXT_CHARS"

lemma parse_snapshot_js: "snapshot_ok a \<Longrightarrow> parse_snapshot (snapshot_js a) = Some a"
  by (auto simp: snapshot_ok_def parse_snapshot_def snapshot_js_def safe_integer_def)

lemma parse_snapshots_js:
  "\<forall>a \<in> set as. snapshot_ok a \<Longrightarrow> distinct (map action_key as) \<Longrightarrow> set keys \<inter> action_key ` set as = {} \<Longrightarrow>
   parse_snapshots keys (map snapshot_js as) = Some as"
  by (induction as arbitrary: keys) (auto simp: parse_snapshot_js)

lemma nat_str_no_colon: "CHR '':'' \<notin> set (nat_str n)"
  using nat_str_digits [of n] by (auto simp: list_all_iff is_digit_def code_of_def)

lemma int_str_no_colon: "CHR '':'' \<notin> set (int_str i)"
  using nat_str_no_colon by (auto simp: int_str_def)

lemma int_str_inject: "int_str i = int_str j \<Longrightarrow> i = j"
proof -
  have no_minus: "hd (nat_str n) \<noteq> CHR ''-''" for n
  proof -
    have "hd (nat_str n) \<in> set (nat_str n)" by simp
    with nat_str_digits [of n] have "is_digit (hd (nat_str n))" by (simp add: list_all_iff)
    then show ?thesis by (auto simp: is_digit_def code_of_def)
  qed
  assume "int_str i = int_str j"
  then show ?thesis
    using no_minus [of "nat i"] no_minus [of "nat j"]
    by (auto simp: int_str_def split: if_splits) (metis list.sel(1))+
qed

lemma colon_split:
  "CHR '':'' \<notin> set a \<Longrightarrow> CHR '':'' \<notin> set b \<Longrightarrow> a @ '':'' @ x = b @ '':'' @ y \<Longrightarrow> a = b \<and> x = y"
proof (induction a arbitrary: b)
  case Nil
  then show ?case by (cases b) auto
next
  case (Cons c a)
  then show ?case by (cases b) auto
qed

lemma action_key_inject:
  "action_key a = action_key b \<Longrightarrow>
   sn_workflowId a = sn_workflowId b \<and> sn_workflowVersionMs a = sn_workflowVersionMs b \<and> sn_actionIndex a = sn_actionIndex b"
  unfolding action_key_def by (metis colon_split int_str_no_colon int_str_inject)

text \<open>The good actions of a rule, in order of their index.\<close>

definition good_actions :: "chain_step \<Rightarrow> (nat \<times> string) list" where
  "good_actions st = List.map_filter (\<lambda>(ix, z). map_option (Pair ix) z) (send_email_actions (w_actions (cs_workflow st)))"

lemma send_email_indices: "distinct (map fst (send_email_actions v))"
proof -
  have "sorted_wrt (<) (map fst (List.map_filter (\<lambda>(ix, raw). if P raw then Some (ix, f raw) else None) (List.enumerate n raws))) \<and>
      (\<forall>x \<in> set (List.map_filter (\<lambda>(ix, raw). if P raw then Some (ix, f raw) else None) (List.enumerate n raws)). n \<le> fst x)"
    for P and f :: "js \<Rightarrow> string option" and n raws
  proof (induction raws arbitrary: n)
    case (Cons a raws)
    then show ?case
      using Cons [of "Suc n"] by (auto simp: List.map_filter_simps Suc_le_eq less_imp_le)
  qed (simp add: List.map_filter_simps)
  from this [THEN conjunct1] show ?thesis
    by (cases v) (simp_all add: send_email_actions_def strict_sorted_iff)
qed

lemma map_filter_indices:
  "map fst (List.map_filter (\<lambda>(ix, z). map_option (Pair ix) z) xs) = map fst (filter (\<lambda>x. snd x \<noteq> None) xs)"
  by (induction xs) (auto simp: List.map_filter_simps)

lemma good_actions_distinct: "distinct (map fst (good_actions st))"
  unfolding good_actions_def map_filter_indices by (rule distinct_map_filter [OF send_email_indices])

lemma workflowEmailText_Some: "workflowEmailText a = Some s \<Longrightarrow> s \<noteq> '''' \<and> length s \<le> MAX_WORKFLOW_EMAIL_TEXT_CHARS \<and> trim s = s"
  by (auto simp: workflowEmailText_def or_string_def js_string_of_def Let_def trim_def trim_by_idem
      split: if_splits js.splits)

lemma good_actions_text:
  "(ix, s) \<in> set (good_actions st) \<Longrightarrow> s \<noteq> '''' \<and> length s \<le> MAX_WORKFLOW_EMAIL_TEXT_CHARS \<and> trim s = s"
proof -
  assume "(ix, s) \<in> set (good_actions st)"
  then have "(ix, Some s) \<in> set (send_email_actions (w_actions (cs_workflow st)))"
    by (auto simp: good_actions_def List.map_filter_def)
  then obtain raw where "workflowEmailText raw = Some s"
    by (auto simp: send_email_actions_def List.map_filter_def split: js.splits if_splits)
  then show ?thesis by (rule workflowEmailText_Some)
qed

lemma good_actions_index:
  assumes "(ix, s) \<in> set (good_actions st)"
  shows "\<exists>raws. w_actions (cs_workflow st) = JArr raws \<and> ix < length raws"
proof -
  have "(ix, Some s) \<in> set (send_email_actions (w_actions (cs_workflow st)))"
    using assms by (auto simp: good_actions_def List.map_filter_def)
  then show ?thesis
    by (cases "w_actions (cs_workflow st)")
       (auto simp: send_email_actions_def List.map_filter_def in_set_enumerate_eq split: if_splits)
qed

text \<open>The snapshots of a chain: those of some of its rules, in order, at most fifty in all.\<close>

definition contributed :: "string \<Rightarrow> ticket \<Rightarrow> chain_step list \<Rightarrow> action_snapshot list" where
  "contributed recipient ticket steps =
     concat (map (\<lambda>st. map (action_snapshot_of recipient ticket (cs_workflow st)) (good_actions st)) steps)"

lemma snapshot_step_cases:
  "fst (snapshot_step r t st (ss, iv)) = ss \<or>
   (fst (snapshot_step r t st (ss, iv)) = ss @ map (action_snapshot_of r t (cs_workflow st)) (good_actions st) \<and>
    length ss + length (good_actions st) \<le> MAX_WORKFLOW_EMAIL_ACTIONS)"
  by (auto simp: snapshot_step_def Let_def good_actions_def)

lemma fold_snapshot_step:
  "length (fst acc) \<le> MAX_WORKFLOW_EMAIL_ACTIONS \<Longrightarrow>
   \<exists>taken. subseq taken steps \<and> fst (fold (snapshot_step r t) steps acc) = fst acc @ contributed r t taken \<and>
     length (fst (fold (snapshot_step r t) steps acc)) \<le> MAX_WORKFLOW_EMAIL_ACTIONS"
proof (induction steps arbitrary: acc)
  case Nil
  then show ?case by (intro exI [of _ "[]"]) (simp add: contributed_def)
next
  case (Cons st steps)
  let ?acc = "snapshot_step r t st acc"
  have c: "fst ?acc = fst acc \<or> (fst ?acc = fst acc @ map (action_snapshot_of r t (cs_workflow st)) (good_actions st) \<and>
      length (fst acc) + length (good_actions st) \<le> MAX_WORKFLOW_EMAIL_ACTIONS)"
    using snapshot_step_cases [of r t st "fst acc" "snd acc"] by simp
  then have "length (fst ?acc) \<le> MAX_WORKFLOW_EMAIL_ACTIONS" using Cons.prems by auto
  from Cons.IH [OF this] obtain taken where taken: "subseq taken steps"
    "fst (fold (snapshot_step r t) steps ?acc) = fst ?acc @ contributed r t taken"
    "length (fst (fold (snapshot_step r t) steps ?acc)) \<le> MAX_WORKFLOW_EMAIL_ACTIONS"
    by blast
  from c show ?case
  proof
    assume "fst ?acc = fst acc"
    with taken show ?thesis by (intro exI [of _ taken]) (auto intro: subseq_Cons')
  next
    assume "fst ?acc = fst acc @ map (action_snapshot_of r t (cs_workflow st)) (good_actions st) \<and>
      length (fst acc) + length (good_actions st) \<le> MAX_WORKFLOW_EMAIL_ACTIONS"
    with taken show ?thesis by (intro exI [of _ "st # taken"]) (auto simp: contributed_def)
  qed
qed

lemma subseq_set: "subseq xs ys \<Longrightarrow> set xs \<subseteq> set ys"
  by (induction rule: list_emb.induct) auto

lemma subseq_distinct: "subseq xs ys \<Longrightarrow> distinct ys \<Longrightarrow> distinct xs"
  by (induction rule: list_emb.induct) (auto dest: subseq_set)

lemma rule_chain_rules: "rule_chain h can t ws = Inr steps \<Longrightarrow> subseq (map cs_workflow steps) ws"
  by (induction ws arbitrary: t steps) (auto simp: Let_def split: sum.splits bool.splits intro: subseq_Cons')

lemma contributed_keys:
  assumes "distinct (map (w_id \<circ> cs_workflow) steps)"
  shows "distinct (map action_key (contributed r t steps))"
  using assms
proof (induction steps)
  case Nil
  show ?case by (simp add: contributed_def)
next
  case (Cons st steps)
  let ?own = "map (action_snapshot_of r t (cs_workflow st)) (good_actions st)"
  have "inj_on action_key (set ?own)"
    by (rule inj_onI) (auto simp: action_snapshot_of_def dest!: action_key_inject
        dest: eq_key_imp_eq_value [OF good_actions_distinct])
  moreover have "distinct ?own"
    using good_actions_distinct [of st]
    by (auto simp: distinct_map inj_on_def action_snapshot_of_def)
  ultimately have own: "distinct (map action_key ?own)"
    by (simp only: distinct_map)
  have "action_key a \<noteq> action_key b" if "a \<in> set ?own" "b \<in> set (contributed r t steps)" for a b
  proof
    assume "action_key a = action_key b"
    from action_key_inject [OF this] that have "w_id (cs_workflow st) \<in> (w_id \<circ> cs_workflow) ` set steps"
      by (auto simp: contributed_def action_snapshot_of_def)
    with Cons.prems show False by simp
  qed
  then have "action_key ` set ?own \<inter> action_key ` set (contributed r t steps) = {}" by blast
  moreover have "contributed r t (st # steps) = ?own @ contributed r t steps"
    by (simp add: contributed_def)
  ultimately show ?case using Cons own by (simp add: image_comp comp_def)
qed


definition mail_rule :: workflow where
  "mail_rule = sample_rule 2 10 (JArr []) (JArr [JObj [(''type'', JStr ''send_email''), (''note'', JStr ''Hi'')]])"

definition rule_db :: db where
  "rule_db = mail_db\<lparr>workflows := [mail_rule]\<rparr>"

definition mail_ticket :: ticket where
  "mail_ticket = (sample_ticket 2 10)\<lparr>t_requesterEmail := ''a@b.c''\<rparr>"

definition mail_snapshot :: action_snapshot where
  "mail_snapshot = \<lparr>sn_workflowId = 2, sn_workflowVersionMs = 0, sn_actionIndex = 0, sn_to = ''a@b.c'',
     sn_subject = ''[] Subject'', sn_text = ''Hi''\<rparr>"

lemma trim_Hi: "trim ''Hi'' = ''Hi''" "trim [] = []"
  by (simp_all add: trim_def trim_by_def is_space_def code_of_def)

lemma rule_db_snapshot: "snapshotWorkflowEmailActions sample_host mail_ticket rule_db = Inr ([mail_snapshot], [])"
proof -
  have "ordered_rules (filter w_isEnabled (workflows rule_db)) = [mail_rule]"
    by (simp add: ordered_rules_def rule_db_def mail_rule_def sample_rule_def)
  then have c: "projectWorkflowRuleChain sample_host can mail_ticket (filter w_isEnabled (workflows rule_db)) =
      Inr [one_step can mail_ticket mail_rule]" for can
    by (simp add: projectWorkflowRuleChain_def rule_chain_one workflowMatchesTicket_def mail_rule_def sample_rule_def del: rule_chain.simps)
  have s: "send_email_actions (w_actions mail_rule) = [(0, Some ''Hi'')]"
    by (simp add: mail_rule_def sample_rule_def send_email_actions_def isWorkflowAction_def action_type_def
        List.map_filter_simps workflowEmailText_def js_string_of_def or_string_def trim_Hi MAX_WORKFLOW_EMAIL_TEXT_CHARS_def)
  have r: "normalizeEmail (t_requesterEmail mail_ticket) = ''a@b.c''"
    by (simp add: mail_ticket_def plain_address)
  show ?thesis
    by (simp add: snapshotWorkflowEmailActions_def Let_def r c snapshot_step_def s List.map_filter_simps
        MAX_WORKFLOW_EMAIL_ACTIONS_def action_snapshot_of_def mail_snapshot_def)
       (simp add: mail_rule_def sample_rule_def mail_ticket_def sample_ticket_def)
qed


definition mail_event :: workflow_event where
  "mail_event = (new_event sample_env 2 ''ticket.created'' ''s'' (JArr (map snapshot_js [mail_snapshot])))\<lparr>e_id := 4\<rparr>"

definition event_db :: db where
  "event_db = rule_db\<lparr>wf_events := [mail_event], seq_event := 5\<rparr>"

lemma event_db_processed: "\<exists>d'. processEvent sample_env ''w'' 4 event_db = (Inr [0], d')"
proof -
  let ?ev = "mail_event\<lparr>e_state := EProcessing, e_attempts := Suc 0, e_leaseOwner := Some ''w'',
    e_leaseExpiresAt := Some 61000, e_leaseVersion := Suc 0, e_updatedAt := 1000\<rparr>"
  let ?d = "event_db\<lparr>wf_events := [?ev]\<rparr>"
  have ev: "wf_events event_db = [mail_event]" "e_id mail_event = 4" "e_state mail_event = EPending"
    "e_ticketId mail_event = 2" "e_sourceKey mail_event = ''s''" "e_leaseExpiresAt mail_event = None"
    "e_leaseOwner mail_event = None" "e_lastError mail_event = None" "e_nextAttemptAt mail_event = None"
    "e_attempts mail_event = 0" "e_leaseVersion mail_event = 0"
    by (simp_all add: event_db_def mail_event_def new_event_def)
  have now: "en_now sample_env = 1000" "en_mail sample_env = plain_config"
    by (simp_all add: sample_env_def)
  have claim: "claim_event 4 ''w'' 1000 event_db = (Inr 1, ?d)"
    by (simp add: claim_event_def update_events_def ev claimable_def WORKFLOW_EVENT_LEASE_MS_def)
  have parse: "parseActionSnapshot (e_actions mail_event) = Some [mail_snapshot]"
    using parse_snapshot_js [of mail_snapshot]
    by (simp add: mail_event_def new_event_def parseActionSnapshot_def MAX_WORKFLOW_EMAIL_ACTIONS_def snapshot_ok_def mail_snapshot_def trim_Hi
        plain_address MAX_WORKFLOW_EMAIL_TEXT_CHARS_def)
  have req: "current_requester 2 ?d = ''a@b.c''"
    by (simp add: current_requester_def ticket_by_id_def event_db_def rule_db_def mail_db_def sample_ticket_def plain_address)
  have beat: "heartbeat_event 4 ''w'' 1000 ?d = (Inr (), ?d)"
    by (simp add: heartbeat_event_def act_defs update_events_def owns_event_def ev WORKFLOW_EVENT_LEASE_MS_def)
  let ?in = "workflow_mail_of ?ev mail_snapshot"
  have inp: "wi_to ?in = ''a@b.c''" "wi_text ?in = ''Hi''" "wi_ticketId ?in = 2" "wi_subject ?in = ''[] Subject''"
    by (simp_all add: workflow_mail_of_def mail_snapshot_def ev)
  have key: "wi_idempotencyKey ?in \<noteq> []" "length (wi_idempotencyKey ?in) \<le> 255"
    by (simp_all add: workflow_mail_of_def workflow_mail_key_def mail_snapshot_def ev int_str_def
        nat_str.simps [of 2] nat_str.simps [of 0])
  have d: "tickets ?d = [mail_ticket]" "outbox ?d = []" "seq_outbox ?d = 0"
    by (simp_all add: event_db_def rule_db_def mail_db_def empty_db_def mail_ticket_def)
  have t: "ticket_by_id 2 ?d = Some mail_ticket" "t_requesterEmail mail_ticket = ''a@b.c''" "t_id mail_ticket = 2"
    by (simp_all add: ticket_by_id_def d) (simp_all add: mail_ticket_def sample_ticket_def)
  have o: "outbound_by_key k ?d = None" for k
    by (simp add: outbound_by_key_def d)
  have i: "insert_outbound r ?d = (Inr 0, ?d\<lparr>outbox := [r\<lparr>o_id := 0\<rparr>], seq_outbox := 1\<rparr>)"
    if "o_ticketId r = Some 2" "o_recipients r = [x]" for r x
    using that by (simp add: insert_outbound_def d t opt_in_def)
  have "createWorkflowTicketEmail plain_config u 1000 ?in ?d = (Inr 0, ?d\<lparr>outbox := [(workflow_outbound plain_config u 1000 ?in
      ''a@b.c'' ''Hi'')\<lparr>o_id := 0\<rparr>], seq_outbox := 1\<rparr>)" for u
    by (simp only: createWorkflowTicketEmail_def Let_def inp plain_address trim_Hi)
       (simp add: act_defs key t o inp i plain_address workflow_outbound_def new_outbound_def)
  then have send: "\<exists>r. send_action sample_env ?ev ''w'' mail_snapshot ?d = (Inr 0, ?d\<lparr>outbox := [r], seq_outbox := 1\<rparr>)"
    using beat by (auto simp: send_action_def act_defs now d ev)
  have "\<exists>d'. run_event sample_env ?ev ''w'' ?d = (Inr [0], d')"
    using send parse req
    by (auto simp: run_event_def act_defs mail_snapshot_def now mark_processed_def update_events_def owns_event_def ev)
  then show ?thesis
    using claim
    by (auto simp: processEvent_def bnd_def reads_def now event_by_id_def ev catch_act_def)
qed


end
