(* ===== verification/WorkflowExecutor.thy ===== *)
theory WorkflowExecutor
  imports WorkflowEmail
begin

text \<open>
  The in-process rule executor (\<open>workflow/workflow.executor.ts\<close>), which applies the rule chain to the
  stored ticket after an event, and the job that closes idle pending tickets
  (\<open>workflow/auto-close.processor.ts\<close>).
\<close>

section \<open>Applying one rule\<close>

text \<open>\<open>connectOrCreate\<close> and \<open>disconnect\<close> of a tag by name.\<close>

definition add_name :: "string \<Rightarrow> string list \<Rightarrow> string list" where
  "add_name x xs = (if x \<in> set xs then xs else xs @ [x])"

definition connect_tag :: "nat \<Rightarrow> string \<Rightarrow> ticket act_db" where
  "connect_tag i tag =
     bnd (update_ticket i (\<lambda>t. t\<lparr>t_tags := add_name tag (t_tags t)\<rparr>)) (\<lambda>t.
       sq (modify (\<lambda>d. d\<lparr>tag_names := add_name tag (tag_names d)\<rparr>)) (ret t))"

definition disconnect_tag :: "nat \<Rightarrow> string \<Rightarrow> ticket act_db" where
  "disconnect_tag i tag = update_ticket i (\<lambda>t. t\<lparr>t_tags := removeAll tag (t_tags t)\<rparr>)"

definition create_note :: "nat \<Rightarrow> nat option \<Rightarrow> string \<Rightarrow> nat act_db" where
  "create_note ticketId staffId contents d =
     (if ticketId \<in> t_id ` set (tickets d) then
        (Inr (seq_note d), d\<lparr>ticket_notes := ticket_notes d @ [\<lparr>n_id = seq_note d, n_ticketId = ticketId,
            n_staffId = staffId, n_contents = contents\<rparr>], seq_note := Suc (seq_note d)\<rparr>)
      else (Inl (Failure ''P2003''), d))"

text \<open>\<open>str(legacy)\<close>: the named field or, when it is not a string, \<open>value\<close>; the empty text stands
  for undefined, which the callers treat alike.\<close>

definition action_str :: "js \<Rightarrow> string \<Rightarrow> string" where
  "action_str a legacy =
     (case js_prop a legacy of JStr s \<Rightarrow> s | _ \<Rightarrow> (case js_prop a ''value'' of JStr s \<Rightarrow> s | _ \<Rightarrow> ''''))"

text \<open>One action of the loop: true when it changed what later rules can match. Exceptions are
  logged and swallowed.\<close>

definition apply_action :: "nat \<Rightarrow> workflow \<Rightarrow> js \<Rightarrow> bool act_db" where
  "apply_action ticketId w a =
     catch_act
       (if action_type a = ''add_tag'' \<and> action_str a ''tag'' \<noteq> '''' then
          sq (connect_tag ticketId (action_str a ''tag'')) (ret True)
        else if action_type a = ''remove_tag'' \<and> action_str a ''tag'' \<noteq> '''' then
          sq (disconnect_tag ticketId (action_str a ''tag'')) (ret True)
        else if action_type a = ''add_note'' \<and> action_str a ''note'' \<noteq> '''' then
          sq (create_note ticketId None (''[Workflow: '' @ w_title w @ ''] '' @ action_str a ''note'')) (ret False)
        else ret False)
       (\<lambda>_. ret False)"

definition opt_str :: "nat option \<Rightarrow> string option" where
  "opt_str z = map_option nat_str z"

definition applyActions :: "env \<Rightarrow> ticket \<Rightarrow> workflow \<Rightarrow> action_plan \<Rightarrow> bool act_db" where
  "applyActions env t w plan =
     bnd (each (apply_action (t_id t) w) (ap_actions plan)) (\<lambda>flags.
       if ap_ticketMutation plan = no_mutation then ret (True \<in> set flags)
       else sq (case ap_assignedOwnerId plan of
                  None \<Rightarrow> sq (update_ticket (t_id t) (applyWorkflowTicketMutation (ap_ticketMutation plan))) (ret None)
                | Some ownerId \<Rightarrow>
                    txn (bnd (update_ticket (t_id t) (applyWorkflowTicketMutation (ap_ticketMutation plan))) (\<lambda>updatedTicket.
                         bnd (writeAudit (t_id t) ''ASSIGN'' None BySystem (Some ''ownerStaffId'')
                                (opt_str (t_ownerStaffId t)) (Some (nat_str ownerId))) (\<lambda>auditId.
                         queueAssignmentNotification env updatedTicket ownerId (''audit:'' @ nat_str auditId)))))
               (ret True))"

section \<open>Evaluating an event\<close>

text \<open>The rules in turn, each projected on the ticket as last read; the loop ends early when the
  ticket is gone.\<close>

fun run_rules :: "env \<Rightarrow> (nat \<Rightarrow> bool) \<Rightarrow> nat \<Rightarrow> ticket \<Rightarrow> workflow list \<Rightarrow> unit act_db" where
  "run_rules env can ticketId t [] = ret ()"
| "run_rules env can ticketId t (w # ws) =
     bnd (of_result (projectWorkflowRuleChain (en_host env) can t [w])) (\<lambda>steps.
       case steps of
         [] \<Rightarrow> run_rules env can ticketId t ws
       | st # _ \<Rightarrow>
           bnd (applyActions env t w (cs_actionPlan st)) (\<lambda>changed.
             if \<not> changed then run_rules env can ticketId t ws
             else bnd (reads (ticket_by_id ticketId)) (\<lambda>fresh.
               case fresh of None \<Rightarrow> ret () | Some t' \<Rightarrow> run_rules env can ticketId t' ws)))"

record executor =
  ex_db :: db
  ex_cache :: "(workflow list \<times> time) option"
  ex_depth :: "nat \<Rightarrow> nat option"

definition WORKFLOW_CACHE_TTL_MS :: int where
  "WORKFLOW_CACHE_TTL_MS = 10000"

definition MAX_WORKFLOW_DEPTH :: nat where
  "MAX_WORKFLOW_DEPTH = 5"

definition on_db :: "'a act_db \<Rightarrow> (executor, 'a) act" where
  "on_db m x = (case m (ex_db x) of (r, d) \<Rightarrow> (r, x\<lparr>ex_db := d\<rparr>))"

definition invalidateWorkflowCache :: "(executor, unit) act" where
  "invalidateWorkflowCache = modify (\<lambda>x. x\<lparr>ex_cache := None\<rparr>)"

definition enabled_by_order :: "db \<Rightarrow> workflow list" where
  "enabled_by_order d = ordered_rules (workflows d)"

definition getEnabledWorkflows :: "time \<Rightarrow> (executor, workflow list) act" where
  "getEnabledWorkflows now x =
     (let fetch = (let data = enabled_by_order (ex_db x)
                   in (Inr data, x\<lparr>ex_cache := Some (data, now + WORKFLOW_CACHE_TTL_MS)\<rparr>))
      in case ex_cache x of
           Some (data, expiresAt) \<Rightarrow> if expiresAt > now then (Inr data, x) else fetch
         | None \<Rightarrow> fetch)"

definition finally_act :: "('s, 'a) act \<Rightarrow> ('s \<Rightarrow> 's) \<Rightarrow> ('s, 'a) act" where
  "finally_act m f s = (case m s of (r, s') \<Rightarrow> (r, f s'))"

definition depth_of :: "nat \<Rightarrow> executor \<Rightarrow> nat" where
  "depth_of i x = (case ex_depth x i of None \<Rightarrow> 0 | Some n \<Rightarrow> n)"

definition leave :: "nat \<Rightarrow> executor \<Rightarrow> executor" where
  "leave i x =
     (let n = (case ex_depth x i of None \<Rightarrow> 1 | Some n \<Rightarrow> n) - 1
      in if n = 0 then x\<lparr>ex_depth := (ex_depth x)(i := None)\<rparr> else x\<lparr>ex_depth := (ex_depth x)(i := Some n)\<rparr>)"

definition evaluate :: "env \<Rightarrow> nat \<Rightarrow> (executor, unit) act" where
  "evaluate env ticketId =
     bnd (reads (depth_of ticketId)) (\<lambda>depth.
       if depth \<ge> MAX_WORKFLOW_DEPTH then ret ()
       else sq (modify (\<lambda>x. x\<lparr>ex_depth := (ex_depth x)(ticketId := Some (depth + 1))\<rparr>))
         (finally_act
           (bnd (reads (\<lambda>x. ticket_by_id ticketId (ex_db x))) (\<lambda>ticket.
              case ticket of
                None \<Rightarrow> ret ()
              | Some t \<Rightarrow>
                  bnd (getEnabledWorkflows (en_now env)) (\<lambda>ws.
                  bnd (reads (\<lambda>x. staff_exists (ex_db x))) (\<lambda>canAssignOwner.
                    on_db (run_rules env canAssignOwner ticketId t ws)))))
           (leave ticketId)))"

section \<open>Closing idle tickets\<close>

text \<open>\<open>contains: 'Pending', mode: 'insensitive'\<close>.\<close>

definition is_pending_status :: "ticket_status \<Rightarrow> bool" where
  "is_pending_status st = str_includes (lower (st_title st)) ''pending''"

definition closing_status :: "db \<Rightarrow> ticket_status option" where
  "closing_status d = (case sort_key st_displayOrder (filter st_markAsResolved (statuses d)) of [] \<Rightarrow> None | st # _ \<Rightarrow> Some st)"

definition IDLE_MS :: int where
  "IDLE_MS = 7 * 24 * 60 * 60 * 1000"

definition idle_ticket :: "nat \<Rightarrow> time \<Rightarrow> ticket \<Rightarrow> bool" where
  "idle_ticket pendingId cutoff t \<longleftrightarrow>
     t_statusId t = pendingId \<and> \<not> t_isResolved t \<and> t_mergedIntoId t = None \<and> t_lastActivityAt t < cutoff"

definition close_patch :: "nat \<Rightarrow> time \<Rightarrow> ticket \<Rightarrow> ticket" where
  "close_patch closedId now t =
     t\<lparr>t_statusId := closedId, t_isResolved := True, t_resolvedAt := Some now, t_lastActivityAt := now\<rparr>"

definition close_mail :: "ticket \<Rightarrow> automated_input" where
  "close_mail t =
     \<lparr>ai_ticketId = t_id t, ai_emailQueueId = None, ai_kind = AutoCloseMail, ai_templateKey = ''ticket_auto_closed'',
      ai_locale = ''en'', ai_to = t_requesterEmail t,
      ai_vars = [(''mask'', t_mask t), (''subject'', t_subject t),
                 (''name'', or_string (t_requesterName t) (t_requesterEmail t))]\<rparr>"

definition automated :: "env \<Rightarrow> automated_input \<Rightarrow> nat act_db" where
  "automated env input =
     bnd (reads seq_outbox) (\<lambda>n. createAutomatedTicketEmail (en_mail env) (en_uuid env n) (en_now env) input)"

text \<open>One candidate: the transaction, whose failure is logged. The result names the ticket for the
  domain event that follows a commit.\<close>

definition close_ticket :: "env \<Rightarrow> nat \<Rightarrow> nat \<Rightarrow> time \<Rightarrow> ticket \<Rightarrow> nat option act_db" where
  "close_ticket env pendingId closedId cutoff t =
     catch_act
       (txn (bnd (update_many_tickets (\<lambda>r. t_id r = t_id t \<and> idle_ticket pendingId cutoff r) (close_patch closedId (en_now env))) (\<lambda>count.
          if count \<noteq> 1 then ret None
          else bnd (writeAudit (t_id t) ''AUTO_CLOSE'' None BySystem (Some ''statusId'') (Some (nat_str pendingId)) (Some (nat_str closedId))) (\<lambda>auditId.
               sq (enqueueWorkflowEmailEvent env (close_patch closedId (en_now env) t) ''ticket.status_changed'' (''ticket-audit:'' @ nat_str auditId))
              (sq (if t_requesterEmail t \<noteq> '''' then automated env (close_mail t) else ret 0)
                  (ret (Some (t_id t))))))))
       (\<lambda>_. ret None)"

definition autoClose :: "env \<Rightarrow> nat option list act_db" where
  "autoClose env =
     (let cutoff = en_now env - IDLE_MS in
      bnd (reads (\<lambda>d. find_row is_pending_status (statuses d))) (\<lambda>pendingStatus.
        case pendingStatus of
          None \<Rightarrow> ret []
        | Some p \<Rightarrow>
            bnd (reads closing_status) (\<lambda>closedStatus.
              case closedStatus of
                None \<Rightarrow> ret []
              | Some c \<Rightarrow>
                  bnd (reads (\<lambda>d. take 100 (filter (idle_ticket (st_id p) cutoff) (tickets d)))) (\<lambda>idleTickets.
                    each (close_ticket env (st_id p) (st_id c) cutoff) idleTickets))))"

section \<open>The executor follows the projection\<close>

text \<open>Equal up to tags, which no criterion can see.\<close>

definition same_but_tags :: "ticket \<Rightarrow> ticket \<Rightarrow> bool" where
  "same_but_tags t r \<longleftrightarrow> (\<exists>ts. r = t\<lparr>t_tags := ts\<rparr>)"

lemma same_but_tags_refl: "same_but_tags t t"
  unfolding same_but_tags_def by (rule exI [of _ "t_tags t"]) simp

lemma same_but_tags_trans: "same_but_tags t r \<Longrightarrow> same_but_tags r s \<Longrightarrow> same_but_tags t s"
  by (auto simp: same_but_tags_def)

lemma same_but_tags_sym: "same_but_tags t r \<Longrightarrow> same_but_tags r t"
  unfolding same_but_tags_def by (elim exE) (rule exI [of _ "t_tags t"], simp)

lemma same_but_tags_apply:
  "same_but_tags t r \<Longrightarrow> same_but_tags (applyWorkflowTicketMutation m t) (applyWorkflowTicketMutation m r)"
  unfolding same_but_tags_def by (elim exE) (rule_tac x = ts in exI, simp add: applyWorkflowTicketMutation_def)

lemma match_same_but_tags:
  assumes "same_but_tags t r"
  shows "workflowMatchesTicket h r w = workflowMatchesTicket h t w"
proof -
  obtain ts where r: "r = t\<lparr>t_tags := ts\<rparr>" using assms by (auto simp: same_but_tags_def)
  have "criterion_holds h r c = criterion_holds h t c" for c
    by (simp add: r criterion_holds_def ticket_field_def ticket_columns_def)
  then have "every_criterion h r cs = every_criterion h t cs" for cs
    by (induction cs) simp_all
  then show ?thesis by (simp add: workflowMatchesTicket_def split: js.split)
qed

lemma apply_no_mutation: "applyWorkflowTicketMutation no_mutation t = t"
  by (simp add: applyWorkflowTicketMutation_def no_mutation_def upd_opt_def)

lemma apply_mutation_id [simp]: "t_id (applyWorkflowTicketMutation m t) = t_id t"
  by (simp add: applyWorkflowTicketMutation_def)

text \<open>The row of a ticket after an update by key.\<close>

lemma ticket_by_id_set_tickets:
  assumes "\<And>t. t_id (f t) = t_id t"
  shows "ticket_by_id i (set_tickets (\<lambda>j. j = i) f d) = map_option f (ticket_by_id i d)"
proof -
  have "find_row (\<lambda>t. t_id t = i) (update_rows (\<lambda>t. t_id t = i) f (tickets d)) =
      map_option (\<lambda>r. if t_id r = i then f r else r) (find_row (\<lambda>t. t_id t = i) (tickets d))"
    by (rule find_row_update_rows) (simp add: assms)
  also have "\<dots> = map_option f (find_row (\<lambda>t. t_id t = i) (tickets d))"
    by (cases "find_row (\<lambda>t. t_id t = i) (tickets d)") (auto dest: find_row_SomeD)
  finally show ?thesis by (simp add: ticket_by_id_def set_tickets_def)
qed

lemma update_ticket_Inr:
  assumes "update_ticket i f d = (Inr t', d')" "\<And>t. t_id (f t) = t_id t"
  shows "\<exists>t. ticket_by_id i d = Some t \<and> t' = f t \<and> ticket_by_id i d' = Some t' \<and> d' = set_tickets (\<lambda>j. j = i) f d"
  using assms by (auto simp: update_ticket_def ticket_by_id_set_tickets split: option.splits if_splits)

lemma update_ticket_Inl: "update_ticket i f d = (Inl e, d') \<Longrightarrow> d' = d"
  by (auto simp: update_ticket_def split: option.splits if_splits)

text \<open>The stored ticket keeps everything but its tags over an action of the loop, and keeps its tags
  too when the action reports no change.\<close>

definition tracks :: "nat \<Rightarrow> bool \<Rightarrow> db \<Rightarrow> db \<Rightarrow> bool" where
  "tracks i changed d d' \<longleftrightarrow> staffs d' = staffs d \<and>
     (\<forall>r. ticket_by_id i d = Some r \<longrightarrow>
        (\<exists>r'. ticket_by_id i d' = Some r' \<and> same_but_tags r r' \<and> (\<not> changed \<longrightarrow> r' = r)))"

lemma tracks_refl: "tracks i b d d"
  by (auto simp: tracks_def same_but_tags_refl)

lemma tracks_trans: "tracks i b d e \<Longrightarrow> tracks i c e d' \<Longrightarrow> tracks i (b \<or> c) d d'"
  unfolding tracks_def by (metis same_but_tags_trans)

lemma connect_tag_tracks: "connect_tag i tag d = (x, d') \<Longrightarrow> tracks i True d d'"
proof -
  assume run: "connect_tag i tag d = (x, d')"
  let ?f = "\<lambda>t. t\<lparr>t_tags := add_name tag (t_tags t)\<rparr>"
  show ?thesis
  proof (cases "update_ticket i ?f d")
    case (Pair r d1)
    show ?thesis
    proof (cases r)
      case (Inl e)
      then show ?thesis using run Pair by (auto simp: connect_tag_def bnd_def tracks_refl dest: update_ticket_Inl)
    next
      case (Inr t')
      from update_ticket_Inr [OF Pair [unfolded Inr]]
      obtain t where "ticket_by_id i d = Some t" "ticket_by_id i d1 = Some (?f t)" "d1 = set_tickets (\<lambda>j. j = i) ?f d"
        by auto
      then show ?thesis
        using run Pair Inr by (auto simp: connect_tag_def act_defs tracks_def same_but_tags_def ticket_by_id_def set_tickets_def)
    qed
  qed
qed

lemma disconnect_tag_tracks: "disconnect_tag i tag d = (x, d') \<Longrightarrow> tracks i True d d'"
proof (cases x)
  case (Inl e)
  moreover assume "disconnect_tag i tag d = (x, d')"
  ultimately show ?thesis by (auto simp: disconnect_tag_def tracks_refl dest: update_ticket_Inl)
next
  case (Inr t')
  moreover assume "disconnect_tag i tag d = (x, d')"
  ultimately have "update_ticket i (\<lambda>t. t\<lparr>t_tags := removeAll tag (t_tags t)\<rparr>) d = (Inr t', d')"
    by (simp add: disconnect_tag_def)
  from update_ticket_Inr [OF this] show ?thesis
    by (auto simp: tracks_def same_but_tags_def set_tickets_def)
qed

lemma create_note_tracks: "create_note i s c d = (x, d') \<Longrightarrow> tracks j False d d'"
  by (auto simp: create_note_def tracks_def ticket_by_id_def same_but_tags_refl split: if_splits)

lemma tracks_weaken: "tracks i b d d' \<Longrightarrow> (b \<Longrightarrow> c) \<Longrightarrow> tracks i c d d'"
  by (auto simp: tracks_def)

lemma connect_tag_Inl: "connect_tag i tag d = (Inl e, d') \<Longrightarrow> d' = d"
  by (auto simp: connect_tag_def act_defs split: prod.splits sum.splits dest: update_ticket_Inl)

lemma apply_action_tracks:
  assumes "apply_action i w a d = (Inr b, d')"
  shows "tracks i b d d'"
proof -
  consider (add) "action_type a = ''add_tag''" "action_str a ''tag'' \<noteq> ''''"
    | (remove) "action_type a = ''remove_tag''" "action_str a ''tag'' \<noteq> ''''"
    | (nt) "action_type a = ''add_note''" "action_str a ''note'' \<noteq> ''''"
    | (nothing) "apply_action i w a = catch_act (ret False) (\<lambda>_. ret False)"
    unfolding apply_action_def by fastforce
  then show ?thesis
  proof cases
    case add
    then have "apply_action i w a d = catch_act (sq (connect_tag i (action_str a ''tag'')) (ret True)) (\<lambda>_. ret False) d"
      by (simp add: apply_action_def)
    then show ?thesis
      using assms
      by (cases "connect_tag i (action_str a ''tag'') d"; cases "fst (connect_tag i (action_str a ''tag'') d)")
         (auto simp: catch_act_def sq_def bnd_def ret_def tracks_refl dest: connect_tag_Inl connect_tag_tracks)
  next
    case remove
    then have "apply_action i w a d = catch_act (sq (disconnect_tag i (action_str a ''tag'')) (ret True)) (\<lambda>_. ret False) d"
      by (simp add: apply_action_def)
    then show ?thesis
      using assms
      by (cases "disconnect_tag i (action_str a ''tag'') d"; cases "fst (disconnect_tag i (action_str a ''tag'') d)")
         (auto simp: catch_act_def sq_def bnd_def ret_def tracks_refl disconnect_tag_def
          dest: update_ticket_Inl disconnect_tag_tracks [unfolded disconnect_tag_def])
  next
    case nt
    let ?m = "create_note i None (''[Workflow: '' @ w_title w @ ''] '' @ action_str a ''note'')"
    have "apply_action i w a d = catch_act (sq ?m (ret False)) (\<lambda>_. ret False) d"
      using nt by (simp add: apply_action_def)
    then show ?thesis
      using assms
      by (cases "?m d"; cases "fst (?m d)")
         (auto simp: catch_act_def sq_def bnd_def ret_def dest: create_note_tracks)
  next
    case nothing
    then show ?thesis using assms by (auto simp: catch_act_def ret_def tracks_refl)
  qed
qed

lemma apply_action_total: "\<exists>b d'. apply_action i w a d = (Inr b, d')"
  by (auto simp: apply_action_def catch_act_def ret_def split: prod.split sum.split)

lemma each_action_tracks:
  "each (apply_action i w) as d = (Inr flags, d') \<Longrightarrow> tracks i (True \<in> set flags) d d'"
proof (induction as arbitrary: d flags)
  case Nil
  then show ?case by (auto simp: ret_def tracks_refl)
next
  case (Cons a as)
  then obtain b d1 fs where "apply_action i w a d = (Inr b, d1)" "each (apply_action i w) as d1 = (Inr fs, d')" "flags = b # fs"
    by (auto simp: bnd_def ret_def split: prod.splits sum.splits)
  with Cons.IH apply_action_tracks tracks_trans show ?case by fastforce
qed

lemma queueAssignment_grows: "growth.stays (queueAssignmentNotification env t s k)"
proof -
  have r: "growth.stays (renderTemplateRequired key loc vs)" for key loc vs
    unfolding renderTemplateRequired_def assertRequiredTemplateContent_def by (intro growth.stays_intros)
  have u: "growth.stays (upsert_outbound key row)" for key row
    unfolding upsert_outbound_def by (intro growth.stays_intros insert_outbound_grows)
  have n: "growth.stays (notify env input)" for input
    unfolding notify_def createInternalNotificationEmail_def assertInternalNotificationIdentity_def Let_def
    by (intro growth.stays_intros r u)
  show ?thesis
    unfolding queueAssignmentNotification_def
    by (rule growth.stays_bnd [OF growth.stays_reads], simp add: case_prod_beta) (intro growth.stays_intros n)
qed

lemma outbox_grows_rows: "outbox_grows d d' \<Longrightarrow> ticket_by_id i d' = ticket_by_id i d \<and> staffs d' = staffs d"
  by (auto simp: outbox_grows_def ticket_by_id_def)

text \<open>The effect of a rule on the stored ticket: the planned mutation, and tags.\<close>

lemma applyActions_effect:
  assumes run: "applyActions env t w plan d = (Inr changed, d')"
    and row: "ticket_by_id (t_id t) d = Some r" and m: "m = ap_ticketMutation plan"
  shows "staffs d' = staffs d \<and> (\<exists>r'. ticket_by_id (t_id t) d' = Some r' \<and> same_but_tags (applyWorkflowTicketMutation m r) r' \<and>
     (\<not> changed \<longrightarrow> m = no_mutation \<and> r' = r))"
proof -
  let ?i = "t_id t"
  obtain flags d1 where e: "each (apply_action ?i w) (ap_actions plan) d = (Inr flags, d1)"
    using run by (auto simp: applyActions_def bnd_def split: prod.splits sum.splits)
  from each_action_tracks [OF e] row obtain r1 where r1: "ticket_by_id ?i d1 = Some r1" "same_but_tags r r1"
      "True \<notin> set flags \<longrightarrow> r1 = r" "staffs d1 = staffs d"
    by (auto simp: tracks_def)
  show ?thesis
  proof (cases "m = no_mutation")
    case True
    then show ?thesis
      using run e r1 m by (auto simp: applyActions_def bnd_def ret_def apply_no_mutation)
  next
    case False
    let ?f = "applyWorkflowTicketMutation m"
    have "\<exists>t' d2. update_ticket ?i ?f d1 = (Inr t', d2) \<and> changed \<and> tickets d' = tickets d2 \<and> staffs d' = staffs d2"
    proof (cases "ap_assignedOwnerId plan")
      case None
      then show ?thesis
        using run e False m by (auto simp: applyActions_def bnd_def sq_def ret_def split: prod.splits sum.splits)
    next
      case (Some ownerId)
      then obtain t' d2 a d3 n where u: "update_ticket ?i ?f d1 = (Inr t', d2)" "changed"
        and a: "writeAudit ?i ''ASSIGN'' None BySystem (Some ''ownerStaffId'') (opt_str (t_ownerStaffId t)) (Some (nat_str ownerId)) d2 = (Inr a, d3)"
        and q: "queueAssignmentNotification env t' ownerId (''audit:'' @ nat_str a) d3 = (Inr n, d')"
        using run e False m by (auto simp: applyActions_def bnd_def sq_def ret_def txn_def split: prod.splits sum.splits)
      have "outbox_grows d3 d'" using growth.staysD [OF queueAssignment_grows q] .
      then show ?thesis using u a by (auto simp: outbox_grows_def writeAudit_def)
    qed
    then obtain t' d2 where u: "update_ticket ?i ?f d1 = (Inr t', d2)" "changed" "tickets d' = tickets d2" "staffs d' = staffs d2"
      by blast
    from update_ticket_Inr [OF u(1)] r1(1) have "t' = ?f r1" "ticket_by_id ?i d2 = Some (?f r1)" "staffs d2 = staffs d1"
      by (auto simp: set_tickets_def)
    moreover have "ticket_by_id ?i d' = ticket_by_id ?i d2" using u(3) by (simp add: ticket_by_id_def)
    ultimately show ?thesis
      using u r1 same_but_tags_apply [OF r1(2), of m] by auto
  qed
qed

lemma rule_chain_same_but_tags:
  "same_but_tags t r \<Longrightarrow> rule_chain h can t ws = Inr steps \<Longrightarrow>
   \<exists>steps'. rule_chain h can r ws = Inr steps' \<and> same_but_tags (chain_final t steps) (chain_final r steps')"
proof (induction ws arbitrary: t r steps)
  case Nil
  then show ?case by simp
next
  case (Cons w ws)
  note m = match_same_but_tags [OF Cons.prems(1), of h w]
  let ?f = "applyWorkflowTicketMutation (ap_ticketMutation (planWorkflowActions can (w_actions w)))"
  show ?case
  proof (cases "workflowMatchesTicket h t w")
    case (Inl e)
    then show ?thesis using Cons.prems(2) by simp
  next
    case (Inr b)
    show ?thesis
    proof (cases b)
      case False
      then show ?thesis using Cons Inr m by simp
    next
      case True
      then obtain ss where ss: "rule_chain h can (?f t) ws = Inr ss" "steps = one_step can t w # ss"
        using Cons.prems(2) Inr by (auto simp: Let_def one_step_def split: sum.splits)
      from Cons.IH [OF same_but_tags_apply [OF Cons.prems(1)] ss(1)]
      obtain ss' where ss': "rule_chain h can (?f r) ws = Inr ss'" "same_but_tags (chain_final (?f t) ss) (chain_final (?f r) ss')"
        by blast
      then show ?thesis
        using Inr m True ss by (auto simp: Let_def)
    qed
  qed
qed

lemma project_one_rule: "w_isEnabled w \<Longrightarrow> projectWorkflowRuleChain h can t [w] = rule_chain h can t [w]"
  by (simp add: projectWorkflowRuleChain_def ordered_rules_def)

lemma run_rules_Cons:
  assumes "run_rules env can i t (w # ws) d = (Inr (), d')" "w_isEnabled w"
  shows "(workflowMatchesTicket (en_host env) t w = Inr False \<and> run_rules env can i t ws d = (Inr (), d')) \<or>
    (\<exists>changed d1. workflowMatchesTicket (en_host env) t w = Inr True \<and>
       applyActions env t w (planWorkflowActions can (w_actions w)) d = (Inr changed, d1) \<and>
       (if changed then (case ticket_by_id i d1 of None \<Rightarrow> d' = d1 | Some t' \<Rightarrow> run_rules env can i t' ws d1 = (Inr (), d'))
        else run_rules env can i t ws d1 = (Inr (), d')))"
proof (cases "workflowMatchesTicket (en_host env) t w")
  case (Inl e)
  then show ?thesis
    using assms by (simp add: project_one_rule rule_chain_one of_result_def bnd_def throw_def del: rule_chain.simps)
next
  case (Inr b)
  show ?thesis
  proof (cases b)
    case False
    then show ?thesis
      using assms Inr by (simp add: project_one_rule rule_chain_one of_result_def bnd_def ret_def del: rule_chain.simps)
  next
    case True
    let ?m = "applyActions env t w (planWorkflowActions can (w_actions w))"
    have "bnd ?m (\<lambda>changed. if \<not> changed then run_rules env can i t ws
        else bnd (reads (ticket_by_id i)) (\<lambda>fresh. case fresh of None \<Rightarrow> ret () | Some t' \<Rightarrow> run_rules env can i t' ws)) d = (Inr (), d')"
      using assms Inr True by (simp add: project_one_rule rule_chain_one of_result_def bnd_def [of "ret _"] ret_def del: rule_chain.simps)
    then obtain changed d1 where a: "?m d = (Inr changed, d1)" and r: "(if \<not> changed then run_rules env can i t ws
        else bnd (reads (ticket_by_id i)) (\<lambda>fresh. case fresh of None \<Rightarrow> ret () | Some t' \<Rightarrow> run_rules env can i t' ws)) d1 = (Inr (), d')"
      by (auto simp: bnd_def [of ?m] split: prod.splits sum.splits)
    have "if changed then (case ticket_by_id i d1 of None \<Rightarrow> d' = d1 | Some t' \<Rightarrow> run_rules env can i t' ws d1 = (Inr (), d'))
        else run_rules env can i t ws d1 = (Inr (), d')"
      using r by (auto simp: bnd_def reads_def ret_def split: option.splits if_splits)
    moreover have "workflowMatchesTicket (en_host env) t w = Inr True" using Inr True by simp
    ultimately show ?thesis using a by (intro disjI2 exI conjI)
  qed
qed

lemma run_rules_follows:
  assumes "run_rules env can i t ws d = (Inr (), d')" "ticket_by_id i d = Some r" "same_but_tags t r" "t_id t = i"
    "\<forall>w \<in> set ws. w_isEnabled w"
  shows "\<exists>steps r'. rule_chain (en_host env) can t ws = Inr steps \<and> ticket_by_id i d' = Some r' \<and>
    same_but_tags (chain_final t steps) r'"
  using assms
proof (induction ws arbitrary: t r d)
  case Nil
  then show ?case by (simp add: ret_def)
next
  case (Cons w ws)
  let ?plan = "planWorkflowActions can (w_actions w)"
  let ?f = "applyWorkflowTicketMutation (ap_ticketMutation ?plan)"
  have enabled: "w_isEnabled w" "\<forall>w \<in> set ws. w_isEnabled w" using Cons.prems(5) by auto
  from run_rules_Cons [OF Cons.prems(1) enabled(1)] show ?case
  proof (elim disjE exE conjE)
    assume "workflowMatchesTicket (en_host env) t w = Inr False" "run_rules env can i t ws d = (Inr (), d')"
    then show ?thesis using Cons.IH [OF _ Cons.prems(2-4) enabled(2)] by simp
  next
    fix changed d1
    assume match: "workflowMatchesTicket (en_host env) t w = Inr True"
      and act: "applyActions env t w ?plan d = (Inr changed, d1)"
      and rest: "if changed then (case ticket_by_id i d1 of None \<Rightarrow> d' = d1 | Some t' \<Rightarrow> run_rules env can i t' ws d1 = (Inr (), d'))
        else run_rules env can i t ws d1 = (Inr (), d')"
    from applyActions_effect [OF act _ refl, of r] Cons.prems(2,4)
    obtain r1 where r1: "ticket_by_id i d1 = Some r1" "same_but_tags (?f r) r1" "\<not> changed \<longrightarrow> ap_ticketMutation ?plan = no_mutation \<and> r1 = r"
      by auto
    have chain: "rule_chain (en_host env) can t (w # ws) =
        (case rule_chain (en_host env) can (?f t) ws of Inl e \<Rightarrow> Inl e | Inr ss \<Rightarrow> Inr (one_step can t w # ss))"
      by (simp add: match Let_def one_step_def split: sum.split)
    show ?thesis
    proof (cases changed)
      case False
      then have "?f t = t" using r1(3) by (simp add: apply_no_mutation)
      with Cons.IH [OF _ _ Cons.prems(3,4) enabled(2), of d1] r1 False rest chain show ?thesis by auto
    next
      case True
      then have "run_rules env can i r1 ws d1 = (Inr (), d')" using rest r1(1) by simp
      from Cons.IH [OF this r1(1) same_but_tags_refl _ enabled(2)] obtain ss r' where
        ss: "rule_chain (en_host env) can r1 ws = Inr ss" "ticket_by_id i d' = Some r'" "same_but_tags (chain_final r1 ss) r'"
        using ticket_by_id_SomeD [OF r1(1)] by auto
      have "same_but_tags r1 (?f t)"
        using same_but_tags_trans [OF same_but_tags_apply [OF Cons.prems(3)] r1(2)] same_but_tags_sym by blast
      from rule_chain_same_but_tags [OF this ss(1)] obtain ss' where
        "rule_chain (en_host env) can (?f t) ws = Inr ss'" "same_but_tags (chain_final r1 ss) (chain_final (?f t) ss')"
        by blast
      with chain ss(2,3) show ?thesis
        by (auto intro: same_but_tags_trans same_but_tags_sym)
    qed
  qed
qed


definition empty_executor :: "db \<Rightarrow> executor" where
  "empty_executor d = \<lparr>ex_db = d, ex_cache = None, ex_depth = (\<lambda>_. None)\<rparr>"

text \<open>A ticket in a database whose only rule raises its priority.\<close>

definition priority_db :: db where
  "priority_db = empty_db\<lparr>tickets := [sample_ticket 2 10], departments := [10], priorities := [1, 4],
     statuses := [\<lparr>st_id = 1, st_title = ''Open'', st_displayOrder = 0, st_markAsResolved = False, st_isDefault = True\<rparr>],
     workflows := [sample_rule 2 10 (JArr []) (JArr [JObj [(''type'', JStr ''set_priority''), (''value'', JNum 4)]])]\<rparr>"

lemma priority_run: "\<exists>x'. evaluate sample_env 2 (empty_executor priority_db) = (Inr (), x')"
proof -
  let ?w = "sample_rule 2 10 (JArr []) (JArr [JObj [(''type'', JStr ''set_priority''), (''value'', JNum 4)]])"
  let ?t = "sample_ticket 2 10"
  have four: "positiveInteger (JNum 4) = Some 4"
    by (simp add: positive_safe_def safe_integer_def)
  have plan: "planWorkflowActions can (w_actions ?w) = \<lparr>ap_actions = [JObj [(''type'', JStr ''set_priority''), (''value'', JNum 4)]],
      ap_ticketMutation = no_mutation\<lparr>mu_priorityId := Some 4\<rparr>, ap_assignedOwnerId = None, ap_skippedOwnerIds = []\<rparr>" for can
    by (simp add: sample_rule_def planWorkflowActions_def isWorkflowAction_def plan_action_def action_type_def
        js_or_else_def js_is_nullish_def four overwrite_def no_mutation_def del: positiveInteger.simps)
  have match: "workflowMatchesTicket h t ?w = Inr True" for h t
    by (simp add: workflowMatchesTicket_def sample_rule_def)
  have rules: "enabled_by_order priority_db = [?w]"
    by (simp add: enabled_by_order_def ordered_rules_def priority_db_def sample_rule_def)
  have t: "ticket_by_id 2 priority_db = Some ?t" "t_id ?t = 2"
    by (simp_all add: ticket_by_id_def priority_db_def sample_ticket_def)
  have "\<exists>d'. update_ticket 2 (applyWorkflowTicketMutation (no_mutation\<lparr>mu_priorityId := Some 4\<rparr>)) priority_db =
      (Inr (?t\<lparr>t_priorityId := 4\<rparr>), d') \<and> (\<exists>r. ticket_by_id 2 d' = Some r)"
    by (simp add: update_ticket_def t ticket_by_id_set_tickets)
       (simp add: applyWorkflowTicketMutation_def no_mutation_def upd_opt_def ticket_fk_def opt_in_def
          priority_db_def sample_ticket_def empty_db_def)
  moreover have "apply_action 2 ?w (JObj [(''type'', JStr ''set_priority''), (''value'', JNum 4)]) priority_db = (Inr False, priority_db)"
    by (simp add: apply_action_def action_type_def catch_act_def ret_def)
  ultimately have "\<exists>d'. applyActions sample_env ?t ?w (planWorkflowActions can (w_actions ?w)) priority_db = (Inr True, d') \<and>
      (\<exists>r. ticket_by_id 2 d' = Some r)" for can
    by (auto simp: applyActions_def plan t act_defs no_mutation_def)
  moreover have "w_isEnabled ?w" by (simp add: sample_rule_def)
  then have "projectWorkflowRuleChain h can ?t [?w] = Inr [one_step can ?t ?w]" for h can
    by (simp add: project_one_rule rule_chain_one match del: rule_chain.simps)
  ultimately have "\<exists>d'. run_rules sample_env can 2 ?t [?w] priority_db = (Inr (), d')" for can
  proof -
    assume p: "\<And>h can. projectWorkflowRuleChain h can ?t [?w] = Inr [one_step can ?t ?w]"
      and a: "\<And>can. \<exists>d'. applyActions sample_env ?t ?w (planWorkflowActions can (w_actions ?w)) priority_db = (Inr True, d') \<and>
        (\<exists>r. ticket_by_id 2 d' = Some r)"
    obtain d1 r where "applyActions sample_env ?t ?w (planWorkflowActions can (w_actions ?w)) priority_db = (Inr True, d1)"
      "ticket_by_id 2 d1 = Some r"
      using a by blast
    then show ?thesis by (simp add: p of_result_def act_defs)
  qed
  then obtain d' where "run_rules sample_env (staff_exists priority_db) 2 ?t [?w] priority_db = (Inr (), d')"
    by blast
  then show ?thesis
    by (simp add: evaluate_def act_defs finally_act_def getEnabledWorkflows_def on_db_def empty_executor_def depth_of_def
        MAX_WORKFLOW_DEPTH_def rules t Let_def del: run_rules.simps)
qed


section \<open>Closing is atomic\<close>

text \<open>Planning workflow mail only adds event rows.\<close>

definition events_grow :: "db \<Rightarrow> db \<Rightarrow> bool" where
  "events_grow d d' \<longleftrightarrow> (\<exists>es. d' = d\<lparr>wf_events := wf_events d @ es, seq_event := seq_event d + length es\<rparr>)"

interpretation planning: frame events_grow
proof unfold_locales
  show "events_grow d d" for d
    unfolding events_grow_def by (rule exI [of _ "[]"]) simp
  show "events_grow d d'" if "events_grow d e" "events_grow e d'" for d e d'
    using that unfolding events_grow_def by (elim exE) (rule_tac x = "es @ esa" in exI, simp)
qed

lemma upsert_event_stays: "planning.stays (upsert_event e)"
  unfolding planning.stays_def upsert_event_def Let_def events_grow_def
proof
  fix d
  show "\<exists>es. snd (case event_by_key (e_sourceKey e) d of
       None \<Rightarrow> (Inr (e\<lparr>e_id := seq_event d\<rparr>), d\<lparr>wf_events := wf_events d @ [e\<lparr>e_id := seq_event d\<rparr>], seq_event := Suc (seq_event d)\<rparr>)
       | Some r \<Rightarrow> (Inr r, d)) = d\<lparr>wf_events := wf_events d @ es, seq_event := seq_event d + length es\<rparr>"
  proof (cases "event_by_key (e_sourceKey e) d")
    case None
    then show ?thesis by (intro exI [of _ "[e\<lparr>e_id := seq_event d\<rparr>]"]) simp
  next
    case (Some r)
    then show ?thesis by (intro exI [of _ "[]"]) simp
  qed
qed

lemma of_result_stays: "planning.stays (of_result z)"
  unfolding of_result_def by (intro planning.stays_intros)

lemma enqueueWorkflow_stays: "planning.stays (enqueueWorkflowEmailEvent env t ty key)"
  unfolding enqueueWorkflowEmailEvent_def persistInvalidWorkflowEmailAction_def Let_def case_prod_beta
  by (intro planning.stays_intros upsert_event_stays of_result_stays)

lemma caught_transaction:
  "catch_act (txn (\<lambda>_. sq q (sq m (ret v)) s2)) (\<lambda>_. ret w) s = (r, s') \<Longrightarrow>
   (r = Inr w \<and> s' = s) \<or> (\<exists>x s3 y. q s2 = (Inr x, s3) \<and> m s3 = (Inr y, s') \<and> r = Inr v)"
  by (auto simp: catch_act_def txn_def sq_def bnd_def ret_def split: prod.splits sum.splits)

lemma automated_Inr:
  assumes "automated env input d = (Inr i, d')"
  shows "\<exists>r. d' = d\<lparr>outbox := outbox d @ [r], seq_outbox := Suc (seq_outbox d)\<rparr> \<and> o_ticketId r = Some (ai_ticketId input) \<and>
    o_kind r = ai_kind input \<and> o_recipients r = [(ai_to input, TO)] \<and> o_state r = Queued"
  using assms
  by (auto simp: automated_def createAutomatedTicketEmail_def act_defs new_outbound_def split: prod.splits sum.splits
      dest!: insert_outbound_Inr renderTemplateRequired_state)



end
