(* ===== verification/WorkingTime.thy ===== *)
theory WorkingTime
  imports Schema
begin

text \<open>
  Business time (\<open>sla/sla.service.ts\<close>): advancing an instant by a number of working seconds along a
  weekly schedule with holidays. Instants are milliseconds since the epoch and all calendar
  arithmetic is UTC, as in the source. The reference is the set of working instants: the due date
  is the instant before which the requested amount of working time has passed.
\<close>

section \<open>The calculation\<close>

definition day_ms :: int where
  "day_ms = 24 * 60 * 60 * 1000"

definition midnight :: "time \<Rightarrow> time" where
  "midnight t = t div day_ms * day_ms"

text \<open>\<open>String.prototype.split\<close> with a one-character separator.\<close>

fun split_on :: "char \<Rightarrow> string \<Rightarrow> string list" where
  "split_on c [] = [[]]"
| "split_on c (x # xs) =
     (if x = c then [] # split_on c xs
      else case split_on c xs of [] \<Rightarrow> [[x]] | y # ys \<Rightarrow> (x # y) # ys)"

text \<open>\<open>parseInt(s, 10)\<close>: leading white space, a sign, then the longest run of digits; \<open>None\<close> is NaN.\<close>

definition parse_int :: "string \<Rightarrow> int option" where
  "parse_int s =
     (let t = dropWhile is_space s;
          (neg, u) = (case t of [] \<Rightarrow> (False, [])
                      | c # r \<Rightarrow> if c = CHR ''-'' then (True, r) else if c = CHR ''+'' then (False, r) else (False, t));
          ds = takeWhile is_digit u
      in if ds = [] then None else Some (if neg then - int (digits_val ds) else int (digits_val ds)))"

definition parseMinutes :: "string \<Rightarrow> int option" where
  "parseMinutes hm =
     (let (h, m) = (case split_on (CHR '':'') hm of [] \<Rightarrow> (''0'', ''0'') | [h] \<Rightarrow> (h, ''0'') | h # m # _ \<Rightarrow> (h, m))
      in case (parse_int h, parse_int m) of
           (Some a, Some b) \<Rightarrow> Some (a * 60 + b)
         | _ \<Rightarrow> None)"

definition DAY_NAMES :: "string list" where
  "DAY_NAMES = [''sun'', ''mon'', ''tue'', ''wed'', ''thu'', ''fri'', ''sat'']"

text \<open>The epoch was a Thursday.\<close>

definition dayKey :: "time \<Rightarrow> string" where
  "dayKey t = DAY_NAMES ! nat ((t div day_ms + 4) mod 7)"

type_synonym slots = "(string \<times> string) list"
type_synonym work_hours = "(string \<times> slots) list"

text \<open>
  One day's slots in list order: either the due date, or what remains of the budget. The budget is
  a JavaScript number: an unparsable time makes it NaN (\<open>None\<close>), against which no comparison holds.
\<close>

fun slots_loop :: "bool \<Rightarrow> time \<Rightarrow> time \<Rightarrow> slots \<Rightarrow> int option \<Rightarrow> time + int option" where
  "slots_loop isFirst start m [] remaining = Inr remaining"
| "slots_loop isFirst start m ((startStr, endStr) # slots) remaining =
     (case (parseMinutes startStr, parseMinutes endStr) of
        (Some sMin, Some eMin) \<Rightarrow>
          if eMin \<le> sMin then slots_loop isFirst start m slots remaining
          else (let slotStart = m + sMin * 60000; slotEnd = m + eMin * 60000;
                    windowStart = (if isFirst \<and> start > slotStart then start else slotStart)
                in if windowStart \<ge> slotEnd then slots_loop isFirst start m slots remaining
                   else (let availSec = (slotEnd - windowStart) div 1000
                         in case remaining of
                              None \<Rightarrow> slots_loop isFirst start m slots None
                            | Some r \<Rightarrow>
                                if r \<le> availSec then Inl (windowStart + r * 1000)
                                else slots_loop isFirst start m slots (Some (r - availSec))))
      | _ \<Rightarrow> slots_loop isFirst start m slots None)"

definition is_holiday :: "time list \<Rightarrow> time \<Rightarrow> bool" where
  "is_holiday holidays t \<longleftrightarrow> t div day_ms \<in> (\<lambda>h. h div day_ms) ` set holidays"

definition day_slots :: "work_hours \<Rightarrow> time list \<Rightarrow> time \<Rightarrow> slots" where
  "day_slots workHours holidays day =
     (if is_holiday holidays day then []
      else case map_of workHours (dayKey day) of None \<Rightarrow> [] | Some sl \<Rightarrow> sl)"

text \<open>The loop over days; the first argument is how many of the sixty iterations are left.\<close>

fun days_loop :: "nat \<Rightarrow> bool \<Rightarrow> work_hours \<Rightarrow> time list \<Rightarrow> time \<Rightarrow> time \<Rightarrow> int option \<Rightarrow> time" where
  "days_loop 0 isFirst workHours holidays start day remaining = day"
| "days_loop (Suc n) isFirst workHours holidays start day remaining =
     (if (case remaining of None \<Rightarrow> False | Some r \<Rightarrow> r > 0) then
        (case slots_loop isFirst start (midnight day) (day_slots workHours holidays day) remaining of
           Inl due \<Rightarrow> due
         | Inr remaining' \<Rightarrow> days_loop n False workHours holidays start (midnight day + day_ms) remaining')
      else day)"

definition addWorkingSeconds :: "time \<Rightarrow> int \<Rightarrow> work_hours \<Rightarrow> time list \<Rightarrow> time" where
  "addWorkingSeconds start seconds workHours holidays =
     days_loop 60 True workHours holidays start start (Some seconds)"

section \<open>Working instants\<close>

text \<open>The instants a list of slots covers on the day that starts at \<open>m\<close>.\<close>

definition in_slots :: "time \<Rightarrow> slots \<Rightarrow> time \<Rightarrow> bool" where
  "in_slots m sl t \<longleftrightarrow>
     (\<exists>(a, b) \<in> set sl. case (parseMinutes a, parseMinutes b) of
        (Some s, Some e) \<Rightarrow> m + s * 60000 \<le> t \<and> t < m + e * 60000
      | _ \<Rightarrow> False)"

definition working :: "work_hours \<Rightarrow> time list \<Rightarrow> time \<Rightarrow> bool" where
  "working workHours holidays t \<longleftrightarrow> in_slots (midnight t) (day_slots workHours holidays t) t"

text \<open>The working time in \<open>[a, b)\<close>.\<close>

definition worked :: "work_hours \<Rightarrow> time list \<Rightarrow> time \<Rightarrow> time \<Rightarrow> int" where
  "worked workHours holidays a b = int (card ({a..<b} \<inter> Collect (working workHours holidays)))"

text \<open>Slots that parse, are not empty, lie inside the day from minute \<open>lo\<close> on, and are in order.\<close>

fun slots_ok :: "int \<Rightarrow> slots \<Rightarrow> bool" where
  "slots_ok lo [] = (lo \<le> 1440)"
| "slots_ok lo ((a, b) # sl) =
     (case (parseMinutes a, parseMinutes b) of
        (Some s, Some e) \<Rightarrow> lo \<le> s \<and> s < e \<and> slots_ok e sl
      | _ \<Rightarrow> False)"

definition schedule_ok :: "work_hours \<Rightarrow> bool" where
  "schedule_ok workHours \<longleftrightarrow> (\<forall>(k, sl) \<in> set workHours. slots_ok 0 sl)"

section \<open>Counting\<close>

definition counted :: "time set \<Rightarrow> time \<Rightarrow> time \<Rightarrow> int" where
  "counted A a b = int (card ({a..<b} \<inter> A))"

lemma counted_empty [simp]: "b \<le> a \<Longrightarrow> counted A a b = 0"
  by (simp add: counted_def)

lemma counted_append:
  assumes "a \<le> x" "x \<le> y"
  shows "counted A a y = counted A a x + counted A x y"
proof -
  have "{a..<y} \<inter> A = ({a..<x} \<inter> A) \<union> ({x..<y} \<inter> A)"
    using assms by auto
  moreover have "({a..<x} \<inter> A) \<inter> ({x..<y} \<inter> A) = {}"
    by auto
  ultimately show ?thesis
    by (simp add: counted_def card_Un_disjoint)
qed

lemma counted_gap:
  assumes "\<And>t. a \<le> t \<Longrightarrow> t < b \<Longrightarrow> t \<notin> A"
  shows "counted A a b = 0"
proof -
  have "{a..<b} \<inter> A = {}"
  proof (rule equals0I)
    fix t assume "t \<in> {a..<b} \<inter> A"
    then show False using assms [of t] by simp
  qed
  then show ?thesis by (simp add: counted_def)
qed

lemma counted_full:
  assumes "a \<le> b" "\<And>t. a \<le> t \<Longrightarrow> t < b \<Longrightarrow> t \<in> A"
  shows "counted A a b = b - a"
proof -
  have "{a..<b} \<subseteq> A"
  proof
    fix t assume "t \<in> {a..<b}"
    then show "t \<in> A" using assms(2) [of t] by simp
  qed
  then have "{a..<b} \<inter> A = {a..<b}" by blast
  then show ?thesis using assms(1) by (simp add: counted_def)
qed

lemma counted_skip:
  assumes "x \<le> y" "\<And>t. x \<le> t \<Longrightarrow> t < y \<Longrightarrow> t \<notin> A"
  shows "counted A a y = counted A a x"
proof (cases "a \<le> x")
  case True
  moreover have "counted A x y = 0" by (rule counted_gap) (rule assms(2))
  ultimately show ?thesis using counted_append [of a x y A] assms(1) by linarith
next
  case False
  then have "counted A a y = 0" by (intro counted_gap assms(2)) linarith+
  with False show ?thesis by simp
qed

section \<open>One day\<close>

text \<open>
  Where the loop stands when everything before \<open>x\<close> has been consumed: the working time since the
  start is what the budget lost, plus the fraction of a second dropped at most once, in the slot
  that contains the start.
\<close>

definition lost :: "time \<Rightarrow> int" where
  "lost start = (- start) mod 1000"

definition spent :: "time set \<Rightarrow> time \<Rightarrow> int \<Rightarrow> time \<Rightarrow> int \<Rightarrow> bool" where
  "spent A start seconds x r \<longleftrightarrow>
     (counted A start x = 1000 * (seconds - r) \<or> counted A start x = 1000 * (seconds - r) + lost start) \<and>
     (x \<le> start \<longrightarrow> r = seconds)"

lemma slots_ok_bound: "slots_ok lo sl \<Longrightarrow> lo \<le> 1440"
proof (induction sl arbitrary: lo)
  case (Cons p sl)
  obtain a b where "p = (a, b)" by (cases p)
  with Cons show ?case by (fastforce split: option.splits)
qed simp

lemma in_slots_Cons:
  "parseMinutes a = Some s \<Longrightarrow> parseMinutes b = Some e \<Longrightarrow>
   in_slots m ((a, b) # sl) t \<longleftrightarrow> m + s * 60000 \<le> t \<and> t < m + e * 60000 \<or> in_slots m sl t"
  by (auto simp: in_slots_def)

lemma in_slots_after: "slots_ok lo sl \<Longrightarrow> in_slots m sl t \<Longrightarrow> m + lo * 60000 \<le> t"
proof (induction sl arbitrary: lo)
  case (Cons p sl)
  obtain a b where p: "p = (a, b)" by (cases p)
  with Cons.prems obtain s e where se: "parseMinutes a = Some s" "parseMinutes b = Some e" "lo \<le> s" "s < e" "slots_ok e sl"
    by (auto split: option.splits)
  show ?case
  proof (cases "in_slots m sl t")
    case True
    then have "m + e * 60000 \<le> t" using Cons.IH se by blast
    with se show ?thesis by linarith
  next
    case False
    then have "m + s * 60000 \<le> t" using Cons.prems p se in_slots_Cons by blast
    with se show ?thesis by linarith
  qed
qed (simp add: in_slots_def)

lemma slot_rest:
  assumes m: "1000 dvd m" and start: "start < m + e * 60000"
  shows "(m + e * 60000 - start) mod 1000 = lost start"
proof -
  obtain k where "m = 1000 * k" using m by blast
  then have "m + e * 60000 - start = - start + 1000 * (k + e * 60)" by simp
  then show ?thesis by (simp only: lost_def mod_mult_self2)
qed

text \<open>Consuming one slot, from the window's start \<open>w\<close>: either the budget ends inside it or the
  whole window is taken off.\<close>

lemma take_window:
  assumes full: "\<And>t. w \<le> t \<Longrightarrow> t < se \<Longrightarrow> t \<in> A" and w: "start \<le> w" "w < se"
    and n: "counted A start w = 1000 * (seconds - r) \<or> counted A start w = 1000 * (seconds - r) + lost start"
    and loss: "(se - w) mod 1000 = 0 \<or> counted A start w = 1000 * (seconds - r) \<and> (se - w) mod 1000 = lost start"
    and r: "0 < r"
  shows "r \<le> (se - w) div 1000 \<Longrightarrow>
      w < w + r * 1000 \<and> w + r * 1000 \<le> se \<and> spent A start seconds (w + r * 1000) 0"
    "\<not> r \<le> (se - w) div 1000 \<Longrightarrow> spent A start seconds se (r - (se - w) div 1000)"
proof -
  let ?av = "(se - w) div 1000"
  have av: "se - w = 1000 * ?av + (se - w) mod 1000" by simp
  show "w < w + r * 1000 \<and> w + r * 1000 \<le> se \<and> spent A start seconds (w + r * 1000) 0" if "r \<le> ?av"
  proof -
    have le: "w + r * 1000 \<le> se" using that av pos_mod_sign [of 1000 "se - w"] by linarith
    have "counted A w (w + r * 1000) = r * 1000"
      using full le r by (subst counted_full) auto
    then have "counted A start (w + r * 1000) = counted A start w + r * 1000"
      using w r by (subst counted_append [of _ w]) auto
    then show ?thesis using n le r w by (auto simp: spent_def)
  qed
  show "spent A start seconds se (r - ?av)"
  proof -
    have "counted A w se = se - w" using full w by (subst counted_full) auto
    then have "counted A start se = counted A start w + (1000 * ?av + (se - w) mod 1000)"
      using w av by (subst counted_append [of _ w]) auto
    moreover have "1000 * (seconds - (r - ?av)) = 1000 * (seconds - r) + 1000 * ?av" by simp
    ultimately show ?thesis using n loss w unfolding spent_def by linarith
  qed
qed



lemma spent_skip:
  assumes "spent A start seconds x r" "x \<le> y" "\<And>t. x \<le> t \<Longrightarrow> t < y \<Longrightarrow> t \<notin> A"
  shows "spent A start seconds y r"
proof -
  have "counted A start y = counted A start x"
    by (rule counted_skip [OF assms(2)]) (rule assms(3))
  then show ?thesis using assms(1,2) unfolding spent_def by linarith
qed

definition day_done :: "time set \<Rightarrow> time \<Rightarrow> int \<Rightarrow> time \<Rightarrow> time + int option \<Rightarrow> bool" where
  "day_done A start seconds m z \<longleftrightarrow>
     (case z of
        Inl t \<Rightarrow> start < t \<and> t \<le> m + day_ms \<and> t - 1 \<in> A \<and> spent A start seconds t 0
      | Inr x \<Rightarrow> (\<exists>r. x = Some r \<and> 0 < r \<and> spent A start seconds (m + day_ms) r))"

lemma slots_loop_spec:
  assumes "slots_ok lo sl" "0 \<le> lo" "1000 dvd m" "isFirst \<or> start \<le> m"
    and agree: "\<And>t. m + lo * 60000 \<le> t \<Longrightarrow> t < m + day_ms \<Longrightarrow> t \<in> A \<longleftrightarrow> in_slots m sl t"
    and "spent A start seconds (m + lo * 60000) r" "0 < r"
  shows "day_done A start seconds m (slots_loop isFirst start m sl (Some r))"
  using assms
proof (induction sl arbitrary: lo r)
  case Nil
  have "spent A start seconds (m + day_ms) r"
    by (rule spent_skip [OF Nil.prems(6)]) (use Nil.prems in \<open>auto simp: day_ms_def in_slots_def\<close>)
  with Nil.prems show ?case by (simp add: day_done_def)
next
  case (Cons p sl)
  obtain a b where p: "p = (a, b)" by (cases p)
  with Cons.prems(1) obtain s e where ab: "parseMinutes a = Some s" "parseMinutes b = Some e"
    and se: "lo \<le> s" "s < e" "slots_ok e sl"
    by (auto split: option.splits)
  define ss where "ss = m + s * 60000"
  define ee where "ee = m + e * 60000"
  have e1440: "e \<le> 1440" using slots_ok_bound [OF se(3)] .
  have bounds: "m + lo * 60000 \<le> ss" "ss < ee" "ee \<le> m + day_ms"
    using se e1440 by (simp_all add: ss_def ee_def day_ms_def)
  have A: "t \<in> A \<longleftrightarrow> ss \<le> t \<and> t < ee \<or> in_slots m sl t" if "m + lo * 60000 \<le> t" "t < m + day_ms" for t
    using Cons.prems(5) [OF that] p in_slots_Cons [OF ab] by (simp add: ss_def ee_def)
  have later: "ee \<le> t" if "in_slots m sl t" for t
    using in_slots_after [OF se(3) that] by (simp add: ee_def)
  have at_ss: "spent A start seconds ss r"
  proof (rule spent_skip [OF Cons.prems(6) bounds(1)])
    fix t assume "m + lo * 60000 \<le> t" "t < ss"
    then show "t \<notin> A" using A [of t] later [of t] bounds by auto
  qed
  have full: "t \<in> A" if "ss \<le> t" "t < ee" for t
    using A [of t] that bounds by simp
  have rest: "day_done A start seconds m (slots_loop isFirst start m sl (Some r'))"
    if "spent A start seconds ee r'" "0 < r'" for r'
  proof (rule Cons.IH)
    show "t \<in> A \<longleftrightarrow> in_slots m sl t" if "m + e * 60000 \<le> t" "t < m + day_ms" for t
      using A [of t] that bounds by (auto simp: ee_def)
  qed (use that se Cons.prems in \<open>auto simp: ee_def\<close>)
  define w where "w = (if isFirst \<and> start > ss then start else ss)"
  have loop: "slots_loop isFirst start m (p # sl) (Some r) =
    (if w \<ge> ee then slots_loop isFirst start m sl (Some r)
     else if r \<le> (ee - w) div 1000 then Inl (w + r * 1000)
     else slots_loop isFirst start m sl (Some (r - (ee - w) div 1000)))"
    using se by (simp add: p ab Let_def w_def ss_def ee_def)
  show ?case
  proof (cases "w \<ge> ee")
    case True
    then have w: "w = start" "ss < start" "ee \<le> start" using bounds by (auto simp: w_def split: if_splits)
    then have "r = seconds" using at_ss by (simp add: spent_def)
    with w have "spent A start seconds ee r" by (simp add: spent_def)
    from rest [OF this Cons.prems(7)] show ?thesis by (simp only: loop True if_True)
  next
    case False
    have "start \<le> w \<and> ss \<le> w \<and>
      (counted A start w = 1000 * (seconds - r) \<or> counted A start w = 1000 * (seconds - r) + lost start) \<and>
      ((ee - w) mod 1000 = 0 \<or> counted A start w = 1000 * (seconds - r) \<and> (ee - w) mod 1000 = lost start)"
    proof (cases "isFirst \<and> start > ss")
      case True
      then have "r = seconds" "w = start" using at_ss by (simp_all add: spent_def w_def)
      with True False slot_rest [OF Cons.prems(3), of start e] show ?thesis by (simp add: ee_def)
    next
      case f: False
      have "start \<le> ss" using f Cons.prems(2,4) se bounds by (auto simp: ss_def)
      moreover have "ee - ss = 1000 * ((e - s) * 60)" by (simp add: ee_def ss_def algebra_simps)
      ultimately show ?thesis using f at_ss by (auto simp: w_def spent_def)
    qed
    then have sw: "start \<le> w" "ss \<le> w"
      and n: "counted A start w = 1000 * (seconds - r) \<or> counted A start w = 1000 * (seconds - r) + lost start"
      and l: "(ee - w) mod 1000 = 0 \<or> counted A start w = 1000 * (seconds - r) \<and> (ee - w) mod 1000 = lost start"
      by blast+
    have fw: "t \<in> A" if "w \<le> t" "t < ee" for t
      using full [of t] that sw by simp
    have wee: "w < ee" using False by simp
    show ?thesis
    proof (cases "r \<le> (ee - w) div 1000")
      case True
      have "w < w + r * 1000 \<and> w + r * 1000 \<le> ee \<and> spent A start seconds (w + r * 1000) 0"
        by (rule take_window(1) [OF fw sw(1) wee n l Cons.prems(7) True])
      with sw bounds fw [of "w + r * 1000 - 1"] have "day_done A start seconds m (Inl (w + r * 1000))"
        by (auto simp: day_done_def)
      then show ?thesis using True False by (simp only: loop if_True if_False)
    next
      case out: False
      have "spent A start seconds ee (r - (ee - w) div 1000)"
        by (rule take_window(2) [OF fw sw(1) wee n l Cons.prems(7) out])
      from rest [OF this] out False show ?thesis by (simp only: loop if_False)
    qed
  qed
qed

section \<open>All days\<close>

lemma midnight_le: "midnight t \<le> t" "t < midnight t + day_ms"
proof -
  have "t = midnight t + t mod day_ms" by (simp add: midnight_def)
  moreover have "0 \<le> t mod day_ms" "t mod day_ms < day_ms" by (simp_all add: day_ms_def)
  ultimately show "midnight t \<le> t" "t < midnight t + day_ms" by linarith+
qed

lemma midnight_next [simp]: "midnight (midnight t + day_ms) = midnight t + day_ms"
proof -
  have "midnight t + day_ms = (t div day_ms + 1) * day_ms" by (simp add: midnight_def algebra_simps)
  then show ?thesis by (simp add: midnight_def day_ms_def)
qed

lemma midnight_mod: "1000 dvd midnight t"
  by (simp add: midnight_def day_ms_def)

lemma same_day: "midnight d \<le> t \<Longrightarrow> t < midnight d + day_ms \<Longrightarrow> t div day_ms = d div day_ms"
proof -
  assume a: "midnight d \<le> t" "t < midnight d + day_ms"
  have "t = d div day_ms * day_ms + (t - midnight d)" by (simp add: midnight_def)
  moreover have "(d div day_ms * day_ms + (t - midnight d)) div day_ms = d div day_ms"
    using a by (subst div_mult_self3) (simp_all add: day_ms_def div_pos_pos_trivial)
  ultimately show ?thesis by simp
qed

lemma working_same_day:
  assumes "midnight d \<le> t" "t < midnight d + day_ms"
  shows "working wh hol t \<longleftrightarrow> in_slots (midnight d) (day_slots wh hol d) t"
  using same_day [OF assms] by (simp add: working_def midnight_def day_slots_def is_holiday_def dayKey_def)

lemma day_slots_ok: "schedule_ok wh \<Longrightarrow> slots_ok 0 (day_slots wh hol d)"
  by (auto simp: schedule_ok_def day_slots_def split: option.splits dest: map_of_SomeD)

lemma days_loop_spec:
  assumes "schedule_ok wh" "isFirst \<and> day = start \<or> start \<le> midnight day" "n = 0 \<longrightarrow> midnight day = day"
    "spent (Collect (working wh hol)) start seconds (midnight day) r" "0 < r"
    "t = days_loop n isFirst wh hol start day (Some r)"
  shows "t \<le> midnight day + int n * day_ms \<and>
    (start < t \<and> working wh hol (t - 1) \<and> spent (Collect (working wh hol)) start seconds t 0 \<or>
     (\<exists>r > 0. t = midnight day + int n * day_ms \<and> spent (Collect (working wh hol)) start seconds t r))"
  using assms
proof (induction n arbitrary: isFirst day r)
  case 0
  then show ?case by auto
next
  case (Suc n)
  let ?A = "Collect (working wh hol)"
  let ?z = "slots_loop isFirst start (midnight day) (day_slots wh hol day) (Some r)"
  have dd: "day_done ?A start seconds (midnight day) ?z"
    using Suc.prems by (intro slots_loop_spec [where lo = 0]) (auto simp: day_slots_ok midnight_mod working_same_day)
  show ?case
  proof (cases ?z)
    case (Inl u)
    have "0 \<le> int n * day_ms" by (simp add: day_ms_def)
    moreover have "t = u" using Inl Suc.prems by simp
    ultimately show ?thesis using dd Inl by (auto simp: day_done_def algebra_simps)
  next
    case (Inr x)
    with dd obtain r' where r': "x = Some r'" "0 < r'" "spent ?A start seconds (midnight day + day_ms) r'"
      by (auto simp: day_done_def)
    have "start \<le> midnight day + day_ms"
      using Suc.prems(2) midnight_le [of start] by (auto simp: day_ms_def)
    then have "t \<le> midnight (midnight day + day_ms) + int n * day_ms \<and>
      (start < t \<and> working wh hol (t - 1) \<and> spent ?A start seconds t 0 \<or>
       (\<exists>r > 0. t = midnight (midnight day + day_ms) + int n * day_ms \<and> spent ?A start seconds t r))"
      using Suc.prems Inr r' by (intro Suc.IH [where isFirst = False and r = r']) auto
    then show ?thesis unfolding midnight_next by (simp add: algebra_simps)
  qed
qed

section \<open>Properties\<close>

lemma addWorkingSeconds_budget:
  fixes wh :: work_hours and start :: time and hol :: "time list"
  assumes "schedule_ok wh" "0 < seconds"
  defines "due \<equiv> addWorkingSeconds start seconds wh hol"
  shows "start < due \<and> due \<le> midnight start + 60 * day_ms \<and>
    (worked wh hol start due \<in> {1000 * seconds, 1000 * seconds + (- start) mod 1000} \<and> working wh hol (due - 1) \<or>
     due = midnight start + 60 * day_ms \<and> worked wh hol start due < 1000 * seconds)"
proof -
  let ?A = "Collect (working wh hol)"
  have w: "worked wh hol start due = counted ?A start due"
    by (simp add: worked_def counted_def)
  have "spent ?A start seconds (midnight start) seconds"
    using midnight_le [of start] by (simp add: spent_def)
  with assms(1,2) have main: "due \<le> midnight start + int 60 * day_ms \<and>
    (start < due \<and> working wh hol (due - 1) \<and> spent ?A start seconds due 0 \<or>
     (\<exists>r > 0. due = midnight start + int 60 * day_ms \<and> spent ?A start seconds due r))"
    by (intro days_loop_spec) (auto simp: due_def addWorkingSeconds_def)
  then show ?thesis
  proof (elim conjE disjE exE)
    assume "start < due" "working wh hol (due - 1)" "spent ?A start seconds due 0"
    with main show ?thesis by (auto simp: w spent_def lost_def)
  next
    fix r :: int
    assume r: "0 < r" "due = midnight start + int 60 * day_ms" "spent ?A start seconds due r"
    have "0 \<le> lost start" "lost start < 1000" by (simp_all add: lost_def)
    with r have "counted ?A start due < 1000 * seconds" by (auto simp: spent_def)
    moreover have "start < due" using r midnight_le [of start] by (simp add: day_ms_def)
    ultimately show ?thesis using r(2) main unfolding w by simp
  qed
qed


text \<open>
  C24: The due date is right. For a schedule whose slots are in order and inside the day, and a
  positive budget, the due date is after the start and at most sixty days after its midnight, and
  either exactly the budget has been worked between the two (plus, for a start inside a slot and not
  on a full second, the rest of that second), the last worked millisecond being just before the due
  date, or the cap was reached with less than the budget worked.
\<close>

theorem addWorkingSeconds_spec:
  assumes "schedule_ok wh" "0 < seconds" "due = addWorkingSeconds start seconds wh hol"
  shows "start < due \<and> due \<le> midnight start + 60 * day_ms \<and>
    (worked wh hol start due \<in> {1000 * seconds, 1000 * seconds + (- start) mod 1000} \<and> working wh hol (due - 1) \<or>
     due = midnight start + 60 * day_ms \<and> worked wh hol start due < 1000 * seconds)"
  using addWorkingSeconds_budget [OF assms(1,2), of start hol] by (simp only: assms(3))

definition office_hours :: work_hours where
  "office_hours = [(''thu'', [(''09:00'', ''12:00''), (''13:00'', ''17:00'')]), (''fri'', [(''09:00'', ''12:00'')])]"

lemma office_hours_ok: "schedule_ok office_hours"
  unfolding schedule_ok_def office_hours_def by code_simp

lemma office_hours_due:
  "addWorkingSeconds 57600000 7200 office_hours [] = 122400000"
  "addWorkingSeconds 57600000 7200 office_hours [86400000] = 640800000"
  unfolding office_hours_def by code_simp+

theorem addWorkingSeconds_spec_witness:
  "worked office_hours [] 57600000 122400000 = 7200000 \<and> working office_hours [] 122399999"
  using addWorkingSeconds_spec [of office_hours 7200 122400000 57600000 "[]"] office_hours_ok
  by (simp add: office_hours_due midnight_def day_ms_def)

text \<open>
  A start time that does not parse makes the budget not-a-number: whatever the rest of the
  schedule and the budget are, the due date is then the first midnight after the start, and not
  the sixty-day cap the source names for misconfigured schedules.
\<close>

theorem addWorkingSeconds_unparsable:
  assumes "day_slots wh hol start = (a, b) # sl" "parseMinutes a = None \<or> parseMinutes b = None" "0 < seconds"
  shows "addWorkingSeconds start seconds wh hol = midnight start + day_ms"
proof -
  have nan: "slots_loop isFirst start m sl None = Inr None" for isFirst m sl
    by (induction isFirst start m sl "None :: int option" rule: slots_loop.induct) (auto simp: Let_def split: option.splits)
  have "slots_loop True start (midnight start) (day_slots wh hol start) (Some seconds) = Inr None"
    using assms(1,2) nan by (auto split: option.splits)
  moreover have "days_loop 59 False wh hol start d None = d" for d
    by (subst days_loop.simps(2) [of 58, simplified]) simp
  ultimately show ?thesis
    using assms(3) by (simp add: addWorkingSeconds_def days_loop.simps(2) [of 59, simplified])
qed

definition typo_hours :: work_hours where
  "typo_hours = [(''thu'', [(''9h00'', ''x'')]), (''fri'', [(''09:00'', ''12:00'')])]"

theorem addWorkingSeconds_unparsable_witness:
  "addWorkingSeconds 57600000 7200 typo_hours [] = 86400000"
proof -
  have "day_slots typo_hours [] 57600000 = [(''9h00'', ''x'')]" "parseMinutes ''x'' = None"
    unfolding typo_hours_def by code_simp+
  then show ?thesis
    using addWorkingSeconds_unparsable [of typo_hours "[]" 57600000 "''9h00''" "''x''" "[]" 7200]
    by (simp add: midnight_def day_ms_def)
qed

end
