(* ===== verification/Sla.thy ===== *)
theory Sla
  imports WorkflowExecutor WorkingTime
begin

text \<open>
  Service levels (\<open>sla/sla.service.ts\<close>): the due dates of a ticket, the periodic scan for breached
  tickets, and the transaction that claims a breach, marks the ticket and runs the escalation rules
  of its plan. Unreadable rule actions follow the dynamic semantics of the source: a property read
  on \<open>null\<close> throws, and an id that is not an integer is refused by the database client.
\<close>

section \<open>Due dates\<close>

record due_dates =
  dd_dueAt :: "time option"
  dd_resolutionDueAt :: "time option"

definition plan_by_id :: "nat \<Rightarrow> db \<Rightarrow> sla_plan option" where
  "plan_by_id i d = find_row (\<lambda>p. pl_id p = i) (plans d)"

definition schedule_of :: "sla_plan \<Rightarrow> db \<Rightarrow> sla_schedule option" where
  "schedule_of p d = (case pl_scheduleId p of None \<Rightarrow> None | Some i \<Rightarrow> find_row (\<lambda>s. sc_id s = i) (schedules d))"

text \<open>\<open>seconds ? advance(seconds) : null\<close>.\<close>

definition offset :: "(int \<Rightarrow> time) \<Rightarrow> int option \<Rightarrow> time option" where
  "offset advance z = (case z of None \<Rightarrow> None | Some s \<Rightarrow> if s = 0 then None else Some (advance s))"

definition computeDueDates :: "nat \<Rightarrow> time \<Rightarrow> db \<Rightarrow> due_dates" where
  "computeDueDates slaPlanId now d =
     (case plan_by_id slaPlanId d of
        None \<Rightarrow> \<lparr>dd_dueAt = None, dd_resolutionDueAt = None\<rparr>
      | Some plan \<Rightarrow>
          if \<not> pl_isEnabled plan then \<lparr>dd_dueAt = None, dd_resolutionDueAt = None\<rparr>
          else (let advance = (case schedule_of plan d of
                   None \<Rightarrow> (\<lambda>s. now + s * 1000)
                 | Some sch \<Rightarrow> (\<lambda>s. addWorkingSeconds now s (sc_workHours sch) (sc_holidays sch)))
                in \<lparr>dd_dueAt = offset advance (pl_firstResponseSeconds plan),
                    dd_resolutionDueAt = offset advance (pl_resolutionSeconds plan)\<rparr>))"

text \<open>The plan of a new ticket; \<open>orgPlan\<close> reads the plan of an organization.\<close>

definition resolvePlanForTicket :: "(nat \<Rightarrow> nat option) \<Rightarrow> nat option \<Rightarrow> db \<Rightarrow> nat option" where
  "resolvePlanForTicket orgPlan organizationId d =
     (case (case organizationId of None \<Rightarrow> None | Some oid \<Rightarrow> orgPlan oid) of
        Some planId \<Rightarrow> Some planId
      | None \<Rightarrow> (case sort_key pl_id (filter pl_isEnabled (plans d)) of [] \<Rightarrow> None | p # _ \<Rightarrow> Some (pl_id p)))"

section \<open>The scan\<close>

definition SLA_BREACH_SCAN_CAP :: nat where
  "SLA_BREACH_SCAN_CAP = 1000"

record breach_entry =
  br_ticket :: ticket
  br_breachType :: sla_target
  br_minutesOverdue :: int

definition past :: "time \<Rightarrow> time option \<Rightarrow> bool" where
  "past now z = (case z of None \<Rightarrow> False | Some t \<Rightarrow> t < now)"

definition first_response_breached :: "time \<Rightarrow> ticket \<Rightarrow> bool" where
  "first_response_breached now t \<longleftrightarrow> past now (t_dueAt t) \<and> t_firstResponseAt t = None"

definition minutes_overdue :: "time \<Rightarrow> time option \<Rightarrow> int" where
  "minutes_overdue now z = (case z of None \<Rightarrow> 0 | Some t \<Rightarrow> (now - t) div 60000)"

definition ticket_breaches :: "time \<Rightarrow> ticket \<Rightarrow> breach_entry list" where
  "ticket_breaches now t =
     (if first_response_breached now t
      then [\<lparr>br_ticket = t, br_breachType = FirstResponse, br_minutesOverdue = minutes_overdue now (t_dueAt t)\<rparr>] else []) @
     (if past now (t_resolutionDueAt t)
      then [\<lparr>br_ticket = t, br_breachType = Resolution, br_minutesOverdue = minutes_overdue now (t_resolutionDueAt t)\<rparr>] else [])"

definition scannable :: "time \<Rightarrow> ticket \<Rightarrow> bool" where
  "scannable now t \<longleftrightarrow>
     \<not> t_isResolved t \<and> t_mergedIntoId t = None \<and> \<not> t_isEscalated t \<and>
     (first_response_breached now t \<or> past now (t_resolutionDueAt t))"

definition checkBreaches :: "time \<Rightarrow> db \<Rightarrow> breach_entry list" where
  "checkBreaches now d =
     concat (map (ticket_breaches now) (take SLA_BREACH_SCAN_CAP (sort_key t_id (filter (scannable now) (tickets d)))))"

section \<open>Escalation actions\<close>

fun js_truthy :: "js \<Rightarrow> bool" where
  "js_truthy JUndef = False"
| "js_truthy JNull = False"
| "js_truthy (JBool b) = b"
| "js_truthy (JNum r) = (r \<noteq> 0)"
| "js_truthy (JStr s) = (s \<noteq> '''')"
| "js_truthy _ = True"

text \<open>An argument for an integer column: anything but a 32-bit integer is refused by the client.\<close>

definition int_arg :: "js \<Rightarrow> int act_db" where
  "int_arg v =
     (case v of
        JNum r \<Rightarrow> if rat_is_int r \<and> \<bar>rat_int r\<bar> \<le> 2147483647 then ret (rat_int r) else throw (Failure ''PrismaClientValidationError'')
      | _ \<Rightarrow> throw (Failure ''PrismaClientValidationError''))"

definition staff_by_int :: "int \<Rightarrow> db \<Rightarrow> staff option" where
  "staff_by_int i d = (if i < 0 then None else staff_by_id (nat i) d)"

fun breach_str :: "sla_target \<Rightarrow> string" where
  "breach_str FirstResponse = ''FIRST_RESPONSE''"
| "breach_str Resolution = ''RESOLUTION''"

definition sla_alert :: "ticket \<Rightarrow> staff \<Rightarrow> escalation_rule \<Rightarrow> sla_target \<Rightarrow> int \<Rightarrow> nat \<Rightarrow> nat \<Rightarrow> notification_input" where
  "sla_alert t s ru breachType minutesOverdue eventId actionIndex =
     \<lparr>ni_ticketId = t_id t, ni_templateKey = ''sla_breach_internal'', ni_locale = ''en'', ni_to = s_email s,
      ni_vars = [(''mask'', t_mask t), (''subject'', t_subject t), (''rule'', ru_name ru), (''staff'', s_firstName s),
                 (''breachType'', breach_str breachType), (''minutesOverdue'', int_str minutesOverdue)],
      ni_idempotencyKey = ''internal:sla:event:'' @ nat_str eventId @ '':rule:'' @ nat_str (ru_id ru) @
        '':action:'' @ nat_str actionIndex @ '':staff:'' @ nat_str (s_id s),
      ni_slaEventId = Some eventId\<rparr>"

definition notify_action :: "env \<Rightarrow> ticket \<Rightarrow> escalation_rule \<Rightarrow> sla_target \<Rightarrow> int \<Rightarrow> nat \<Rightarrow> nat \<Rightarrow> js \<Rightarrow> nat option act_db" where
  "notify_action env t ru breachType minutesOverdue eventId actionIndex action =
     (let staffId = js_or_else (js_prop action ''staffId'') (js_nat_opt (t_ownerStaffId t)) in
      if \<not> js_truthy staffId then ret None
      else bnd (int_arg staffId) (\<lambda>i.
           bnd (reads (\<lambda>d. (staff_by_int i d, d))) (\<lambda>(staff, d).
             case staff of
               None \<Rightarrow> ret None
             | Some s \<Rightarrow>
                 if s_email s = '''' \<or> \<not> s_isEnabled s then ret None
                 else if \<not> in_scope d s (t_departmentId t) then ret None
                 else bnd (notify env (sla_alert t s ru breachType minutesOverdue eventId actionIndex)) (\<lambda>c. ret (Some c)))))"

definition executeAction :: "env \<Rightarrow> ticket \<Rightarrow> escalation_rule \<Rightarrow> sla_target \<Rightarrow> int \<Rightarrow> nat \<Rightarrow> nat \<Rightarrow> js \<Rightarrow> nat option act_db" where
  "executeAction env t ru breachType minutesOverdue eventId actionIndex action =
     (if js_is_nullish action then throw (Failure ''TypeError'')
      else if js_prop action ''type'' = JStr ''notify'' then
        notify_action env t ru breachType minutesOverdue eventId actionIndex action
      else if js_prop action ''type'' = JStr ''change_priority'' then
        (if js_truthy (js_prop action ''priorityId'') then
           bnd (int_arg (js_prop action ''priorityId'')) (\<lambda>p.
             if p < 0 then throw (Failure ''P2003'')
             else sq (update_ticket (t_id t) (\<lambda>x. x\<lparr>t_priorityId := nat p\<rparr>)) (ret None))
         else ret None)
      else if js_prop action ''type'' = JStr ''assign'' then
        (if js_truthy (js_prop action ''staffId'') then
           bnd (int_arg (js_prop action ''staffId'')) (\<lambda>i.
           bnd (reads (staff_by_int i)) (\<lambda>assignee.
             case assignee of
               None \<Rightarrow> throw (Failure (''SLA assignment target '' @ int_str i @ '' is unavailable''))
             | Some s \<Rightarrow>
                 if \<not> s_isEnabled s then throw (Failure (''SLA assignment target '' @ int_str i @ '' is unavailable''))
                 else sq (update_ticket (t_id t) (\<lambda>x. x\<lparr>t_ownerStaffId := Some (nat i)\<rparr>)) (ret None)))
         else ret None)
      else if js_prop action ''type'' = JStr ''add_note'' then
        (if js_truthy (js_prop action ''note'') then
           sq (create_note (t_id t) None (''[SLA Escalation: '' @ ru_name ru @ ''] '' @ js_string (en_host env) (js_prop action ''note'')))
              (ret None)
         else ret None)
      else if js_prop action ''type'' = JStr ''mark_escalated'' then
        sq (update_ticket (t_id t) (\<lambda>x. x\<lparr>t_isEscalated := True\<rparr>)) (ret None)
      else ret None)"

definition due_rules :: "sla_target \<Rightarrow> int \<Rightarrow> escalation_rule list \<Rightarrow> escalation_rule list" where
  "due_rules breachType minutesOverdue planRules =
     filter (\<lambda>r. ru_targetType r = breachType \<and> ru_thresholdSeconds r \<le> minutesOverdue * 60) planRules"

definition executeEscalationRules :: "env \<Rightarrow> ticket \<Rightarrow> sla_target \<Rightarrow> int \<Rightarrow> escalation_rule list \<Rightarrow> nat \<Rightarrow> nat list act_db" where
  "executeEscalationRules env t breachType minutesOverdue planRules eventId =
     (if t_slaPlanId t = None then ret []
      else bnd (each (\<lambda>ru. each (\<lambda>(actionIndex, action). executeAction env t ru breachType minutesOverdue eventId actionIndex action)
                             (List.enumerate 0 (ru_actions ru)))
                     (due_rules breachType minutesOverdue planRules)) (\<lambda>ids.
           ret (List.map_filter id (concat ids))))"

section \<open>Claiming a breach\<close>

definition active_breach :: "sla_target \<Rightarrow> time \<Rightarrow> ticket \<Rightarrow> bool" where
  "active_breach breachType now t \<longleftrightarrow>
     \<not> t_isResolved t \<and> t_mergedIntoId t = None \<and>
     (case breachType of FirstResponse \<Rightarrow> first_response_breached now t | Resolution \<Rightarrow> past now (t_resolutionDueAt t))"

definition activeBreachWhere :: "nat \<Rightarrow> sla_target \<Rightarrow> time \<Rightarrow> ticket \<Rightarrow> bool" where
  "activeBreachWhere ticketId breachType now t \<longleftrightarrow> t_id t = ticketId \<and> active_breach breachType now t"

definition sla_source_key :: "nat \<Rightarrow> sla_target \<Rightarrow> string" where
  "sla_source_key ticketId breachType = ''sla:ticket:'' @ nat_str ticketId @ '':breach:'' @ breach_str breachType"

text \<open>\<open>slaEscalationEvent.create\<close> under its two unique indexes.\<close>

definition create_sla_event :: "nat \<Rightarrow> sla_target \<Rightarrow> string \<Rightarrow> nat act_db" where
  "create_sla_event ticketId breachType key d =
     (if \<exists>e \<in> set (sla_events d). ev_sourceKey e = key \<or> ev_ticketId e = ticketId \<and> ev_breachType e = breachType
      then (Inl (UniqueViolation ''SlaEscalationEvent''), d)
      else (Inr (seq_sla d),
            d\<lparr>sla_events := sla_events d @ [\<lparr>ev_id = seq_sla d, ev_ticketId = ticketId, ev_breachType = breachType, ev_sourceKey = key\<rparr>],
              seq_sla := Suc (seq_sla d)\<rparr>))"

definition plan_rules :: "ticket \<Rightarrow> db \<Rightarrow> escalation_rule list" where
  "plan_rules t d =
     (case t_slaPlanId t of
        None \<Rightarrow> []
      | Some planId \<Rightarrow> sort_key ru_thresholdSeconds (filter (\<lambda>r. ru_slaPlanId r = planId \<and> ru_isEnabled r) (rules d)))"

definition stale_breach :: error where
  "stale_breach = Failure ''StaleSlaBreachError''"

definition escalate :: "ticket \<Rightarrow> ticket" where
  "escalate t = t\<lparr>t_isEscalated := True, t_escalationLevel := t_escalationLevel t + 1\<rparr>"

definition claim_breach :: "env \<Rightarrow> nat \<Rightarrow> sla_target \<Rightarrow> int \<Rightarrow> nat list act_db" where
  "claim_breach env ticketId breachType minutesOverdue =
     bnd (reads (\<lambda>d. find_row (activeBreachWhere ticketId breachType (en_now env)) (tickets d))) (\<lambda>current.
       case current of
         None \<Rightarrow> ret []
       | Some t \<Rightarrow>
           bnd (reads (plan_rules t)) (\<lambda>planRules.
           bnd (create_sla_event (t_id t) breachType (sla_source_key ticketId breachType)) (\<lambda>eventId.
           sq (update_many_tickets (\<lambda>x. activeBreachWhere (t_id t) breachType (en_now env) x \<and> \<not> t_isEscalated x) escalate)
          (bnd (reads (\<lambda>d. find_row (activeBreachWhere (t_id t) breachType (en_now env)) (tickets d))) (\<lambda>after.
             case after of
               None \<Rightarrow> throw stale_breach
             | Some t' \<Rightarrow> executeEscalationRules env t' breachType minutesOverdue planRules eventId)))))"

text \<open>Every failure of the transaction is logged, whether stale, lost to another worker or an error;
  the outbox commands of a committed one are then woken.\<close>

definition processBreach :: "env \<Rightarrow> nat \<Rightarrow> sla_target \<Rightarrow> int \<Rightarrow> nat list act_db" where
  "processBreach env ticketId breachType minutesOverdue =
     catch_act (txn (claim_breach env ticketId breachType minutesOverdue)) (\<lambda>_. ret [])"

definition runPeriodicCheck :: "env \<Rightarrow> nat list list act_db" where
  "runPeriodicCheck env =
     bnd (reads (checkBreaches (en_now env))) (\<lambda>breaches.
       each (\<lambda>b. processBreach env (t_id (br_ticket b)) (br_breachType b) (br_minutesOverdue b)) breaches)"

section \<open>What the rules may touch\<close>

text \<open>
  The actions of a breach of ticket \<open>i\<close> in department \<open>dep\<close>: they change no other ticket, never take
  back an escalation, and only mail staff who may see that department.
\<close>

definition ticket_step :: "nat \<Rightarrow> ticket \<Rightarrow> ticket \<Rightarrow> bool" where
  "ticket_step i t t' \<longleftrightarrow>
     t_id t' = t_id t \<and> t_escalationLevel t' = t_escalationLevel t \<and> (t_isEscalated t \<longrightarrow> t_isEscalated t') \<and>
     t_departmentId t' = t_departmentId t \<and> (t_id t \<noteq> i \<longrightarrow> t' = t)"

definition alerted :: "nat \<Rightarrow> nat \<Rightarrow> db \<Rightarrow> outbound \<Rightarrow> bool" where
  "alerted i dep d r \<longleftrightarrow> o_ticketId r = Some i \<and> o_kind r = InternalNotification \<and>
     (\<exists>s \<in> set (staffs d). s_isEnabled s \<and> in_scope d s dep \<and> one_recipient (o_recipients r) (normalizeEmail (s_email s)))"

definition sla_frame :: "nat \<Rightarrow> nat \<Rightarrow> db \<Rightarrow> db \<Rightarrow> bool" where
  "sla_frame i dep d d' \<longleftrightarrow>
     staffs d' = staffs d \<and> groups d' = groups d \<and> dept_staff d' = dept_staff d \<and> sla_events d' = sla_events d \<and>
     posts d' = posts d \<and> watchers d' = watchers d \<and> links d' = links d \<and> attachments d' = attachments d \<and>
     list_all2 (ticket_step i) (tickets d) (tickets d') \<and>
     (\<forall>r \<in> set (outbox d'). r \<in> set (outbox d) \<or> alerted i dep d r)"

lemma ticket_step_refl: "ticket_step i t t"
  by (simp add: ticket_step_def)

lemma ticket_step_trans: "ticket_step i t u \<Longrightarrow> ticket_step i u v \<Longrightarrow> ticket_step i t v"
  by (auto simp: ticket_step_def)

lemma alerted_cong:
  "staffs d' = staffs d \<Longrightarrow> groups d' = groups d \<Longrightarrow> dept_staff d' = dept_staff d \<Longrightarrow> alerted i dep d' r = alerted i dep d r"
  by (simp add: alerted_def in_scope_def staff_is_admin_def group_by_id_def is_member_def)

interpretation sla: frame "sla_frame i dep" for i dep
proof unfold_locales
  show "sla_frame i dep d d" for d
    by (simp add: sla_frame_def list_all2_refl ticket_step_refl)
  show "sla_frame i dep d e" if "sla_frame i dep d d'" "sla_frame i dep d' e" for d d' e
  proof -
    have "list_all2 (ticket_step i) (tickets d) (tickets e)"
      using that list_all2_trans [of "ticket_step i" "ticket_step i" "ticket_step i"] ticket_step_trans
      unfolding sla_frame_def by blast
    moreover have "alerted i dep d' r = alerted i dep d r" for r
      using that by (intro alerted_cong) (simp_all add: sla_frame_def)
    ultimately show ?thesis using that unfolding sla_frame_def by auto
  qed
qed

lemma sla_update_ticket:
  assumes "\<And>t. t_id t = i \<Longrightarrow> ticket_step i t (f t)"
  shows "sla.stays i dep (update_ticket i f)"
proof -
  have "list_all2 (ticket_step i) ts (update_rows (\<lambda>t. t_id t = i) f ts)" for ts
    using assms by (induction ts) (auto simp: ticket_step_refl)
  then show ?thesis
    unfolding sla.stays_def
    by (auto simp: update_ticket_def set_tickets_def sla_frame_def list_all2_refl ticket_step_refl split: option.splits)
qed

lemma sla_create_note: "sla.stays i dep (create_note j s c)"
  unfolding sla.stays_def by (auto simp: create_note_def sla_frame_def list_all2_refl ticket_step_refl)

lemma createInternal_Inl: "createInternalNotificationEmail cfg uuid now input d = (Inl e, d') \<Longrightarrow> d' = d"
proof -
  assume run: "createInternalNotificationEmail cfg uuid now input d = (Inl e, d')"
  have new: False if "outbound_by_key (ni_idempotencyKey input) d = None" "upsert_outbound (ni_idempotencyKey input) r d = (Inr c, d2)"
    "assertInternalNotificationIdentity c input (normalizeEmail (ni_to input)) d2 = (Inl e, d')"
    "o_ticketId r = Some (ni_ticketId input)" "o_kind r = InternalNotification" "o_slaEventId r = ni_slaEventId input"
    "o_recipients r = [(normalizeEmail (ni_to input), TO)]" for r c d2
    using that upsert_outbound_Inr [OF that(2,1)]
    by (auto simp: assertInternalNotificationIdentity_def act_defs one_recipient_def normalizeEmail_idem)
  have up: "d2 = d" if "upsert_outbound (ni_idempotencyKey input) r d = (Inl e, d2)" for r d2
    using that by (auto simp: upsert_outbound_def act_defs split: option.splits prod.splits sum.splits dest: insert_outbound_Inl)
  show ?thesis
  proof (cases "outbound_by_key (ni_idempotencyKey input) d")
    case (Some r)
    then show ?thesis using run
      by (auto simp: createInternalNotificationEmail_def Let_def act_defs assertInternalNotificationIdentity_def split: if_splits)
  next
    case None
    show ?thesis
    proof (cases "notification_ok input")
      case False
      then show ?thesis using run
        by (auto simp: createInternalNotificationEmail_def notification_ok_def Let_def act_defs split: if_splits)
    next
      case ok: True
      show ?thesis
      proof (cases "renderTemplateRequired (ni_templateKey input) (ni_locale input) (ni_vars input) d")
        case (Pair z d1)
        then have d1: "d1 = d" by (rule renderTemplateRequired_state)
        show ?thesis
          using run None ok Pair d1
          by (auto simp: createInternalNotificationEmail_def notification_ok_def Let_def bnd_def sq_def require_def ret_def reads_def
              split: sum.splits prod.splits if_splits dest: up)
            (drule (1) new [OF None], simp_all add: new_outbound_def)
      qed
    qed
  qed
qed

lemma sla_notify:
  assumes "staff_by_id j d = Some s" "s_isEnabled s" "in_scope d s dep" "ni_ticketId input = i" "ni_to input = s_email s"
    "notify env input d = (x, d')"
  shows "sla_frame i dep d d'"
proof (cases x)
  case (Inl e)
  then have "d' = d" using assms(6) by (auto simp: notify_def act_defs dest: createInternal_Inl)
  then show ?thesis by (simp add: sla.frame_refl)
next
  case (Inr c)
  have s: "s \<in> set (staffs d)" using assms(1) by (auto simp: staff_by_id_def dest: find_row_SomeD)
  have run: "createInternalNotificationEmail (en_mail env) (en_uuid env (seq_outbox d)) (en_now env) input d = (Inr c, d')"
    using assms(6) Inr by (simp add: notify_def act_defs)
  show ?thesis
  proof (cases "outbound_by_key (ni_idempotencyKey input) d")
    case None
    from createInternal_new [OF None run] obtain r where
      "d' = d\<lparr>outbox := outbox d @ [r], seq_outbox := Suc (seq_outbox d)\<rparr>" "o_ticketId r = Some (ni_ticketId input)"
      "o_kind r = InternalNotification" "one_recipient (o_recipients r) (normalizeEmail (ni_to input))"
      by blast
    then show ?thesis
      using assms s by (auto simp: sla_frame_def alerted_def list_all2_refl ticket_step_refl)
  next
    case (Some r)
    then have "d' = d" using run by (simp add: createInternal_found [OF Some])
    then show ?thesis by (simp add: sla.frame_refl)
  qed
qed

lemma sla_notify_action:
  assumes "t_id t = i" "t_departmentId t = dep"
  shows "sla.stays i dep (notify_action env t ru bt mo ev ix a)"
  unfolding sla.stays_def
proof
  fix d
  have ia: "snd (int_arg v d) = d" for v
    by (auto simp: int_arg_def act_defs split: js.splits)
  have n: "sla_frame i dep d (snd (notify env (sla_alert t s ru bt mo ev ix) d))"
    if "staff_by_int k d = Some s" "s_isEnabled s" "in_scope d s dep" for k s
  proof -
    have "staff_by_id (nat k) d = Some s" using that(1) by (simp add: staff_by_int_def split: if_splits)
    then show ?thesis
      using that assms by (intro sla_notify) (auto simp: sla_alert_def prod_eq_iff)
  qed
  show "sla_frame i dep d (snd (notify_action env t ru bt mo ev ix a d))"
    using ia [of "js_or_else (js_prop a ''staffId'') (js_nat_opt (t_ownerStaffId t))"] assms
    by (auto simp: notify_action_def Let_def bnd_def ret_def reads_def sla.frame_refl split: prod.splits sum.splits option.splits
        dest!: n)
qed

lemma sla_int_arg: "sla.stays i dep (int_arg v)"
  by (auto simp: sla.stays_def int_arg_def act_defs sla.frame_refl split: js.splits)

lemma sla_action:
  assumes "t_id t = i" "t_departmentId t = dep"
  shows "sla.stays i dep (executeAction env t ru bt mo ev ix a)"
  unfolding executeAction_def assms(1)
  by (intro sla.stays_intros sla_notify_action [OF assms] sla_int_arg sla_update_ticket sla_create_note)
     (simp_all add: ticket_step_def assms)

lemma sla_rules:
  assumes "t_id t = i" "t_departmentId t = dep"
  shows "sla.stays i dep (executeEscalationRules env t bt mo rs ev)"
  unfolding executeEscalationRules_def
  by (intro sla.stays_intros) (auto split: prod.splits intro: sla_action [OF assms])

lemma find_ticket_step:
  assumes "list_all2 (ticket_step i) ts ts'"
  shows "rel_option (ticket_step i) (find_row (\<lambda>t. t_id t = j) ts) (find_row (\<lambda>t. t_id t = j) ts')"
  using assms by (induction rule: list_all2_induct) (auto simp: ticket_step_def)

lemma activeBreachWhere_eta: "activeBreachWhere i bt now = (\<lambda>t. t_id t = i \<and> active_breach bt now t)"
  by (rule ext) (simp add: activeBreachWhere_def)

lemma find_by_id_unique:
  assumes "distinct (map t_id ts)" "find_row (\<lambda>t. t_id t = i \<and> P t) ts = Some t"
  shows "find_row (\<lambda>t. t_id t = i) ts = Some t"
proof (rule find_row_unique)
  show "t \<in> set ts" "t_id t = i" using find_row_SomeD [OF assms(2)] by auto
  show "r = t" if "r \<in> set ts" "t_id r = i" for r
    using that find_row_SomeD [OF assms(2)] assms(1) by (auto simp: distinct_map dest: inj_onD)
qed

text \<open>The state after the claim of \<open>t\<close> and before its rules run.\<close>

definition claimed :: "time \<Rightarrow> ticket \<Rightarrow> sla_target \<Rightarrow> db \<Rightarrow> db" where
  "claimed now t breachType d =
     d\<lparr>sla_events := sla_events d @ [\<lparr>ev_id = seq_sla d, ev_ticketId = t_id t, ev_breachType = breachType,
         ev_sourceKey = sla_source_key (t_id t) breachType\<rparr>],
       seq_sla := Suc (seq_sla d),
       tickets := update_rows (\<lambda>x. activeBreachWhere (t_id t) breachType now x \<and> \<not> t_isEscalated x) escalate (tickets d)\<rparr>"

definition claimable_breach :: "nat \<Rightarrow> sla_target \<Rightarrow> time \<Rightarrow> db \<Rightarrow> ticket \<Rightarrow> bool" where
  "claimable_breach i breachType now d t \<longleftrightarrow>
     ticket_by_id i d = Some t \<and> active_breach breachType now t \<and>
     (\<forall>e \<in> set (sla_events d). \<not> (ev_ticketId e = i \<and> ev_breachType e = breachType))"

lemma claimed_row:
  assumes "ticket_by_id i d = Some t" "active_breach bt now t"
  shows "ticket_by_id i (claimed now t bt d) = Some (if t_isEscalated t then t else escalate t)"
proof -
  have i: "t_id t = i" using ticket_by_id_SomeD [OF assms(1)] by simp
  have "find_row (\<lambda>x. t_id x = i) (update_rows p escalate (tickets d)) =
      map_option (\<lambda>r. if p r then escalate r else r) (find_row (\<lambda>x. t_id x = i) (tickets d))" for p
    by (rule find_row_update_rows) (simp add: escalate_def)
  then show ?thesis
    using assms i by (simp add: ticket_by_id_def claimed_def activeBreachWhere_def)
qed

lemma claim_breach_commit:
  assumes "claim_breach env i bt mo d = (Inr ids, d')" "distinct (map t_id (tickets d))" "d' \<noteq> d"
  shows "\<exists>t. claimable_breach i bt (en_now env) d t \<and> sla_frame i (t_departmentId t) (claimed (en_now env) t bt d) d'"
proof -
  let ?w = "activeBreachWhere i bt (en_now env)"
  obtain t where t: "find_row ?w (tickets d) = Some t"
    using assms(1,3) by (cases "find_row ?w (tickets d)") (auto simp: claim_breach_def bnd_def reads_def ret_def)
  from find_row_SomeD [OF this] have i: "t_id t = i" and act: "active_breach bt (en_now env) t"
    by (simp_all add: activeBreachWhere_def)
  have row: "ticket_by_id i d = Some t"
    using find_by_id_unique [OF assms(2), of i "active_breach bt (en_now env)" t] t
    by (simp add: ticket_by_id_def activeBreachWhere_eta)
  let ?d = "claimed (en_now env) t bt d"
  have no: "\<forall>e \<in> set (sla_events d). \<not> (ev_sourceKey e = sla_source_key i bt \<or> ev_ticketId e = i \<and> ev_breachType e = bt)"
    using assms(1) t i by (auto simp: claim_breach_def bnd_def reads_def create_sla_event_def split: if_splits)
  obtain t' where t': "find_row ?w (tickets ?d) = Some t'"
    and run: "executeEscalationRules env t' bt mo (plan_rules t d) (seq_sla d) ?d = (Inr ids, d')"
    using assms(1) t i no
    by (auto simp: claim_breach_def act_defs create_sla_event_def update_many_tickets_def claimed_def split: if_splits option.splits)
  have "distinct (map t_id (tickets ?d))"
    using assms(2) by (simp add: claimed_def escalate_def distinct_map_update)
  from find_by_id_unique [OF this, of i "active_breach bt (en_now env)" t'] t' claimed_row [OF row act]
  have "t' = (if t_isEscalated t then t else escalate t)"
    by (simp add: ticket_by_id_def activeBreachWhere_eta)
  then have "t_departmentId t' = t_departmentId t" "t_id t' = i" using i by (simp_all add: escalate_def)
  then have "sla_frame i (t_departmentId t) ?d d'"
    using sla.staysD [OF sla_rules run] by simp
  then show ?thesis using row act no by (auto simp: claimable_breach_def)
qed

lemma processBreach_cases:
  assumes "processBreach env i bt mo d = (r, d')" "distinct (map t_id (tickets d))"
  shows "d' = d \<or> (\<exists>t. claimable_breach i bt (en_now env) d t \<and> sla_frame i (t_departmentId t) (claimed (en_now env) t bt d) d')"
  using assms claim_breach_commit [of env i bt mo d _ d']
  by (cases "claim_breach env i bt mo d") (auto simp: processBreach_def catch_act_def txn_def ret_def split: sum.splits)

section \<open>Properties\<close>


definition breach_plan :: sla_plan where
  "breach_plan = \<lparr>pl_id = 5, pl_isEnabled = True, pl_firstResponseSeconds = Some 60, pl_resolutionSeconds = Some 3600, pl_scheduleId = None\<rparr>"

definition late_ticket :: ticket where
  "late_ticket = (sample_ticket 2 10)\<lparr>t_slaPlanId := Some 5, t_dueAt := Some 400, t_resolutionDueAt := Some 5000\<rparr>"

definition late_db :: db where
  "late_db = empty_db\<lparr>tickets := [late_ticket], plans := [breach_plan], departments := [10], seq_ticket := 3\<rparr>"

lemma late_db_ids: "distinct (map t_id (tickets late_db))"
  by (simp add: late_db_def)

lemma late_db_first: "find_row (activeBreachWhere 2 FirstResponse 1000) (tickets late_db) = Some late_ticket"
  by (simp add: late_db_def late_ticket_def sample_ticket_def activeBreachWhere_def active_breach_def
      first_response_breached_def past_def)

lemma late_db_claimed: "processBreach sample_env 2 FirstResponse 0 late_db = (Inr [], claimed 1000 late_ticket FirstResponse late_db)"
proof -
  have "t_id late_ticket = 2" "plan_rules late_ticket late_db = []"
    by (simp_all add: late_ticket_def sample_ticket_def plan_rules_def late_db_def empty_db_def)
  moreover have "create_sla_event 2 FirstResponse key late_db = (Inr 0, late_db\<lparr>sla_events := [\<lparr>ev_id = 0, ev_ticketId = 2,
      ev_breachType = FirstResponse, ev_sourceKey = key\<rparr>], seq_sla := 1\<rparr>)" for key
    by (simp add: create_sla_event_def late_db_def empty_db_def)
  moreover have "find_row (activeBreachWhere 2 FirstResponse 1000) (tickets (claimed 1000 late_ticket FirstResponse late_db)) = Some (escalate late_ticket)"
    by (simp add: claimed_def late_db_def late_ticket_def sample_ticket_def activeBreachWhere_def active_breach_def
        first_response_breached_def past_def escalate_def)
  ultimately show ?thesis
    using late_db_first
    by (simp add: processBreach_def claim_breach_def catch_act_def txn_def bnd_def sq_def reads_def sample_env_def
        update_many_tickets_def claimed_def executeEscalationRules_def due_rules_def ret_def escalate_def late_db_def empty_db_def)
qed


text \<open>
  Escalation mail respects department isolation. Every outbox row that processing a breach adds
  is an internal notification about that ticket, addressed to one enabled staff member who is an
  administrator or a member of the ticket's department, whatever the rules say.
\<close>

theorem sla_notify_in_scope:
  assumes "processBreach env i bt mo d = (r, d')" "distinct (map t_id (tickets d))" "ob \<in> set (outbox d')" "ob \<notin> set (outbox d)"
  shows "\<exists>t s. ticket_by_id i d = Some t \<and> o_ticketId ob = Some i \<and> o_kind ob = InternalNotification \<and>
    s \<in> set (staffs d) \<and> s_isEnabled s \<and> in_scope d s (t_departmentId t) \<and>
    one_recipient (o_recipients ob) (normalizeEmail (s_email s))"
proof -
  have "d' \<noteq> d" using assms(3,4) by auto
  then obtain t where t: "claimable_breach i bt (en_now env) d t" "sla_frame i (t_departmentId t) (claimed (en_now env) t bt d) d'"
    using processBreach_cases [OF assms(1,2)] by blast
  have "outbox (claimed (en_now env) t bt d) = outbox d" by (simp add: claimed_def)
  with t(2) assms(3,4) have "alerted i (t_departmentId t) (claimed (en_now env) t bt d) ob"
    unfolding sla_frame_def by metis
  then have "alerted i (t_departmentId t) d ob"
    by (subst (asm) alerted_cong [of _ d]) (simp_all add: claimed_def)
  with t(1) show ?thesis unfolding alerted_def claimable_breach_def by blast
qed

definition alert_template :: email_template where
  "alert_template = \<lparr>tp_key = ''sla_breach_internal'', tp_locale = ''en'', tp_subject = ''S'', tp_html = ''H'', tp_text = ''T''\<rparr>"

definition alert_rule :: escalation_rule where
  "alert_rule = \<lparr>ru_id = 6, ru_slaPlanId = 5, ru_name = ''R'', ru_targetType = FirstResponse, ru_thresholdSeconds = 0,
     ru_actions = [JObj [(''type'', JStr ''notify''), (''staffId'', JNum 3)]], ru_isEnabled = True\<rparr>"

definition alert_db :: db where
  "alert_db = late_db\<lparr>staffs := [sample_staff 3 4], groups := [sample_group 4 False], dept_staff := [(10, 3)],
     rules := [alert_rule], templates := [alert_template]\<rparr>"

lemma alert_db_first: "find_row (activeBreachWhere 2 FirstResponse 1000) (tickets alert_db) = Some late_ticket"
  using late_db_first by (simp add: alert_db_def)

lemma alert_db_run:
  "\<exists>d' ob. processBreach sample_env 2 FirstResponse 0 alert_db = (Inr [0], d') \<and> ob \<in> set (outbox d')"
proof -
  let ?d = "claimed 1000 late_ticket FirstResponse alert_db"
  let ?t = "escalate late_ticket"
  have t: "t_id late_ticket = 2" "t_id ?t = 2" "t_departmentId ?t = 10" "t_slaPlanId ?t = Some 5"
    by (simp_all add: late_ticket_def sample_ticket_def escalate_def)
  have pr: "plan_rules late_ticket alert_db = [alert_rule]"
    by (simp add: late_ticket_def plan_rules_def alert_db_def alert_rule_def)
  have ev: "create_sla_event 2 FirstResponse key alert_db = (Inr 0, alert_db\<lparr>sla_events := [\<lparr>ev_id = 0, ev_ticketId = 2,
      ev_breachType = FirstResponse, ev_sourceKey = key\<rparr>], seq_sla := 1\<rparr>)" for key
    by (simp add: create_sla_event_def alert_db_def late_db_def empty_db_def)
  have after: "find_row (activeBreachWhere 2 FirstResponse 1000) (tickets ?d) = Some ?t"
    by (simp add: claimed_def alert_db_def late_db_def late_ticket_def sample_ticket_def activeBreachWhere_def active_breach_def
        first_response_breached_def past_def escalate_def)
  have q: "seq_outbox ?d = 0"
    by (simp add: claimed_def alert_db_def late_db_def empty_db_def)
  have k: "outbound_by_key key ?d = None" for key
    by (simp add: outbound_by_key_def claimed_def alert_db_def late_db_def empty_db_def)
  have i: "insert_outbound r ?d = (Inr 0, ?d\<lparr>outbox := [r\<lparr>o_id := 0\<rparr>], seq_outbox := 1\<rparr>)"
    if "o_ticketId r = Some 2" "o_recipients r = [x]" for r x
    using that by (simp add: insert_outbound_def claimed_def alert_db_def late_db_def late_ticket_def empty_db_def sample_ticket_def
        opt_in_def activeBreachWhere_def escalate_def)
  have m: "renderTemplateRequired ''sla_breach_internal'' ''en'' vs ?d = (Inr \<lparr>r_subject = ''S'', r_html = ''H'', r_text = ''T''\<rparr>, ?d)" for vs
    by (simp add: renderTemplateRequired_def template_with_fallback_def template_row_def claimed_def alert_db_def
        alert_template_def assertRequiredTemplateContent_def act_defs render_row_def render_plain trim_def trim_by_def
        is_space_def code_of_def)
  have tr: "trim ''sla_breach_internal'' \<noteq> ''''"
    by (simp add: trim_def trim_by_def is_space_def code_of_def)
  have s: "staff_by_int 3 ?d = Some (sample_staff 3 4)"
    by (simp add: staff_by_int_def staff_by_id_def claimed_def alert_db_def sample_staff_def)
  have sc: "in_scope ?d (sample_staff 3 4) 10"
    by (simp add: in_scope_def is_member_def claimed_def alert_db_def sample_staff_def)
  have sf: "s_isEnabled (sample_staff 3 4)" "s_email (sample_staff 3 4) = ''a@b.c''" "s_id (sample_staff 3 4) = 3"
    by (simp_all add: sample_staff_def)
  let ?a = "JObj [(''type'', JStr ''notify''), (''staffId'', JNum 3)]"
  have ia: "int_arg (JNum 3) ?d = (Inr 3, ?d)"
    by (simp add: int_arg_def ret_def)
  obtain ob where act: "notify_action sample_env ?t alert_rule FirstResponse 0 0 0 ?a ?d = (Inr (Some 0), ?d\<lparr>outbox := [ob], seq_outbox := 1\<rparr>)"
    by (simp add: notify_action_def notify_def createInternalNotificationEmail_def sla_alert_def Let_def js_or_else_def js_is_nullish_def
        bnd_def sq_def require_def ret_def reads_def ia k i m s sc q tr t sf plain_address upsert_outbound_def
        assertInternalNotificationIdentity_def one_recipient_def new_outbound_def alert_rule_def nat_str.simps [of 3] nat_str.simps [of 6]
        nat_str.simps [of 0])
  have en: "executeEscalationRules sample_env ?t FirstResponse 0 [alert_rule] 0 ?d = (Inr [0], ?d\<lparr>outbox := [ob], seq_outbox := 1\<rparr>)"
    using act t by (simp add: executeEscalationRules_def due_rules_def executeAction_def js_is_nullish_def alert_rule_def
        bnd_def ret_def map_filter_def)
  have "processBreach sample_env 2 FirstResponse 0 alert_db = (Inr [0], ?d\<lparr>outbox := [ob], seq_outbox := 1\<rparr>)"
    using en alert_db_first after t pr ev
    by (simp add: processBreach_def claim_breach_def catch_act_def txn_def bnd_def sq_def reads_def sample_env_def
        update_many_tickets_def claimed_def alert_db_def late_db_def empty_db_def)
  then show ?thesis by auto
qed

theorem sla_notify_in_scope_witness:
  "\<exists>s \<in> set (staffs alert_db). s_isEnabled s \<and> in_scope alert_db s 10"
proof -
  obtain d' ob where run: "processBreach sample_env 2 FirstResponse 0 alert_db = (Inr [0], d')" and ob: "ob \<in> set (outbox d')"
    using alert_db_run by blast
  have "distinct (map t_id (tickets alert_db))" "ob \<notin> set (outbox alert_db)" "ticket_by_id 2 alert_db = Some late_ticket"
    "t_departmentId late_ticket = 10"
    by (simp_all add: alert_db_def late_db_def empty_db_def ticket_by_id_def late_ticket_def sample_ticket_def)
  with sla_notify_in_scope [OF run _ ob] show ?thesis by auto
qed



lemma worked_mono: "b \<le> c \<Longrightarrow> worked wh hol a b \<le> worked wh hol a c"
  unfolding worked_def of_nat_le_iff by (rule card_mono) auto

lemma worked_step:
  assumes "a < b" "working wh hol (b - 1)"
  shows "worked wh hol a b = worked wh hol a (b - 1) + 1"
proof -
  have "worked wh hol a b = worked wh hol a (b - 1) + counted (Collect (working wh hol)) (b - 1) b"
    using counted_append [of a "b - 1" b] assms(1) by (simp add: worked_def counted_def)
  also have "counted (Collect (working wh hol)) (b - 1) b = 1"
  proof -
    have "t \<in> Collect (working wh hol)" if "b - 1 \<le> t" "t < b" for t
    proof -
      have "t = b - 1" using that by simp
      then show ?thesis using assms(2) by simp
    qed
    then show ?thesis using counted_full [of "b - 1" b "Collect (working wh hol)"] by simp
  qed
  finally show ?thesis .
qed

lemma addWorkingSeconds_mono:
  assumes "schedule_ok wh" "0 < s" "s \<le> s'"
  shows "addWorkingSeconds start s wh hol \<le> addWorkingSeconds start s' wh hol"
proof (cases "s = s'")
  case False
  let ?u = "addWorkingSeconds start s wh hol" and ?v = "addWorkingSeconds start s' wh hol"
  note u = addWorkingSeconds_budget [OF assms(1,2), of start hol]
  have "0 < s'" using assms by linarith
  note v = addWorkingSeconds_budget [OF assms(1) this, of start hol]
  have lost: "0 \<le> (- start) mod 1000" "(- start) mod 1000 < 1000" by simp_all
  show ?thesis
  proof (rule ccontr)
    assume gt: "\<not> ?u \<le> ?v"
    then have "worked wh hol start ?v \<le> worked wh hol start ?u" by (intro worked_mono) simp
    moreover have "?v < midnight start + 60 * day_ms" using gt u by linarith
    then have "1000 * s' \<le> worked wh hol start ?v" using v lost by auto
    moreover have "worked wh hol start ?u \<le> 1000 * s + (- start) mod 1000" using u lost by auto
    ultimately show False using assms(3) False lost by linarith
  qed
qed simp

text \<open>
  A plan's targets keep their order. With a well-formed schedule, or none, and a first-response
  budget no larger than the resolution budget, the first response is due no later than the
  resolution.
\<close>

theorem due_dates_ordered:
  assumes "plan_by_id i d = Some plan" "pl_firstResponseSeconds plan = Some s" "pl_resolutionSeconds plan = Some s'"
    "0 < s" "s \<le> s'" "\<forall>sch \<in> set (schedules d). schedule_ok (sc_workHours sch)" "pl_isEnabled plan"
  shows "\<exists>a b. computeDueDates i now d = \<lparr>dd_dueAt = Some a, dd_resolutionDueAt = Some b\<rparr> \<and> now < a \<and> a \<le> b"
proof (cases "schedule_of plan d")
  case None
  then show ?thesis using assms by (simp add: computeDueDates_def offset_def)
next
  case (Some sch)
  then have ok: "schedule_ok (sc_workHours sch)"
    using assms(6) by (auto simp: schedule_of_def split: option.splits dest: find_row_SomeD)
  have "now < addWorkingSeconds now s (sc_workHours sch) (sc_holidays sch)"
    using addWorkingSeconds_budget [OF ok assms(4)] by blast
  with assms Some addWorkingSeconds_mono [OF ok assms(4,5)] show ?thesis
    by (simp add: computeDueDates_def offset_def)
qed

definition office_db :: db where
  "office_db = empty_db\<lparr>plans := [breach_plan\<lparr>pl_scheduleId := Some 2\<rparr>],
     schedules := [\<lparr>sc_id = 2, sc_workHours = office_hours, sc_holidays = []\<rparr>]\<rparr>"

theorem due_dates_ordered_witness:
  "\<exists>a b. computeDueDates 5 0 office_db = \<lparr>dd_dueAt = Some a, dd_resolutionDueAt = Some b\<rparr> \<and> 0 < a \<and> a \<le> b"
  by (rule due_dates_ordered [where plan = "breach_plan\<lparr>pl_scheduleId := Some 2\<rparr>" and s = 60 and s' = 3600])
     (simp_all add: office_db_def plan_by_id_def breach_plan_def office_hours_ok)

end
