(* ===== verification/TicketCommands.thy ===== *)
theory TicketCommands
  imports Sla
begin

text \<open>
  The staff commands of the ticket service (\<open>tickets/tickets.service.ts\<close>) that change one ticket or a
  batch: assignment, status, priority, type, department, notes, watchers, tags, links and the bulk
  action. Each takes an optional actor: a staff request supplies one and is bound to the visible
  departments; trusted system callers do not. The lookup and the fence are those of the access
  policy, whose interface locale carries the isolation proofs.
\<close>

section \<open>Lookups and guards\<close>

definition actor_sees :: "actor option \<Rightarrow> db \<Rightarrow> ticket \<Rightarrow> bool" where
  "actor_sees a d t = (case a of None \<Rightarrow> True | Some x \<Rightarrow> ticketWhere x d t)"

definition ticket_missing :: "nat \<Rightarrow> error" where
  "ticket_missing i = NotFound (''Ticket '' @ nat_str i @ '' not found'')"

definition findAccessibleOrThrow :: "nat \<Rightarrow> actor option \<Rightarrow> ticket act_db" where
  "findAccessibleOrThrow i a =
     bnd (reads (\<lambda>d. find_row (\<lambda>t. t_id t = i \<and> actor_sees a d t) (tickets d))) (\<lambda>z.
       case z of None \<Rightarrow> throw (ticket_missing i) | Some t \<Rightarrow> ret t)"

definition fenceTicketMutation :: "actor option \<Rightarrow> nat \<Rightarrow> time \<Rightarrow> unit act_db" where
  "fenceTicketMutation a i now = (case a of None \<Rightarrow> ret () | Some x \<Rightarrow> fenceTicket x i now)"

definition assertAssignableStaff :: "nat \<Rightarrow> unit act_db" where
  "assertAssignableStaff staffId =
     bnd (reads (staff_by_id staffId)) (\<lambda>z.
       case z of
         None \<Rightarrow> throw (NotFound (''Staff '' @ nat_str staffId @ '' not found''))
       | Some s \<Rightarrow> require (s_isEnabled s) (BadRequest (''Staff '' @ nat_str staffId @ '' is disabled and cannot be assigned'')))"

text \<open>The check of an assignee: with an actor also against the departments concerned.\<close>

definition assert_assignee :: "actor option \<Rightarrow> nat option \<Rightarrow> nat list \<Rightarrow> unit act_db" where
  "assert_assignee a assignee departmentIds =
     (case assignee of
        None \<Rightarrow> ret ()
      | Some s \<Rightarrow> (case a of None \<Rightarrow> assertAssignableStaff s | Some _ \<Rightarrow> assertAssigneeCanHandleDepartments s departmentIds))"

definition defaultStatusId :: "nat act_db" where
  "defaultStatusId =
     bnd (reads (\<lambda>d. find_row st_isDefault (statuses d))) (\<lambda>z.
       case z of None \<Rightarrow> throw (BadRequest ''No default ticket status configured'') | Some s \<Rightarrow> ret (st_id s))"

text \<open>A transaction for staff requests; the writes one after the other for system callers.\<close>

definition guarded_writes :: "actor option \<Rightarrow> nat \<Rightarrow> time \<Rightarrow> 'a act_db \<Rightarrow> 'a act_db" where
  "guarded_writes a i now m = (case a of None \<Rightarrow> m | Some _ \<Rightarrow> txn (sq (fenceTicketMutation a i now) m))"

section \<open>Attachments of a post or note\<close>

text \<open>\<open>AttachmentsService.linkToPost\<close> and \<open>linkToNote\<close>: adopt uploaded files.\<close>

definition update_many_attachments :: "(attachment \<Rightarrow> bool) \<Rightarrow> (attachment \<Rightarrow> attachment) \<Rightarrow> nat act_db" where
  "update_many_attachments p f d = (Inr (count_rows p (attachments d)), d\<lparr>attachments := update_rows p f (attachments d)\<rparr>)"

definition cannot_adopt :: error where
  "cannot_adopt = BadRequest ''One or more attachments cannot be adopted''"

definition linkToPost :: "nat list \<Rightarrow> nat \<Rightarrow> nat \<Rightarrow> string \<Rightarrow> unit act_db" where
  "linkToPost ids postId ticketId claimToken =
     (if ids = [] then ret ()
      else bnd (update_many_attachments
             (\<lambda>x. a_id x \<in> set ids \<and> a_postId x = None \<and> (claimToken = '''' \<or> a_claimToken x = Some claimToken))
             (\<lambda>x. x\<lparr>a_postId := Some postId, a_ticketId := Some ticketId, a_claimToken := None\<rparr>)) (\<lambda>count.
           require (count = length (js_set ids)) cannot_adopt))"

definition linkToNote :: "nat list \<Rightarrow> nat \<Rightarrow> nat \<Rightarrow> unit act_db" where
  "linkToNote ids noteId ticketId =
     (if ids = [] then ret ()
      else bnd (update_many_attachments (\<lambda>x. a_id x \<in> set ids \<and> a_postId x = None \<and> a_noteId x = None)
             (\<lambda>x. x\<lparr>a_noteId := Some noteId, a_ticketId := Some ticketId, a_claimToken := None\<rparr>)) (\<lambda>count.
           require (count = length (js_set ids)) cannot_adopt))"

section \<open>Notes\<close>

definition addNote :: "env \<Rightarrow> nat \<Rightarrow> string \<Rightarrow> nat option \<Rightarrow> nat list \<Rightarrow> actor option \<Rightarrow> nat act_db" where
  "addNote env i contents staffId attachmentIds a =
     sq (findAccessibleOrThrow i a)
       (txn (sq (fenceTicketMutation a i (en_now env))
            (bnd (create_note i staffId contents) (\<lambda>noteId.
             sq (linkToNote attachmentIds noteId i)
            (sq (update_ticket i (\<lambda>t. t\<lparr>t_hasNotes := True, t_lastActivityAt := en_now env,
                   t_hasAttachments := (attachmentIds \<noteq> [] \<or> t_hasAttachments t)\<rparr>))
            (sq (writeAudit i ''NOTE'' staffId ByStaff None None None) (ret noteId)))))))"

section \<open>Assignment\<close>

definition assign :: "env \<Rightarrow> nat \<Rightarrow> nat option \<Rightarrow> nat \<Rightarrow> actor option \<Rightarrow> ticket act_db" where
  "assign env i ownerStaffId staffId a =
     bnd (findAccessibleOrThrow i a) (\<lambda>t.
     sq (assert_assignee a ownerStaffId [t_departmentId t])
       (txn (sq (fenceTicketMutation a i (en_now env))
            (bnd (update_ticket i (\<lambda>x. x\<lparr>t_ownerStaffId := ownerStaffId, t_lastActivityAt := en_now env\<rparr>)) (\<lambda>result.
             bnd (writeAudit i ''ASSIGN'' (Some staffId) ByStaff (Some ''ownerStaffId'') (opt_str (t_ownerStaffId t)) (opt_str ownerStaffId)) (\<lambda>auditId.
             sq (case ownerStaffId of
                   None \<Rightarrow> ret None
                 | Some s \<Rightarrow> queueAssignmentNotification env result s (''audit:'' @ nat_str auditId))
                (ret result)))))))"

section \<open>Status, priority, type\<close>

text \<open>The columns \<open>changeStatus\<close> writes: resolving stops the timers; leaving a resolved status restarts
  them from now when the ticket has a plan.\<close>

definition status_patch :: "time \<Rightarrow> db \<Rightarrow> ticket \<Rightarrow> ticket_status \<Rightarrow> ticket \<Rightarrow> ticket" where
  "status_patch now d t status x =
     (let y = x\<lparr>t_statusId := st_id status, t_isResolved := st_markAsResolved status,
                t_resolvedAt := (if st_markAsResolved status then Some now else None), t_lastActivityAt := now\<rparr>
      in if st_markAsResolved status then y\<lparr>t_dueAt := None, t_resolutionDueAt := None\<rparr>
         else case (t_isResolved t, t_slaPlanId t) of
                (True, Some planId) \<Rightarrow>
                  (let due = computeDueDates planId now d
                   in y\<lparr>t_dueAt := dd_dueAt due, t_resolutionDueAt := dd_resolutionDueAt due,
                        t_reopenedAt := Some now, t_wasReopened := True\<rparr>)
              | _ \<Rightarrow> y)"

definition status_missing :: "nat \<Rightarrow> error" where
  "status_missing i = NotFound (''Status '' @ nat_str i @ '' not found'')"

definition audit_key :: "nat \<Rightarrow> string" where
  "audit_key auditId = ''ticket-audit:'' @ nat_str auditId"

definition changeStatus :: "env \<Rightarrow> nat \<Rightarrow> nat \<Rightarrow> nat \<Rightarrow> actor option \<Rightarrow> ticket act_db" where
  "changeStatus env i statusId staffId a =
     bnd (findAccessibleOrThrow i a) (\<lambda>t.
     bnd (reads (\<lambda>d. (status_by_id statusId d, d))) (\<lambda>(z, d).
       case z of
         None \<Rightarrow> throw (status_missing statusId)
       | Some status \<Rightarrow>
           txn (sq (fenceTicketMutation a i (en_now env))
               (bnd (update_ticket i (status_patch (en_now env) d t status)) (\<lambda>result.
                bnd (writeAudit i ''STATUS_CHANGE'' (Some staffId) ByStaff (Some ''statusId'')
                       (Some (nat_str (t_statusId t))) (Some (nat_str statusId))) (\<lambda>auditId.
                sq (enqueueWorkflowEmailEvent env result ''ticket.status_changed'' (audit_key auditId)) (ret result)))))))"

definition changePriority :: "env \<Rightarrow> nat \<Rightarrow> nat \<Rightarrow> nat \<Rightarrow> actor option \<Rightarrow> ticket act_db" where
  "changePriority env i priorityId staffId a =
     bnd (findAccessibleOrThrow i a) (\<lambda>t.
       guarded_writes a i (en_now env)
         (bnd (update_ticket i (\<lambda>x. x\<lparr>t_priorityId := priorityId, t_lastActivityAt := en_now env\<rparr>)) (\<lambda>result.
          sq (writeAudit i ''PRIORITY_CHANGE'' (Some staffId) ByStaff (Some ''priorityId'')
                (Some (nat_str (t_priorityId t))) (Some (nat_str priorityId)))
             (ret result))))"

definition changeType :: "env \<Rightarrow> nat \<Rightarrow> nat option \<Rightarrow> nat \<Rightarrow> actor option \<Rightarrow> ticket act_db" where
  "changeType env i typeId staffId a =
     bnd (findAccessibleOrThrow i a) (\<lambda>t.
       guarded_writes a i (en_now env)
         (bnd (update_ticket i (\<lambda>x. x\<lparr>t_typeId := typeId, t_lastActivityAt := en_now env\<rparr>)) (\<lambda>result.
          sq (writeAudit i ''TYPE_CHANGE'' (Some staffId) ByStaff (Some ''typeId'') (opt_str (t_typeId t)) (opt_str typeId))
             (ret result))))"

section \<open>Watchers\<close>

definition upsert_watcher :: "nat \<Rightarrow> nat \<Rightarrow> unit act_db" where
  "upsert_watcher i staffId d =
     (if staffId \<notin> s_id ` set (staffs d) \<or> i \<notin> t_id ` set (tickets d) then (Inl (Failure ''P2003''), d)
      else if (i, staffId) \<in> set (watchers d) then (Inr (), d)
      else (Inr (), d\<lparr>watchers := watchers d @ [(i, staffId)]\<rparr>))"

definition addWatcher :: "env \<Rightarrow> nat \<Rightarrow> nat \<Rightarrow> actor option \<Rightarrow> unit act_db" where
  "addWatcher env i staffId a =
     bnd (findAccessibleOrThrow i a) (\<lambda>t.
     sq (case a of None \<Rightarrow> ret () | Some _ \<Rightarrow> assertAssigneeCanHandleDepartments staffId [t_departmentId t])
        (guarded_writes a i (en_now env) (upsert_watcher i staffId)))"

definition delete_watchers :: "(nat \<times> nat \<Rightarrow> bool) \<Rightarrow> nat act_db" where
  "delete_watchers p d = (Inr (count_rows p (watchers d)), d\<lparr>watchers := delete_rows p (watchers d)\<rparr>)"

definition removeWatcher :: "env \<Rightarrow> nat \<Rightarrow> nat \<Rightarrow> actor option \<Rightarrow> unit act_db" where
  "removeWatcher env i staffId a =
     sq (case a of None \<Rightarrow> ret () | Some _ \<Rightarrow> sq (findAccessibleOrThrow i a) (ret ()))
       (guarded_writes a i (en_now env) (sq (delete_watchers (\<lambda>w. w = (i, staffId))) (ret ())))"

text \<open>Watchers of ticket \<open>i\<close> who are neither administrators nor members of the department.\<close>

definition outside_department :: "db \<Rightarrow> nat \<Rightarrow> nat \<Rightarrow> bool" where
  "outside_department d departmentId staffId =
     (case staff_by_id staffId d of
        None \<Rightarrow> False
      | Some s \<Rightarrow> \<not> staff_is_admin d s \<and> \<not> is_member d departmentId staffId)"

definition pruneWatchersOutsideDepartment :: "nat \<Rightarrow> nat \<Rightarrow> nat act_db" where
  "pruneWatchersOutsideDepartment i departmentId d =
     delete_watchers (\<lambda>(tid, sid). tid = i \<and> outside_department d departmentId sid) d"

section \<open>Department\<close>

definition changeDepartment :: "env \<Rightarrow> nat \<Rightarrow> nat \<Rightarrow> nat \<Rightarrow> actor option \<Rightarrow> ticket act_db" where
  "changeDepartment env i departmentId staffId a =
     bnd (findAccessibleOrThrow i a) (\<lambda>t.
     sq (case a of
           None \<Rightarrow> ret ()
         | Some x \<Rightarrow> sq (assertCanAccessDepartment x departmentId)
             (case t_ownerStaffId t of None \<Rightarrow> ret () | Some s \<Rightarrow> assertAssigneeCanHandleDepartments s [departmentId]))
    (sq (bnd (reads (\<lambda>d. departmentId \<in> set (departments d))) (\<lambda>dept.
           require dept (NotFound (''Department '' @ nat_str departmentId @ '' not found''))))
       (let update = update_ticket i (\<lambda>x. x\<lparr>t_departmentId := departmentId, t_lastActivityAt := en_now env\<rparr>);
            audit = writeAudit i ''DEPARTMENT_CHANGE'' (Some staffId) ByStaff (Some ''departmentId'')
                      (Some (nat_str (t_departmentId t))) (Some (nat_str departmentId))
        in case a of
             None \<Rightarrow> bnd update (\<lambda>result. sq audit (ret result))
           | Some x \<Rightarrow>
               txn (sq (assertCanAccessDepartmentInTransaction x departmentId)
                   (sq (fenceTicketMutation a i (en_now env))
                   (bnd (pruneWatchersOutsideDepartment i departmentId) (\<lambda>removed.
                    bnd update (\<lambda>result.
                    sq (if removed > 0 then
                          sq (writeAudit i ''WATCHERS_PRUNED_FOR_DEPARTMENT'' (Some staffId) ByStaff (Some ''watchers'') None (Some (nat_str removed))) (ret ())
                        else ret ())
                   (sq audit (ret result))))))))))"

section \<open>Tags\<close>

definition addTag :: "env \<Rightarrow> nat \<Rightarrow> string \<Rightarrow> actor option \<Rightarrow> unit act_db" where
  "addTag env i name a =
     sq (findAccessibleOrThrow i a) (guarded_writes a i (en_now env) (sq (connect_tag i name) (ret ())))"

definition removeTag :: "env \<Rightarrow> nat \<Rightarrow> string \<Rightarrow> actor option \<Rightarrow> unit act_db" where
  "removeTag env i name a =
     sq (findAccessibleOrThrow i a)
       (bnd (reads (\<lambda>d. name \<in> set (tag_names d))) (\<lambda>found.
          if \<not> found then ret ()
          else guarded_writes a i (en_now env) (sq (disconnect_tag i name) (ret ()))))"

end
