(* ===== verification/TicketRelations.thy ===== *)
theory TicketRelations
  imports TicketCommands
begin

text \<open>
  The commands of the ticket service that involve several tickets: the bulk action, merging, splitting
  and links (\<open>tickets/tickets.service.ts\<close>).
\<close>

section \<open>Bulk action\<close>

datatype bulk_action = BulkStatus nat | BulkAssignee "nat option" | BulkUnassign

definition bulk_status_patch :: "time \<Rightarrow> db \<Rightarrow> ticket \<Rightarrow> ticket_status \<Rightarrow> ticket \<Rightarrow> ticket" where
  "bulk_status_patch now d t status x =
     (let y = x\<lparr>t_statusId := st_id status, t_lastActivityAt := now\<rparr>
      in if st_markAsResolved status then
           y\<lparr>t_isResolved := True, t_resolvedAt := Some now, t_dueAt := None, t_resolutionDueAt := None\<rparr>
         else if t_isResolved t then
           (let z = y\<lparr>t_isResolved := False, t_resolvedAt := None, t_reopenedAt := Some now, t_wasReopened := True\<rparr>
            in case t_slaPlanId t of
                 None \<Rightarrow> z
               | Some planId \<Rightarrow>
                   (let due = computeDueDates planId now d
                    in z\<lparr>t_dueAt := dd_dueAt due, t_resolutionDueAt := dd_resolutionDueAt due\<rparr>))
         else y)"

definition bulk_owner :: "bulk_action \<Rightarrow> nat option" where
  "bulk_owner action = (case action of BulkAssignee z \<Rightarrow> z | _ \<Rightarrow> None)"

text \<open>One member of the batch, inside the transaction.\<close>

definition bulk_member :: "env \<Rightarrow> bulk_action \<Rightarrow> ticket_status option \<Rightarrow> nat \<Rightarrow> actor option \<Rightarrow> ticket \<Rightarrow> unit act_db" where
  "bulk_member env action status staffId a t =
     sq (fenceTicketMutation a (t_id t) (en_now env))
       (case status of
          Some st \<Rightarrow>
            bnd (reads (\<lambda>d. d)) (\<lambda>d.
            bnd (update_ticket (t_id t) (bulk_status_patch (en_now env) d t st)) (\<lambda>updatedTicket.
            bnd (writeAudit (t_id t) ''STATUS'' (Some staffId) ByStaff (Some ''statusId'') None (Some (nat_str (st_id st)))) (\<lambda>auditId.
              enqueueWorkflowEmailEvent env updatedTicket ''ticket.status_changed'' (audit_key auditId))))
        | None \<Rightarrow>
            bnd (update_ticket (t_id t) (\<lambda>x. x\<lparr>t_ownerStaffId := bulk_owner action, t_lastActivityAt := en_now env\<rparr>)) (\<lambda>updatedTicket.
            bnd (writeAudit (t_id t) ''ASSIGN'' (Some staffId) ByStaff (Some ''ownerStaffId'') None (opt_str (bulk_owner action))) (\<lambda>auditId.
              case bulk_owner action of
                None \<Rightarrow> ret ()
              | Some s \<Rightarrow> sq (queueAssignmentNotification env updatedTicket s (''audit:'' @ nat_str auditId)) (ret ()))))"

definition bulk_status :: "bulk_action \<Rightarrow> ticket_status option act_db" where
  "bulk_status action =
     (case action of
        BulkStatus statusId \<Rightarrow>
          bnd (reads (status_by_id statusId)) (\<lambda>z.
            case z of None \<Rightarrow> throw (status_missing statusId) | Some st \<Rightarrow> ret (Some st))
      | _ \<Rightarrow> ret None)"

definition bulkAction :: "env \<Rightarrow> nat list \<Rightarrow> bulk_action \<Rightarrow> nat \<Rightarrow> actor option \<Rightarrow> (nat \<times> nat list) act_db" where
  "bulkAction env ids action staffId a =
     (let uniqueIds = js_set ids in
      bnd (reads (\<lambda>d. filter (\<lambda>t. t_id t \<in> set uniqueIds \<and> t_mergedIntoId t = None \<and> actor_sees a d t) (tickets d))) (\<lambda>existing.
        let failed = filter (\<lambda>i. i \<notin> t_id ` set existing) uniqueIds in
        if a \<noteq> None \<and> failed \<noteq> [] then throw (NotFound ''One or more tickets not found'')
        else if existing = [] then ret (0, failed)
        else bnd (bulk_status action) (\<lambda>status.
             sq (assert_assignee a (bulk_owner action) (js_set (map t_departmentId existing)))
            (sq (txn (each (bulk_member env action status staffId a) existing))
                (ret (length existing, failed))))))"

section \<open>Merge\<close>

definition move_posts :: "(post \<Rightarrow> bool) \<Rightarrow> nat \<Rightarrow> nat act_db" where
  "move_posts p to d = (Inr (count_rows p (posts d)), d\<lparr>posts := update_rows p (\<lambda>x. x\<lparr>p_ticketId := to\<rparr>) (posts d)\<rparr>)"

definition move_notes :: "nat \<Rightarrow> nat \<Rightarrow> unit act_db" where
  "move_notes from' to = modify (\<lambda>d. d\<lparr>ticket_notes := update_rows (\<lambda>n. n_ticketId n = from') (\<lambda>n. n\<lparr>n_ticketId := to\<rparr>) (ticket_notes d)\<rparr>)"

definition move_attachments :: "nat \<Rightarrow> nat \<Rightarrow> unit act_db" where
  "move_attachments from' to =
     sq (update_many_attachments (\<lambda>x. a_ticketId x = Some from') (\<lambda>x. x\<lparr>a_ticketId := Some to\<rparr>)) (ret ())"

text \<open>Watchers the target does not have yet move over; the rest of the source's are dropped.\<close>

definition move_watchers :: "nat \<Rightarrow> nat \<Rightarrow> unit act_db" where
  "move_watchers from' to =
     bnd (reads (\<lambda>d. map snd (filter (\<lambda>w. fst w = to) (watchers d)))) (\<lambda>targetStaffIds.
       sq (modify (\<lambda>d. d\<lparr>watchers := update_rows (\<lambda>w. fst w = from' \<and> snd w \<notin> set targetStaffIds) (\<lambda>w. (to, snd w)) (watchers d)\<rparr>))
      (sq (delete_watchers (\<lambda>w. fst w = from')) (ret ())))"

definition findUniqueOrThrow :: "nat \<Rightarrow> ticket act_db" where
  "findUniqueOrThrow i = bnd (reads (ticket_by_id i)) (\<lambda>z. case z of None \<Rightarrow> throw RecordNotFound | Some t \<Rightarrow> ret t)"

definition merge_body :: "env \<Rightarrow> ticket \<Rightarrow> ticket \<Rightarrow> actor option \<Rightarrow> unit act_db" where
  "merge_body env source target a =
     (let s = t_id source; t = t_id target in
      sq (each (\<lambda>i. fenceTicketMutation a i (en_now env)) (sort [s, t]))
     (sq (move_posts (\<lambda>p. p_ticketId p = s) t)
     (sq (move_notes s t)
     (sq (move_attachments s t)
     (sq (pruneWatchersOutsideDepartment s (t_departmentId target))
     (sq (pruneWatchersOutsideDepartment t (t_departmentId target))
     (sq (move_watchers s t)
     (sq (update_ticket s (\<lambda>x. x\<lparr>t_mergedIntoId := Some t, t_lastActivityAt := en_now env\<rparr>))
     (sq (update_ticket t (\<lambda>x. x\<lparr>t_totalReplies := t_totalReplies x + t_totalReplies source, t_lastActivityAt := en_now env\<rparr>))
         (ret ()))))))))))"

definition merge :: "env \<Rightarrow> nat \<Rightarrow> nat \<Rightarrow> nat \<Rightarrow> actor option \<Rightarrow> ticket act_db" where
  "merge env sourceTicketId targetTicketId staffId a =
     bnd (findAccessibleOrThrow sourceTicketId a) (\<lambda>source.
     bnd (findAccessibleOrThrow targetTicketId a) (\<lambda>target.
     sq (require (t_id source \<noteq> t_id target) (BadRequest ''Cannot merge a ticket into itself''))
    (sq (require (t_mergedIntoId source = None) (BadRequest (''Ticket '' @ t_mask source @ '' is already merged'')))
    (sq (require (t_mergedIntoId target = None)
           (BadRequest (''Ticket '' @ t_mask target @ '' is already merged into another ticket; merge into the active target instead'')))
    (sq (txn (merge_body env source target a))
    (sq (writeAudit sourceTicketId ''MERGE'' (Some staffId) ByStaff (Some ''mergedIntoId'') None (Some (t_mask target)))
    (sq (writeAudit (t_id target) ''MERGE_RECEIVED'' (Some staffId) ByStaff (Some ''mergedFrom'') None (Some (t_mask source)))
        (findUniqueOrThrow (t_id target)))))))))"

section \<open>Creating rows\<close>

definition formatTicketMask :: "nat \<Rightarrow> string" where
  "formatTicketMask i = ''TT-'' @ pad_start 6 (CHR ''0'') (nat_str i)"

text \<open>A ticket row with the defaults of the schema.\<close>

definition new_ticket :: "time \<Rightarrow> string \<Rightarrow> nat \<Rightarrow> nat \<Rightarrow> nat \<Rightarrow> ticket" where
  "new_ticket now subject departmentId statusId priorityId =
     \<lparr>t_id = 0, t_kayakoId = None, t_mask = ''TT-PENDING'', t_subject = subject, t_departmentId = departmentId,
      t_statusId = statusId, t_priorityId = priorityId, t_typeId = None, t_userId = None, t_requesterName = '''',
      t_requesterEmail = '''', t_ownerStaffId = None, t_slaPlanId = None, t_dueAt = None, t_resolutionDueAt = None,
      t_firstResponseAt = None, t_resolvedAt = None, t_reopenedAt = None, t_creationMode = ModeWeb, t_creator = ByUser,
      t_flagType = ''NONE'', t_totalReplies = 0, t_hasAttachments = False, t_hasNotes = False, t_isResolved = False,
      t_isEscalated = False, t_escalationLevel = 0, t_wasReopened = False, t_isPhoneCall = False, t_ipAddress = ''0.0.0.0'',
      t_messageId = Some '''', t_mergedIntoId = None, t_customFields = JObj [], t_tags = [], t_lastReplyAt = None,
      t_lastActivityAt = now, t_createdAt = now\<rparr>"

text \<open>Insert under the unique mask and the foreign keys; the row gets the next key.\<close>

definition create_ticket_row :: "ticket \<Rightarrow> nat act_db" where
  "create_ticket_row t d =
     (if t_mask t \<in> t_mask ` set (tickets d) then (Inl (UniqueViolation ''Ticket.mask''), d)
      else if \<not> ticket_fk d t then (Inl (Failure ''P2003''), d)
      else (Inr (seq_ticket d),
            d\<lparr>tickets := tickets d @ [t\<lparr>t_id := seq_ticket d\<rparr>], seq_ticket := Suc (seq_ticket d)\<rparr>))"

definition set_mask :: "nat \<Rightarrow> bool \<Rightarrow> ticket act_db" where
  "set_mask i hasAttachments =
     bnd (reads (\<lambda>d. \<exists>t \<in> set (tickets d). t_id t \<noteq> i \<and> t_mask t = formatTicketMask i)) (\<lambda>taken.
       if taken then throw (UniqueViolation ''Ticket.mask'')
       else update_ticket i (\<lambda>t. t\<lparr>t_mask := formatTicketMask i, t_hasAttachments := (hasAttachments \<or> t_hasAttachments t)\<rparr>))"

section \<open>Split\<close>

definition split_row :: "env \<Rightarrow> ticket \<Rightarrow> string \<Rightarrow> nat \<Rightarrow> nat \<Rightarrow> nat \<Rightarrow> db \<Rightarrow> ticket" where
  "split_row env source subject departmentId statusId moved d =
     (let due = (case t_slaPlanId source of
            None \<Rightarrow> \<lparr>dd_dueAt = None, dd_resolutionDueAt = None\<rparr>
          | Some planId \<Rightarrow> computeDueDates planId (en_now env) d)
      in (new_ticket (en_now env) subject departmentId statusId (t_priorityId source))
           \<lparr>t_typeId := t_typeId source, t_userId := t_userId source, t_requesterName := t_requesterName source,
            t_requesterEmail := t_requesterEmail source, t_ownerStaffId := t_ownerStaffId source,
            t_slaPlanId := t_slaPlanId source, t_dueAt := dd_dueAt due, t_resolutionDueAt := dd_resolutionDueAt due,
            t_creationMode := t_creationMode source, t_creator := ByStaff, t_customFields := t_customFields source,
            t_totalReplies := int moved\<rparr>)"

definition split_body :: "env \<Rightarrow> ticket \<Rightarrow> nat list \<Rightarrow> nat \<Rightarrow> ticket \<Rightarrow> actor option \<Rightarrow> ticket act_db" where
  "split_body env source postIds departmentId row a =
     sq (case a of None \<Rightarrow> ret () | Some x \<Rightarrow> assertCanAccessDepartmentInTransaction x departmentId)
    (sq (fenceTicketMutation a (t_id source) (en_now env))
    (bnd (create_ticket_row row) (\<lambda>created.
     bnd (set_mask created False) (\<lambda>newTicket.
     bnd (move_posts (\<lambda>p. p_id p \<in> set postIds \<and> p_ticketId p = t_id source) created) (\<lambda>moved.
     sq (require (moved = length postIds) (BadRequest ''Posts changed during split; please retry''))
    (sq (update_ticket (t_id source) (\<lambda>x. x\<lparr>t_totalReplies := t_totalReplies x - int (length postIds), t_lastActivityAt := en_now env\<rparr>))
    (sq (enqueueWorkflowEmailEvent env newTicket ''ticket.created'' (''ticket-split:'' @ nat_str (t_id newTicket)))
        (ret newTicket))))))))"

definition split_ticket :: "env \<Rightarrow> nat \<Rightarrow> nat list \<Rightarrow> string \<Rightarrow> nat option \<Rightarrow> nat \<Rightarrow> actor option \<Rightarrow> ticket act_db" where
  "split_ticket env sourceTicketId postIds subject dep staffId a =
     bnd (findAccessibleOrThrow sourceTicketId a) (\<lambda>source.
     sq (require (postIds \<noteq> []) (BadRequest ''postIds must not be empty''))
    (bnd (reads (\<lambda>d. filter (\<lambda>p. p_id p \<in> set postIds \<and> p_ticketId p = sourceTicketId) (posts d))) (\<lambda>found.
     sq (require (length found = length postIds) (BadRequest ''Some postIds do not belong to this ticket''))
    (bnd defaultStatusId (\<lambda>statusId.
     let departmentId = (case dep of None \<Rightarrow> t_departmentId source | Some x \<Rightarrow> x) in
     sq (case a of
           None \<Rightarrow> ret ()
         | Some x \<Rightarrow> sq (assertCanAccessDepartment x departmentId)
             (case t_ownerStaffId source of None \<Rightarrow> ret () | Some s \<Rightarrow> assertAssigneeCanHandleDepartments s [departmentId]))
    (bnd (reads (split_row env source subject departmentId statusId (length found))) (\<lambda>row.
     bnd (txn (split_body env source postIds departmentId row a)) (\<lambda>newTicket.
     sq (writeAudit sourceTicketId ''SPLIT'' (Some staffId) ByStaff (Some ''splitTo'') None (Some (t_mask newTicket)))
    (sq (writeAudit (t_id newTicket) ''SPLIT'' (Some staffId) ByStaff (Some ''splitFrom'') None (Some (t_mask source)))
        (findUniqueOrThrow (t_id newTicket)))))))))))"

section \<open>Links\<close>

fun inverse_link :: "string \<Rightarrow> string" where
  "inverse_link ty = (if ty = ''supplier'' then ''client'' else if ty = ''client'' then ''supplier'' else ty)"

record link_view =
  lv_linkId :: nat
  lv_linkType :: string
  lv_ticketId :: nat
  lv_mask :: string
  lv_subject :: string
  lv_status :: "string option"
  lv_isResolved :: bool

definition link_views :: "nat \<Rightarrow> actor option \<Rightarrow> db \<Rightarrow> link_view list" where
  "link_views i a d =
     List.map_filter (\<lambda>l.
       (let isSource = (l_sourceId l = i) in
        case ticket_by_id (if isSource then l_targetId l else l_sourceId l) d of
          None \<Rightarrow> None
        | Some other \<Rightarrow>
            if (l_sourceId l = i \<or> l_targetId l = i) \<and> actor_sees a d other then
              Some \<lparr>lv_linkId = l_id l, lv_linkType = (if isSource then l_linkType l else inverse_link (l_linkType l)),
                    lv_ticketId = t_id other, lv_mask = t_mask other, lv_subject = t_subject other,
                    lv_status = map_option st_title (status_by_id (t_statusId other) d), lv_isResolved = t_isResolved other\<rparr>
            else None)) (links d)"

definition listLinks :: "nat \<Rightarrow> actor option \<Rightarrow> link_view list act_db" where
  "listLinks i a = sq (findAccessibleOrThrow i a) (reads (link_views i a))"

definition connects :: "nat \<Rightarrow> nat \<Rightarrow> tlink \<Rightarrow> bool" where
  "connects i j l \<longleftrightarrow> (l_sourceId l = i \<and> l_targetId l = j) \<or> (l_sourceId l = j \<and> l_targetId l = i)"

definition create_link :: "nat \<Rightarrow> nat \<Rightarrow> string \<Rightarrow> nat act_db" where
  "create_link i j ty =
     bnd (reads (\<lambda>d. find_row (connects i j) (links d))) (\<lambda>existing.
     sq (require (existing = None) (BadRequest ''These tickets are already linked''))
        (\<lambda>d. (Inr (seq_link d), d\<lparr>links := links d @ [\<lparr>l_id = seq_link d, l_sourceId = i, l_targetId = j, l_linkType = ty\<rparr>],
                seq_link := Suc (seq_link d)\<rparr>)))"

definition fence_both :: "env \<Rightarrow> actor option \<Rightarrow> nat \<Rightarrow> nat \<Rightarrow> unit act_db" where
  "fence_both env a i j = sq (each (\<lambda>k. fenceTicketMutation a k (en_now env)) (sort [i, j])) (ret ())"

definition addLink :: "env \<Rightarrow> nat \<Rightarrow> nat \<Rightarrow> string \<Rightarrow> actor option \<Rightarrow> nat act_db" where
  "addLink env i targetId linkType a =
     sq (require (targetId \<noteq> i) (BadRequest ''A ticket cannot be linked to itself''))
    (sq (findAccessibleOrThrow i a)
    (sq (findAccessibleOrThrow targetId a)
        (case a of
           None \<Rightarrow> create_link i targetId linkType
         | Some _ \<Rightarrow> txn (sq (fence_both env a i targetId) (create_link i targetId linkType)))))"

definition link_missing :: "nat \<Rightarrow> nat \<Rightarrow> error" where
  "link_missing linkId i = NotFound (''Link '' @ nat_str linkId @ '' not found on ticket '' @ nat_str i)"

definition remove_link_body :: "env \<Rightarrow> nat \<Rightarrow> nat \<Rightarrow> actor option \<Rightarrow> unit act_db" where
  "remove_link_body env i linkId a =
     bnd (reads (\<lambda>d. find_row (\<lambda>l. l_id l = linkId) (links d))) (\<lambda>z.
       case z of
         None \<Rightarrow> throw (link_missing linkId i)
       | Some l \<Rightarrow>
           if l_sourceId l \<noteq> i \<and> l_targetId l \<noteq> i then throw (link_missing linkId i)
           else sq (case a of None \<Rightarrow> ret () | Some _ \<Rightarrow> fence_both env a (l_sourceId l) (l_targetId l))
                   (modify (\<lambda>d. d\<lparr>links := remove1 l (links d)\<rparr>)))"

definition removeLink :: "env \<Rightarrow> nat \<Rightarrow> nat \<Rightarrow> actor option \<Rightarrow> unit act_db" where
  "removeLink env i linkId a =
     (case a of None \<Rightarrow> remove_link_body env i linkId a | Some _ \<Rightarrow> txn (remove_link_body env i linkId a))"

end
