(* ===== verification/TicketMacro.thy ===== *)
theory TicketMacro
  imports TicketRelations Permissions
begin

text \<open>
  Applying a macro (\<open>TicketsService.applyMacro\<close>): an optional staff reply, then the stored actions.
  Tags and notes are written at once, the scalar changes are collected and then routed through the
  ordinary commands; the permission check derives what the macro needs from its contents.
\<close>

section \<open>Permissions\<close>

definition macro_action_permissions :: "js list \<Rightarrow> permission list" where
  "macro_action_permissions actions =
     List.map_filter (\<lambda>a.
       if js_prop a ''type'' = JStr ''assign'' \<or> js_prop a ''type'' = JStr ''change_owner'' then Some TICKET_ASSIGN
       else if js_prop a ''type'' = JStr ''add_note'' then Some TICKET_NOTE
       else None) actions"

definition macro_actions :: "macro \<Rightarrow> js list" where
  "macro_actions m = (case m_actions m of JArr as \<Rightarrow> as | _ \<Rightarrow> [])"

definition macro_required :: "macro \<Rightarrow> permission list" where
  "macro_required m =
     js_set (TICKET_EDIT # (if trim (m_replyText m) \<noteq> '''' then [TICKET_REPLY] else []) @ macro_action_permissions (macro_actions m))"

fun join_with :: "string \<Rightarrow> string list \<Rightarrow> string" where
  "join_with sep [] = ''''"
| "join_with sep [x] = x"
| "join_with sep (x # xs) = x @ sep @ join_with sep xs"

definition assertMacroPermissions :: "macro \<Rightarrow> principal option \<Rightarrow> unit act_db" where
  "assertMacroPermissions m user =
     (case user of
        None \<Rightarrow> ret ()
      | Some p \<Rightarrow>
          if pc_isAdmin p then ret ()
          else (let missing = filter (\<lambda>k. k \<notin> set (pc_permissions p)) (map perm_key (macro_required m))
                in require (missing = []) (Forbidden (''Applying this macro requires: '' @ join_with '', '' missing))))"

section \<open>Actions\<close>

definition principal_actor :: "principal \<Rightarrow> actor" where
  "principal_actor p = \<lparr>ac_staffId = pc_staffId p, ac_isAdmin = pc_isAdmin p\<rparr>"

text \<open>\<open>numField(key)\<close>: the named value or \<open>value\<close>, as a positive finite number.\<close>

definition numField :: "js \<Rightarrow> string \<Rightarrow> rat option" where
  "numField action key =
     (let raw = js_or_else (js_prop action key) (js_prop action ''value'');
          n = (case raw of JStr s \<Rightarrow> string_number s | JNum r \<Rightarrow> Fin r | _ \<Rightarrow> NaN)
      in case n of Fin r \<Rightarrow> if r > 0 then Some r else None | _ \<Rightarrow> None)"

definition strField :: "js \<Rightarrow> string \<Rightarrow> nat \<Rightarrow> string" where
  "strField action key cap =
     (case js_or_else (js_prop action key) (js_prop action ''value'') of JStr s \<Rightarrow> take cap s | _ \<Rightarrow> '''')"

text \<open>The collected changes; the owner is the raw value of the action, \<open>JNull\<close> to unassign.\<close>

record macro_update =
  mc_statusId :: "rat option"
  mc_priorityId :: "rat option"
  mc_departmentId :: "rat option"
  mc_ownerStaffId :: "js option"

definition no_update :: macro_update where
  "no_update = \<lparr>mc_statusId = None, mc_priorityId = None, mc_departmentId = None, mc_ownerStaffId = None\<rparr>"

definition macro_owner :: "js \<Rightarrow> js" where
  "macro_owner action =
     js_or_else (js_prop action ''ownerStaffId'') (case numField action ''ownerStaffId'' of None \<Rightarrow> JNull | Some r \<Rightarrow> JNum r)"

definition collect_action :: "js \<Rightarrow> macro_update \<Rightarrow> macro_update" where
  "collect_action action u =
     (let ty = js_prop action ''type'' in
      if ty = JStr ''set_status'' \<or> ty = JStr ''change_status'' then u\<lparr>mc_statusId := overwrite (numField action ''statusId'') (mc_statusId u)\<rparr>
      else if ty = JStr ''set_priority'' \<or> ty = JStr ''change_priority'' then
        u\<lparr>mc_priorityId := overwrite (numField action ''priorityId'') (mc_priorityId u)\<rparr>
      else if ty = JStr ''assign'' \<or> ty = JStr ''change_owner'' then u\<lparr>mc_ownerStaffId := Some (macro_owner action)\<rparr>
      else if ty = JStr ''change_department'' then
        u\<lparr>mc_departmentId := overwrite (numField action ''departmentId'') (mc_departmentId u)\<rparr>
      else u)"

definition macro_note :: "macro \<Rightarrow> string \<Rightarrow> string" where
  "macro_note m note = ''[Macro: '' @ m_title m @ ''] '' @ note"

text \<open>The immediate effect of an action; its exceptions are logged. Reading the type of a null
  action throws outside that handler.\<close>

definition immediate_action :: "env \<Rightarrow> nat \<Rightarrow> macro \<Rightarrow> nat \<Rightarrow> actor option \<Rightarrow> js \<Rightarrow> unit act_db" where
  "immediate_action env i m staffId a action =
     (if js_is_nullish action then throw (Failure ''TypeError'')
      else catch_act
        (if js_prop action ''type'' = JStr ''add_tag'' \<and> strField action ''tag'' 100 \<noteq> '''' then
           addTag env i (strField action ''tag'' 100) a
         else if js_prop action ''type'' = JStr ''add_note'' \<and> strField action ''note'' 5000 \<noteq> '''' then
           sq (addNote env i (macro_note m (strField action ''note'' 5000)) (Some staffId) [] a) (ret ())
         else ret ())
        (\<lambda>_. ret ()))"

fun run_actions :: "env \<Rightarrow> nat \<Rightarrow> macro \<Rightarrow> nat \<Rightarrow> actor option \<Rightarrow> js list \<Rightarrow> macro_update \<Rightarrow> macro_update act_db" where
  "run_actions env i m staffId a [] u = ret u"
| "run_actions env i m staffId a (x # xs) u =
     sq (immediate_action env i m staffId a x) (run_actions env i m staffId a xs (collect_action x u))"

text \<open>The collected changes, each only when its target exists.\<close>

definition when_found :: "(int \<Rightarrow> db \<Rightarrow> bool) \<Rightarrow> js \<Rightarrow> (nat \<Rightarrow> ticket act_db) \<Rightarrow> unit act_db" where
  "when_found exists v command =
     bnd (int_arg v) (\<lambda>i.
     bnd (reads (exists i)) (\<lambda>found.
       if i \<ge> 0 \<and> found then sq (command (nat i)) (ret ()) else ret ()))"

definition apply_number :: "(int \<Rightarrow> db \<Rightarrow> bool) \<Rightarrow> rat option \<Rightarrow> (nat \<Rightarrow> ticket act_db) \<Rightarrow> unit act_db" where
  "apply_number exists z command = (case z of None \<Rightarrow> ret () | Some r \<Rightarrow> when_found exists (JNum r) command)"

definition apply_owner :: "js option \<Rightarrow> (nat option \<Rightarrow> ticket act_db) \<Rightarrow> unit act_db" where
  "apply_owner z command =
     (case z of
        None \<Rightarrow> ret ()
      | Some v \<Rightarrow> if js_is_nullish v then sq (command None) (ret ())
                  else when_found (\<lambda>i d. staff_by_int i d \<noteq> None) v (\<lambda>s. command (Some s)))"

definition apply_update :: "env \<Rightarrow> nat \<Rightarrow> nat \<Rightarrow> actor option \<Rightarrow> macro_update \<Rightarrow> unit act_db" where
  "apply_update env i staffId a u =
     sq (apply_number (\<lambda>k d. status_by_id (nat k) d \<noteq> None) (mc_statusId u) (\<lambda>k. changeStatus env i k staffId a))
    (sq (apply_number (\<lambda>k d. nat k \<in> set (priorities d)) (mc_priorityId u) (\<lambda>k. changePriority env i k staffId a))
    (sq (apply_number (\<lambda>k d. nat k \<in> set (departments d)) (mc_departmentId u) (\<lambda>k. changeDepartment env i k staffId a))
        (apply_owner (mc_ownerStaffId u) (\<lambda>z. assign env i z staffId a))))"

section \<open>The reply\<close>

definition create_post :: "post \<Rightarrow> nat act_db" where
  "create_post p d =
     (if p_inboundMessageId p \<noteq> None \<and> (\<exists>q \<in> set (posts d). p_inboundMessageId q = p_inboundMessageId p)
      then (Inl (UniqueViolation ''TicketPost.inboundMessageId''), d)
      else if p_ticketId p \<notin> t_id ` set (tickets d) then (Inl (Failure ''P2003''), d)
      else (Inr (seq_post d), d\<lparr>posts := posts d @ [p\<lparr>p_id := seq_post d\<rparr>], seq_post := Suc (seq_post d)\<rparr>))"

definition macro_post :: "env \<Rightarrow> ticket \<Rightarrow> macro \<Rightarrow> nat \<Rightarrow> staff option \<Rightarrow> post" where
  "macro_post env t m staffId s =
     \<lparr>p_id = 0, p_ticketId = t_id t, p_authorType = ByStaff, p_staffId = Some staffId, p_userId = None,
      p_fullName = (case s of None \<Rightarrow> '''' | Some x \<Rightarrow> staff_display x), p_email = (case s of None \<Rightarrow> '''' | Some x \<Rightarrow> s_email x),
      p_subject = t_subject t, p_contents = m_replyText m, p_isHtml = False, p_isEmailed = False, p_isThirdParty = False,
      p_creationMode = ModeStaff, p_messageId = None, p_inboundMessageId = None, p_createdAt = en_now env\<rparr>"

definition macro_reply :: "env \<Rightarrow> ticket \<Rightarrow> macro \<Rightarrow> nat \<Rightarrow> actor option \<Rightarrow> unit act_db" where
  "macro_reply env t m staffId a =
     bnd (reads (staff_by_id staffId)) (\<lambda>s.
       guarded_writes a (t_id t) (en_now env)
         (sq (create_post (macro_post env t m staffId s))
         (sq (update_ticket (t_id t) (\<lambda>x. x\<lparr>t_totalReplies := t_totalReplies x + 1, t_lastReplyAt := Some (en_now env),
                t_lastActivityAt := en_now env,
                t_firstResponseAt := (if t_firstResponseAt t = None then Some (en_now env) else t_firstResponseAt x)\<rparr>))
             (ret ()))))"

definition macro_by_id :: "nat \<Rightarrow> db \<Rightarrow> macro option" where
  "macro_by_id i d = find_row (\<lambda>m. m_id m = i) (macros d)"

definition applyMacro :: "env \<Rightarrow> nat \<Rightarrow> nat \<Rightarrow> nat \<Rightarrow> principal option \<Rightarrow> ticket act_db" where
  "applyMacro env i macroId staffId user =
     (let a = map_option principal_actor user in
      bnd (findAccessibleOrThrow i a) (\<lambda>t.
      bnd (reads (macro_by_id macroId)) (\<lambda>z.
        case z of
          None \<Rightarrow> throw (NotFound (''Macro '' @ nat_str macroId @ '' not found''))
        | Some m \<Rightarrow>
            sq (assertMacroPermissions m user)
           (sq (if trim (m_replyText m) \<noteq> '''' then macro_reply env t m staffId a else ret ())
           (sq (bnd (run_actions env i m staffId a (macro_actions m) no_update) (apply_update env i staffId a))
           (sq (writeAudit i ''MACRO_APPLIED'' (Some staffId) ByStaff (Some ''macroId'') None (Some (nat_str (m_id m))))
               (findUniqueOrThrow i)))))))"

end
