(* ===== verification/TicketIsolation.thy ===== *)
theory TicketIsolation
  imports TicketMacro
begin

text \<open>
  Department isolation of the staff commands. Every command a staff member can issue is bound by the
  access policy: whatever is stored about tickets the member cannot see stays as it is. The proofs
  are compositional, over the frame \<open>isolates\<close> and the facts of the policy's interface.
\<close>

section \<open>Writes outside the hidden tickets\<close>

lemma isolates_same_slice:
  "tickets d' = tickets d \<Longrightarrow> seq_ticket d' = seq_ticket d \<Longrightarrow> dept_staff d' = dept_staff d \<Longrightarrow> slice H d' = slice H d \<Longrightarrow>
   isolates a H d d'"
  by (simp add: isolates_def hidden_ok_def ticketWhere_def is_member_def)

lemma iso_update_ticket:
  assumes "i \<notin> H" "\<And>t. t_id (f t) = t_id t"
  shows "iso.stays a H (update_ticket i f)"
  unfolding iso.stays_def
proof
  fix d
  have "isolates a H d (d\<lparr>tickets := update_rows (\<lambda>t. t_id t = i) f (tickets d)\<rparr>)"
    by (rule isolates_update) (use assms in auto)
  then show "isolates a H d (snd (update_ticket i f d))"
    by (auto simp: update_ticket_def set_tickets_def iso.frame_refl split: option.splits)
qed

lemma iso_writeAudit: "i \<notin> H \<Longrightarrow> iso.stays a H (writeAudit i action s ty f old new)"
  unfolding iso.stays_def by (auto simp: writeAudit_def slice_def intro!: isolates_same_slice)

lemma iso_create_note: "i \<notin> H \<Longrightarrow> iso.stays a H (create_note i s c)"
  unfolding iso.stays_def by (auto simp: create_note_def slice_def iso.frame_refl intro!: isolates_same_slice)

lemma iso_outbox_grows: "outbox_grows d d' \<Longrightarrow> isolates a H d d'"
  by (auto simp: outbox_grows_def slice_def intro!: isolates_same_slice)

lemma iso_events_grow: "events_grow d d' \<Longrightarrow> isolates a H d d'"
  by (auto simp: events_grow_def slice_def intro!: isolates_same_slice)

lemma iso_of_growth: "growth.stays m \<Longrightarrow> iso.stays a H m"
  by (simp add: growth.stays_def iso.stays_def iso_outbox_grows)

lemma iso_of_planning: "planning.stays m \<Longrightarrow> iso.stays a H m"
  by (simp add: planning.stays_def iso.stays_def iso_events_grow)

lemma iso_enqueue: "iso.stays a H (enqueueWorkflowEmailEvent env t ty key)"
  by (rule iso_of_planning [OF enqueueWorkflow_stays])

lemma createInternal_stays: "growth.stays (createInternalNotificationEmail cfg uuid now input)"
  unfolding growth.stays_def
proof
  fix d
  show "outbox_grows d (snd (createInternalNotificationEmail cfg uuid now input d))"
  proof (cases "createInternalNotificationEmail cfg uuid now input d")
    case (Pair r d')
    show ?thesis
    proof (cases r)
      case (Inl e)
      then show ?thesis using Pair createInternal_Inl growth.frame_refl by fastforce
    next
      case (Inr i)
      show ?thesis
      proof (cases "outbound_by_key (ni_idempotencyKey input) d")
        case None
        from createInternal_new [OF None Pair [unfolded Inr]] obtain ob where
          "d' = d\<lparr>outbox := outbox d @ [ob], seq_outbox := Suc (seq_outbox d)\<rparr>" by blast
        then have "outbox_grows d d'" by (intro outbox_growsI [where rs = "[ob]"]) simp
        then show ?thesis using Pair by simp
      next
        case (Some ob)
        then have "d' = d" using Pair Inr by (simp add: createInternal_found)
        then show ?thesis using Pair growth.frame_refl by simp
      qed
    qed
  qed
qed

lemma notify_stays: "growth.stays (notify env input)"
  unfolding notify_def by (intro growth.stays_intros createInternal_stays)

lemma assignment_stays: "growth.stays (queueAssignmentNotification env t s key)"
  unfolding queueAssignmentNotification_def case_prod_beta
  by (intro growth.stays_intros notify_stays)

lemma iso_assignment: "iso.stays a H (queueAssignmentNotification env t s key)"
  by (rule iso_of_growth [OF assignment_stays])

section \<open>Guards\<close>

lemma iso_find:
  assumes "\<And>t. i \<notin> H \<Longrightarrow> t_id t = i \<Longrightarrow> iso.stays a H (f t)"
  shows "iso.stays a H (bnd (findAccessibleOrThrow i (Some a)) f)"
  unfolding iso.stays_def
proof
  fix d
  let ?p = "\<lambda>t. t_id t = i \<and> actor_sees (Some a) d t"
  show "isolates a H d (snd (bnd (findAccessibleOrThrow i (Some a)) f d))"
  proof (cases "find_row ?p (tickets d)")
    case None
    then show ?thesis by (simp add: findAccessibleOrThrow_def act_defs iso.frame_refl)
  next
    case (Some t)
    from find_row_SomeD [OF this] have t: "t \<in> set (tickets d)" "t_id t = i" "ticketWhere a d t"
      by (simp_all add: actor_sees_def)
    have run: "bnd (findAccessibleOrThrow i (Some a)) f d = f t d"
      using Some by (simp add: findAccessibleOrThrow_def act_defs)
    show ?thesis
    proof (cases "hidden_ok a H d")
      case True
      then have "i \<notin> H" using t hidden_ok_visible by blast
      then show ?thesis using assms t(2) run by (simp add: iso.stays_def)
    qed (simp add: isolates_def)
  qed
qed

lemma iso_find_sq: "(i \<notin> H \<Longrightarrow> iso.stays a H m) \<Longrightarrow> iso.stays a H (sq (findAccessibleOrThrow i (Some a)) m)"
  unfolding sq_def by (rule iso_find)

lemma iso_fence: "iso.stays a H (fenceTicketMutation (Some a) i now)"
  by (simp add: fenceTicketMutation_def acc.stays_fence)

lemma iso_fenced: "(i \<notin> H \<Longrightarrow> iso.stays a H m) \<Longrightarrow> iso.stays a H (sq (fenceTicketMutation (Some a) i now) m)"
  unfolding fenceTicketMutation_def option.case by (rule acc.fenced)

lemma iso_guarded: "(i \<notin> H \<Longrightarrow> iso.stays a H m) \<Longrightarrow> iso.stays a H (guarded_writes (Some a) i now m)"
  unfolding guarded_writes_def option.case by (intro iso.stays_txn iso_fenced)

lemma iso_fence_both:
  assumes "i \<notin> H \<Longrightarrow> j \<notin> H \<Longrightarrow> iso.stays a H m"
  shows "iso.stays a H (sq (fence_both env (Some a) i j) m)"
proof -
  have eq: "sq (fence_both env (Some a) i j) m =
    sq (fenceTicketMutation (Some a) (min i j) (en_now env)) (sq (fenceTicketMutation (Some a) (max i j) (en_now env)) m)"
    by (rule ext) (auto simp: fence_both_def act_defs insort_key.simps min_def max_def split: prod.splits sum.splits)
  show ?thesis
    unfolding eq by (intro iso_fenced assms) (auto simp: min_def max_def split: if_splits)
qed

lemma reads_only_stays:
  "iso.stays a H (assertAssigneeCanHandleDepartments s deps)" "iso.stays a H (assertAssignableStaff s)"
  "iso.stays a H (assert_assignee x z deps)" "iso.stays a H defaultStatusId"
  "iso.stays a H (assertCanAccessDepartment y dep)" "iso.stays a H (assertCanAccessDepartmentInTransaction y dep)"
  "iso.stays a H (findUniqueOrThrow i)" "iso.stays a H (int_arg v)" "iso.stays a H (bulk_status action)"
proof -
  show 1: "iso.stays a H (assertAssigneeCanHandleDepartments s deps)" for s deps
    unfolding assertAssigneeCanHandleDepartments_def by (intro iso.stays_intros)
  show 2: "iso.stays a H (assertAssignableStaff s)" for s
    unfolding assertAssignableStaff_def by (intro iso.stays_intros)
  show "iso.stays a H (assert_assignee x z deps)"
    unfolding assert_assignee_def by (intro iso.stays_intros 1 2)
  show "iso.stays a H defaultStatusId" "iso.stays a H (assertCanAccessDepartment y dep)"
    "iso.stays a H (assertCanAccessDepartmentInTransaction y dep)" "iso.stays a H (findUniqueOrThrow i)"
    unfolding defaultStatusId_def assertCanAccessDepartment_def assertCanAccessDepartmentInTransaction_def findUniqueOrThrow_def
    by (intro iso.stays_intros)+
  show "iso.stays a H (int_arg v)"
    by (auto simp: iso.stays_def int_arg_def act_defs iso.frame_refl split: js.splits)
  show "iso.stays a H (bulk_status action)"
    unfolding bulk_status_def by (cases action; simp; intro iso.stays_intros)
qed

lemmas iso_rules = iso.stays_intros reads_only_stays iso_writeAudit iso_create_note iso_enqueue iso_assignment iso_fence

section \<open>Single-ticket commands\<close>

lemmas iso_guards = iso_find iso_find_sq iso_guarded iso_fence_both iso_fenced iso.stays_txn

lemma iso_connect_tag: "i \<notin> H \<Longrightarrow> iso.stays a H (connect_tag i tag)"
proof -
  assume i: "i \<notin> H"
  have "iso.stays a H (modify (\<lambda>d. d\<lparr>tag_names := add_name tag (tag_names d)\<rparr>))"
    by (intro iso.stays_modify isolates_same_slice) (simp_all add: slice_def)
  then show ?thesis
    unfolding connect_tag_def by (intro iso.stays_intros iso_update_ticket i) simp_all
qed

lemma iso_disconnect_tag: "i \<notin> H \<Longrightarrow> iso.stays a H (disconnect_tag i tag)"
  unfolding disconnect_tag_def by (rule iso_update_ticket) simp_all

lemma iso_delete_watchers: "(\<And>w. p w \<Longrightarrow> fst w \<notin> H) \<Longrightarrow> iso.stays a H (delete_watchers p)"
  unfolding iso.stays_def
  by (auto simp: delete_watchers_def delete_rows_def slice_def intro!: isolates_same_slice filter_cong) 

lemma iso_prune: "i \<notin> H \<Longrightarrow> iso.stays a H (pruneWatchersOutsideDepartment i dep)"
  using iso_delete_watchers unfolding iso.stays_def pruneWatchersOutsideDepartment_def by (metis (mono_tags, lifting) case_prod_beta)

lemma iso_upsert_watcher: "i \<notin> H \<Longrightarrow> iso.stays a H (upsert_watcher i s)"
  unfolding iso.stays_def by (auto simp: upsert_watcher_def slice_def iso.frame_refl intro!: isolates_same_slice)

lemma status_patch_id [simp]: "t_id (status_patch now d t st x) = t_id x"
  by (simp add: status_patch_def Let_def split: option.splits bool.splits)

lemma bulk_status_patch_id [simp]: "t_id (bulk_status_patch now d t st x) = t_id x"
  by (simp add: bulk_status_patch_def Let_def split: option.splits)

lemmas iso_writes = iso_update_ticket iso_connect_tag iso_disconnect_tag iso_prune iso_upsert_watcher

lemma iso_addNote: "iso.stays a H (addNote env i c s [] (Some a))"
  unfolding addNote_def linkToNote_def if_P [OF refl]
  by (intro iso_guards iso_rules iso_writes) simp_all

lemma iso_assign: "iso.stays a H (assign env i z s (Some a))"
  unfolding assign_def by (intro iso_guards iso_rules iso_writes) simp_all

lemma iso_changeStatus: "iso.stays a H (changeStatus env i st s (Some a))"
  unfolding changeStatus_def case_prod_beta by (intro iso_guards iso_rules iso_writes) simp_all

lemma iso_changePriority: "iso.stays a H (changePriority env i p s (Some a))"
  unfolding changePriority_def by (intro iso_guards iso_rules iso_writes) simp_all

lemma iso_changeType: "iso.stays a H (changeType env i p s (Some a))"
  unfolding changeType_def by (intro iso_guards iso_rules iso_writes) simp_all

lemma iso_addWatcher: "iso.stays a H (addWatcher env i s (Some a))"
  unfolding addWatcher_def by (intro iso_guards iso_rules iso_writes) simp_all

lemma iso_removeWatcher: "iso.stays a H (removeWatcher env i s (Some a))"
  unfolding removeWatcher_def option.case by (intro iso_guards iso_rules iso_delete_watchers) simp_all

lemma iso_changeDepartment: "iso.stays a H (changeDepartment env i dep s (Some a))"
  unfolding changeDepartment_def option.case Let_def by (intro iso_guards iso_rules iso_writes) simp_all

lemma iso_addTag: "iso.stays a H (addTag env i tag (Some a))"
  unfolding addTag_def by (intro iso_guards iso_rules iso_writes) simp_all

lemma iso_removeTag: "iso.stays a H (removeTag env i tag (Some a))"
  unfolding removeTag_def by (intro iso_guards iso_rules iso_writes) simp_all

section \<open>Commands over several tickets\<close>

lemma iso_move_posts: "(\<And>p. P p \<Longrightarrow> p_ticketId p \<notin> H) \<Longrightarrow> j \<notin> H \<Longrightarrow> iso.stays a H (move_posts P j)"
proof -
  assume P: "\<And>p. P p \<Longrightarrow> p_ticketId p \<notin> H" and j: "j \<notin> H"
  have "filter (\<lambda>p. p_ticketId p \<in> H) (update_rows P (\<lambda>x. x\<lparr>p_ticketId := j\<rparr>) ps) = filter (\<lambda>p. p_ticketId p \<in> H) ps" for ps
    by (induction ps) (use P j in auto)
  then show ?thesis
    unfolding iso.stays_def by (auto simp: move_posts_def slice_def intro!: isolates_same_slice)
qed

lemma iso_move_notes: "i \<notin> H \<Longrightarrow> j \<notin> H \<Longrightarrow> iso.stays a H (move_notes i j)"
proof -
  assume ij: "i \<notin> H" "j \<notin> H"
  have "filter (\<lambda>n. n_ticketId n \<in> H) (update_rows (\<lambda>n. n_ticketId n = i) (\<lambda>n. n\<lparr>n_ticketId := j\<rparr>) ns) =
      filter (\<lambda>n. n_ticketId n \<in> H) ns" for ns
    by (induction ns) (use ij in auto)
  then show ?thesis
    unfolding move_notes_def by (intro iso.stays_modify isolates_same_slice) (simp_all add: slice_def)
qed

lemma iso_move_attachments: "i \<notin> H \<Longrightarrow> j \<notin> H \<Longrightarrow> iso.stays a H (move_attachments i j)"
proof -
  assume ij: "i \<notin> H" "j \<notin> H"
  have "filter (\<lambda>x. a_ticketId x \<in> Some ` H) (update_rows (\<lambda>x. a_ticketId x = Some i) (\<lambda>x. x\<lparr>a_ticketId := Some j\<rparr>) xs) =
      filter (\<lambda>x. a_ticketId x \<in> Some ` H) xs" for xs
    by (induction xs) (use ij in auto)
  then have "iso.stays a H (update_many_attachments (\<lambda>x. a_ticketId x = Some i) (\<lambda>x. x\<lparr>a_ticketId := Some j\<rparr>))"
    unfolding iso.stays_def by (auto simp: update_many_attachments_def slice_def intro!: isolates_same_slice)
  then show ?thesis unfolding move_attachments_def by (intro iso.stays_intros)
qed

lemma iso_move_watchers: "i \<notin> H \<Longrightarrow> j \<notin> H \<Longrightarrow> iso.stays a H (move_watchers i j)"
proof -
  assume ij: "i \<notin> H" "j \<notin> H"
  have "filter (\<lambda>x. fst x \<in> H) (update_rows (\<lambda>w. fst w = i \<and> snd w \<notin> set ks) (\<lambda>w. (j, snd w)) ws) =
      filter (\<lambda>x. fst x \<in> H) ws" for ks ws
    by (induction ws) (use ij in auto)
  then have "iso.stays a H (modify (\<lambda>d. d\<lparr>watchers := update_rows (\<lambda>w. fst w = i \<and> snd w \<notin> set ks) (\<lambda>w. (j, snd w)) (watchers d)\<rparr>))" for ks
    by (intro iso.stays_modify isolates_same_slice) (simp_all add: slice_def)
  then show ?thesis
    unfolding move_watchers_def by (intro iso.stays_intros iso_delete_watchers) (use ij in simp_all)
qed

lemma iso_bulk_member: "iso.stays a H (bulk_member env action status s (Some a) t)"
  unfolding bulk_member_def by (intro iso_guards iso_rules iso_writes) simp_all

lemma iso_bulkAction: "iso.stays a H (bulkAction env ids action s (Some a))"
  unfolding bulkAction_def Let_def by (intro iso_guards iso_rules iso_bulk_member)

lemma iso_merge: "iso.stays a H (merge env i j s (Some a))"
  unfolding merge_def merge_body_def Let_def
  by (intro iso_guards iso_rules iso_writes iso_move_posts iso_move_notes iso_move_attachments iso_move_watchers) simp_all

lemma iso_create_ticket:
  assumes "\<And>i. i \<notin> H \<Longrightarrow> iso.stays a H (f i)"
  shows "iso.stays a H (bnd (create_ticket_row t) f)"
  unfolding iso.stays_def
proof
  fix d
  show "isolates a H d (snd (bnd (create_ticket_row t) f d))"
  proof (cases "hidden_ok a H d")
    case True
    then have new: "seq_ticket d \<notin> H" by (auto simp: hidden_ok_def)
    show ?thesis
    proof (cases "create_ticket_row t d")
      case (Pair r d')
      show ?thesis
      proof (cases r)
        case (Inl e)
        then have "d' = d" using Pair by (auto simp: create_ticket_row_def split: if_splits)
        then show ?thesis using Inl Pair by (simp add: bnd_def iso.frame_refl)
      next
        case (Inr i)
        then have d': "i = seq_ticket d" "d' = d\<lparr>tickets := tickets d @ [t\<lparr>t_id := seq_ticket d\<rparr>], seq_ticket := Suc (seq_ticket d)\<rparr>"
          using Pair by (auto simp: create_ticket_row_def split: if_splits)
        have "hidden_ok a H d' \<and> slice H d' = slice H d"
          using True new by (auto simp: d' hidden_ok_def slice_def ticketWhere_def is_member_def)
        then have "isolates a H d d'" by (simp add: isolates_def)
        moreover have "isolates a H d' (snd (f i d'))"
          using assms new d'(1) by (simp add: iso.stays_def)
        ultimately show ?thesis
          using Pair Inr by (auto simp: bnd_def intro: iso.frame_trans)
      qed
    qed
  qed (simp add: isolates_def)
qed

lemma iso_set_mask: "i \<notin> H \<Longrightarrow> iso.stays a H (set_mask i b)"
  unfolding set_mask_def by (intro iso_rules iso_writes) simp_all

text \<open>What a successful handler returns when it starts in a state with hidden tickets \<open>H\<close>.\<close>

definition yields :: "actor \<Rightarrow> nat set \<Rightarrow> 'a act_db \<Rightarrow> ('a \<Rightarrow> bool) \<Rightarrow> bool" where
  "yields a H m Q \<longleftrightarrow> (\<forall>d x d'. hidden_ok a H d \<longrightarrow> m d = (Inr x, d') \<longrightarrow> Q x)"

lemma yields_ret: "Q x \<Longrightarrow> yields a H (ret x) Q"
  by (simp add: yields_def ret_def)

lemma yields_bnd: "iso.stays a H m \<Longrightarrow> (\<And>x. yields a H (f x) Q) \<Longrightarrow> yields a H (bnd m f) Q"
  unfolding yields_def bnd_def iso.stays_def isolates_def
  by (auto split: prod.splits sum.splits) (metis snd_conv)

lemma yields_sq: "iso.stays a H m \<Longrightarrow> yields a H n Q \<Longrightarrow> yields a H (sq m n) Q"
  unfolding sq_def by (rule yields_bnd)

lemma yields_txn: "yields a H m Q \<Longrightarrow> yields a H (txn m) Q"
  unfolding yields_def txn_def by (auto split: prod.splits sum.splits)

lemma yields_create:
  assumes "\<And>i. i \<notin> H \<Longrightarrow> yields a H (f i) Q"
  shows "yields a H (bnd (create_ticket_row t) f) Q"
  unfolding yields_def
proof (intro allI impI)
  fix d x d'
  assume ok: "hidden_ok a H d" and run: "bnd (create_ticket_row t) f d = (Inr x, d')"
  then obtain d1 where d1: "create_ticket_row t d = (Inr (seq_ticket d), d1)" "f (seq_ticket d) d1 = (Inr x, d')"
    by (auto simp: bnd_def create_ticket_row_def split: if_splits)
  have new: "seq_ticket d \<notin> H" using ok by (auto simp: hidden_ok_def)
  have "iso.stays a H (bnd (create_ticket_row t) (\<lambda>_. ret ()))"
    by (intro iso_create_ticket iso.stays_ret)
  then have "isolates a H d d1" using d1(1) by (auto simp: iso.stays_def bnd_def ret_def dest: spec [of _ d])
  then have "hidden_ok a H d1" using ok by (simp add: isolates_def)
  with assms [OF new] d1(2) show "Q x" by (auto simp: yields_def)
qed

lemma yields_mask:
  assumes "i \<notin> H" "\<And>t. t_id t = i \<Longrightarrow> yields a H (f t) Q"
  shows "yields a H (bnd (set_mask i b) f) Q"
  unfolding yields_def
proof (intro allI impI)
  fix d x d'
  assume ok: "hidden_ok a H d" and run: "bnd (set_mask i b) f d = (Inr x, d')"
  then obtain t d1 where t: "set_mask i b d = (Inr t, d1)" "f t d1 = (Inr x, d')"
    by (auto simp: bnd_def split: prod.splits sum.splits)
  then have "t_id t = i"
    by (auto simp: set_mask_def bnd_def reads_def throw_def update_ticket_def split: if_splits option.splits dest: ticket_by_id_SomeD)
  moreover have "hidden_ok a H d1"
    using iso.staysD [OF iso_set_mask [OF assms(1)] t(1)] ok by (simp add: isolates_def)
  ultimately show "Q x" using assms(2) t(2) by (auto simp: yields_def)
qed

lemma iso_bnd_yields:
  assumes "iso.stays a H m" "yields a H m Q" "\<And>x. Q x \<Longrightarrow> iso.stays a H (f x)"
  shows "iso.stays a H (bnd m f)"
  unfolding iso.stays_def
proof
  fix d
  show "isolates a H d (snd (bnd m f d))"
  proof (cases "m d")
    case (Pair r d1)
    have step: "isolates a H d d1" using iso.staysD [OF assms(1) Pair] .
    show ?thesis
    proof (cases r)
      case (Inl e)
      then show ?thesis using Pair step by (simp add: bnd_def)
    next
      case (Inr x)
      have "isolates a H d1 (snd (f x d1))" if "hidden_ok a H d"
        using that assms(2,3) Pair Inr by (auto simp: yields_def iso.stays_def)
      then have "isolates a H d (snd (f x d1))"
        using step by (auto simp: isolates_def)
      then show ?thesis using Pair Inr by (simp add: bnd_def)
    qed
  qed
qed

lemma split_body_ok:
  assumes "t_id source \<notin> H"
  shows "iso.stays a H (split_body env source ps dep row (Some a))"
    "yields a H (split_body env source ps dep row (Some a)) (\<lambda>t. t_id t \<notin> H)"
  unfolding split_body_def option.case
  by (intro iso_create_ticket iso_rules iso_writes iso_set_mask iso_move_posts assms; use assms in simp)
     (intro yields_sq yields_create yields_mask yields_bnd yields_ret iso_rules iso_writes iso_move_posts assms; use assms in simp)

lemma iso_split: "iso.stays a H (split_ticket env i ps subject dep s (Some a))"
  unfolding split_ticket_def Let_def option.case
  by (intro iso_find iso_bnd_yields [OF iso.stays_txn yields_txn] split_body_ok iso_rules)
     (simp_all add: split_body_ok)

lemma iso_create_link: "i \<notin> H \<Longrightarrow> j \<notin> H \<Longrightarrow> iso.stays a H (create_link i j ty)"
proof -
  assume ij: "i \<notin> H" "j \<notin> H"
  have "iso.stays a H (\<lambda>d. (Inr (seq_link d), d\<lparr>links := links d @ [\<lparr>l_id = seq_link d, l_sourceId = i, l_targetId = j, l_linkType = ty\<rparr>],
                seq_link := Suc (seq_link d)\<rparr>))"
    unfolding iso.stays_def using ij by (auto simp: slice_def intro!: isolates_same_slice)
  then show ?thesis unfolding create_link_def by (intro iso.stays_intros)
qed

lemma iso_addLink: "iso.stays a H (addLink env i j ty (Some a))"
  unfolding addLink_def option.case by (intro iso_guards iso_rules iso_create_link)

lemma iso_removeLink: "iso.stays a H (removeLink env i k (Some a))"
proof -
  have "iso.stays a H (modify (\<lambda>d. d\<lparr>links := remove1 l (links d)\<rparr>))" if "l_sourceId l \<notin> H" "l_targetId l \<notin> H" for l
    using that by (intro iso.stays_modify isolates_same_slice) (simp_all add: slice_def filter_remove1 remove1_idem)
  then show ?thesis
    unfolding removeLink_def remove_link_body_def option.case by (intro iso_guards iso_rules)
qed

lemma iso_create_post: "p_ticketId p \<notin> H \<Longrightarrow> iso.stays a H (create_post p)"
  unfolding iso.stays_def by (auto simp: create_post_def slice_def iso.frame_refl intro!: isolates_same_slice)

lemma iso_macro_reply:
  "t_id t \<notin> H \<Longrightarrow> iso.stays a H (macro_reply env t m s (Some a))"
  unfolding macro_reply_def by (intro iso_guards iso_rules iso_writes iso_create_post) (simp_all add: macro_post_def)

lemma iso_run_actions: "iso.stays a H (run_actions env i m s (Some a) xs u)"
proof (induction xs arbitrary: u)
  case (Cons x xs)
  have "iso.stays a H (immediate_action env i m s (Some a) x)"
    unfolding immediate_action_def by (intro iso_rules iso_addTag iso_addNote)
  with Cons show ?case by (simp add: iso.stays_sq)
qed (simp add: iso.stays_ret)

lemma iso_apply_update: "iso.stays a H (apply_update env i s (Some a) u)"
  unfolding apply_update_def apply_number_def apply_owner_def when_found_def
  by (intro iso_rules iso_changeStatus iso_changePriority iso_changeDepartment iso_assign)

lemma iso_applyMacro:
  assumes "principal_actor p = a"
  shows "iso.stays a H (applyMacro env i k s (Some p))"
proof -
  have "iso.stays a H (assertMacroPermissions m (Some p))" for m
    unfolding assertMacroPermissions_def Let_def option.case by (intro iso_rules)
  then show ?thesis
    unfolding applyMacro_def Let_def option.map assms
    by (intro iso_find iso_rules iso_macro_reply iso_run_actions iso_apply_update) simp_all
qed

section \<open>All staff commands\<close>

text \<open>The requests of the ticket controller that change tickets, as one type, and their handler for a
  staff member. Notes carry no uploaded files here.\<close>

datatype command =
    CAssign nat "nat option"
  | CStatus nat nat
  | CPriority nat nat
  | CType nat "nat option"
  | CDepartment nat nat
  | CNote nat string
  | CAddWatcher nat nat
  | CRemoveWatcher nat nat
  | CAddTag nat string
  | CRemoveTag nat string
  | CBulk "nat list" bulk_action
  | CMerge nat nat
  | CSplit nat "nat list" string "nat option"
  | CAddLink nat nat string
  | CRemoveLink nat nat
  | CMacro nat nat

definition unit_act :: "'a act_db \<Rightarrow> unit act_db" where
  "unit_act m = sq m (ret ())"

fun run_command :: "env \<Rightarrow> principal \<Rightarrow> command \<Rightarrow> unit act_db" where
  "run_command env p (CAssign i z) = unit_act (assign env i z (pc_staffId p) (Some (principal_actor p)))"
| "run_command env p (CStatus i k) = unit_act (changeStatus env i k (pc_staffId p) (Some (principal_actor p)))"
| "run_command env p (CPriority i k) = unit_act (changePriority env i k (pc_staffId p) (Some (principal_actor p)))"
| "run_command env p (CType i z) = unit_act (changeType env i z (pc_staffId p) (Some (principal_actor p)))"
| "run_command env p (CDepartment i k) = unit_act (changeDepartment env i k (pc_staffId p) (Some (principal_actor p)))"
| "run_command env p (CNote i c) = unit_act (addNote env i c (Some (pc_staffId p)) [] (Some (principal_actor p)))"
| "run_command env p (CAddWatcher i k) = addWatcher env i k (Some (principal_actor p))"
| "run_command env p (CRemoveWatcher i k) = removeWatcher env i k (Some (principal_actor p))"
| "run_command env p (CAddTag i n) = addTag env i n (Some (principal_actor p))"
| "run_command env p (CRemoveTag i n) = removeTag env i n (Some (principal_actor p))"
| "run_command env p (CBulk is x) = unit_act (bulkAction env is x (pc_staffId p) (Some (principal_actor p)))"
| "run_command env p (CMerge i j) = unit_act (merge env i j (pc_staffId p) (Some (principal_actor p)))"
| "run_command env p (CSplit i ps s z) = unit_act (split_ticket env i ps s z (pc_staffId p) (Some (principal_actor p)))"
| "run_command env p (CAddLink i j ty) = unit_act (addLink env i j ty (Some (principal_actor p)))"
| "run_command env p (CRemoveLink i k) = removeLink env i k (Some (principal_actor p))"
| "run_command env p (CMacro i k) = unit_act (applyMacro env i k (pc_staffId p) (Some p))"

text \<open>A failed request does not stop the session.\<close>

fun run_session :: "env list \<Rightarrow> principal \<Rightarrow> command list \<Rightarrow> db \<Rightarrow> db" where
  "run_session (env # envs) p (c # cs) d = run_session envs p cs (snd (run_command env p c d))"
| "run_session _ p _ d = d"

lemma iso_unit_act: "iso.stays a H m \<Longrightarrow> iso.stays a H (unit_act m)"
  unfolding unit_act_def by (intro iso.stays_intros)

lemma iso_run_command: "iso.stays (principal_actor p) H (run_command env p c)"
  by (cases c) (simp_all add: iso_unit_act iso_assign iso_changeStatus iso_changePriority iso_changeType iso_changeDepartment iso_addNote
      iso_addWatcher iso_removeWatcher iso_addTag iso_removeTag iso_bulkAction iso_merge iso_split iso_addLink iso_removeLink
      iso_applyMacro)

section \<open>Properties\<close>

lemma run_session_isolates: "isolates (principal_actor p) H d (run_session envs p cs d)"
proof (induction envs p cs d rule: run_session.induct)
  case (1 env envs p c cs d)
  have "isolates (principal_actor p) H d (snd (run_command env p c d))"
    using iso_run_command by (simp add: iso.stays_def)
  with 1 show ?case by (auto intro: iso.frame_trans)
qed (simp_all add: iso.frame_refl)


definition agent_7 :: principal where
  "agent_7 = \<lparr>pc_staffId = 7, pc_email = '''', pc_isAdmin = False, pc_permissions = []\<rparr>"


text \<open>The tickets a command names.\<close>

fun named :: "command \<Rightarrow> nat list" where
  "named (CAssign i z) = [i]"
| "named (CStatus i k) = [i]"
| "named (CPriority i k) = [i]"
| "named (CType i z) = [i]"
| "named (CDepartment i k) = [i]"
| "named (CNote i c) = [i]"
| "named (CAddWatcher i k) = [i]"
| "named (CRemoveWatcher i k) = [i]"
| "named (CAddTag i n) = [i]"
| "named (CRemoveTag i n) = [i]"
| "named (CBulk is x) = is"
| "named (CMerge i j) = [i, j]"
| "named (CSplit i ps s z) = [i]"
| "named (CAddLink i j ty) = [i, j]"
| "named (CRemoveLink i k) = [i]"
| "named (CMacro i k) = [i]"

lemma find_hidden:
  assumes "ids_ok d" "\<not> accessible a d i"
  shows "findAccessibleOrThrow i (Some a) d = (Inl (ticket_missing i), d)"
proof -
  have "find_row (\<lambda>t. t_id t = i \<and> actor_sees (Some a) d t) (tickets d) = None"
    using assms(2) by (auto simp: find_row_None_iff actor_sees_def accessible_iff [OF assms(1)])
  then show ?thesis by (simp add: findAccessibleOrThrow_def act_defs)
qed

lemma find_seen:
  "(\<exists>t. findAccessibleOrThrow i (Some a) d = (Inr t, d) \<and> t_id t = i) \<or> findAccessibleOrThrow i (Some a) d = (Inl (ticket_missing i), d)"
  by (cases "find_row (\<lambda>t. t_id t = i \<and> actor_sees (Some a) d t) (tickets d)")
     (auto simp: findAccessibleOrThrow_def act_defs dest: find_row_SomeD)

lemma fence_refuses:
  assumes "\<not> (\<exists>t \<in> set (tickets d). t_id t = i \<and> ticketWhere a d t)"
  shows "\<exists>d'. fenceTicket a i now d = (Inl (NotFound ''Ticket not found''), d')"
proof (cases "fenceTicket a i now d")
  case (Pair r d')
  then have "r = Inr () \<or> r = Inl (NotFound ''Ticket not found'')"
    by (auto simp: fenceTicket_def act_defs update_many_tickets_def split: if_splits)
  moreover have "r \<noteq> Inr ()" using fenceTicket_visible [of a i now d] Pair assms by auto
  ultimately show ?thesis using Pair by blast
qed

lemma each_Cons: "each f (x # xs) = bnd (f x) (\<lambda>y. bnd (each f xs) (\<lambda>ys. ret (y # ys)))"
  by (simp add: fun_eq_iff)

definition unseen :: "actor \<Rightarrow> db \<Rightarrow> nat \<Rightarrow> bool" where
  "unseen a d i \<longleftrightarrow> (\<forall>t \<in> set (tickets d). t_id t = i \<longrightarrow> \<not> ticketWhere a d t)"

lemma unseen_iff: "ids_ok d \<Longrightarrow> unseen a d i \<longleftrightarrow> \<not> accessible a d i"
  by (auto simp: unseen_def accessible_iff)

lemma fence_step:
  assumes "fenceTicket a j now d = (r, d')" "unseen a d i"
  shows "(r = Inr () \<or> r = Inl (NotFound ''Ticket not found'')) \<and> unseen a d' i \<and> (i = j \<longrightarrow> r \<noteq> Inr ())"
proof -
  have "d' = d\<lparr>tickets := update_rows (\<lambda>t. t_id t = j \<and> ticketWhere a d t) (\<lambda>t. t\<lparr>t_lastActivityAt := now\<rparr>) (tickets d)\<rparr>"
    using assms(1) by (auto simp: fenceTicket_def act_defs update_many_tickets_def split: if_splits)
  moreover have "r = Inr () \<or> r = Inl (NotFound ''Ticket not found'')"
    using assms(1) by (auto simp: fenceTicket_def act_defs update_many_tickets_def split: if_splits)
  moreover have "i = j \<Longrightarrow> r \<noteq> Inr ()"
    using fenceTicket_visible [of a j now d] assms by (auto simp: unseen_def)
  ultimately show ?thesis
    using assms(2) by (auto simp: unseen_def set_update_rows ticketWhere_def is_member_def)
qed

lemma fence_list_refuses:
  assumes "unseen a d i" "i \<in> set is"
  shows "\<exists>d'. each (\<lambda>k. fenceTicketMutation (Some a) k now) is d = (Inl (NotFound ''Ticket not found''), d')"
  using assms
proof (induction "is" arbitrary: d)
  case (Cons j js)
  obtain r d' where f: "fenceTicket a j now d = (r, d')" by fastforce
  from fence_step [OF this Cons.prems(1)] Cons show ?case
    by (cases "r = Inr ()") (fastforce simp: fenceTicketMutation_def f bnd_def ret_def)+
qed simp

lemma fence_both_refuses:
  assumes "unseen a d i" "i = s \<or> i = t"
  shows "\<exists>d'. fence_both env (Some a) s t d = (Inl (NotFound ''Ticket not found''), d')"
  using fence_list_refuses [OF assms(1), of "sort [s, t]" "en_now env"] assms(2)
  by (auto simp: fence_both_def sq_def bnd_def)

lemma removeLink_hidden:
  assumes "unseen a d i"
  shows "\<exists>m. removeLink env i k (Some a) d = (Inl (NotFound m), d)"
proof (cases "find_row (\<lambda>l. l_id l = k) (links d)")
  case None
  then show ?thesis by (simp add: removeLink_def remove_link_body_def act_defs link_missing_def)
next
  case (Some l)
  show ?thesis
  proof (cases "l_sourceId l \<noteq> i \<and> l_targetId l \<noteq> i")
    case True
    with Some show ?thesis by (simp add: removeLink_def remove_link_body_def act_defs link_missing_def)
  next
    case False
    then obtain d' where "fence_both env (Some a) (l_sourceId l) (l_targetId l) d = (Inl (NotFound ''Ticket not found''), d')"
      using fence_both_refuses [OF assms, of "l_sourceId l" "l_targetId l"] by blast
    with Some False show ?thesis by (auto simp: removeLink_def remove_link_body_def act_defs)
  qed
qed

lemma bulk_hidden:
  assumes "unseen a d i" "i \<in> set is"
  shows "bulkAction env is x staffId (Some a) d = (Inl (NotFound ''One or more tickets not found''), d)"
proof -
  let ?e = "filter (\<lambda>t. t_id t \<in> set (js_set is) \<and> t_mergedIntoId t = None \<and> actor_sees (Some a) d t) (tickets d)"
  have "i \<notin> t_id ` set ?e" using assms(1) by (auto simp: unseen_def actor_sees_def)
  then have "filter (\<lambda>i. i \<notin> t_id ` set ?e) (js_set is) \<noteq> []"
    using assms(2) by (auto simp: filter_empty_conv)
  then show ?thesis by (simp add: bulkAction_def Let_def bnd_def reads_def throw_def)
qed

lemma bnd_find_hidden:
  assumes "unseen a d i"
  shows "bnd (findAccessibleOrThrow i (Some a)) f d = (Inl (ticket_missing i), d)"
    "sq (findAccessibleOrThrow i (Some a)) m d = (Inl (ticket_missing i), d)"
proof -
  have "find_row (\<lambda>t. t_id t = i \<and> actor_sees (Some a) d t) (tickets d) = None"
    using assms by (auto simp: find_row_None_iff unseen_def actor_sees_def)
  then show "bnd (findAccessibleOrThrow i (Some a)) f d = (Inl (ticket_missing i), d)"
    "sq (findAccessibleOrThrow i (Some a)) m d = (Inl (ticket_missing i), d)"
    by (simp_all add: findAccessibleOrThrow_def act_defs)
qed

lemma sq_error: "m d = (Inl e, d') \<Longrightarrow> sq m n d = (Inl e, d')"
  by (simp add: sq_def bnd_def)

lemma find_cases:
  obtains t where "findAccessibleOrThrow i (Some a) d = (Inr t, d)" "\<not> unseen a d i"
  | "findAccessibleOrThrow i (Some a) d = (Inl (ticket_missing i), d)"
proof (cases "unseen a d i")
  case True
  then show ?thesis using that(2) bnd_find_hidden(1) [OF True, of ret] by (simp add: bnd_def ret_def split: prod.splits sum.splits)
next
  case False
  with find_seen [of i a d] that show ?thesis by blast
qed

lemma two_finds_hidden:
  assumes "unseen a d i \<or> unseen a d j"
  shows "\<exists>m. bnd (findAccessibleOrThrow i (Some a)) (\<lambda>s. bnd (findAccessibleOrThrow j (Some a)) (f s)) d = (Inl (NotFound m), d)"
  using assms
  by (cases rule: find_cases [of i a d])
     (auto simp: bnd_find_hidden ticket_missing_def bnd_def [of "findAccessibleOrThrow i (Some a)"])

lemma merge_hidden:
  assumes "unseen a d i \<or> unseen a d j"
  shows "\<exists>m. merge env i j staffId (Some a) d = (Inl (NotFound m), d)"
  unfolding merge_def by (rule two_finds_hidden [OF assms])

lemma addLink_hidden:
  assumes "unseen a d i \<or> unseen a d j" "i \<noteq> j"
  shows "\<exists>m. addLink env i j ty (Some a) d = (Inl (NotFound m), d)"
  using two_finds_hidden [OF assms(1)] assms(2)
  by (simp add: addLink_def require_def sq_def bnd_def [of "ret ()"] ret_def [of "()"])

lemmas hidden_rules = bnd_find_hidden merge_hidden addLink_hidden removeLink_hidden bulk_hidden



end
