(* ===== verification/TicketRequests.thy ===== *)
theory TicketRequests
  imports TicketIsolation "HOL-Library.Sublist"
begin

text \<open>
  The staff routes of \<open>tickets/tickets.controller.ts\<close>: the permission each route declares, the guard
  in front of it, the additional check of the bulk route, and then the command. The confinement
  theorem bounds what a role can do through any sequence of requests, macros and batches included.
\<close>

section \<open>Routes\<close>

fun route_permission :: "command \<Rightarrow> permission" where
  "route_permission (CAssign i z) = TICKET_ASSIGN"
| "route_permission (CStatus i k) = TICKET_EDIT"
| "route_permission (CPriority i k) = TICKET_EDIT"
| "route_permission (CType i z) = TICKET_EDIT"
| "route_permission (CDepartment i k) = TICKET_EDIT"
| "route_permission (CNote i c) = TICKET_NOTE"
| "route_permission (CAddWatcher i k) = TICKET_EDIT"
| "route_permission (CRemoveWatcher i k) = TICKET_EDIT"
| "route_permission (CAddTag i n) = TICKET_EDIT"
| "route_permission (CRemoveTag i n) = TICKET_EDIT"
| "route_permission (CBulk is x) = TICKET_EDIT"
| "route_permission (CMerge i j) = TICKET_MERGE"
| "route_permission (CSplit i ps s z) = TICKET_MERGE"
| "route_permission (CAddLink i j ty) = TICKET_EDIT"
| "route_permission (CRemoveLink i k) = TICKET_EDIT"
| "route_permission (CMacro i k) = TICKET_EDIT"

text \<open>The handler of the bulk route: assignment needs its own permission, which it looks up in the
  principal's list without the shortcut for administrators.\<close>

fun is_assignment :: "bulk_action \<Rightarrow> bool" where
  "is_assignment (BulkStatus k) \<longleftrightarrow> False"
| "is_assignment (BulkAssignee z) \<longleftrightarrow> True"
| "is_assignment BulkUnassign \<longleftrightarrow> True"

fun bulk_check :: "principal \<Rightarrow> command \<Rightarrow> unit act_db" where
  "bulk_check p (CBulk is x) =
     require (is_assignment x \<longrightarrow> perm_key TICKET_ASSIGN \<in> set (pc_permissions p))
       (Forbidden ''Bulk (un)assignment requires the ticket.assign permission'')"
| "bulk_check p _ = ret ()"

definition guard_route :: "principal \<Rightarrow> permission \<Rightarrow> unit act_db" where
  "guard_route p k =
     (case permissionsGuard (Some [perm_key k]) (Some p) of
        Inl e \<Rightarrow> throw e
      | Inr b \<Rightarrow> require b (Forbidden ''Forbidden resource''))"

definition handle_request :: "env \<Rightarrow> principal \<Rightarrow> command \<Rightarrow> unit act_db" where
  "handle_request env p c = sq (guard_route p (route_permission c)) (sq (bulk_check p c) (run_command env p c))"

fun handle_session :: "env list \<Rightarrow> principal \<Rightarrow> command list \<Rightarrow> db \<Rightarrow> db" where
  "handle_session (env # envs) p (c # cs) d = handle_session envs p cs (snd (handle_request env p c d))"
| "handle_session _ p _ d = d"

definition lacks :: "principal \<Rightarrow> permission \<Rightarrow> bool" where
  "lacks p k \<longleftrightarrow> \<not> pc_isAdmin p \<and> perm_key k \<notin> set (pc_permissions p)"

section \<open>Confinement\<close>

definition owner_of :: "ticket \<Rightarrow> nat \<times> nat option" where
  "owner_of t = (t_id t, t_ownerStaffId t)"

definition note_text :: "tnote \<Rightarrow> nat \<times> nat option \<times> string" where
  "note_text n = (n_id n, n_staffId n, n_contents n)"

definition post_text :: "post \<Rightarrow> nat \<times> nat option \<times> string" where
  "post_text p = (p_id p, p_staffId p, p_contents p)"

text \<open>Depending on the three switches: existing tickets keep their owners, the notes and the posts
  stay the same up to the ticket they belong to.\<close>

definition confined :: "bool \<Rightarrow> bool \<Rightarrow> bool \<Rightarrow> db \<Rightarrow> db \<Rightarrow> bool" where
  "confined ow no re d d' \<longleftrightarrow>
     (ow \<longrightarrow> prefix (map owner_of (tickets d)) (map owner_of (tickets d'))) \<and>
     (no \<longrightarrow> map note_text (ticket_notes d') = map note_text (ticket_notes d)) \<and>
     (re \<longrightarrow> map post_text (posts d') = map post_text (posts d))"

interpretation conf: frame "confined ow no re" for ow no re
  by unfold_locales (auto simp: confined_def intro: prefix_order.trans)

lemma confined_same:
  "tickets d' = tickets d \<Longrightarrow> ticket_notes d' = ticket_notes d \<Longrightarrow> posts d' = posts d \<Longrightarrow> confined ow no re d d'"
  by (simp add: confined_def)

lemma confined_update:
  assumes "\<And>t. ow \<Longrightarrow> owner_of (f t) = owner_of t"
  shows "confined ow no re d (d\<lparr>tickets := update_rows p f (tickets d)\<rparr>)"
proof -
  have "map owner_of (update_rows p f ts) = map owner_of ts" if ow for ts
    by (induction ts) (use assms that in auto)
  then show ?thesis by (simp add: confined_def)
qed

lemma conf_update_ticket:
  assumes "\<And>t. ow \<Longrightarrow> owner_of (f t) = owner_of t"
  shows "conf.stays ow no re (update_ticket i f)"
  using confined_update [OF assms] unfolding conf.stays_def
  by (auto simp: update_ticket_def set_tickets_def conf.frame_refl split: option.splits)

lemma conf_outbox_grows: "outbox_grows d d' \<Longrightarrow> confined ow no re d d'"
  by (auto simp: outbox_grows_def intro!: confined_same)

lemma conf_events_grow: "events_grow d d' \<Longrightarrow> confined ow no re d d'"
  by (auto simp: events_grow_def intro!: confined_same)

lemma conf_growths:
  "conf.stays ow no re (queueAssignmentNotification env t s key)"
  "conf.stays ow no re (enqueueWorkflowEmailEvent env t ty key)"
  using assignment_stays [of env t s key] enqueueWorkflow_stays [of env t ty key]
  by (simp_all add: conf.stays_def growth.stays_def planning.stays_def conf_outbox_grows conf_events_grow)

lemma conf_reads_only:
  "conf.stays ow no re (assertAssigneeCanHandleDepartments s deps)" "conf.stays ow no re (assertAssignableStaff s)"
  "conf.stays ow no re (assert_assignee x z deps)" "conf.stays ow no re defaultStatusId"
  "conf.stays ow no re (assertCanAccessDepartment y dep)" "conf.stays ow no re (assertCanAccessDepartmentInTransaction y dep)"
  "conf.stays ow no re (findUniqueOrThrow i)" "conf.stays ow no re (int_arg v)" "conf.stays ow no re (bulk_status action)"
  "conf.stays ow no re (findAccessibleOrThrow i x)"
proof -
  show 1: "conf.stays ow no re (assertAssigneeCanHandleDepartments s deps)" for s deps
    unfolding assertAssigneeCanHandleDepartments_def by (intro conf.stays_intros)
  show 2: "conf.stays ow no re (assertAssignableStaff s)" for s
    unfolding assertAssignableStaff_def by (intro conf.stays_intros)
  show "conf.stays ow no re (assert_assignee x z deps)"
    unfolding assert_assignee_def by (intro conf.stays_intros 1 2)
  show "conf.stays ow no re defaultStatusId" "conf.stays ow no re (assertCanAccessDepartment y dep)"
    "conf.stays ow no re (assertCanAccessDepartmentInTransaction y dep)" "conf.stays ow no re (findUniqueOrThrow i)"
    "conf.stays ow no re (findAccessibleOrThrow i x)"
    unfolding defaultStatusId_def assertCanAccessDepartment_def assertCanAccessDepartmentInTransaction_def findUniqueOrThrow_def
      findAccessibleOrThrow_def
    by (intro conf.stays_intros)+
  show "conf.stays ow no re (int_arg v)"
    by (auto simp: conf.stays_def int_arg_def act_defs conf.frame_refl split: js.splits)
  show "conf.stays ow no re (bulk_status action)"
    unfolding bulk_status_def by (cases action; simp; intro conf.stays_intros)
qed

lemma conf_fence: "conf.stays ow no re (fenceTicketMutation x i now)"
proof -
  have "conf.stays ow no re (fenceTicket a i now)" for a
    unfolding fenceTicket_def
    by (intro conf.stays_intros)
       (auto simp: conf.stays_def update_many_tickets_def owner_of_def intro!: confined_update)
  then show ?thesis unfolding fenceTicketMutation_def by (intro conf.stays_intros)
qed

lemma conf_neutral:
  "conf.stays ow no re (writeAudit i action s ty f old new)" "conf.stays ow no re (upsert_watcher i w)"
  "conf.stays ow no re (delete_watchers p)" "conf.stays ow no re (pruneWatchersOutsideDepartment i dep)"
  "conf.stays ow no re (update_many_attachments q h)" "conf.stays ow no re (create_link i j lty)"
  by (auto simp: conf.stays_def writeAudit_def upsert_watcher_def delete_watchers_def pruneWatchersOutsideDepartment_def
      update_many_attachments_def create_link_def act_defs conf.frame_refl intro!: confined_same)

lemma conf_create_note: "\<not> no \<Longrightarrow> conf.stays ow no re (create_note i s c)"
  by (auto simp: conf.stays_def create_note_def confined_def)

lemma conf_create_post: "\<not> re \<Longrightarrow> conf.stays ow no re (create_post p)"
  by (auto simp: conf.stays_def create_post_def confined_def)

lemma conf_create_ticket_row: "conf.stays ow no re (create_ticket_row t)"
  by (auto simp: conf.stays_def create_ticket_row_def confined_def)

lemma conf_moves:
  "conf.stays ow no re (move_posts P j)" "conf.stays ow no re (move_notes i j)" "conf.stays ow no re (move_attachments i j)"
  "conf.stays ow no re (move_watchers i j)"
proof -
  have "map post_text (update_rows P (\<lambda>x. x\<lparr>p_ticketId := j\<rparr>) ps) = map post_text ps" for ps
    by (induction ps) (auto simp: post_text_def)
  then show "conf.stays ow no re (move_posts P j)"
    by (simp add: conf.stays_def move_posts_def confined_def)
  have "map note_text (update_rows (\<lambda>n. n_ticketId n = i) (\<lambda>n. n\<lparr>n_ticketId := j\<rparr>) ns) = map note_text ns" for ns
    by (induction ns) (auto simp: note_text_def)
  then show "conf.stays ow no re (move_notes i j)"
    by (simp add: move_notes_def confined_def conf.stays_modify)
  show "conf.stays ow no re (move_attachments i j)"
    unfolding move_attachments_def by (intro conf.stays_intros conf_neutral)
  show "conf.stays ow no re (move_watchers i j)"
    unfolding move_watchers_def by (intro conf.stays_intros conf_neutral conf.stays_modify confined_same) simp_all
qed

lemma conf_tags: "conf.stays ow no re (connect_tag i tag)" "conf.stays ow no re (disconnect_tag i tag)"
  unfolding connect_tag_def disconnect_tag_def
  by (intro conf.stays_intros conf_update_ticket conf.stays_modify confined_same; simp add: owner_of_def)+

lemmas conf_rules = conf.stays_intros conf_reads_only conf_growths conf_fence conf_neutral conf_create_ticket_row conf_moves
  conf_tags

lemma conf_guarded: "conf.stays ow no re m \<Longrightarrow> conf.stays ow no re (guarded_writes a i now m)"
  unfolding guarded_writes_def by (intro conf_rules)

section \<open>Commands\<close>

lemma owner_patches [simp]:
  "owner_of (status_patch now d t st x) = owner_of x" "owner_of (bulk_status_patch now d t st x) = owner_of x"
  by (simp_all add: owner_of_def status_patch_def bulk_status_patch_def Let_def split: option.splits bool.splits)

lemma conf_assign: "\<not> ow \<Longrightarrow> conf.stays ow no re (assign env i z s a)"
  unfolding assign_def by (intro conf_rules conf_update_ticket) simp

lemma conf_addNote: "\<not> no \<Longrightarrow> conf.stays ow no re (addNote env i c s [] a)"
  unfolding addNote_def linkToNote_def if_P [OF refl]
  by (intro conf_rules conf_update_ticket conf_create_note) (simp_all add: owner_of_def)

lemma conf_commands:
  "conf.stays ow no re (changeStatus env i st s a)" "conf.stays ow no re (changePriority env i pr s a)"
  "conf.stays ow no re (changeType env i ty s a)" "conf.stays ow no re (changeDepartment env i dep s a)"
  "conf.stays ow no re (addWatcher env i w a)" "conf.stays ow no re (removeWatcher env i w a)"
  "conf.stays ow no re (addTag env i tag a)" "conf.stays ow no re (removeTag env i tag a)"
proof -
  show "conf.stays ow no re (changeStatus env i st s a)"
    unfolding changeStatus_def case_prod_beta by (intro conf_rules conf_update_ticket) simp
  show "conf.stays ow no re (changePriority env i pr s a)" "conf.stays ow no re (changeType env i ty s a)"
    unfolding changePriority_def changeType_def by (intro conf_rules conf_guarded conf_update_ticket; simp add: owner_of_def)+
  show "conf.stays ow no re (changeDepartment env i dep s a)"
    unfolding changeDepartment_def Let_def by (intro conf_rules conf_update_ticket; simp add: owner_of_def)
  show "conf.stays ow no re (addWatcher env i w a)" "conf.stays ow no re (removeWatcher env i w a)"
    unfolding addWatcher_def removeWatcher_def by (intro conf_rules conf_guarded)+
  show "conf.stays ow no re (addTag env i tag a)" "conf.stays ow no re (removeTag env i tag a)"
    unfolding addTag_def removeTag_def by (intro conf_rules conf_guarded)+
qed

lemma conf_relations:
  "conf.stays ow no re (merge env i j s a)" "conf.stays ow no re (split_ticket env i ps sub dep s a)"
  "conf.stays ow no re (addLink env i j lty a)" "conf.stays ow no re (removeLink env i k a)"
proof -
  show "conf.stays ow no re (merge env i j s a)"
    unfolding merge_def merge_body_def Let_def by (intro conf_rules conf_update_ticket; simp add: owner_of_def)
  have "conf.stays ow no re (set_mask n b)" for n b
    unfolding set_mask_def by (intro conf_rules conf_update_ticket) (simp add: owner_of_def)
  then show "conf.stays ow no re (split_ticket env i ps sub dep s a)"
    unfolding split_ticket_def split_body_def Let_def by (intro conf_rules conf_update_ticket; simp add: owner_of_def)
  show "conf.stays ow no re (addLink env i j lty a)" "conf.stays ow no re (removeLink env i k a)"
    unfolding addLink_def removeLink_def remove_link_body_def fence_both_def
    by (intro conf_rules conf.stays_modify confined_same; simp)+
qed

lemma bulk_status_then:
  "bnd (bulk_status (BulkStatus k)) f =
   bnd (reads (status_by_id k)) (\<lambda>z. case z of None \<Rightarrow> throw (status_missing k) | Some st \<Rightarrow> f (Some st))"
  by (auto simp: bulk_status_def act_defs fun_eq_iff split: option.split)

lemma conf_bulk_member: "\<not> ow \<or> st \<noteq> None \<Longrightarrow> conf.stays ow no re (bulk_member env x st s a t)"
  unfolding bulk_member_def
  by (cases st; simp only: option.case; intro conf_rules conf_update_ticket; simp)

lemma conf_bulk:
  assumes "ow \<longrightarrow> \<not> is_assignment x"
  shows "conf.stays ow no re (bulkAction env is x s a)"
proof (cases x)
  case (BulkStatus k)
  show ?thesis
    unfolding bulkAction_def Let_def BulkStatus bulk_status_then
    by (intro conf_rules conf_bulk_member) simp
next
  case (BulkAssignee z)
  with assms show ?thesis unfolding bulkAction_def Let_def by (intro conf_rules conf_bulk_member) simp
next
  case BulkUnassign
  with assms show ?thesis unfolding bulkAction_def Let_def by (intro conf_rules conf_bulk_member) simp
qed

section \<open>Macros\<close>

lemma run_actions_collects:
  "run_actions env i m s a xs u d = (Inr v, d') \<Longrightarrow> v = fold collect_action xs u"
  by (induction xs arbitrary: u d) (auto simp: sq_def bnd_def ret_def split: prod.splits sum.splits)

definition assigns :: "js \<Rightarrow> bool" where
  "assigns x \<longleftrightarrow> js_prop x ''type'' = JStr ''assign'' \<or> js_prop x ''type'' = JStr ''change_owner''"

definition writes_note :: "js \<Rightarrow> bool" where
  "writes_note x \<longleftrightarrow> js_prop x ''type'' = JStr ''add_note''"

lemma collect_no_owner:
  "\<forall>x \<in> set xs. \<not> assigns x \<Longrightarrow> mc_ownerStaffId (fold collect_action xs u) = mc_ownerStaffId u"
proof (induction xs arbitrary: u)
  case (Cons x xs)
  have "mc_ownerStaffId (collect_action x u) = mc_ownerStaffId u"
    using Cons.prems unfolding collect_action_def assigns_def by (simp add: Let_def)
  with Cons show ?case by simp
qed simp

lemma conf_run_actions:
  assumes "no \<longrightarrow> (\<forall>x \<in> set xs. \<not> writes_note x)"
  shows "conf.stays ow no re (run_actions env i m s a xs u)"
  using assms
proof (induction xs arbitrary: u)
  case (Cons x xs)
  have "conf.stays ow no re (immediate_action env i m s a x)"
  proof (cases no)
    case True
    with Cons.prems have "js_prop x ''type'' \<noteq> JStr ''add_note''" by (simp add: writes_note_def)
    then show ?thesis unfolding immediate_action_def by (simp only: simp_thms if_False) (intro conf_rules conf_commands)
  next
    case False
    then show ?thesis unfolding immediate_action_def by (intro conf_rules conf_commands conf_addNote)
  qed
  with Cons show ?case by (simp add: conf.stays_sq)
qed (simp add: conf.stays_ret)

lemma conf_apply_update:
  assumes "ow \<longrightarrow> mc_ownerStaffId u = None"
  shows "conf.stays ow no re (apply_update env i s a u)"
proof -
  have "conf.stays ow no re (apply_owner (mc_ownerStaffId u) (\<lambda>z. assign env i z s a))"
  proof (cases "mc_ownerStaffId u")
    case (Some v)
    with assms show ?thesis
      unfolding apply_owner_def when_found_def by (simp only: option.case) (intro conf_rules conf_assign; simp)
  qed (simp add: apply_owner_def conf.stays_ret)
  then show ?thesis
    unfolding apply_update_def apply_number_def when_found_def by (intro conf_rules conf_commands)
qed

lemma conf_actions:
  assumes "no \<longrightarrow> (\<forall>x \<in> set xs. \<not> writes_note x)" "ow \<longrightarrow> (\<forall>x \<in> set xs. \<not> assigns x)"
  shows "conf.stays ow no re (bnd (run_actions env i m s a xs no_update) (apply_update env i s a))"
proof -
  have "mc_ownerStaffId (fold collect_action xs no_update) = None" if ow
    using collect_no_owner [of xs no_update] assms(2) that by (simp add: no_update_def)
  then have up: "conf.stays ow no re (apply_update env i s a (fold collect_action xs no_update))"
    by (simp add: conf_apply_update)
  show ?thesis
    unfolding conf.stays_def
  proof
    fix d
    show "confined ow no re d (snd (bnd (run_actions env i m s a xs no_update) (apply_update env i s a) d))"
    proof (cases "run_actions env i m s a xs no_update d")
      case (Pair r d')
      note step = conf.staysD [OF conf_run_actions [OF assms(1)] Pair]
      show ?thesis
      proof (cases r)
        case (Inr v)
        with run_actions_collects Pair have "v = fold collect_action xs no_update" by blast
        moreover have "confined ow no re d' (snd (apply_update env i s a (fold collect_action xs no_update) d'))"
          using up by (simp add: conf.stays_def)
        ultimately show ?thesis
          using Pair Inr conf.frame_trans [OF step] by (simp add: bnd_def)
      qed (use Pair step in \<open>simp add: bnd_def\<close>)
    qed
  qed
qed

lemma macro_required_assign: "x \<in> set (macro_actions m) \<Longrightarrow> assigns x \<Longrightarrow> TICKET_ASSIGN \<in> set (macro_required m)"
  by (force simp: macro_required_def macro_action_permissions_def List.map_filter_def assigns_def image_iff)

lemma macro_required_note: "x \<in> set (macro_actions m) \<Longrightarrow> writes_note x \<Longrightarrow> TICKET_NOTE \<in> set (macro_required m)"
  by (force simp: macro_required_def macro_action_permissions_def List.map_filter_def writes_note_def image_iff)

lemma macro_required_reply: "trim (m_replyText m) \<noteq> '''' \<Longrightarrow> TICKET_REPLY \<in> set (macro_required m)"
  by (simp add: macro_required_def)

lemma macro_allowed:
  assumes "lacks p k" "k \<in> set (macro_required m)"
  shows "\<exists>e. assertMacroPermissions m (Some p) = throw e"
proof -
  have "perm_key k \<in> set (filter (\<lambda>k. k \<notin> set (pc_permissions p)) (map perm_key (macro_required m)))"
    using assms by (simp add: lacks_def)
  then have "filter (\<lambda>k. k \<notin> set (pc_permissions p)) (map perm_key (macro_required m)) \<noteq> []"
    by (metis empty_iff list.set(1))
  then show ?thesis
    using assms(1) by (auto simp: assertMacroPermissions_def Let_def require_def lacks_def)
qed

lemma conf_assertMacro: "conf.stays ow no re (assertMacroPermissions m u)"
  unfolding assertMacroPermissions_def Let_def by (intro conf_rules)

lemma conf_macro_body:
  assumes "(ow \<longrightarrow> lacks p TICKET_ASSIGN) \<and> (no \<longrightarrow> lacks p TICKET_NOTE) \<and> (re \<longrightarrow> lacks p TICKET_REPLY)"
    and "conf.stays ow no re n"
  shows "conf.stays ow no re
     (sq (assertMacroPermissions m (Some p))
     (sq (if trim (m_replyText m) \<noteq> '''' then macro_reply env t m s a else ret ())
     (sq (bnd (run_actions env i m s a (macro_actions m) no_update) (apply_update env i s a)) n)))"
proof (cases "\<exists>e. assertMacroPermissions m (Some p) = throw e")
  case True
  then show ?thesis by (auto simp: conf.stays_def sq_def bnd_def throw_def conf.frame_refl)
next
  case False
  with macro_allowed have held: "lacks p k \<Longrightarrow> k \<notin> set (macro_required m)" for k by blast
  have "conf.stays ow no re (if trim (m_replyText m) \<noteq> '''' then macro_reply env t m s a else ret ())"
  proof (cases "trim (m_replyText m) = ''''")
    case False
    with macro_required_reply held assms(1) have "\<not> re" by blast
    then have "conf.stays ow no re (macro_reply env t m s a)"
      unfolding macro_reply_def
      by (intro conf_rules conf_guarded conf_update_ticket conf_create_post) (simp_all add: owner_of_def)
    then show ?thesis by (intro conf_rules)
  qed (simp add: conf.stays_ret)
  moreover have "conf.stays ow no re (bnd (run_actions env i m s a (macro_actions m) no_update) (apply_update env i s a))"
    using macro_required_assign macro_required_note held assms(1) by (intro conf_actions) blast+
  ultimately show ?thesis using assms(2) by (intro conf.stays_sq conf_assertMacro)
qed

lemma conf_macro:
  assumes "(ow \<longrightarrow> lacks p TICKET_ASSIGN) \<and> (no \<longrightarrow> lacks p TICKET_NOTE) \<and> (re \<longrightarrow> lacks p TICKET_REPLY)"
  shows "conf.stays ow no re (applyMacro env i k s (Some p))"
  unfolding applyMacro_def Let_def by (intro conf.stays_bnd conf.stays_option conf_macro_body assms conf_rules)

section \<open>Requests\<close>

lemma guard_refuses: "lacks p k \<Longrightarrow> guard_route p k = throw (Forbidden ''Insufficient permissions'')"
  by (simp add: guard_route_def permissionsGuard_def lacks_def)

lemma conf_handle:
  assumes "(ow \<longrightarrow> lacks p TICKET_ASSIGN) \<and> (no \<longrightarrow> lacks p TICKET_NOTE) \<and> (re \<longrightarrow> lacks p TICKET_REPLY)"
  shows "conf.stays ow no re (handle_request env p c)"
proof (cases "lacks p (route_permission c)")
  case True
  then show ?thesis
    unfolding handle_request_def guard_refuses [OF True]
    by (simp add: conf.stays_def sq_def bnd_def throw_def conf.frame_refl)
next
  case False
  have guard: "conf.stays ow no re (guard_route p k)" for k
    unfolding guard_route_def by (intro conf_rules)
  have unit: "conf.stays ow no re x \<Longrightarrow> conf.stays ow no re (unit_act x)" for x :: "'a act_db"
    unfolding unit_act_def by (intro conf_rules)
  have "conf.stays ow no re (sq (bulk_check p c) (run_command env p c))"
  proof (cases c)
    case (CBulk ids x)
    show ?thesis
    proof (cases "is_assignment x \<longrightarrow> perm_key TICKET_ASSIGN \<in> set (pc_permissions p)")
      case True
      with assms have "ow \<longrightarrow> \<not> is_assignment x" by (auto simp: lacks_def)
      then show ?thesis
        unfolding CBulk bulk_check.simps run_command.simps by (intro conf.stays_sq conf.stays_require unit conf_bulk)
    next
      case False
      then show ?thesis
        unfolding CBulk bulk_check.simps require_def by (simp add: conf.stays_def sq_def bnd_def throw_def conf.frame_refl)
    qed
  next
    case (CAssign i z)
    with False assms have "\<not> ow" by auto
    then show ?thesis
      unfolding CAssign bulk_check.simps run_command.simps by (intro conf.stays_sq conf.stays_ret unit conf_assign)
  next
    case (CNote i t)
    with False assms have "\<not> no" by auto
    then show ?thesis
      unfolding CNote bulk_check.simps run_command.simps by (intro conf.stays_sq conf.stays_ret unit conf_addNote)
  next
    case (CMacro i k)
    with assms show ?thesis by (simp add: conf.stays_sq conf.stays_ret unit conf_macro)
  qed (simp_all add: conf.stays_sq conf.stays_ret unit conf_commands conf_relations)
  then show ?thesis unfolding handle_request_def by (rule conf.stays_sq [OF guard])
qed

lemma conf_session:
  assumes "(ow \<longrightarrow> lacks p TICKET_ASSIGN) \<and> (no \<longrightarrow> lacks p TICKET_NOTE) \<and> (re \<longrightarrow> lacks p TICKET_REPLY)"
  shows "confined ow no re d (handle_session envs p cs d)"
  using assms
proof (induction envs p cs d rule: handle_session.induct)
  case (1 env envs p c cs d)
  have "confined ow no re d (snd (handle_request env p c d))"
    using conf_handle [OF 1(2)] by (simp add: conf.stays_def)
  with 1 show ?case by (auto intro: conf.frame_trans)
qed (simp_all add: conf.frame_refl)


text \<open>An agent with \<open>ticket.edit\<close> only, and a macro that assigns, notes and replies.\<close>

definition editor_7 :: principal where
  "editor_7 = \<lparr>pc_staffId = 7, pc_email = '''', pc_isAdmin = False, pc_permissions = [''ticket.edit'']\<rparr>"

definition macro_db :: db where
  "macro_db = two_departments\<lparr>macros := [\<lparr>m_id = 3, m_title = ''All'', m_replyText = ''Hello'',
     m_actions = JArr [JObj [(''type'', JStr ''assign''), (''value'', JStr ''7'')]]\<rparr>]\<rparr>"


end
