(* ===== verification/TicketEffects.thy ===== *)
theory TicketEffects
  imports TicketRequests
begin

text \<open>
  What the ticket commands do when they succeed: a merge moves everything to the target, a split moves
  posts, a status change drives the service-level timers, links are unique in both directions.
\<close>

section \<open>Successful runs\<close>

lemma run_find:
  "findAccessibleOrThrow i a d = (Inr t, d') \<longleftrightarrow> d' = d \<and> find_row (\<lambda>t. t_id t = i \<and> actor_sees a d t) (tickets d) = Some t"
  by (auto simp: findAccessibleOrThrow_def run_rules split: option.splits)

lemma run_update:
  "update_ticket i f d = (Inr x, d') \<longleftrightarrow>
   (\<exists>t. ticket_by_id i d = Some t \<and> ticket_fk d (f t) \<and> x = f t \<and> d' = set_tickets (\<lambda>j. j = i) f d)"
  by (auto simp: update_ticket_def split: option.splits)

lemma run_audit:
  "writeAudit i action s ty f old new d = (Inr x, d') \<Longrightarrow> \<exists>au. x = seq_audit d \<and> d' = d\<lparr>audits := audits d @ [au], seq_audit := Suc (seq_audit d)\<rparr>"
  by (auto simp: writeAudit_def)

text \<open>The fences only touch the activity time.\<close>

definition touched :: "db \<Rightarrow> db \<Rightarrow> bool" where
  "touched d d' \<longleftrightarrow> (\<exists>ts. d' = d\<lparr>tickets := ts\<rparr> \<and> map (t_lastActivityAt_update (\<lambda>_. 0)) ts = map (t_lastActivityAt_update (\<lambda>_. 0)) (tickets d))"

interpretation touch: frame touched
proof unfold_locales
  show "touched d d" for d by (auto simp: touched_def intro: exI [of _ "tickets d"])
  show "touched d d'" if "touched d e" "touched e d'" for d e d'
    using that by (auto simp: touched_def)
qed

lemma touched_update: "touched d (d\<lparr>tickets := update_rows p (\<lambda>t. t\<lparr>t_lastActivityAt := now\<rparr>) (tickets d)\<rparr>)"
proof -
  have "map (t_lastActivityAt_update (\<lambda>_. 0)) (update_rows p (\<lambda>t. t\<lparr>t_lastActivityAt := now\<rparr>) ts) =
      map (t_lastActivityAt_update (\<lambda>_. 0)) ts" for ts :: "ticket list"
    by (induction ts) auto
  then show ?thesis unfolding touched_def by blast
qed

lemma touch_fence: "touch.stays (fenceTicketMutation a i now)"
proof -
  have "touch.stays (fenceTicket x i now)" for x
    unfolding fenceTicket_def
    by (intro touch.stays_intros) (auto simp: touch.stays_def update_many_tickets_def intro: touched_update)
  then show ?thesis unfolding fenceTicketMutation_def by (intro touch.stays_intros)
qed

lemma run_fence: "fenceTicketMutation a i now d = (r, d') \<Longrightarrow> touched d d'"
  using touch.staysD [OF touch_fence] .

lemma run_fences: "each (\<lambda>i. fenceTicketMutation a i now) is d = (r, d') \<Longrightarrow> touched d d'"
  using touch.staysD [OF touch.stays_each [OF touch_fence]] .

lemma touched_row:
  assumes "touched d d'" "ticket_by_id i d = Some x"
  shows "\<exists>y. ticket_by_id i d' = Some y \<and> y = x\<lparr>t_lastActivityAt := t_lastActivityAt y\<rparr>"
proof -
  let ?f = "t_lastActivityAt_update (\<lambda>_. 0)"
  obtain ts where ts: "tickets d' = ts" "map ?f ts = map ?f (tickets d)"
    using assms(1) by (auto simp: touched_def)
  have "\<exists>y. find_row (\<lambda>t. t_id t = i) ts = Some y \<and> ?f y = ?f x"
    if "map ?f ts = map ?f us" "find_row (\<lambda>t. t_id t = i) us = Some x" for us
    using that
  proof (induction us arbitrary: ts)
    case (Cons u us)
    then obtain v vs where v: "ts = v # vs" "?f v = ?f u" "map ?f vs = map ?f us" by auto
    have "t_id v = t_id u" using arg_cong [OF v(2), of t_id] by simp
    with Cons v show ?case by (auto split: if_splits)
  qed simp
  with ts assms(2) obtain y where y: "ticket_by_id i d' = Some y" "?f y = ?f x"
    by (auto simp: ticket_by_id_def)
  have "y = (?f y)\<lparr>t_lastActivityAt := t_lastActivityAt y\<rparr>" by simp
  also have "\<dots> = x\<lparr>t_lastActivityAt := t_lastActivityAt y\<rparr>" using y(2) by simp
  finally show ?thesis using y(1) by blast
qed

lemma outside_tickets [simp]: "outside_department (d\<lparr>tickets := ts\<rparr>) = outside_department d"
  "outside_department (d\<lparr>posts := ps\<rparr>) = outside_department d"
  "outside_department (d\<lparr>ticket_notes := ns\<rparr>) = outside_department d"
  "outside_department (d\<lparr>attachments := xs\<rparr>) = outside_department d"
  "outside_department (d\<lparr>watchers := ws\<rparr>) = outside_department d"
  by (simp_all add: fun_eq_iff outside_department_def staff_by_id_def staff_is_admin_def group_by_id_def is_member_def
      cong: option.case_cong)

section \<open>Merge\<close>

text \<open>The tables a merge of \<open>s\<close> into \<open>t\<close> leaves, apart from ticket rows and audits.\<close>

definition merged_watchers :: "db \<Rightarrow> nat \<Rightarrow> nat \<Rightarrow> nat \<Rightarrow> (nat \<times> nat) set" where
  "merged_watchers d s t dep =
     {w \<in> set (watchers d). fst w \<noteq> s \<and> (fst w = t \<longrightarrow> \<not> outside_department d dep (snd w))} \<union>
     {(t, k) |k. (s, k) \<in> set (watchers d) \<and> \<not> outside_department d dep k}"

lemma merged_watchers_eq:
  fixes s t dep :: nat and d :: db
  assumes "s \<noteq> t"
  defines "w0 \<equiv> delete_rows (\<lambda>w. fst w = t \<and> outside_department d dep (snd w)) (delete_rows (\<lambda>w. fst w = s \<and> outside_department d dep (snd w)) (watchers d))"
  shows "set (delete_rows (\<lambda>w. fst w = s) (update_rows (\<lambda>w. fst w = s \<and> snd w \<notin> set (map snd (filter (\<lambda>w. fst w = t) w0)))
        (\<lambda>w. (t, snd w)) w0)) = merged_watchers d s t dep"
proof -
  have mem: "w \<in> set w0 \<longleftrightarrow> w \<in> set (watchers d) \<and> (fst w = s \<or> fst w = t \<longrightarrow> \<not> outside_department d dep (snd w))" for w
    unfolding w0_def by (auto simp: set_delete_rows)
  show ?thesis
    unfolding set_delete_rows set_update_rows merged_watchers_def
    using assms(1) by (auto simp: mem image_iff)
qed

lemma run_prune:
  "pruneWatchersOutsideDepartment i dep d = (Inr c, d') \<longleftrightarrow>
   c = count_rows (\<lambda>w. fst w = i \<and> outside_department d dep (snd w)) (watchers d) \<and>
   d' = d\<lparr>watchers := delete_rows (\<lambda>w. fst w = i \<and> outside_department d dep (snd w)) (watchers d)\<rparr>"
proof -
  have "(\<lambda>(tid, sid). tid = i \<and> outside_department d dep sid) = (\<lambda>w. fst w = i \<and> outside_department d dep (snd w))"
    by (simp add: fun_eq_iff)
  then show ?thesis by (auto simp: pruneWatchersOutsideDepartment_def delete_watchers_def)
qed

lemma run_move_watchers:
  "move_watchers s t d = (Inr x, d') \<longleftrightarrow>
   d' = d\<lparr>watchers := delete_rows (\<lambda>w. fst w = s)
     (update_rows (\<lambda>w. fst w = s \<and> snd w \<notin> set (map snd (filter (\<lambda>w. fst w = t) (watchers d)))) (\<lambda>w. (t, snd w)) (watchers d))\<rparr>"
  by (auto simp: move_watchers_def run_rules delete_watchers_def)

lemma merge_body_run:
  assumes "merge_body env source target a d = (Inr (), d')" "t_id source \<noteq> t_id target"
  shows "\<exists>d1. touched d d1 \<and>
    posts d' = update_rows (\<lambda>p. p_ticketId p = t_id source) (\<lambda>p. p\<lparr>p_ticketId := t_id target\<rparr>) (posts d) \<and>
    ticket_notes d' = update_rows (\<lambda>n. n_ticketId n = t_id source) (\<lambda>n. n\<lparr>n_ticketId := t_id target\<rparr>) (ticket_notes d) \<and>
    attachments d' = update_rows (\<lambda>x. a_ticketId x = Some (t_id source)) (\<lambda>x. x\<lparr>a_ticketId := Some (t_id target)\<rparr>) (attachments d) \<and>
    set (watchers d') = merged_watchers d (t_id source) (t_id target) (t_departmentId target) \<and>
    tickets d' = tickets (set_tickets (\<lambda>j. j = t_id target) (\<lambda>x. x\<lparr>t_totalReplies := t_totalReplies x + t_totalReplies source, t_lastActivityAt := en_now env\<rparr>)
      (set_tickets (\<lambda>j. j = t_id source) (\<lambda>x. x\<lparr>t_mergedIntoId := Some (t_id target), t_lastActivityAt := en_now env\<rparr>) d1))"
proof -
  from assms(1) obtain y d1 where f: "each (\<lambda>i. fenceTicketMutation a i (en_now env)) (sort [t_id source, t_id target]) d = (Inr y, d1)"
    and rest: "sq (move_posts (\<lambda>p. p_ticketId p = t_id source) (t_id target))
     (sq (move_notes (t_id source) (t_id target))
     (sq (move_attachments (t_id source) (t_id target))
     (sq (pruneWatchersOutsideDepartment (t_id source) (t_departmentId target))
     (sq (pruneWatchersOutsideDepartment (t_id target) (t_departmentId target))
     (sq (move_watchers (t_id source) (t_id target))
     (sq (update_ticket (t_id source) (\<lambda>x. x\<lparr>t_mergedIntoId := Some (t_id target), t_lastActivityAt := en_now env\<rparr>))
     (sq (update_ticket (t_id target) (\<lambda>x. x\<lparr>t_totalReplies := t_totalReplies x + t_totalReplies source, t_lastActivityAt := en_now env\<rparr>))
         (ret ())))))))) d1 = (Inr (), d')"
    unfolding merge_body_def Let_def by (auto simp: run_sq)
  note touch = run_fences [OF f]
  then obtain ts where d1: "d1 = d\<lparr>tickets := ts\<rparr>" by (auto simp: touched_def)
  from rest obtain d2 where d2: "d2 = d1\<lparr>posts := update_rows (\<lambda>p. p_ticketId p = t_id source) (\<lambda>p. p\<lparr>p_ticketId := t_id target\<rparr>) (posts d),
       ticket_notes := update_rows (\<lambda>n. n_ticketId n = t_id source) (\<lambda>n. n\<lparr>n_ticketId := t_id target\<rparr>) (ticket_notes d),
       attachments := update_rows (\<lambda>x. a_ticketId x = Some (t_id source)) (\<lambda>x. x\<lparr>a_ticketId := Some (t_id target)\<rparr>) (attachments d)\<rparr>"
    and rest2: "sq (pruneWatchersOutsideDepartment (t_id source) (t_departmentId target))
     (sq (pruneWatchersOutsideDepartment (t_id target) (t_departmentId target))
     (sq (move_watchers (t_id source) (t_id target))
     (sq (update_ticket (t_id source) (\<lambda>x. x\<lparr>t_mergedIntoId := Some (t_id target), t_lastActivityAt := en_now env\<rparr>))
     (sq (update_ticket (t_id target) (\<lambda>x. x\<lparr>t_totalReplies := t_totalReplies x + t_totalReplies source, t_lastActivityAt := en_now env\<rparr>))
         (ret ()))))) d2 = (Inr (), d')"
    by (auto simp: run_rules move_posts_def move_notes_def move_attachments_def update_many_attachments_def d1)
  obtain ws where d': "d' = set_tickets (\<lambda>j. j = t_id target) (\<lambda>x. x\<lparr>t_totalReplies := t_totalReplies x + t_totalReplies source, t_lastActivityAt := en_now env\<rparr>)
      (set_tickets (\<lambda>j. j = t_id source) (\<lambda>x. x\<lparr>t_mergedIntoId := Some (t_id target), t_lastActivityAt := en_now env\<rparr>) (d2\<lparr>watchers := ws\<rparr>))"
    and ws: "set ws = merged_watchers d (t_id source) (t_id target) (t_departmentId target)"
  proof -
    let ?out = "outside_department d (t_departmentId target)"
    let ?w0 = "delete_rows (\<lambda>w. fst w = t_id target \<and> ?out (snd w)) (delete_rows (\<lambda>w. fst w = t_id source \<and> ?out (snd w)) (watchers d))"
    let ?w1 = "delete_rows (\<lambda>w. fst w = t_id source) (update_rows (\<lambda>w. fst w = t_id source \<and> snd w \<notin> set (map snd (filter (\<lambda>w. fst w = t_id target) ?w0)))
        (\<lambda>w. (t_id target, snd w)) ?w0)"
    have "set ?w1 = merged_watchers d (t_id source) (t_id target) (t_departmentId target)"
      using assms(2) by (rule merged_watchers_eq)
    moreover have "d' = set_tickets (\<lambda>j. j = t_id target) (\<lambda>x. x\<lparr>t_totalReplies := t_totalReplies x + t_totalReplies source, t_lastActivityAt := en_now env\<rparr>)
      (set_tickets (\<lambda>j. j = t_id source) (\<lambda>x. x\<lparr>t_mergedIntoId := Some (t_id target), t_lastActivityAt := en_now env\<rparr>) (d2\<lparr>watchers := ?w1\<rparr>))"
      using rest2 by (auto simp: run_rules run_prune run_move_watchers run_update d2 d1)
    ultimately show ?thesis using that by blast
  qed
  show ?thesis
    by (rule exI [of _ d1]) (use touch ws in \<open>simp add: d' d2 d1 set_tickets_def\<close>)
qed

lemma find_row_id:
  assumes "ids_ok d" "find_row (\<lambda>t. t_id t = i \<and> P t) (tickets d) = Some x"
  shows "ticket_by_id i d = Some x \<and> t_id x = i"
  using find_row_SomeD [OF assms(2)] ids_ok_ticket_unique [OF assms(1)] by auto

lemma audited_tables:
  assumes "writeAudit i action s ty f old new d = (r, d')"
  shows "posts d' = posts d" "ticket_notes d' = ticket_notes d" "attachments d' = attachments d" "watchers d' = watchers d"
    "tickets d' = tickets d"
  using assms by (auto simp: writeAudit_def)

lemma row_after_set:
  assumes "\<And>t. t_id (f t) = t_id t"
  shows "ticket_by_id i (set_tickets (\<lambda>j. j = k) f d) = (if i = k then map_option f (ticket_by_id i d) else ticket_by_id i d)"
proof (cases "i = k")
  case True
  then show ?thesis using ticket_by_id_set_tickets [where f = f, OF assms] by simp
next
  case False
  have "find_row (\<lambda>t. t_id t = i) (update_rows (\<lambda>t. t_id t = k) f ts) = find_row (\<lambda>t. t_id t = i) ts" for ts
    using False by (induction ts) (auto simp: assms)
  with False show ?thesis by (simp add: ticket_by_id_def set_tickets_def)
qed

lemma ticket_by_id_tables: "tickets d = tickets e \<Longrightarrow> ticket_by_id i d = ticket_by_id i e"
  by (simp add: ticket_by_id_def)

lemma merge_run:
  assumes "ids_ok d" "merge env s t staffId a d = (Inr r, d')"
  obtains source target d1 where
    "ticket_by_id s d = Some source" "ticket_by_id t d = Some target" "t_id source = s" "t_id target = t" "s \<noteq> t"
    "t_mergedIntoId source = None" "t_mergedIntoId target = None"
    "merge_body env source target a d = (Inr (), d1)"
    "posts d' = posts d1" "ticket_notes d' = ticket_notes d1" "attachments d' = attachments d1" "watchers d' = watchers d1"
    "tickets d' = tickets d1"
proof -
  from assms(2) obtain source target d1 x1 d2 x2 where
    find: "find_row (\<lambda>t. t_id t = s \<and> actor_sees a d t) (tickets d) = Some source"
      "find_row (\<lambda>u. t_id u = t \<and> actor_sees a d u) (tickets d) = Some target"
    and guards: "t_id source \<noteq> t_id target" "t_mergedIntoId source = None" "t_mergedIntoId target = None"
    and body: "merge_body env source target a d = (Inr (), d1)"
    and au: "writeAudit s ''MERGE'' (Some staffId) ByStaff (Some ''mergedIntoId'') None (Some (t_mask target)) d1 = (Inr x1, d2)"
      "writeAudit (t_id target) ''MERGE_RECEIVED'' (Some staffId) ByStaff (Some ''mergedFrom'') None (Some (t_mask source)) d2 = (Inr x2, d')"
    unfolding merge_def by (auto simp: run_rules run_find findUniqueOrThrow_def split: option.splits)
  note s = find_row_id [OF assms(1) find(1)] and t = find_row_id [OF assms(1) find(2)]
  from that [OF _ _ _ _ _ guards(2,3) body] s t guards(1) audited_tables [OF au(1)] audited_tables [OF au(2)]
  show ?thesis by simp
qed


definition merge_db :: db where
  "merge_db = empty_db\<lparr>tickets := [(sample_ticket 2 10)\<lparr>t_totalReplies := 1\<rparr>, sample_ticket 3 20], seq_ticket := 4,
     departments := [10, 20], priorities := [1],
     statuses := [\<lparr>st_id = 1, st_title = ''Open'', st_displayOrder = 0, st_markAsResolved = False, st_isDefault = True\<rparr>],
     watchers := [(2, 7), (2, 8), (3, 8)]\<rparr>"

lemma merge_db_ok: "ids_ok merge_db"
  by (simp add: ids_ok_def merge_db_def sample_ticket_def empty_db_def)

lemma merge_db_runs: "isl (fst (merge sample_env 2 3 7 None merge_db)) = False"
  by code_simp


section \<open>Split\<close>

text \<open>What the transaction of a split does: one new ticket, the selected posts on it.\<close>

lemma run_create_row:
  "create_ticket_row t d = (Inr i, d') \<longleftrightarrow>
   i = seq_ticket d \<and> t_mask t \<notin> t_mask ` set (tickets d) \<and> ticket_fk d t \<and>
   d' = d\<lparr>tickets := tickets d @ [t\<lparr>t_id := seq_ticket d\<rparr>], seq_ticket := Suc (seq_ticket d)\<rparr>"
  by (auto simp: create_ticket_row_def)

lemma enqueue_tables:
  assumes "enqueueWorkflowEmailEvent env t ty key d = (r, d')"
  shows "posts d' = posts d" "attachments d' = attachments d" "tickets d' = tickets d" "ticket_notes d' = ticket_notes d"
    "watchers d' = watchers d" "seq_ticket d' = seq_ticket d" "links d' = links d"
  using planning.staysD [OF enqueueWorkflow_stays assms] by (auto simp: events_grow_def)

lemma split_body_run:
  assumes "split_body env source ps dep row a d = (Inr x, d')" "t_id source < seq_ticket d"
  shows "t_id x = seq_ticket d \<and> t_mask x = formatTicketMask (seq_ticket d) \<and>
    posts d' = update_rows (\<lambda>p. p_id p \<in> set ps \<and> p_ticketId p = t_id source) (\<lambda>p. p\<lparr>p_ticketId := seq_ticket d\<rparr>) (posts d) \<and>
    count_rows (\<lambda>p. p_id p \<in> set ps \<and> p_ticketId p = t_id source) (posts d) = length ps \<and>
    attachments d' = attachments d \<and> ticket_notes d' = ticket_notes d \<and> watchers d' = watchers d"
proof -
  have scope: "(case a of None \<Rightarrow> ret () | Some y \<Rightarrow> assertCanAccessDepartmentInTransaction y dep) d = (Inr u, e) \<Longrightarrow> e = d" for u e
    by (auto simp: assertCanAccessDepartmentInTransaction_def act_defs split: option.splits if_splits)
  from assms(1) obtain u0 e u1 d1 where
    "(case a of None \<Rightarrow> ret () | Some y \<Rightarrow> assertCanAccessDepartmentInTransaction y dep) d = (Inr u0, e)"
    and f: "fenceTicketMutation a (t_id source) (en_now env) e = (Inr u1, d1)"
    and rest: "bnd (create_ticket_row row) (\<lambda>created.
     bnd (set_mask created False) (\<lambda>newTicket.
     bnd (move_posts (\<lambda>p. p_id p \<in> set ps \<and> p_ticketId p = t_id source) created) (\<lambda>moved.
     sq (require (moved = length ps) (BadRequest ''Posts changed during split; please retry''))
    (sq (update_ticket (t_id source) (\<lambda>x. x\<lparr>t_totalReplies := t_totalReplies x - int (length ps), t_lastActivityAt := en_now env\<rparr>))
    (sq (enqueueWorkflowEmailEvent env newTicket ''ticket.created'' (''ticket-split:'' @ nat_str (t_id newTicket)))
        (ret newTicket)))))) d1 = (Inr x, d')"
    unfolding split_body_def by (auto simp: run_sq)
  with scope have f: "fenceTicketMutation a (t_id source) (en_now env) d = (Inr u1, d1)" by blast
  from run_fence [OF f] obtain ts where d1: "d1 = d\<lparr>tickets := ts\<rparr>" by (auto simp: touched_def)
  let ?n = "seq_ticket d"
  from rest obtain nt d3 c where
    mask: "set_mask ?n False (d\<lparr>tickets := ts @ [row\<lparr>t_id := ?n\<rparr>], seq_ticket := Suc ?n\<rparr>) = (Inr nt, d3)"
    and rest3: "bnd (move_posts (\<lambda>p. p_id p \<in> set ps \<and> p_ticketId p = t_id source) ?n) (\<lambda>moved.
     sq (require (moved = length ps) (BadRequest ''Posts changed during split; please retry''))
    (sq (update_ticket (t_id source) (\<lambda>x. x\<lparr>t_totalReplies := t_totalReplies x - int (length ps), t_lastActivityAt := en_now env\<rparr>))
    (sq (enqueueWorkflowEmailEvent env nt ''ticket.created'' (''ticket-split:'' @ nat_str (t_id nt)))
        (ret nt)))) d3 = (Inr x, d')"
    by (auto simp: run_bnd run_create_row d1)
  from mask obtain t ws where nt: "t_id nt = ?n" "t_mask nt = formatTicketMask ?n" and d3: "d3 = d\<lparr>seq_ticket := Suc ?n, tickets := ws\<rparr>"
    by (auto simp: set_mask_def run_rules run_update set_tickets_def split: if_splits dest: ticket_by_id_SomeD)
  from rest3 obtain d4 u where
    cnt: "count_rows (\<lambda>p. p_id p \<in> set ps \<and> p_ticketId p = t_id source) (posts d) = length ps" and x: "x = nt"
    and en: "enqueueWorkflowEmailEvent env nt ''ticket.created'' (''ticket-split:'' @ nat_str (t_id nt)) d4 = (Inr u, d')"
    and d4: "posts d4 = update_rows (\<lambda>p. p_id p \<in> set ps \<and> p_ticketId p = t_id source) (\<lambda>p. p\<lparr>p_ticketId := ?n\<rparr>) (posts d)"
      "attachments d4 = attachments d" "ticket_notes d4 = ticket_notes d" "watchers d4 = watchers d"
    by (auto simp: run_rules move_posts_def run_update set_tickets_def d3)
  from enqueue_tables [OF en] d4 nt x cnt show ?thesis by simp
qed

lemma selected_all:
  fixes rows :: "'r list"
  assumes "distinct (map key rows)" "length (filter (\<lambda>r. key r \<in> set ks \<and> P r) rows) = length ks"
  shows "distinct ks \<and> set ks \<subseteq> key ` {r \<in> set rows. P r}"
proof -
  let ?f = "filter (\<lambda>r. key r \<in> set ks \<and> P r) rows"
  have dist: "distinct (map key ?f)" using assms(1) by (simp add: distinct_map inj_on_def)
  have sub: "key ` set ?f \<subseteq> set ks" by auto
  have "card (key ` set ?f) = length ks"
    using distinct_card [OF dist] assms(2) by simp
  with sub card_length [of ks] have eq: "key ` set ?f = set ks"
    by (metis List.finite_set card_subset_eq card_mono le_antisym)
  with \<open>card (key ` set ?f) = length ks\<close> have "distinct ks" by (simp add: card_distinct)
  moreover have "set ks \<subseteq> key ` {r \<in> set rows. P r}" using eq by auto
  ultimately show ?thesis ..
qed

lemma split_run:
  assumes "ids_ok d" "split_ticket env i ps subject dep staffId a d = (Inr r, d')"
  obtains source dep' row nt d1 where
    "t_id source = i" "i < seq_ticket d" "ps \<noteq> []"
    "length (filter (\<lambda>p. p_id p \<in> set ps \<and> p_ticketId p = i) (posts d)) = length ps"
    "split_body env source ps dep' row a d = (Inr nt, d1)"
    "posts d' = posts d1" "ticket_notes d' = ticket_notes d1" "attachments d' = attachments d1" "watchers d' = watchers d1"
    "ticket_by_id (t_id nt) d' = Some r"
proof -
  have read: "defaultStatusId e = (Inr k, e') \<Longrightarrow> e' = e" for k e e'
    by (auto simp: defaultStatusId_def run_rules split: option.splits)
  have scope: "assertCanAccessDepartment x dd e = (Inr u, e') \<Longrightarrow> e' = e" for x dd u e e'
    by (auto simp: assertCanAccessDepartment_def run_rules)
  have assignee: "assertAssigneeCanHandleDepartments s dds e = (Inr u, e') \<Longrightarrow> e' = e" for s dds u e e'
    by (auto simp: assertAssigneeCanHandleDepartments_def run_rules Let_def split: option.splits if_splits)
  from assms(2) obtain source where find: "find_row (\<lambda>t. t_id t = i \<and> actor_sees a d t) (tickets d) = Some source"
    and ps: "ps \<noteq> []" "length (filter (\<lambda>p. p_id p \<in> set ps \<and> p_ticketId p = i) (posts d)) = length ps"
    and rest: "bnd defaultStatusId (\<lambda>statusId.
     let departmentId = (case dep of None \<Rightarrow> t_departmentId source | Some x \<Rightarrow> x) in
     sq (case a of
           None \<Rightarrow> ret ()
         | Some x \<Rightarrow> sq (assertCanAccessDepartment x departmentId)
             (case t_ownerStaffId source of None \<Rightarrow> ret () | Some s \<Rightarrow> assertAssigneeCanHandleDepartments s [departmentId]))
    (bnd (reads (split_row env source subject departmentId statusId
        (length (filter (\<lambda>p. p_id p \<in> set ps \<and> p_ticketId p = i) (posts d))))) (\<lambda>row.
     bnd (txn (split_body env source ps departmentId row a)) (\<lambda>newTicket.
     sq (writeAudit i ''SPLIT'' (Some staffId) ByStaff (Some ''splitTo'') None (Some (t_mask newTicket)))
    (sq (writeAudit (t_id newTicket) ''SPLIT'' (Some staffId) ByStaff (Some ''splitFrom'') None (Some (t_mask source)))
        (findUniqueOrThrow (t_id newTicket))))))) d = (Inr r, d')"
    unfolding split_ticket_def by (auto simp: run_find run_bnd run_sq run_require run_reads)
  from rest obtain row dep' nt d1 x2 d2 x3 where body: "split_body env source ps dep' row a d = (Inr nt, d1)"
    and au: "writeAudit i ''SPLIT'' (Some staffId) ByStaff (Some ''splitTo'') None (Some (t_mask nt)) d1 = (Inr x2, d2)"
      "writeAudit (t_id nt) ''SPLIT'' (Some staffId) ByStaff (Some ''splitFrom'') None (Some (t_mask source)) d2 = (Inr x3, d')"
    and uniq: "ticket_by_id (t_id nt) d' = Some r"
    unfolding Let_def by (auto simp: run_rules findUniqueOrThrow_def split: option.splits dest!: read scope assignee)
  have "t_id source = i" "i < seq_ticket d"
    using find_row_SomeD [OF find] assms(1) by (auto simp: ids_ok_def)
  from that [OF this ps body _ _ _ _ uniq] audited_tables [OF au(1)] audited_tables [OF au(2)] show ?thesis by simp
qed

text \<open>
  A successful split loses no post: the named posts are distinct posts of the source, exactly they
  move to the new ticket, which is created under an unused key, and all other posts stay. Files
  stay where they were: the attachments of the moved posts still belong to the source ticket.
\<close>

theorem split_moves_posts_only:
  assumes "ids_ok d" "split_ticket env i ps subject dep staffId a d = (Inr r, d')"
  shows "distinct ps \<and> set ps \<subseteq> p_id ` {p \<in> set (posts d). p_ticketId p = i} \<and>
    ticket_by_id (t_id r) d = None \<and> ticket_by_id (t_id r) d' = Some r \<and>
    posts d' = update_rows (\<lambda>p. p_id p \<in> set ps) (\<lambda>p. p\<lparr>p_ticketId := t_id r\<rparr>) (posts d) \<and>
    attachments d' = attachments d \<and> ticket_notes d' = ticket_notes d \<and> watchers d' = watchers d"
proof -
  obtain source dep' row nt d1 where
    src: "t_id source = i" "i < seq_ticket d"
    and cnt: "length (filter (\<lambda>p. p_id p \<in> set ps \<and> p_ticketId p = i) (posts d)) = length ps"
    and body: "split_body env source ps dep' row a d = (Inr nt, d1)"
    and tables: "posts d' = posts d1" "ticket_notes d' = ticket_notes d1" "attachments d' = attachments d1" "watchers d' = watchers d1"
    and uniq: "ticket_by_id (t_id nt) d' = Some r"
    by (rule split_run [OF assms])
  have dist: "distinct (map p_id (posts d))" using assms(1) by (simp add: ids_ok_def)
  from selected_all [OF dist cnt] have sel: "distinct ps" "set ps \<subseteq> p_id ` {p \<in> set (posts d). p_ticketId p = i}" by simp_all
  have same: "p_id p \<in> set ps \<and> p_ticketId p = i \<longleftrightarrow> p_id p \<in> set ps" if "p \<in> set (posts d)" for p
    using sel(2) that dist by (auto simp: distinct_map dest: inj_onD)
  have upd: "update_rows (\<lambda>p. p_id p \<in> set ps \<and> p_ticketId p = i) f (posts d) = update_rows (\<lambda>p. p_id p \<in> set ps) f (posts d)" for f
    unfolding update_rows_def using same by (auto intro: map_cong)
  note run = split_body_run [OF body, unfolded src(1), OF src(2)]
  have new: "t_id nt = t_id r" using uniq by (auto simp: ticket_by_id_def dest: find_row_SomeD)
  have "ticket_by_id (seq_ticket d) d = None"
    using assms(1) by (auto simp: ticket_by_id_def find_row_None_iff ids_ok_def)
  then show ?thesis using sel run tables uniq new upd by simp
qed

definition split_db :: db where
  "split_db = merge_db\<lparr>posts := [sample_post 4 2, sample_post 5 2], seq_post := 6\<rparr>"

lemma split_db_ok: "ids_ok split_db"
  by (simp add: ids_ok_def split_db_def merge_db_def sample_ticket_def sample_post_def empty_db_def)

lemma split_db_runs: "isl (fst (split_ticket sample_env 2 [5] ''Other'' None 7 None split_db)) = False"
  by code_simp

theorem split_moves_posts_only_witness:
  "\<exists>r d'. split_ticket sample_env 2 [5] ''Other'' None 7 None split_db = (Inr r, d') \<and> attachments d' = attachments split_db \<and>
     ticket_by_id (t_id r) split_db = None"
proof -
  from succeeds [OF split_db_runs] obtain r d' where run: "split_ticket sample_env 2 [5] ''Other'' None 7 None split_db = (Inr r, d')"
    by blast
  with split_moves_posts_only [OF split_db_ok run] show ?thesis by auto
qed

section \<open>Status changes\<close>

lemma touched_update_row:
  assumes "touched d d1" "ticket_by_id i d = Some t" "\<And>x y. f (x\<lparr>t_lastActivityAt := y\<rparr>) = f x"
    "update_ticket i f d1 = (Inr r, d2)" "\<And>x. t_id (f x) = t_id x"
  shows "r = f t \<and> ticket_by_id i d2 = Some r"
proof -
  from touched_row [OF assms(1,2)] obtain y where y: "ticket_by_id i d1 = Some y" "y = t\<lparr>t_lastActivityAt := t_lastActivityAt y\<rparr>"
    by blast
  have "f y = f t" by (subst y(2)) (rule assms(3))
  with y(1) update_ticket_Inr [OF assms(4,5)] show ?thesis by auto
qed

lemma changeStatus_run:
  assumes "ids_ok d" "changeStatus env i k staffId a d = (Inr r, d')"
  obtains t st where "ticket_by_id i d = Some t" "status_by_id k d = Some st" "r = status_patch (en_now env) d t st t"
    "ticket_by_id i d' = Some r"
proof -
  from assms(2) obtain t st d1 d2 x d3 u where
    find: "find_row (\<lambda>t. t_id t = i \<and> actor_sees a d t) (tickets d) = Some t" and st: "status_by_id k d = Some st"
    and fence: "fenceTicketMutation a i (en_now env) d = (Inr (), d1)"
    and upd: "update_ticket i (status_patch (en_now env) d t st) d1 = (Inr r, d2)"
    and au: "writeAudit i ''STATUS_CHANGE'' (Some staffId) ByStaff (Some ''statusId'') (Some (nat_str (t_statusId t))) (Some (nat_str k)) d2 = (Inr x, d3)"
    and en: "enqueueWorkflowEmailEvent env r ''ticket.status_changed'' (audit_key x) d3 = (Inr u, d')"
    unfolding changeStatus_def by (auto simp: run_rules run_find split: option.splits)
  note t = find_row_id [OF assms(1) find]
  have "status_patch now d t st (x\<lparr>t_lastActivityAt := y\<rparr>) = status_patch now d t st x" for now x y
    by (simp add: status_patch_def Let_def split: option.splits bool.splits)
  from touched_update_row [OF run_fence [OF fence] conjunct1 [OF t] this upd]
  have "r = status_patch (en_now env) d t st t" "ticket_by_id i d2 = Some r" by simp_all
  moreover have "tickets d' = tickets d2" using audited_tables [OF au] enqueue_tables [OF en] by simp
  ultimately show ?thesis using that t st ticket_by_id_tables by metis
qed

text \<open>
  A status change drives the service-level timers. Resolving stamps the resolution and stops both
  timers. Leaving a resolved status clears the stamp; with a plan both timers start again from
  now and the ticket counts as reopened, without a plan nothing records the reopening. A change
  between unresolved statuses leaves the timers alone.
\<close>

theorem changeStatus_timers:
  assumes "ids_ok d" "changeStatus env i k staffId a d = (Inr r, d')"
  shows "\<exists>t st. ticket_by_id i d = Some t \<and> status_by_id k d = Some st \<and> ticket_by_id i d' = Some r \<and> t_id r = i \<and>
    t_isResolved r = st_markAsResolved st \<and> t_lastActivityAt r = en_now env \<and> t_ownerStaffId r = t_ownerStaffId t \<and>
    (if st_markAsResolved st then t_resolvedAt r = Some (en_now env) \<and> t_dueAt r = None \<and> t_resolutionDueAt r = None
     else t_resolvedAt r = None \<and>
       (if \<not> t_isResolved t then t_dueAt r = t_dueAt t \<and> t_resolutionDueAt r = t_resolutionDueAt t
        else case t_slaPlanId t of
          None \<Rightarrow> t_reopenedAt r = t_reopenedAt t \<and> t_wasReopened r = t_wasReopened t
        | Some p \<Rightarrow> t_dueAt r = dd_dueAt (computeDueDates p (en_now env) d) \<and>
            t_resolutionDueAt r = dd_resolutionDueAt (computeDueDates p (en_now env) d) \<and>
            t_reopenedAt r = Some (en_now env) \<and> t_wasReopened r))"
proof (rule changeStatus_run [OF assms])
  fix t st
  assume t: "ticket_by_id i d = Some t" and st: "status_by_id k d = Some st"
    and r: "r = status_patch (en_now env) d t st t" and row: "ticket_by_id i d' = Some r"
  have "t_id t = i" using ticket_by_id_SomeD [OF t] by simp
  then show ?thesis
    by (intro exI [of _ t] exI [of _ st] conjI t st row)
       (auto simp: r status_patch_def Let_def split: option.split bool.split)
qed

definition resolved_db :: db where
  "resolved_db = merge_db\<lparr>tickets := [(sample_ticket 2 10)\<lparr>t_isResolved := True\<rparr>]\<rparr>"

lemma resolved_db_ok: "ids_ok resolved_db"
  by (simp add: ids_ok_def resolved_db_def merge_db_def sample_ticket_def empty_db_def)

lemma resolved_db_runs: "isl (fst (changeStatus sample_env 2 1 7 None resolved_db)) = False"
  by code_simp

lemma resolved_row: "ticket_by_id 2 resolved_db = Some ((sample_ticket 2 10)\<lparr>t_isResolved := True\<rparr>)"
  by (simp add: ticket_by_id_def resolved_db_def sample_ticket_def)

lemma open_status: "status_by_id 1 resolved_db = Some \<lparr>st_id = 1, st_title = ''Open'', st_displayOrder = 0, st_markAsResolved = False, st_isDefault = True\<rparr>"
  by (simp add: status_by_id_def resolved_db_def merge_db_def empty_db_def)

theorem changeStatus_timers_witness:
  "\<exists>r d'. changeStatus sample_env 2 1 7 None resolved_db = (Inr r, d') \<and> \<not> t_isResolved r \<and> \<not> t_wasReopened r \<and> t_reopenedAt r = None"
proof -
  from succeeds [OF resolved_db_runs] obtain r d' where run: "changeStatus sample_env 2 1 7 None resolved_db = (Inr r, d')"
    by blast
  with changeStatus_timers [OF resolved_db_ok run] show ?thesis
    by (simp add: resolved_row open_status sample_ticket_def del: One_nat_def)
qed

section \<open>Links\<close>

definition ends :: "tlink \<Rightarrow> nat set" where
  "ends l = {l_sourceId l, l_targetId l}"

definition links_ok :: "db \<Rightarrow> bool" where
  "links_ok d \<longleftrightarrow> distinct (map ends (links d)) \<and> (\<forall>l \<in> set (links d). l_sourceId l \<noteq> l_targetId l)"

lemma ends_new: "ends \<lparr>l_id = k, l_sourceId = i, l_targetId = j, l_linkType = ty\<rparr> = {i, j}"
  by (simp add: ends_def)

lemma connects_ends: "i \<noteq> j \<Longrightarrow> connects i j l \<longleftrightarrow> ends l = {i, j}"
  by (auto simp: connects_def ends_def doubleton_eq_iff)

lemma touched_links: "touched d d' \<Longrightarrow> links d' = links d \<and> seq_link d' = seq_link d"
  by (auto simp: touched_def)

lemma create_link_run:
  assumes "links_ok d" "i \<noteq> j" "create_link i j ty d = (r, d')"
  shows "links_ok d' \<and>
    (case r of Inl e \<Rightarrow> links d' = links d
     | Inr k \<Rightarrow> (\<forall>l \<in> set (links d). \<not> connects i j l) \<and> links d' = links d @ [\<lparr>l_id = k, l_sourceId = i, l_targetId = j, l_linkType = ty\<rparr>])"
proof (cases "find_row (connects i j) (links d)")
  case None
  then have none: "\<forall>l \<in> set (links d). \<not> connects i j l" by (simp add: find_row_None_iff)
  then have "{i, j} \<notin> ends ` set (links d)" using connects_ends [OF assms(2)] by auto
  with None none assms show ?thesis
    by (auto simp: create_link_def act_defs links_ok_def ends_new)
next
  case (Some l)
  with assms show ?thesis by (auto simp: create_link_def act_defs)
qed

lemma fence_both_links: "fence_both env a i j d = (r, d') \<Longrightarrow> touched d d'"
proof -
  have "touch.stays (fence_both env a i j)"
    unfolding fence_both_def by (intro touch.stays_intros touch_fence)
  then show "fence_both env a i j d = (r, d') \<Longrightarrow> touched d d'" by (rule touch.staysD)
qed

lemma txn_result: "txn m d = (r, d') \<Longrightarrow> (\<exists>e. r = Inl e \<and> d' = d) \<or> (\<exists>x. r = Inr x \<and> m d = (Inr x, d'))"
  by (auto simp: txn_def split: prod.splits sum.splits)

lemma links_ok_cong: "links d' = links d \<Longrightarrow> links_ok d' = links_ok d"
  by (simp add: links_ok_def)

lemma find_state [simp]: "snd (findAccessibleOrThrow i a d) = d"
  by (auto simp: findAccessibleOrThrow_def act_defs split: option.splits)

lemma addLink_cases:
  assumes "addLink env i j ty a d = (r, d')"
  shows "(\<exists>e. r = Inl e \<and> d' = d) \<or>
    (\<exists>d1. touched d d1 \<and> i \<noteq> j \<and> create_link i j ty d1 = (r, d'))"
proof -
  let ?m = "case a of None \<Rightarrow> create_link i j ty | Some _ \<Rightarrow> txn (sq (fence_both env a i j) (create_link i j ty))"
  obtain ri rj where f: "findAccessibleOrThrow i a d = (ri, d)" "findAccessibleOrThrow j a d = (rj, d)"
    using find_state by (metis prod.collapse)
  have "addLink env i j ty a d =
      (if j = i then (Inl (BadRequest ''A ticket cannot be linked to itself''), d)
       else case ri of Inl e \<Rightarrow> (Inl e, d) | Inr _ \<Rightarrow> (case rj of Inl e \<Rightarrow> (Inl e, d) | Inr _ \<Rightarrow> ?m d))"
    unfolding addLink_def by (simp add: sq_def bnd_def require_def ret_def throw_def f split: sum.splits)
  with assms have "(\<exists>e. r = Inl e \<and> d' = d) \<or> (i \<noteq> j \<and> ?m d = (r, d'))"
    by (auto split: if_splits sum.splits)
  then show ?thesis
  proof (elim disjE conjE)
    assume ij: "i \<noteq> j" and m: "?m d = (r, d')"
    show ?thesis
    proof (cases a)
      case None
      with ij m touch.frame_refl show ?thesis by auto
    next
      case (Some x)
      with m have tx: "txn (sq (fence_both env a i j) (create_link i j ty)) d = (r, d')" by simp
      from txn_result [OF tx] ij fence_both_links show ?thesis by (auto simp: run_sq)
    qed
  qed simp
qed

text \<open>
  Links are unique. If no two links connect the same pair of tickets, in whichever direction, and
  none connects a ticket with itself, this still holds after adding a link, successful or not. A
  failed request leaves the links alone; a successful one found no link between the two tickets and
  adds exactly the requested one.
\<close>

theorem addLink_unique:
  assumes "links_ok d" "addLink env i j ty a d = (r, d')"
  shows "links_ok d' \<and>
    (case r of Inl e \<Rightarrow> links d' = links d
     | Inr k \<Rightarrow> i \<noteq> j \<and> (\<forall>l \<in> set (links d). \<not> connects i j l) \<and>
         links d' = links d @ [\<lparr>l_id = k, l_sourceId = i, l_targetId = j, l_linkType = ty\<rparr>])"
  using addLink_cases [OF assms(2)]
proof (elim disjE exE conjE)
  fix e assume "r = Inl e" "d' = d"
  then show ?thesis using assms(1) by simp
next
  fix d1 assume d1: "touched d d1" "i \<noteq> j" "create_link i j ty d1 = (r, d')"
  note same = touched_links [OF d1(1)]
  have "links_ok d1" using assms(1) links_ok_cong same by blast
  from create_link_run [OF this d1(2,3)] same d1(2) show ?thesis by (auto split: sum.splits)
qed

definition linked_db :: db where
  "linked_db = merge_db\<lparr>links := [\<lparr>l_id = 0, l_sourceId = 3, l_targetId = 2, l_linkType = ''supplier''\<rparr>], seq_link := 1\<rparr>"

theorem addLink_unique_witness:
  "links_ok (snd (addLink sample_env 2 3 ''related'' None linked_db)) \<and>
   links (snd (addLink sample_env 2 3 ''related'' None linked_db)) = links linked_db"
proof -
  have ok: "links_ok linked_db" by (simp add: links_ok_def linked_db_def)
  obtain r d' where run: "addLink sample_env 2 3 ''related'' None linked_db = (r, d')" by fastforce
  with addLink_unique [OF ok run] have "links_ok d' \<and> (isl r \<longrightarrow> links d' = links linked_db)" by (cases r) auto
  moreover have "isl (fst (addLink sample_env 2 3 ''related'' None linked_db))" by code_simp
  ultimately show ?thesis using run by simp
qed

section \<open>Adopting uploaded files\<close>

lemma count_selected:
  assumes "distinct (map key rows)" "count_rows (\<lambda>r. key r \<in> set ks \<and> P r) rows = length (js_set ks)"
  shows "\<forall>k \<in> set ks. \<exists>r \<in> set rows. key r = k \<and> P r"
proof -
  have "length (filter (\<lambda>r. key r \<in> set (js_set ks) \<and> P r) rows) = length (js_set ks)"
    using assms(2) by (simp add: count_rows_def)
  from selected_all [OF assms(1) this] show ?thesis by auto
qed

text \<open>
  C33: Adoption by an anonymous submitter is bound to the upload secret. When linking uploaded files
  with a claim token succeeds, every file named exists, had no post and carried exactly this token;
  the named files now belong to the post and the ticket and have no token left, so it cannot be
  used again; every other file is untouched.
\<close>

theorem linkToPost_needs_token:
  assumes "distinct (map a_id (attachments d))" "token \<noteq> ''''" "ids \<noteq> []"
    "linkToPost ids postId ticketId token d = (Inr (), d')"
  shows "(\<forall>k \<in> set ids. \<exists>f \<in> set (attachments d). a_id f = k \<and> a_postId f = None \<and> a_claimToken f = Some token) \<and>
    d' = d\<lparr>attachments := update_rows (\<lambda>f. a_id f \<in> set ids)
      (\<lambda>f. f\<lparr>a_postId := Some postId, a_ticketId := Some ticketId, a_claimToken := None\<rparr>) (attachments d)\<rparr>"
proof -
  let ?P = "\<lambda>f. a_postId f = None \<and> a_claimToken f = Some token"
  have run: "count_rows (\<lambda>f. a_id f \<in> set ids \<and> ?P f) (attachments d) = length (js_set ids)"
    "d' = d\<lparr>attachments := update_rows (\<lambda>f. a_id f \<in> set ids \<and> ?P f)
      (\<lambda>f. f\<lparr>a_postId := Some postId, a_ticketId := Some ticketId, a_claimToken := None\<rparr>) (attachments d)\<rparr>"
    using assms(2-4) by (auto simp: linkToPost_def run_rules update_many_attachments_def)
  from count_selected [OF assms(1) run(1)] have sel: "\<forall>k \<in> set ids. \<exists>f \<in> set (attachments d). a_id f = k \<and> ?P f" .
  have "a_id f \<in> set ids \<and> ?P f \<longleftrightarrow> a_id f \<in> set ids" if "f \<in> set (attachments d)" for f
    using sel that assms(1) by (auto simp: distinct_map dest: inj_onD)
  then have "update_rows (\<lambda>f. a_id f \<in> set ids \<and> ?P f) g (attachments d) = update_rows (\<lambda>f. a_id f \<in> set ids) g (attachments d)" for g
    unfolding update_rows_def by (auto intro: map_cong)
  with run(2) sel show ?thesis by auto
qed

text \<open>
  Adoption by staff is bound by nothing but the missing post. Any file that is not yet on a post,
  including a file of an internal note of a ticket the agent cannot see, is moved to the agent's own
  ticket when its number is named, and becomes readable there.
\<close>

theorem staff_adopts_hidden_files:
  assumes "distinct (map a_id (attachments d))" "f \<in> set (attachments d)" "a_postId f = None"
    "accessible a d mine" "ids_ok d"
  shows "\<exists>d'. linkToPost [a_id f] postId mine '''' d = (Inr (), d') \<and> assertCanAccessAttachment a (a_id f) d' = (Inr (), d')"
proof -
  let ?P = "\<lambda>x. a_id x = a_id f \<and> a_postId x = None"
  let ?g = "\<lambda>x. x\<lparr>a_postId := Some postId, a_ticketId := Some mine, a_claimToken := None\<rparr>"
  let ?d = "d\<lparr>attachments := update_rows ?P ?g (attachments d)\<rparr>"
  have only: "x = f" if "x \<in> set (attachments d)" "a_id x = a_id f" for x
    using that assms(1,2) by (auto simp: distinct_map dest: inj_onD)
  have "count_rows ?P (attachments d) \<le> 1"
    using assms(1) by (rule count_rows_distinct) simp
  moreover have "count_rows ?P (attachments d) \<noteq> 0"
    using assms(2,3) by (auto simp: count_rows_0_iff)
  ultimately have "count_rows ?P (attachments d) = 1" by linarith
  moreover have "js_set [a_id f] = [a_id f]" by (simp add: js_set_def)
  ultimately have run: "linkToPost [a_id f] postId mine '''' d = (Inr (), ?d)"
    by (simp add: linkToPost_def act_defs update_many_attachments_def)
  have "find_row (\<lambda>x. a_id x = a_id f) (attachments ?d) = Some (?g f)"
  proof -
    have "find_row (\<lambda>x. a_id x = a_id f) (attachments d) = Some f"
      using assms(2) only by (intro find_row_unique) auto
    then show ?thesis
      using assms(3) by (simp add: find_row_update_rows)
  qed
  moreover have "assertCanAccessTicket a mine ?d = (Inr (), ?d)"
  proof -
    have "find_row (\<lambda>t. t_id t = mine \<and> ticketWhere a ?d t) (tickets ?d) \<noteq> None"
      using assms(4) by (auto simp: find_row_None_iff accessible_iff [OF assms(5)] ticketWhere_def is_member_def)
    then show ?thesis by (simp add: assertCanAccessTicket_def act_defs)
  qed
  ultimately have "assertCanAccessAttachment a (a_id f) ?d = (Inr (), ?d)"
    by (simp add: assertCanAccessAttachment_def act_defs)
  with run show ?thesis by blast
qed

definition sample_file :: "nat \<Rightarrow> nat option \<Rightarrow> nat option \<Rightarrow> string option \<Rightarrow> attachment" where
  "sample_file i ticket note token = \<lparr>a_id = i, a_ticketId = ticket, a_postId = None, a_noteId = note, a_fileName = ''cdr.csv'',
     a_mimeType = ''text/csv'', a_size = 10, a_storageKey = ''k'', a_claimToken = token\<rparr>"

definition file_db :: db where
  "file_db = two_departments\<lparr>attachments := [sample_file 3 (Some 1) (Some 4) None, sample_file 4 None None (Some ''key'')]\<rparr>"

lemma file_db_distinct: "distinct (map a_id (attachments file_db))"
  by (simp add: file_db_def sample_file_def)

theorem linkToPost_needs_token_witness:
  "\<exists>d'. linkToPost [4] 5 0 ''key'' file_db = (Inr (), d') \<and>
     map a_claimToken (attachments d') = [None, None] \<and> map a_ticketId (attachments d') = [Some 1, Some 0]"
proof -
  have "isl (fst (linkToPost [4] 5 0 ''key'' file_db)) = False" by code_simp
  from succeeds [OF this] obtain d' where run: "linkToPost [4] 5 0 ''key'' file_db = (Inr (), d')" by auto
  with linkToPost_needs_token [OF file_db_distinct _ _ run] show ?thesis
    by (simp add: file_db_def sample_file_def)
qed

theorem staff_adopts_hidden_files_witness:
  "\<exists>d'. linkToPost [3] 5 0 '''' file_db = (Inr (), d') \<and>
     assertCanAccessAttachment \<lparr>ac_staffId = 7, ac_isAdmin = False\<rparr> 3 d' = (Inr (), d')"
proof -
  have ok: "ids_ok file_db" using ids_ok_two_departments by (simp add: ids_ok_def file_db_def)
  have mine: "accessible \<lparr>ac_staffId = 7, ac_isAdmin = False\<rparr> file_db 0"
    unfolding accessible_iff [OF ok]
    by (simp add: file_db_def two_departments_def ticketWhere_def is_member_def sample_ticket_def)
  have "sample_file 3 (Some 1) (Some 4) None \<in> set (attachments file_db)" by (simp add: file_db_def)
  from staff_adopts_hidden_files [OF file_db_distinct this _ mine ok] show ?thesis
    by (simp add: sample_file_def)
qed

end
