(* ===== verification/ReplyMail.thy ===== *)
theory ReplyMail
  imports TicketCommands "HOL-Library.Sublist"
begin

text \<open>
  The mail side of a staff reply (\<open>tickets/tickets.service.ts\<close>): which Message-IDs are trusted in a
  header, the bounded \<open>References\<close> chain, the recipients with their visibility, and the snapshot
  of the message that the outbox stores.
\<close>

section \<open>Message-IDs\<close>

definition MAX_OUTBOUND_THREADING_MESSAGE_ID_CHARS :: nat where
  "MAX_OUTBOUND_THREADING_MESSAGE_ID_CHARS = 512"

definition MAX_OUTBOUND_REFERENCES_CHARS :: nat where
  "MAX_OUTBOUND_REFERENCES_CHARS = 900"

definition bad_id_char :: "char \<Rightarrow> bool" where
  "bad_id_char c \<longleftrightarrow> c = CHR ''<'' \<or> c = CHR ''>'' \<or> is_space c \<or> code_of c \<le> 31 \<or> code_of c = 127"

definition parseMessageId :: "string option \<Rightarrow> nat \<Rightarrow> string option" where
  "parseMessageId value maxLength =
     (let normalized = (case value of None \<Rightarrow> '''' | Some v \<Rightarrow> trim v) in
      if normalized = '''' \<or> length normalized > maxLength \<or> \<not> starts_with normalized ''<'' \<or> \<not> ends_with normalized ''>'' then None
      else (let body = butlast (tl normalized) in
            if body = '''' \<or> list_ex bad_id_char body then None else Some normalized))"

definition normalizeIncomingMessageId :: "string option \<Rightarrow> string option act_db" where
  "normalizeIncomingMessageId messageId =
     (let normalized = (case messageId of None \<Rightarrow> '''' | Some m \<Rightarrow> trim m) in
      if normalized = '''' then ret None
      else sq (require (parseMessageId (Some normalized) 998 \<noteq> None) (BadRequest ''Invalid inbound Message-ID''))
              (ret (Some normalized)))"

text \<open>The chain from the newest id backwards, while it fits.\<close>

fun fit_references :: "nat \<Rightarrow> string list \<Rightarrow> string list \<Rightarrow> string list" where
  "fit_references referenceChars newestFirst [] = newestFirst"
| "fit_references referenceChars newestFirst (m # ms) =
     (let addedChars = length m + (if newestFirst \<noteq> [] then 1 else 0) in
      if referenceChars + addedChars > MAX_OUTBOUND_REFERENCES_CHARS then newestFirst
      else fit_references (referenceChars + addedChars) (newestFirst @ [m]) ms)"

definition threading_posts :: "nat \<Rightarrow> db \<Rightarrow> post list" where
  "threading_posts ticketId d =
     take 20 (sort_key p_createdAt
       (filter (\<lambda>p. p_ticketId p = ticketId \<and> p_messageId p \<noteq> None \<and> p_messageId p \<noteq> Some '''') (posts d)))"

definition loadThreadingIds :: "nat \<Rightarrow> db \<Rightarrow> string list" where
  "loadThreadingIds ticketId d =
     (let validIds = List.map_filter (\<lambda>p. parseMessageId (p_messageId p) MAX_OUTBOUND_THREADING_MESSAGE_ID_CHARS) (threading_posts ticketId d)
      in rev (fit_references 0 [] (rev validIds)))"

text \<open>\<open>/<([^>]+)>/\<close> on the configured sender, and the domain of an outgoing Message-ID.\<close>

fun angle_address :: "string \<Rightarrow> string option" where
  "angle_address [] = None"
| "angle_address (c # s) =
     (let inner = takeWhile (\<lambda>x. x \<noteq> CHR ''>'') s in
      if c = CHR ''<'' \<and> inner \<noteq> [] \<and> length inner < length s then Some inner else angle_address s)"

definition is_domain_char :: "char \<Rightarrow> bool" where
  "is_domain_char c = (let n = code_of (lower_char c) in (97 \<le> n \<and> n \<le> 122) \<or> is_digit c \<or> c = CHR ''.'' \<or> c = CHR ''-'')"

definition second_part :: "char \<Rightarrow> string \<Rightarrow> string option" where
  "second_part c s =
     (case dropWhile (\<lambda>x. x \<noteq> c) s of [] \<Rightarrow> None | _ # rest \<Rightarrow> Some (takeWhile (\<lambda>x. x \<noteq> c) rest))"

definition reply_message_id :: "string \<Rightarrow> string \<Rightarrow> string" where
  "reply_message_id sender uuid =
     (let address = (case angle_address sender of Some x \<Rightarrow> x | None \<Rightarrow> sender);
          domain = (case second_part (CHR ''@'') address of None \<Rightarrow> '''' | Some x \<Rightarrow> lower (trim x));
          safeDomain = (if domain \<noteq> '''' \<and> list_all is_domain_char domain then domain else ''23telecom.invalid'')
      in ''<'' @ uuid @ ''@'' @ safeDomain @ ''>'')"

section \<open>Recipients\<close>

definition is_address_char :: "char \<Rightarrow> bool" where
  "is_address_char c \<longleftrightarrow> \<not> is_space c \<and> c \<noteq> CHR ''@'' \<and> c \<noteq> CHR ''<'' \<and> c \<noteq> CHR ''>''"

text \<open>The test \<open>/^[^\s@<>]+@[^\s@<>]+\.[^\s@<>]+$/\<close>: one at-sign, and a dot inside the domain.\<close>

definition valid_address :: "string \<Rightarrow> bool" where
  "valid_address s =
     (let local = takeWhile is_address_char s; rest = dropWhile is_address_char s in
      local \<noteq> [] \<and> rest \<noteq> [] \<and> hd rest = CHR ''@'' \<and> list_all is_address_char (tl rest) \<and>
      CHR ''.'' \<in> set (butlast (tl (tl rest))))"

text \<open>\<open>Map.set\<close>: an existing key keeps its place.\<close>

fun map_set :: "'k \<Rightarrow> 'v \<Rightarrow> ('k \<times> 'v) list \<Rightarrow> ('k \<times> 'v) list" where
  "map_set k v [] = [(k, v)]"
| "map_set k v ((k', v') # m) = (if k' = k then (k, v) # m else (k', v') # map_set k v m)"

definition add_recipient :: "role \<Rightarrow> string \<Rightarrow> (string \<times> role) list \<Rightarrow> error + (string \<times> role) list" where
  "add_recipient r email recipients =
     (if email = '''' then Inr recipients
      else (let normalized = normalizeEmail email in
        if \<not> valid_address normalized then
          (if r = TO then Inl (BadRequest ''Requester email is invalid for outbound delivery'') else Inr recipients)
        else (let existing = map_of recipients normalized in
          if existing = None \<or> (existing = Some BCC \<and> r \<noteq> BCC) then Inr (map_set normalized r recipients) else Inr recipients)))"

fun add_recipients :: "role \<Rightarrow> string list \<Rightarrow> (string \<times> role) list \<Rightarrow> error + (string \<times> role) list" where
  "add_recipients r [] recipients = Inr recipients"
| "add_recipients r (e # es) recipients =
     (case add_recipient r e recipients of Inl err \<Rightarrow> Inl err | Inr rs \<Rightarrow> add_recipients r es rs)"

definition stored_with :: "role \<Rightarrow> (string \<times> role) list \<Rightarrow> string list" where
  "stored_with r stored = map fst (filter (\<lambda>x. snd x = r) stored)"

definition normalizeOutboundRecipients ::
  "string \<Rightarrow> string list \<Rightarrow> string list \<Rightarrow> (string \<times> role) list \<Rightarrow> error + (string \<times> role) list" where
  "normalizeOutboundRecipients requesterEmail ccEmails bccEmails stored =
     (case add_recipient TO requesterEmail [] of Inl e \<Rightarrow> Inl e | Inr r1 \<Rightarrow>
      case add_recipients CC (ccEmails @ stored_with CC stored) r1 of Inl e \<Rightarrow> Inl e | Inr r2 \<Rightarrow>
      case add_recipients BCC (bccEmails @ stored_with BCC stored) r2 of Inl e \<Rightarrow> Inl e | Inr r3 \<Rightarrow>
      if TO \<in> set (map snd r3) then Inr r3
      else Inl (BadRequest ''A public staff reply requires a requester recipient''))"

section \<open>Attachments\<close>

definition assertOutboundAttachmentBounds :: "attachment list \<Rightarrow> unit act_db" where
  "assertOutboundAttachmentBounds xs =
     require (length xs \<le> 10 \<and> sum_list (map a_size xs) \<le> 25 * 1024 * 1024)
       (BadRequest ''Outbound attachment count or size limit exceeded'')"

section \<open>Facts about recipients\<close>

lemma map_of_map_set [simp]: "map_of (map_set k v m) = (map_of m)(k \<mapsto> v)"
  by (induction k v m rule: map_set.induct) auto

lemma map_set_keys: "fst ` set (map_set k v m) = insert k (fst ` set m)"
  by (induction k v m rule: map_set.induct) auto

lemma distinct_map_set: "distinct (map fst m) \<Longrightarrow> distinct (map fst (map_set k v m))"
proof (induction k v m rule: map_set.induct)
  case (2 k v k' v' m)
  then show ?case using map_set_keys [of k v m] by (auto simp: image_iff)
qed simp

lemma blank_invalid [simp]: "\<not> valid_address ''''"
  by (simp add: valid_address_def Let_def)

lemma normalizeEmail_Nil [simp]: "normalizeEmail '''' = ''''"
  by (simp add: normalizeEmail_def trim_by_def lower_def)

lemma add_recipient_Inr:
  assumes "add_recipient r e rs = Inr rs'"
  shows "(distinct (map fst rs) \<longrightarrow> distinct (map fst rs')) \<and>
    map_of rs' = (\<lambda>x. if x = normalizeEmail e \<and> valid_address x \<and> (map_of rs x = None \<or> map_of rs x = Some BCC \<and> r \<noteq> BCC)
      then Some r else map_of rs x)"
  using assms by (auto simp: add_recipient_def Let_def fun_eq_iff distinct_map_set split: if_splits)

lemma add_recipients_Inr:
  assumes "add_recipients r es rs = Inr rs'"
  shows "(distinct (map fst rs) \<longrightarrow> distinct (map fst rs')) \<and>
    map_of rs' = (\<lambda>x. if x \<in> normalizeEmail ` set es \<and> valid_address x \<and> (map_of rs x = None \<or> map_of rs x = Some BCC \<and> r \<noteq> BCC)
      then Some r else map_of rs x)"
  using assms
proof (induction es arbitrary: rs)
  case Nil
  then show ?case by (auto simp: fun_eq_iff)
next
  case (Cons e es)
  then obtain r1 where r1: "add_recipient r e rs = Inr r1" "add_recipients r es r1 = Inr rs'"
    by (auto split: sum.splits)
  from add_recipient_Inr [OF r1(1)] Cons.IH [OF r1(2)] show ?case
    by (cases "r = BCC") (auto simp: fun_eq_iff)
qed

lemma add_recipients_total: "r \<noteq> TO \<Longrightarrow> \<exists>rs'. add_recipients r es rs = Inr rs'"
proof (induction es arbitrary: rs)
  case (Cons e es)
  then have "\<exists>r1. add_recipient r e rs = Inr r1" by (auto simp: add_recipient_def Let_def)
  with Cons show ?case by auto
qed simp

text \<open>
  C32: The recipients of a staff reply never reveal a hidden copy and never lose the requester. Each
  address occurs once; the requester is the only \<open>TO\<close>; an address is \<open>CC\<close> exactly when a
  visible list names it and it is not the requester, and \<open>BCC\<close> exactly when only hidden lists
  name it. Malformed copy addresses are dropped, and only a malformed or missing requester address
  makes it fail.
\<close>

theorem recipients_by_visibility:
  fixes requester cc bcc stored
  defines "visible \<equiv> normalizeEmail ` (set cc \<union> set (stored_with CC stored))"
    and "hidden \<equiv> normalizeEmail ` (set bcc \<union> set (stored_with BCC stored))"
  shows "case normalizeOutboundRecipients requester cc bcc stored of
      Inl e \<Rightarrow> \<not> valid_address (normalizeEmail requester)
    | Inr rs \<Rightarrow> valid_address (normalizeEmail requester) \<and> distinct (map fst rs) \<and>
        (\<forall>x. map_of rs x =
          (if x = normalizeEmail requester then Some TO
           else if valid_address x \<and> x \<in> visible then Some CC
           else if valid_address x \<and> x \<in> hidden then Some BCC
           else None))"
proof (cases "valid_address (normalizeEmail requester)")
  case False
  then have "requester \<noteq> '''' \<Longrightarrow> isl (normalizeOutboundRecipients requester cc bcc stored)"
    by (simp add: normalizeOutboundRecipients_def add_recipient_def Let_def)
  moreover have "isl (normalizeOutboundRecipients requester cc bcc stored)" if "requester = ''''"
  proof -
    obtain r2 where r2: "add_recipients CC (cc @ stored_with CC stored) [] = Inr r2" using add_recipients_total by blast
    obtain r3 where r3: "add_recipients BCC (bcc @ stored_with BCC stored) r2 = Inr r3" using add_recipients_total by blast
    have "distinct (map fst r3)" "\<forall>x. map_of r3 x \<noteq> Some TO"
      using add_recipients_Inr [OF r2] add_recipients_Inr [OF r3] by (auto split: if_splits)
    then have "TO \<notin> set (map snd r3)" by (auto simp: map_of_is_SomeI)
    with that r2 r3 show ?thesis
      by (simp add: normalizeOutboundRecipients_def add_recipient_def)
  qed
  ultimately have "isl (normalizeOutboundRecipients requester cc bcc stored)" by blast
  with False show ?thesis by (cases "normalizeOutboundRecipients requester cc bcc stored") simp_all
next
  case True
  then have ne: "requester \<noteq> ''''" by auto
  let ?r1 = "[(normalizeEmail requester, TO)]"
  obtain r2 where r2: "add_recipients CC (cc @ stored_with CC stored) ?r1 = Inr r2" using add_recipients_total by blast
  obtain r3 where r3: "add_recipients BCC (bcc @ stored_with BCC stored) r2 = Inr r3" using add_recipients_total by blast
  note a2 = add_recipients_Inr [OF r2] and a3 = add_recipients_Inr [OF r3]
  have dist: "distinct (map fst r3)" using a2 a3 by simp
  have m: "map_of r3 x =
          (if x = normalizeEmail requester then Some TO
           else if valid_address x \<and> x \<in> visible then Some CC
           else if valid_address x \<and> x \<in> hidden then Some BCC
           else None)" for x
    using a2 a3 by (auto simp: visible_def hidden_def image_Un)
  have "TO \<in> set (map snd r3)"
    using m [of "normalizeEmail requester"] by (force dest: map_of_SomeD)
  with True ne r2 r3 have "normalizeOutboundRecipients requester cc bcc stored = Inr r3"
    by (simp add: normalizeOutboundRecipients_def add_recipient_def Let_def)
  with dist m True show ?thesis by simp
qed

lemma witness_addresses:
  "normalizeEmail ''A@b.c'' = ''a@b.c''" "valid_address ''a@b.c''" "normalizeEmail ''d@e.f'' = ''d@e.f''" "valid_address ''d@e.f''"
  by code_simp+

theorem recipients_by_visibility_witness:
  "case normalizeOutboundRecipients ''A@b.c'' [] [''d@e.f'', ''a@b.c''] [(''D@e.f'', CC)] of
     Inl e \<Rightarrow> False | Inr rs \<Rightarrow> map_of rs ''a@b.c'' = Some TO \<and> map_of rs ''d@e.f'' = Some CC"
proof -
  have "normalizeEmail ''D@e.f'' = ''d@e.f''" by code_simp
  then show ?thesis
    using recipients_by_visibility [where requester = "''A@b.c''" and cc = "[]" and bcc = "[''d@e.f'', ''a@b.c'']" and stored = "[(''D@e.f'', CC)]"] witness_addresses
    by (auto simp: stored_with_def split: sum.splits)
qed

section \<open>Facts about threading\<close>

fun spaced_length :: "string list \<Rightarrow> nat" where
  "spaced_length [] = 0"
| "spaced_length [m] = length m"
| "spaced_length (m # n # ms) = length m + 1 + spaced_length (n # ms)"

definition header_safe :: "string \<Rightarrow> bool" where
  "header_safe m \<longleftrightarrow> (\<exists>b. m = ''<'' @ b @ ''>'' \<and> b \<noteq> [] \<and> list_all (\<lambda>c. \<not> bad_id_char c) b)"

lemma trim_bracketed:
  "starts_with s ''<'' \<Longrightarrow> ends_with s ''>'' \<Longrightarrow> s = ''<'' @ butlast (tl s) @ ''>''"
proof -
  assume a: "starts_with s ''<''" and b: "ends_with s ''>''"
  from a obtain t where s: "s = CHR ''<'' # t" by (auto simp: starts_with_iff)
  from b obtain u where u: "s = u @ ''>''" by (auto simp: ends_with_iff)
  then have "t \<noteq> []" using s by (cases u) auto
  moreover have "last s = CHR ''>''" using u by simp
  ultimately have "t = butlast t @ ''>''" using s append_butlast_last_id [of t] by simp
  then show ?thesis using s by simp
qed

lemma parseMessageId_safe:
  assumes "parseMessageId v n = Some m"
  shows "header_safe m \<and> length m \<le> n"
proof -
  let ?m = "case v of None \<Rightarrow> '''' | Some v \<Rightarrow> trim v"
  from assms have m: "m = ?m" "length ?m \<le> n" "starts_with ?m ''<''" "ends_with ?m ''>''"
    and b: "butlast (tl ?m) \<noteq> ''''" "\<not> list_ex bad_id_char (butlast (tl ?m))"
    by (auto simp: parseMessageId_def Let_def split: if_splits)
  from b(2) have "list_all (\<lambda>c. \<not> bad_id_char c) (butlast (tl ?m))" by (simp add: list_all_iff list_ex_iff)
  with trim_bracketed [OF m(3,4)] b(1) m(1,2) show ?thesis unfolding header_safe_def by blast
qed

lemma spaced_length_rev_snoc: "spaced_length (ms @ [m]) = spaced_length ms + length m + (if ms \<noteq> [] then 1 else 0)"
  by (induction ms rule: spaced_length.induct) auto

lemma spaced_length_rev: "spaced_length (rev ms) = spaced_length ms"
proof (induction ms rule: spaced_length.induct)
  case (3 m n ms)
  then show ?case using spaced_length_rev_snoc [of "rev (n # ms)" m] by simp
qed auto

lemma fit_references_prefix:
  "referenceChars = spaced_length acc \<Longrightarrow> referenceChars \<le> 900 \<Longrightarrow>
   \<exists>ks. fit_references referenceChars acc ms = acc @ ks \<and> prefix ks ms \<and> spaced_length (acc @ ks) \<le> 900"
proof (induction referenceChars acc ms rule: fit_references.induct)
  case (2 n acc m ms)
  show ?case
  proof (cases "n + (length m + (if acc \<noteq> [] then 1 else 0)) > MAX_OUTBOUND_REFERENCES_CHARS")
    case True
    with 2(2,3) show ?thesis by (intro exI [of _ "[]"]) simp
  next
    case False
    have "n + (length m + (if acc \<noteq> [] then 1 else 0)) = spaced_length (acc @ [m])"
      using 2(2) by (simp add: spaced_length_rev_snoc)
    with 2(1) [OF refl False] False obtain ks where
      "fit_references (n + (length m + (if acc \<noteq> [] then 1 else 0))) (acc @ [m]) ms = (acc @ [m]) @ ks" "prefix ks ms"
      "spaced_length ((acc @ [m]) @ ks) \<le> 900"
      by (auto simp: MAX_OUTBOUND_REFERENCES_CHARS_def)
    with False show ?thesis by (intro exI [of _ "m # ks"]) (simp add: Let_def)
  qed
qed simp


text \<open>The pool is the twenty oldest messages: once twenty older ones exist, the newest is left out.\<close>

lemma take_sorted_older:
  fixes f :: "'a \<Rightarrow> 'b::linorder"
  assumes "n \<le> length (filter (\<lambda>x. f x < f y) xs)"
  shows "y \<notin> set (take n (sort_key f xs))"
proof
  let ?s = "sort_key f xs"
  assume "y \<in> set (take n ?s)"
  then obtain k where k: "k < n" "k < length ?s" "?s ! k = y" by (auto simp: in_set_conv_nth)
  have "{j. j < length ?s \<and> f (?s ! j) < f y} \<subseteq> {..<k}"
  proof
    fix j assume "j \<in> {j. j < length ?s \<and> f (?s ! j) < f y}"
    then have j: "j < length ?s" "f (?s ! j) < f y" by auto
    have "j < k"
    proof (rule ccontr)
      assume "\<not> j < k"
      then have "f (?s ! k) \<le> f (?s ! j)"
        using sorted_sort_key [of f xs] j(1) sorted_nth_mono [of "map f ?s" k j] by simp
      with k(3) j(2) show False by simp
    qed
    then show "j \<in> {..<k}" by simp
  qed
  then have "card {j. j < length ?s \<and> f (?s ! j) < f y} \<le> k"
    using card_mono [of "{..<k}"] by fastforce
  moreover have "card {j. j < length ?s \<and> f (?s ! j) < f y} = length (filter (\<lambda>x. f x < f y) ?s)"
    by (simp add: length_filter_conv_card)
  moreover have "length (filter (\<lambda>x. f x < f y) ?s) = length (filter (\<lambda>x. f x < f y) xs)"
    by (metis mset_filter mset_sort size_mset)
  ultimately show False using assms k(1) by linarith
qed

lemma newest_not_referenced:
  assumes "20 \<le> length (filter (\<lambda>q. p_createdAt q < p_createdAt p)
      (filter (\<lambda>q. p_ticketId q = i \<and> p_messageId q \<noteq> None \<and> p_messageId q \<noteq> Some '''') (posts d)))"
  shows "p \<notin> set (threading_posts i d)"
  unfolding threading_posts_def using assms by (rule take_sorted_older)

end
