(* ===== verification/TicketReply.thy ===== *)
theory TicketReply
  imports ReplyMail TicketEffects
begin

text \<open>
  Posts on a ticket (\<open>tickets/tickets.service.ts\<close>): the reply of a customer through the portal, the
  reply of staff or of an accepted inbound mail, and what a customer can read. A staff reply commits
  the post together with its outgoing mail; an inbound Message-ID is accepted once.
\<close>

section \<open>Portal reads\<close>

definition client_owns :: "nat \<Rightarrow> ticket \<Rightarrow> bool" where
  "client_owns clientUserId t \<longleftrightarrow> t_userId t = Some clientUserId"

definition assertClientOwnsTicket :: "ticket \<Rightarrow> nat \<Rightarrow> unit act_db" where
  "assertClientOwnsTicket t clientUserId = require (client_owns clientUserId t) (ticket_missing (t_id t))"

record public_post =
  pp_id :: nat
  pp_ticketId :: nat
  pp_authorType :: actor_type
  pp_userId :: "nat option"
  pp_fullName :: string
  pp_contents :: string
  pp_isHtml :: bool
  pp_createdAt :: time
  pp_attachments :: "(nat \<times> string \<times> nat \<times> string) list"   \<comment> \<open>id, file name, size, MIME type\<close>

definition public_post :: "db \<Rightarrow> post \<Rightarrow> public_post" where
  "public_post d p =
     \<lparr>pp_id = p_id p, pp_ticketId = p_ticketId p, pp_authorType = p_authorType p, pp_userId = p_userId p,
      pp_fullName = p_fullName p, pp_contents = p_contents p, pp_isHtml = p_isHtml p, pp_createdAt = p_createdAt p,
      pp_attachments = map (\<lambda>x. (a_id x, a_fileName x, a_size x, a_mimeType x)) (filter (\<lambda>x. a_postId x = Some (p_id p)) (attachments d))\<rparr>"

text \<open>The ticket as the customer gets it: the columns that survive the redaction, the joined status and
  owner (by name), the tags and the narrowed posts.\<close>

record public_ticket =
  pt_id :: nat
  pt_mask :: string
  pt_subject :: string
  pt_departmentId :: nat
  pt_statusId :: nat
  pt_priorityId :: nat
  pt_typeId :: "nat option"
  pt_userId :: "nat option"
  pt_requesterName :: string
  pt_requesterEmail :: string
  pt_dueAt :: "time option"
  pt_totalReplies :: int
  pt_hasAttachments :: bool
  pt_isResolved :: bool
  pt_isPhoneCall :: bool
  pt_lastReplyAt :: "time option"
  pt_lastActivityAt :: time
  pt_createdAt :: time
  pt_status :: "(nat \<times> string) option"
  pt_owner :: "(nat \<times> string \<times> string) option"
  pt_tags :: "string list"
  pt_posts :: "public_post list"

definition public_posts :: "nat \<Rightarrow> db \<Rightarrow> public_post list" where
  "public_posts i d =
     map (public_post d) (sort_key p_createdAt (filter (\<lambda>p. p_ticketId p = i \<and> \<not> p_isThirdParty p) (posts d)))"

definition public_ticket :: "ticket \<Rightarrow> db \<Rightarrow> public_ticket" where
  "public_ticket t d =
     \<lparr>pt_id = t_id t, pt_mask = t_mask t, pt_subject = t_subject t, pt_departmentId = t_departmentId t, pt_statusId = t_statusId t,
      pt_priorityId = t_priorityId t, pt_typeId = t_typeId t, pt_userId = t_userId t, pt_requesterName = t_requesterName t,
      pt_requesterEmail = t_requesterEmail t, pt_dueAt = t_dueAt t, pt_totalReplies = t_totalReplies t,
      pt_hasAttachments = t_hasAttachments t, pt_isResolved = t_isResolved t, pt_isPhoneCall = t_isPhoneCall t,
      pt_lastReplyAt = t_lastReplyAt t, pt_lastActivityAt = t_lastActivityAt t, pt_createdAt = t_createdAt t,
      pt_status = map_option (\<lambda>s. (st_id s, st_title s)) (status_by_id (t_statusId t) d),
      pt_owner = (case t_ownerStaffId t of None \<Rightarrow> None
        | Some k \<Rightarrow> map_option (\<lambda>s. (s_id s, s_firstName s, s_lastName s)) (staff_by_id k d)),
      pt_tags = t_tags t, pt_posts = public_posts (t_id t) d\<rparr>"

definition getPublicTicket :: "nat \<Rightarrow> nat \<Rightarrow> public_ticket act_db" where
  "getPublicTicket i clientUserId =
     bnd (reads (ticket_by_id i)) (\<lambda>z. case z of
       None \<Rightarrow> throw (ticket_missing i)
     | Some t \<Rightarrow> sq (assertClientOwnsTicket t clientUserId) (reads (public_ticket t)))"

definition listMyTickets :: "nat \<Rightarrow> db \<Rightarrow> ticket list \<times> nat" where
  "listMyTickets clientUserId d =
     (let mine = filter (\<lambda>t. t_mergedIntoId t = None \<and> client_owns clientUserId t) (tickets d)
      in (take 200 (sort_key (\<lambda>t. - t_createdAt t) mine), length mine))"

section \<open>Portal reply\<close>

text \<open>A customer reply resurfaces a resolved ticket in the default status.\<close>

definition reopen_status :: "bool \<Rightarrow> ticket \<Rightarrow> nat option act_db" where
  "reopen_status customer t = (if customer \<and> t_isResolved t then bnd defaultStatusId (\<lambda>k. ret (Some k)) else ret None)"

definition reply_patch :: "time \<Rightarrow> bool \<Rightarrow> nat option \<Rightarrow> ticket \<Rightarrow> ticket" where
  "reply_patch now files reopen x =
     (let y = x\<lparr>t_totalReplies := t_totalReplies x + 1, t_lastReplyAt := Some now, t_lastActivityAt := now,
                t_hasAttachments := (files \<or> t_hasAttachments x)\<rparr>
      in case reopen of
           None \<Rightarrow> y
         | Some k \<Rightarrow> y\<lparr>t_statusId := k, t_isResolved := False, t_resolvedAt := None, t_reopenedAt := Some now, t_wasReopened := True\<rparr>)"

definition is_closed :: "ticket_status \<Rightarrow> bool" where
  "is_closed st \<longleftrightarrow> st_markAsResolved st \<and> lower (trim (st_title st)) = ''closed''"

definition public_reply_post :: "env \<Rightarrow> ticket \<Rightarrow> string \<Rightarrow> post" where
  "public_reply_post env t contents =
     \<lparr>p_id = 0, p_ticketId = t_id t, p_authorType = ByUser, p_staffId = None, p_userId = t_userId t,
      p_fullName = t_requesterName t, p_email = t_requesterEmail t, p_subject = t_subject t, p_contents = contents,
      p_isHtml = False, p_isEmailed = False, p_isThirdParty = False, p_creationMode = ModeWeb, p_messageId = None,
      p_inboundMessageId = None, p_createdAt = en_now env\<rparr>"

definition post_key :: "nat \<Rightarrow> string" where
  "post_key postId = ''ticket-post:'' @ nat_str postId"

definition public_reply_body :: "env \<Rightarrow> ticket \<Rightarrow> string \<Rightarrow> nat list \<Rightarrow> string \<Rightarrow> nat option \<Rightarrow> post act_db" where
  "public_reply_body env t contents attachmentIds claimToken reopen =
     bnd (create_post (public_reply_post env t contents)) (\<lambda>postId.
     sq (if attachmentIds \<noteq> [] then linkToPost attachmentIds postId (t_id t) claimToken else ret ())
    (bnd (update_ticket (t_id t) (reply_patch (en_now env) (attachmentIds \<noteq> []) reopen)) (\<lambda>updatedTicket.
     sq (enqueueWorkflowEmailEvent env updatedTicket ''ticket.replied'' (post_key postId))
    (sq (queueWatcherNotificationsForUserReply env updatedTicket postId)
    (sq (writeAudit (t_id t) ''REPLY'' None ByUser None None None)
        (ret ((public_reply_post env t contents)\<lparr>p_id := postId\<rparr>)))))))"

definition publicReply :: "env \<Rightarrow> nat \<Rightarrow> string \<Rightarrow> nat list \<Rightarrow> string \<Rightarrow> nat \<Rightarrow> post act_db" where
  "publicReply env i contents attachmentIds claimToken clientUserId =
     bnd (reads (ticket_by_id i)) (\<lambda>z. case z of
       None \<Rightarrow> throw (ticket_missing i)
     | Some t \<Rightarrow>
         sq (assertClientOwnsTicket t clientUserId)
        (bnd (reads (status_by_id (t_statusId t))) (\<lambda>st.
         sq (require (case st of None \<Rightarrow> True | Some s \<Rightarrow> \<not> is_closed s) (BadRequest ''Ticket is closed and cannot receive new replies''))
        (sq (require (attachmentIds = [] \<or> claimToken \<noteq> '''')
               (BadRequest ''attachmentClaimToken is required when attachmentIds are provided''))
        (bnd (reopen_status True t) (\<lambda>reopen.
             txn (public_reply_body env t contents attachmentIds claimToken reopen)))))))"

section \<open>Staff and inbound replies\<close>

record reply_input =
  rp_contents :: string
  rp_isHtml :: bool
  rp_isNote :: bool
  rp_isEmailed :: bool
  rp_isThirdParty :: bool
  rp_attachmentIds :: "nat list"
  rp_ccEmails :: "string list"
  rp_bccEmails :: "string list"
  rp_creationMode :: "creation_mode option"
  rp_incomingMessageId :: "string option"

datatype reply_result = RepliedPost post | AddedNote nat

definition findPostByInboundMessageId :: "string \<Rightarrow> db \<Rightarrow> post option" where
  "findPostByInboundMessageId m d = find_row (\<lambda>p. p_inboundMessageId p = Some m) (posts d)"

definition nl2 :: string where
  "nl2 = [CHR 0x0A, CHR 0x0A]"

definition reply_signature :: "staff option \<Rightarrow> email_queue option \<Rightarrow> string" where
  "reply_signature s q =
     join_with nl2 (filter (\<lambda>x. x \<noteq> '''')
       (map trim ((case s of None \<Rightarrow> [] | Some x \<Rightarrow> [s_signature x]) @ (case q of None \<Rightarrow> [] | Some x \<Rightarrow> [q_signature x]))))"

definition department_queue :: "nat \<Rightarrow> db \<Rightarrow> email_queue option" where
  "department_queue departmentId d = find_row (\<lambda>q. q_departmentId q = Some departmentId \<and> q_isEnabled q) (sort_key q_id (queues d))"

definition reply_vars :: "ticket \<Rightarrow> string \<Rightarrow> vars" where
  "reply_vars t contents =
     (let requesterName = or_string (t_requesterName t) (t_requesterEmail t)
      in [(''mask'', t_mask t), (''subject'', t_subject t), (''contents'', contents), (''name'', requesterName), (''requesterName'', requesterName)])"

definition of_sum :: "error + 'a \<Rightarrow> 'a act_db" where
  "of_sum z = (case z of Inl e \<Rightarrow> throw e | Inr x \<Rightarrow> ret x)"

definition prepareStaffReplyOutboxDraft :: "env \<Rightarrow> ticket \<Rightarrow> reply_input \<Rightarrow> nat \<Rightarrow> outbound act_db" where
  "prepareStaffReplyOutboxDraft env t inp staffId =
     bnd (reads (\<lambda>d. (staff_by_id staffId d, department_queue (t_departmentId t) d, loadThreadingIds (t_id t) d,
                       map snd (filter (\<lambda>r. fst r = t_id t) (ticket_recipients d)), en_uuid env (seq_outbox d)))) (\<lambda>(s, q, threadingIds, stored, uuid).
       let signature = reply_signature s q;
           contents = (if signature \<noteq> '''' then rp_contents inp @ nl2 @ ''--'' @ [CHR 0x0A] @ signature else rp_contents inp)
       in bnd (renderTemplateRequired ''ticket_user_reply'' ''en'' (reply_vars t contents)) (\<lambda>rendered.
          bnd (of_sum (normalizeOutboundRecipients (t_requesterEmail t) (rp_ccEmails inp) (rp_bccEmails inp) stored)) (\<lambda>recipients.
            ret ((new_outbound (en_mail env) (reply_message_id (mc_from (en_mail env)) uuid) (en_now env) StaffReply)
              \<lparr>o_ticketId := Some (t_id t), o_emailQueueId := map_option q_id q, o_replyToAddress := map_option q_emailAddress q,
               o_subject := r_subject rendered, o_htmlBody := r_html rendered, o_textBody := r_text rendered,
               o_inReplyTo := (if threadingIds = [] then None else Some (last threadingIds)), o_references := threadingIds,
               o_recipients := recipients\<rparr>))))"

definition is_staff_reply :: "nat option \<Rightarrow> bool" where
  "is_staff_reply staffId \<longleftrightarrow> staffId \<noteq> None \<and> staffId \<noteq> Some 0"

text \<open>Display name and address of the author; unknown staff get the defaults of the columns.\<close>

definition reply_author :: "ticket \<Rightarrow> nat option \<Rightarrow> db \<Rightarrow> string \<times> string" where
  "reply_author t staffId d =
     (if is_staff_reply staffId then
        (case (case staffId of None \<Rightarrow> None | Some k \<Rightarrow> staff_by_id k d) of
           None \<Rightarrow> ('''', '''') | Some s \<Rightarrow> (staff_display s, s_email s))
      else (t_requesterName t, t_requesterEmail t))"

definition reply_post :: "env \<Rightarrow> ticket \<Rightarrow> reply_input \<Rightarrow> nat option \<Rightarrow> string \<times> string \<Rightarrow> string option \<Rightarrow> outbound option \<Rightarrow> post" where
  "reply_post env t inp staffId author incoming draft =
     \<lparr>p_id = 0, p_ticketId = t_id t, p_authorType = (if is_staff_reply staffId then ByStaff else ByUser), p_staffId = staffId,
      p_userId = None, p_fullName = fst author, p_email = snd author, p_subject = t_subject t, p_contents = rp_contents inp,
      p_isHtml = rp_isHtml inp, p_isEmailed = (if is_staff_reply staffId then False else rp_isEmailed inp),
      p_isThirdParty = rp_isThirdParty inp,
      p_creationMode = (case rp_creationMode inp of None \<Rightarrow> ModeStaff | Some m \<Rightarrow> m),
      p_messageId = (case incoming of Some m \<Rightarrow> Some m | None \<Rightarrow> map_option o_messageId draft),
      p_inboundMessageId = incoming, p_createdAt = en_now env\<rparr>"

text \<open>The files of the message, taken from the rows the post has just adopted.\<close>

definition snapshot_attachments :: "outbound option \<Rightarrow> nat list \<Rightarrow> nat \<Rightarrow> nat \<Rightarrow> (string \<times> string \<times> string) list act_db" where
  "snapshot_attachments draft ids postId ticketId =
     (if draft = None \<or> ids = [] then ret []
      else bnd (reads (\<lambda>d. filter (\<lambda>x. a_id x \<in> set ids \<and> a_postId x = Some postId \<and> a_ticketId x = Some ticketId) (attachments d))) (\<lambda>xs.
           sq (require (length xs = length (js_set ids)) (BadRequest ''One or more outbound attachments cannot be snapshotted''))
          (sq (assertOutboundAttachmentBounds xs)
              (ret (map (\<lambda>x. (a_fileName x, a_mimeType x, a_storageKey x)) xs)))))"

definition reply_body ::
  "env \<Rightarrow> ticket \<Rightarrow> reply_input \<Rightarrow> nat option \<Rightarrow> actor option \<Rightarrow> string \<times> string \<Rightarrow> string option \<Rightarrow> outbound option \<Rightarrow> nat option \<Rightarrow> post act_db" where
  "reply_body env t inp staffId a author incoming draft reopen =
     (let post = reply_post env t inp staffId author incoming draft; ids = rp_attachmentIds inp in
      sq (fenceTicketMutation a (t_id t) (en_now env))
     (bnd (create_post post) (\<lambda>postId.
      sq (if ids \<noteq> [] then linkToPost ids postId (t_id t) '''' else ret ())
     (bnd (snapshot_attachments draft ids postId (t_id t)) (\<lambda>files.
      bnd (update_ticket (t_id t) (reply_patch (en_now env) (ids \<noteq> []) reopen)) (\<lambda>updatedTicket.
      sq (writeAudit (t_id t) ''REPLY'' staffId (if is_staff_reply staffId then ByStaff else ByUser) None None None)
     (sq (enqueueWorkflowEmailEvent env updatedTicket ''ticket.replied'' (post_key postId))
     (sq (case draft of None \<Rightarrow> ret 0 | Some ob \<Rightarrow> insert_outbound (ob\<lparr>o_postId := Some postId, o_attachments := files\<rparr>))
     (sq (if is_staff_reply staffId then ret [] else queueWatcherNotificationsForUserReply env updatedTicket postId)
         (ret (post\<lparr>p_id := postId\<rparr>)))))))))))"

text \<open>A post that already carries the inbound Message-ID; staff only get it on the ticket they asked for.\<close>

definition duplicate_reply :: "nat \<Rightarrow> actor option \<Rightarrow> string option \<Rightarrow> post option act_db" where
  "duplicate_reply i a incoming =
     (case incoming of None \<Rightarrow> ret None
      | Some m \<Rightarrow> bnd (reads (findPostByInboundMessageId m)) (\<lambda>z. case z of
          None \<Rightarrow> ret None
        | Some p \<Rightarrow> if a \<noteq> None \<and> p_ticketId p \<noteq> i then throw (ticket_missing i) else ret (Some p)))"

fun is_unique_violation :: "error \<Rightarrow> bool" where
  "is_unique_violation (UniqueViolation s) = True"
| "is_unique_violation _ = False"

definition commit_reply ::
  "env \<Rightarrow> ticket \<Rightarrow> reply_input \<Rightarrow> nat option \<Rightarrow> actor option \<Rightarrow> string \<times> string \<Rightarrow> string option \<Rightarrow> outbound option \<Rightarrow> nat option \<Rightarrow> post act_db" where
  "commit_reply env t inp staffId a author incoming draft reopen =
     catch_act (txn (reply_body env t inp staffId a author incoming draft reopen))
       (\<lambda>e. if incoming \<noteq> None \<and> is_unique_violation e then
              bnd (duplicate_reply (t_id t) a incoming) (\<lambda>z. case z of None \<Rightarrow> throw e | Some p \<Rightarrow> ret p)
            else throw e)"

text \<open>The handler after the early returns: the author, the draft of the mail, the transaction.\<close>

definition answer_ticket :: "env \<Rightarrow> reply_input \<Rightarrow> nat option \<Rightarrow> actor option \<Rightarrow> string option \<Rightarrow> ticket \<Rightarrow> reply_result act_db" where
  "answer_ticket env inp staffId a incoming t =
     bnd (reads (reply_author t staffId)) (\<lambda>author.
     sq (require (\<not> (is_staff_reply staffId \<and> incoming = None \<and> trim (t_requesterEmail t) = ''''))
           (BadRequest ''Ticket has no requester email; add an internal note or repair the requester first''))
    (bnd (if is_staff_reply staffId \<and> t_requesterEmail t \<noteq> '''' \<and> incoming = None
          then bnd (prepareStaffReplyOutboxDraft env t inp (case staffId of None \<Rightarrow> 0 | Some k \<Rightarrow> k)) (\<lambda>ob. ret (Some ob))
          else ret None) (\<lambda>draft.
     bnd (reopen_status (\<not> is_staff_reply staffId) t) (\<lambda>reopen.
     bnd (commit_reply env t inp staffId a author incoming draft reopen) (\<lambda>p. ret (RepliedPost p))))))"

definition reply_or_note :: "env \<Rightarrow> nat \<Rightarrow> reply_input \<Rightarrow> nat option \<Rightarrow> actor option \<Rightarrow> string option \<Rightarrow> reply_result act_db" where
  "reply_or_note env i inp staffId a incoming =
     (if rp_isNote inp then
        sq (require (incoming = None) (BadRequest ''Inbound Message-ID cannot be assigned to an internal note''))
           (bnd (addNote env i (rp_contents inp) staffId (rp_attachmentIds inp) a) (\<lambda>n. ret (AddedNote n)))
      else
        sq (case a of None \<Rightarrow> ret () | Some _ \<Rightarrow> sq (findAccessibleOrThrow i a) (ret ()))
       (bnd (duplicate_reply i a incoming) (\<lambda>dup. case dup of
          Some p \<Rightarrow> ret (RepliedPost p)
        | None \<Rightarrow> bnd (findAccessibleOrThrow i a) (answer_ticket env inp staffId a incoming))))"

definition reply :: "env \<Rightarrow> nat \<Rightarrow> reply_input \<Rightarrow> nat option \<Rightarrow> actor option \<Rightarrow> reply_result act_db" where
  "reply env i inp staffId a =
     bnd (normalizeIncomingMessageId (rp_incomingMessageId inp)) (reply_or_note env i inp staffId a)"

section \<open>Facts\<close>

lemma watcher_alerts_stays: "growth.stays (queueWatcherNotificationsForUserReply env t postId)"
  unfolding queueWatcherNotificationsForUserReply_def by (intro growth.stays_intros notify_stays)

lemma watcher_alerts_tables:
  assumes "queueWatcherNotificationsForUserReply env t postId d = (r, d')"
  shows "posts d' = posts d" "tickets d' = tickets d" "\<exists>rs. outbox d' = outbox d @ rs"
  using growth.staysD [OF watcher_alerts_stays assms] by (auto simp: outbox_grows_def)

lemma enqueue_outbox:
  assumes "enqueueWorkflowEmailEvent env t ty key d = (r, d')"
  shows "outbox d' = outbox d \<and> seq_outbox d' = seq_outbox d"
  using planning.staysD [OF enqueueWorkflow_stays assms] by (auto simp: events_grow_def)

lemma run_create_post:
  "create_post p d = (Inr k, d') \<longleftrightarrow>
   (p_inboundMessageId p = None \<or> (\<forall>q \<in> set (posts d). p_inboundMessageId q \<noteq> p_inboundMessageId p)) \<and>
   p_ticketId p \<in> t_id ` set (tickets d) \<and> k = seq_post d \<and>
   d' = d\<lparr>posts := posts d @ [p\<lparr>p_id := seq_post d\<rparr>], seq_post := Suc (seq_post d)\<rparr>"
  by (auto simp: create_post_def)

lemma link_tables:
  assumes "linkToPost ids k i token d = (r, d')"
  shows "\<exists>xs. d' = d\<lparr>attachments := xs\<rparr>"
proof (cases "ids = []")
  case True
  with assms show ?thesis by (auto simp: linkToPost_def ret_def intro: exI [of _ "attachments d"])
next
  case False
  with assms show ?thesis
    by (auto simp: linkToPost_def act_defs update_many_attachments_def split: if_splits)
qed

lemma link_opt_tables:
  "(if b then linkToPost ids k i token else ret ()) d = (r, d') \<Longrightarrow> \<exists>xs. d' = d\<lparr>attachments := xs\<rparr>"
  using link_tables by (auto simp: ret_def intro: exI [of _ "attachments d"] split: if_splits)

lemma reply_patch_row [simp]:
  "t_id (reply_patch now b k x) = t_id x" "t_totalReplies (reply_patch now b k x) = t_totalReplies x + 1"
  "t_departmentId (reply_patch now b k x) = t_departmentId x" "t_ownerStaffId (reply_patch now b k x) = t_ownerStaffId x"
  by (simp_all add: reply_patch_def Let_def split: option.split)

lemma reply_patch_resolved: "t_isResolved (reply_patch now b k x) \<longleftrightarrow> k = None \<and> t_isResolved x"
  by (simp add: reply_patch_def Let_def split: option.split)

lemma reopen_run:
  assumes "reopen_status c t d = (Inr k, d')"
  shows "d' = d \<and> (k \<noteq> None \<longleftrightarrow> c \<and> t_isResolved t)"
  using assms by (auto simp: reopen_status_def run_rules defaultStatusId_def split: if_splits option.splits)

lemma ticket_by_id_cong: "tickets d' = tickets d \<Longrightarrow> ticket_by_id i d' = ticket_by_id i d"
  by (simp add: ticket_by_id_def)

lemma public_body_run:
  assumes "public_reply_body env t contents ids token reopen d = (Inr p, d')" "ticket_by_id (t_id t) d = Some t"
  shows "p = (public_reply_post env t contents)\<lparr>p_id := seq_post d\<rparr> \<and> posts d' = posts d @ [p] \<and>
    ticket_by_id (t_id t) d' = Some (reply_patch (en_now env) (ids \<noteq> []) reopen t)"
proof -
  let ?p = "public_reply_post env t contents"
  from assms(1) obtain k d1 u d2 x d3 y d4 z d5 w where
    c: "create_post ?p d = (Inr k, d1)"
    and l: "(if ids \<noteq> [] then linkToPost ids k (t_id t) token else ret ()) d1 = (Inr u, d2)"
    and up: "update_ticket (t_id t) (reply_patch (en_now env) (ids \<noteq> []) reopen) d2 = (Inr x, d3)"
    and e: "enqueueWorkflowEmailEvent env x ''ticket.replied'' (post_key k) d3 = (Inr y, d4)"
    and q: "queueWatcherNotificationsForUserReply env x k d4 = (Inr z, d5)"
    and au: "writeAudit (t_id t) ''REPLY'' None ByUser None None None d5 = (Inr w, d')"
    and p: "p = ?p\<lparr>p_id := k\<rparr>"
    unfolding public_reply_body_def by (auto simp only: run_rules)
  from c have d1: "k = seq_post d" "posts d1 = posts d @ [?p\<lparr>p_id := seq_post d\<rparr>]" "tickets d1 = tickets d"
    by (auto simp: run_create_post)
  from link_opt_tables [OF l] obtain xs where d2: "d2 = d1\<lparr>attachments := xs\<rparr>" by blast
  have row: "ticket_by_id (t_id t) d2 = Some t" using assms(2) d1(3) d2 by (simp add: ticket_by_id_def)
  have up': "x = reply_patch (en_now env) (ids \<noteq> []) reopen t" "ticket_by_id (t_id t) d3 = Some x" "posts d3 = posts d2"
    using update_ticket_Inr [OF up reply_patch_row(1)] row by (auto simp: set_tickets_def)
  have "tickets d' = tickets d3" "posts d' = posts d3"
    using enqueue_tables [OF e] watcher_alerts_tables [OF q] audited_tables [OF au] by simp_all
  with ticket_by_id_cong [of d' d3 "t_id t"] up' d1 d2 p show ?thesis by simp
qed

lemma txn_Inl: "txn m d = (Inl e, d') \<Longrightarrow> d' = d"
  by (auto simp: txn_def split: prod.splits sum.splits)

lemma default_status_state: "defaultStatusId d = (r, d') \<Longrightarrow> d' = d"
  by (auto simp: defaultStatusId_def act_defs split: option.splits)

lemma reopen_state: "reopen_status c t d = (r, d') \<Longrightarrow> d' = d"
  by (auto simp: reopen_status_def bnd_def ret_def dest: default_status_state split: if_splits prod.splits sum.splits)

lemma publicReply_Inl: "publicReply env i contents ids token client d = (Inl e, d') \<Longrightarrow> d' = d"
  unfolding publicReply_def assertClientOwnsTicket_def
  by (auto simp: bnd_def sq_def reads_def require_def ret_def throw_def split: option.splits if_splits prod.splits sum.splits
      dest: txn_Inl reopen_state)

text \<open>
  C22: A customer can only write on their own open tickets. A portal reply that fails changes nothing.
  One that succeeds was made by the owner of the ticket, which was not closed, and added exactly one
  post, under the requester's stored identity whatever the request says; the ticket counts one more
  reply and is not resolved any more.
\<close>

theorem publicReply_owner_only:
  assumes "publicReply env i contents ids token client d = (r, d')"
  shows "case r of Inl e \<Rightarrow> d' = d
    | Inr p \<Rightarrow> (\<exists>t x. ticket_by_id i d = Some t \<and> t_userId t = Some client \<and>
        (case status_by_id (t_statusId t) d of None \<Rightarrow> True | Some s \<Rightarrow> \<not> is_closed s) \<and>
        posts d' = posts d @ [p] \<and> p_ticketId p = i \<and> p_authorType p = ByUser \<and> p_staffId p = None \<and>
        p_email p = t_requesterEmail t \<and> p_fullName p = t_requesterName t \<and> p_contents p = contents \<and>
        ticket_by_id i d' = Some x \<and> t_totalReplies x = t_totalReplies t + 1 \<and> \<not> t_isResolved x)"
proof (cases r)
  case (Inl e)
  with assms publicReply_Inl show ?thesis by fastforce
next
  case (Inr p)
  from assms [unfolded Inr] obtain t k d1 where t: "ticket_by_id i d = Some t" "client_owns client t"
    and st: "case status_by_id (t_statusId t) d of None \<Rightarrow> True | Some s \<Rightarrow> \<not> is_closed s"
    and re: "reopen_status True t d = (Inr k, d1)" and body: "public_reply_body env t contents ids token k d1 = (Inr p, d')"
    unfolding publicReply_def assertClientOwnsTicket_def
    by (auto simp: run_rules split: option.splits)
  note d1 = reopen_state [OF re]
  have ti: "t_id t = i" using ticket_by_id_SomeD [OF t(1)] by simp
  from public_body_run [OF body [unfolded d1]] t(1) ti reopen_run [OF re] st t(2) Inr show ?thesis
    by (auto simp: public_reply_post_def client_owns_def reply_patch_resolved)
qed

definition portal_db :: db where
  "portal_db = merge_db\<lparr>tickets := [(sample_ticket 2 10)\<lparr>t_userId := Some 9, t_isResolved := True\<rparr>], seq_post := 3\<rparr>"

theorem publicReply_owner_only_witness:
  "\<exists>p d'. publicReply sample_env 2 ''Hi'' [] '''' 9 portal_db = (Inr p, d') \<and> posts d' = [p] \<and> p_email p = ''ann@example.org''"
proof -
  have "isl (fst (publicReply sample_env 2 ''Hi'' [] '''' 9 portal_db)) = False" by code_simp
  from succeeds [OF this] obtain p d' where run: "publicReply sample_env 2 ''Hi'' [] '''' 9 portal_db = (Inr p, d')" by blast
  have row: "ticket_by_id 2 portal_db = Some ((sample_ticket 2 10)\<lparr>t_userId := Some 9, t_isResolved := True\<rparr>)"
    by (simp add: ticket_by_id_def portal_db_def sample_ticket_def)
  have mail: "t_requesterEmail ((sample_ticket 2 10)\<lparr>t_userId := Some 9, t_isResolved := True\<rparr>) = ''ann@example.org''"
    by (simp add: sample_ticket_def)
  have none: "posts portal_db = []" by (simp add: portal_db_def merge_db_def empty_db_def)
  from publicReply_owner_only [OF run, simplified, unfolded row none] obtain t where
    "(sample_ticket 2 10)\<lparr>t_userId := Some 9, t_isResolved := True\<rparr> = t" "posts d' = [p]" "p_email p = t_requesterEmail t"
    by auto
  with run mail show ?thesis by auto
qed

section \<open>Replies\<close>

lemma run_normalize:
  "normalizeIncomingMessageId z d = (Inr k, d') \<longleftrightarrow>
   d' = d \<and> k = (let m = (case z of None \<Rightarrow> '''' | Some m \<Rightarrow> trim m) in if m = '''' then None else Some m) \<and>
   (k \<noteq> None \<longrightarrow> parseMessageId k 998 \<noteq> None)"
  by (auto simp: normalizeIncomingMessageId_def Let_def run_rules)

lemma run_duplicate:
  "duplicate_reply i a incoming d = (Inr z, d') \<Longrightarrow>
   d' = d \<and> (z \<noteq> None \<longrightarrow> (\<exists>m. incoming = Some m \<and> findPostByInboundMessageId m d = z)) \<and>
   (z = None \<longrightarrow> (\<forall>m. incoming = Some m \<longrightarrow> findPostByInboundMessageId m d = None))"
  by (auto simp: duplicate_reply_def run_rules split: option.splits if_splits)

lemma snapshot_state: "snapshot_attachments draft ids k i d = (r, d') \<Longrightarrow> d' = d"
  by (auto simp: snapshot_attachments_def assertOutboundAttachmentBounds_def act_defs split: if_splits)

lemma run_insert_outbound: "insert_outbound ob d = (Inr k, d') \<Longrightarrow>
   d' = d\<lparr>outbox := outbox d @ [ob\<lparr>o_id := seq_outbox d\<rparr>], seq_outbox := Suc (seq_outbox d)\<rparr>"
  by (auto simp: insert_outbound_def split: if_splits)

lemma reply_body_run:
  assumes "reply_body env t inp s a author incoming draft reopen d = (Inr p, d')"
  shows "p = (reply_post env t inp s author incoming draft)\<lparr>p_id := seq_post d\<rparr> \<and> posts d' = posts d @ [p] \<and>
    (incoming \<noteq> None \<longrightarrow> (\<forall>q \<in> set (posts d). p_inboundMessageId q \<noteq> incoming)) \<and>
    (is_staff_reply s \<longrightarrow> (\<exists>files. outbox d' = outbox d @ (case draft of None \<Rightarrow> []
       | Some ob \<Rightarrow> [ob\<lparr>o_id := seq_outbox d, o_postId := Some (p_id p), o_attachments := files\<rparr>])))"
proof -
  let ?p = "reply_post env t inp s author incoming draft"
  let ?ids = "rp_attachmentIds inp"
  from assms obtain u0 d0 k d1 u d2 files d3 x d4 au d5 y d6 v d7 z where
    f: "fenceTicketMutation a (t_id t) (en_now env) d = (Inr u0, d0)"
    and c: "create_post ?p d0 = (Inr k, d1)"
    and l: "(if ?ids \<noteq> [] then linkToPost ?ids k (t_id t) '''' else ret ()) d1 = (Inr u, d2)"
    and sn: "snapshot_attachments draft ?ids k (t_id t) d2 = (Inr files, d3)"
    and up: "update_ticket (t_id t) (reply_patch (en_now env) (?ids \<noteq> []) reopen) d3 = (Inr x, d4)"
    and au: "writeAudit (t_id t) ''REPLY'' s (if is_staff_reply s then ByStaff else ByUser) None None None d4 = (Inr au, d5)"
    and e: "enqueueWorkflowEmailEvent env x ''ticket.replied'' (post_key k) d5 = (Inr y, d6)"
    and ob: "(case draft of None \<Rightarrow> ret 0 | Some ob \<Rightarrow> insert_outbound (ob\<lparr>o_postId := Some k, o_attachments := files\<rparr>)) d6 = (Inr v, d7)"
    and q: "(if is_staff_reply s then ret [] else queueWatcherNotificationsForUserReply env x k) d7 = (Inr z, d')"
    and p: "p = ?p\<lparr>p_id := k\<rparr>"
    unfolding reply_body_def Let_def by (auto simp only: run_rules)
  from run_fence [OF f] obtain ts where d0: "d0 = d\<lparr>tickets := ts\<rparr>" by (auto simp: touched_def)
  from c d0 have d1: "k = seq_post d" "posts d1 = posts d @ [?p\<lparr>p_id := seq_post d\<rparr>]" "outbox d1 = outbox d" "seq_outbox d1 = seq_outbox d"
    and uniq: "incoming \<noteq> None \<longrightarrow> (\<forall>q \<in> set (posts d). p_inboundMessageId q \<noteq> incoming)"
    by (auto simp: run_create_post reply_post_def)
  from link_opt_tables [OF l] obtain xs where d2: "d2 = d1\<lparr>attachments := xs\<rparr>" by blast
  have d5: "posts d5 = posts d1" "outbox d5 = outbox d1" "seq_outbox d5 = seq_outbox d1"
    using up au snapshot_state [OF sn] d2 by (auto simp: run_update set_tickets_def writeAudit_def)
  have d6: "posts d6 = posts d1" "outbox d6 = outbox d1" "seq_outbox d6 = seq_outbox d1"
    using d5 enqueue_tables [OF e] enqueue_outbox [OF e] by simp_all
  have d7: "posts d7 = posts d1" "outbox d7 = outbox d @ (case draft of None \<Rightarrow> []
       | Some ob \<Rightarrow> [ob\<lparr>o_id := seq_outbox d, o_postId := Some k, o_attachments := files\<rparr>])"
    using ob d6 d1 by (auto simp: ret_def dest!: run_insert_outbound split: option.splits)
  have "posts d' = posts d7" "is_staff_reply s \<longrightarrow> outbox d' = outbox d7"
    using q watcher_alerts_tables by (auto simp: ret_def split: if_splits)
  with d7 d1 p uniq show ?thesis by (auto split: option.splits)
qed

lemma commit_reply_cases:
  assumes "commit_reply env t inp s a author incoming draft reopen d = (r, d')"
  shows "(\<exists>p. r = Inr p \<and> reply_body env t inp s a author incoming draft reopen d = (Inr p, d')) \<or>
    (d' = d \<and> (\<exists>e. r = Inl e)) \<or>
    (d' = d \<and> (\<exists>p m. r = Inr p \<and> incoming = Some m \<and> findPostByInboundMessageId m d = Some p))"
proof (cases "txn (reply_body env t inp s a author incoming draft reopen) d")
  case (Pair q d1)
  show ?thesis
  proof (cases q)
    case (Inr p)
    with Pair assms show ?thesis by (auto simp: commit_reply_def catch_act_def txn_def split: prod.splits sum.splits)
  next
    case (Inl e)
    with Pair have d1: "d1 = d" by (auto dest: txn_Inl)
    obtain z d2 where z: "duplicate_reply (t_id t) a incoming d = (z, d2)" by fastforce
    then have "d2 = d" by (auto simp: duplicate_reply_def act_defs split: option.splits if_splits)
    with z run_duplicate [of "t_id t" a incoming d] Pair Inl d1 assms show ?thesis
      by (cases z) (auto simp: commit_reply_def catch_act_def bnd_def throw_def ret_def split: if_splits option.splits)
  qed
qed

lemma findPost_append:
  assumes "\<forall>q \<in> set ps. p_inboundMessageId q \<noteq> Some m" "p_inboundMessageId p = Some m" "posts d' = ps @ [p]"
  shows "findPostByInboundMessageId m d' = Some p"
proof -
  have "find_row (\<lambda>p. p_inboundMessageId p = Some m) ps = None" using assms(1) by (simp add: find_row_None_iff)
  then show ?thesis using assms(2,3) by (simp add: findPostByInboundMessageId_def find_row_append)
qed

text \<open>What a successful reply that is not a note went through.\<close>

lemma run_prepare: "prepareStaffReplyOutboxDraft env t inp k e = (r, e') \<Longrightarrow> e' = e"
  unfolding prepareStaffReplyOutboxDraft_def of_sum_def Let_def case_prod_beta
  by (auto simp: bnd_def reads_def ret_def throw_def split: prod.splits sum.splits dest: renderTemplateRequired_state)

lemma answer_run:
  assumes "answer_ticket env inp s a incoming t d = (Inr q, d')"
  shows "\<exists>p author draft reopen. q = RepliedPost p \<and>
    (if is_staff_reply s \<and> t_requesterEmail t \<noteq> '''' \<and> incoming = None
        then bnd (prepareStaffReplyOutboxDraft env t inp (case s of None \<Rightarrow> 0 | Some k \<Rightarrow> k)) (\<lambda>ob. ret (Some ob))
        else ret None) d = (Inr draft, d) \<and>
    \<not> (is_staff_reply s \<and> incoming = None \<and> trim (t_requesterEmail t) = '''') \<and>
    commit_reply env t inp s a author incoming draft reopen d = (Inr p, d')"
proof -
  let ?draft = "if is_staff_reply s \<and> t_requesterEmail t \<noteq> '''' \<and> incoming = None
        then bnd (prepareStaffReplyOutboxDraft env t inp (case s of None \<Rightarrow> 0 | Some k \<Rightarrow> k)) (\<lambda>ob. ret (Some ob))
        else ret None"
  obtain draft d1 reopen d2 p where g: "\<not> (is_staff_reply s \<and> incoming = None \<and> trim (t_requesterEmail t) = '''')"
    and dr: "?draft d = (Inr draft, d1)" and re: "reopen_status (\<not> is_staff_reply s) t d1 = (Inr reopen, d2)"
    and co: "commit_reply env t inp s a (reply_author t s d) incoming draft reopen d2 = (Inr p, d')" and q: "q = RepliedPost p"
    using assms unfolding answer_ticket_def run_rules by blast
  have "d1 = d" using dr by (auto simp: run_rules dest: run_prepare split: if_splits)
  moreover have "d2 = d1" by (rule reopen_state [OF re])
  ultimately show ?thesis using g dr co q by blast
qed

lemma reply_run:
  assumes "reply env i inp s a d = (Inr (RepliedPost p), d')"
  obtains (Duplicate) m where "normalizeIncomingMessageId (rp_incomingMessageId inp) d = (Inr (Some m), d)" "d' = d"
      "findPostByInboundMessageId m d = Some p"
  | (Answered) t incoming where "normalizeIncomingMessageId (rp_incomingMessageId inp) d = (Inr incoming, d)"
      "\<not> rp_isNote inp" "findAccessibleOrThrow i a d = (Inr t, d)" "answer_ticket env inp s a incoming t d = (Inr (RepliedPost p), d')"
proof -
  from assms obtain incoming d1 where n1: "normalizeIncomingMessageId (rp_incomingMessageId inp) d = (Inr incoming, d1)"
    and body1: "reply_or_note env i inp s a incoming d1 = (Inr (RepliedPost p), d')"
    unfolding reply_def by (auto simp only: run_bnd)
  have "d1 = d" using n1 by (simp add: run_normalize)
  with n1 body1 have n: "normalizeIncomingMessageId (rp_incomingMessageId inp) d = (Inr incoming, d)"
    and body: "reply_or_note env i inp s a incoming d = (Inr (RepliedPost p), d')" by simp_all
  from body have not_note: "\<not> rp_isNote inp" by (auto simp: reply_or_note_def run_rules split: if_splits)
  obtain u d1 z d2 where first: "(case a of None \<Rightarrow> ret () | Some _ \<Rightarrow> sq (findAccessibleOrThrow i a) (ret ())) d = (Inr u, d1)"
    and dup1: "duplicate_reply i a incoming d1 = (Inr z, d2)"
    and rest1: "(case z of Some p \<Rightarrow> ret (RepliedPost p) | None \<Rightarrow> bnd (findAccessibleOrThrow i a) (answer_ticket env inp s a incoming)) d2
       = (Inr (RepliedPost p), d')"
    using body not_note unfolding reply_or_note_def if_not_P [OF not_note] run_bnd run_sq by blast
  have "d1 = d" using first by (auto simp: run_rules run_find split: option.splits)
  moreover have "d2 = d1" using run_duplicate [OF dup1] by simp
  ultimately have dup: "duplicate_reply i a incoming d = (Inr z, d)"
    and rest: "(case z of Some p \<Rightarrow> ret (RepliedPost p) | None \<Rightarrow> bnd (findAccessibleOrThrow i a) (answer_ticket env inp s a incoming)) d
       = (Inr (RepliedPost p), d')"
    using dup1 rest1 by simp_all
  show ?thesis
  proof (cases z)
    case (Some q)
    with run_duplicate [OF dup] obtain m where "incoming = Some m" "findPostByInboundMessageId m d = Some q" by auto
    with Some rest n show ?thesis by (intro Duplicate [of m]) (auto simp: ret_def)
  next
    case None
    with rest n not_note show ?thesis by (auto simp: run_bnd run_find intro: Answered)
  qed
qed

lemma reply_stored:
  assumes "reply env i inp s a d = (Inr (RepliedPost p), d')" "normalizeIncomingMessageId (rp_incomingMessageId inp) d = (Inr (Some m), d)"
  shows "findPostByInboundMessageId m d' = Some p"
proof (rule reply_run [OF assms(1)])
  fix k assume "normalizeIncomingMessageId (rp_incomingMessageId inp) d = (Inr (Some k), d)" "d' = d"
    "findPostByInboundMessageId k d = Some p"
  with assms(2) show ?thesis by simp
next
  fix t incoming assume "normalizeIncomingMessageId (rp_incomingMessageId inp) d = (Inr incoming, d)"
    and ans: "answer_ticket env inp s a incoming t d = (Inr (RepliedPost p), d')"
  with assms(2) have inc: "incoming = Some m" by simp
  from answer_run [OF ans] obtain author draft reopen where
    "commit_reply env t inp s a author (Some m) draft reopen d = (Inr p, d')" by (auto simp: inc)
  from commit_reply_cases [OF this] show ?thesis
  proof (elim disjE exE conjE)
    fix q assume "Inr p = Inr q" and body: "reply_body env t inp s a author (Some m) draft reopen d = (Inr q, d')"
    with reply_body_run [OF body] show ?thesis
      by (intro findPost_append [of "posts d"]) (auto simp: reply_post_def)
  qed (auto simp: eq_commute)
qed

text \<open>
  C21: An inbound mail is recorded once, however often and in whatever form it is delivered again.
  After a reply that carried a Message-ID was recorded, any later delivery of the same Message-ID, to
  whatever ticket, with whatever text and at whatever time, returns the recorded post and changes
  nothing.
\<close>

theorem inbound_reply_once:
  assumes "reply env i inp s None d = (Inr (RepliedPost p), d')"
    and "rp_incomingMessageId inp = Some m" "trim m \<noteq> ''''"
    and "rp_incomingMessageId inp2 = Some m" "\<not> rp_isNote inp2"
  shows "reply env2 j inp2 s2 None d' = (Inr (RepliedPost p), d')"
proof -
  obtain k where n: "normalizeIncomingMessageId (rp_incomingMessageId inp) d = (Inr k, d)"
    using reply_run [OF assms(1)] by metis
  then have k: "k = Some (trim m)" "parseMessageId (Some (trim m)) 998 \<noteq> None"
    using assms(2,3) by (auto simp: run_normalize Let_def)
  from reply_stored [OF assms(1) n [unfolded k]] have f: "findPostByInboundMessageId (trim m) d' = Some p" .
  have "normalizeIncomingMessageId (rp_incomingMessageId inp2) d' = (Inr (Some (trim m)), d')"
    using assms(3,4) k(2) by (simp add: run_normalize Let_def)
  moreover have "duplicate_reply j None (Some (trim m)) d' = (Inr (Some p), d')"
    using f by (simp add: duplicate_reply_def act_defs)
  ultimately show ?thesis
    using assms(5) by (simp add: reply_def reply_or_note_def bnd_def sq_def ret_def)
qed

lemma normalize_state: "normalizeIncomingMessageId z d = (r, d') \<Longrightarrow> d' = d"
  by (auto simp: normalizeIncomingMessageId_def Let_def act_defs split: if_splits)

lemma duplicate_state: "duplicate_reply i a incoming d = (r, d') \<Longrightarrow> d' = d"
  by (auto simp: duplicate_reply_def act_defs split: option.splits if_splits)

lemma find_stateD: "findAccessibleOrThrow i a d = (r, d') \<Longrightarrow> d' = d"
  using find_state [of i a d] by simp

lemma bnd_Inl: "bnd m f d = (Inl e, d') \<Longrightarrow> m d = (Inl e, d') \<or> (\<exists>x d1. m d = (Inr x, d1) \<and> f x d1 = (Inl e, d'))"
  by (auto simp: bnd_def split: prod.splits sum.splits)

lemma sq_Inl: "sq m n d = (Inl e, d') \<Longrightarrow> m d = (Inl e, d') \<or> (\<exists>x d1. m d = (Inr x, d1) \<and> n d1 = (Inl e, d'))"
  by (auto simp: sq_def dest: bnd_Inl)

lemma answer_Inl:
  assumes "answer_ticket env inp s a incoming t d = (Inl e, d')"
  shows "d' = d"
proof -
  let ?draft = "if is_staff_reply s \<and> t_requesterEmail t \<noteq> '''' \<and> incoming = None
        then bnd (prepareStaffReplyOutboxDraft env t inp (case s of None \<Rightarrow> 0 | Some k \<Rightarrow> k)) (\<lambda>ob. ret (Some ob))
        else ret None"
  have dr: "?draft d = (r, d1) \<Longrightarrow> d1 = d" for r d1
    by (auto simp: bnd_def ret_def split: if_splits prod.splits sum.splits dest: run_prepare)
  have co: "commit_reply env t inp s a author incoming draft reopen d = (Inl e, d') \<Longrightarrow> d' = d" for author draft reopen
    using commit_reply_cases by blast
  have rq: "require b x d = (r, d1) \<Longrightarrow> d1 = d" for b x d1 and r :: "error + unit"
    by (auto simp: require_def ret_def throw_def split: if_splits)
  from assms show ?thesis
    unfolding answer_ticket_def
    by (auto dest!: bnd_Inl sq_Inl rq dr reopen_state co simp: run_rules reads_def ret_def)
qed

lemma reply_Inl:
  assumes "reply env i inp s a d = (Inl e, d')" "\<not> rp_isNote inp"
  shows "d' = d"
proof -
  have scope: "sq (findAccessibleOrThrow i x) (ret ()) d = (r, d1) \<Longrightarrow> d1 = d" for x r d1
    by (auto simp: sq_def bnd_def ret_def split: prod.splits sum.splits dest: find_stateD)
  from assms show ?thesis
    unfolding reply_def reply_or_note_def if_not_P [OF assms(2)]
    by (auto dest!: bnd_Inl sq_Inl normalize_state scope duplicate_state find_stateD answer_Inl simp: ret_def split: option.splits)
qed

lemma prepared_row:
  assumes "prepareStaffReplyOutboxDraft env t inp k d = (Inr ob, d')"
  shows "o_ticketId ob = Some (t_id t) \<and> o_kind ob = StaffReply \<and> o_state ob = Queued \<and> o_attempts ob = 0 \<and>
    (\<exists>stored. normalizeOutboundRecipients (t_requesterEmail t) (rp_ccEmails inp) (rp_bccEmails inp) stored = Inr (o_recipients ob))"
  using assms unfolding prepareStaffReplyOutboxDraft_def of_sum_def Let_def case_prod_beta
  by (auto simp: run_rules new_outbound_def split: sum.splits)

text \<open>
  C20: A staff reply and its mail commit together or not at all. A reply that fails leaves no trace.
  One that succeeds adds exactly one post and exactly one outbox row: the row is queued, refers to
  that post and ticket, carries the post's Message-ID, and goes to the requester and the copies the
  recipient rule allows; the post is not marked as emailed yet.
\<close>

theorem staff_reply_atomic:
  assumes "reply env i inp s a d = (r, d')" "is_staff_reply s" "\<not> rp_isNote inp" "rp_incomingMessageId inp = None"
  shows "case r of Inl e \<Rightarrow> d' = d
    | Inr (AddedNote n) \<Rightarrow> False
    | Inr (RepliedPost p) \<Rightarrow> (\<exists>t ob stored. findAccessibleOrThrow i a d = (Inr t, d) \<and>
        posts d' = posts d @ [p] \<and> outbox d' = outbox d @ [ob] \<and>
        o_postId ob = Some (p_id p) \<and> o_ticketId ob = Some (t_id t) \<and> o_state ob = Queued \<and> p_messageId p = Some (o_messageId ob) \<and>
        normalizeOutboundRecipients (t_requesterEmail t) (rp_ccEmails inp) (rp_bccEmails inp) stored = Inr (o_recipients ob) \<and>
        p_ticketId p = t_id t \<and> p_authorType p = ByStaff \<and> p_staffId p = s \<and> \<not> p_isEmailed p)"
proof (cases r)
  case (Inl e)
  with assms reply_Inl show ?thesis by fastforce
next
  case (Inr q)
  show ?thesis
  proof (cases q)
    case (AddedNote n)
    with assms Inr have False
      unfolding reply_def reply_or_note_def if_not_P [OF assms(3)]
      by (auto simp: run_rules split: option.splits dest!: answer_run)
    then show ?thesis ..
  next
    case (RepliedPost p)
    note run = assms(1) [unfolded Inr RepliedPost]
    show ?thesis
    proof (rule reply_run [OF run])
      fix k assume "normalizeIncomingMessageId (rp_incomingMessageId inp) d = (Inr (Some k), d)"
      with assms(4) show ?thesis by (simp add: run_normalize)
    next
      fix t incoming assume n: "normalizeIncomingMessageId (rp_incomingMessageId inp) d = (Inr incoming, d)"
        and t: "findAccessibleOrThrow i a d = (Inr t, d)" and ans: "answer_ticket env inp s a incoming t d = (Inr (RepliedPost p), d')"
      from n assms(4) have inc: "incoming = None" by (simp add: run_normalize)
      from answer_run [OF ans] obtain author draft reopen where
        dr: "(if is_staff_reply s \<and> t_requesterEmail t \<noteq> '''' \<and> incoming = None
          then bnd (prepareStaffReplyOutboxDraft env t inp (case s of None \<Rightarrow> 0 | Some k \<Rightarrow> k)) (\<lambda>ob. ret (Some ob))
          else ret None) d = (Inr draft, d)"
        and mail: "\<not> (is_staff_reply s \<and> incoming = None \<and> trim (t_requesterEmail t) = '''')"
        and co: "commit_reply env t inp s a author incoming draft reopen d = (Inr p, d')" by auto
      have "t_requesterEmail t \<noteq> ''''" using mail assms(2) inc by (auto simp: trim_def trim_by_def)
      with dr assms(2) inc obtain ob where ob: "draft = Some ob" "prepareStaffReplyOutboxDraft env t inp (case s of None \<Rightarrow> 0 | Some k \<Rightarrow> k) d = (Inr ob, d)"
        by (auto simp: run_rules dest: run_prepare)
      from commit_reply_cases [OF co] inc have body: "reply_body env t inp s a author None (Some ob) reopen d = (Inr p, d')"
        using ob(1) by auto
      from reply_body_run [OF body] prepared_row [OF ob(2)] assms(2) t Inr RepliedPost show ?thesis
        by (auto simp: reply_post_def)
    qed
  qed
qed

definition inbound_input :: "string \<Rightarrow> reply_input" where
  "inbound_input contents = \<lparr>rp_contents = contents, rp_isHtml = False, rp_isNote = False, rp_isEmailed = True, rp_isThirdParty = False,
     rp_attachmentIds = [], rp_ccEmails = [], rp_bccEmails = [], rp_creationMode = Some ModeEmail, rp_incomingMessageId = Some ''<a@b>''\<rparr>"

theorem inbound_reply_once_witness:
  "\<exists>p d'. reply sample_env 2 (inbound_input ''Hi'') None None portal_db = (Inr (RepliedPost p), d') \<and>
     reply sample_env 3 (inbound_input ''Other'') (Some 7) None d' = (Inr (RepliedPost p), d')"
proof -
  have "case fst (reply sample_env 2 (inbound_input ''Hi'') None None portal_db) of Inr (RepliedPost p) \<Rightarrow> True | _ \<Rightarrow> False"
    by code_simp
  then obtain p d' where run: "reply sample_env 2 (inbound_input ''Hi'') None None portal_db = (Inr (RepliedPost p), d')"
    by (cases "reply sample_env 2 (inbound_input ''Hi'') None None portal_db") (auto split: sum.splits reply_result.splits)
  have "trim ''<a@b>'' \<noteq> ''''" by code_simp
  with inbound_reply_once [OF run, of "''<a@b>''" "inbound_input ''Other''" sample_env 3 "Some 7"] run show ?thesis
    by (auto simp: inbound_input_def)
qed

definition staff_input :: reply_input where
  "staff_input = \<lparr>rp_contents = ''Fixed'', rp_isHtml = False, rp_isNote = False, rp_isEmailed = False, rp_isThirdParty = False,
     rp_attachmentIds = [], rp_ccEmails = [], rp_bccEmails = [''boss@b.c''], rp_creationMode = None, rp_incomingMessageId = None\<rparr>"

definition reply_db :: db where
  "reply_db = portal_db\<lparr>templates := [\<lparr>tp_key = ''ticket_user_reply'', tp_locale = ''en'', tp_subject = ''Re'', tp_html = ''{{contents}}'',
     tp_text = ''{{contents}}''\<rparr>]\<rparr>"

theorem staff_reply_atomic_witness:
  "\<exists>p ob d'. reply sample_env 2 staff_input (Some 7) None reply_db = (Inr (RepliedPost p), d') \<and> outbox d' = [ob] \<and>
     o_postId ob = Some (p_id p) \<and> o_state ob = Queued"
proof -
  have "case fst (reply sample_env 2 staff_input (Some 7) None reply_db) of Inr (RepliedPost p) \<Rightarrow> True | _ \<Rightarrow> False"
    by code_simp
  then obtain p d' where run: "reply sample_env 2 staff_input (Some 7) None reply_db = (Inr (RepliedPost p), d')"
    by (cases "reply sample_env 2 staff_input (Some 7) None reply_db") (auto split: sum.splits reply_result.splits)
  have none: "outbox reply_db = []" by (simp add: reply_db_def portal_db_def merge_db_def empty_db_def)
  from staff_reply_atomic [OF run] run none show ?thesis
    by (auto simp: staff_input_def is_staff_reply_def)
qed

end
