(* ===== verification/FieldEncrypt.thy ===== *)
theory FieldEncrypt
  imports Schema "HOL-Library.Word"
begin

text \<open>
  Custom fields: type checks and encryption at rest (\<open>common/field-encrypt.util.ts\<close>,
  \<open>admin/admin.service.ts\<close>). The authenticated cipher of \<open>node:crypto\<close> is a parameter.
\<close>

section \<open>Bytes as hexadecimal text\<close>

type_synonym bytes = "8 word list"

definition hex_char :: "nat \<Rightarrow> char" where
  "hex_char n = (if n < 10 then char_of (48 + n) else char_of (87 + n))"

definition hex_value :: "char \<Rightarrow> nat option" where
  "hex_value c =
     (let n = code_of c in
      if 48 \<le> n \<and> n \<le> 57 then Some (n - 48)
      else if 97 \<le> n \<and> n \<le> 102 then Some (n - 87)
      else if 65 \<le> n \<and> n \<le> 70 then Some (n - 55) else None)"

definition to_hex :: "bytes \<Rightarrow> string" where
  "to_hex bs = concat (map (\<lambda>b. [hex_char (unat b div 16), hex_char (unat b mod 16)]) bs)"

text \<open>\<open>Buffer.from(s, 'hex')\<close> stops at the first pair that is not two hexadecimal digits.\<close>

fun from_hex :: "string \<Rightarrow> bytes" where
  "from_hex (a # b # s) =
     (case (hex_value a, hex_value b) of
        (Some x, Some y) \<Rightarrow> word_of_nat (16 * x + y) # from_hex s
      | _ \<Rightarrow> [])"
| "from_hex _ = []"

section \<open>Field encryption\<close>

text \<open>AES-256-GCM: \<open>seal key iv plain\<close> gives the tag and the ciphertext; \<open>unseal\<close> checks the tag.\<close>

record cipher =
  ci_seal :: "bytes \<Rightarrow> bytes \<Rightarrow> string \<Rightarrow> bytes \<times> bytes"
  ci_unseal :: "bytes \<Rightarrow> bytes \<Rightarrow> bytes \<Rightarrow> bytes \<Rightarrow> string option"

definition IV_BYTES :: nat where
  "IV_BYTES = 12"

definition TAG_BYTES :: nat where
  "TAG_BYTES = 16"

definition V1_PREFIX :: string where
  "V1_PREFIX = ''v1:''"

definition resolveKey :: "string option \<Rightarrow> bytes option" where
  "resolveKey hexKey =
     (case hexKey of None \<Rightarrow> None
      | Some k \<Rightarrow> if k = '''' then None else if length k \<noteq> 64 then None else Some (from_hex k))"

definition encryptField :: "cipher \<Rightarrow> bytes \<Rightarrow> string option \<Rightarrow> string \<Rightarrow> string" where
  "encryptField ci iv hexKey value =
     (if starts_with value V1_PREFIX then value
      else case resolveKey hexKey of
             None \<Rightarrow> value
           | Some key \<Rightarrow>
               (let (tag, ct) = ci_seal ci key iv value
                in V1_PREFIX @ to_hex iv @ '':'' @ to_hex tag @ '':'' @ to_hex ct))"

fun split_colon :: "string \<Rightarrow> string list" where
  "split_colon [] = [[]]"
| "split_colon (c # s) =
     (if c = CHR '':'' then [] # split_colon s
      else case split_colon s of [] \<Rightarrow> [[c]] | p # ps \<Rightarrow> (c # p) # ps)"

definition decryptField :: "cipher \<Rightarrow> string option \<Rightarrow> string \<Rightarrow> error + string" where
  "decryptField ci hexKey value =
     (if \<not> starts_with value V1_PREFIX then Inr value
      else case resolveKey hexKey of
             None \<Rightarrow> Inl (Failure ''Cannot decrypt field: TELECOM_HD_FIELD_ENCRYPTION_KEY is not configured'')
           | Some key \<Rightarrow>
               (case split_colon (drop (length V1_PREFIX) value) of
                  [ivHex, tagHex, ctHex] \<Rightarrow>
                    (let iv = from_hex ivHex; tag = from_hex tagHex; ct = from_hex ctHex in
                     if length iv \<noteq> IV_BYTES then Inl (Failure ''Invalid IV length in encrypted field'')
                     else if length tag \<noteq> TAG_BYTES then Inl (Failure ''Invalid auth tag length in encrypted field'')
                     else case ci_unseal ci key iv tag ct of
                            None \<Rightarrow> Inl (Failure ''Unsupported state or unable to authenticate data'')
                          | Some s \<Rightarrow> Inr s)
                | _ \<Rightarrow> Inl (Failure ''Malformed encrypted field: expected v1:<iv>:<tag>:<ct>'')))"

section \<open>Custom fields\<close>

text \<open>\<open>date_ok\<close> tells whether \<open>Date.parse\<close> gives a number. Strings are numbers when \<open>Number\<close> says so.\<close>

definition checkType :: "(string \<Rightarrow> bool) \<Rightarrow> field_type \<Rightarrow> js \<Rightarrow> bool" where
  "checkType date_ok ty v =
     (case ty of
        CHECKBOX \<Rightarrow> (case v of JBool b \<Rightarrow> True | _ \<Rightarrow> False)
      | DATE \<Rightarrow> (case v of JStr s \<Rightarrow> date_ok s | _ \<Rightarrow> False)
      | MULTISELECT \<Rightarrow> (case v of JArr xs \<Rightarrow> True | _ \<Rightarrow> False)
      | NUMBER \<Rightarrow> (case v of JNum r \<Rightarrow> True | JStr s \<Rightarrow> trim s \<noteq> '''' \<and> string_number s \<noteq> NaN | _ \<Rightarrow> False)
      | _ \<Rightarrow> (case v of JStr s \<Rightarrow> True | JNum r \<Rightarrow> True | _ \<Rightarrow> False))"

text \<open>The values as an association list of own properties.\<close>

type_synonym field_values = "(string \<times> js) list"

definition quoted :: "string \<Rightarrow> string" where
  "quoted s = [CHR 0x22] @ s @ [CHR 0x22]"

fun field_type_str :: "field_type \<Rightarrow> string" where
  "field_type_str CHECKBOX = ''CHECKBOX''"
| "field_type_str DATE = ''DATE''"
| "field_type_str MULTISELECT = ''MULTISELECT''"
| "field_type_str NUMBER = ''NUMBER''"
| "field_type_str TEXT = ''TEXT''"
| "field_type_str TEXTAREA = ''TEXTAREA''"
| "field_type_str PASSWORD = ''PASSWORD''"
| "field_type_str RADIO = ''RADIO''"
| "field_type_str SELECT = ''SELECT''"
| "field_type_str FILE = ''FILE''"
| "field_type_str CUSTOM = ''CUSTOM''"

definition check_field :: "(string \<Rightarrow> bool) \<Rightarrow> field_values \<Rightarrow> custom_field \<Rightarrow> error option" where
  "check_field date_ok values f =
     (let z = map_of values (cf_fieldKey f) in
      if cf_isRequired f \<and> (z = None \<or> z = Some JNull \<or> z = Some (JStr '''') \<or> z = Some JUndef)
      then Some (BadRequest (''Custom field '' @ quoted (cf_fieldKey f) @ '' is required''))
      else case z of
             None \<Rightarrow> None
           | Some v \<Rightarrow> if js_is_nullish v \<or> checkType date_ok (cf_type f) v then None
                        else Some (BadRequest (''Custom field '' @ quoted (cf_fieldKey f) @ '' has invalid type (expected '' @ field_type_str (cf_type f) @ '')'')))"

fun validateCustomFields :: "(string \<Rightarrow> bool) \<Rightarrow> custom_field list \<Rightarrow> field_values \<Rightarrow> error + unit" where
  "validateCustomFields date_ok [] values = Inr ()"
| "validateCustomFields date_ok (f # fs) values =
     (case check_field date_ok values f of Some e \<Rightarrow> Inl e | None \<Rightarrow> validateCustomFields date_ok fs values)"

definition encrypted_keys :: "custom_field list \<Rightarrow> string list" where
  "encrypted_keys defs = map cf_fieldKey (filter cf_isEncrypted defs)"

definition encrypt_value :: "(string \<Rightarrow> string) \<Rightarrow> js \<Rightarrow> js" where
  "encrypt_value enc v = (case v of JStr s \<Rightarrow> if s \<noteq> '''' then JStr (enc s) else v | _ \<Rightarrow> v)"

text \<open>The loop over the encrypted fields; each assignment replaces one own property in place.\<close>

definition encryptCustomFields :: "(string \<Rightarrow> string) \<Rightarrow> custom_field list \<Rightarrow> field_values \<Rightarrow> field_values" where
  "encryptCustomFields enc defs values =
     fold (\<lambda>k. map (\<lambda>(k', v). if k' = k then (k', encrypt_value enc v) else (k', v))) (encrypted_keys defs) values"

fun decrypt_keys :: "(string \<Rightarrow> error + string) \<Rightarrow> string list \<Rightarrow> field_values \<Rightarrow> error + field_values" where
  "decrypt_keys dec [] values = Inr values"
| "decrypt_keys dec (k # ks) values =
     (case map_of values k of
        Some (JStr s) \<Rightarrow>
          if s = '''' then decrypt_keys dec ks values
          else (case dec s of
                  Inl e \<Rightarrow> Inl e
                | Inr x \<Rightarrow> decrypt_keys dec ks (map (\<lambda>(k', v). if k' = k then (k', JStr x) else (k', v)) values))
      | _ \<Rightarrow> decrypt_keys dec ks values)"

definition decryptCustomFields :: "(string \<Rightarrow> error + string) \<Rightarrow> custom_field list \<Rightarrow> field_values \<Rightarrow> error + field_values" where
  "decryptCustomFields dec defs values = decrypt_keys dec (encrypted_keys defs) values"

text \<open>The batch for a page of the list: the first row that throws fails the page.\<close>

fun decryptCustomFieldsMany :: "(string \<Rightarrow> error + string) \<Rightarrow> custom_field list \<Rightarrow> field_values list \<Rightarrow> error + field_values list" where
  "decryptCustomFieldsMany dec defs [] = Inr []"
| "decryptCustomFieldsMany dec defs (row # rows) =
     (case decryptCustomFields dec defs row of
        Inl e \<Rightarrow> Inl e
      | Inr x \<Rightarrow> (case decryptCustomFieldsMany dec defs rows of Inl e \<Rightarrow> Inl e | Inr xs \<Rightarrow> Inr (x # xs)))"

section \<open>Facts\<close>

lemma hex_value_char [simp]: "n < 16 \<Longrightarrow> hex_value (hex_char n) = Some n"
  by (auto simp: hex_value_def hex_char_def Let_def code_of_def)

lemma hex_char_not_colon [simp]: "n < 16 \<Longrightarrow> hex_char n \<noteq> CHR '':''"
proof -
  assume "n < 16"
  then have "hex_value (hex_char n) = Some n" by simp
  moreover have "hex_value (CHR '':'') = None" by (simp add: hex_value_def code_of_def)
  ultimately show ?thesis by auto
qed

lemma byte_digits: "unat (b :: 8 word) div 16 < 16" "unat b mod 16 < 16"
proof -
  have "unat b < 256" using unsigned_less [of b] by simp
  then show "unat b div 16 < 16" by simp
  show "unat b mod 16 < 16" by simp
qed

lemma to_hex_simps [simp]: "to_hex [] = []" "to_hex (b # bs) = hex_char (unat b div 16) # hex_char (unat b mod 16) # to_hex bs"
  by (simp_all add: to_hex_def)

lemma from_to_hex [simp]: "from_hex (to_hex bs) = bs"
proof (induction bs)
  case (Cons b bs)
  have "16 * (unat b div 16) + unat b mod 16 = unat b" by presburger
  then have "word_of_nat (16 * (unat b div 16) + unat b mod 16) = b" by simp
  with Cons byte_digits [of b] show ?case by simp
qed simp

lemma to_hex_no_colon: "CHR '':'' \<notin> set (to_hex bs)"
proof (induction bs)
  case (Cons b bs)
  have "CHR '':'' \<noteq> hex_char (unat b div 16)" "CHR '':'' \<noteq> hex_char (unat b mod 16)"
    using byte_digits [of b] hex_char_not_colon by metis+
  with Cons show ?case by simp
qed simp

lemma split_colon_append: "CHR '':'' \<notin> set a \<Longrightarrow> split_colon (a @ CHR '':'' # b) = a # split_colon b"
  by (induction a) auto

lemma split_colon_single: "CHR '':'' \<notin> set a \<Longrightarrow> split_colon a = [a]"
  by (induction a) auto

lemma starts_with_append [simp]: "starts_with (p @ s) p"
  by (auto simp: starts_with_iff)

text \<open>What the code relies on of the cipher.\<close>

definition cipher_ok :: "cipher \<Rightarrow> bool" where
  "cipher_ok ci \<longleftrightarrow> (\<forall>k iv s. length (fst (ci_seal ci k iv s)) = TAG_BYTES \<and>
     ci_unseal ci k iv (fst (ci_seal ci k iv s)) (snd (ci_seal ci k iv s)) = Some s)"

lemma decrypt_encrypt:
  assumes "cipher_ok ci" "length iv = IV_BYTES" "\<not> starts_with v V1_PREFIX"
  shows "decryptField ci k (encryptField ci iv k v) = Inr v"
proof (cases "resolveKey k")
  case None
  with assms(3) show ?thesis by (simp add: decryptField_def encryptField_def)
next
  case (Some key)
  obtain tag ct where sealed: "ci_seal ci key iv v = (tag, ct)" by fastforce
  have fact: "length tag = TAG_BYTES" "ci_unseal ci key iv tag ct = Some v"
    using assms(1) sealed unfolding cipher_ok_def by (metis fst_conv, metis fst_conv snd_conv)
  have enc: "encryptField ci iv k v = V1_PREFIX @ to_hex iv @ '':'' @ to_hex tag @ '':'' @ to_hex ct"
    using assms(3) Some sealed by (simp add: encryptField_def)
  have parts: "split_colon (to_hex iv @ '':'' @ to_hex tag @ '':'' @ to_hex ct) = [to_hex iv, to_hex tag, to_hex ct]"
    using to_hex_no_colon [of iv] to_hex_no_colon [of tag] to_hex_no_colon [of ct]
    by (simp add: split_colon_append split_colon_single)
  have drop: "drop (length V1_PREFIX) (encryptField ci iv k v) = to_hex iv @ '':'' @ to_hex tag @ '':'' @ to_hex ct"
    unfolding enc by simp
  show ?thesis
    unfolding decryptField_def drop parts using Some assms(2) fact enc by simp
qed

lemma encrypt_prefixed: "starts_with v V1_PREFIX \<Longrightarrow> encryptField ci iv k v = v"
  by (simp add: encryptField_def)

lemma decrypt_legacy: "\<not> starts_with v V1_PREFIX \<Longrightarrow> decryptField ci k v = Inr v"
  by (simp add: decryptField_def)

lemma decrypt_malformed: "CHR '':'' \<notin> set x \<Longrightarrow> \<exists>e. decryptField ci k (V1_PREFIX @ x) = Inl e"
  by (auto simp: decryptField_def split_colon_single split: option.splits)

section \<open>Round trip of the custom fields\<close>

text \<open>The values with the filled strings of some keys replaced.\<close>

definition sealed_values :: "(string \<Rightarrow> string) \<Rightarrow> string set \<Rightarrow> field_values \<Rightarrow> field_values" where
  "sealed_values enc ks values = map (\<lambda>(k', v). (k', if k' \<in> ks then encrypt_value enc v else v)) values"

lemma sealed_values_empty: "sealed_values enc {} values = values"
  by (simp add: sealed_values_def case_prod_beta)

lemma encrypt_fields_eq:
  assumes "\<And>s. enc (enc s) = enc s" "\<And>s. enc s = '''' \<Longrightarrow> s = ''''"
  shows "encryptCustomFields enc defs values = sealed_values enc (set (encrypted_keys defs)) values"
proof -
  have twice: "encrypt_value enc (encrypt_value enc v) = encrypt_value enc v" for v
    using assms by (cases v) (auto simp: encrypt_value_def)
  have "fold (\<lambda>k. map (\<lambda>(k', v). if k' = k then (k', encrypt_value enc v) else (k', v))) ks (sealed_values enc S values)
      = sealed_values enc (set ks \<union> S) values" for ks S
  proof (induction ks arbitrary: S)
    case (Cons k ks)
    have "map (\<lambda>(k', v). if k' = k then (k', encrypt_value enc v) else (k', v)) (sealed_values enc S values)
        = sealed_values enc (insert k S) values"
      by (auto simp: sealed_values_def twice)
    with Cons [of "insert k S"] show ?case by simp
  qed simp
  from this [of "encrypted_keys defs" "{}"] show ?thesis
    by (simp add: encryptCustomFields_def sealed_values_empty)
qed

lemma map_of_sealed: "map_of (sealed_values enc S values) k = map_option (\<lambda>v. if k \<in> S then encrypt_value enc v else v) (map_of values k)"
  by (induction "values") (auto simp: sealed_values_def)

lemma decrypt_sealed:
  assumes "distinct (map fst values)" "\<And>s. enc s = '''' \<Longrightarrow> s = ''''"
    and "\<And>k s. (k, JStr s) \<in> set values \<Longrightarrow> dec (enc s) = Inr s \<and> dec s = Inr s"
  shows "decrypt_keys dec ks (sealed_values enc S values) = Inr (sealed_values enc (S - set ks) values)"
proof (induction ks arbitrary: S)
  case (Cons k ks)
  let ?v = "sealed_values enc S values"
  have other: "S - set (k # ks) = S - {k} - set ks" by auto
  have same: "sealed_values enc (S - {k}) values = ?v" if "\<And>v. (k, v) \<in> set values \<Longrightarrow> encrypt_value enc v = v"
    using that by (auto simp: sealed_values_def)
  show ?case
  proof (cases "map_of values k")
    case None
    then have "sealed_values enc (S - {k}) values = ?v"
      by (intro same) (auto simp: map_of_eq_None_iff image_iff)
    with None Cons [of "S - {k}"] other show ?thesis by (simp add: map_of_sealed)
  next
    case (Some v)
    then have single: "(k, w) \<in> set values \<Longrightarrow> w = v" for w
      using assms(1) by (metis map_of_eq_Some_iff option.inject)
    have mem: "(k, v) \<in> set values" using Some by (rule map_of_SomeD)
    show ?thesis
    proof (cases "\<exists>s. v = JStr s \<and> s \<noteq> ''''")
      case False
      then have id: "encrypt_value enc v = v" by (cases v) (auto simp: encrypt_value_def)
      then have "sealed_values enc (S - {k}) values = ?v" using single by (intro same) auto
      with False id Some Cons [of "S - {k}"] other show ?thesis
        by (cases v) (auto simp: map_of_sealed)
    next
      case True
      then obtain s where s: "v = JStr s" "s \<noteq> ''''" by blast
      from assms(3) mem s have dec: "dec (enc s) = Inr s" "dec s = Inr s" by auto
      let ?x = "if k \<in> S then enc s else s"
      have x: "map_of ?v k = Some (JStr ?x)" "?x \<noteq> ''''" "dec ?x = Inr s"
        using Some s dec assms(2) by (auto simp: map_of_sealed encrypt_value_def)
      have "map (\<lambda>(k', v). if k' = k then (k', JStr s) else (k', v)) ?v = sealed_values enc (S - {k}) values"
        using single s(1) by (auto simp: sealed_values_def)
      with x Cons [of "S - {k}"] other show ?thesis by simp
    qed
  qed
qed simp


text \<open>A cipher with an all-zero tag and the identity on code points; a schema with one encrypted field.\<close>

definition plain_cipher :: cipher where
  "plain_cipher = \<lparr>ci_seal = (\<lambda>k iv s. (replicate 16 0, map (\<lambda>c. word_of_nat (of_char c)) s)),
     ci_unseal = (\<lambda>k iv tag ct. if tag = replicate 16 0 then Some (map (\<lambda>b. char_of (unat b)) ct) else None)\<rparr>"

definition account_field :: custom_field where
  "account_field = \<lparr>cf_fieldKey = ''account'', cf_type = TEXT, cf_isRequired = False, cf_isEncrypted = True\<rparr>"

lemma plain_cipher_ok: "cipher_ok plain_cipher"
proof -
  have "char_of (unat (word_of_nat (of_char c) :: 8 word)) = c" for c :: char
  proof -
    have "of_char c < (256 :: nat)" by (rule nat_of_char_less_256)
    then have "unat (word_of_nat (of_char c) :: 8 word) = of_char c" by (simp add: unat_of_nat take_bit_eq_mod)
    then show ?thesis by simp
  qed
  then show ?thesis by (simp add: cipher_ok_def plain_cipher_def TAG_BYTES_def comp_def)
qed


section \<open>A value that looks encrypted\<close>

lemma decrypt_keys_poisoned:
  assumes "k \<in> set ks" "map_of values k = Some (JStr p)" "p \<noteq> ''''" "\<exists>e. dec p = Inl e"
  shows "\<exists>e. decrypt_keys dec ks values = Inl e"
  using assms(1,2)
proof (induction ks arbitrary: "values")
  case (Cons k' ks)
  show ?case
  proof (cases "k' = k")
    case True
    with Cons.prems(2) assms(3,4) show ?thesis by auto
  next
    case False
    then have k: "k \<in> set ks" using Cons.prems(1) by auto
    have keep: "map_of (map (\<lambda>(k'', v). if k'' = k' then (k'', x) else (k'', v)) values) k = map_of values k" for x
      using False by (induction "values") auto
    show ?thesis
      using Cons.IH [OF k] Cons.prems(2) keep by (auto split: option.split js.split sum.split)
  qed
qed simp

lemma many_poisoned: "row \<in> set rows \<Longrightarrow> \<exists>e. decryptCustomFields dec defs row = Inl e \<Longrightarrow> \<exists>e. decryptCustomFieldsMany dec defs rows = Inl e"
  by (induction rows) (auto split: sum.split)

text \<open>
  A value that merely looks encrypted breaks every read. If the value written to an encrypted
  field is the version prefix followed by a text without colons, it passes the type check of a text
  field and is stored as it is, and from then on decrypting the row, and any page of a list that
  contains the row, fails with an exception, whatever the key. The anonymous portal form accepts
  such a value.
\<close>

theorem lookalike_breaks_reads:
  assumes "f \<in> set defs" "cf_isEncrypted f" "CHR '':'' \<notin> set x" "map_of values (cf_fieldKey f) = Some (JStr (V1_PREFIX @ x))"
    and "row = encryptCustomFields (encryptField ci iv key) defs values" "row \<in> set page"
  shows "(\<exists>e. decryptCustomFields (decryptField ci key) defs row = Inl e) \<and>
    (\<exists>e. decryptCustomFieldsMany (decryptField ci key) defs page = Inl e)"
proof -
  let ?k = "cf_fieldKey f" and ?p = "V1_PREFIX @ x"
  have stay: "encrypt_value (encryptField ci iv key) (JStr ?p) = JStr ?p"
    by (simp add: encrypt_value_def encrypt_prefixed)
  have "map_of (fold (\<lambda>k. map (\<lambda>(k', v). if k' = k then (k', encrypt_value (encryptField ci iv key) v) else (k', v))) ks vs) ?k = Some (JStr ?p)"
    if "map_of vs ?k = Some (JStr ?p)" for ks vs
    using that
  proof (induction ks arbitrary: vs)
    case (Cons k ks)
    have "map_of (map (\<lambda>(k', v). if k' = k then (k', encrypt_value (encryptField ci iv key) v) else (k', v)) ws) ?k = Some (JStr ?p)"
      if "map_of ws ?k = Some (JStr ?p)" for ws
      using that stay by (induction ws) (auto split: if_splits)
    with Cons show ?case by simp
  qed simp
  then have "map_of row ?k = Some (JStr ?p)"
    using assms(4,5) by (simp add: encryptCustomFields_def)
  moreover have "?k \<in> set (encrypted_keys defs)" using assms(1,2) by (auto simp: encrypted_keys_def)
  moreover have "\<exists>e. decryptField ci key ?p = Inl e" by (rule decrypt_malformed [OF assms(3)])
  ultimately have one: "\<exists>e. decryptCustomFields (decryptField ci key) defs row = Inl e"
    unfolding decryptCustomFields_def by (intro decrypt_keys_poisoned [of ?k]) (simp_all add: V1_PREFIX_def)
  with many_poisoned [OF assms(6)] show ?thesis by blast
qed

theorem lookalike_breaks_reads_witness:
  "\<exists>e. decryptCustomFieldsMany (decryptField plain_cipher None) [account_field]
     [[], encryptCustomFields (encryptField plain_cipher [] None) [account_field] [(''account'', JStr ''v1:x'')]] = Inl e"
  using lookalike_breaks_reads [of account_field "[account_field]" "''x''" "[(''account'', JStr ''v1:x'')]" _ plain_cipher "[]" None
      "[[], encryptCustomFields (encryptField plain_cipher [] None) [account_field] [(''account'', JStr ''v1:x'')]]"]
  by (auto simp: account_field_def V1_PREFIX_def)

end
