(* ===== verification/TicketCreate.thy ===== *)
theory TicketCreate
  imports TicketReply FieldEncrypt
begin

text \<open>
  Creating tickets (\<open>TicketsService.createTicket\<close>, \<open>spawnSupplierTicket\<close>, \<open>resolvePublicDepartmentId\<close>
  and \<open>UsersService.findOrCreate\<close>): the requester, the plan and due dates, and the transaction that
  commits the ticket, its first post, files, recipients, audit, autoresponder and workflow event.
\<close>

section \<open>Departments and requesters\<close>

record department =
  dp_id :: nat
  dp_isPublic :: bool
  dp_isDefault :: bool
  dp_displayOrder :: int

text \<open>Without a requested id the first in the order default, display order, id.\<close>

definition department_rank :: "department \<Rightarrow> nat \<times> int \<times> nat" where
  "department_rank x = (if dp_isDefault x then 0 else 1, dp_displayOrder x, dp_id x)"

definition before :: "department \<Rightarrow> department \<Rightarrow> bool" where
  "before x y \<longleftrightarrow>
     (let (a, b, c) = department_rank x; (a', b', c') = department_rank y
      in a < a' \<or> (a = a' \<and> (b < b' \<or> (b = b' \<and> c \<le> c'))))"

fun first_by_rank :: "department list \<Rightarrow> department option" where
  "first_by_rank [] = None"
| "first_by_rank (x # xs) = (case first_by_rank xs of None \<Rightarrow> Some x | Some y \<Rightarrow> if before x y then Some x else Some y)"

definition resolvePublicDepartmentId :: "department list \<Rightarrow> nat option \<Rightarrow> error + nat" where
  "resolvePublicDepartmentId rows requestedId =
     (let wanted = (case requestedId of Some k \<Rightarrow> if k \<noteq> 0 then Some k else None | None \<Rightarrow> None);
          department = (case wanted of
             Some k \<Rightarrow> find_row (\<lambda>x. dp_isPublic x \<and> dp_id x = k) rows
           | None \<Rightarrow> first_by_rank (filter dp_isPublic rows))
      in case department of
           None \<Rightarrow> Inl (BadRequest ''Public department is unavailable'')
         | Some x \<Rightarrow> Inr (dp_id x))"

definition findByEmail :: "string \<Rightarrow> db \<Rightarrow> client option" where
  "findByEmail email d = find_row (\<lambda>u. normalizeEmail email \<in> fst ` set (u_emails u)) (clients d)"

definition create_client :: "string \<Rightarrow> string \<Rightarrow> client act_db" where
  "create_client email fullName d =
     (if \<exists>u \<in> set (clients d). email \<in> fst ` set (u_emails u) then (Inl (UniqueViolation ''UserEmail.email''), d)
      else (let u = \<lparr>u_id = seq_client d, u_fullName = fullName, u_emails = [(email, True)], u_organizationId = None\<rparr>
            in (Inr u, d\<lparr>clients := clients d @ [u], seq_client := Suc (seq_client d)\<rparr>)))"

definition findOrCreate :: "string \<Rightarrow> string \<Rightarrow> client act_db" where
  "findOrCreate email fullName =
     (let normalized = normalizeEmail email in
      bnd (reads (findByEmail normalized)) (\<lambda>existing. case existing of
        Some u \<Rightarrow> ret u
      | None \<Rightarrow> catch_act (create_client normalized fullName)
          (\<lambda>e. if is_unique_violation e then
                 bnd (reads (findByEmail normalized)) (\<lambda>z. case z of None \<Rightarrow> throw e | Some u \<Rightarrow> ret u)
               else throw e)))"

section \<open>Input and derived values\<close>

record create_input =
  ct_subject :: string
  ct_contents :: string
  ct_isHtml :: bool
  ct_departmentId :: nat
  ct_statusId :: "nat option"
  ct_priorityId :: "nat option"
  ct_typeId :: "nat option"
  ct_userId :: "nat option"
  ct_requesterEmail :: string
  ct_requesterName :: string
  ct_ownerStaffId :: "nat option"
  ct_slaPlanId :: "nat option"
  ct_customFields :: "field_values option"
  ct_tags :: "string list"
  ct_attachmentIds :: "nat list"
  ct_attachmentClaimToken :: string
  ct_ccEmails :: "string list"
  ct_bccEmails :: "string list"
  ct_creationMode :: "creation_mode option"
  ct_ipAddress :: "string option"
  ct_incomingMessageId :: "string option"
  ct_inboundQueueId :: "nat option"
  ct_inboundSendAutoresponder :: bool

text \<open>What the service gets from its collaborators: the plan of an organization, the validation and
  encryption of field values.\<close>

record create_env =
  ce_env :: env
  ce_orgPlan :: "nat \<Rightarrow> nat option"
  ce_date_ok :: "string \<Rightarrow> bool"
  ce_encrypt :: "string \<Rightarrow> string"

definition created_mode :: "create_input \<Rightarrow> creation_mode" where
  "created_mode ct = (case ct_creationMode ct of None \<Rightarrow> ModeStaff | Some m \<Rightarrow> m)"

definition shouldQueueAutoresponder :: "create_input \<Rightarrow> bool" where
  "shouldQueueAutoresponder ct \<longleftrightarrow>
     ct_requesterEmail ct \<noteq> '''' \<and> created_mode ct \<noteq> ModeAlaris \<and>
     (created_mode ct \<noteq> ModeEmail \<or> ct_inboundSendAutoresponder ct)"

definition findTicketByInboundMessageId :: "string \<Rightarrow> db \<Rightarrow> ticket option" where
  "findTicketByInboundMessageId m d =
     (case findPostByInboundMessageId m d of None \<Rightarrow> None | Some p \<Rightarrow> ticket_by_id (p_ticketId p) d)"

text \<open>\<open>priorities\<close> holds the keys in display order.\<close>

definition defaultPriorityId :: "nat act_db" where
  "defaultPriorityId =
     bnd (reads priorities) (\<lambda>ps. case ps of [] \<Rightarrow> throw (BadRequest ''No ticket priorities configured'') | p # _ \<Rightarrow> ret p)"

definition default_to :: "nat act_db \<Rightarrow> nat option \<Rightarrow> nat act_db" where
  "default_to m z = (case z of Some k \<Rightarrow> ret k | None \<Rightarrow> m)"

definition stored_fields :: "create_env \<Rightarrow> create_input \<Rightarrow> field_values act_db" where
  "stored_fields ce ct =
     (case ct_customFields ct of
        None \<Rightarrow> ret []
      | Some values \<Rightarrow>
          bnd (reads ticket_fields) (\<lambda>defs.
            sq (of_sum (validateCustomFields (ce_date_ok ce) defs values)) (ret (encryptCustomFields (ce_encrypt ce) defs values))))"

definition requester_id :: "create_input \<Rightarrow> nat act_db" where
  "requester_id ct =
     (case ct_userId ct of
        Some k \<Rightarrow> if k \<noteq> 0 then ret k
                  else bnd (findOrCreate (ct_requesterEmail ct) (or_string (ct_requesterName ct) (ct_requesterEmail ct))) (\<lambda>u. ret (u_id u))
      | None \<Rightarrow> bnd (findOrCreate (ct_requesterEmail ct) (or_string (ct_requesterName ct) (ct_requesterEmail ct))) (\<lambda>u. ret (u_id u)))"

definition plan_of :: "create_env \<Rightarrow> create_input \<Rightarrow> nat \<Rightarrow> db \<Rightarrow> nat option" where
  "plan_of ce ct userId d =
     (case ct_slaPlanId ct of
        Some p \<Rightarrow> Some p
      | None \<Rightarrow> resolvePlanForTicket (ce_orgPlan ce)
          (case find_row (\<lambda>u. u_id u = userId) (clients d) of None \<Rightarrow> None | Some u \<Rightarrow> u_organizationId u) d)"

definition creator_type :: "nat option \<Rightarrow> actor_type" where
  "creator_type staffId = (if is_staff_reply staffId then ByStaff else ByUser)"

definition due_of :: "env \<Rightarrow> nat option \<Rightarrow> db \<Rightarrow> due_dates" where
  "due_of env planId d =
     (case planId of None \<Rightarrow> \<lparr>dd_dueAt = None, dd_resolutionDueAt = None\<rparr> | Some p \<Rightarrow> computeDueDates p (en_now env) d)"

definition created_row ::
  "env \<Rightarrow> create_input \<Rightarrow> nat option \<Rightarrow> nat \<Rightarrow> nat option \<Rightarrow> nat \<Rightarrow> nat \<Rightarrow> field_values \<Rightarrow> due_dates \<Rightarrow> ticket" where
  "created_row env ct staffId userId planId statusId priorityId values due =
     (new_ticket (en_now env) (ct_subject ct) (ct_departmentId ct) statusId priorityId)
       \<lparr>t_typeId := ct_typeId ct, t_userId := Some userId, t_requesterName := ct_requesterName ct,
        t_requesterEmail := ct_requesterEmail ct, t_ownerStaffId := ct_ownerStaffId ct, t_slaPlanId := planId,
        t_dueAt := dd_dueAt due, t_resolutionDueAt := dd_resolutionDueAt due, t_creationMode := created_mode ct,
        t_creator := creator_type staffId,
        t_ipAddress := (case ct_ipAddress ct of None \<Rightarrow> ''0.0.0.0'' | Some ip \<Rightarrow> ip),
        t_customFields := JObj values, t_tags := js_set (ct_tags ct), t_totalReplies := 1\<rparr>"

definition first_post :: "env \<Rightarrow> create_input \<Rightarrow> nat option \<Rightarrow> nat \<Rightarrow> string option \<Rightarrow> nat \<Rightarrow> post" where
  "first_post env ct staffId userId incoming ticketId =
     \<lparr>p_id = 0, p_ticketId = ticketId, p_authorType = creator_type staffId, p_staffId = staffId, p_userId = Some userId,
      p_fullName = ct_requesterName ct, p_email = ct_requesterEmail ct, p_subject = ct_subject ct, p_contents = ct_contents ct,
      p_isHtml = ct_isHtml ct, p_isEmailed = False, p_isThirdParty = False, p_creationMode = created_mode ct,
      p_messageId = incoming, p_inboundMessageId = incoming, p_createdAt = en_now env\<rparr>"

section \<open>The transaction\<close>

text \<open>\<open>createMany\<close> with \<open>skipDuplicates\<close> under the unique pair of ticket and address.\<close>

fun add_ticket_recipients :: "(nat \<times> string \<times> role) list \<Rightarrow> (nat \<times> string \<times> role) list \<Rightarrow> (nat \<times> string \<times> role) list" where
  "add_ticket_recipients rows [] = rows"
| "add_ticket_recipients rows ((i, email, r) # xs) =
     (if \<exists>x \<in> set rows. fst x = i \<and> fst (snd x) = email then add_ticket_recipients rows xs
      else add_ticket_recipients (rows @ [(i, email, r)]) xs)"

definition store_recipients :: "create_input \<Rightarrow> nat \<Rightarrow> unit act_db" where
  "store_recipients ct i =
     modify (\<lambda>d. d\<lparr>ticket_recipients := add_ticket_recipients (ticket_recipients d)
       (map (\<lambda>e. (i, e, CC)) (ct_ccEmails ct) @ map (\<lambda>e. (i, e, BCC)) (ct_bccEmails ct))\<rparr>)"

definition autoresponder :: "env \<Rightarrow> create_input \<Rightarrow> ticket \<Rightarrow> nat act_db" where
  "autoresponder env ct t =
     (let requesterName = or_string (ct_requesterName ct) (ct_requesterEmail ct) in
      bnd (reads seq_outbox) (\<lambda>n.
        createAutomatedTicketEmail (en_mail env) (en_uuid env n) (en_now env)
          \<lparr>ai_ticketId = t_id t, ai_emailQueueId = ct_inboundQueueId ct, ai_kind = Autoresponder,
           ai_templateKey = ''autoresponder'', ai_locale = ''en'', ai_to = ct_requesterEmail ct,
           ai_vars = [(''mask'', t_mask t), (''subject'', ct_subject ct), (''contents'', ct_contents ct),
                      (''name'', requesterName), (''requesterName'', requesterName)]\<rparr>))"

definition create_body :: "env \<Rightarrow> create_input \<Rightarrow> nat option \<Rightarrow> actor option \<Rightarrow> ticket \<Rightarrow> (nat \<Rightarrow> post) \<Rightarrow> ticket act_db" where
  "create_body env ct staffId a row post =
     sq (case a of None \<Rightarrow> ret () | Some x \<Rightarrow> assertCanAccessDepartmentInTransaction x (ct_departmentId ct))
    (bnd (create_ticket_row row) (\<lambda>i.
     bnd (create_post (post i)) (\<lambda>postId.
     sq (modify (\<lambda>d. d\<lparr>tag_names := fold add_name (ct_tags ct) (tag_names d)\<rparr>))
    (sq (if ct_attachmentIds ct \<noteq> [] then linkToPost (ct_attachmentIds ct) postId i (ct_attachmentClaimToken ct) else ret ())
    (bnd (set_mask i (ct_attachmentIds ct \<noteq> [])) (\<lambda>updatedTicket.
     sq (store_recipients ct i)
    (sq (writeAudit i ''CREATE'' staffId (creator_type staffId) None None (Some (t_mask updatedTicket)))
    (sq (if shouldQueueAutoresponder ct then autoresponder env ct updatedTicket else ret 0)
    (sq (enqueueWorkflowEmailEvent env updatedTicket ''ticket.created'' (post_key postId))
        (ret updatedTicket))))))))))"

definition commit_ticket :: "string option \<Rightarrow> ticket act_db \<Rightarrow> ticket act_db" where
  "commit_ticket incoming body =
     catch_act (txn body)
       (\<lambda>e. case incoming of
          Some m \<Rightarrow> if is_unique_violation e
                    then bnd (reads (findTicketByInboundMessageId m)) (\<lambda>z. case z of None \<Rightarrow> throw e | Some t \<Rightarrow> ret t)
                    else throw e
        | None \<Rightarrow> throw e)"

definition create_new :: "create_env \<Rightarrow> create_input \<Rightarrow> nat option \<Rightarrow> actor option \<Rightarrow> string option \<Rightarrow> ticket act_db" where
  "create_new ce ct staffId a incoming =
     (let env = ce_env ce in
      bnd (stored_fields ce ct) (\<lambda>values.
      bnd (requester_id ct) (\<lambda>userId.
      bnd (reads (plan_of ce ct userId)) (\<lambda>planId.
      bnd (default_to defaultStatusId (ct_statusId ct)) (\<lambda>statusId.
      bnd (default_to defaultPriorityId (ct_priorityId ct)) (\<lambda>priorityId.
      bnd (reads (due_of env planId)) (\<lambda>due.
        commit_ticket incoming
          (create_body env ct staffId a (created_row env ct staffId userId planId statusId priorityId values due)
             (first_post env ct staffId userId incoming)))))))))"

definition createTicket :: "create_env \<Rightarrow> create_input \<Rightarrow> nat option \<Rightarrow> actor option \<Rightarrow> ticket act_db" where
  "createTicket ce ct staffId a =
     sq (case a of None \<Rightarrow> ret ()
         | Some x \<Rightarrow> sq (assertCanAccessDepartment x (ct_departmentId ct))
             (case ct_ownerStaffId ct of None \<Rightarrow> ret () | Some s \<Rightarrow> assertAssigneeCanHandleDepartments s [ct_departmentId ct]))
    (bnd (normalizeIncomingMessageId (ct_incomingMessageId ct)) (\<lambda>incoming.
     bnd (reads (\<lambda>d. case incoming of None \<Rightarrow> None | Some m \<Rightarrow> findTicketByInboundMessageId m d)) (\<lambda>existing. case existing of
       Some t \<Rightarrow> sq (case a of None \<Rightarrow> ret () | Some x \<Rightarrow> assertCanAccessTicket x (t_id t)) (ret t)
     | None \<Rightarrow> create_new ce ct staffId a incoming)))"

section \<open>Supplier tickets\<close>

definition spawnSupplierTicket ::
  "create_env \<Rightarrow> nat option \<Rightarrow> nat \<Rightarrow> string option \<Rightarrow> string \<Rightarrow> string \<Rightarrow> string option \<Rightarrow> nat \<Rightarrow> actor option \<Rightarrow> (ticket \<times> nat) act_db" where
  "spawnSupplierTicket ce vendorType clientTicketId subject contents supplierEmail supplierName staffId a =
     bnd (findAccessibleOrThrow clientTicketId a) (\<lambda>t.
     bnd (createTicket ce
        \<lparr>ct_subject = (case subject of Some s \<Rightarrow> s | None \<Rightarrow> ''[Supplier] '' @ t_subject t), ct_contents = contents, ct_isHtml = False,
         ct_departmentId = t_departmentId t, ct_statusId = None, ct_priorityId = None, ct_typeId = vendorType, ct_userId = None,
         ct_requesterEmail = supplierEmail, ct_requesterName = (case supplierName of Some s \<Rightarrow> s | None \<Rightarrow> ''''),
         ct_ownerStaffId = None, ct_slaPlanId = None, ct_customFields = Some [], ct_tags = [], ct_attachmentIds = [],
         ct_attachmentClaimToken = '''', ct_ccEmails = [], ct_bccEmails = [], ct_creationMode = Some ModeStaff,
         ct_ipAddress = Some ''0.0.0.0'', ct_incomingMessageId = None, ct_inboundQueueId = None, ct_inboundSendAutoresponder = False\<rparr>
        (Some staffId) a) (\<lambda>supplier.
     bnd (addLink (ce_env ce) clientTicketId (t_id supplier) ''supplier'' a) (\<lambda>link.
       ret (supplier, link))))"

end
