(* ===== verification/Sessions.thy ===== *)
theory Sessions
  imports TicketAccess Permissions MailText
begin

text \<open>
  Staff sessions: \<open>auth.service.ts\<close>, \<open>jwt-auth.guard.ts\<close>, \<open>session-revocation.service.ts\<close>,
  \<open>token-blocklist.service.ts\<close>, \<open>login-throttle.service.ts\<close> and \<open>password-reset-throttle.service.ts\<close>.
  Signing and verifying tokens, hashing passwords and drawing random values are parameters of the
  environment. Times are milliseconds; a handler reads the clock once.
\<close>

section \<open>State\<close>

record refresh_row =
  rf_staffId :: nat
  rf_jti :: string
  rf_familyId :: string
  rf_authVersion :: int
  rf_tokenHash :: string
  rf_expiresAt :: time
  rf_revokedAt :: "time option"

record reset_row =
  pr_id :: nat
  pr_staffId :: nat
  pr_authVersion :: int
  pr_tokenHash :: string
  pr_expiresAt :: time
  pr_usedAt :: "time option"

record rbac_entry =
  rb_actorStaffId :: "nat option"
  rb_action :: string
  rb_targetType :: string
  rb_targetId :: nat

text \<open>The keys of the cache: a value with the time at which it expires. \<open>rd_up\<close> is false while the
  cache cannot be reached.\<close>

record redis =
  rd_up :: bool
  rd_cutoffs :: "nat \<Rightarrow> (time \<times> time) option"
  rd_blocked :: "string \<Rightarrow> time option"
  rd_counters :: "string \<Rightarrow> (nat \<times> time) option"

record auth_db =
  ad_db :: db
  ad_refresh :: "refresh_row list"
  ad_resets :: "reset_row list"
  ad_rbac :: "rbac_entry list"
  ad_seq_reset :: nat
  ad_seq_staff :: nat
  ad_seq_group :: nat
  ad_redis :: redis

type_synonym 'a act_auth = "(auth_db, 'a) act"

text \<open>The verified content of an access and of a refresh token.\<close>

record access_payload =
  ac_staffId :: nat
  ac_av :: "int option"
  ac_issuedAtMs :: "time option"
  ac_iat :: "int option"
  ac_jti :: "string option"
  ac_exp :: "int option"

record refresh_payload =
  rk_sub :: nat
  rk_jti :: string
  rk_fid :: "string option"

record auth_env =
  ae_now :: time
  ae_production :: bool
  ae_accessTtl :: int                                      \<comment> \<open>seconds\<close>
  ae_refreshTtl :: int
  ae_verifyAccess :: "string \<Rightarrow> access_payload option"
  ae_verifyRefresh :: "string \<Rightarrow> refresh_payload option"
  ae_signAccess :: "access_payload \<Rightarrow> string"
  ae_signRefresh :: "refresh_payload \<Rightarrow> string"
  ae_hash :: "string \<Rightarrow> string"                           \<comment> \<open>argon2, salted anew in every environment\<close>
  ae_verify :: "string \<Rightarrow> string \<Rightarrow> bool"                \<comment> \<open>hash, plain text\<close>
  ae_sha256 :: "string \<Rightarrow> string"
  ae_hmac :: "string \<Rightarrow> string"
  ae_accessJti :: string                                   \<comment> \<open>random values\<close>
  ae_refreshJti :: string
  ae_familyId :: string
  ae_resetToken :: string
  ae_mailed :: bool                                        \<comment> \<open>whether the relay accepts the reset mail\<close>

text \<open>The principal a request carries: the authority of \<open>principal\<close> with names and token ids.\<close>

record auth_staff = principal +
  as_firstName :: string
  as_lastName :: string
  as_fullName :: string
  as_jti :: "string option"
  as_exp :: "int option"

section \<open>Staff rows\<close>

definition upd_db :: "(db \<Rightarrow> db) \<Rightarrow> auth_db \<Rightarrow> auth_db" where
  "upd_db f x = x\<lparr>ad_db := f (ad_db x)\<rparr>"

definition set_staffs :: "(staff \<Rightarrow> bool) \<Rightarrow> (staff \<Rightarrow> staff) \<Rightarrow> auth_db \<Rightarrow> auth_db" where
  "set_staffs p f = upd_db (\<lambda>d. d\<lparr>staffs := update_rows p f (staffs d)\<rparr>)"

definition find_staff :: "(staff \<Rightarrow> bool) \<Rightarrow> auth_db \<Rightarrow> staff option" where
  "find_staff p x = find_row p (staffs (ad_db x))"

text \<open>\<open>include: { staffGroup: true }\<close>.\<close>

definition staffGroup :: "staff \<Rightarrow> staff_group act_auth" where
  "staffGroup s =
     bnd (reads (\<lambda>x. group_by_id (s_groupId s) (ad_db x))) (\<lambda>z.
       case z of None \<Rightarrow> throw (Failure ''Inconsistent query result'') | Some g \<Rightarrow> ret g)"

definition update_staff :: "nat \<Rightarrow> (staff \<Rightarrow> staff) \<Rightarrow> unit act_auth" where
  "update_staff i f =
     bnd (reads (find_staff (\<lambda>s. s_id s = i))) (\<lambda>z.
       case z of None \<Rightarrow> throw RecordNotFound | Some _ \<Rightarrow> modify (set_staffs (\<lambda>s. s_id s = i) f))"

definition bump :: "staff \<Rightarrow> staff" where
  "bump s = s\<lparr>s_authVersion := s_authVersion s + 1\<rparr>"

section \<open>The cache\<close>

definition upd_redis :: "(redis \<Rightarrow> redis) \<Rightarrow> unit act_auth" where
  "upd_redis f = modify (\<lambda>x. if rd_up (ad_redis x) then x\<lparr>ad_redis := f (ad_redis x)\<rparr> else x)"

definition live :: "time \<Rightarrow> ('v \<times> time) option \<Rightarrow> 'v option" where
  "live now z = (case z of None \<Rightarrow> None | Some (v, expires) \<Rightarrow> if now < expires then Some v else None)"

text \<open>\<open>TokenBlocklistService\<close>. The calls swallow an unreachable cache; the reads then find nothing.\<close>

definition block :: "auth_env \<Rightarrow> string \<Rightarrow> int \<Rightarrow> unit act_auth" where
  "block env jti ttlSeconds =
     (if jti = '''' \<or> ttlSeconds \<le> 0 then ret ()
      else upd_redis (\<lambda>r. r\<lparr>rd_blocked := (rd_blocked r)(jti \<mapsto> ae_now env + ttlSeconds * 1000)\<rparr>))"

definition revokeStaffAccessBefore :: "auth_env \<Rightarrow> nat \<Rightarrow> int \<Rightarrow> unit act_auth" where
  "revokeStaffAccessBefore env staffId ttlSeconds =
     (if staffId = 0 \<or> ttlSeconds \<le> 0 then ret ()
      else upd_redis (\<lambda>r. r\<lparr>rd_cutoffs := (rd_cutoffs r)(staffId \<mapsto> (ae_now env, ae_now env + ttlSeconds * 1000))\<rparr>))"

definition cutoff_ms :: "time \<Rightarrow> time" where
  "cutoff_ms stored = (if stored < 1000000000000 then stored * 1000 else stored)"

definition filled :: "int option \<Rightarrow> int option" where
  "filled z = (case z of None \<Rightarrow> None | Some n \<Rightarrow> if n = 0 then None else Some n)"

definition isStaffTokenStale :: "auth_env \<Rightarrow> nat \<Rightarrow> time option \<Rightarrow> int option \<Rightarrow> auth_db \<Rightarrow> bool" where
  "isStaffTokenStale env staffId issuedAtMs iat x \<longleftrightarrow>
     staffId \<noteq> 0 \<and> (filled issuedAtMs \<noteq> None \<or> filled iat \<noteq> None) \<and> rd_up (ad_redis x) \<and>
     (case live (ae_now env) (rd_cutoffs (ad_redis x) staffId) of
        None \<Rightarrow> False
      | Some stored \<Rightarrow>
          (case (case issuedAtMs of Some ms \<Rightarrow> Some ms | None \<Rightarrow> map_option (\<lambda>s. s * 1000) (filled iat)) of
             None \<Rightarrow> False
           | Some ms \<Rightarrow> ms \<le> cutoff_ms stored))"

definition isBlocked :: "auth_env \<Rightarrow> string \<Rightarrow> auth_db \<Rightarrow> bool" where
  "isBlocked env jti x \<longleftrightarrow>
     jti \<noteq> '''' \<and> rd_up (ad_redis x) \<and>
     (case rd_blocked (ad_redis x) jti of None \<Rightarrow> False | Some expires \<Rightarrow> ae_now env < expires)"

text \<open>\<open>LoginThrottleService\<close>: failures per pair of address and client; the counter is extended by every
  failure and fails open.\<close>

definition FAILURE_THRESHOLD :: nat where
  "FAILURE_THRESHOLD = 10"

definition WINDOW_SECONDS :: int where
  "WINDOW_SECONDS = 15 * 60"

definition throttle_key :: "auth_env \<Rightarrow> string \<Rightarrow> string \<Rightarrow> string" where
  "throttle_key env email ip = ''th:login:'' @ take 32 (ae_hmac env (lower (trim email))) @ '':'' @ ip"

definition assertNotThrottled :: "auth_env \<Rightarrow> string \<Rightarrow> string \<Rightarrow> unit act_auth" where
  "assertNotThrottled env email ip =
     (if ip = '''' then ret ()
      else bnd (reads ad_redis) (\<lambda>r.
        if \<not> rd_up r then ret ()
        else require (case live (ae_now env) (rd_counters r (throttle_key env email ip)) of
                        None \<Rightarrow> True | Some count \<Rightarrow> count < FAILURE_THRESHOLD)
               (TooManyRequests ''Too many login attempts. Please wait a few minutes and try again.'')))"

definition incremented :: "time \<Rightarrow> (nat \<times> time) option \<Rightarrow> nat" where
  "incremented now z = (case live now z of None \<Rightarrow> 1 | Some n \<Rightarrow> Suc n)"

definition recordFailure :: "auth_env \<Rightarrow> string \<Rightarrow> string \<Rightarrow> unit act_auth" where
  "recordFailure env email ip =
     (if ip = '''' then ret ()
      else upd_redis (\<lambda>r. let k = throttle_key env email ip in
        r\<lparr>rd_counters := (rd_counters r)(k \<mapsto> (incremented (ae_now env) (rd_counters r k), ae_now env + WINDOW_SECONDS * 1000))\<rparr>))"

definition clear_throttle :: "auth_env \<Rightarrow> string \<Rightarrow> string \<Rightarrow> unit act_auth" where
  "clear_throttle env email ip =
     (if ip = '''' then ret ()
      else upd_redis (\<lambda>r. r\<lparr>rd_counters := (rd_counters r)(throttle_key env email ip := None)\<rparr>))"


text \<open>\<open>PasswordResetThrottleService.consume\<close>: fixed windows, opened by the first count, per deployment,
  address and client; fails closed in production.\<close>

definition quota_keys :: "auth_env \<Rightarrow> string \<Rightarrow> string \<Rightarrow> (string \<times> nat) list" where
  "quota_keys env email ip =
     [(''th:password-reset:global'', 100),
      (''th:password-reset:identity:'' @ take 32 (ae_hmac env (normalizeEmail email)), 3)] @
     (if ip = '''' then [] else [(''th:password-reset:ip:'' @ take 32 (ae_hmac env ip), 5)])"

definition count_up :: "time \<Rightarrow> string \<Rightarrow> (string \<Rightarrow> (nat \<times> time) option) \<Rightarrow> string \<Rightarrow> (nat \<times> time) option" where
  "count_up now k c =
     c(k := (case c k of
        None \<Rightarrow> Some (1, now + 3600000)
      | Some (n, expires) \<Rightarrow> if now < expires then Some (Suc n, expires) else Some (1, now + 3600000)))"

definition consume :: "auth_env \<Rightarrow> string \<Rightarrow> string \<Rightarrow> unit act_auth" where
  "consume env email ip =
     bnd (reads (\<lambda>x. rd_up (ad_redis x))) (\<lambda>up.
       if \<not> up then
         (if ae_production env then throw (ServiceUnavailable ''Password reset is temporarily unavailable'') else ret ())
       else
         sq (upd_redis (\<lambda>r. r\<lparr>rd_counters := fold (count_up (ae_now env)) (map fst (quota_keys env email ip)) (rd_counters r)\<rparr>))
        (bnd (reads (\<lambda>x. rd_counters (ad_redis x))) (\<lambda>c.
           require (list_all (\<lambda>(k, limit). case c k of None \<Rightarrow> True | Some (n, _) \<Rightarrow> n \<le> limit) (quota_keys env email ip))
             (TooManyRequests ''Too many requests. Please try again later.''))))"

section \<open>Revoking sessions\<close>

definition revoke_refresh :: "(refresh_row \<Rightarrow> bool) \<Rightarrow> time \<Rightarrow> auth_db \<Rightarrow> auth_db" where
  "revoke_refresh p now x =
     x\<lparr>ad_refresh := update_rows (\<lambda>r. p r \<and> rf_revokedAt r = None) (\<lambda>r. r\<lparr>rf_revokedAt := Some now\<rparr>) (ad_refresh x)\<rparr>"

definition burn_resets :: "(reset_row \<Rightarrow> bool) \<Rightarrow> time \<Rightarrow> auth_db \<Rightarrow> auth_db" where
  "burn_resets p now x =
     x\<lparr>ad_resets := update_rows (\<lambda>r. p r \<and> pr_usedAt r = None) (\<lambda>r. r\<lparr>pr_usedAt := Some now\<rparr>) (ad_resets x)\<rparr>"

definition revokeAllForStaff :: "auth_env \<Rightarrow> nat \<Rightarrow> unit act_auth" where
  "revokeAllForStaff env staffId =
     sq (modify (revoke_refresh (\<lambda>r. rf_staffId r = staffId) (ae_now env)))
    (sq (modify (burn_resets (\<lambda>r. pr_staffId r = staffId) (ae_now env)))
        (revokeStaffAccessBefore env staffId (ae_accessTtl env)))"

definition group_members :: "nat \<Rightarrow> auth_db \<Rightarrow> nat list" where
  "group_members groupId x = map s_id (filter (\<lambda>s. s_groupId s = groupId) (staffs (ad_db x)))"

definition revokeAllForGroup :: "auth_env \<Rightarrow> nat \<Rightarrow> unit act_auth" where
  "revokeAllForGroup env groupId =
     bnd (reads (group_members groupId)) (\<lambda>ids.
       if ids = [] then ret ()
       else sq (modify (revoke_refresh (\<lambda>r. rf_staffId r \<in> set ids) (ae_now env)))
           (sq (each (\<lambda>i. revokeStaffAccessBefore env i (ae_accessTtl env)) ids) (ret ())))"

text \<open>\<open>AuthService.revokeStaffSessions\<close> and \<open>logout\<close>.\<close>

definition revokeStaffSessions :: "auth_env \<Rightarrow> nat \<Rightarrow> unit act_auth" where
  "revokeStaffSessions env staffId =
     sq (txn (sq (update_staff staffId bump) (modify (revoke_refresh (\<lambda>r. rf_staffId r = staffId) (ae_now env)))))
        (revokeAllForStaff env staffId)"

definition logout :: "auth_env \<Rightarrow> nat \<Rightarrow> string option \<Rightarrow> int option \<Rightarrow> unit act_auth" where
  "logout env staffId accessJti accessExp =
     sq (revokeStaffSessions env staffId)
        (case accessJti of
           None \<Rightarrow> ret ()
         | Some jti \<Rightarrow> if jti = '''' then ret ()
             else block env jti (case filled accessExp of None \<Rightarrow> ae_accessTtl env | Some e \<Rightarrow> e - ae_now env div 1000))"

section \<open>Login\<close>

definition bad_credentials :: error where
  "bad_credentials = Unauthorized ''Invalid credentials''"

text \<open>The decoy hash only equalizes timing.\<close>

definition validateStaff :: "auth_env \<Rightarrow> string \<Rightarrow> string \<Rightarrow> (staff \<times> staff_group) act_auth" where
  "validateStaff env email password =
     bnd (reads (find_staff (\<lambda>s. s_email s = email))) (\<lambda>z. case z of
       None \<Rightarrow> throw bad_credentials
     | Some s \<Rightarrow>
         bnd (staffGroup s) (\<lambda>g.
         sq (require (s_isEnabled s) bad_credentials)
        (sq (require (ae_verify env (s_passwordHash s) password) bad_credentials)
            (ret (s, g)))))"

definition join_names :: "string \<Rightarrow> string \<Rightarrow> string" where
  "join_names a b = (if a = '''' then b else if b = '''' then a else a @ '' '' @ b)"

definition buildPrincipal :: "staff \<Rightarrow> staff_group \<Rightarrow> string option \<Rightarrow> int option \<Rightarrow> auth_staff" where
  "buildPrincipal s g jti expiry =
     \<lparr>pc_staffId = s_id s, pc_email = s_email s, pc_isAdmin = g_isAdmin g, pc_permissions = g_permissions g,
      as_firstName = s_firstName s, as_lastName = s_lastName s,
      as_fullName = (if join_names (s_firstName s) (s_lastName s) = '''' then s_email s else join_names (s_firstName s) (s_lastName s)),
      as_jti = jti, as_exp = expiry\<rparr>"

text \<open>\<open>issueTokens\<close>: the access token carries the version and the issue time, the refresh token its row.\<close>

definition issued_access :: "auth_env \<Rightarrow> nat \<Rightarrow> int \<Rightarrow> access_payload" where
  "issued_access env staffId authVersion =
     \<lparr>ac_staffId = staffId, ac_av = Some authVersion, ac_issuedAtMs = Some (ae_now env),
      ac_iat = Some (ae_now env div 1000), ac_jti = Some (ae_accessJti env),
      ac_exp = Some (ae_now env div 1000 + ae_accessTtl env)\<rparr>"

definition issued_refresh :: "auth_env \<Rightarrow> nat \<Rightarrow> string \<Rightarrow> refresh_payload" where
  "issued_refresh env staffId familyId = \<lparr>rk_sub = staffId, rk_jti = ae_refreshJti env, rk_fid = Some familyId\<rparr>"

definition create_refresh :: "refresh_row \<Rightarrow> unit act_auth" where
  "create_refresh r =
     bnd (reads ad_refresh) (\<lambda>rows.
     sq (require (\<not> list_ex (\<lambda>q. rf_jti q = rf_jti r \<or> rf_tokenHash q = rf_tokenHash r) rows) (UniqueViolation ''RefreshToken''))
        (modify (\<lambda>x. x\<lparr>ad_refresh := ad_refresh x @ [r]\<rparr>)))"

definition refresh_row_of :: "auth_env \<Rightarrow> nat \<Rightarrow> int \<Rightarrow> string \<Rightarrow> refresh_row" where
  "refresh_row_of env staffId authVersion familyId =
     \<lparr>rf_staffId = staffId, rf_jti = ae_refreshJti env, rf_familyId = familyId, rf_authVersion = authVersion,
      rf_tokenHash = ae_hash env (ae_signRefresh env (issued_refresh env staffId familyId)),
      rf_expiresAt = ae_now env + ae_refreshTtl env * 1000, rf_revokedAt = None\<rparr>"

text \<open>A login in two phases: the credentials are checked against the row read, later the session is stored.\<close>

definition login_check :: "auth_env \<Rightarrow> string \<Rightarrow> string \<Rightarrow> string \<Rightarrow> (staff \<times> staff_group) act_auth" where
  "login_check env email password ip =
     sq (assertNotThrottled env email ip)
    (bnd (catch_act (validateStaff env email password) (\<lambda>e. sq (recordFailure env email ip) (throw e))) (\<lambda>r.
     sq (clear_throttle env email ip) (ret r)))"

definition login_issue :: "auth_env \<Rightarrow> staff \<Rightarrow> (access_payload \<times> refresh_payload) act_auth" where
  "login_issue env s =
     sq (create_refresh (refresh_row_of env (s_id s) (s_authVersion s) (ae_familyId env)))
    (sq (update_staff (s_id s) (\<lambda>r. r\<lparr>s_lastLoginAt := Some (ae_now env)\<rparr>))
        (ret (issued_access env (s_id s) (s_authVersion s), issued_refresh env (s_id s) (ae_familyId env))))"

definition login :: "auth_env \<Rightarrow> string \<Rightarrow> string \<Rightarrow> string \<Rightarrow> (string \<times> string \<times> auth_staff) act_auth" where
  "login env email password ip =
     bnd (login_check env email password ip) (\<lambda>(s, g).
     bnd (login_issue env s) (\<lambda>(a, r).
       ret (ae_signAccess env a, ae_signRefresh env r, buildPrincipal s g None None)))"


section \<open>Refresh\<close>

definition REFRESH_ROTATION_GRACE_MS :: int where
  "REFRESH_ROTATION_GRACE_MS = 10000"

text \<open>The first phase reads the row of the token and the staff row; the second consumes the row.\<close>

definition refresh_check :: "auth_env \<Rightarrow> string \<Rightarrow> (refresh_row \<times> staff) act_auth" where
  "refresh_check env raw =
     (case ae_verifyRefresh env raw of
        None \<Rightarrow> throw (Unauthorized ''Invalid refresh token'')
      | Some p \<Rightarrow>
          sq (modify (\<lambda>x. x\<lparr>ad_refresh := delete_rows (\<lambda>r. rf_staffId r = rk_sub p \<and> rf_expiresAt r < ae_now env) (ad_refresh x)\<rparr>))
         (bnd (reads (\<lambda>x. find_row (\<lambda>r. rf_jti r = rk_jti p) (ad_refresh x))) (\<lambda>z. case z of
            None \<Rightarrow> throw (Unauthorized ''Refresh token not found'')
          | Some row \<Rightarrow>
              sq (require (ae_verify env (rf_tokenHash row) raw) (Unauthorized ''Invalid refresh token''))
             (sq (require (\<not> rf_expiresAt row < ae_now env) (Unauthorized ''Refresh token expired''))
             (bnd (reads (find_staff (\<lambda>s. s_id s = rf_staffId row))) (\<lambda>z. case z of
                None \<Rightarrow> throw (Unauthorized ''Staff not found or disabled'')
              | Some s \<Rightarrow>
                  bnd (staffGroup s) (\<lambda>_.
                  sq (require (s_isEnabled s) (Unauthorized ''Staff not found or disabled''))
                 (sq (require (rf_authVersion row = s_authVersion s) (Unauthorized ''Session has been invalidated''))
                     (ret (row, s))))))))))"

definition consume_refresh :: "auth_env \<Rightarrow> refresh_row \<Rightarrow> staff \<Rightarrow> nat act_auth" where
  "consume_refresh env row s =
     txn (bnd (reads (\<lambda>x. count_rows (\<lambda>r. rf_jti r = rf_jti row \<and> rf_revokedAt r = None) (ad_refresh x))) (\<lambda>count.
          sq (modify (revoke_refresh (\<lambda>r. rf_jti r = rf_jti row) (ae_now env)))
         (sq (if count = 1 then create_refresh (refresh_row_of env (s_id s) (s_authVersion s) (rf_familyId row)) else ret ())
             (ret count))))"

definition refresh_commit :: "auth_env \<Rightarrow> refresh_row \<Rightarrow> staff \<Rightarrow> (access_payload \<times> refresh_payload option) act_auth" where
  "refresh_commit env row s =
     bnd (consume_refresh env row s) (\<lambda>count.
       if count \<noteq> 1 then
         (let revokedAtMs = (case rf_revokedAt row of Some m \<Rightarrow> m | None \<Rightarrow> ae_now env) in
          if \<not> ae_now env - revokedAtMs \<le> REFRESH_ROTATION_GRACE_MS then
            sq (modify (revoke_refresh (\<lambda>r. rf_familyId r = rf_familyId row) (ae_now env)))
               (throw (Unauthorized ''Refresh token reuse detected; all sessions have been revoked''))
          else ret (issued_access env (s_id s) (s_authVersion s), None))
       else ret (issued_access env (s_id s) (s_authVersion s), Some (issued_refresh env (s_id s) (rf_familyId row))))"

definition refresh :: "auth_env \<Rightarrow> string \<Rightarrow> (string \<times> string option) act_auth" where
  "refresh env raw =
     bnd (refresh_check env raw) (\<lambda>(row, s).
     bnd (refresh_commit env row s) (\<lambda>(a, r).
       ret (ae_signAccess env a, map_option (ae_signRefresh env) r)))"

section \<open>Password reset\<close>

definition create_reset :: "nat \<Rightarrow> int \<Rightarrow> string \<Rightarrow> time \<Rightarrow> time \<Rightarrow> nat act_auth" where
  "create_reset staffId authVersion tokenHash expiresAt usedAt =
     bnd (reads (\<lambda>x. (ad_resets x, ad_seq_reset x))) (\<lambda>(rows, i).
     sq (require (\<not> list_ex (\<lambda>r. pr_tokenHash r = tokenHash) rows) (UniqueViolation ''PasswordReset.tokenHash''))
    (sq (modify (\<lambda>x. x\<lparr>ad_resets := ad_resets x @
             [\<lparr>pr_id = i, pr_staffId = staffId, pr_authVersion = authVersion, pr_tokenHash = tokenHash,
               pr_expiresAt = expiresAt, pr_usedAt = Some usedAt\<rparr>], ad_seq_reset := Suc i\<rparr>))
        (ret i)))"

definition newer_active :: "time \<Rightarrow> nat \<Rightarrow> nat \<Rightarrow> reset_row \<Rightarrow> bool" where
  "newer_active now resetId staffId r \<longleftrightarrow>
     pr_staffId r = staffId \<and> pr_id r > resetId \<and> pr_usedAt r = None \<and> pr_expiresAt r > now"

definition activatable :: "time \<Rightarrow> nat \<Rightarrow> nat \<Rightarrow> int \<Rightarrow> reset_row \<Rightarrow> bool" where
  "activatable now resetId staffId version r \<longleftrightarrow>
     pr_id r = resetId \<and> pr_staffId r = staffId \<and> pr_authVersion r = version \<and> pr_usedAt r \<noteq> None \<and> pr_expiresAt r > now"

definition activateDeliveredReset :: "auth_env \<Rightarrow> nat \<Rightarrow> nat \<Rightarrow> int \<Rightarrow> bool act_auth" where
  "activateDeliveredReset env resetId staffId issuedAuthVersion =
     txn (bnd (reads (find_staff (\<lambda>s. s_id s = staffId))) (\<lambda>z. case z of
       None \<Rightarrow> ret False
     | Some current \<Rightarrow>
         if \<not> s_isEnabled current \<or> s_authVersion current \<noteq> issuedAuthVersion then ret False
         else bnd (reads (\<lambda>x. find_row (newer_active (ae_now env) resetId staffId) (ad_resets x))) (\<lambda>newerActive.
           if newerActive \<noteq> None then ret False
           else sq (modify (burn_resets (\<lambda>r. pr_staffId r = staffId) (ae_now env)))
               (bnd (reads (\<lambda>x. count_rows (activatable (ae_now env) resetId staffId issuedAuthVersion) (ad_resets x))) (\<lambda>count.
                sq (modify (\<lambda>x. x\<lparr>ad_resets := update_rows (activatable (ae_now env) resetId staffId issuedAuthVersion)
                                     (\<lambda>r. r\<lparr>pr_usedAt := None\<rparr>) (ad_resets x)\<rparr>))
                   (ret (count = 1)))))))"

text \<open>Issuing a link: the inactive row first, its activation after the relay accepted the mail.\<close>

definition issue_reset :: "auth_env \<Rightarrow> string \<Rightarrow> (nat \<times> nat \<times> int) option act_auth" where
  "issue_reset env email =
     bnd (reads (find_staff (\<lambda>s. s_email s = email))) (\<lambda>z. case z of
       None \<Rightarrow> ret None
     | Some s \<Rightarrow>
         if \<not> s_isEnabled s then ret None
         else sq (modify (\<lambda>x. x\<lparr>ad_resets := delete_rows (\<lambda>r. pr_expiresAt r < ae_now env) (ad_resets x)\<rparr>))
             (bnd (create_reset (s_id s) (s_authVersion s) (ae_sha256 env (ae_resetToken env)) (ae_now env + 3600000) (ae_now env)) (\<lambda>i.
                ret (Some (i, s_id s, s_authVersion s)))))"

definition forgotPassword :: "auth_env \<Rightarrow> string \<Rightarrow> unit act_auth" where
  "forgotPassword env email =
     bnd (issue_reset env email) (\<lambda>z. case z of
       None \<Rightarrow> ret ()
     | Some (i, staffId, version) \<Rightarrow>
         if ae_mailed env
         then catch_act (sq (activateDeliveredReset env i staffId version) (ret ())) (\<lambda>_. ret ())
         else ret ())"

definition bad_reset :: error where
  "bad_reset = BadRequest ''Invalid or expired reset token''"

definition usable_reset :: "time \<Rightarrow> reset_row \<Rightarrow> bool" where
  "usable_reset now r \<longleftrightarrow> pr_usedAt r = None \<and> \<not> pr_expiresAt r \<le> now"

definition find_reset :: "string \<Rightarrow> auth_db \<Rightarrow> reset_row option" where
  "find_reset tokenHash x = find_row (\<lambda>r. pr_tokenHash r = tokenHash) (ad_resets x)"

definition apply_reset :: "auth_env \<Rightarrow> reset_row \<Rightarrow> string \<Rightarrow> unit act_auth" where
  "apply_reset env record passwordHash =
     (let now = ae_now env; i = pr_staffId record;
          changeable = (\<lambda>s. s_id s = i \<and> s_isEnabled s \<and> s_authVersion s = pr_authVersion record) in
      bnd (reads (\<lambda>x. count_rows (\<lambda>r. pr_id r = pr_id record \<and> usable_reset now r) (ad_resets x))) (\<lambda>consumed.
      sq (require (consumed = 1) bad_reset)
     (sq (modify (burn_resets (\<lambda>r. pr_id r = pr_id record \<and> \<not> pr_expiresAt r \<le> now) now))
     (bnd (reads (\<lambda>x. count_rows changeable (staffs (ad_db x)))) (\<lambda>changed.
      sq (require (changed = 1) bad_reset)
     (sq (modify (set_staffs changeable (\<lambda>s. (bump s)\<lparr>s_passwordHash := passwordHash\<rparr>)))
     (sq (modify (revoke_refresh (\<lambda>r. rf_staffId r = i) now))
         (modify (burn_resets (\<lambda>r. pr_staffId r = i) now)))))))))"

definition resetPassword :: "auth_env \<Rightarrow> string \<Rightarrow> string \<Rightarrow> unit act_auth" where
  "resetPassword env token newPassword =
     (let tokenHash = ae_sha256 env token; now = ae_now env in
      bnd (reads (find_reset tokenHash)) (\<lambda>z. case z of
        None \<Rightarrow> throw bad_reset
      | Some candidate \<Rightarrow>
          sq (require (usable_reset now candidate) bad_reset)
         (bnd (txn (bnd (reads (find_staff (\<lambda>s. s_id s = pr_staffId candidate))) (\<lambda>locked.
             sq (require (locked \<noteq> None) bad_reset)
            (bnd (reads (find_reset tokenHash)) (\<lambda>z. case z of
               None \<Rightarrow> throw bad_reset
             | Some record \<Rightarrow>
                 sq (require (usable_reset now record) bad_reset)
                (sq (apply_reset env record (ae_hash env newPassword)) (ret (pr_staffId record)))))))) (\<lambda>staffId.
           revokeAllForStaff env staffId))))"

section \<open>The guard of every route\<close>

text \<open>\<open>JwtAuthGuard.canActivate\<close> on a route that is not public, for the token found in the request.\<close>

definition canActivate :: "auth_env \<Rightarrow> string option \<Rightarrow> auth_staff act_auth" where
  "canActivate env token =
     (case (case token of Some (c # cs) \<Rightarrow> Some (c # cs) | _ \<Rightarrow> None) of
        None \<Rightarrow> throw (Unauthorized ''Missing access token'')
      | Some tok \<Rightarrow>
          (case ae_verifyAccess env tok of
             None \<Rightarrow> throw (Unauthorized ''Invalid or expired access token'')
           | Some p \<Rightarrow>
               bnd (reads (\<lambda>x. case ac_jti p of None \<Rightarrow> False | Some jti \<Rightarrow> isBlocked env jti x)) (\<lambda>blocked.
               sq (require (\<not> blocked) (Unauthorized ''Token has been revoked''))
              (bnd (reads (isStaffTokenStale env (ac_staffId p) (ac_issuedAtMs p) (ac_iat p))) (\<lambda>stale.
               sq (require (\<not> stale) (Unauthorized ''Session has been revoked''))
              (bnd (reads (find_staff (\<lambda>s. s_id s = ac_staffId p))) (\<lambda>z. case z of
                 None \<Rightarrow> throw (Unauthorized ''Staff not found or disabled'')
               | Some s \<Rightarrow>
                   bnd (catch_act (staffGroup s) (\<lambda>_. throw (ServiceUnavailable ''Auth state temporarily unavailable''))) (\<lambda>g.
                   sq (require (s_isEnabled s) (Unauthorized ''Staff not found or disabled''))
                  (sq (require (Some (s_authVersion s) = ac_av p) (Unauthorized ''Session has been invalidated''))
                      (ret (buildPrincipal s g (ac_jti p) (ac_exp p))))))))))))"

text \<open>The token of a request: a bearer header before the cookie.\<close>

definition extractBearer :: "string option \<Rightarrow> string option" where
  "extractBearer h = (case h of None \<Rightarrow> None | Some v \<Rightarrow> if starts_with v ''Bearer '' then Some (drop 7 v) else None)"

definition request_token :: "string option \<Rightarrow> string option \<Rightarrow> string option" where
  "request_token authorization cookie = (case extractBearer authorization of Some t \<Rightarrow> Some t | None \<Rightarrow> cookie)"

end
