(* ===== verification/StaffAdmin.thy ===== *)
theory StaffAdmin
  imports Sessions
begin

text \<open>
  Administration of staff accounts and roles (\<open>staff/staff.service.ts\<close>, \<open>rbac-audit.service.ts\<close>).
  Every mutation holds one advisory lock, so the mutations are serialized; what a mutation writes
  through the transaction of the lock is rolled back when it throws. The profile columns
  designation, mobile number and time zone are left out.
\<close>

section \<open>Input\<close>

record group_input =
  gi_title :: string
  gi_isAdmin :: bool
  gi_permissions :: "string list"

record staff_create =
  sc_email :: string
  sc_username :: string
  sc_firstName :: string
  sc_lastName :: string
  sc_password :: string
  sc_staffGroupId :: nat
  sc_staffSignature :: string
  sc_departmentIds :: "nat list"

record staff_patch =
  sp_email :: "string option"
  sp_username :: "string option"
  sp_firstName :: "string option"
  sp_lastName :: "string option"
  sp_password :: "string option"
  sp_staffGroupId :: "nat option"
  sp_signature :: "string option"
  sp_departmentIds :: "nat list option"
  sp_isEnabled :: "bool option"

section \<open>Audit and authority\<close>

definition rbac_log :: "principal option \<Rightarrow> string \<Rightarrow> string \<Rightarrow> nat \<Rightarrow> unit act_auth" where
  "rbac_log actor action targetType targetId =
     modify (\<lambda>x. x\<lparr>ad_rbac := ad_rbac x @ [\<lparr>rb_actorStaffId = map_option pc_staffId actor, rb_action = action,
       rb_targetType = targetType, rb_targetId = targetId\<rparr>]\<rparr>)"

definition getGroup :: "nat \<Rightarrow> staff_group act_auth" where
  "getGroup i =
     bnd (reads (\<lambda>x. group_by_id i (ad_db x))) (\<lambda>z.
       case z of None \<Rightarrow> throw (NotFound (''StaffGroup '' @ nat_str i @ '' not found'')) | Some g \<Rightarrow> ret g)"

definition within_authority :: "principal option \<Rightarrow> bool \<Rightarrow> string list \<Rightarrow> bool" where
  "within_authority actor isAdmin perms \<longleftrightarrow>
     (case actor of None \<Rightarrow> True
      | Some a \<Rightarrow> pc_isAdmin a \<or> (\<not> isAdmin \<and> set perms \<subseteq> set (pc_permissions a)))"

definition assertGroupWithinActorAuthority :: "bool \<Rightarrow> string list \<Rightarrow> principal option \<Rightarrow> unit act_auth" where
  "assertGroupWithinActorAuthority isAdmin perms actor =
     (case actor of
        None \<Rightarrow> ret ()
      | Some a \<Rightarrow>
          if pc_isAdmin a then ret ()
          else sq (require (\<not> isAdmin) (Forbidden ''Only an administrator may manage an administrator group''))
                  (require (list_all (\<lambda>p. p \<in> set (pc_permissions a)) perms)
                     (Forbidden ''Cannot grant or manage permissions you do not hold'')))"

definition validateDepartmentAssignments :: "nat list \<Rightarrow> principal option \<Rightarrow> nat list act_auth" where
  "validateDepartmentAssignments departmentIds actor =
     sq (require (case actor of None \<Rightarrow> True | Some a \<Rightarrow> pc_isAdmin a)
           (Forbidden ''Only a global administrator may change department assignments''))
    (sq (require (distinct departmentIds) (Conflict ''Department assignments must not contain duplicates''))
    (bnd (reads (\<lambda>x. departments (ad_db x))) (\<lambda>known.
     sq (require (departmentIds = [] \<or> list_all (\<lambda>i. i \<in> set known) departmentIds) (NotFound ''One or more departments not found''))
        (ret departmentIds))))"

section \<open>Groups\<close>

definition createGroup :: "group_input \<Rightarrow> principal option \<Rightarrow> staff_group act_auth" where
  "createGroup dto actor =
     sq (assertGroupWithinActorAuthority (gi_isAdmin dto) (gi_permissions dto) actor)
    (bnd (reads ad_seq_group) (\<lambda>i.
     (let g = \<lparr>g_id = i, g_title = gi_title dto, g_isAdmin = gi_isAdmin dto, g_permissions = gi_permissions dto\<rparr> in
      sq (modify (\<lambda>x. (upd_db (\<lambda>d. d\<lparr>groups := groups d @ [g]\<rparr>) x)\<lparr>ad_seq_group := Suc i\<rparr>))
     (sq (rbac_log actor ''group.create'' ''group'' i)
         (ret g)))))"

definition sameStringSet :: "string list \<Rightarrow> string list \<Rightarrow> bool" where
  "sameStringSet a b \<longleftrightarrow> length a = length b \<and> list_all (\<lambda>x. x \<in> set b) a"

definition patch_group :: "string option \<Rightarrow> string list option \<Rightarrow> staff_group \<Rightarrow> staff_group" where
  "patch_group title perms g =
     g\<lparr>g_title := (case title of None \<Rightarrow> g_title g | Some t \<Rightarrow> t),
       g_permissions := (case perms of None \<Rightarrow> g_permissions g | Some p \<Rightarrow> p)\<rparr>"

definition updateGroup :: "auth_env \<Rightarrow> nat \<Rightarrow> string option \<Rightarrow> string list option \<Rightarrow> principal option \<Rightarrow> staff_group act_auth" where
  "updateGroup env i title perms actor =
     bnd (getGroup i) (\<lambda>before.
     sq (assertGroupWithinActorAuthority (g_isAdmin before) (g_permissions before) actor)
    (sq (case perms of None \<Rightarrow> ret () | Some p \<Rightarrow> assertGroupWithinActorAuthority False p actor)
    (sq (modify (upd_db (\<lambda>d. d\<lparr>groups := update_rows (\<lambda>g. g_id g = i) (patch_group title perms) (groups d)\<rparr>)))
    (let updated = patch_group title perms before in
     sq (if perms \<noteq> None \<and> \<not> sameStringSet (g_permissions before) (g_permissions updated)
         then sq (modify (set_staffs (\<lambda>s. s_groupId s = i) bump))
             (sq (revokeAllForGroup env i)
                 (rbac_log actor ''group.permissions_change'' ''group'' i))
         else rbac_log actor ''group.update'' ''group'' i)
        (ret updated)))))"

definition admin_groups :: "auth_db \<Rightarrow> nat" where
  "admin_groups x = count_rows g_isAdmin (groups (ad_db x))"

definition deleteGroup :: "nat \<Rightarrow> principal option \<Rightarrow> unit act_auth" where
  "deleteGroup i actor =
     bnd (getGroup i) (\<lambda>g.
     sq (assertGroupWithinActorAuthority (g_isAdmin g) (g_permissions g) actor)
    (bnd (reads admin_groups) (\<lambda>adminGroupCount.
     sq (require (g_isAdmin g \<longrightarrow> \<not> adminGroupCount \<le> 1) (Forbidden ''Cannot delete the last administrator group''))
    (bnd (reads (\<lambda>x. length (group_members i x))) (\<lambda>memberCount.
     sq (require (memberCount = 0) (Conflict ''Cannot delete: staff members are still assigned to this group''))
    (sq (modify (upd_db (\<lambda>d. d\<lparr>groups := delete_rows (\<lambda>g. g_id g = i) (groups d)\<rparr>)))
        (rbac_log actor ''group.delete'' ''group'' i)))))))"

section \<open>Members\<close>

definition getStaff :: "nat \<Rightarrow> (staff \<times> staff_group) act_auth" where
  "getStaff i =
     bnd (reads (find_staff (\<lambda>s. s_id s = i))) (\<lambda>z. case z of
       None \<Rightarrow> throw (NotFound (''Staff '' @ nat_str i @ '' not found''))
     | Some s \<Rightarrow> bnd (staffGroup s) (\<lambda>g. ret (s, g)))"

definition assertCanAssignGroup :: "nat \<Rightarrow> principal option \<Rightarrow> staff_group act_auth" where
  "assertCanAssignGroup groupId actor =
     bnd (getGroup groupId) (\<lambda>g. sq (assertGroupWithinActorAuthority (g_isAdmin g) (g_permissions g) actor) (ret g))"

definition enabled_admin :: "db \<Rightarrow> staff \<Rightarrow> bool" where
  "enabled_admin d s \<longleftrightarrow> s_isEnabled s \<and> staff_is_admin d s"

definition countEnabledAdmins :: "auth_db \<Rightarrow> nat" where
  "countEnabledAdmins x = count_rows (enabled_admin (ad_db x)) (staffs (ad_db x))"

definition assertNotRemovingLastAdmin :: "staff \<Rightarrow> staff_group \<Rightarrow> bool \<Rightarrow> staff_group option \<Rightarrow> unit act_auth" where
  "assertNotRemovingLastAdmin s g disabling targetGroup =
     (if \<not> (s_isEnabled s \<and> g_isAdmin g) then ret ()
      else if \<not> disabling \<and> (case targetGroup of None \<Rightarrow> g_isAdmin g | Some t \<Rightarrow> g_isAdmin t) then ret ()
      else bnd (reads countEnabledAdmins) (\<lambda>enabledAdmins.
        require (\<not> enabledAdmins \<le> 1) (Forbidden ''Cannot disable or demote the last active administrator'')))"

definition create_staff :: "auth_env \<Rightarrow> staff_create \<Rightarrow> nat \<Rightarrow> staff" where
  "create_staff env dto i =
     \<lparr>s_id = i, s_email = sc_email dto, s_firstName = sc_firstName dto, s_lastName = sc_lastName dto,
      s_passwordHash = ae_hash env (sc_password dto), s_isEnabled = True, s_authVersion = 0,
      s_groupId = sc_staffGroupId dto, s_lastLoginAt = None, s_signature = sc_staffSignature dto,
      s_username = sc_username dto\<rparr>"

definition createStaff :: "auth_env \<Rightarrow> staff_create \<Rightarrow> principal option \<Rightarrow> staff act_auth" where
  "createStaff env dto actor =
     bnd (txn (
       bnd (reads (find_staff (\<lambda>s. s_email s = sc_email dto \<or> s_username s = sc_username dto))) (\<lambda>exist.
       sq (require (exist = None) (Conflict ''Email or username already in use''))
      (sq (assertCanAssignGroup (sc_staffGroupId dto) actor)
      (bnd (validateDepartmentAssignments (sc_departmentIds dto) actor) (\<lambda>deps.
       bnd (reads ad_seq_staff) (\<lambda>i.
       sq (modify (\<lambda>x. (upd_db (\<lambda>d. d\<lparr>staffs := staffs d @ [create_staff env dto i],
              dept_staff := dept_staff d @ map (\<lambda>dep. (dep, i)) deps\<rparr>) x)\<lparr>ad_seq_staff := Suc i\<rparr>))
          (ret (create_staff env dto i))))))))) (\<lambda>s.
     sq (rbac_log actor ''staff.create'' ''staff'' (s_id s)) (ret s))"

definition or_keep :: "'a option \<Rightarrow> 'a \<Rightarrow> 'a" where
  "or_keep z y = (case z of None \<Rightarrow> y | Some v \<Rightarrow> v)"

definition patch_staff :: "staff_patch \<Rightarrow> string option \<Rightarrow> bool \<Rightarrow> staff \<Rightarrow> staff" where
  "patch_staff dto passwordHash invalidating s =
     (if invalidating then bump s else s)
       \<lparr>s_email := or_keep (sp_email dto) (s_email s), s_username := or_keep (sp_username dto) (s_username s),
        s_firstName := or_keep (sp_firstName dto) (s_firstName s), s_lastName := or_keep (sp_lastName dto) (s_lastName s),
        s_groupId := or_keep (sp_staffGroupId dto) (s_groupId s), s_signature := or_keep (sp_signature dto) (s_signature s),
        s_isEnabled := or_keep (sp_isEnabled dto) (s_isEnabled s),
        s_passwordHash := or_keep passwordHash (s_passwordHash s)\<rparr>"

text \<open>What a patch changes, as the service classifies it.\<close>

definition new_password :: "staff_patch \<Rightarrow> string option" where
  "new_password dto = (case sp_password dto of None \<Rightarrow> None | Some p \<Rightarrow> if p = '''' then None else Some p)"

definition role_changed :: "staff_patch \<Rightarrow> staff \<Rightarrow> bool" where
  "role_changed dto s \<longleftrightarrow> or_keep (sp_staffGroupId dto) (s_groupId s) \<noteq> s_groupId s"

definition enabled_changed :: "staff_patch \<Rightarrow> staff \<Rightarrow> bool" where
  "enabled_changed dto s \<longleftrightarrow> or_keep (sp_isEnabled dto) (s_isEnabled s) \<noteq> s_isEnabled s"

definition is_disabling :: "staff_patch \<Rightarrow> staff \<Rightarrow> bool" where
  "is_disabling dto s \<longleftrightarrow> enabled_changed dto s \<and> sp_isEnabled dto = Some False"

definition email_changed :: "staff_patch \<Rightarrow> staff \<Rightarrow> bool" where
  "email_changed dto s \<longleftrightarrow> or_keep (sp_email dto) (s_email s) \<noteq> s_email s"

definition session_invalidating :: "staff_patch \<Rightarrow> staff \<Rightarrow> bool" where
  "session_invalidating dto s \<longleftrightarrow> role_changed dto s \<or> new_password dto \<noteq> None \<or> is_disabling dto s \<or> email_changed dto s"

text \<open>\<open>staff.update\<close> under the unique columns.\<close>

definition write_staff :: "nat \<Rightarrow> (staff \<Rightarrow> staff) \<Rightarrow> unit act_auth" where
  "write_staff i f =
     bnd (reads (\<lambda>x. staffs (ad_db x))) (\<lambda>rows. case find_row (\<lambda>s. s_id s = i) rows of
       None \<Rightarrow> throw RecordNotFound
     | Some s \<Rightarrow>
         sq (require (\<not> list_ex (\<lambda>q. s_id q \<noteq> i \<and> (s_email q = s_email (f s) \<or> s_username q = s_username (f s))) rows)
               (UniqueViolation ''Staff''))
            (modify (set_staffs (\<lambda>s. s_id s = i) f)))"

definition replace_departments :: "nat \<Rightarrow> nat list \<Rightarrow> auth_db \<Rightarrow> auth_db" where
  "replace_departments i deps =
     upd_db (\<lambda>d. d\<lparr>dept_staff := delete_rows (\<lambda>m. snd m = i) (dept_staff d) @ map (\<lambda>dep. (dep, i)) deps\<rparr>)"

definition audit_update :: "principal option \<Rightarrow> staff_patch \<Rightarrow> staff \<Rightarrow> unit act_auth" where
  "audit_update actor dto s =
     (let role = role_changed dto s; password = (new_password dto \<noteq> None); enabled = enabled_changed dto s; i = s_id s in
      sq (when_act role (rbac_log actor ''staff.role_change'' ''staff'' i))
     (sq (when_act password (rbac_log actor ''staff.password_reset'' ''staff'' i))
     (sq (when_act enabled (rbac_log actor (if or_keep (sp_isEnabled dto) (s_isEnabled s) then ''staff.enable'' else ''staff.disable'') ''staff'' i))
         (when_act (\<not> role \<and> \<not> password \<and> \<not> enabled) (rbac_log actor ''staff.update'' ''staff'' i)))))"

text \<open>The target group of a patch, the write under the lock's transaction, and the request.\<close>

definition target_group :: "staff_patch \<Rightarrow> principal option \<Rightarrow> staff_group option act_auth" where
  "target_group dto actor =
     (case sp_staffGroupId dto of None \<Rightarrow> ret None | Some k \<Rightarrow> bnd (assertCanAssignGroup k actor) (\<lambda>t. ret (Some t)))"

definition write_patch :: "auth_env \<Rightarrow> nat \<Rightarrow> staff_patch \<Rightarrow> principal option \<Rightarrow> staff \<Rightarrow> unit act_auth" where
  "write_patch env i dto actor s =
     txn (sq (case sp_departmentIds dto of
                None \<Rightarrow> ret ()
              | Some ids \<Rightarrow> bnd (validateDepartmentAssignments ids actor) (\<lambda>deps. modify (replace_departments i deps)))
             (write_staff i (patch_staff dto (map_option (ae_hash env) (new_password dto)) (session_invalidating dto s))))"

definition update_known :: "auth_env \<Rightarrow> nat \<Rightarrow> staff_patch \<Rightarrow> principal option \<Rightarrow> staff \<Rightarrow> staff_group \<Rightarrow> staff act_auth" where
  "update_known env i dto actor s g =
     sq (assertGroupWithinActorAuthority (g_isAdmin g) (g_permissions g) actor)
    (bnd (target_group dto actor) (\<lambda>targetGroup.
     sq (when_act (is_disabling dto s \<or> role_changed dto s \<and> targetGroup \<noteq> None)
           (assertNotRemovingLastAdmin s g (is_disabling dto s) targetGroup))
    (sq (write_patch env i dto actor s)
    (sq (when_act (session_invalidating dto s) (revokeAllForStaff env i))
    (sq (audit_update actor dto s)
        (ret (patch_staff dto (map_option (ae_hash env) (new_password dto)) (session_invalidating dto s) s)))))))"

definition updateStaff :: "auth_env \<Rightarrow> nat \<Rightarrow> staff_patch \<Rightarrow> principal option \<Rightarrow> staff act_auth" where
  "updateStaff env i dto actor = bnd (getStaff i) (\<lambda>(s, g). update_known env i dto actor s g)"

definition disableStaff :: "auth_env \<Rightarrow> nat \<Rightarrow> principal option \<Rightarrow> unit act_auth" where
  "disableStaff env i actor =
     bnd (getStaff i) (\<lambda>(s, g).
     sq (assertGroupWithinActorAuthority (g_isAdmin g) (g_permissions g) actor)
    (sq (assertNotRemovingLastAdmin s g True None)
    (sq (update_staff i (\<lambda>s. (bump s)\<lparr>s_isEnabled := False\<rparr>))
    (sq (when_act (s_isEnabled s) (revokeAllForStaff env i))
        (rbac_log actor ''staff.disable'' ''staff'' i)))))"

end
