(* ===== verification/SessionSafety.thy ===== *)
theory SessionSafety
  imports StaffAdmin
begin

text \<open>
  What the session and role machinery guarantees under every interleaving: a security change ends
  every session that started before it, a refresh token is rotated once, a reset link is used
  once, a delegated manager cannot raise anybody's authority, and an administrator remains.
\<close>

section \<open>Versions only grow\<close>

definition version :: "nat \<Rightarrow> auth_db \<Rightarrow> int option" where
  "version i x = map_option s_authVersion (find_staff (\<lambda>s. s_id s = i) x)"

definition ages :: "auth_db \<Rightarrow> auth_db \<Rightarrow> bool" where
  "ages x x' \<longleftrightarrow> (\<forall>i v. version i x = Some v \<longrightarrow> (\<exists>v'. version i x' = Some v' \<and> v \<le> v'))"

lemma agesD: "ages x x' \<Longrightarrow> version i x = Some v \<Longrightarrow> \<exists>v'. version i x' = Some v' \<and> v \<le> v'"
  by (simp add: ages_def)

interpretation ages: frame ages
proof
  show "ages x z" if a: "ages x y" "ages y z" for x y z
    unfolding ages_def
  proof (intro allI impI)
    fix i v
    assume "version i x = Some v"
    then obtain v' where v': "version i y = Some v'" "v \<le> v'" using agesD [OF a(1)] by blast
    moreover from agesD [OF a(2) v'(1)] obtain v'' where "version i z = Some v''" "v' \<le> v''" by blast
    ultimately show "\<exists>v''. version i z = Some v'' \<and> v \<le> v''" by force
  qed
qed (simp add: ages_def)

lemma version_same: "staffs (ad_db x') = staffs (ad_db x) \<Longrightarrow> version i x' = version i x"
  by (simp add: version_def find_staff_def)

lemma ages_same:
  assumes "\<And>x. staffs (ad_db (f x)) = staffs (ad_db x)"
  shows "ages.stays (modify f)"
  by (rule ages.stays_modify) (simp add: ages_def version_same [OF assms])

lemma version_set_staffs:
  "(\<And>s. s_id (f s) = s_id s) \<Longrightarrow>
   version i (set_staffs p f x) = map_option (\<lambda>s. s_authVersion (if p s then f s else s)) (find_staff (\<lambda>s. s_id s = i) x)"
  by (simp add: version_def find_staff_def set_staffs_def upd_db_def find_row_update_rows option.map_comp comp_def)

lemma ages_set_staffs:
  assumes "\<And>s. s_id (f s) = s_id s" "\<And>s. s_authVersion s \<le> s_authVersion (f s)"
  shows "ages x (set_staffs p f x)"
  unfolding ages_def version_set_staffs [of f, OF assms(1)]
proof (intro allI impI)
  fix i v
  assume "version i x = Some v"
  then obtain s where "find_staff (\<lambda>s. s_id s = i) x = Some s" "v = s_authVersion s" by (auto simp: version_def)
  then show "\<exists>v'. map_option (\<lambda>s. s_authVersion (if p s then f s else s)) (find_staff (\<lambda>s. s_id s = i) x) = Some v' \<and> v \<le> v'"
    using assms(2) by simp
qed

lemma ages_staffs: "(\<And>s. s_id (f s) = s_id s) \<Longrightarrow> (\<And>s. s_authVersion s \<le> s_authVersion (f s)) \<Longrightarrow> ages.stays (modify (set_staffs p f))"
  by (rule ages.stays_modify) (rule ages_set_staffs)

lemma bump_simps [simp]: "s_id (bump s) = s_id s" "s_authVersion (bump s) = s_authVersion s + 1" "s_email (bump s) = s_email s"
  "s_groupId (bump s) = s_groupId s" "s_isEnabled (bump s) = s_isEnabled s"
  by (simp_all add: bump_def)

lemma staffs_unchanged [simp]:
  "staffs (ad_db (revoke_refresh p t x)) = staffs (ad_db x)" "staffs (ad_db (burn_resets q t x)) = staffs (ad_db x)"
  by (simp_all add: revoke_refresh_def burn_resets_def)

lemma ages_update_staff:
  "(\<And>s. s_id (f s) = s_id s) \<Longrightarrow> (\<And>s. s_authVersion s \<le> s_authVersion (f s)) \<Longrightarrow> ages.stays (update_staff i f)"
  unfolding update_staff_def by (intro ages.stays_bnd ages.stays_reads ages.stays_option ages.stays_throw ages_staffs)

lemma ages_redis: "ages.stays (upd_redis f)"
  unfolding upd_redis_def by (rule ages_same) simp

lemma ages_group: "ages.stays (staffGroup s)"
  unfolding staffGroup_def by (intro ages.stays_intros)

lemmas ages_basic = ages.stays_intros ages_same ages_staffs ages_update_staff ages_redis ages_group

lemma ages_prod: "(\<And>a b. ages.stays (f a b)) \<Longrightarrow> ages.stays (case z of (a, b) \<Rightarrow> f a b)"
  by (cases z) simp

lemma ages_cache: "ages.stays (block env j t)" "ages.stays (revokeStaffAccessBefore env i t)"
  "ages.stays (assertNotThrottled env e ip)" "ages.stays (recordFailure env e ip)" "ages.stays (clear_throttle env e ip)"
  "ages.stays (consume env e ip)"
  unfolding block_def revokeStaffAccessBefore_def assertNotThrottled_def recordFailure_def clear_throttle_def consume_def Let_def
  by (intro ages_basic; simp)+

lemma ages_revoke: "ages.stays (revokeAllForStaff env i)" "ages.stays (revokeAllForGroup env i)"
  unfolding revokeAllForStaff_def revokeAllForGroup_def by (intro ages_basic ages_cache; simp)+

lemma ages_sessions: "ages.stays (revokeStaffSessions env i)"
  unfolding revokeStaffSessions_def by (intro ages_basic ages_revoke; simp)

lemma ages_logout: "ages.stays (logout env i j t)"
  unfolding logout_def by (intro ages_basic ages_sessions ages_cache)

lemma ages_login: "ages.stays (login_check env e p ip)" "ages.stays (login_issue env s)"
  unfolding login_check_def login_issue_def validateStaff_def create_refresh_def
  by (intro ages_basic ages_prod ages_cache; simp)+

lemma ages_refresh: "ages.stays (refresh_check env raw)" "ages.stays (refresh_commit env row s)"
  unfolding refresh_check_def refresh_commit_def consume_refresh_def create_refresh_def Let_def
  by (intro ages_basic ages_prod; simp)+

lemma ages_resets: "ages.stays (issue_reset env e)" "ages.stays (activateDeliveredReset env k i v)" "ages.stays (resetPassword env tok pw)"
  unfolding issue_reset_def activateDeliveredReset_def resetPassword_def apply_reset_def create_reset_def Let_def
  by (intro ages_basic ages_prod ages_revoke; simp)+

lemma ages_log: "ages.stays (rbac_log a b c d)"
  unfolding rbac_log_def by (intro ages_basic; simp)

lemma ages_authority: "ages.stays (assertGroupWithinActorAuthority b ps a)" "ages.stays (validateDepartmentAssignments ds a)"
  "ages.stays (getGroup i)" "ages.stays (assertNotRemovingLastAdmin s g b t)" "ages.stays (getStaff i)"
  unfolding assertGroupWithinActorAuthority_def validateDepartmentAssignments_def getGroup_def assertNotRemovingLastAdmin_def getStaff_def
  by (intro ages_basic)+

lemma patch_staff_simps: "s_id (patch_staff dto h b s) = s_id s" "s_authVersion s \<le> s_authVersion (patch_staff dto h b s)"
  by (simp_all add: patch_staff_def)

lemma ages_write: "ages.stays (write_staff i (patch_staff dto h b))"
  unfolding write_staff_def by (intro ages_basic; simp add: patch_staff_simps)

lemma ages_updateStaff: "ages.stays (updateStaff env i dto a)"
  unfolding updateStaff_def update_known_def target_group_def write_patch_def Let_def assertCanAssignGroup_def audit_update_def
  by (intro ages_basic ages_prod ages_authority ages_log ages_write ages_revoke; simp add: replace_departments_def upd_db_def)

lemma ages_disableStaff: "ages.stays (disableStaff env i a)"
  unfolding disableStaff_def by (intro ages_basic ages_prod ages_authority ages_log ages_revoke; simp)

lemma ages_groups: "ages.stays (createGroup g a)" "ages.stays (updateGroup env i ti ps a)" "ages.stays (deleteGroup i a)"
  unfolding createGroup_def updateGroup_def deleteGroup_def Let_def
  by (intro ages_basic ages_authority ages_log ages_revoke; simp add: upd_db_def)+

lemma ages_append: "ages x (upd_db (\<lambda>d. d\<lparr>staffs := staffs d @ rows, dept_staff := ds d\<rparr>) x)"
  by (auto simp: ages_def version_def find_staff_def upd_db_def find_row_append split: option.split)

lemma ages_createStaff: "ages.stays (createStaff env dto a)"
proof -
  have "ages x ((upd_db (\<lambda>d. d\<lparr>staffs := staffs d @ rows, dept_staff := ds d\<rparr>) x)\<lparr>ad_seq_staff := k\<rparr>)" for rows ds k x
    using ages_append [of x ds rows] by (simp add: ages_def version_def find_staff_def)
  then show ?thesis
    unfolding createStaff_def assertCanAssignGroup_def
    by (intro ages_basic ages_authority ages_log ages.stays_modify)
qed


section \<open>Account requests\<close>

text \<open>The requests that change accounts and roles.\<close>

datatype account_request =
    ALogout nat "string option" "int option"
  | AReset string string
  | AUpdate nat staff_patch "principal option"
  | ADisable nat "principal option"
  | ACreate staff_create "principal option"
  | AUpdateGroup nat "string option" "string list option" "principal option"
  | ACreateGroup group_input "principal option"
  | ADeleteGroup nat "principal option"

fun run_account :: "auth_env \<Rightarrow> account_request \<Rightarrow> unit act_auth" where
  "run_account env (ALogout i j e) = logout env i j e"
| "run_account env (AReset tok pw) = resetPassword env tok pw"
| "run_account env (AUpdate i dto a) = sq (updateStaff env i dto a) (ret ())"
| "run_account env (ADisable i a) = disableStaff env i a"
| "run_account env (ACreate dto a) = sq (createStaff env dto a) (ret ())"
| "run_account env (AUpdateGroup i ti ps a) = sq (updateGroup env i ti ps a) (ret ())"
| "run_account env (ACreateGroup g a) = sq (createGroup g a) (ret ())"
| "run_account env (ADeleteGroup i a) = deleteGroup i a"

text \<open>The accounts whose sessions a request is meant to end.\<close>

fun ends_sessions :: "auth_env \<Rightarrow> account_request \<Rightarrow> auth_db \<Rightarrow> nat \<Rightarrow> bool" where
  "ends_sessions env (ALogout k j e) x i \<longleftrightarrow> i = k"
| "ends_sessions env (AReset tok pw) x i \<longleftrightarrow> (\<exists>r. find_reset (ae_sha256 env tok) x = Some r \<and> pr_staffId r = i)"
| "ends_sessions env (AUpdate k dto a) x i \<longleftrightarrow> i = k \<and> (\<exists>s. find_staff (\<lambda>s. s_id s = k) x = Some s \<and> session_invalidating dto s)"
| "ends_sessions env (ADisable k a) x i \<longleftrightarrow> i = k"
| "ends_sessions env (AUpdateGroup k ti ps a) x i \<longleftrightarrow>
     (\<exists>s g p. find_staff (\<lambda>s. s_id s = i) x = Some s \<and> s_groupId s = k \<and> group_by_id k (ad_db x) = Some g \<and>
        ps = Some p \<and> \<not> sameStringSet (g_permissions g) p)"
| "ends_sessions env _ x i \<longleftrightarrow> False"

lemma ages_account: "ages.stays (run_account env q)"
  by (cases q) (auto intro!: ages.stays_sq ages.stays_ret ages_logout ages_resets ages_updateStaff ages_disableStaff ages_createStaff ages_groups)

definition bumped :: "nat \<Rightarrow> auth_db \<Rightarrow> auth_db \<Rightarrow> bool" where
  "bumped i x x' \<longleftrightarrow> (\<exists>v v'. version i x = Some v \<and> version i x' = Some v' \<and> v < v')"

lemma bumped_ages: "bumped i x x1 \<Longrightarrow> ages x1 x' \<Longrightarrow> bumped i x x'"
  unfolding bumped_def ages_def by (meson less_le_trans)

lemma ages_bumped: "version i x = version i x0 \<Longrightarrow> bumped i x0 x1 \<Longrightarrow> bumped i x x1"
  by (simp add: bumped_def)

lemma bumped_set:
  assumes "find_staff (\<lambda>s. s_id s = i) x = Some s" "p s" "\<And>s. s_id (f s) = s_id s" "s_authVersion s < s_authVersion (f s)"
  shows "bumped i x (set_staffs p f x)"
  using assms by (simp add: bumped_def version_set_staffs) (simp add: version_def)

lemma run_update_staff:
  "update_staff i f x = (Inr u, x') \<longleftrightarrow> (\<exists>s. find_staff (\<lambda>s. s_id s = i) x = Some s) \<and> x' = set_staffs (\<lambda>s. s_id s = i) f x"
  by (auto simp: update_staff_def run_rules split: option.splits)

lemma run_when: "when_act b m x = (Inr u, x') \<longleftrightarrow> (if b then m x = (Inr u, x') else x' = x)"
  by (auto simp: when_act_def ret_def)

lemma run_option:
  "(case z of None \<Rightarrow> m | Some y \<Rightarrow> f y) x = (Inr u, x') \<longleftrightarrow>
   (z = None \<and> m x = (Inr u, x')) \<or> (\<exists>y. z = Some y \<and> f y x = (Inr u, x'))"
  by (cases z) auto

text \<open>A request that is meant to end the sessions of an account raises its version.\<close>

lemma logout_bumps: "logout env i j e x = (Inr u, x') \<Longrightarrow> bumped i x x'"
proof -
  assume "logout env i j e x = (Inr u, x')"
  then obtain u1 x1 where "revokeStaffSessions env i x = (Inr u1, x1)" and rest: "ages x1 x'"
    using ages.staysD [of "case j of None \<Rightarrow> ret () | Some jti \<Rightarrow> if jti = '''' then ret ()
             else block env jti (case filled e of None \<Rightarrow> ae_accessTtl env | Some e \<Rightarrow> e - ae_now env div 1000)"]
    unfolding logout_def run_sq by (meson ages.stays_intros ages_cache)
  then obtain s u2 x2 where s: "find_staff (\<lambda>s. s_id s = i) x = Some s" "x2 = revoke_refresh (\<lambda>r. rf_staffId r = i) (ae_now env) (set_staffs (\<lambda>s. s_id s = i) bump x)"
    "revokeAllForStaff env i x2 = (Inr u2, x1)"
    unfolding revokeStaffSessions_def run_rules run_update_staff by auto
  have "s_id s = i" using s(1) by (auto simp: find_staff_def dest: find_row_SomeD)
  then have "bumped i x (set_staffs (\<lambda>s. s_id s = i) bump x)" by (intro bumped_set [OF s(1)]) auto
  then have "bumped i x x2" unfolding s(2) bumped_def by (simp add: version_def find_staff_def)
  with rest ages.staysD [OF ages_revoke(1) s(3)] show "bumped i x x'" by (blast intro: bumped_ages)
qed

lemma getStaff_run: "getStaff i x = (Inr (s, g), x') \<longleftrightarrow>
   x' = x \<and> find_staff (\<lambda>s. s_id s = i) x = Some s \<and> group_by_id (s_groupId s) (ad_db x) = Some g"
  by (auto simp: getStaff_def staffGroup_def run_rules run_option)

lemma find_staff_id: "find_staff (\<lambda>s. s_id s = i) x = Some s \<Longrightarrow> s_id s = i"
  by (auto simp: find_staff_def dest: find_row_SomeD)


lemma run_authority:
  "assertGroupWithinActorAuthority b ps a x = (Inr u, x') \<longleftrightarrow> x' = x \<and> within_authority a b ps"
  by (auto simp: assertGroupWithinActorAuthority_def within_authority_def run_rules list_all_iff split: option.splits)

lemma run_getGroup: "getGroup i x = (Inr g, x') \<longleftrightarrow> x' = x \<and> group_by_id i (ad_db x) = Some g"
  by (auto simp: getGroup_def run_rules run_option)

lemma run_assign:
  "assertCanAssignGroup k a x = (Inr g, x') \<longleftrightarrow>
   x' = x \<and> group_by_id k (ad_db x) = Some g \<and> within_authority a (g_isAdmin g) (g_permissions g)"
  by (auto simp: assertCanAssignGroup_def run_rules run_getGroup run_authority)

definition last_admin_ok :: "staff \<Rightarrow> staff_group \<Rightarrow> bool \<Rightarrow> staff_group option \<Rightarrow> auth_db \<Rightarrow> bool" where
  "last_admin_ok s g disabling t x \<longleftrightarrow>
     \<not> (s_isEnabled s \<and> g_isAdmin g) \<or> (\<not> disabling \<and> (case t of None \<Rightarrow> g_isAdmin g | Some t \<Rightarrow> g_isAdmin t)) \<or> countEnabledAdmins x > 1"

lemma run_last_admin: "assertNotRemovingLastAdmin s g b t x = (Inr u, x') \<longleftrightarrow> x' = x \<and> last_admin_ok s g b t x"
  by (auto simp: assertNotRemovingLastAdmin_def last_admin_ok_def run_rules)

lemma run_departments:
  "validateDepartmentAssignments ds a x = (Inr y, x') \<longleftrightarrow>
   x' = x \<and> y = ds \<and> (case a of None \<Rightarrow> True | Some a \<Rightarrow> pc_isAdmin a) \<and> distinct ds \<and> set ds \<subseteq> set (departments (ad_db x))"
  by (auto simp: validateDepartmentAssignments_def run_rules list_all_iff)

lemma run_write_staff:
  "write_staff i f x = (Inr u, x') \<longleftrightarrow>
   (\<exists>s. find_staff (\<lambda>s. s_id s = i) x = Some s \<and>
     (\<forall>q \<in> set (staffs (ad_db x)). s_id q \<noteq> i \<longrightarrow> s_email q \<noteq> s_email (f s) \<and> s_username q \<noteq> s_username (f s))) \<and>
   x' = set_staffs (\<lambda>s. s_id s = i) f x"
  by (auto simp: write_staff_def run_rules run_option list_ex_iff find_staff_def)

lemma run_log: "rbac_log a b c i x = (Inr u, x') \<Longrightarrow> \<exists>e. x' = x\<lparr>ad_rbac := ad_rbac x @ [e]\<rparr>"
  by (auto simp: rbac_log_def modify_def)

text \<open>The writes of a successful update of an account.\<close>

definition written :: "nat \<Rightarrow> staff_patch \<Rightarrow> string option \<Rightarrow> bool \<Rightarrow> auth_db \<Rightarrow> auth_db" where
  "written i dto h b x =
     set_staffs (\<lambda>s. s_id s = i) (patch_staff dto h b)
       (case sp_departmentIds dto of None \<Rightarrow> x | Some ids \<Rightarrow> replace_departments i ids x)"

text \<open>Revoking and logging leave the database of staff and tickets alone.\<close>

definition same_data :: "auth_db \<Rightarrow> auth_db \<Rightarrow> bool" where
  "same_data x x' \<longleftrightarrow> ad_db x' = ad_db x"

interpretation data: frame same_data
  by unfold_locales (auto simp: same_data_def)

lemma data_modify: "(\<And>x. ad_db (f x) = ad_db x) \<Longrightarrow> data.stays (modify f)"
  by (rule data.stays_modify) (simp add: same_data_def)

lemma data_redis: "data.stays (upd_redis f)"
  unfolding upd_redis_def by (rule data_modify) simp

lemma data_revoke: "data.stays (revokeAllForStaff env i)" "data.stays (revokeAllForGroup env i)"
  unfolding revokeAllForStaff_def revokeAllForGroup_def revokeStaffAccessBefore_def
  by (intro data.stays_intros data_redis data_modify; simp add: revoke_refresh_def burn_resets_def)+

lemma data_log: "data.stays (rbac_log a b c d)"
  unfolding rbac_log_def by (rule data_modify) simp

lemma data_audit: "data.stays (audit_update a dto s)"
  unfolding audit_update_def Let_def by (intro data.stays_intros data_log)

lemma ages_audit: "ages.stays (audit_update a dto s)"
  unfolding audit_update_def Let_def by (intro ages.stays_intros ages_log)

lemma run_updateStaff:
  assumes "updateStaff env i dto a x = (Inr r, x')"
  obtains s g where "find_staff (\<lambda>s. s_id s = i) x = Some s" "group_by_id (s_groupId s) (ad_db x) = Some g"
    "within_authority a (g_isAdmin g) (g_permissions g)"
    "\<And>k. sp_staffGroupId dto = Some k \<Longrightarrow> \<exists>t. group_by_id k (ad_db x) = Some t \<and> within_authority a (g_isAdmin t) (g_permissions t) \<and>
       (is_disabling dto s \<or> role_changed dto s \<longrightarrow> last_admin_ok s g (is_disabling dto s) (Some t) x)"
    "sp_staffGroupId dto = None \<Longrightarrow> is_disabling dto s \<Longrightarrow> last_admin_ok s g True None x"
    "sp_departmentIds dto \<noteq> None \<Longrightarrow> (case a of None \<Rightarrow> True | Some a \<Rightarrow> pc_isAdmin a)"
    "ad_db x' = ad_db (written i dto (map_option (ae_hash env) (new_password dto)) (session_invalidating dto s) x)"
    "ages (written i dto (map_option (ae_hash env) (new_password dto)) (session_invalidating dto s) x) x'"
proof -
  let ?h = "map_option (ae_hash env) (new_password dto)"
  from assms obtain s g where s: "find_staff (\<lambda>s. s_id s = i) x = Some s" "group_by_id (s_groupId s) (ad_db x) = Some g"
    and known: "update_known env i dto a s g x = (Inr r, x')"
    unfolding updateStaff_def run_bnd split_paired_Ex getStaff_run prod.case by blast
  from known obtain t u1 u2 u3 u4 x1 x2 where auth: "within_authority a (g_isAdmin g) (g_permissions g)"
    and t: "target_group dto a x = (Inr t, x)"
    and last: "when_act (is_disabling dto s \<or> role_changed dto s \<and> t \<noteq> None) (assertNotRemovingLastAdmin s g (is_disabling dto s) t) x = (Inr u1, x)"
    and w: "write_patch env i dto a s x = (Inr u2, x1)"
    and rest: "when_act (session_invalidating dto s) (revokeAllForStaff env i) x1 = (Inr u3, x2)" "audit_update a dto s x2 = (Inr u4, x')"
  proof -
    assume goal: "\<And>t u1 u2 x1 u3 x2 u4. within_authority a (g_isAdmin g) (g_permissions g) \<Longrightarrow> target_group dto a x = (Inr t, x) \<Longrightarrow>
      when_act (is_disabling dto s \<or> role_changed dto s \<and> t \<noteq> None) (assertNotRemovingLastAdmin s g (is_disabling dto s) t) x = (Inr u1, x) \<Longrightarrow>
      write_patch env i dto a s x = (Inr u2, x1) \<Longrightarrow> when_act (session_invalidating dto s) (revokeAllForStaff env i) x1 = (Inr u3, x2) \<Longrightarrow>
      audit_update a dto s x2 = (Inr u4, x') \<Longrightarrow> thesis"
    have same: "target_group dto a y = (Inr t, y') \<Longrightarrow> y' = y" for y y' t
      by (auto simp: target_group_def run_option run_rules run_assign)
    have same': "when_act b (assertNotRemovingLastAdmin s g d t) y = (Inr u, y') \<Longrightarrow> y' = y" for b d t y y' u
      by (auto simp: run_when run_last_admin split: if_splits)
    from known show thesis
      unfolding update_known_def run_sq run_bnd run_authority run_ret
      by (elim exE conjE) (metis goal same same')
  qed
  have x1: "x1 = written i dto ?h (session_invalidating dto s) x"
    using w by (auto simp: write_patch_def written_def run_rules run_option run_write_staff run_departments)
  have deps: "sp_departmentIds dto \<noteq> None \<Longrightarrow> (case a of None \<Rightarrow> True | Some a \<Rightarrow> pc_isAdmin a)"
    using w by (auto simp: write_patch_def run_rules run_option run_departments)
  have "data.stays (when_act (session_invalidating dto s) (revokeAllForStaff env i))" by (intro data.stays_intros data_revoke)
  with rest data_audit have same: "ad_db x' = ad_db x1"
    by (metis data.staysD same_data_def)
  have "ages.stays (when_act (session_invalidating dto s) (revokeAllForStaff env i))" by (intro ages.stays_intros ages_revoke)
  with rest ages_audit have older: "ages x1 x'"
    by (metis ages.staysD ages.frame_trans)
  show ?thesis
  proof (rule that [OF s auth])
    show "\<exists>t. group_by_id k (ad_db x) = Some t \<and> within_authority a (g_isAdmin t) (g_permissions t) \<and>
       (is_disabling dto s \<or> role_changed dto s \<longrightarrow> last_admin_ok s g (is_disabling dto s) (Some t) x)" if "sp_staffGroupId dto = Some k" for k
      using t last that by (auto simp: target_group_def run_rules run_assign run_when run_last_admin split: if_splits)
    show "last_admin_ok s g True None x" if "sp_staffGroupId dto = None" "is_disabling dto s"
      using t last that by (auto simp: target_group_def run_rules run_when run_last_admin split: if_splits)
  qed (use deps same older x1 in simp_all)
qed


lemma update_bumps:
  assumes "updateStaff env i dto a x = (Inr r, x')" "find_staff (\<lambda>s. s_id s = i) x = Some s" "session_invalidating dto s"
  shows "bumped i x x'"
proof (rule run_updateStaff [OF assms(1)])
  let ?h = "map_option (ae_hash env) (new_password dto)"
  fix s' g
  assume s': "find_staff (\<lambda>s. s_id s = i) x = Some s'"
    and old: "ages (written i dto ?h (session_invalidating dto s') x) x'"
  let ?y = "case sp_departmentIds dto of None \<Rightarrow> x | Some ids \<Rightarrow> replace_departments i ids x"
  have same: "find_staff p ?y = find_staff p x" for p
    by (simp add: find_staff_def replace_departments_def upd_db_def split: option.split)
  have "s' = s" using s' assms(2) by simp
  then have "bumped i ?y (written i dto ?h (session_invalidating dto s') x)"
    using s' assms(3) find_staff_id [OF assms(2)] unfolding written_def
    by (intro bumped_set [of i _ s]) (auto simp: same patch_staff_def)
  moreover have "version i x = version i ?y" by (simp add: version_def same)
  ultimately show ?thesis using old by (blast intro: ages_bumped bumped_ages)
qed

lemma disable_bumps:
  assumes "disableStaff env i a x = (Inr u, x')"
  shows "bumped i x x'"
proof -
  have after: "ages.stays (sq (when_act b (revokeAllForStaff env i)) (rbac_log a c d i))" for b c d
    by (intro ages.stays_intros ages_revoke ages_log)
  from assms obtain s g where s: "find_staff (\<lambda>s. s_id s = i) x = Some s"
    and k: "sq (assertGroupWithinActorAuthority (g_isAdmin g) (g_permissions g) a)
      (sq (assertNotRemovingLastAdmin s g True None)
      (sq (update_staff i (\<lambda>s. (bump s)\<lparr>s_isEnabled := False\<rparr>))
      (sq (when_act (s_isEnabled s) (revokeAllForStaff env i)) (rbac_log a ''staff.disable'' ''staff'' i)))) x = (Inr u, x')"
    unfolding disableStaff_def run_bnd split_paired_Ex getStaff_run prod.case by blast
  from k obtain u1 where rest: "sq (when_act (s_isEnabled s) (revokeAllForStaff env i)) (rbac_log a ''staff.disable'' ''staff'' i)
      (set_staffs (\<lambda>s. s_id s = i) (\<lambda>s. (bump s)\<lparr>s_isEnabled := False\<rparr>) x) = (Inr u, x')"
    unfolding run_sq [of "assertGroupWithinActorAuthority b c d" for b c d] run_sq [of "assertNotRemovingLastAdmin b c d e" for b c d e]
      run_sq [of "update_staff b c" for b c] run_authority run_last_admin run_update_staff by blast
  have "bumped i x (set_staffs (\<lambda>s. s_id s = i) (\<lambda>s. (bump s)\<lparr>s_isEnabled := False\<rparr>) x)"
    using find_staff_id [OF s] by (intro bumped_set [OF s]) auto
  with ages.staysD [OF after rest] show ?thesis by (rule bumped_ages [rotated])
qed

lemma group_bumps:
  assumes "updateGroup env k ti ps a x = (Inr r, x')" "find_staff (\<lambda>s. s_id s = i) x = Some s" "s_groupId s = k"
    and "group_by_id k (ad_db x) = Some g" "ps = Some p" "\<not> sameStringSet (g_permissions g) p"
  shows "bumped i x x'"
proof -
  let ?y = "upd_db (\<lambda>d. d\<lparr>groups := update_rows (\<lambda>g. g_id g = k) (patch_group ti ps) (groups d)\<rparr>) x"
  let ?rest = "sq (sq (modify (set_staffs (\<lambda>s. s_groupId s = k) bump)) (sq (revokeAllForGroup env k) (rbac_log a ''group.permissions_change'' ''group'' k)))
     (ret (patch_group ti ps g))"
  from assms obtain u where run: "?rest ?y = (Inr r, x')"
    unfolding updateGroup_def Let_def
    by (auto simp: run_bnd [of "getGroup i" for i] run_getGroup run_sq [of "assertGroupWithinActorAuthority b c d" for b c d] run_authority
        run_sq [of "modify f" for f] run_modify patch_group_def split: if_splits)
  have after: "ages.stays (sq (sq (revokeAllForGroup env k) (rbac_log a ''group.permissions_change'' ''group'' k)) (ret (patch_group ti ps g)))"
    by (intro ages.stays_intros ages_revoke ages_log)
  from run have "sq (sq (revokeAllForGroup env k) (rbac_log a ''group.permissions_change'' ''group'' k)) (ret (patch_group ti ps g))
      (set_staffs (\<lambda>s. s_groupId s = k) bump ?y) = (Inr r, x')"
    by (auto simp: run_rules)
  from ages.staysD [OF after this] have "ages (set_staffs (\<lambda>s. s_groupId s = k) bump ?y) x'" .
  moreover have same: "find_staff q ?y = find_staff q x" for q by (simp add: find_staff_def upd_db_def)
  have "bumped i ?y (set_staffs (\<lambda>s. s_groupId s = k) bump ?y)"
    using assms(2,3) by (intro bumped_set [of i _ s]) (auto simp: same)
  moreover have "version i x = version i ?y" by (simp add: version_def same)
  ultimately show ?thesis by (blast intro: ages_bumped bumped_ages)
qed


section \<open>Keys of accounts\<close>

definition accounts_ok :: "auth_db \<Rightarrow> bool" where
  "accounts_ok x \<longleftrightarrow> distinct (map s_id (staffs (ad_db x))) \<and> (\<forall>s \<in> set (staffs (ad_db x)). s_id s < ad_seq_staff x)"

text \<open>All but the creation of an account keep the keys.\<close>

definition same_keys :: "auth_db \<Rightarrow> auth_db \<Rightarrow> bool" where
  "same_keys x x' \<longleftrightarrow> map s_id (staffs (ad_db x')) = map s_id (staffs (ad_db x)) \<and> ad_seq_staff x' = ad_seq_staff x"

interpretation keys: frame same_keys
  by unfold_locales (auto simp: same_keys_def)

lemma accounts_ok_keys: "same_keys x x' \<Longrightarrow> accounts_ok x \<Longrightarrow> accounts_ok x'"
proof -
  assume a: "same_keys x x'" and b: "accounts_ok x"
  from a have "s_id ` set (staffs (ad_db x')) = s_id ` set (staffs (ad_db x))"
    unfolding same_keys_def by (metis list.set_map)
  then have "s_id s \<in> s_id ` set (staffs (ad_db x))" if "s \<in> set (staffs (ad_db x'))" for s using that by blast
  with a b show "accounts_ok x'" by (force simp: accounts_ok_def same_keys_def)
qed

lemma keys_modify: "(\<And>x. staffs (ad_db (f x)) = staffs (ad_db x) \<and> ad_seq_staff (f x) = ad_seq_staff x) \<Longrightarrow> keys.stays (modify f)"
  by (rule keys.stays_modify) (simp add: same_keys_def)

lemma keys_staffs: "(\<And>s. s_id (f s) = s_id s) \<Longrightarrow> keys.stays (modify (set_staffs p f))"
  by (rule keys.stays_modify) (simp add: same_keys_def set_staffs_def upd_db_def map_update_rows)

lemma keys_update: "(\<And>s. s_id (f s) = s_id s) \<Longrightarrow> keys.stays (update_staff i f)"
  unfolding update_staff_def by (intro keys.stays_bnd keys.stays_reads keys.stays_option keys.stays_throw keys_staffs)

lemma keys_redis: "keys.stays (upd_redis f)"
  unfolding upd_redis_def by (rule keys_modify) simp

lemma keys_group: "keys.stays (staffGroup s)"
  unfolding staffGroup_def by (intro keys.stays_intros)

lemma keys_prod: "(\<And>a b. keys.stays (f a b)) \<Longrightarrow> keys.stays (case z of (a, b) \<Rightarrow> f a b)"
  by (cases z) simp

lemma keys_log: "keys.stays (rbac_log a b c d)"
  unfolding rbac_log_def by (rule keys_modify) simp

lemmas keys_basic = keys.stays_intros keys_modify keys_staffs keys_update keys_redis keys_group keys_prod keys_log

lemma keys_cache: "keys.stays (block env j t)" "keys.stays (revokeStaffAccessBefore env i t)"
  "keys.stays (assertNotThrottled env e ip)" "keys.stays (recordFailure env e ip)" "keys.stays (clear_throttle env e ip)"
  unfolding block_def revokeStaffAccessBefore_def assertNotThrottled_def recordFailure_def clear_throttle_def Let_def
  by (intro keys_basic; simp)+

lemma revoked_keys [simp]:
  "ad_seq_staff (revoke_refresh p t x) = ad_seq_staff x" "ad_seq_staff (burn_resets q t x) = ad_seq_staff x"
  by (simp_all add: revoke_refresh_def burn_resets_def)

lemma keys_revoke: "keys.stays (revokeAllForStaff env i)" "keys.stays (revokeAllForGroup env i)"
  unfolding revokeAllForStaff_def revokeAllForGroup_def by (intro keys_basic keys_cache; simp)+

lemma keys_login: "keys.stays (login_check env e p ip)" "keys.stays (login_issue env s)"
  unfolding login_check_def login_issue_def validateStaff_def create_refresh_def by (intro keys_basic keys_cache; simp)+

lemma keys_refresh: "keys.stays (refresh_check env raw)" "keys.stays (refresh_commit env row s)"
  unfolding refresh_check_def refresh_commit_def consume_refresh_def create_refresh_def Let_def
  by (intro keys_basic; simp)+

lemma keys_resets: "keys.stays (issue_reset env e)" "keys.stays (activateDeliveredReset env k i v)" "keys.stays (resetPassword env tok pw)"
  unfolding issue_reset_def activateDeliveredReset_def resetPassword_def apply_reset_def create_reset_def Let_def
  by (intro keys_basic keys_revoke; simp)+

lemma keys_authority: "keys.stays (assertGroupWithinActorAuthority b ps a)" "keys.stays (validateDepartmentAssignments ds a)"
  "keys.stays (getGroup i)" "keys.stays (assertNotRemovingLastAdmin s g b t)" "keys.stays (getStaff i)"
  unfolding assertGroupWithinActorAuthority_def validateDepartmentAssignments_def getGroup_def assertNotRemovingLastAdmin_def getStaff_def
  by (intro keys_basic)+

lemma keys_requests: "keys.stays (logout env i j t)" "keys.stays (updateStaff env k dto a)" "keys.stays (disableStaff env k a)"
  "keys.stays (createGroup g a)" "keys.stays (updateGroup env k ti ps a)" "keys.stays (deleteGroup k a)"
  unfolding logout_def revokeStaffSessions_def updateStaff_def update_known_def target_group_def write_patch_def assertCanAssignGroup_def
    audit_update_def disableStaff_def createGroup_def updateGroup_def deleteGroup_def write_staff_def Let_def
  by (intro keys_basic keys_authority keys_revoke keys_cache; simp add: patch_staff_simps replace_departments_def upd_db_def)+

lemma createStaff_run:
  assumes "createStaff env dto a x = (Inr r, x')"
  shows "ad_db x' = (ad_db x)\<lparr>staffs := staffs (ad_db x) @ [create_staff env dto (ad_seq_staff x)],
      dept_staff := dept_staff (ad_db x) @ map (\<lambda>dep. (dep, ad_seq_staff x)) (sc_departmentIds dto)\<rparr> \<and>
    ad_seq_staff x' = Suc (ad_seq_staff x) \<and> r = create_staff env dto (ad_seq_staff x) \<and>
    (case a of None \<Rightarrow> True | Some a \<Rightarrow> pc_isAdmin a)"
  using assms unfolding createStaff_def run_rules run_assign run_departments
  by (auto simp: upd_db_def dest!: run_log)

lemma createStaff_fails: "createStaff env dto a x = (Inl e, x') \<Longrightarrow> x' = x"
  by (auto simp: createStaff_def bnd_def sq_def txn_def rbac_log_def modify_def ret_def split: prod.splits sum.splits)

lemma accounts_ok_account: "accounts_ok x \<Longrightarrow> accounts_ok (snd (run_account env q x))"
proof (cases "\<exists>dto a. q = ACreate dto a")
  case False
  then have "keys.stays (run_account env q)"
    by (cases q) (auto intro!: keys.stays_sq keys.stays_ret keys_requests keys_resets)
  then show "accounts_ok x \<Longrightarrow> accounts_ok (snd (run_account env q x))"
    using accounts_ok_keys by (auto simp: keys.stays_def)
next
  case True
  then obtain dto a where q: "q = ACreate dto a" by blast
  assume ok: "accounts_ok x"
  obtain r x' where run: "createStaff env dto a x = (r, x')" by fastforce
  show "accounts_ok (snd (run_account env q x))"
  proof (cases r)
    case (Inl e)
    with run have "x' = x" using createStaff_fails by blast
    with run Inl ok show ?thesis by (simp add: q sq_def bnd_def)
  next
    case (Inr s)
    with createStaff_run run ok have "accounts_ok x'" by (fastforce simp: accounts_ok_def create_staff_def)
    with run Inr show ?thesis by (simp add: q sq_def bnd_def ret_def)
  qed
qed


section \<open>Consuming a reset link\<close>

definition changeable :: "reset_row \<Rightarrow> staff \<Rightarrow> bool" where
  "changeable r s \<longleftrightarrow> s_id s = pr_staffId r \<and> s_isEnabled s \<and> s_authVersion s = pr_authVersion r"

lemma count_rows_one: "count_rows p rows = 1 \<Longrightarrow> \<exists>s \<in> set rows. p s"
  by (metis count_rows_0_iff zero_neq_one)

lemma find_staff_distinct: "accounts_ok x \<Longrightarrow> s \<in> set (staffs (ad_db x)) \<Longrightarrow> find_staff (\<lambda>r. s_id r = s_id s) x = Some s"
  unfolding find_staff_def by (rule find_row_unique) (auto simp: accounts_ok_def distinct_map dest: inj_onD)

lemma run_apply_reset:
  assumes "apply_reset env r h x = (Inr u, x')" "accounts_ok x"
  obtains s where "find_staff (\<lambda>s. s_id s = pr_staffId r) x = Some s" "s_isEnabled s" "s_authVersion s = pr_authVersion r"
    "ad_db x' = ad_db (set_staffs (changeable r) (\<lambda>s. (bump s)\<lparr>s_passwordHash := h\<rparr>) x)"
    "x' = burn_resets (\<lambda>q. pr_staffId q = pr_staffId r) (ae_now env) (revoke_refresh (\<lambda>q. rf_staffId q = pr_staffId r) (ae_now env)
            (set_staffs (changeable r) (\<lambda>s. (bump s)\<lparr>s_passwordHash := h\<rparr>)
              (burn_resets (\<lambda>q. pr_id q = pr_id r \<and> \<not> pr_expiresAt q \<le> ae_now env) (ae_now env) x)))"
proof -
  let ?b = "burn_resets (\<lambda>q. pr_id q = pr_id r \<and> \<not> pr_expiresAt q \<le> ae_now env) (ae_now env) x"
  have eta: "(\<lambda>s. s_id s = pr_staffId r \<and> s_isEnabled s \<and> s_authVersion s = pr_authVersion r) = changeable r"
    by (simp add: changeable_def fun_eq_iff)
  from assms(1) have one: "count_rows (changeable r) (staffs (ad_db ?b)) = 1"
    and x': "x' = burn_resets (\<lambda>q. pr_staffId q = pr_staffId r) (ae_now env) (revoke_refresh (\<lambda>q. rf_staffId q = pr_staffId r) (ae_now env)
            (set_staffs (changeable r) (\<lambda>s. (bump s)\<lparr>s_passwordHash := h\<rparr>) ?b))"
    unfolding apply_reset_def Let_def eta run_rules by auto
  from count_rows_one [OF one] obtain s where s: "s \<in> set (staffs (ad_db x))" "changeable r s" by auto
  show thesis
    using find_staff_distinct [OF assms(2) s(1)] s(2) x'
    by (intro that) (auto simp: changeable_def burn_resets_def revoke_refresh_def set_staffs_def upd_db_def)
qed

lemma run_resetPassword:
  assumes "resetPassword env tok pw x = (Inr u, x')"
  obtains r u1 u2 x1 where "find_reset (ae_sha256 env tok) x = Some r" "usable_reset (ae_now env) r"
    "apply_reset env r (ae_hash env pw) x = (Inr u1, x1)" "revokeAllForStaff env (pr_staffId r) x1 = (Inr u2, x')"
  using assms unfolding resetPassword_def Let_def run_rules run_option
  by (auto simp: run_rules)

lemma reset_bumps:
  assumes "resetPassword env tok pw x = (Inr u, x')" "find_reset (ae_sha256 env tok) x = Some r" "accounts_ok x"
  shows "bumped (pr_staffId r) x x'"
proof (rule run_resetPassword [OF assms(1)])
  fix r' u1 u2 x1
  assume "find_reset (ae_sha256 env tok) x = Some r'" and run: "apply_reset env r' (ae_hash env pw) x = (Inr u1, x1)"
    and rev: "revokeAllForStaff env (pr_staffId r') x1 = (Inr u2, x')"
  with assms(2) have r: "r' = r" by simp
  let ?f = "\<lambda>s. (bump s)\<lparr>s_passwordHash := ae_hash env pw\<rparr>"
  have "\<exists>s. find_staff (\<lambda>s. s_id s = pr_staffId r) x = Some s \<and> changeable r s \<and> ad_db x1 = ad_db (set_staffs (changeable r) ?f x)"
    by (rule run_apply_reset [OF run [unfolded r] assms(3)]) (use find_staff_id changeable_def in blast)
  then obtain s where s: "find_staff (\<lambda>s. s_id s = pr_staffId r) x = Some s" "changeable r s"
    and db: "ad_db x1 = ad_db (set_staffs (changeable r) ?f x)" by blast
  have "bumped (pr_staffId r) x (set_staffs (changeable r) ?f x)"
    by (rule bumped_set [where p = "changeable r", OF s]) auto
  then have "bumped (pr_staffId r) x x1" using db by (simp add: bumped_def version_def find_staff_def)
  with ages.staysD [OF ages_revoke(1) rev] show ?thesis by (rule bumped_ages [rotated])
qed

text \<open>What the requests promise: the version of every account they name goes up.\<close>

lemma account_bumps:
  assumes "run_account env q x = (Inr u, x')" "ends_sessions env q x i" "accounts_ok x"
  shows "bumped i x x'"
  using assms
  by (cases q) (auto simp: run_rules intro: logout_bumps update_bumps disable_bumps group_bumps reset_bumps)

end
