(* ===== verification/SessionRun.thy ===== *)
theory SessionRun
  imports SessionSafety
begin

text \<open>
  The session machinery as a system of interleaved steps: logins, rotations and reset links take
  several transactions, and everything else may happen between them. Ghost components record when
  the password behind a session was checked, which refresh tokens were rotated and which links used.
\<close>

section \<open>Rows that only age\<close>

text \<open>Apart from the two handlers that create rows, every handler only revokes, burns, activates or deletes.\<close>

definition kept_row :: "refresh_row \<Rightarrow> refresh_row \<Rightarrow> bool" where
  "kept_row r r' \<longleftrightarrow> rf_staffId r' = rf_staffId r \<and> rf_jti r' = rf_jti r \<and> rf_familyId r' = rf_familyId r \<and>
     rf_authVersion r' = rf_authVersion r \<and> (rf_revokedAt r \<noteq> None \<longrightarrow> rf_revokedAt r' \<noteq> None)"

definition kept_reset :: "reset_row \<Rightarrow> reset_row \<Rightarrow> bool" where
  "kept_reset r r' \<longleftrightarrow> pr_id r' = pr_id r \<and> pr_staffId r' = pr_staffId r \<and> pr_authVersion r' = pr_authVersion r"

definition old_rows :: "auth_db \<Rightarrow> auth_db \<Rightarrow> bool" where
  "old_rows x x' \<longleftrightarrow> (\<forall>r' \<in> set (ad_refresh x'). \<exists>r \<in> set (ad_refresh x). kept_row r r') \<and>
     (distinct (map rf_jti (ad_refresh x)) \<longrightarrow> distinct (map rf_jti (ad_refresh x')))"

definition old_resets :: "auth_db \<Rightarrow> auth_db \<Rightarrow> bool" where
  "old_resets x x' \<longleftrightarrow> (\<forall>r' \<in> set (ad_resets x'). \<exists>r \<in> set (ad_resets x). kept_reset r r') \<and>
     (distinct (map pr_id (ad_resets x)) \<longrightarrow> distinct (map pr_id (ad_resets x'))) \<and> ad_seq_reset x' = ad_seq_reset x"

lemma kept_row_refl: "kept_row r r"
  by (simp add: kept_row_def)

lemma kept_row_trans: "kept_row a b \<Longrightarrow> kept_row b c \<Longrightarrow> kept_row a c"
  by (simp add: kept_row_def)

lemma kept_reset_refl: "kept_reset r r"
  by (simp add: kept_reset_def)

lemma kept_reset_trans: "kept_reset a b \<Longrightarrow> kept_reset b c \<Longrightarrow> kept_reset a c"
  by (simp add: kept_reset_def)

interpretation orows: frame old_rows
  by unfold_locales (unfold old_rows_def, blast intro: kept_row_refl, metis kept_row_trans)

interpretation oresets: frame old_resets
  by unfold_locales (unfold old_resets_def, blast intro: kept_reset_refl, metis kept_reset_trans)

lemma orows_same: "(\<And>x. ad_refresh (f x) = ad_refresh x) \<Longrightarrow> orows.stays (modify f)"
  by (rule orows.stays_modify) (auto simp: old_rows_def intro: kept_row_refl)

lemma oresets_same: "(\<And>x. ad_resets (f x) = ad_resets x \<and> ad_seq_reset (f x) = ad_seq_reset x) \<Longrightarrow> oresets.stays (modify f)"
  by (rule oresets.stays_modify) (auto simp: old_resets_def intro: kept_reset_refl)

lemma orows_revoke: "orows.stays (modify (revoke_refresh p t))"
  by (rule orows.stays_modify) (auto simp: old_rows_def revoke_refresh_def set_update_rows kept_row_def distinct_map_update)

lemma orows_delete: "orows.stays (modify (\<lambda>x. x\<lparr>ad_refresh := delete_rows p (ad_refresh x)\<rparr>))"
  by (rule orows.stays_modify)
    (auto simp: old_rows_def set_delete_rows delete_rows_def distinct_map_filter intro: kept_row_refl)

lemma old_resets_update:
  assumes "\<And>r. kept_reset r (f r)"
  shows "old_resets x (x\<lparr>ad_resets := update_rows p f (ad_resets x)\<rparr>)"
proof -
  have "pr_id (f r) = pr_id r" for r using assms by (simp add: kept_reset_def)
  with assms show ?thesis
    by (auto simp: old_resets_def set_update_rows distinct_map_update intro: kept_reset_refl)
qed

lemma oresets_update: "(\<And>r. kept_reset r (f r)) \<Longrightarrow> oresets.stays (modify (\<lambda>x. x\<lparr>ad_resets := update_rows (p x) f (ad_resets x)\<rparr>))"
  by (rule oresets.stays_modify) (rule old_resets_update)

lemma oresets_burn: "oresets.stays (modify (burn_resets p t))"
  unfolding burn_resets_def by (rule oresets_update) (simp add: kept_reset_def)

lemma oresets_delete: "oresets.stays (modify (\<lambda>x. x\<lparr>ad_resets := delete_rows p (ad_resets x)\<rparr>))"
  by (rule oresets.stays_modify)
    (auto simp: old_resets_def set_delete_rows delete_rows_def distinct_map_filter intro: kept_reset_refl)

lemma ad_simps [simp]:
  "ad_resets (revoke_refresh p t x) = ad_resets x" "ad_seq_reset (revoke_refresh p t x) = ad_seq_reset x"
  "ad_refresh (burn_resets q t x) = ad_refresh x" "ad_refresh (upd_db f x) = ad_refresh x" "ad_resets (upd_db f x) = ad_resets x"
  "ad_seq_reset (upd_db f x) = ad_seq_reset x" "ad_refresh (set_staffs ps g x) = ad_refresh x"
  "ad_resets (set_staffs ps g x) = ad_resets x" "ad_seq_reset (set_staffs ps g x) = ad_seq_reset x"
  "ad_seq_reset (burn_resets q t x) = ad_seq_reset x"
  by (simp_all add: revoke_refresh_def burn_resets_def upd_db_def set_staffs_def)

lemma old_prod: "(\<And>a b. orows.stays (f a b)) \<Longrightarrow> orows.stays (case z of (a, b) \<Rightarrow> f a b)"
  "(\<And>a b. oresets.stays (g a b)) \<Longrightarrow> oresets.stays (case z of (a, b) \<Rightarrow> g a b)"
  by (cases z, simp)+

lemma old_redis: "orows.stays (upd_redis f)" "oresets.stays (upd_redis f)"
  unfolding upd_redis_def by (intro orows_same oresets_same; simp)+

lemma old_basic: "orows.stays (staffGroup s)" "oresets.stays (staffGroup s)" "orows.stays (update_staff i f)" "oresets.stays (update_staff i f)"
  "orows.stays (rbac_log a b c d)" "oresets.stays (rbac_log a b c d)"
  unfolding staffGroup_def update_staff_def rbac_log_def
  by (intro orows.stays_intros oresets.stays_intros orows_same oresets_same; simp)+

lemmas old_intros = orows.stays_intros oresets.stays_intros orows_same oresets_same old_prod old_redis old_basic
  orows_revoke oresets_burn orows_delete oresets_delete

lemma old_cache: "orows.stays (block env j t)" "oresets.stays (block env j t)"
  "orows.stays (revokeStaffAccessBefore env i t)" "oresets.stays (revokeStaffAccessBefore env i t)"
  "orows.stays (assertNotThrottled env e ip)" "oresets.stays (assertNotThrottled env e ip)"
  "orows.stays (recordFailure env e ip)" "oresets.stays (recordFailure env e ip)"
  "orows.stays (clear_throttle env e ip)" "oresets.stays (clear_throttle env e ip)"
  unfolding block_def revokeStaffAccessBefore_def assertNotThrottled_def recordFailure_def clear_throttle_def Let_def
  by (intro old_intros)+

lemma old_revoke: "orows.stays (revokeAllForStaff env i)" "oresets.stays (revokeAllForStaff env i)"
  "orows.stays (revokeAllForGroup env i)" "oresets.stays (revokeAllForGroup env i)"
  unfolding revokeAllForStaff_def revokeAllForGroup_def by (intro old_intros old_cache; simp)+

lemma old_login_check: "orows.stays (login_check env e p ip)" "oresets.stays (login_check env e p ip)"
  unfolding login_check_def validateStaff_def by (intro old_intros old_cache)+

lemma old_refresh_check: "orows.stays (refresh_check env raw)" "oresets.stays (refresh_check env raw)"
  unfolding refresh_check_def by (intro old_intros; simp)+

lemma old_issuing: "oresets.stays (login_issue env s)" "oresets.stays (refresh_commit env row s)"
  unfolding login_issue_def refresh_commit_def consume_refresh_def create_refresh_def Let_def by (intro old_intros; simp)+

lemma old_links: "orows.stays (issue_reset env e)" "orows.stays (activateDeliveredReset env k i v)"
  "oresets.stays (activateDeliveredReset env k i v)"
  unfolding issue_reset_def activateDeliveredReset_def create_reset_def Let_def
  by (intro old_intros oresets_update; simp add: kept_reset_def)+

lemma old_authority: "orows.stays (assertGroupWithinActorAuthority b ps a)" "oresets.stays (assertGroupWithinActorAuthority b ps a)"
  "orows.stays (validateDepartmentAssignments ds a)" "oresets.stays (validateDepartmentAssignments ds a)"
  "orows.stays (getGroup i)" "oresets.stays (getGroup i)" "orows.stays (getStaff i)" "oresets.stays (getStaff i)"
  "orows.stays (assertNotRemovingLastAdmin s g b t)" "oresets.stays (assertNotRemovingLastAdmin s g b t)"
  unfolding assertGroupWithinActorAuthority_def validateDepartmentAssignments_def getGroup_def assertNotRemovingLastAdmin_def getStaff_def
  by (intro old_intros)+

lemma rows_requests: "orows.stays (logout env i j t)" "orows.stays (updateStaff env k dto a)" "orows.stays (disableStaff env k a)"
  "orows.stays (createGroup g a)" "orows.stays (updateGroup env k ti ps a)" "orows.stays (deleteGroup k a)"
  "orows.stays (createStaff env sc a)" "orows.stays (resetPassword env tok pw)"
  unfolding logout_def revokeStaffSessions_def updateStaff_def update_known_def target_group_def write_patch_def assertCanAssignGroup_def
    audit_update_def disableStaff_def createGroup_def updateGroup_def deleteGroup_def write_staff_def replace_departments_def
    createStaff_def resetPassword_def apply_reset_def Let_def
  by (intro old_intros old_authority old_revoke old_cache; simp)+

lemma resets_requests: "oresets.stays (logout env i j t)" "oresets.stays (updateStaff env k dto a)" "oresets.stays (disableStaff env k a)"
  "oresets.stays (createGroup g a)" "oresets.stays (updateGroup env k ti ps a)" "oresets.stays (deleteGroup k a)"
  "oresets.stays (createStaff env sc a)" "oresets.stays (resetPassword env tok pw)"
  unfolding logout_def revokeStaffSessions_def updateStaff_def update_known_def target_group_def write_patch_def assertCanAssignGroup_def
    audit_update_def disableStaff_def createGroup_def updateGroup_def deleteGroup_def write_staff_def replace_departments_def
    createStaff_def resetPassword_def apply_reset_def Let_def
  by (intro old_intros old_authority old_revoke old_cache; simp)+

lemma old_account: "orows.stays (run_account env q)" "oresets.stays (run_account env q)"
  by (cases q; auto intro!: orows.stays_sq orows.stays_ret rows_requests oresets.stays_sq oresets.stays_ret resets_requests)+


section \<open>The interleaved system\<close>

record session_world =
  sw_x :: auth_db
  sw_clock :: nat
  sw_logins :: "(nat \<times> staff) list"                     \<comment> \<open>checked, not yet stored\<close>
  sw_rotations :: "(nat \<times> refresh_row \<times> staff) list"   \<comment> \<open>checked, not yet consumed\<close>
  sw_links :: "(nat \<times> nat \<times> int) list"                 \<comment> \<open>created, not yet activated\<close>
  sw_born :: "string \<Rightarrow> nat option"                     \<comment> \<open>ghost: password check behind a refresh token\<close>
  sw_tokens :: "(nat \<times> access_payload) list"             \<comment> \<open>ghost: access tokens with the password check behind them\<close>
  sw_rotated :: "string list"                            \<comment> \<open>ghost: refresh tokens exchanged for a new one\<close>
  sw_used :: "nat list"                                  \<comment> \<open>ghost: reset links that set a password\<close>

definition birth :: "session_world \<Rightarrow> string \<Rightarrow> nat" where
  "birth w jti = (case sw_born w jti of None \<Rightarrow> 0 | Some c \<Rightarrow> c)"

definition moved :: "auth_db \<Rightarrow> session_world \<Rightarrow> session_world" where
  "moved x w = w\<lparr>sw_x := x, sw_clock := Suc (sw_clock w)\<rparr>"

definition note_login :: "error + (staff \<times> staff_group) \<Rightarrow> session_world \<Rightarrow> session_world" where
  "note_login r w = (case r of Inl e \<Rightarrow> w | Inr (s, g) \<Rightarrow> w\<lparr>sw_logins := (sw_clock w, s) # sw_logins w\<rparr>)"

definition note_issue :: "nat \<Rightarrow> string \<Rightarrow> error + (access_payload \<times> refresh_payload) \<Rightarrow> session_world \<Rightarrow> session_world" where
  "note_issue c jti r w =
     (case r of Inl e \<Rightarrow> w | Inr (a, k) \<Rightarrow> w\<lparr>sw_tokens := (c, a) # sw_tokens w\<rparr>)\<lparr>sw_born := (sw_born w)(jti \<mapsto> c)\<rparr>"

definition note_rotation :: "error + (refresh_row \<times> staff) \<Rightarrow> session_world \<Rightarrow> session_world" where
  "note_rotation r w =
     (case r of Inl e \<Rightarrow> w | Inr (row, s) \<Rightarrow> w\<lparr>sw_rotations := (birth w (rf_jti row), row, s) # sw_rotations w\<rparr>)"

definition note_refresh ::
  "nat \<Rightarrow> refresh_row \<Rightarrow> string \<Rightarrow> error + (access_payload \<times> refresh_payload option) \<Rightarrow> session_world \<Rightarrow> session_world" where
  "note_refresh c row jti r w =
     (case r of
        Inl e \<Rightarrow> w
      | Inr (a, k) \<Rightarrow> w\<lparr>sw_tokens := (c, a) # sw_tokens w,
          sw_rotated := (if k = None then sw_rotated w else rf_jti row # sw_rotated w)\<rparr>)\<lparr>sw_born := (sw_born w)(jti \<mapsto> c)\<rparr>"

definition note_link :: "error + (nat \<times> nat \<times> int) option \<Rightarrow> session_world \<Rightarrow> session_world" where
  "note_link r w = (case r of Inr (Some l) \<Rightarrow> w\<lparr>sw_links := l # sw_links w\<rparr> | _ \<Rightarrow> w)"

definition note_account :: "auth_env \<Rightarrow> account_request \<Rightarrow> error + unit \<Rightarrow> session_world \<Rightarrow> session_world" where
  "note_account env q r w =
     (case (q, r) of
        (AReset tok pw, Inr _) \<Rightarrow>
          (case find_reset (ae_sha256 env tok) (sw_x w) of None \<Rightarrow> w | Some k \<Rightarrow> w\<lparr>sw_used := pr_id k # sw_used w\<rparr>)
      | _ \<Rightarrow> w)"

definition account_step :: "auth_env \<Rightarrow> account_request \<Rightarrow> session_world \<Rightarrow> session_world" where
  "account_step env q w = (let (r, x) = run_account env q (sw_x w) in moved x (note_account env q r w))"

text \<open>Random ids of tokens never repeat; everything else about the environments is arbitrary.\<close>

inductive session_step :: "session_world \<Rightarrow> session_world \<Rightarrow> bool" where
  Login_check: "login_check env email pw ip (sw_x w) = (r, x) \<Longrightarrow> session_step w (moved x (note_login r w))"
| Login_issue: "(c, s) \<in> set (sw_logins w) \<Longrightarrow> sw_born w (ae_refreshJti env) = None \<Longrightarrow> login_issue env s (sw_x w) = (r, x) \<Longrightarrow>
    session_step w (moved x (note_issue c (ae_refreshJti env) r w))"
| Refresh_check: "refresh_check env raw (sw_x w) = (r, x) \<Longrightarrow> session_step w (moved x (note_rotation r w))"
| Refresh_commit: "(c, row, s) \<in> set (sw_rotations w) \<Longrightarrow> sw_born w (ae_refreshJti env) = None \<Longrightarrow>
    refresh_commit env row s (sw_x w) = (r, x) \<Longrightarrow> session_step w (moved x (note_refresh c row (ae_refreshJti env) r w))"
| Link_issue: "issue_reset env email (sw_x w) = (r, x) \<Longrightarrow> session_step w (moved x (note_link r w))"
| Link_activate: "(k, i, v) \<in> set (sw_links w) \<Longrightarrow> activateDeliveredReset env k i v (sw_x w) = (r, x) \<Longrightarrow> session_step w (moved x w)"
| Revoke: "revokeAllForStaff env i (sw_x w) = (r, x) \<Longrightarrow> session_step w (moved x w)"
| Account: "session_step w (account_step env q w)"

inductive_cases session_stepE: "session_step w w'"

definition sessions_start :: "session_world \<Rightarrow> bool" where
  "sessions_start w \<longleftrightarrow> accounts_ok (sw_x w) \<and> ad_refresh (sw_x w) = [] \<and> ad_resets (sw_x w) = [] \<and> sw_logins w = [] \<and>
     sw_rotations w = [] \<and> sw_links w = [] \<and> sw_tokens w = [] \<and> sw_rotated w = [] \<and> sw_used w = []"

section \<open>Stamps\<close>

text \<open>What carries an authority version: the snapshot of a pending handler, a stored row, a token.
  Each comes with the time of the password check behind it.\<close>

inductive_set stamps :: "session_world \<Rightarrow> (nat \<times> nat \<times> int) set" for w where
  Stamp_login: "(c, s) \<in> set (sw_logins w) \<Longrightarrow> (c, s_id s, s_authVersion s) \<in> stamps w"
| Stamp_rotation: "(c, row, s) \<in> set (sw_rotations w) \<Longrightarrow> (c, s_id s, s_authVersion s) \<in> stamps w"
| Stamp_row: "r \<in> set (ad_refresh (sw_x w)) \<Longrightarrow> (birth w (rf_jti r), rf_staffId r, rf_authVersion r) \<in> stamps w"
| Stamp_token: "(c, p) \<in> set (sw_tokens w) \<Longrightarrow> ac_av p = Some v \<Longrightarrow> (c, ac_staffId p, v) \<in> stamps w"

text \<open>Every stored refresh row has a recorded birth.\<close>

definition born_ok :: "session_world \<Rightarrow> bool" where
  "born_ok w \<longleftrightarrow> (\<forall>r \<in> set (ad_refresh (sw_x w)). sw_born w (rf_jti r) \<noteq> None)"

lemma moved_simps [simp]:
  "sw_x (moved x w) = x" "sw_clock (moved x w) = Suc (sw_clock w)" "sw_logins (moved x w) = sw_logins w"
  "sw_rotations (moved x w) = sw_rotations w" "sw_links (moved x w) = sw_links w" "sw_born (moved x w) = sw_born w"
  "sw_tokens (moved x w) = sw_tokens w" "sw_rotated (moved x w) = sw_rotated w" "sw_used (moved x w) = sw_used w"
  "birth (moved x w) j = birth w j"
  by (simp_all add: moved_def birth_def)

lemma run_login_check:
  assumes "login_check env email pw ip x = (Inr (s, g), x')"
  shows "s \<in> set (staffs (ad_db x))"
proof -
  have "data.stays (assertNotThrottled env email ip)"
    unfolding assertNotThrottled_def by (intro data.stays_intros)
  moreover have "validateStaff env email pw y = (Inr (s, g), y') \<Longrightarrow> s \<in> set (staffs (ad_db y))" for y y'
    by (auto simp: validateStaff_def run_rules run_option find_staff_def dest!: find_row_SomeD)
  moreover have "catch_act m (\<lambda>e. sq (recordFailure env email ip) (throw e)) y = (Inr z, y') \<Longrightarrow> m y = (Inr z, y')"
    for m :: "(staff \<times> staff_group) act_auth" and y z y'
    by (auto simp: catch_act_def run_rules split: prod.splits sum.splits)
  ultimately show ?thesis
    using assms unfolding login_check_def run_rules
    by (metis (no_types, lifting) data.staysD same_data_def)
qed

lemma run_refresh_check:
  assumes "refresh_check env raw x = (Inr (row, s), x')"
  shows "row \<in> set (ad_refresh x) \<and> s_id s = rf_staffId row \<and> rf_authVersion row = s_authVersion s \<and> s \<in> set (staffs (ad_db x))"
  using assms unfolding refresh_check_def staffGroup_def
  by (auto simp: run_rules run_option find_staff_def set_delete_rows split: option.splits dest!: find_row_SomeD)

lemma version_member: "accounts_ok x \<Longrightarrow> s \<in> set (staffs (ad_db x)) \<Longrightarrow> version (s_id s) x = Some (s_authVersion s)"
  by (simp add: version_def find_staff_distinct)


text \<open>The two handlers that create a row create the row of their staff snapshot.\<close>

definition one_row :: "refresh_row \<Rightarrow> auth_db \<Rightarrow> auth_db \<Rightarrow> bool" where
  "one_row n x x' \<longleftrightarrow> (\<forall>r' \<in> set (ad_refresh x'). kept_row n r' \<or> (\<exists>r \<in> set (ad_refresh x). kept_row r r')) \<and>
     (distinct (map rf_jti (ad_refresh x)) \<longrightarrow> distinct (map rf_jti (ad_refresh x')))"

interpretation orow: frame "one_row n" for n
proof
  show "one_row n x z" if a: "one_row n x y" and b: "one_row n y z" for x y z
    unfolding one_row_def
  proof (intro conjI ballI)
    show "distinct (map rf_jti (ad_refresh x)) \<longrightarrow> distinct (map rf_jti (ad_refresh z))" using a b by (simp add: one_row_def)
    fix r'
    assume "r' \<in> set (ad_refresh z)"
    with b consider "kept_row n r'" | r where "r \<in> set (ad_refresh y)" "kept_row r r'" by (auto simp: one_row_def)
    then show "kept_row n r' \<or> (\<exists>r \<in> set (ad_refresh x). kept_row r r')"
    proof cases
      case 2
      with a consider "kept_row n r" | q where "q \<in> set (ad_refresh x)" "kept_row q r" by (auto simp: one_row_def)
      then show ?thesis using 2(2) kept_row_trans by cases blast+
    qed simp
  qed
qed (auto simp: one_row_def intro: kept_row_refl)

lemma orow_old: "orows.stays m \<Longrightarrow> orow.stays n m"
  by (auto simp: orow.stays_def orows.stays_def old_rows_def one_row_def)

lemma orow_create: "orow.stays n (create_refresh n)"
  unfolding orow.stays_def create_refresh_def one_row_def
  by (auto simp: act_defs list_ex_iff intro: kept_row_refl)

lemma orow_issue: "orow.stays (refresh_row_of env (s_id s) (s_authVersion s) (ae_familyId env)) (login_issue env s)"
  unfolding login_issue_def by (intro orow.stays_intros orow_create orow_old [OF old_basic(3)])

lemma orow_commit: "orow.stays (refresh_row_of env (s_id s) (s_authVersion s) (rf_familyId row)) (refresh_commit env row s)"
  unfolding refresh_commit_def consume_refresh_def Let_def
  by (intro orow.stays_intros orow_create orow_old [OF orows_revoke])

lemma issue_token: "login_issue env s x = (Inr (a, k), x') \<Longrightarrow> a = issued_access env (s_id s) (s_authVersion s)"
  by (auto simp: login_issue_def run_rules)

lemma commit_token: "refresh_commit env row s x = (Inr (a, k), x') \<Longrightarrow> a = issued_access env (s_id s) (s_authVersion s)"
  by (auto simp: refresh_commit_def run_rules Let_def split: if_splits)

text \<open>Of a step: stamps are inherited, or fresh and current.\<close>

definition sound_stamps :: "session_world \<Rightarrow> session_world \<Rightarrow> bool" where
  "sound_stamps w w' \<longleftrightarrow> (\<forall>st \<in> stamps w'. st \<in> stamps w \<or> (\<exists>i v. st = (sw_clock w, i, v) \<and> version i (sw_x w) = Some v))"

lemma stamps_quiet:
  assumes "old_rows (sw_x w) x" "sw_logins w' = sw_logins w" "sw_rotations w' = sw_rotations w" "sw_tokens w' = sw_tokens w"
    "sw_born w' = sw_born w" "sw_x w' = x"
  shows "stamps w' \<subseteq> stamps w"
proof
  fix st
  assume st: "st \<in> stamps w'"
  obtain c i v where "st = (c, i, v)" by (cases st)
  with st have "(c, i, v) \<in> stamps w'" by simp
  then have "(c, i, v) \<in> stamps w"
  proof cases
    case (Stamp_row r')
    then obtain r where "r \<in> set (ad_refresh (sw_x w))" "kept_row r r'" using assms(1,6) by (auto simp: old_rows_def)
    then show ?thesis using Stamp_row assms(5) stamps.Stamp_row [of r w] by (simp add: kept_row_def birth_def)
  qed (use assms in \<open>auto intro: stamps.intros\<close>)
  with \<open>st = (c, i, v)\<close> show "st \<in> stamps w" by simp
qed

lemma old_login: "login_check env e p ip x = (r, x') \<Longrightarrow> old_rows x x'"
  using orows.staysD old_login_check(1) by blast

lemma step_clock: "session_step w w' \<Longrightarrow> sw_clock w' = Suc (sw_clock w)"
  by (induction rule: session_step.induct)
    (auto simp: note_login_def note_issue_def note_rotation_def note_refresh_def note_link_def account_step_def note_account_def
      moved_def split: sum.splits option.splits account_request.splits prod.splits)

lemma step_ages: "session_step w w' \<Longrightarrow> ages (sw_x w) (sw_x w')"
proof (induction rule: session_step.induct)
  case (Account w env q)
  then show ?case using ages_account [of env q] by (cases "run_account env q (sw_x w)") (metis account_step_def ages.staysD case_prod_conv moved_simps(1))
qed (auto dest: ages.staysD [OF ages_login(1)] ages.staysD [OF ages_login(2)] ages.staysD [OF ages_refresh(1)]
   ages.staysD [OF ages_refresh(2)] ages.staysD [OF ages_resets(1)] ages.staysD [OF ages_resets(2)] ages.staysD [OF ages_revoke(1)])

lemma step_accounts_ok: "session_step w w' \<Longrightarrow> accounts_ok (sw_x w) \<Longrightarrow> accounts_ok (sw_x w')"
proof (induction rule: session_step.induct)
  case (Account w env q)
  then show ?case using accounts_ok_account [of "sw_x w" env q] by (cases "run_account env q (sw_x w)") (simp add: account_step_def)
qed (auto dest: accounts_ok_keys keys.staysD [OF keys_login(1)] keys.staysD [OF keys_login(2)] keys.staysD [OF keys_refresh(1)]
   keys.staysD [OF keys_refresh(2)] keys.staysD [OF keys_resets(1)] keys.staysD [OF keys_resets(2)] keys.staysD [OF keys_revoke(1)])


definition current :: "session_world \<Rightarrow> (nat \<times> nat \<times> int) set" where
  "current w = {(sw_clock w, i, v) | i v. version i (sw_x w) = Some v}"

lemma stamps_subset:
  assumes "\<And>c s. (c, s) \<in> set (sw_logins w) \<Longrightarrow> (c, s_id s, s_authVersion s) \<in> S"
    and "\<And>c row s. (c, row, s) \<in> set (sw_rotations w) \<Longrightarrow> (c, s_id s, s_authVersion s) \<in> S"
    and "\<And>r. r \<in> set (ad_refresh (sw_x w)) \<Longrightarrow> (birth w (rf_jti r), rf_staffId r, rf_authVersion r) \<in> S"
    and "\<And>c p v. (c, p) \<in> set (sw_tokens w) \<Longrightarrow> ac_av p = Some v \<Longrightarrow> (c, ac_staffId p, v) \<in> S"
  shows "stamps w \<subseteq> S"
  by (auto elim!: stamps.cases intro: assms)

lemma rows_stamps:
  assumes "old_rows (sw_x w) x" "r \<in> set (ad_refresh x)"
  shows "(birth w (rf_jti r), rf_staffId r, rf_authVersion r) \<in> stamps w"
  using assms stamps.Stamp_row [of _ w] by (fastforce simp: old_rows_def kept_row_def)

text \<open>Rows after a handler that stored the row of the pending snapshot \<open>s\<close> under a fresh id.\<close>

lemma new_rows_stamps:
  assumes "one_row n (sw_x w) x" "r \<in> set (ad_refresh x)" "born_ok w" "sw_born w (rf_jti n) = None"
    and "(c, rf_staffId n, rf_authVersion n) \<in> stamps w"
    and "sw_born w' = (sw_born w)(rf_jti n \<mapsto> c)"
  shows "(birth w' (rf_jti r), rf_staffId r, rf_authVersion r) \<in> stamps w \<and> sw_born w' (rf_jti r) \<noteq> None"
proof -
  from assms(1,2) consider "kept_row n r" | q where "q \<in> set (ad_refresh (sw_x w))" "kept_row q r" by (auto simp: one_row_def)
  then show ?thesis
  proof cases
    case 1
    with assms(5,6) show ?thesis by (simp add: kept_row_def birth_def)
  next
    case 2
    with assms(3) have "sw_born w (rf_jti r) \<noteq> None" by (auto simp: born_ok_def kept_row_def)
    with assms(4,6) have "birth w' (rf_jti r) = birth w (rf_jti r)" "sw_born w' (rf_jti r) \<noteq> None" by (auto simp: birth_def)
    with 2 stamps.Stamp_row [OF 2(1)] show ?thesis by (simp add: kept_row_def)
  qed
qed

lemma born_ok_old: "born_ok w \<Longrightarrow> old_rows (sw_x w) x \<Longrightarrow> sw_x w' = x \<Longrightarrow> sw_born w' = sw_born w \<Longrightarrow> born_ok w'"
  by (fastforce simp: born_ok_def old_rows_def kept_row_def)

lemma refresh_row_of_simps [simp]:
  "rf_staffId (refresh_row_of env i v f) = i" "rf_authVersion (refresh_row_of env i v f) = v"
  "rf_jti (refresh_row_of env i v f) = ae_refreshJti env"
  by (simp_all add: refresh_row_of_def)

lemma note_simps [simp]:
  "sw_rotations (note_login r w) = sw_rotations w" "sw_tokens (note_login r w) = sw_tokens w" "sw_born (note_login r w) = sw_born w"
  "sw_x (note_login r w) = sw_x w" "sw_rotations (note_issue c j q w) = sw_rotations w" "sw_logins (note_issue c j q w) = sw_logins w"
  "sw_born (note_issue c j q w) = (sw_born w)(j \<mapsto> c)" "sw_logins (note_rotation k w) = sw_logins w"
  "sw_tokens (note_rotation k w) = sw_tokens w" "sw_born (note_rotation k w) = sw_born w"
  "sw_rotations (note_refresh c row j m w) = sw_rotations w" "sw_logins (note_refresh c row j m w) = sw_logins w"
  "sw_born (note_refresh c row j m w) = (sw_born w)(j \<mapsto> c)"
  "birth (note_login r w) i = birth w i" "birth (note_rotation k w) i = birth w i"
  by (auto simp: note_login_def note_issue_def note_rotation_def note_refresh_def birth_def split: sum.splits)

lemma step_sound:
  assumes "session_step w w'" "accounts_ok (sw_x w)" "born_ok w"
  shows "stamps w' \<subseteq> stamps w \<union> current w \<and> born_ok w'"
  using assms
proof (induction rule: session_step.induct)
  case (Login_check env email pw ip w r x)
  then have old: "old_rows (sw_x w) x" by (blast intro: old_login)
  let ?w = "moved x (note_login r w)"
  have "(c, s_id s, s_authVersion s) \<in> stamps w \<union> current w" if "(c, s) \<in> set (sw_logins ?w)" for c s
  proof (cases "(c, s) \<in> set (sw_logins w)")
    case False
    with that obtain g where "r = Inr (s, g)" "c = sw_clock w" by (auto simp: note_login_def split: sum.splits)
    with Login_check have "version (s_id s) (sw_x w) = Some (s_authVersion s)" using run_login_check version_member by blast
    with \<open>c = sw_clock w\<close> show ?thesis by (simp add: current_def)
  qed (auto intro: stamps.Stamp_login)
  then have "stamps ?w \<subseteq> stamps w \<union> current w"
    using rows_stamps [OF old] by (intro stamps_subset) (auto intro: stamps.intros)
  with born_ok_old [OF Login_check(3) old, of ?w] show ?case by simp
next
  case (Login_issue c s w env r x)
  let ?w = "moved x (note_issue c (ae_refreshJti env) r w)"
  let ?n = "refresh_row_of env (s_id s) (s_authVersion s) (ae_familyId env)"
  have st: "(c, s_id s, s_authVersion s) \<in> stamps w" using Login_issue(1) by (rule stamps.Stamp_login)
  have one: "one_row ?n (sw_x w) x" using orow.staysD [OF orow_issue Login_issue(3)] .
  have rows: "(birth ?w (rf_jti r), rf_staffId r, rf_authVersion r) \<in> stamps w \<and> sw_born ?w (rf_jti r) \<noteq> None" if "r \<in> set (ad_refresh x)" for r
    by (rule new_rows_stamps [OF one that Login_issue(5)]) (use Login_issue(2) st in simp_all)
  have "(k, ac_staffId p, v) \<in> stamps w" if "(k, p) \<in> set (sw_tokens ?w)" "ac_av p = Some v" for k p v
  proof (cases "(k, p) \<in> set (sw_tokens w)")
    case False
    with that(1) obtain q where "r = Inr (p, q)" "k = c" by (auto simp: note_issue_def split: sum.splits)
    with Login_issue(3) that(2) st show ?thesis by (auto simp: issued_access_def dest!: issue_token)
  qed (use that in \<open>auto intro: stamps.Stamp_token\<close>)
  with rows have "stamps ?w \<subseteq> stamps w \<union> current w"
    by (intro stamps_subset) (auto intro: stamps.intros)
  with rows show ?case by (auto simp: born_ok_def)
next
  case (Refresh_check env raw w r x)
  then have old: "old_rows (sw_x w) x" using orows.staysD old_refresh_check(1) by blast
  let ?w = "moved x (note_rotation r w)"
  have "(c, s_id s, s_authVersion s) \<in> stamps w" if "(c, row, s) \<in> set (sw_rotations ?w)" for c row s
  proof (cases "(c, row, s) \<in> set (sw_rotations w)")
    case False
    with that have r: "r = Inr (row, s)" "c = birth w (rf_jti row)" by (auto simp: note_rotation_def split: sum.splits)
    with Refresh_check(1) have "row \<in> set (ad_refresh (sw_x w))" "s_id s = rf_staffId row" "rf_authVersion row = s_authVersion s"
      using run_refresh_check by blast+
    with stamps.Stamp_row [of row w] r(2) show ?thesis by simp
  qed (auto intro: stamps.Stamp_rotation)
  then have "stamps ?w \<subseteq> stamps w \<union> current w"
    using rows_stamps [OF old] by (intro stamps_subset) (auto intro: stamps.intros)
  with born_ok_old [OF Refresh_check(3) old, of ?w] show ?case by simp
next
  case (Refresh_commit c row s w env r x)
  let ?w = "moved x (note_refresh c row (ae_refreshJti env) r w)"
  let ?n = "refresh_row_of env (s_id s) (s_authVersion s) (rf_familyId row)"
  have st: "(c, s_id s, s_authVersion s) \<in> stamps w" using Refresh_commit(1) by (rule stamps.Stamp_rotation)
  have one: "one_row ?n (sw_x w) x" using orow.staysD [OF orow_commit Refresh_commit(3)] .
  have rows: "(birth ?w (rf_jti r), rf_staffId r, rf_authVersion r) \<in> stamps w \<and> sw_born ?w (rf_jti r) \<noteq> None" if "r \<in> set (ad_refresh x)" for r
    by (rule new_rows_stamps [OF one that Refresh_commit(5)]) (use Refresh_commit(2) st in simp_all)
  have "(k, ac_staffId p, v) \<in> stamps w" if "(k, p) \<in> set (sw_tokens ?w)" "ac_av p = Some v" for k p v
  proof (cases "(k, p) \<in> set (sw_tokens w)")
    case False
    with that(1) obtain q where "r = Inr (p, q)" "k = c" by (auto simp: note_refresh_def split: sum.splits)
    with Refresh_commit(3) that(2) st show ?thesis by (auto simp: issued_access_def dest!: commit_token)
  qed (use that in \<open>auto intro: stamps.Stamp_token\<close>)
  with rows have "stamps ?w \<subseteq> stamps w \<union> current w"
    by (intro stamps_subset) (auto intro: stamps.intros)
  with rows show ?case by (auto simp: born_ok_def)
next
  case (Link_issue env email w r x)
  then have old: "old_rows (sw_x w) x" using orows.staysD old_links(1) by blast
  have "stamps (moved x (note_link r w)) \<subseteq> stamps w" "born_ok (moved x (note_link r w))"
    by (rule stamps_quiet [OF old] born_ok_old [OF Link_issue(3) old]; simp add: note_link_def split: sum.splits option.splits)+
  then show ?case by blast
next
  case (Link_activate k i v w env r x)
  then have old: "old_rows (sw_x w) x" using orows.staysD old_links(2) by blast
  have "stamps (moved x w) \<subseteq> stamps w" "born_ok (moved x w)"
    by (rule stamps_quiet [OF old] born_ok_old [OF Link_activate(4) old]; simp)+
  then show ?case by blast
next
  case (Revoke env i w r x)
  then have old: "old_rows (sw_x w) x" using orows.staysD old_revoke(1) by blast
  have "stamps (moved x w) \<subseteq> stamps w" "born_ok (moved x w)"
    by (rule stamps_quiet [OF old] born_ok_old [OF Revoke(3) old]; simp)+
  then show ?case by blast
next
  case (Account w env q)
  obtain r x where run: "run_account env q (sw_x w) = (r, x)" by fastforce
  then have old: "old_rows (sw_x w) x" using orows.staysD old_account(1) by blast
  have "stamps (account_step env q w) \<subseteq> stamps w" "born_ok (account_step env q w)"
    by (rule stamps_quiet [OF old] born_ok_old [OF Account(2) old];
        simp add: run account_step_def note_account_def split: sum.splits option.splits account_request.splits)+
  then show ?case by blast
qed


section \<open>Security changes end sessions\<close>

definition session_inv :: "session_world \<Rightarrow> bool" where
  "session_inv w \<longleftrightarrow> accounts_ok (sw_x w) \<and> born_ok w \<and>
     (\<forall>(c, i, v) \<in> stamps w. c < sw_clock w \<and> (\<exists>n. version i (sw_x w) = Some n \<and> v \<le> n))"

text \<open>Everything of account \<open>i\<close> that goes back to a password check before time \<open>T\<close> is outdated.\<close>

definition outdated :: "nat \<Rightarrow> nat \<Rightarrow> session_world \<Rightarrow> bool" where
  "outdated T i w \<longleftrightarrow> T \<le> sw_clock w \<and>
     (\<forall>(c, j, v) \<in> stamps w. j = i \<and> c < T \<longrightarrow> (\<exists>n. version i (sw_x w) = Some n \<and> v < n))"

lemma session_inv_start: "sessions_start w \<Longrightarrow> session_inv w"
  by (auto simp: session_inv_def sessions_start_def born_ok_def elim!: stamps.cases)

lemma session_inv_step:
  assumes "session_step w w'" "session_inv w"
  shows "session_inv w'"
proof -
  have ok: "accounts_ok (sw_x w)" "born_ok w" using assms(2) by (simp_all add: session_inv_def)
  have "c < sw_clock w' \<and> (\<exists>n. version i (sw_x w') = Some n \<and> v \<le> n)" if "(c, i, v) \<in> stamps w'" for c i v
  proof -
    from step_sound [OF assms(1) ok] that have "(c, i, v) \<in> stamps w \<or> (c, i, v) \<in> current w" by blast
    then obtain n where "c \<le> sw_clock w" "version i (sw_x w) = Some n" "v \<le> n"
      using assms(2) by (fastforce simp: session_inv_def current_def)
    with agesD [OF step_ages [OF assms(1)]] step_clock [OF assms(1)] show ?thesis by fastforce
  qed
  with step_sound [OF assms(1) ok] step_accounts_ok [OF assms(1) ok(1)] show ?thesis by (auto simp: session_inv_def)
qed

lemma session_inv_reach: "session_step\<^sup>*\<^sup>* w w' \<Longrightarrow> session_inv w \<Longrightarrow> session_inv w'"
  by (induction rule: rtranclp_induct) (auto intro: session_inv_step)

lemma outdated_step:
  assumes "session_step w w'" "session_inv w" "outdated T i w"
  shows "outdated T i w'"
proof -
  have ok: "accounts_ok (sw_x w)" "born_ok w" using assms(2) by (simp_all add: session_inv_def)
  have "\<exists>n. version i (sw_x w') = Some n \<and> v < n" if "(c, i, v) \<in> stamps w'" "c < T" for c v
  proof -
    have "(c, i, v) \<notin> current w" using assms(3) that(2) by (auto simp: outdated_def current_def)
    with step_sound [OF assms(1) ok] that(1) have "(c, i, v) \<in> stamps w" by blast
    with assms(3) that(2) obtain n where "version i (sw_x w) = Some n" "v < n" by (fastforce simp: outdated_def)
    with agesD [OF step_ages [OF assms(1)]] show ?thesis by fastforce
  qed
  with assms(3) step_clock [OF assms(1)] show ?thesis by (auto simp: outdated_def)
qed

lemma outdated_reach:
  "session_step\<^sup>*\<^sup>* w w' \<Longrightarrow> session_inv w \<Longrightarrow> outdated T i w \<Longrightarrow> session_inv w' \<and> outdated T i w'"
  by (induction rule: rtranclp_induct) (auto intro: session_inv_step outdated_step)

lemma outdated_change:
  assumes "session_inv w" "run_account env q (sw_x w) = (Inr u, x)" "ends_sessions env q (sw_x w) i"
  shows "outdated (Suc (sw_clock w)) i (account_step env q w)"
proof -
  have ok: "accounts_ok (sw_x w)" using assms(1) by (simp add: session_inv_def)
  from account_bumps [OF assms(2,3) ok] obtain m n where v: "version i (sw_x w) = Some m" "version i x = Some n" "m < n"
    by (auto simp: bumped_def)
  have x: "sw_x (account_step env q w) = x" "sw_clock (account_step env q w) = Suc (sw_clock w)"
    using assms(2) by (simp_all add: account_step_def moved_def note_account_def split: sum.splits option.splits account_request.splits)
  have "old_rows (sw_x w) x" using orows.staysD [OF old_account(1) assms(2)] .
  then have "stamps (account_step env q w) \<subseteq> stamps w"
    by (rule stamps_quiet) (auto simp: assms(2) account_step_def note_account_def split: sum.splits option.splits account_request.splits)
  then have "v' < n" if "(c, i, v') \<in> stamps (account_step env q w)" for c v'
    using assms(1) that v by (fastforce simp: session_inv_def)
  with v x show ?thesis by (auto simp: outdated_def)
qed

lemma run_catch_throw: "catch_act m (\<lambda>_. throw e) x = (Inr r, x') \<longleftrightarrow> m x = (Inr r, x')"
  by (auto simp: catch_act_def throw_def split: prod.splits sum.splits)

lemma run_guard:
  "canActivate env token x = (Inr me, x') \<longleftrightarrow>
   x' = x \<and> (\<exists>tok p s g. token = Some tok \<and> tok \<noteq> '''' \<and> ae_verifyAccess env tok = Some p \<and>
     (\<forall>jti. ac_jti p = Some jti \<longrightarrow> \<not> isBlocked env jti x) \<and> \<not> isStaffTokenStale env (ac_staffId p) (ac_issuedAtMs p) (ac_iat p) x \<and>
     find_staff (\<lambda>s. s_id s = ac_staffId p) x = Some s \<and> group_by_id (s_groupId s) (ad_db x) = Some g \<and> s_isEnabled s \<and>
     ac_av p = Some (s_authVersion s) \<and> me = buildPrincipal s g (ac_jti p) (ac_exp p))"
proof (cases "case token of Some (c # cs) \<Rightarrow> Some (c # cs) | _ \<Rightarrow> None")
  case None
  then have "token = None \<or> token = Some ''''" by (auto split: option.splits list.splits)
  then show ?thesis by (auto simp: canActivate_def run_rules)
next
  case (Some tok)
  then have t: "token = Some tok" "tok \<noteq> ''''" by (auto split: option.splits list.splits)
  show ?thesis
  proof (cases "ae_verifyAccess env tok")
    case None
    with Some t show ?thesis by (simp add: canActivate_def run_rules)
  next
    case (Some p)
    have jti: "\<not> (case ac_jti p of None \<Rightarrow> False | Some jti \<Rightarrow> isBlocked env jti x) \<longleftrightarrow> (\<forall>jti. ac_jti p = Some jti \<longrightarrow> \<not> isBlocked env jti x)"
      by (cases "ac_jti p") auto
    have av: "Some v = ac_av p \<longleftrightarrow> ac_av p = Some v" for v by auto
    show ?thesis
      unfolding canActivate_def \<open>(case token of Some (c # cs) \<Rightarrow> Some (c # cs) | _ \<Rightarrow> None) = Some tok\<close> option.case Some
        staffGroup_def run_rules run_catch_throw run_option jti av
      using t Some by (auto split: option.splits)
  qed
qed

lemma outdated_refused:
  assumes "outdated T i w" "(c, p) \<in> set (sw_tokens w)" "ac_staffId p = i" "ae_verifyAccess env tok = Some p"
    and "canActivate env (Some tok) (sw_x w) = (Inr me, x')"
  shows "T \<le> c"
proof (rule ccontr)
  assume "\<not> T \<le> c"
  from assms(4,5) obtain s where s: "find_staff (\<lambda>s. s_id s = i) (sw_x w) = Some s" "ac_av p = Some (s_authVersion s)"
    using assms(3) unfolding run_guard by auto
  from stamps.Stamp_token [OF assms(2) s(2)] assms(1,3) \<open>\<not> T \<le> c\<close> have "\<exists>n. version i (sw_x w) = Some n \<and> s_authVersion s < n"
    by (fastforce simp: outdated_def)
  with s show False by (auto simp: version_def)
qed

lemma outdated_unrefreshable:
  assumes "outdated T i w" "accounts_ok (sw_x w)" "refresh_check env raw (sw_x w) = (Inr (row, s), x')" "rf_staffId row = i"
  shows "T \<le> birth w (rf_jti row)"
proof (rule ccontr)
  assume "\<not> T \<le> birth w (rf_jti row)"
  from run_refresh_check [OF assms(3)] have row: "row \<in> set (ad_refresh (sw_x w))" "s_id s = rf_staffId row"
    "rf_authVersion row = s_authVersion s" "s \<in> set (staffs (ad_db (sw_x w)))" by auto
  from stamps.Stamp_row [OF row(1)] assms(1,4) \<open>\<not> T \<le> birth w (rf_jti row)\<close>
  have "\<exists>n. version i (sw_x w) = Some n \<and> rf_authVersion row < n" by (fastforce simp: outdated_def)
  with version_member [OF assms(2) row(4)] row(2,3) assms(4) show False by auto
qed

text \<open>
  C12: A security change ends every session that began before it, whatever happens at the same time.
  Take any interleaving of logins, refreshes, reset links, revocations and account requests from an
  empty start. When a logout, a password reset, a new password, role or address, a disabling or a
  change of the permissions of the role succeeds for an account, then at any later time, however
  the run goes on, an access token of the account that the guard accepts and a refresh token of the
  account that can still be exchanged both go back to a password check made after the change. This
  includes logins and refreshes that were half-way through when the change happened.
\<close>

theorem session_revocation_final:
  assumes "sessions_start w0" "session_step\<^sup>*\<^sup>* w0 w"
    and "run_account env q (sw_x w) = (Inr u, x)" "ends_sessions env q (sw_x w) i"
    and "session_step\<^sup>*\<^sup>* (account_step env q w) w'"
  shows "((c, p) \<in> set (sw_tokens w') \<and> ac_staffId p = i \<and> ae_verifyAccess env1 tok = Some p \<and>
      canActivate env1 (Some tok) (sw_x w') = (Inr me, x1) \<longrightarrow> sw_clock w < c) \<and>
    (refresh_check env2 raw (sw_x w') = (Inr (row, s), x2) \<and> rf_staffId row = i \<longrightarrow> sw_clock w < birth w' (rf_jti row))"
proof -
  have inv: "session_inv w" using assms(1,2) session_inv_start session_inv_reach by blast
  then have "session_inv (account_step env q w)" by (rule session_inv_step [OF Account])
  with outdated_change [OF inv assms(3,4)] assms(5) have "session_inv w'" and out: "outdated (Suc (sw_clock w)) i w'"
    using outdated_reach by blast+
  then have "accounts_ok (sw_x w')" by (simp add: session_inv_def)
  with outdated_refused [OF out] outdated_unrefreshable [OF out] show ?thesis by (auto simp: Suc_le_eq)
qed


section \<open>A refresh token is exchanged once\<close>

lemma commit_rotates:
  assumes "refresh_commit env row s x = (Inr (a, Some k), x')"
  shows "(\<exists>r \<in> set (ad_refresh x). rf_jti r = rf_jti row \<and> rf_revokedAt r = None) \<and>
    ad_refresh x' = ad_refresh (revoke_refresh (\<lambda>r. rf_jti r = rf_jti row) (ae_now env) x) @
      [refresh_row_of env (s_id s) (s_authVersion s) (rf_familyId row)]"
proof -
  let ?p = "\<lambda>r. rf_jti r = rf_jti row \<and> rf_revokedAt r = None"
  from assms have one: "count_rows ?p (ad_refresh x) = 1"
    and rows: "ad_refresh x' = ad_refresh (revoke_refresh (\<lambda>r. rf_jti r = rf_jti row) (ae_now env) x) @
      [refresh_row_of env (s_id s) (s_authVersion s) (rf_familyId row)]"
    by (auto simp: refresh_commit_def consume_refresh_def create_refresh_def run_rules Let_def split: if_splits)
  from count_rows_one [OF one] rows show ?thesis by blast
qed

definition rotation_inv :: "session_world \<Rightarrow> bool" where
  "rotation_inv w \<longleftrightarrow> distinct (sw_rotated w) \<and> (\<forall>j \<in> set (sw_rotated w). sw_born w j \<noteq> None) \<and>
     (\<forall>r \<in> set (ad_refresh (sw_x w)). rf_jti r \<in> set (sw_rotated w) \<longrightarrow> rf_revokedAt r \<noteq> None)"

lemma rotation_quiet:
  assumes "rotation_inv w" "old_rows (sw_x w) x" "sw_x w' = x" "sw_rotated w' = sw_rotated w" "\<And>j. sw_born w j \<noteq> None \<Longrightarrow> sw_born w' j \<noteq> None"
  shows "rotation_inv w'"
  using assms by (fastforce simp: rotation_inv_def old_rows_def kept_row_def)

lemma rotation_new:
  assumes "rotation_inv w" "one_row n (sw_x w) x" "sw_born w (rf_jti n) = None" "sw_x w' = x" "sw_rotated w' = sw_rotated w"
    "\<And>j. sw_born w j \<noteq> None \<Longrightarrow> sw_born w' j \<noteq> None"
  shows "rotation_inv w'"
proof -
  have "rf_revokedAt r \<noteq> None" if r: "r \<in> set (ad_refresh x)" "rf_jti r \<in> set (sw_rotated w)" for r
  proof -
    from assms(1,3) r(2) have "rf_jti r \<noteq> rf_jti n" by (auto simp: rotation_inv_def)
    with assms(2) r(1) obtain q where "q \<in> set (ad_refresh (sw_x w))" "kept_row q r" by (fastforce simp: one_row_def kept_row_def)
    with assms(1) r(2) show ?thesis by (auto simp: rotation_inv_def kept_row_def)
  qed
  with assms show ?thesis by (auto simp: rotation_inv_def)
qed

lemma rotation_step:
  assumes "session_step w w'" "rotation_inv w" "born_ok w"
  shows "rotation_inv w'"
  using assms
proof (induction rule: session_step.induct)
  case (Login_check env email pw ip w r x)
  then show ?case by (intro rotation_quiet [OF Login_check(2) old_login [OF Login_check(1)]]) (auto simp: note_login_def split: sum.splits)
next
  case (Login_issue c s w env r x)
  show ?case
    by (rule rotation_new [OF Login_issue(4) orow.staysD [OF orow_issue Login_issue(3)]])
      (use Login_issue(2) in \<open>auto simp: note_issue_def split: sum.splits\<close>)
next
  case (Refresh_check env raw w r x)
  show ?case
    by (rule rotation_quiet [OF Refresh_check(2) orows.staysD [OF old_refresh_check(1) Refresh_check(1)]])
      (auto simp: note_rotation_def split: sum.splits)
next
  case (Refresh_commit c row s w env r x)
  show ?case
  proof (cases "\<exists>a k. r = Inr (a, Some k)")
    case False
    then show ?thesis
      by (intro rotation_new [OF Refresh_commit(4) orow.staysD [OF orow_commit Refresh_commit(3)]])
        (use Refresh_commit(2) in \<open>auto simp: note_refresh_def split: sum.splits\<close>)
  next
    case True
    then obtain a k where r: "r = Inr (a, Some k)" by blast
    from commit_rotates [OF Refresh_commit(3) [unfolded r]]
    have live: "\<exists>q \<in> set (ad_refresh (sw_x w)). rf_jti q = rf_jti row \<and> rf_revokedAt q = None"
      and rows: "ad_refresh x = ad_refresh (revoke_refresh (\<lambda>r. rf_jti r = rf_jti row) (ae_now env) (sw_x w)) @
        [refresh_row_of env (s_id s) (s_authVersion s) (rf_familyId row)]" by auto
    from live Refresh_commit(4,5) have fresh: "rf_jti row \<notin> set (sw_rotated w)" and born: "sw_born w (rf_jti row) \<noteq> None"
      by (auto simp: rotation_inv_def born_ok_def)
    with Refresh_commit(2) have "rf_jti row \<noteq> ae_refreshJti env" by auto
    moreover have "ae_refreshJti env \<notin> set (sw_rotated w)" using Refresh_commit(2,4) by (auto simp: rotation_inv_def)
    ultimately show ?thesis
      using Refresh_commit(4) fresh born unfolding rotation_inv_def
      by (auto simp: r rows note_refresh_def revoke_refresh_def set_update_rows)
  qed
next
  case (Link_issue env email w r x)
  show ?case
    by (rule rotation_quiet [OF Link_issue(2) orows.staysD [OF old_links(1) Link_issue(1)]])
      (auto simp: note_link_def split: sum.splits option.splits)
next
  case (Link_activate k i v w env r x)
  show ?case by (rule rotation_quiet [OF Link_activate(3) orows.staysD [OF old_links(2) Link_activate(2)]]) auto
next
  case (Revoke env i w r x)
  show ?case by (rule rotation_quiet [OF Revoke(2) orows.staysD [OF old_revoke(1) Revoke(1)]]) auto
next
  case (Account w env q)
  obtain r x where run: "run_account env q (sw_x w) = (r, x)" by fastforce
  show ?case
    by (rule rotation_quiet [OF Account(1) orows.staysD [OF old_account(1) run]])
      (auto simp: run account_step_def note_account_def split: sum.splits option.splits account_request.splits)
qed

lemma jtis_step: "session_step w w' \<Longrightarrow> distinct (map rf_jti (ad_refresh (sw_x w))) \<Longrightarrow> distinct (map rf_jti (ad_refresh (sw_x w')))"
proof (induction rule: session_step.induct)
  case (Account w env q)
  obtain r x where run: "run_account env q (sw_x w) = (r, x)" by fastforce
  from orows.staysD [OF old_account(1) run] Account show ?case by (simp add: old_rows_def account_step_def run)
qed (auto simp: old_rows_def one_row_def dest!: old_login orow.staysD [OF orow_issue] orow.staysD [OF orow_commit]
   orows.staysD [OF old_refresh_check(1)] orows.staysD [OF old_links(1)] orows.staysD [OF old_links(2)] orows.staysD [OF old_revoke(1)])

lemma rotation_reach:
  "session_step\<^sup>*\<^sup>* w w' \<Longrightarrow> session_inv w \<Longrightarrow> rotation_inv w \<Longrightarrow> distinct (map rf_jti (ad_refresh (sw_x w))) \<Longrightarrow>
   rotation_inv w' \<and> session_inv w' \<and> distinct (map rf_jti (ad_refresh (sw_x w')))"
proof (induction rule: rtranclp_induct)
  case (step y z)
  then show ?case using rotation_step [OF step(2)] session_inv_step [OF step(2)] jtis_step [OF step(2)] by (simp add: session_inv_def)
qed simp

lemma replay_revokes:
  assumes "refresh_check env raw x = (Inr (row, s), x1)" "rf_revokedAt row = Some t" "ae_now env - t > 10000"
    and "distinct (map rf_jti (ad_refresh x))"
  shows "isl (fst (refresh env raw x)) \<and>
    (\<forall>r \<in> set (ad_refresh (snd (refresh env raw x))). rf_familyId r = rf_familyId row \<longrightarrow> rf_revokedAt r \<noteq> None)"
proof -
  have "old_rows x x1" using orows.staysD [OF old_refresh_check(1) assms(1)] .
  then have d: "distinct (map rf_jti (ad_refresh x1))" using assms(4) by (simp add: old_rows_def)
  have "row \<in> set (ad_refresh x1)"
    using assms(1) unfolding refresh_check_def staffGroup_def
    by (auto simp: run_rules run_option split: option.splits dest!: find_row_SomeD)
  with d assms(2) have none: "count_rows (\<lambda>r. rf_jti r = rf_jti row \<and> rf_revokedAt r = None) (ad_refresh x1) = 0"
    by (auto simp: count_rows_0_iff distinct_map dest!: inj_onD)
  show ?thesis
    using assms(1-3) none
    by (auto simp: refresh_def bnd_def refresh_commit_def consume_refresh_def act_defs Let_def REFRESH_ROTATION_GRACE_MS_def
        revoke_refresh_def set_update_rows)
qed

text \<open>
  C15: A refresh token is exchanged for a new one at most once, in every interleaving: no token id
  occurs twice among the exchanges that returned a successor, however many requests present the
  same token at the same time. And whoever presents a token that was revoked more than ten seconds
  ago is refused, and every token of its family is revoked afterwards.
\<close>

theorem refresh_rotates_once:
  assumes "sessions_start w0" "session_step\<^sup>*\<^sup>* w0 w"
  shows "distinct (sw_rotated w) \<and>
    (refresh_check env raw (sw_x w) = (Inr (row, s), x) \<and> rf_revokedAt row = Some t \<and> ae_now env - t > 10000 \<longrightarrow>
       isl (fst (refresh env raw (sw_x w))) \<and>
       (\<forall>r \<in> set (ad_refresh (snd (refresh env raw (sw_x w)))). rf_familyId r = rf_familyId row \<longrightarrow> rf_revokedAt r \<noteq> None))"
proof -
  have "rotation_inv w0" "session_inv w0" "distinct (map rf_jti (ad_refresh (sw_x w0)))"
    using assms(1) session_inv_start by (auto simp: sessions_start_def rotation_inv_def)
  from rotation_reach [OF assms(2) this(2,1,3)] have "rotation_inv w" "distinct (map rf_jti (ad_refresh (sw_x w)))" by auto
  with replay_revokes show ?thesis unfolding rotation_inv_def by blast
qed


section \<open>A reset link is used once\<close>

definition link_inv :: "session_world \<Rightarrow> bool" where
  "link_inv w \<longleftrightarrow> distinct (sw_used w) \<and> distinct (map pr_id (ad_resets (sw_x w))) \<and>
     (\<forall>r \<in> set (ad_resets (sw_x w)). pr_id r < ad_seq_reset (sw_x w)) \<and>
     (\<forall>k \<in> set (sw_used w). k < ad_seq_reset (sw_x w)) \<and>
     (\<forall>r \<in> set (ad_resets (sw_x w)). pr_id r \<in> set (sw_used w) \<longrightarrow>
        (\<exists>n. version (pr_staffId r) (sw_x w) = Some n \<and> pr_authVersion r < n))"

lemma link_quiet:
  assumes "link_inv w" "old_resets (sw_x w) x" "ages (sw_x w) x" "sw_x w' = x" "sw_used w' = sw_used w"
  shows "link_inv w'"
proof -
  have "pr_id r < ad_seq_reset x \<and> (pr_id r \<in> set (sw_used w) \<longrightarrow> (\<exists>n. version (pr_staffId r) x = Some n \<and> pr_authVersion r < n))"
    if "r \<in> set (ad_resets x)" for r
  proof -
    from assms(2) that obtain q where q: "q \<in> set (ad_resets (sw_x w))" "kept_reset q r" by (auto simp: old_resets_def)
    then show ?thesis
      using assms(1,2) agesD [OF assms(3)] by (fastforce simp: link_inv_def kept_reset_def old_resets_def)
  qed
  with assms show ?thesis by (auto simp: link_inv_def old_resets_def)
qed

lemma issue_reset_rows:
  assumes "issue_reset env email x = (r, x')"
  shows "old_resets x x' \<or> (\<exists>p n. ad_resets x' = delete_rows p (ad_resets x) @ [n] \<and> pr_id n = ad_seq_reset x \<and> ad_seq_reset x' = Suc (ad_seq_reset x))"
proof (cases "find_staff (\<lambda>s. s_email s = email) x")
  case None
  with assms show ?thesis by (auto simp: issue_reset_def act_defs intro: oresets.frame_refl)
next
  case (Some s)
  let ?del = "\<lambda>x. x\<lparr>ad_resets := delete_rows (\<lambda>r. pr_expiresAt r < ae_now env) (ad_resets x)\<rparr>"
  show ?thesis
  proof (cases "s_isEnabled s")
    case False
    with assms Some show ?thesis by (auto simp: issue_reset_def act_defs intro: oresets.frame_refl)
  next
    case True
    have "oresets.stays (modify ?del)" by (rule oresets_delete)
    then have del: "old_resets x (?del x)" by (simp add: oresets.stays_def modify_def)
    have "x' = ?del x \<or> (\<exists>n. ad_resets x' = ad_resets (?del x) @ [n] \<and> pr_id n = ad_seq_reset x \<and> ad_seq_reset x' = Suc (ad_seq_reset x))"
      using assms Some True by (auto simp: issue_reset_def create_reset_def act_defs split: if_splits)
    with del show ?thesis by auto
  qed
qed

lemma link_issued:
  assumes "link_inv w" "issue_reset env email (sw_x w) = (r, x)" "sw_x w' = x" "sw_used w' = sw_used w"
  shows "link_inv w'"
  using issue_reset_rows [OF assms(2)]
proof
  assume "old_resets (sw_x w) x"
  from link_quiet [OF assms(1) this ages.staysD [OF ages_resets(1) assms(2)] assms(3,4)] show ?thesis .
next
  assume "\<exists>p n. ad_resets x = delete_rows p (ad_resets (sw_x w)) @ [n] \<and> pr_id n = ad_seq_reset (sw_x w) \<and> ad_seq_reset x = Suc (ad_seq_reset (sw_x w))"
  then obtain p n where rows: "ad_resets x = delete_rows p (ad_resets (sw_x w)) @ [n]" and n: "pr_id n = ad_seq_reset (sw_x w)"
    and seq: "ad_seq_reset x = Suc (ad_seq_reset (sw_x w))" by blast
  have ages: "ages (sw_x w) x" using ages.staysD [OF ages_resets(1) assms(2)] .
  have unused: "pr_id n \<notin> set (sw_used w)" using assms(1) n by (auto simp: link_inv_def)
  have dist: "distinct (map pr_id (ad_resets x))"
    using assms(1) n by (auto simp: link_inv_def rows delete_rows_def distinct_map_filter)
  have old: "\<exists>m. version (pr_staffId q) x = Some m \<and> pr_authVersion q < m"
    if "q \<in> set (ad_resets (sw_x w))" "pr_id q \<in> set (sw_used w)" for q
    using assms(1) that agesD [OF ages] by (fastforce simp: link_inv_def)
  show ?thesis
    unfolding link_inv_def assms(3,4) seq
  proof (intro conjI ballI impI)
    show "distinct (sw_used w)" "distinct (map pr_id (ad_resets x))" using assms(1) dist by (auto simp: link_inv_def)
    show "k < Suc (ad_seq_reset (sw_x w))" if "k \<in> set (sw_used w)" for k
      using assms(1) that by (auto simp: link_inv_def less_Suc_eq)
    show "pr_id r < Suc (ad_seq_reset (sw_x w))" if "r \<in> set (ad_resets x)" for r
      using assms(1) that n by (auto simp: link_inv_def rows set_delete_rows less_Suc_eq)
    show "\<exists>m. version (pr_staffId r) x = Some m \<and> pr_authVersion r < m" if "r \<in> set (ad_resets x)" "pr_id r \<in> set (sw_used w)" for r
      using that unused old by (auto simp: rows set_delete_rows)
  qed
qed

lemma link_used:
  assumes "link_inv w" "accounts_ok (sw_x w)" "resetPassword env tok pw (sw_x w) = (Inr u, x)"
    and "find_reset (ae_sha256 env tok) (sw_x w) = Some k" "sw_x w' = x" "sw_used w' = pr_id k # sw_used w"
  shows "link_inv w'"
proof -
  have k: "k \<in> set (ad_resets (sw_x w))" using assms(4) by (auto simp: find_reset_def dest!: find_row_SomeD)
  have cur: "version (pr_staffId k) (sw_x w) = Some (pr_authVersion k)"
  proof (rule run_resetPassword [OF assms(3)])
    fix r u1 u2 x1
    assume "find_reset (ae_sha256 env tok) (sw_x w) = Some r" and run: "apply_reset env r (ae_hash env pw) (sw_x w) = (Inr u1, x1)"
    then have "r = k" using assms(4) by simp
    show ?thesis by (rule run_apply_reset [OF run assms(2)]) (simp add: version_def \<open>r = k\<close>)
  qed
  with assms(1) k have new: "pr_id k \<notin> set (sw_used w)" by (auto simp: link_inv_def)
  have old: "old_resets (sw_x w) x" using oresets.staysD [OF resets_requests(8) assms(3)] .
  have ages: "ages (sw_x w) x" using ages.staysD [OF ages_resets(3) assms(3)] .
  obtain n where n: "version (pr_staffId k) x = Some n" "pr_authVersion k < n"
    using reset_bumps [OF assms(3,4,2)] cur by (auto simp: bumped_def)
  have "link_inv (w\<lparr>sw_x := x\<rparr>)" using assms(1) old ages by (rule link_quiet) simp_all
  moreover have "\<exists>n. version (pr_staffId r) x = Some n \<and> pr_authVersion r < n" if "r \<in> set (ad_resets x)" "pr_id r = pr_id k" for r
  proof -
    from old that obtain q where "q \<in> set (ad_resets (sw_x w))" "kept_reset q r" by (auto simp: old_resets_def)
    with that(2) assms(1) k have "q = k" by (auto simp: link_inv_def kept_reset_def distinct_map dest: inj_onD)
    with \<open>kept_reset q r\<close> n show ?thesis by (simp add: kept_reset_def)
  qed
  moreover have "pr_id k < ad_seq_reset x" using assms(1) k old by (auto simp: link_inv_def old_resets_def)
  ultimately show ?thesis using new assms(5,6) by (simp add: link_inv_def)
qed

lemma link_step:
  assumes "session_step w w'" "link_inv w" "accounts_ok (sw_x w)"
  shows "link_inv w'"
  using assms
proof (induction rule: session_step.induct)
  case (Login_check env email pw ip w r x)
  show ?case
    by (rule link_quiet [OF Login_check(2) oresets.staysD [OF old_login_check(2) Login_check(1)] ages.staysD [OF ages_login(1) Login_check(1)]])
      (auto simp: note_login_def split: sum.splits)
next
  case (Login_issue c s w env r x)
  show ?case
    by (rule link_quiet [OF Login_issue(4) oresets.staysD [OF old_issuing(1) Login_issue(3)] ages.staysD [OF ages_login(2) Login_issue(3)]])
      (auto simp: note_issue_def split: sum.splits)
next
  case (Refresh_check env raw w r x)
  show ?case
    by (rule link_quiet [OF Refresh_check(2) oresets.staysD [OF old_refresh_check(2) Refresh_check(1)] ages.staysD [OF ages_refresh(1) Refresh_check(1)]])
      (auto simp: note_rotation_def split: sum.splits)
next
  case (Refresh_commit c row s w env r x)
  show ?case
    by (rule link_quiet [OF Refresh_commit(4) oresets.staysD [OF old_issuing(2) Refresh_commit(3)] ages.staysD [OF ages_refresh(2) Refresh_commit(3)]])
      (auto simp: note_refresh_def split: sum.splits)
next
  case (Link_issue env email w r x)
  show ?case by (rule link_issued [OF Link_issue(2,1)]) (auto simp: note_link_def split: sum.splits option.splits)
next
  case (Link_activate k i v w env r x)
  show ?case
    by (rule link_quiet [OF Link_activate(3) oresets.staysD [OF old_links(3) Link_activate(2)] ages.staysD [OF ages_resets(2) Link_activate(2)]]) auto
next
  case (Revoke env i w r x)
  show ?case
    by (rule link_quiet [OF Revoke(2) oresets.staysD [OF old_revoke(2) Revoke(1)] ages.staysD [OF ages_revoke(1) Revoke(1)]]) auto
next
  case (Account w env q)
  obtain r x where run: "run_account env q (sw_x w) = (r, x)" by fastforce
  note quiet = link_quiet [OF Account(1) oresets.staysD [OF old_account(2) run] ages.staysD [OF ages_account run]]
  show ?case
  proof (cases "\<exists>tok pw u. q = AReset tok pw \<and> r = Inr u")
    case False
    then show ?thesis
      by (intro quiet) (auto simp: run account_step_def note_account_def split: sum.splits option.splits account_request.splits)
  next
    case True
    then obtain tok pw u where q: "q = AReset tok pw" "r = Inr u" by blast
    with run have reset: "resetPassword env tok pw (sw_x w) = (Inr u, x)" by simp
    obtain k where k: "find_reset (ae_sha256 env tok) (sw_x w) = Some k" using reset by (rule run_resetPassword)
    show ?thesis
      by (rule link_used [OF Account(1,2) reset k]) (auto simp: q reset k account_step_def note_account_def)
  qed
qed

lemma reset_effect:
  assumes "resetPassword env tok pw x = (Inr u, x')" "accounts_ok x"
  obtains k s where "find_reset (ae_sha256 env tok) x = Some k" "usable_reset (ae_now env) k"
    "find_staff (\<lambda>s. s_id s = pr_staffId k) x = Some s" "s_isEnabled s" "s_authVersion s = pr_authVersion k"
    "find_staff (\<lambda>s. s_id s = pr_staffId k) x' = Some ((bump s)\<lparr>s_passwordHash := ae_hash env pw\<rparr>)"
    "\<forall>r \<in> set (ad_resets x'). pr_staffId r = pr_staffId k \<longrightarrow> pr_usedAt r \<noteq> None"
    "\<forall>r \<in> set (ad_refresh x'). rf_staffId r = pr_staffId k \<longrightarrow> rf_revokedAt r \<noteq> None"
proof (rule run_resetPassword [OF assms(1)])
  fix k u1 u2 x1
  assume k: "find_reset (ae_sha256 env tok) x = Some k" "usable_reset (ae_now env) k"
    and run: "apply_reset env k (ae_hash env pw) x = (Inr u1, x1)" and rev: "revokeAllForStaff env (pr_staffId k) x1 = (Inr u2, x')"
  let ?f = "\<lambda>s. (bump s)\<lparr>s_passwordHash := ae_hash env pw\<rparr>"
  have db: "ad_db x' = ad_db x1" using data.staysD [OF data_revoke(1) rev] by (simp add: same_data_def)
  have cache: "\<exists>rd. z' = z\<lparr>ad_redis := rd\<rparr>" if "revokeStaffAccessBefore env i t z = (r, z')" for i t z r z'
    using that by (auto simp: revokeStaffAccessBefore_def upd_redis_def act_defs split: if_splits) (metis auth_db.surjective auth_db.update_convs(8))+
  obtain rd where x': "x' = (burn_resets (\<lambda>q. pr_staffId q = pr_staffId k) (ae_now env)
      (revoke_refresh (\<lambda>r. rf_staffId r = pr_staffId k) (ae_now env) x1))\<lparr>ad_redis := rd\<rparr>"
    using rev cache unfolding revokeAllForStaff_def run_sq run_modify by blast
  show thesis
  proof (rule run_apply_reset [OF run assms(2)])
    fix s
    assume s: "find_staff (\<lambda>s. s_id s = pr_staffId k) x = Some s" "s_isEnabled s" "s_authVersion s = pr_authVersion k"
      and db1: "ad_db x1 = ad_db (set_staffs (changeable k) ?f x)"
    have "find_staff (\<lambda>s. s_id s = pr_staffId k) x' = map_option (\<lambda>s. if changeable k s then ?f s else s) (find_staff (\<lambda>s. s_id s = pr_staffId k) x)"
      unfolding find_staff_def db db1 set_staffs_def upd_db_def by (simp add: find_row_update_rows)
    then have "find_staff (\<lambda>s. s_id s = pr_staffId k) x' = Some (?f s)"
      using s find_staff_id [OF s(1)] by (simp add: changeable_def)
    then show thesis
      by (rule that [OF k s]) (auto simp: x' burn_resets_def revoke_refresh_def set_update_rows)
  qed
qed

lemma reset_once:
  assumes "link_inv w" "accounts_ok (sw_x w)" "resetPassword env tok pw (sw_x w) = (Inr u, x)"
  shows "\<exists>k s. find_reset (ae_sha256 env tok) (sw_x w) = Some k \<and> pr_id k \<notin> set (sw_used w) \<and> usable_reset (ae_now env) k \<and>
         find_staff (\<lambda>s. s_id s = pr_staffId k) (sw_x w) = Some s \<and> s_isEnabled s \<and> s_authVersion s = pr_authVersion k \<and>
         find_staff (\<lambda>s. s_id s = pr_staffId k) x = Some ((bump s)\<lparr>s_passwordHash := ae_hash env pw\<rparr>) \<and>
         (\<forall>r \<in> set (ad_resets x). pr_staffId r = pr_staffId k \<longrightarrow> pr_usedAt r \<noteq> None) \<and>
         (\<forall>r \<in> set (ad_refresh x). rf_staffId r = pr_staffId k \<longrightarrow> rf_revokedAt r \<noteq> None)"
proof (rule reset_effect [OF assms(3,2)])
  fix k s
  assume k: "find_reset (ae_sha256 env tok) (sw_x w) = Some k" and s: "find_staff (\<lambda>s. s_id s = pr_staffId k) (sw_x w) = Some s"
    "s_authVersion s = pr_authVersion k"
  have "k \<in> set (ad_resets (sw_x w))" using k by (auto simp: find_reset_def dest!: find_row_SomeD)
  then have "pr_id k \<notin> set (sw_used w)" using assms(1) s by (auto simp: link_inv_def version_def)
  with k s show "usable_reset (ae_now env) k \<Longrightarrow> s_isEnabled s \<Longrightarrow>
         find_staff (\<lambda>s. s_id s = pr_staffId k) x = Some ((bump s)\<lparr>s_passwordHash := ae_hash env pw\<rparr>) \<Longrightarrow>
         \<forall>r \<in> set (ad_resets x). pr_staffId r = pr_staffId k \<longrightarrow> pr_usedAt r \<noteq> None \<Longrightarrow>
         \<forall>r \<in> set (ad_refresh x). rf_staffId r = pr_staffId k \<longrightarrow> rf_revokedAt r \<noteq> None \<Longrightarrow> ?thesis" by blast
qed

text \<open>
  C16: A password reset link sets a password at most once, in every interleaving of its delivery,
  of competing links and of other requests: no link occurs twice among the successful resets. A reset
  that succeeds found a link that was active, not expired and issued under the account's present
  version, and leaves the new password, a higher version, no usable link and no usable refresh
  token of the account.
\<close>

theorem reset_link_used_once:
  assumes "sessions_start w0" "session_step\<^sup>*\<^sup>* w0 w"
  shows "distinct (sw_used w) \<and>
    (resetPassword env tok pw (sw_x w) = (Inr u, x) \<longrightarrow>
      (\<exists>k s. find_reset (ae_sha256 env tok) (sw_x w) = Some k \<and> pr_id k \<notin> set (sw_used w) \<and> usable_reset (ae_now env) k \<and>
         find_staff (\<lambda>s. s_id s = pr_staffId k) (sw_x w) = Some s \<and> s_isEnabled s \<and> s_authVersion s = pr_authVersion k \<and>
         find_staff (\<lambda>s. s_id s = pr_staffId k) x = Some ((bump s)\<lparr>s_passwordHash := ae_hash env pw\<rparr>) \<and>
         (\<forall>r \<in> set (ad_resets x). pr_staffId r = pr_staffId k \<longrightarrow> pr_usedAt r \<noteq> None) \<and>
         (\<forall>r \<in> set (ad_refresh x). rf_staffId r = pr_staffId k \<longrightarrow> rf_revokedAt r \<noteq> None)))"
proof -
  have start: "session_inv w0" "link_inv w0"
    using assms(1) session_inv_start by (auto simp: sessions_start_def link_inv_def)
  have "session_inv w' \<and> link_inv w'" if "session_step\<^sup>*\<^sup>* w0 w'" for w'
    using that
  proof (induction rule: rtranclp_induct)
    case (step y z)
    then have "accounts_ok (sw_x y)" by (simp add: session_inv_def)
    with step show ?case using session_inv_step link_step by blast
  qed (use start in blast)
  then have inv: "session_inv w" "link_inv w" using assms(2) by auto
  then have ok: "accounts_ok (sw_x w)" by (simp add: session_inv_def)
  with inv(2) reset_once show ?thesis unfolding link_inv_def by blast
qed


section \<open>Concrete runs\<close>

text \<open>One agent; a hash that keeps the text and a token service that hands out what it is told.\<close>

definition demo_env :: "time \<Rightarrow> access_payload option \<Rightarrow> refresh_payload option \<Rightarrow> string \<Rightarrow> auth_env" where
  "demo_env now p k jti =
     \<lparr>ae_now = 1700000000000 + now, ae_production = True, ae_accessTtl = 900, ae_refreshTtl = 604800, ae_verifyAccess = (\<lambda>_. p),
      ae_verifyRefresh = (\<lambda>_. k), ae_signAccess = (\<lambda>_. ''access''), ae_signRefresh = (\<lambda>k. rk_jti k), ae_hash = (\<lambda>s. s),
      ae_verify = (\<lambda>h s. h = s), ae_sha256 = (\<lambda>s. s), ae_hmac = (\<lambda>s. s), ae_accessJti = ''a'', ae_refreshJti = jti,
      ae_familyId = ''f'', ae_resetToken = ''link'', ae_mailed = True\<rparr>"

definition demo_auth :: auth_db where
  "demo_auth = \<lparr>ad_db = empty_db\<lparr>staffs := [(sample_staff 7 4)\<lparr>s_passwordHash := ''pw''\<rparr>], groups := [sample_group 4 False]\<rparr>,
     ad_refresh = [], ad_resets = [], ad_rbac = [], ad_seq_reset = 2, ad_seq_staff = 8, ad_seq_group = 5,
     ad_redis = \<lparr>rd_up = True, rd_cutoffs = Map.empty, rd_blocked = Map.empty, rd_counters = Map.empty\<rparr>\<rparr>"

definition demo_world :: session_world where
  "demo_world = \<lparr>sw_x = demo_auth, sw_clock = 3, sw_logins = [], sw_rotations = [], sw_links = [], sw_born = Map.empty,
     sw_tokens = [], sw_rotated = [], sw_used = []\<rparr>"

lemma demo_start: "sessions_start demo_world"
  by (simp add: sessions_start_def demo_world_def demo_auth_def accounts_ok_def sample_staff_def empty_db_def)

definition do_login_check :: "auth_env \<Rightarrow> session_world \<Rightarrow> session_world" where
  "do_login_check env w = (let (r, x) = login_check env ''a@b.c'' ''pw'' ''ip'' (sw_x w) in moved x (note_login r w))"

definition do_login_issue :: "auth_env \<Rightarrow> session_world \<Rightarrow> session_world" where
  "do_login_issue env w =
     (case sw_logins w of [] \<Rightarrow> w
      | (c, s) # _ \<Rightarrow> let (r, x) = login_issue env s (sw_x w) in moved x (note_issue c (ae_refreshJti env) r w))"

definition do_refresh_check :: "auth_env \<Rightarrow> string \<Rightarrow> session_world \<Rightarrow> session_world" where
  "do_refresh_check env raw w = (let (r, x) = refresh_check env raw (sw_x w) in moved x (note_rotation r w))"

definition do_refresh_commit :: "auth_env \<Rightarrow> session_world \<Rightarrow> session_world" where
  "do_refresh_commit env w =
     (case sw_rotations w of [] \<Rightarrow> w
      | (c, row, s) # _ \<Rightarrow> let (r, x) = refresh_commit env row s (sw_x w) in moved x (note_refresh c row (ae_refreshJti env) r w))"

definition do_link :: "auth_env \<Rightarrow> session_world \<Rightarrow> session_world" where
  "do_link env w = (let (r, x) = issue_reset env ''a@b.c'' (sw_x w) in moved x (note_link r w))"

definition do_activate :: "auth_env \<Rightarrow> session_world \<Rightarrow> session_world" where
  "do_activate env w =
     (case sw_links w of [] \<Rightarrow> w | (k, i, v) # _ \<Rightarrow> let (r, x) = activateDeliveredReset env k i v (sw_x w) in moved x w)"

lemma do_steps:
  "session_step w (do_login_check env w)"
  "sw_logins w \<noteq> [] \<Longrightarrow> sw_born w (ae_refreshJti env) = None \<Longrightarrow> session_step w (do_login_issue env w)"
  "session_step w (do_refresh_check env raw w)"
  "sw_rotations w \<noteq> [] \<Longrightarrow> sw_born w (ae_refreshJti env) = None \<Longrightarrow> session_step w (do_refresh_commit env w)"
  "session_step w (do_link env w)"
  "sw_links w \<noteq> [] \<Longrightarrow> session_step w (do_activate env w)"
proof -
  show "session_step w (do_login_check env w)"
    unfolding do_login_check_def Let_def by (simp only: case_prod_beta) (rule Login_check, rule prod.collapse [symmetric])
  show "session_step w (do_refresh_check env raw w)"
    unfolding do_refresh_check_def Let_def by (simp only: case_prod_beta) (rule Refresh_check, rule prod.collapse [symmetric])
  show "session_step w (do_link env w)"
    unfolding do_link_def Let_def by (simp only: case_prod_beta) (rule Link_issue, rule prod.collapse [symmetric])
  show "session_step w (do_login_issue env w)" if "sw_logins w \<noteq> []" "sw_born w (ae_refreshJti env) = None"
    using that by (cases "sw_logins w") (auto simp: do_login_issue_def case_prod_beta Let_def intro!: Login_issue)
  show "session_step w (do_refresh_commit env w)" if "sw_rotations w \<noteq> []" "sw_born w (ae_refreshJti env) = None"
    using that by (cases "sw_rotations w") (auto simp: do_refresh_commit_def case_prod_beta Let_def intro!: Refresh_commit)
  show "session_step w (do_activate env w)" if "sw_links w \<noteq> []"
    using that by (cases "sw_links w") (auto simp: do_activate_def case_prod_beta Let_def intro!: Link_activate prod.collapse [symmetric])
qed

definition relogin_world :: session_world where
  "relogin_world =
     do_login_issue (demo_env 2000 None None ''j1'')
       (do_login_check (demo_env 2000 None None ''j1'') (account_step (demo_env 1000 None None '''') (ALogout 7 None None) demo_world))"

lemma relogin_reach: "session_step\<^sup>*\<^sup>* (account_step (demo_env 1000 None None '''') (ALogout 7 None None) demo_world) relogin_world"
proof -
  let ?w = "account_step (demo_env 1000 None None '''') (ALogout 7 None None) demo_world"
  let ?v = "do_login_check (demo_env 2000 None None ''j1'') ?w"
  have "length (sw_logins ?v) = 1" "sw_born ?v ''j1'' = None" by code_simp+
  then have "sw_logins ?v \<noteq> []" "sw_born ?v (ae_refreshJti (demo_env 2000 None None ''j1'')) = None" by (auto simp: demo_env_def)
  from do_steps(2) [OF this] do_steps(1) show ?thesis
    unfolding relogin_world_def by (blast intro: converse_rtranclp_into_rtranclp r_into_rtranclp)
qed

theorem session_revocation_final_witness: "sw_clock demo_world < fst (hd (sw_tokens relogin_world))"
proof -
  let ?e = "demo_env 3000 (Some (snd (hd (sw_tokens relogin_world)))) None ''''"
  have "isl (fst (run_account (demo_env 1000 None None '''') (ALogout 7 None None) (sw_x demo_world))) = False" by code_simp
  then obtain u x where out: "run_account (demo_env 1000 None None '''') (ALogout 7 None None) (sw_x demo_world) = (Inr u, x)"
    using succeeds by blast
  have "isl (fst (canActivate ?e (Some ''t'') (sw_x relogin_world))) = False" by code_simp
  then obtain me x1 where acc: "canActivate ?e (Some ''t'') (sw_x relogin_world) = (Inr me, x1)" using succeeds by blast
  have "length (sw_tokens relogin_world) = 1" "ac_staffId (snd (hd (sw_tokens relogin_world))) = 7" by code_simp+
  then show ?thesis
    using session_revocation_final [OF demo_start rtranclp.rtrancl_refl out _ relogin_reach, of 7
        "fst (hd (sw_tokens relogin_world))" "snd (hd (sw_tokens relogin_world))" ?e "''t''" me x1] acc
    by (cases "sw_tokens relogin_world") (auto simp: demo_env_def)
qed

text \<open>Two requests present the first refresh token at the same time; later the token is replayed.\<close>

definition race_world :: session_world where
  "race_world =
     (let e = demo_env 3000 None (Some \<lparr>rk_sub = 7, rk_jti = ''j1'', rk_fid = None\<rparr>) ''j2'';
          w = do_refresh_check e ''j1'' (do_refresh_check e ''j1'' relogin_world)
      in do_refresh_commit (demo_env 3000 None None ''j3'') (do_refresh_commit (demo_env 3000 None None ''j2'') w))"

lemma race_reach: "session_step\<^sup>*\<^sup>* demo_world race_world"
proof -
  let ?e = "demo_env 3000 None (Some \<lparr>rk_sub = 7, rk_jti = ''j1'', rk_fid = None\<rparr>) ''j2''"
  let ?w = "do_refresh_check ?e ''j1'' (do_refresh_check ?e ''j1'' relogin_world)"
  let ?v = "do_refresh_commit (demo_env 3000 None None ''j2'') ?w"
  have "length (sw_rotations ?w) = 2" "sw_born ?w ''j2'' = None" "length (sw_rotations ?v) = 2" "sw_born ?v ''j3'' = None" by code_simp+
  then have a: "sw_rotations ?w \<noteq> []" "sw_born ?w (ae_refreshJti (demo_env 3000 None None ''j2'')) = None"
    "sw_rotations ?v \<noteq> []" "sw_born ?v (ae_refreshJti (demo_env 3000 None None ''j3'')) = None"
    by (auto simp: demo_env_def)
  have "session_step\<^sup>*\<^sup>* demo_world relogin_world" using relogin_reach Account by (rule converse_rtranclp_into_rtranclp [rotated])
  then have "session_step\<^sup>*\<^sup>* demo_world ?w" using do_steps(3) by (blast intro: rtranclp.rtrancl_into_rtrancl)
  then show ?thesis
    unfolding race_world_def Let_def using do_steps(4) [OF a(1,2)] do_steps(4) [OF a(3,4)] by (blast intro: rtranclp.rtrancl_into_rtrancl)
qed

theorem refresh_rotates_once_witness:
  "distinct (sw_rotated race_world) \<and> sw_rotated race_world = [''j1''] \<and>
   isl (fst (refresh (demo_env 20000 None (Some \<lparr>rk_sub = 7, rk_jti = ''j1'', rk_fid = None\<rparr>) ''j4'') ''j1'' (sw_x race_world)))"
proof -
  let ?e = "demo_env 20000 None (Some \<lparr>rk_sub = 7, rk_jti = ''j1'', rk_fid = None\<rparr>) ''j4''"
  have "isl (fst (refresh_check ?e ''j1'' (sw_x race_world))) = False"
    "rf_revokedAt (fst (projr (fst (refresh_check ?e ''j1'' (sw_x race_world))))) = Some 1700000003000" by code_simp+
  then obtain row s x where run: "refresh_check ?e ''j1'' (sw_x race_world) = (Inr (row, s), x)" "rf_revokedAt row = Some 1700000003000"
    using succeeds by (metis fst_conv old.prod.exhaust sum.sel(2))
  have "sw_rotated race_world = [''j1'']" by code_simp
  moreover have "ae_now ?e - 1700000003000 > 10000" by (simp add: demo_env_def)
  ultimately show ?thesis
    using refresh_rotates_once [OF demo_start race_reach, of ?e "''j1''" row s x 1700000003000] run by blast
qed

definition link_world :: session_world where
  "link_world = do_activate (demo_env 1000 None None '''') (do_link (demo_env 1000 None None '''') demo_world)"

lemma link_reach: "session_step\<^sup>*\<^sup>* demo_world link_world"
proof -
  let ?w = "do_link (demo_env 1000 None None '''') demo_world"
  have "length (sw_links ?w) = 1" by code_simp
  then have "sw_links ?w \<noteq> []" by auto
  from do_steps(6) [OF this] do_steps(5) show ?thesis
    unfolding link_world_def by (blast intro: converse_rtranclp_into_rtranclp r_into_rtranclp)
qed

theorem reset_link_used_once_witness:
  "\<exists>x s. resetPassword (demo_env 2000 None None '''') ''link'' ''new'' (sw_x link_world) = (Inr (), x) \<and>
     find_staff (\<lambda>s. s_id s = 7) x = Some s \<and> s_passwordHash s = ''new''"
proof -
  let ?e = "demo_env 2000 None None ''''"
  have "isl (fst (resetPassword ?e ''link'' ''new'' (sw_x link_world))) = False"
    "map_option pr_staffId (find_reset ''link'' (sw_x link_world)) = Some 7" by code_simp+
  then obtain x where run: "resetPassword ?e ''link'' ''new'' (sw_x link_world) = (Inr (), x)" using succeeds by fastforce
  with \<open>map_option pr_staffId (find_reset ''link'' (sw_x link_world)) = Some 7\<close>
  show ?thesis
    using reset_link_used_once [OF demo_start link_reach, of ?e "''link''" "''new''" "()" x] by (auto simp: demo_env_def)
qed

end
