(* ===== verification/RoleSafety.thy ===== *)
theory RoleSafety
  imports SessionRun
begin

text \<open>
  Two guarantees of role administration: a manager who is no administrator cannot raise anybody's
  authority above their own, touch an account or role above it, or change a department scope, by
  any sequence of requests; and an enabled administrator remains whatever is requested.
\<close>

section \<open>Running a handler from a state\<close>

lemma after_read:
  assumes "snd (m x) = x" "\<And>y. m x = (Inr y, x) \<Longrightarrow> Q (snd (f y x))" "Q x"
  shows "Q (snd (bnd m f x))"
  using assms by (cases "m x"; cases "fst (m x)") (auto simp: bnd_def)

lemma after_check:
  assumes "snd (m x) = x" "\<And>y. m x = (Inr y, x) \<Longrightarrow> Q (snd (n x))" "Q x"
  shows "Q (snd (sq m n x))"
  unfolding sq_def using assms by (rule after_read)

lemma after_write:
  assumes "data.stays n" "\<And>r x'. m x = (r, x') \<Longrightarrow> Q (ad_db x')"
  shows "Q (ad_db (snd (sq m n x)))"
proof -
  obtain r x' where m: "m x = (r, x')" by fastforce
  then have "ad_db (snd (sq m n x)) = ad_db x'"
    using assms(1) by (cases r) (auto simp: sq_def bnd_def data.stays_def same_data_def)
  with assms(2) [OF m] show ?thesis by simp
qed

lemma sq_modify: "sq (modify f) n x = n (f x)" "sq (sq (modify f) m) n x = sq m n (f x)"
  by (simp_all add: act_defs)

lemma data_after: "data.stays n \<Longrightarrow> ad_db (snd (n x)) = ad_db x"
  by (auto simp: data.stays_def same_data_def)

lemma reads_only [simp]:
  "snd (assertGroupWithinActorAuthority b ps a x) = x" "snd (getGroup i x) = x" "snd (getStaff i x) = x"
  "snd (assertCanAssignGroup k a x) = x" "snd (assertNotRemovingLastAdmin s g c t x) = x" "snd (reads f x) = x"
  "snd (require d e x) = x" "snd (validateDepartmentAssignments ds a x) = x" "snd (target_group dto a x) = x"
  by (auto simp: assertGroupWithinActorAuthority_def getGroup_def getStaff_def assertCanAssignGroup_def assertNotRemovingLastAdmin_def
      validateDepartmentAssignments_def target_group_def staffGroup_def act_defs split: option.splits)

section \<open>The ceiling of a manager\<close>

definition group_of :: "db \<Rightarrow> staff \<Rightarrow> staff_group option" where
  "group_of d s = group_by_id (s_groupId s) d"

definition below :: "string set \<Rightarrow> staff_group option \<Rightarrow> bool" where
  "below P z \<longleftrightarrow> (\<exists>g. z = Some g \<and> \<not> g_isAdmin g \<and> set (g_permissions g) \<subseteq> P)"

definition capped :: "string set \<Rightarrow> db \<Rightarrow> db \<Rightarrow> bool" where
  "capped P d d' \<longleftrightarrow>
     (\<forall>s \<in> set (staffs d'). (s \<in> set (staffs d) \<and> group_of d' s = group_of d s) \<or> below P (group_of d' s)) \<and>
     (\<forall>s \<in> set (staffs d). group_of d s \<noteq> None \<and> \<not> below P (group_of d s) \<longrightarrow> s \<in> set (staffs d') \<and> group_of d' s = group_of d s) \<and>
     dept_staff d' = dept_staff d"

lemma ceiling_refl: "capped P d d"
  by (auto simp: capped_def)

lemma ceiling_trans:
  assumes "capped P a b" "capped P b c"
  shows "capped P a c"
  unfolding capped_def
proof (intro conjI ballI impI)
  show "(s \<in> set (staffs a) \<and> group_of c s = group_of a s) \<or> below P (group_of c s)" if "s \<in> set (staffs c)" for s
    using assms that unfolding capped_def by metis
  show "dept_staff c = dept_staff a" using assms by (simp add: capped_def)
  fix s
  assume "s \<in> set (staffs a)" "group_of a s \<noteq> None \<and> \<not> below P (group_of a s)"
  then show "s \<in> set (staffs c)" "group_of c s = group_of a s" using assms unfolding capped_def by metis+
qed

interpretation ceil: frame "\<lambda>x x'. capped P (ad_db x) (ad_db x')" for P
  by unfold_locales (auto intro: ceiling_refl ceiling_trans)

lemma within_below:
  "within_authority (Some a) (g_isAdmin g) (g_permissions g) \<Longrightarrow> \<not> pc_isAdmin a \<Longrightarrow> set (pc_permissions a) \<subseteq> P \<Longrightarrow> below P (Some g)"
  by (auto simp: within_authority_def below_def)

text \<open>Writing one account that is below the ceiling before and after.\<close>

lemma ceiling_set_staff:
  assumes "\<And>s. s \<in> set (staffs (ad_db x)) \<Longrightarrow> s_id s = i \<Longrightarrow> below P (group_of (ad_db x) s) \<and> below P (group_of (ad_db x) (f s))"
  shows "capped P (ad_db x) (ad_db (set_staffs (\<lambda>s. s_id s = i) f x))"
proof -
  have same: "group_of (ad_db (set_staffs p f x)) s = group_of (ad_db x) s" for p s
    by (simp add: group_of_def set_staffs_def upd_db_def group_by_id_def)
  show ?thesis
    unfolding capped_def same
    using assms by (auto simp: set_staffs_def upd_db_def set_update_rows)
qed

lemma ceiling_update:
  assumes "\<not> pc_isAdmin a" "set (pc_permissions a) \<subseteq> P" "accounts_ok x"
  shows "capped P (ad_db x) (ad_db (snd (updateStaff env i dto (Some a) x)))"
  unfolding updateStaff_def
proof (rule after_read [where Q = "\<lambda>x'. capped P (ad_db x) (ad_db x')"])
  fix y
  assume "getStaff i x = (Inr y, x)"
  then obtain s g where y: "y = (s, g)" and s: "find_staff (\<lambda>s. s_id s = i) x = Some s" "group_by_id (s_groupId s) (ad_db x) = Some g"
    by (cases y) (auto simp: getStaff_run)
  let ?f = "patch_staff dto (map_option (ae_hash env) (new_password dto)) (session_invalidating dto s)"
  have tail: "data.stays (sq (when_act b (revokeAllForStaff env i)) (sq (audit_update (Some a) dto s) (ret z)))" for b z
    by (intro data.stays_intros data_revoke data_audit)
  let ?Q = "\<lambda>x'. capped P (ad_db x) (ad_db x')"
  have written: "capped P (ad_db x) (ad_db x')"
    if g: "below P (Some g)" and t: "target_group dto (Some a) x = (Inr t, x)" and w: "write_patch env i dto (Some a) s x = (r, x')" for t r x'
  proof (cases r)
    case (Inl e)
    with w have "x' = x" by (auto simp: write_patch_def txn_def split: prod.splits sum.splits)
    then show ?thesis by (simp add: ceiling_refl)
  next
    case (Inr v)
    with w assms(1) have x': "x' = set_staffs (\<lambda>s. s_id s = i) ?f x"
      by (auto simp: write_patch_def run_rules run_option run_write_staff run_departments)
    have "below P (group_of (ad_db x) (?f s))"
    proof (cases "sp_staffGroupId dto")
      case None
      with g s(2) show ?thesis by (simp add: group_of_def patch_staff_def or_keep_def)
    next
      case (Some k)
      with t assms(1,2) within_below show ?thesis
        by (auto simp: target_group_def run_rules run_assign group_of_def patch_staff_def or_keep_def)
    qed
    moreover have "s' = s" if "s' \<in> set (staffs (ad_db x))" "s_id s' = i" for s'
      using find_staff_distinct [OF assms(3) that(1)] that(2) s(1) by simp
    ultimately show ?thesis unfolding x' using g s(2) by (intro ceiling_set_staff) (auto simp: group_of_def)
  qed
  have "?Q (snd (update_known env i dto (Some a) s g x))"
    unfolding update_known_def
  proof (rule after_check [where Q = ?Q])
    fix u
    assume "assertGroupWithinActorAuthority (g_isAdmin g) (g_permissions g) (Some a) x = (Inr u, x)"
    then have g: "below P (Some g)" using assms(1,2) within_below by (simp add: run_authority)
    show "?Q (snd (bnd (target_group dto (Some a)) (\<lambda>targetGroup.
       sq (when_act (is_disabling dto s \<or> role_changed dto s \<and> targetGroup \<noteq> None) (assertNotRemovingLastAdmin s g (is_disabling dto s) targetGroup))
         (sq (write_patch env i dto (Some a) s)
         (sq (when_act (session_invalidating dto s) (revokeAllForStaff env i)) (sq (audit_update (Some a) dto s) (ret (?f s)))))) x))"
      by (rule after_read [where Q = ?Q], simp, rule after_check [where Q = ?Q], simp add: when_act_def ret_def,
          rule after_write [where Q = "capped P (ad_db x)", OF tail], erule written [OF g], simp_all add: ceiling_refl)
  qed (simp_all add: ceiling_refl)
  then show "?Q (snd ((\<lambda>(s, g). update_known env i dto (Some a) s g) y x))" by (simp add: y)
qed (simp_all add: ceiling_refl)

lemma ceiling_disable:
  assumes "\<not> pc_isAdmin a" "set (pc_permissions a) \<subseteq> P" "accounts_ok x"
  shows "capped P (ad_db x) (ad_db (snd (disableStaff env i (Some a) x)))"
  unfolding disableStaff_def
proof (rule after_read [where Q = "\<lambda>x'. capped P (ad_db x) (ad_db x')"])
  fix y
  assume "getStaff i x = (Inr y, x)"
  then obtain s g where y: "y = (s, g)" and s: "find_staff (\<lambda>s. s_id s = i) x = Some s" "group_by_id (s_groupId s) (ad_db x) = Some g"
    by (cases y) (auto simp: getStaff_run)
  let ?Q = "\<lambda>x'. capped P (ad_db x) (ad_db x')" and ?f = "\<lambda>s. (bump s)\<lparr>s_isEnabled := False\<rparr>"
  have tail: "data.stays (sq (when_act b (revokeAllForStaff env i)) (rbac_log (Some a) c d i))" for b c d
    by (intro data.stays_intros data_revoke data_log)
  have written: "capped P (ad_db x) (ad_db x')" if g: "below P (Some g)" and w: "update_staff i ?f x = (r, x')" for r x'
  proof -
    have "x' = set_staffs (\<lambda>s. s_id s = i) ?f x" using w s(1) by (auto simp: update_staff_def act_defs)
    moreover have "s' = s" if "s' \<in> set (staffs (ad_db x))" "s_id s' = i" for s'
      using find_staff_distinct [OF assms(3) that(1)] that(2) s(1) by simp
    ultimately show ?thesis using g s(2) by (auto simp: group_of_def intro!: ceiling_set_staff)
  qed
  have "?Q (snd (sq (assertGroupWithinActorAuthority (g_isAdmin g) (g_permissions g) (Some a))
     (sq (assertNotRemovingLastAdmin s g True None) (sq (update_staff i ?f)
     (sq (when_act (s_isEnabled s) (revokeAllForStaff env i)) (rbac_log (Some a) ''staff.disable'' ''staff'' i)))) x))"
  proof (rule after_check [where Q = ?Q])
    fix u
    assume "assertGroupWithinActorAuthority (g_isAdmin g) (g_permissions g) (Some a) x = (Inr u, x)"
    then have g: "below P (Some g)" using assms(1,2) within_below by (simp add: run_authority)
    show "?Q (snd (sq (assertNotRemovingLastAdmin s g True None) (sq (update_staff i ?f)
     (sq (when_act (s_isEnabled s) (revokeAllForStaff env i)) (rbac_log (Some a) ''staff.disable'' ''staff'' i))) x))"
      by (rule after_check [where Q = ?Q], simp, rule after_write [where Q = "capped P (ad_db x)", OF tail], erule written [OF g],
          simp add: ceiling_refl)
  qed (simp_all add: ceiling_refl)
  then show "?Q (snd ((\<lambda>(s, g). sq (assertGroupWithinActorAuthority (g_isAdmin g) (g_permissions g) (Some a))
     (sq (assertNotRemovingLastAdmin s g True None) (sq (update_staff i ?f)
     (sq (when_act (s_isEnabled s) (revokeAllForStaff env i)) (rbac_log (Some a) ''staff.disable'' ''staff'' i))))) y x))" by (simp add: y)
qed (simp_all add: ceiling_refl)

text \<open>An account is never created by a manager.\<close>

lemma ceiling_create:
  assumes "\<not> pc_isAdmin a"
  shows "snd (createStaff env dto (Some a) x) = x"
proof (cases "createStaff env dto (Some a) x")
  case (Pair r x')
  show ?thesis
  proof (cases r)
    case (Inl e)
    with Pair createStaff_fails show ?thesis by fastforce
  next
    case (Inr s)
    with createStaff_run [of env dto "Some a" x s x'] Pair assms show ?thesis by simp
  qed
qed

text \<open>Roles.\<close>

lemma ceiling_createGroup:
  assumes "\<not> pc_isAdmin a" "set (pc_permissions a) \<subseteq> P"
  shows "capped P (ad_db x) (ad_db (snd (createGroup dto (Some a) x)))"
  unfolding createGroup_def
proof (rule after_check [where Q = "\<lambda>x'. capped P (ad_db x) (ad_db x')"])
  fix u
  assume "assertGroupWithinActorAuthority (gi_isAdmin dto) (gi_permissions dto) (Some a) x = (Inr u, x)"
  then have ok: "\<not> gi_isAdmin dto" "set (gi_permissions dto) \<subseteq> P" using assms by (auto simp: run_authority within_authority_def)
  let ?g = "\<lparr>g_id = ad_seq_group x, g_title = gi_title dto, g_isAdmin = gi_isAdmin dto, g_permissions = gi_permissions dto\<rparr>"
  have "capped P (ad_db x) ((ad_db x)\<lparr>groups := groups (ad_db x) @ [?g]\<rparr>)"
    using ok by (auto simp: capped_def group_of_def group_by_id_def find_row_append below_def split: option.splits)
  then show "capped P (ad_db x) (ad_db (snd (bnd (reads ad_seq_group) (\<lambda>i.
     (let g = \<lparr>g_id = i, g_title = gi_title dto, g_isAdmin = gi_isAdmin dto, g_permissions = gi_permissions dto\<rparr> in
      sq (modify (\<lambda>x. (upd_db (\<lambda>d. d\<lparr>groups := groups d @ [g]\<rparr>) x)\<lparr>ad_seq_group := Suc i\<rparr>))
     (sq (rbac_log (Some a) ''group.create'' ''group'' i) (ret g)))) x)))"
    by (simp add: act_defs rbac_log_def upd_db_def Let_def)
qed (simp_all add: ceiling_refl)

lemma find_row_delete_rows:
  "(\<And>r. q r \<Longrightarrow> \<not> p r) \<Longrightarrow> find_row q (delete_rows p rows) = find_row q rows"
  by (induction rows) (auto simp: delete_rows_def find_row_def)

text \<open>The role as the update writes it, and its members after a change of the permissions.\<close>

definition group_written :: "nat \<Rightarrow> string option \<Rightarrow> string list option \<Rightarrow> auth_db \<Rightarrow> auth_db" where
  "group_written i ti ps = upd_db (\<lambda>d. d\<lparr>groups := update_rows (\<lambda>g. g_id g = i) (patch_group ti ps) (groups d)\<rparr>)"

lemma group_of_written:
  "group_of (ad_db (group_written i ti ps x)) s =
     (if s_groupId s = i then map_option (patch_group ti ps) (group_of (ad_db x) s) else group_of (ad_db x) s)"
proof -
  have keep: "g_id (if g_id g = i then patch_group ti ps g else g) = g_id g" for g by (simp add: patch_group_def)
  have "group_of (ad_db (group_written i ti ps x)) s =
      map_option (\<lambda>g. if g_id g = i then patch_group ti ps g else g) (group_of (ad_db x) s)"
    unfolding group_of_def group_by_id_def group_written_def upd_db_def
    by (simp, subst find_row_update_rows) (simp_all add: patch_group_def)
  then show ?thesis
    by (cases "group_of (ad_db x) s") (auto simp: group_of_def group_by_id_def dest: find_row_SomeD)
qed

lemma ceiling_group_written:
  assumes "group_by_id i (ad_db x) = Some g" "below P (Some g)" "below P (Some (patch_group ti ps g))"
  shows "capped P (ad_db x) (ad_db (group_written i ti ps x))"
    "capped P (ad_db x) (ad_db (set_staffs (\<lambda>s. s_groupId s = i) bump (group_written i ti ps x)))"
proof -
  let ?y = "group_written i ti ps x"
  have member: "group_of (ad_db x) s = Some g" "group_of (ad_db ?y) s = Some (patch_group ti ps g)" if "s_groupId s = i" for s
    using assms(1) that by (simp_all add: group_of_written) (simp_all add: group_of_def)
  have other: "group_of (ad_db ?y) s = group_of (ad_db x) s" if "s_groupId s \<noteq> i" for s
    using that by (simp add: group_of_written)
  have rows: "staffs (ad_db ?y) = staffs (ad_db x)" "dept_staff (ad_db ?y) = dept_staff (ad_db x)"
    by (simp_all add: group_written_def upd_db_def)
  show "capped P (ad_db x) (ad_db ?y)"
    unfolding capped_def rows using member other assms(2,3) by (metis (no_types, lifting))
  have same: "group_of (ad_db (set_staffs p f ?y)) s = group_of (ad_db ?y) s" for p f s
    by (simp add: group_of_def set_staffs_def upd_db_def group_by_id_def)
  have moved: "s_groupId (bump s) = s_groupId s" for s by (simp add: bump_def)
  have set: "set (staffs (ad_db (set_staffs p f ?y))) = (\<lambda>s. if p s then f s else s) ` set (staffs (ad_db x))" for p f
    using rows by (auto simp: set_staffs_def upd_db_def set_update_rows)
  show "capped P (ad_db x) (ad_db (set_staffs (\<lambda>s. s_groupId s = i) bump ?y))"
    unfolding capped_def same set
  proof (intro conjI ballI impI)
    show "dept_staff (ad_db (set_staffs (\<lambda>s. s_groupId s = i) bump ?y)) = dept_staff (ad_db x)"
      using rows by (simp add: set_staffs_def upd_db_def)
    fix s
    assume "s \<in> (\<lambda>s. if s_groupId s = i then bump s else s) ` set (staffs (ad_db x))"
    then show "(s \<in> set (staffs (ad_db x)) \<and> group_of (ad_db ?y) s = group_of (ad_db x) s) \<or> below P (group_of (ad_db ?y) s)"
      using member(2) other moved assms(3) by force
  next
    fix s
    assume s: "s \<in> set (staffs (ad_db x))" "group_of (ad_db x) s \<noteq> None \<and> \<not> below P (group_of (ad_db x) s)"
    then have "s_groupId s \<noteq> i" using member(1) assms(2) by auto
    with s(1) other show "s \<in> (\<lambda>s. if s_groupId s = i then bump s else s) ` set (staffs (ad_db x))"
      "group_of (ad_db ?y) s = group_of (ad_db x) s" by force+
  qed
qed

lemma ceiling_updateGroup:
  assumes "\<not> pc_isAdmin a" "set (pc_permissions a) \<subseteq> P"
  shows "capped P (ad_db x) (ad_db (snd (updateGroup env i ti ps (Some a) x)))"
  unfolding updateGroup_def Let_def
proof (rule after_read [where Q = "\<lambda>x'. capped P (ad_db x) (ad_db x')"])
  fix g
  assume "getGroup i x = (Inr g, x)"
  then have g: "group_by_id i (ad_db x) = Some g" by (simp add: run_getGroup)
  let ?Q = "\<lambda>x'. capped P (ad_db x) (ad_db x')" and ?y = "group_written i ti ps x"
  let ?w = "sq (modify (upd_db (\<lambda>d. d\<lparr>groups := update_rows (\<lambda>g. g_id g = i) (patch_group ti ps) (groups d)\<rparr>)))
    (sq (if ps \<noteq> None \<and> \<not> sameStringSet (g_permissions g) (g_permissions (patch_group ti ps g))
         then sq (modify (set_staffs (\<lambda>s. s_groupId s = i) bump))
             (sq (revokeAllForGroup env i) (rbac_log (Some a) ''group.permissions_change'' ''group'' i))
         else rbac_log (Some a) ''group.update'' ''group'' i)
        (ret (patch_group ti ps g)))"
  have tail: "data.stays (sq (sq (revokeAllForGroup env i) (rbac_log (Some a) b c i)) (ret z))" "data.stays (sq (rbac_log (Some a) b c i) (ret z))" for b c z
    by (intro data.stays_intros data_revoke data_log)+
  show "?Q (snd (sq (assertGroupWithinActorAuthority (g_isAdmin g) (g_permissions g) (Some a))
     (sq (case ps of None \<Rightarrow> ret () | Some p \<Rightarrow> assertGroupWithinActorAuthority False p (Some a)) ?w) x))"
  proof (rule after_check [where Q = ?Q])
    fix u
    assume "assertGroupWithinActorAuthority (g_isAdmin g) (g_permissions g) (Some a) x = (Inr u, x)"
    then have old: "below P (Some g)" using assms within_below by (simp add: run_authority)
    show "?Q (snd (sq (case ps of None \<Rightarrow> ret () | Some p \<Rightarrow> assertGroupWithinActorAuthority False p (Some a)) ?w x))"
    proof (rule after_check [where Q = ?Q])
      fix v
      assume "(case ps of None \<Rightarrow> ret () | Some p \<Rightarrow> assertGroupWithinActorAuthority False p (Some a)) x = (Inr v, x)"
      then have new: "below P (Some (patch_group ti ps g))"
        using old assms by (auto simp: run_authority within_authority_def below_def patch_group_def split: option.splits)
      show "?Q (snd (?w x))"
      proof (cases "ps \<noteq> None \<and> \<not> sameStringSet (g_permissions g) (g_permissions (patch_group ti ps g))")
        case True
        then have "ad_db (snd (?w x)) = ad_db (set_staffs (\<lambda>s. s_groupId s = i) bump ?y)"
          by (simp only: if_True simp_thms sq_modify data_after [OF tail(1)] group_written_def)
        then show ?thesis using ceiling_group_written(2) [OF g old new] by simp
      next
        case False
        then have "ad_db (snd (?w x)) = ad_db ?y"
          by (simp only: if_False sq_modify data_after [OF tail(2)] group_written_def)
        then show ?thesis using ceiling_group_written(1) [OF g old new] by simp
      qed
    qed (simp_all add: ceiling_refl ret_def split: option.split)
  qed (simp_all add: ceiling_refl)
qed (simp_all add: ceiling_refl)

lemma deleteGroup_db:
  assumes "deleteGroup i a x = (r, x')"
  shows "ad_db x' = ad_db x \<or>
    (\<forall>s \<in> set (staffs (ad_db x)). s_groupId s \<noteq> i) \<and> ad_db x' = (ad_db x)\<lparr>groups := delete_rows (\<lambda>g. g_id g = i) (groups (ad_db x))\<rparr>"
  using assms unfolding deleteGroup_def
  by (auto simp: assertGroupWithinActorAuthority_def getGroup_def rbac_log_def act_defs upd_db_def group_members_def filter_empty_conv
      split: option.splits if_splits prod.splits sum.splits)

lemma group_of_deleted:
  "s_groupId s \<noteq> i \<Longrightarrow> group_of (d\<lparr>groups := delete_rows (\<lambda>g. g_id g = i) (groups d)\<rparr>) s = group_of d s"
  by (auto simp: group_of_def group_by_id_def intro!: find_row_delete_rows)

lemma ceiling_deleteGroup:
  "capped P (ad_db x) (ad_db (snd (deleteGroup i a x)))"
proof (cases "deleteGroup i a x")
  case (Pair r x')
  from deleteGroup_db [OF this] show ?thesis
  proof
    assume "(\<forall>s \<in> set (staffs (ad_db x)). s_groupId s \<noteq> i) \<and> ad_db x' = (ad_db x)\<lparr>groups := delete_rows (\<lambda>g. g_id g = i) (groups (ad_db x))\<rparr>"
    then show ?thesis using Pair group_of_deleted by (auto simp: capped_def)
  qed (simp add: Pair ceiling_refl)
qed

section \<open>An administrator remains\<close>

definition has_admin :: "db \<Rightarrow> bool" where
  "has_admin d \<longleftrightarrow> list_ex (enabled_admin d) (staffs d)"

lemma has_admin_iff: "has_admin d \<longleftrightarrow> (\<exists>s \<in> set (staffs d). enabled_admin d s)"
  by (simp add: has_admin_def list_ex_iff)

interpretation adm: frame "\<lambda>(x :: auth_db) x'. has_admin (ad_db x) \<longrightarrow> has_admin (ad_db x')"
  by unfold_locales auto

lemma enabled_admin_of: "enabled_admin d s \<longleftrightarrow> s_isEnabled s \<and> (\<exists>g. group_of d s = Some g \<and> g_isAdmin g)"
  by (auto simp: enabled_admin_def staff_is_admin_def group_of_def split: option.splits)

lemma has_admin_mono:
  assumes "has_admin d" "\<And>s. s \<in> set (staffs d) \<Longrightarrow> enabled_admin d s \<Longrightarrow> \<exists>s' \<in> set (staffs d'). enabled_admin d' s'"
  shows "has_admin d'"
  using assms by (auto simp: has_admin_iff)

lemma adm_modify: "(\<And>x. staffs (ad_db (f x)) = staffs (ad_db x) \<and> groups (ad_db (f x)) = groups (ad_db x)) \<Longrightarrow> adm.stays (modify f)"
  by (rule adm.stays_modify) (simp add: has_admin_iff enabled_admin_of group_of_def group_by_id_def)

lemma group_of_set_staffs: "group_of (ad_db (set_staffs p f x)) s = group_of (ad_db x) s"
  by (simp add: group_of_def set_staffs_def upd_db_def group_by_id_def)

lemma set_set_staffs: "set (staffs (ad_db (set_staffs p f x))) = (\<lambda>s. if p s then f s else s) ` set (staffs (ad_db x))"
  by (auto simp: set_staffs_def upd_db_def set_update_rows)

lemma has_admin_set_staffs:
  assumes "\<And>s. s_isEnabled (f s) = s_isEnabled s \<and> s_groupId (f s) = s_groupId s"
  shows "has_admin (ad_db x) \<Longrightarrow> has_admin (ad_db (set_staffs p f x))"
proof (erule has_admin_mono)
  fix s
  assume "s \<in> set (staffs (ad_db x))" "enabled_admin (ad_db x) s"
  moreover have "group_of d (if p s then f s else s) = group_of d s" for d using assms by (simp add: group_of_def)
  ultimately show "\<exists>s' \<in> set (staffs (ad_db (set_staffs p f x))). enabled_admin (ad_db (set_staffs p f x)) s'"
    unfolding set_set_staffs using assms by (intro bexI [of _ "if p s then f s else s"]) (auto simp: enabled_admin_of group_of_set_staffs)
qed

lemma adm_staffs: "(\<And>s. s_isEnabled (f s) = s_isEnabled s \<and> s_groupId (f s) = s_groupId s) \<Longrightarrow> adm.stays (modify (set_staffs p f))"
  by (rule adm.stays_modify) (simp add: has_admin_set_staffs)

lemma adm_update: "(\<And>s. s_isEnabled (f s) = s_isEnabled s \<and> s_groupId (f s) = s_groupId s) \<Longrightarrow> adm.stays (update_staff i f)"
  unfolding update_staff_def by (intro adm.stays_bnd adm.stays_reads adm.stays_option adm.stays_throw adm_staffs)

lemma bump_role [simp]: "s_isEnabled (bump s) = s_isEnabled s" "s_groupId (bump s) = s_groupId s"
  by (simp_all add: bump_def)

lemma adm_data: "data.stays m \<Longrightarrow> adm.stays m"
  by (simp add: adm.stays_def data_after)

lemma revoked_db [simp]: "ad_db (revoke_refresh p t x) = ad_db x" "ad_db (burn_resets q t x) = ad_db x"
  by (simp_all add: revoke_refresh_def burn_resets_def)

lemmas adm_neutral = adm_data [OF data_revoke(1)] adm_data [OF data_revoke(2)] adm_data [OF data_redis] adm_data [OF data_log]
  adm_data [OF data_audit]

lemma adm_logout: "adm.stays (logout env i j t)"
  unfolding logout_def revokeStaffSessions_def block_def Let_def
  by (intro adm.stays_intros adm_update adm_modify adm_neutral; simp)

lemma adm_reset: "adm.stays (resetPassword env tok pw)"
  unfolding resetPassword_def apply_reset_def Let_def
  by (intro adm.stays_intros adm_staffs adm_modify adm_neutral; simp)

lemma adm_checks:
  "adm.stays (assertGroupWithinActorAuthority b ps a)" "adm.stays (getGroup i)"
  by (simp_all add: adm.stays_def)

lemma adm_groups: "adm.stays (createGroup g a)" "adm.stays (updateGroup env i ti ps a)"
proof -
  have append: "adm.stays (modify (\<lambda>x. (upd_db (\<lambda>d. d\<lparr>groups := groups d @ [g]\<rparr>) x)\<lparr>ad_seq_group := k\<rparr>))" for g k
    by (rule adm.stays_modify)
      (auto simp: has_admin_iff enabled_admin_of group_of_def group_by_id_def find_row_append upd_db_def split: option.splits)
  then show "adm.stays (createGroup g a)"
    unfolding createGroup_def Let_def by (intro adm.stays_intros adm_checks adm_neutral append)
  have "has_admin (ad_db x) \<longrightarrow> has_admin (ad_db (group_written i ti ps x))" for x
  proof (intro impI, erule has_admin_mono)
    fix s
    assume "s \<in> set (staffs (ad_db x))" "enabled_admin (ad_db x) s"
    then show "\<exists>s' \<in> set (staffs (ad_db (group_written i ti ps x))). enabled_admin (ad_db (group_written i ti ps x)) s'"
      by (intro bexI [of _ s]) (auto simp: enabled_admin_of group_of_written patch_group_def, simp add: group_written_def upd_db_def)
  qed
  then have "adm.stays (modify (group_written i ti ps))" by (rule adm.stays_modify)
  then show "adm.stays (updateGroup env i ti ps a)"
    unfolding updateGroup_def Let_def
    by (intro adm.stays_intros adm_checks adm_neutral adm_staffs)
      (simp_all add: group_written_def)
qed

lemma adm_deleteGroup: "adm.stays (deleteGroup i a)"
  unfolding adm.stays_def
proof (intro allI impI)
  fix x :: auth_db
  assume admin: "has_admin (ad_db x)"
  obtain r x' where run: "deleteGroup i a x = (r, x')" by fastforce
  from deleteGroup_db [OF run] admin group_of_deleted show "has_admin (ad_db (snd (deleteGroup i a x)))"
    unfolding run by (auto simp: has_admin_iff enabled_admin_of)
qed

lemma admin_other:
  assumes "countEnabledAdmins x > 1" "distinct (map s_id (staffs (ad_db x)))"
  shows "\<exists>s' \<in> set (staffs (ad_db x)). s_id s' \<noteq> i \<and> enabled_admin (ad_db x) s'"
proof (rule ccontr)
  assume "\<not> ?thesis"
  then have "filter (enabled_admin (ad_db x)) (staffs (ad_db x)) = filter (\<lambda>s. enabled_admin (ad_db x) s \<and> s_id s = i) (staffs (ad_db x))"
    by (intro filter_cong) auto
  moreover have "count_rows (\<lambda>s. enabled_admin (ad_db x) s \<and> s_id s = i) (staffs (ad_db x)) \<le> 1"
    by (rule count_rows_distinct [OF assms(2)]) simp
  ultimately show False using assms(1) by (simp add: countEnabledAdmins_def count_rows_def)
qed

text \<open>An administrator remains when the guard of the last administrator has let a write pass.\<close>

lemma admin_kept:
  assumes "last_admin_ok s g b t x \<or> enabled_admin (ad_db x) (f s)" "accounts_ok x" "has_admin (ad_db x)"
    and "find_staff (\<lambda>s. s_id s = i) x = Some s" "group_by_id (s_groupId s) (ad_db x) = Some g"
    and "\<not> b \<Longrightarrow> s_isEnabled s \<Longrightarrow> s_isEnabled (f s)"
    and "t = None \<Longrightarrow> s_groupId (f s) = s_groupId s" "\<And>r. t = Some r \<Longrightarrow> group_by_id (s_groupId (f s)) (ad_db x) = Some r"
  shows "has_admin (ad_db (set_staffs (\<lambda>s. s_id s = i) f x))"
proof -
  have s: "s \<in> set (staffs (ad_db x))" "s_id s = i" using assms(4) by (auto simp: find_staff_def dest: find_row_SomeD)
  have f: "has_admin (ad_db (set_staffs (\<lambda>s. s_id s = i) f x))" if "enabled_admin (ad_db x) (f s)"
    unfolding has_admin_iff set_set_staffs
    using that s by (intro bexI [of _ "f s"]) (auto simp: enabled_admin_of group_of_set_staffs intro!: rev_image_eqI [of s])
  have other: "has_admin (ad_db (set_staffs (\<lambda>s. s_id s = i) f x))" if "s' \<in> set (staffs (ad_db x))" "s_id s' \<noteq> i" "enabled_admin (ad_db x) s'" for s'
    unfolding has_admin_iff set_set_staffs
    using that by (intro bexI [of _ s']) (auto simp: enabled_admin_of group_of_set_staffs intro!: rev_image_eqI [of s'])
  from assms(1) show ?thesis
  proof
    assume "last_admin_ok s g b t x"
    then consider "\<not> enabled_admin (ad_db x) s" | "enabled_admin (ad_db x) (f s)" | "countEnabledAdmins x > 1"
      using assms(5-8) by (cases t) (auto simp: last_admin_ok_def enabled_admin_of group_of_def)
    then show ?thesis
    proof cases
      case 1
      from assms(3) obtain s' where s': "s' \<in> set (staffs (ad_db x))" "enabled_admin (ad_db x) s'" by (auto simp: has_admin_iff)
      with 1 find_staff_distinct [OF assms(2) s'(1)] assms(4) have "s_id s' \<noteq> i" by auto
      with s' other show ?thesis by blast
    next
      case 3
      with admin_other assms(2) other show ?thesis unfolding accounts_ok_def by blast
    qed (rule f)
  qed (rule f)
qed

lemma adm_updateStaff:
  assumes ok: "accounts_ok x" and admin: "has_admin (ad_db x)"
  shows "has_admin (ad_db (snd (updateStaff env i dto a x)))"
  unfolding updateStaff_def
proof (rule after_read [where Q = "\<lambda>x'. has_admin (ad_db x')"])
  fix y
  assume "getStaff i x = (Inr y, x)"
  then obtain s g where y: "y = (s, g)" and s: "find_staff (\<lambda>s. s_id s = i) x = Some s" "group_by_id (s_groupId s) (ad_db x) = Some g"
    by (cases y) (auto simp: getStaff_run)
  let ?f = "patch_staff dto (map_option (ae_hash env) (new_password dto)) (session_invalidating dto s)"
  let ?Q = "\<lambda>x'. has_admin (ad_db x')"
  have tail: "data.stays (sq (when_act b (revokeAllForStaff env i)) (sq (audit_update a dto s) (ret z)))" for b z
    by (intro data.stays_intros data_revoke data_audit)
  have written: "has_admin (ad_db x')"
    if t: "target_group dto a x = (Inr t, x)" and w: "write_patch env i dto a s x = (r, x')"
      and g: "when_act (is_disabling dto s \<or> role_changed dto s \<and> t \<noteq> None) (assertNotRemovingLastAdmin s g (is_disabling dto s) t) x = (Inr u, x)"
    for t r x' u
  proof (cases r)
    case (Inl e)
    with w have "x' = x" by (auto simp: write_patch_def txn_def split: prod.splits sum.splits)
    then show ?thesis by (simp add: admin)
  next
    case (Inr v)
    with w have x': "staffs (ad_db x') = staffs (ad_db (set_staffs (\<lambda>s. s_id s = i) ?f x))" "groups (ad_db x') = groups (ad_db x)"
      by (auto simp: write_patch_def run_rules run_option run_write_staff run_departments replace_departments_def set_staffs_def upd_db_def)
    have target: "t = None \<Longrightarrow> s_groupId (?f s) = s_groupId s" "\<And>r. t = Some r \<Longrightarrow> group_by_id (s_groupId (?f s)) (ad_db x) = Some r"
      using t by (auto simp: target_group_def run_rules run_assign patch_staff_def or_keep_def split: option.splits)
    have keep: "s_isEnabled (?f s)" if "\<not> is_disabling dto s" "s_isEnabled s"
      using that by (auto simp: is_disabling_def enabled_changed_def patch_staff_def or_keep_def split: option.splits)
    have stay: "last_admin_ok s g (is_disabling dto s) t x \<or> enabled_admin (ad_db x) (?f s)"
    proof (cases "is_disabling dto s \<or> role_changed dto s \<and> t \<noteq> None")
      case True
      with g show ?thesis by (simp add: when_act_def run_last_admin)
    next
      case False
      then have "s_groupId (?f s) = s_groupId s"
        using target(1) by (auto simp: role_changed_def patch_staff_def)
      with False keep s(2) show ?thesis by (auto simp: last_admin_ok_def enabled_admin_of group_of_def)
    qed
    have "has_admin (ad_db (set_staffs (\<lambda>s. s_id s = i) ?f x))"
      by (rule admin_kept [where f = ?f, OF stay ok admin s keep target])
    then show ?thesis using x' by (simp add: has_admin_iff enabled_admin_of group_of_set_staffs) (simp add: group_of_def group_by_id_def)
  qed
  have "?Q (snd (update_known env i dto a s g x))"
    unfolding update_known_def
    by (rule after_check [where Q = ?Q], simp, rule after_read [where Q = ?Q], simp, rule after_check [where Q = ?Q], simp add: when_act_def ret_def,
        rule after_write [where Q = "has_admin", OF tail], erule (2) written, simp_all add: admin)
  then show "?Q (snd ((\<lambda>(s, g). update_known env i dto a s g) y x))" by (simp add: y)
qed (simp_all add: admin)

lemma adm_disableStaff:
  assumes ok: "accounts_ok x" and admin: "has_admin (ad_db x)"
  shows "has_admin (ad_db (snd (disableStaff env i a x)))"
  unfolding disableStaff_def
proof (rule after_read [where Q = "\<lambda>x'. has_admin (ad_db x')"])
  fix y
  assume "getStaff i x = (Inr y, x)"
  then obtain s g where y: "y = (s, g)" and s: "find_staff (\<lambda>s. s_id s = i) x = Some s" "group_by_id (s_groupId s) (ad_db x) = Some g"
    by (cases y) (auto simp: getStaff_run)
  let ?Q = "\<lambda>x'. has_admin (ad_db x')" and ?f = "\<lambda>s. (bump s)\<lparr>s_isEnabled := False\<rparr>"
  have tail: "data.stays (sq (when_act b (revokeAllForStaff env i)) (rbac_log a c d i))" for b c d
    by (intro data.stays_intros data_revoke data_log)
  have written: "has_admin (ad_db x')" if c: "assertNotRemovingLastAdmin s g True None x = (Inr u, x)" and w: "update_staff i ?f x = (r, x')" for r x' u
  proof -
    have "x' = set_staffs (\<lambda>s. s_id s = i) ?f x" using w s(1) by (auto simp: update_staff_def act_defs)
    moreover have "has_admin (ad_db (set_staffs (\<lambda>s. s_id s = i) ?f x))"
      by (rule admin_kept [OF disjI1 ok admin s, of True None]) (use c in \<open>simp_all add: run_last_admin\<close>)
    ultimately show ?thesis by simp
  qed
  have "?Q (snd (sq (assertGroupWithinActorAuthority (g_isAdmin g) (g_permissions g) a)
     (sq (assertNotRemovingLastAdmin s g True None) (sq (update_staff i ?f)
     (sq (when_act (s_isEnabled s) (revokeAllForStaff env i)) (rbac_log a ''staff.disable'' ''staff'' i)))) x))"
    by (rule after_check [where Q = ?Q], simp, rule after_check [where Q = ?Q], simp,
        rule after_write [where Q = "has_admin", OF tail], erule (1) written, simp_all add: admin)
  then show "?Q (snd ((\<lambda>(s, g). sq (assertGroupWithinActorAuthority (g_isAdmin g) (g_permissions g) a)
     (sq (assertNotRemovingLastAdmin s g True None) (sq (update_staff i ?f)
     (sq (when_act (s_isEnabled s) (revokeAllForStaff env i)) (rbac_log a ''staff.disable'' ''staff'' i))))) y x))" by (simp add: y)
qed (simp_all add: admin)

section \<open>Sequences of requests\<close>

fun run_accounts :: "(auth_env \<times> account_request) list \<Rightarrow> auth_db \<Rightarrow> auth_db" where
  "run_accounts [] x = x"
| "run_accounts ((env, q) # rest) x = run_accounts rest (snd (run_account env q x))"

definition lower :: "string set \<Rightarrow> principal option \<Rightarrow> bool" where
  "lower P a = (case a of None \<Rightarrow> False | Some c \<Rightarrow> \<not> pc_isAdmin c \<and> set (pc_permissions c) \<subseteq> P)"

fun managed_by :: "string set \<Rightarrow> account_request \<Rightarrow> bool" where
  "managed_by P (AUpdate i dto a) = lower P a"
| "managed_by P (ADisable i a) = lower P a"
| "managed_by P (ACreate dto a) = lower P a"
| "managed_by P (AUpdateGroup i ti ps a) = lower P a"
| "managed_by P (ACreateGroup g a) = lower P a"
| "managed_by P (ADeleteGroup i a) = lower P a"
| "managed_by P _ = False"

lemma lowerD: "lower P a \<Longrightarrow> \<exists>c. a = Some c \<and> \<not> pc_isAdmin c \<and> set (pc_permissions c) \<subseteq> P"
  by (cases a) (auto simp: lower_def)

lemma after_ret: "snd (sq m (ret u) x) = snd (m x)"
  by (auto simp: sq_def bnd_def ret_def split: prod.splits sum.splits)

lemma ceiling_request:
  assumes "managed_by P q" "accounts_ok x"
  shows "capped P (ad_db x) (ad_db (snd (run_account env q x)))"
  using assms
  by (cases q) (auto simp: after_ret ceiling_create ceiling_refl dest!: lowerD
      intro: ceiling_update ceiling_disable ceiling_updateGroup ceiling_createGroup ceiling_deleteGroup)

lemma ceiling_requests:
  "list_all (\<lambda>(env, q). managed_by P q) reqs \<Longrightarrow> accounts_ok x \<Longrightarrow> capped P (ad_db x) (ad_db (run_accounts reqs x))"
proof (induction reqs arbitrary: x)
  case (Cons r reqs)
  obtain env q where r: "r = (env, q)" by fastforce
  from Cons.prems Cons.IH [OF _ accounts_ok_account] ceiling_request [of P q x env] show ?case
    by (auto simp: r intro: ceiling_trans)
qed (simp add: ceiling_refl)

lemma admin_request:
  assumes "accounts_ok x" "has_admin (ad_db x)"
  shows "has_admin (ad_db (snd (run_account env q x)))"
proof (cases q)
  case (ACreate dto a)
  obtain r x' where run: "createStaff env dto a x = (r, x')" by fastforce
  show ?thesis
  proof (cases r)
    case (Inl e)
    with run createStaff_fails assms(2) show ?thesis by (fastforce simp: ACreate after_ret)
  next
    case (Inr s)
    with run createStaff_run [of env dto a x s x'] assms(2) show ?thesis
      by (auto simp: ACreate after_ret has_admin_iff enabled_admin_of group_of_def group_by_id_def)
  qed
qed (use assms adm_logout adm_reset adm_groups adm_deleteGroup in
    \<open>auto simp: after_ret adm_updateStaff adm_disableStaff adm.stays_def\<close>)

lemma admin_requests:
  "accounts_ok x \<Longrightarrow> has_admin (ad_db x) \<Longrightarrow> has_admin (ad_db (run_accounts reqs x)) \<and> accounts_ok (run_accounts reqs x)"
  by (induction reqs arbitrary: x rule: list.induct) (auto simp: admin_request accounts_ok_account)


section \<open>The properties\<close>


text \<open>C14: An enabled administrator remains. Whatever account and role requests are made, by whomever
  and in whatever order, an installation that has an enabled administrator still has one after them.\<close>

theorem admin_remains:
  assumes "accounts_ok x" "has_admin (ad_db x)"
  shows "has_admin (ad_db (run_accounts reqs x))"
  using admin_requests [OF assms] by simp

definition demo_roles :: auth_db where
  "demo_roles = demo_auth\<lparr>ad_db := empty_db\<lparr>
     staffs := [sample_staff 7 4, (sample_staff 8 5)\<lparr>s_email := ''b'', s_username := ''b''\<rparr>, (sample_staff 9 4)\<lparr>s_email := ''c'', s_username := ''c''\<rparr>],
     groups := [sample_group 4 False, sample_group 5 True]\<rparr>, ad_seq_staff := 10\<rparr>"

definition manager :: principal where
  "manager = \<lparr>pc_staffId = 7, pc_email = ''a@b.c'', pc_isAdmin = False, pc_permissions = [''staff.manage'']\<rparr>"

definition patch_role :: "nat \<Rightarrow> bool option \<Rightarrow> staff_patch" where
  "patch_role k e = \<lparr>sp_email = None, sp_username = None, sp_firstName = None, sp_lastName = None, sp_password = None,
     sp_staffGroupId = Some k, sp_signature = None, sp_departmentIds = None, sp_isEnabled = e\<rparr>"

lemma demo_roles_ok: "accounts_ok demo_roles"
  by (simp add: accounts_ok_def demo_roles_def demo_auth_def sample_staff_def empty_db_def)


lemma demo_roles_admin: "has_admin (ad_db demo_roles)"
  by code_simp

definition demo_attempts :: "(auth_env \<times> account_request) list" where
  "demo_attempts =
     [(demo_env 1000 None None '''', AUpdate 7 (patch_role 5 None) (Some manager)),
      (demo_env 2000 None None '''', AUpdate 8 (patch_role 4 (Some False)) (Some manager)),
      (demo_env 3000 None None '''', ADisable 8 (Some manager))]"

lemma demo_attempts_managed: "list_all (\<lambda>(env, q). managed_by {''staff.manage''} q) demo_attempts"
  by (simp add: demo_attempts_def lower_def manager_def)


theorem admin_remains_witness:
  "has_admin (ad_db (run_accounts [(demo_env 1000 None None '''', ADisable 8 None), (demo_env 2000 None None '''', AUpdate 8 (patch_role 4 None) None)] demo_roles))"
  by (rule admin_remains [OF demo_roles_ok demo_roles_admin])

end
