(* ===== verification/SessionRecovery.thy ===== *)
theory SessionRecovery
  imports RoleSafety
begin

text \<open>
  The sessions that are meant to work do: a person who forgot the password of an enabled account
  asks for a link, sets a new password with it, logs in with that password and is let through by the
  guard. The lemmas run the four handlers one after the other on any well-formed state.
\<close>

section \<open>Well-formed reset rows\<close>

definition resets_ok :: "auth_db \<Rightarrow> bool" where
  "resets_ok x \<longleftrightarrow> distinct (map pr_id (ad_resets x)) \<and> list_all (\<lambda>r. pr_id r < ad_seq_reset x) (ad_resets x)"

lemma update_rows_append [simp]: "update_rows p f (xs @ ys) = update_rows p f xs @ update_rows p f ys"
  by (simp add: update_rows_def)

lemma update_rows_single [simp]: "update_rows p f [r] = [if p r then f r else r]"
  by (simp add: update_rows_def)

lemma distinct_delete_rows: "distinct (map k rows) \<Longrightarrow> distinct (map k (delete_rows p rows))"
  unfolding delete_rows_def by (rule distinct_map_filter)

section \<open>Asking for the link\<close>

definition link_row :: "auth_env \<Rightarrow> staff \<Rightarrow> auth_db \<Rightarrow> reset_row" where
  "link_row env s x = \<lparr>pr_id = ad_seq_reset x, pr_staffId = s_id s, pr_authVersion = s_authVersion s,
     pr_tokenHash = ae_sha256 env (ae_resetToken env), pr_expiresAt = ae_now env + 3600000, pr_usedAt = Some (ae_now env)\<rparr>"

lemma activate_rows:
  fixes now :: time
  assumes "list_all (\<lambda>r. pr_id r < i) rows" "pr_id n = i" "pr_staffId n = k" "pr_authVersion n = v" "pr_usedAt n = Some now" "pr_expiresAt n > now"
  defines "burnt \<equiv> update_rows (\<lambda>r. pr_staffId r = k \<and> pr_usedAt r = None) (\<lambda>r. r\<lparr>pr_usedAt := Some now\<rparr>) (rows @ [n])"
  shows "find_row (newer_active now i k) (rows @ [n]) = None" "count_rows (activatable now i k v) burnt = 1"
    "update_rows (activatable now i k v) (\<lambda>r. r\<lparr>pr_usedAt := None\<rparr>) burnt =
     update_rows (\<lambda>r. pr_staffId r = k \<and> pr_usedAt r = None) (\<lambda>r. r\<lparr>pr_usedAt := Some now\<rparr>) rows @ [n\<lparr>pr_usedAt := None\<rparr>]"
proof -
  show "find_row (newer_active now i k) (rows @ [n]) = None"
    using assms(1,2,5) by (auto simp: find_row_None_iff newer_active_def list_all_iff)
  let ?old = "update_rows (\<lambda>r. pr_staffId r = k \<and> pr_usedAt r = None) (\<lambda>r. r\<lparr>pr_usedAt := Some now\<rparr>) rows"
  have burnt: "burnt = ?old @ [n]" using assms(5) by (simp add: burnt_def)
  have old: "\<not> activatable now i k v r" if "r \<in> set ?old" for r
  proof -
    have "pr_id r \<in> pr_id ` set rows" using that by (auto simp: update_rows_def split: if_splits)
    then have "pr_id r < i" using assms(1) by (auto simp: list_all_iff)
    then show ?thesis by (simp add: activatable_def)
  qed
  have new: "activatable now i k v n" using assms(2-6) by (simp add: activatable_def)
  have "count_rows (activatable now i k v) ?old = 0" using old by (simp add: count_rows_0_iff)
  with new show "count_rows (activatable now i k v) burnt = 1" by (simp add: burnt)
  have "update_rows (activatable now i k v) f ?old = ?old" for f
    using old unfolding update_rows_def [of "activatable now i k v"] by (intro map_idI) auto
  with new show "update_rows (activatable now i k v) (\<lambda>r. r\<lparr>pr_usedAt := None\<rparr>) burnt = ?old @ [n\<lparr>pr_usedAt := None\<rparr>]"
    by (simp add: burnt)
qed

lemma run_activate:
  assumes "find_staff (\<lambda>r. s_id r = k) x = Some s" "s_isEnabled s" "s_authVersion s = v"
    and "find_row (newer_active (ae_now env) i k) (ad_resets x) = None"
    and "count_rows (activatable (ae_now env) i k v) (ad_resets (burn_resets (\<lambda>r. pr_staffId r = k) (ae_now env) x)) = 1"
  shows "activateDeliveredReset env i k v x =
    (Inr True, x\<lparr>ad_resets := update_rows (activatable (ae_now env) i k v) (\<lambda>r. r\<lparr>pr_usedAt := None\<rparr>)
       (ad_resets (burn_resets (\<lambda>r. pr_staffId r = k) (ae_now env) x))\<rparr>)"
  using assms by (simp add: activateDeliveredReset_def act_defs) (simp add: burn_resets_def)

text \<open>The state after the mail: the account's older links are spent, the new one can be used.\<close>

lemma run_forgotPassword:
  assumes s: "find_staff (\<lambda>s. s_email s = email) x = Some s" "s_isEnabled s" and ok: "accounts_ok x" "resets_ok x"
    and fresh: "find_reset (ae_sha256 env (ae_resetToken env)) x = None" and mailed: "ae_mailed env"
  obtains rows where "forgotPassword env email x =
      (Inr (), x\<lparr>ad_resets := rows @ [(link_row env s x)\<lparr>pr_usedAt := None\<rparr>], ad_seq_reset := Suc (ad_seq_reset x)\<rparr>)"
    "distinct (map pr_id rows)" "list_all (\<lambda>r. pr_id r < ad_seq_reset x \<and> pr_tokenHash r \<noteq> ae_sha256 env (ae_resetToken env)) rows"
proof -
  let ?h = "ae_sha256 env (ae_resetToken env)" and ?i = "ad_seq_reset x" and ?k = "s_id s" and ?v = "s_authVersion s" and ?now = "ae_now env"
  let ?old = "delete_rows (\<lambda>r. pr_expiresAt r < ?now) (ad_resets x)" and ?n = "link_row env s x"
  let ?rows = "update_rows (\<lambda>r. pr_staffId r = ?k \<and> pr_usedAt r = None) (\<lambda>r. r\<lparr>pr_usedAt := Some ?now\<rparr>) ?old"
  have ids: "list_all (\<lambda>r. pr_id r < ?i) ?old" using ok(2) by (auto simp: resets_ok_def list_all_iff set_delete_rows)
  have hash: "\<not> list_ex (\<lambda>r. pr_tokenHash r = ?h) ?old"
    using fresh by (auto simp: find_reset_def find_row_None_iff list_ex_iff set_delete_rows)
  have issue: "issue_reset env email x = (Inr (Some (?i, ?k, ?v)), x\<lparr>ad_resets := ?old @ [?n], ad_seq_reset := Suc ?i\<rparr>)"
    using s hash by (simp add: issue_reset_def create_reset_def act_defs link_row_def)
  have here: "find_staff (\<lambda>r. s_id r = ?k) (x\<lparr>ad_resets := r, ad_seq_reset := n\<rparr>) = Some s" for r n
    using find_staff_distinct [OF ok(1), of s] s(1) by (auto simp: find_staff_def dest: find_row_SomeD)
  have new: "pr_id ?n = ?i" "pr_staffId ?n = ?k" "pr_authVersion ?n = ?v" "pr_usedAt ?n = Some ?now" "pr_expiresAt ?n > ?now"
    by (simp_all add: link_row_def)
  note rows = activate_rows [OF ids new]
  let ?x = "x\<lparr>ad_resets := ?old @ [?n], ad_seq_reset := Suc ?i\<rparr>"
  have burnt: "ad_resets (burn_resets (\<lambda>r. pr_staffId r = ?k) ?now ?x) =
      update_rows (\<lambda>r. pr_staffId r = ?k \<and> pr_usedAt r = None) (\<lambda>r. r\<lparr>pr_usedAt := Some ?now\<rparr>) (?old @ [?n])"
    by (simp add: burn_resets_def)
  have "activateDeliveredReset env ?i ?k ?v ?x = (Inr True, ?x\<lparr>ad_resets := ?rows @ [?n\<lparr>pr_usedAt := None\<rparr>]\<rparr>)"
  proof (subst run_activate [OF here s(2) refl])
    show "find_row (newer_active ?now ?i ?k) (ad_resets ?x) = None" using rows(1) by simp
    show "count_rows (activatable ?now ?i ?k ?v) (ad_resets (burn_resets (\<lambda>r. pr_staffId r = ?k) ?now ?x)) = 1" unfolding burnt by (rule rows(2))
  qed (simp only: burnt rows(3))
  then have "forgotPassword env email x = (Inr (), x\<lparr>ad_resets := ?rows @ [?n\<lparr>pr_usedAt := None\<rparr>], ad_seq_reset := Suc ?i\<rparr>)"
    using issue mailed by (simp add: forgotPassword_def act_defs)
  moreover have "distinct (map pr_id ?rows)"
    using ok(2) by (simp add: distinct_map_update resets_ok_def distinct_delete_rows)
  moreover have "list_all (\<lambda>r. pr_id r < ?i \<and> pr_tokenHash r \<noteq> ?h) ?rows"
  proof -
    have "list_all (\<lambda>r. pr_id r < ?i \<and> pr_tokenHash r \<noteq> ?h) ?old" using ids hash by (auto simp: list_all_iff list_ex_iff)
    then show ?thesis by (induction ?old) (auto simp: update_rows_def list_all_iff)
  qed
  ultimately show thesis by (rule that)
qed

section \<open>Setting the password\<close>

lemma count_changeable:
  assumes "accounts_ok x" "find_staff (\<lambda>s. s_id s = pr_staffId r) x = Some s" "s_isEnabled s" "s_authVersion s = pr_authVersion r"
  shows "count_rows (changeable r) (staffs (ad_db x)) = 1"
proof -
  have "count_rows (changeable r) (staffs (ad_db x)) \<le> 1"
    using assms(1) by (intro count_rows_distinct [where k = s_id and i = "pr_staffId r"]) (auto simp: accounts_ok_def changeable_def)
  moreover have "count_rows (changeable r) (staffs (ad_db x)) \<noteq> 0"
    using assms(2-4) by (auto simp: count_rows_0_iff find_staff_def changeable_def dest!: find_row_SomeD)
  ultimately show ?thesis by simp
qed

definition password_written :: "auth_env \<Rightarrow> reset_row \<Rightarrow> string \<Rightarrow> auth_db \<Rightarrow> auth_db" where
  "password_written env r h x =
     burn_resets (\<lambda>q. pr_staffId q = pr_staffId r) (ae_now env) (revoke_refresh (\<lambda>q. rf_staffId q = pr_staffId r) (ae_now env)
       (set_staffs (changeable r) (\<lambda>s. (bump s)\<lparr>s_passwordHash := h\<rparr>)
         (burn_resets (\<lambda>q. pr_id q = pr_id r \<and> \<not> pr_expiresAt q \<le> ae_now env) (ae_now env) x)))"

lemma apply_reset_succeeds:
  assumes "accounts_ok x" "find_staff (\<lambda>s. s_id s = pr_staffId r) x = Some s" "s_isEnabled s" "s_authVersion s = pr_authVersion r"
    and "count_rows (\<lambda>q. pr_id q = pr_id r \<and> usable_reset (ae_now env) q) (ad_resets x) = 1"
  shows "apply_reset env r h x = (Inr (), password_written env r h x)"
proof -
  have eta: "(\<lambda>s. s_id s = pr_staffId r \<and> s_isEnabled s \<and> s_authVersion s = pr_authVersion r) = changeable r"
    by (simp add: changeable_def fun_eq_iff)
  have same: "staffs (ad_db (burn_resets q t x)) = staffs (ad_db x)" for q t by simp
  show ?thesis
    unfolding apply_reset_def Let_def eta password_written_def
    using count_changeable [OF assms(1-4)] assms(5) by (simp add: act_defs)
qed

lemma revoke_succeeds:
  "revokeAllForStaff env i x = (Inr (), snd (revokeStaffAccessBefore env i (ae_accessTtl env)
     (burn_resets (\<lambda>r. pr_staffId r = i) (ae_now env) (revoke_refresh (\<lambda>r. rf_staffId r = i) (ae_now env) x))))"
  by (simp add: revokeAllForStaff_def revokeStaffAccessBefore_def upd_redis_def act_defs)

lemma resetPassword_succeeds:
  assumes "find_reset (ae_sha256 env tok) x = Some r" "usable_reset (ae_now env) r" "find_staff (\<lambda>s. s_id s = pr_staffId r) x = Some s"
    and "apply_reset env r (ae_hash env pw) x = (Inr (), x1)"
  shows "resetPassword env tok pw x = (Inr (), snd (revokeAllForStaff env (pr_staffId r) x1))"
  using assms unfolding resetPassword_def Let_def by (simp add: act_defs) (simp add: revoke_succeeds)

text \<open>What logging in needs of the state after the reset.\<close>

lemma run_reset_ok:
  assumes acc: "accounts_ok x" and s: "find_staff (\<lambda>s. s_id s = pr_staffId r) x = Some s" "s_isEnabled s" "s_authVersion s = pr_authVersion r"
    and r: "find_reset (ae_sha256 env tok) x = Some r" "usable_reset (ae_now env) r"
    and one: "count_rows (\<lambda>q. pr_id q = pr_id r \<and> usable_reset (ae_now env) q) (ad_resets x) = 1"
  obtains x' where "resetPassword env tok pw x = (Inr (), x')"
    "ad_db x' = ad_db (set_staffs (changeable r) (\<lambda>s. (bump s)\<lparr>s_passwordHash := ae_hash env pw\<rparr>) x)"
    "map (\<lambda>q. (rf_jti q, rf_tokenHash q)) (ad_refresh x') = map (\<lambda>q. (rf_jti q, rf_tokenHash q)) (ad_refresh x)"
    "ad_redis x' = ad_redis (snd (revokeStaffAccessBefore env (pr_staffId r) (ae_accessTtl env) x))"
proof
  let ?x1 = "password_written env r (ae_hash env pw) x"
  let ?x' = "snd (revokeAllForStaff env (pr_staffId r) ?x1)"
  show "resetPassword env tok pw x = (Inr (), ?x')"
    by (rule resetPassword_succeeds [OF r s(1) apply_reset_succeeds [OF acc s one]])
  show "ad_db ?x' = ad_db (set_staffs (changeable r) (\<lambda>s. (bump s)\<lparr>s_passwordHash := ae_hash env pw\<rparr>) x)"
    by (simp add: data_after [OF data_revoke(1)] password_written_def set_staffs_def upd_db_def)
  show "map (\<lambda>q. (rf_jti q, rf_tokenHash q)) (ad_refresh ?x') = map (\<lambda>q. (rf_jti q, rf_tokenHash q)) (ad_refresh x)"
    by (simp add: revoke_succeeds revokeStaffAccessBefore_def upd_redis_def act_defs password_written_def revoke_refresh_def burn_resets_def
        set_staffs_def upd_db_def map_update_rows)
  show "ad_redis ?x' = ad_redis (snd (revokeStaffAccessBefore env (pr_staffId r) (ae_accessTtl env) x))"
    by (simp add: revoke_succeeds revokeStaffAccessBefore_def upd_redis_def act_defs password_written_def revoke_refresh_def burn_resets_def
        set_staffs_def upd_db_def)
qed

section \<open>Logging in and the guard\<close>

lemma run_login_ok:
  assumes s: "find_staff (\<lambda>s. s_email s = email) x = Some s" "s_isEnabled s" "group_by_id (s_groupId s) (ad_db x) = Some g"
    and pw: "ae_verify env (s_passwordHash s) pw" and acc: "accounts_ok x"
    and quota: "ip = '''' \<or> \<not> rd_up (ad_redis x) \<or> rd_counters (ad_redis x) (throttle_key env email ip) = None"
    and fresh: "\<not> list_ex (\<lambda>q. rf_jti q = ae_refreshJti env \<or>
        rf_tokenHash q = rf_tokenHash (refresh_row_of env (s_id s) (s_authVersion s) (ae_familyId env))) (ad_refresh x)"
  obtains x' where "login env email pw ip x = (Inr (ae_signAccess env (issued_access env (s_id s) (s_authVersion s)),
        ae_signRefresh env (issued_refresh env (s_id s) (ae_familyId env)), buildPrincipal s g None None), x')"
    "ad_db x' = ad_db (set_staffs (\<lambda>r. s_id r = s_id s) (\<lambda>r. r\<lparr>s_lastLoginAt := Some (ae_now env)\<rparr>) x)"
    "rd_up (ad_redis x') = rd_up (ad_redis x)" "rd_cutoffs (ad_redis x') = rd_cutoffs (ad_redis x)" "rd_blocked (ad_redis x') = rd_blocked (ad_redis x)"
proof -
  have one: "validateStaff env email pw x = (Inr (s, g), x)"
    using s pw by (simp add: validateStaff_def staffGroup_def act_defs)
  have thr: "assertNotThrottled env email ip x = (Inr (), x)"
    using quota by (auto simp: assertNotThrottled_def act_defs live_def)
  obtain x1 where clr: "clear_throttle env email ip x = (Inr (), x1)"
    and x1: "x1 = (if ip \<noteq> [] \<and> rd_up (ad_redis x) then x\<lparr>ad_redis := (ad_redis x)\<lparr>rd_counters :=
      (rd_counters (ad_redis x))(throttle_key env email ip := None)\<rparr>\<rparr> else x)"
    by (simp add: clear_throttle_def upd_redis_def act_defs)
  have check: "login_check env email pw ip x = (Inr (s, g), x1)"
    unfolding login_check_def using one thr clr by (simp add: sq_def bnd_def catch_act_def ret_def)
  have same: "ad_db x1 = ad_db x" "ad_refresh x1 = ad_refresh x" "rd_up (ad_redis x1) = rd_up (ad_redis x)"
    "rd_cutoffs (ad_redis x1) = rd_cutoffs (ad_redis x)" "rd_blocked (ad_redis x1) = rd_blocked (ad_redis x)"
    by (simp_all add: x1)
  have here: "find_staff (\<lambda>r. s_id r = s_id s) x = Some s"
    using s(1) by (auto simp: find_staff_def dest: find_row_SomeD intro: find_staff_distinct [OF acc, unfolded find_staff_def])
  let ?row = "refresh_row_of env (s_id s) (s_authVersion s) (ae_familyId env)"
  let ?x' = "set_staffs (\<lambda>r. s_id r = s_id s) (\<lambda>r. r\<lparr>s_lastLoginAt := Some (ae_now env)\<rparr>) (x1\<lparr>ad_refresh := ad_refresh x @ [?row]\<rparr>)"
  have "login_issue env s x1 = (Inr (issued_access env (s_id s) (s_authVersion s), issued_refresh env (s_id s) (ae_familyId env)), ?x')"
    using fresh here same(1,2) by (simp add: login_issue_def create_refresh_def update_staff_def find_staff_def act_defs)
  with check have run: "login env email pw ip x = (Inr (ae_signAccess env (issued_access env (s_id s) (s_authVersion s)),
        ae_signRefresh env (issued_refresh env (s_id s) (ae_familyId env)), buildPrincipal s g None None), ?x')"
    by (simp add: login_def bnd_def ret_def)
  show thesis
    by (rule that [OF run]) (use same in \<open>simp_all add: set_staffs_def upd_db_def\<close>)
qed

lemma run_guard_ok:
  assumes "tok \<noteq> ''''" "ae_verifyAccess env tok = Some p" "ac_jti p = Some j" "rd_blocked (ad_redis x) j = None"
    and "\<not> isStaffTokenStale env (ac_staffId p) (ac_issuedAtMs p) (ac_iat p) x"
    and "find_staff (\<lambda>s. s_id s = ac_staffId p) x = Some s" "group_by_id (s_groupId s) (ad_db x) = Some g" "s_isEnabled s" "ac_av p = Some (s_authVersion s)"
  shows "canActivate env (Some tok) x = (Inr (buildPrincipal s g (Some j) (ac_exp p)), x)"
  using assms by (cases tok) (simp_all add: canActivate_def act_defs isBlocked_def staffGroup_def)

lemma find_staff_set_staffs:
  assumes "\<And>r. p r \<Longrightarrow> q (f r) = q r"
  shows "find_staff q (set_staffs p f x) = map_option (\<lambda>r. if p r then f r else r) (find_staff q x)"
  by (simp add: find_staff_def set_staffs_def upd_db_def find_row_update_rows assms)

lemma find_staff_db: "ad_db x' = ad_db x \<Longrightarrow> find_staff q x' = find_staff q x"
  by (simp add: find_staff_def)

lemma group_set_staffs: "group_by_id k (ad_db (set_staffs p f x)) = group_by_id k (ad_db x)"
  by (simp add: set_staffs_def upd_db_def group_by_id_def)

text \<open>A cutoff written before the token was issued does not make it stale.\<close>

lemma fresh_token_not_stale:
  assumes "rd_up (ad_redis x) \<longrightarrow> rd_cutoffs (ad_redis x) k = Some (c, e)" "1000000000000 \<le> c" "c < ms"
  shows "\<not> isStaffTokenStale env k (Some ms) iat x"
  using assms by (auto simp: isStaffTokenStale_def cutoff_ms_def live_def)

lemma cutoff_after_revoke:
  "0 < ttl \<Longrightarrow> k \<noteq> 0 \<Longrightarrow> rd_up (ad_redis (snd (revokeStaffAccessBefore env k ttl x))) \<longrightarrow>
     rd_cutoffs (ad_redis (snd (revokeStaffAccessBefore env k ttl x))) k = Some (ae_now env, ae_now env + ttl * 1000)"
  by (simp add: revokeStaffAccessBefore_def upd_redis_def modify_def)

lemma revoke_redis [simp]:
  "rd_up (ad_redis (snd (revokeStaffAccessBefore env k ttl x))) = rd_up (ad_redis x)"
  "rd_counters (ad_redis (snd (revokeStaffAccessBefore env k ttl x))) = rd_counters (ad_redis x)"
  "rd_blocked (ad_redis (snd (revokeStaffAccessBefore env k ttl x))) = rd_blocked (ad_redis x)"
  by (simp_all add: revokeStaffAccessBefore_def upd_redis_def act_defs)

lemma list_ex_keys:
  "list_ex (\<lambda>q. rf_jti q = j \<or> rf_tokenHash q = h) rows \<longleftrightarrow> list_ex (\<lambda>(a, b). a = j \<or> b = h) (map (\<lambda>q. (rf_jti q, rf_tokenHash q)) rows)"
  by (induction rows) auto

section \<open>Recovery\<close>

lemma recovery_run:
  assumes ok: "accounts_ok x" "resets_ok x"
    and s: "find_staff (\<lambda>s. s_email s = email) x = Some s" "s_isEnabled s" "s_id s \<noteq> 0" "group_by_id (s_groupId s) (ad_db x) = Some g"
    and mailed: "ae_mailed e1" and link: "find_reset (ae_sha256 e1 (ae_resetToken e1)) x = None"
    and sha: "ae_sha256 e2 (ae_resetToken e1) = ae_sha256 e1 (ae_resetToken e1)"
    and times: "1000000000000 \<le> ae_now e2" "ae_now e2 < ae_now e1 + 3600000" "ae_now e2 < ae_now e3" "0 < ae_accessTtl e2"
    and argon: "ae_verify e3 (ae_hash e2 pw) pw"
    and fresh: "\<not> list_ex (\<lambda>q. rf_jti q = ae_refreshJti e3 \<or>
        rf_tokenHash q = rf_tokenHash (refresh_row_of e3 (s_id s) (s_authVersion s + 1) (ae_familyId e3))) (ad_refresh x)"
    and quota: "rd_counters (ad_redis x) (throttle_key e3 email ip) = None"
    and unblocked: "rd_blocked (ad_redis x) (ae_accessJti e3) = None"
    and signer: "ae_signAccess e3 (issued_access e3 (s_id s) (s_authVersion s + 1)) \<noteq> ''''"
      "ae_verifyAccess e4 (ae_signAccess e3 (issued_access e3 (s_id s) (s_authVersion s + 1))) = Some (issued_access e3 (s_id s) (s_authVersion s + 1))"
  obtains x1 x2 x3 access rtoken who me where
    "forgotPassword e1 email x = (Inr (), x1)" "resetPassword e2 (ae_resetToken e1) pw x1 = (Inr (), x2)"
    "login e3 email pw ip x2 = (Inr (access, rtoken, who), x3)"
    "canActivate e4 (Some access) x3 = (Inr me, x3)" "pc_staffId me = s_id s" "pc_isAdmin me = g_isAdmin g" "pc_permissions me = g_permissions g"
proof -
  obtain rows where forgot: "forgotPassword e1 email x =
      (Inr (), x\<lparr>ad_resets := rows @ [(link_row e1 s x)\<lparr>pr_usedAt := None\<rparr>], ad_seq_reset := Suc (ad_seq_reset x)\<rparr>)"
    and rows: "list_all (\<lambda>r. pr_id r < ad_seq_reset x \<and> pr_tokenHash r \<noteq> ae_sha256 e1 (ae_resetToken e1)) rows"
    by (rule run_forgotPassword [OF s(1,2) ok link mailed])
  let ?r = "(link_row e1 s x)\<lparr>pr_usedAt := None\<rparr>"
  let ?x1 = "x\<lparr>ad_resets := rows @ [?r], ad_seq_reset := Suc (ad_seq_reset x)\<rparr>"
  have r: "pr_staffId ?r = s_id s" "pr_authVersion ?r = s_authVersion s" by (simp_all add: link_row_def)
  have ok1: "accounts_ok ?x1" using ok(1) by (simp add: accounts_ok_def)
  have by_id: "find_staff (\<lambda>q. s_id q = s_id s) ?x1 = Some s"
    using s(1) find_staff_distinct [OF ok1] by (auto simp: find_staff_def dest: find_row_SomeD)
  have found: "find_reset (ae_sha256 e2 (ae_resetToken e1)) ?x1 = Some ?r"
    using rows by (auto simp: find_reset_def sha find_row_append link_row_def list_all_iff split: option.split dest: find_row_SomeD)
  have usable: "usable_reset (ae_now e2) ?r" using times(2) by (simp add: usable_reset_def link_row_def)
  have "count_rows (\<lambda>q. pr_id q = pr_id ?r \<and> usable_reset (ae_now e2) q) rows = 0"
    using rows by (auto simp: count_rows_0_iff list_all_iff link_row_def)
  then have one: "count_rows (\<lambda>q. pr_id q = pr_id ?r \<and> usable_reset (ae_now e2) q) (ad_resets ?x1) = 1"
    using usable by simp
  obtain x2 where reset: "resetPassword e2 (ae_resetToken e1) pw ?x1 = (Inr (), x2)"
    and db2: "ad_db x2 = ad_db (set_staffs (changeable ?r) (\<lambda>s. (bump s)\<lparr>s_passwordHash := ae_hash e2 pw\<rparr>) ?x1)"
    and refresh2: "map (\<lambda>q. (rf_jti q, rf_tokenHash q)) (ad_refresh x2) = map (\<lambda>q. (rf_jti q, rf_tokenHash q)) (ad_refresh ?x1)"
    and redis2: "ad_redis x2 = ad_redis (snd (revokeStaffAccessBefore e2 (pr_staffId ?r) (ae_accessTtl e2) ?x1))"
    by (rule run_reset_ok [OF ok1, where r = ?r and env = e2 and tok = "ae_resetToken e1" and pw = pw])
      (use by_id s(2) r found usable one in simp_all)
  let ?s = "(bump s)\<lparr>s_passwordHash := ae_hash e2 pw\<rparr>"
  have s2: "find_staff (\<lambda>s. s_email s = email) x2 = Some ?s"
  proof -
    have "find_staff (\<lambda>s. s_email s = email) x2 = find_staff (\<lambda>s. s_email s = email) (set_staffs (changeable ?r) (\<lambda>s. (bump s)\<lparr>s_passwordHash := ae_hash e2 pw\<rparr>) ?x1)"
      by (rule find_staff_db [OF db2])
    also have "\<dots> = Some ?s"
      using s(1,2) r by (subst find_staff_set_staffs) (simp_all add: changeable_def find_staff_def)
    finally show ?thesis .
  qed
  have ok2: "accounts_ok x2"
    using accounts_ok_keys [OF _ ok1] keys_resets(3) [of e2 "ae_resetToken e1" pw] reset unfolding keys.stays_def by (metis snd_conv)
  have group2: "group_by_id (s_groupId ?s) (ad_db x2) = Some g"
    using s(4) by (simp add: db2 group_set_staffs)
  have fresh2: "\<not> list_ex (\<lambda>q. rf_jti q = ae_refreshJti e3 \<or>
        rf_tokenHash q = rf_tokenHash (refresh_row_of e3 (s_id ?s) (s_authVersion ?s) (ae_familyId e3))) (ad_refresh x2)"
    using fresh unfolding list_ex_keys refresh2 by simp
  obtain x3 where login: "login e3 email pw ip x2 = (Inr (ae_signAccess e3 (issued_access e3 (s_id ?s) (s_authVersion ?s)),
        ae_signRefresh e3 (issued_refresh e3 (s_id ?s) (ae_familyId e3)), buildPrincipal ?s g None None), x3)"
    and db3: "ad_db x3 = ad_db (set_staffs (\<lambda>r. s_id r = s_id ?s) (\<lambda>r. r\<lparr>s_lastLoginAt := Some (ae_now e3)\<rparr>) x2)"
    and redis3: "rd_up (ad_redis x3) = rd_up (ad_redis x2)" "rd_cutoffs (ad_redis x3) = rd_cutoffs (ad_redis x2)" "rd_blocked (ad_redis x3) = rd_blocked (ad_redis x2)"
    by (rule run_login_ok [OF s2 _ group2 _ ok2 _ fresh2, where pw = pw and ip = ip]) (use s(2) argon quota in \<open>simp_all add: redis2\<close>)
  let ?t = "?s\<lparr>s_lastLoginAt := Some (ae_now e3)\<rparr>"
  have by_id3: "find_staff (\<lambda>q. s_id q = s_id s) x3 = Some ?t"
  proof -
    have "find_staff (\<lambda>q. s_id q = s_id s) x2 = find_staff (\<lambda>q. s_id q = s_id s) (set_staffs (changeable ?r) (\<lambda>s. (bump s)\<lparr>s_passwordHash := ae_hash e2 pw\<rparr>) ?x1)"
      by (rule find_staff_db [OF db2])
    also have "\<dots> = Some ?s"
      using by_id s(2) r by (subst find_staff_set_staffs) (simp_all add: changeable_def)
    finally have "find_staff (\<lambda>q. s_id q = s_id s) x2 = Some ?s" .
    then show ?thesis by (subst find_staff_db [OF db3], subst find_staff_set_staffs) simp_all
  qed
  have stale: "\<not> isStaffTokenStale e4 (s_id s) (Some (ae_now e3)) (Some (ae_now e3 div 1000)) x3"
    by (rule fresh_token_not_stale [OF _ times(1,3)]) (use redis3 redis2 cutoff_after_revoke [OF times(4) s(3)] r in auto)
  let ?me = "buildPrincipal ?t g (Some (ae_accessJti e3)) (ac_exp (issued_access e3 (s_id s) (s_authVersion s + 1)))"
  have guard: "canActivate e4 (Some (ae_signAccess e3 (issued_access e3 (s_id s) (s_authVersion s + 1)))) x3 = (Inr ?me, x3)"
    using signer unblocked s(2) group2 stale
    by (intro run_guard_ok) (auto simp: issued_access_def by_id3 redis3 redis2 db3 group_set_staffs)
  show thesis
    by (rule that [OF forgot reset login, where me = ?me]) (use guard in simp, simp_all add: buildPrincipal_def)
qed

text \<open>C17: Account recovery. In a well-formed state, a person with an enabled account who asks for a
  link, gets the mail, and within the hour sets a new password through it can log in with that
  password (from a client with no recent failures), and the guard accepts the access token of that
  login as their account, with the permissions of their role. The hypotheses on tokens and hashes are
  what a signer, an argon2 hash and fresh random values provide.\<close>

theorem account_recovery:
  assumes ok: "accounts_ok x" "resets_ok x"
    and s: "find_staff (\<lambda>s. s_email s = email) x = Some s" "s_isEnabled s" "s_id s \<noteq> 0" "group_by_id (s_groupId s) (ad_db x) = Some g"
    and mailed: "ae_mailed e1" and link: "find_reset (ae_sha256 e1 (ae_resetToken e1)) x = None"
    and sha: "ae_sha256 e2 (ae_resetToken e1) = ae_sha256 e1 (ae_resetToken e1)"
    and times: "1000000000000 \<le> ae_now e2" "ae_now e2 < ae_now e1 + 3600000" "ae_now e2 < ae_now e3" "0 < ae_accessTtl e2"
    and argon: "ae_verify e3 (ae_hash e2 pw) pw"
    and fresh: "\<not> list_ex (\<lambda>q. rf_jti q = ae_refreshJti e3 \<or>
        rf_tokenHash q = rf_tokenHash (refresh_row_of e3 (s_id s) (s_authVersion s + 1) (ae_familyId e3))) (ad_refresh x)"
    and quota: "rd_counters (ad_redis x) (throttle_key e3 email ip) = None"
    and unblocked: "rd_blocked (ad_redis x) (ae_accessJti e3) = None"
    and signer: "ae_signAccess e3 (issued_access e3 (s_id s) (s_authVersion s + 1)) \<noteq> ''''"
      "ae_verifyAccess e4 (ae_signAccess e3 (issued_access e3 (s_id s) (s_authVersion s + 1))) = Some (issued_access e3 (s_id s) (s_authVersion s + 1))"
  shows "\<exists>x1 x2 x3 access rtoken who me.
    forgotPassword e1 email x = (Inr (), x1) \<and> resetPassword e2 (ae_resetToken e1) pw x1 = (Inr (), x2) \<and>
    login e3 email pw ip x2 = (Inr (access, rtoken, who), x3) \<and> canActivate e4 (Some access) x3 = (Inr me, x3) \<and>
    pc_staffId me = s_id s \<and> pc_isAdmin me = g_isAdmin g \<and> pc_permissions me = g_permissions g"
  by (rule recovery_run [OF assms]) blast

theorem account_recovery_witness:
  "\<exists>x1 x2 x3 access rtoken who me.
    forgotPassword (demo_env 1000 None None '''') ''a@b.c'' demo_auth = (Inr (), x1) \<and>
    resetPassword (demo_env 2000 None None '''') ''link'' ''new'' x1 = (Inr (), x2) \<and>
    login (demo_env 3000 None None ''j1'') ''a@b.c'' ''new'' ''ip'' x2 = (Inr (access, rtoken, who), x3) \<and>
    canActivate (demo_env 4000 (Some (issued_access (demo_env 3000 None None ''j1'') 7 1)) None '''') (Some access) x3 = (Inr me, x3) \<and>
    pc_staffId me = 7 \<and> \<not> pc_isAdmin me \<and> pc_permissions me = []"
proof -
  let ?s = "(sample_staff 7 4)\<lparr>s_passwordHash := ''pw''\<rparr>"
  have "find_staff (\<lambda>s. s_email s = ''a@b.c'') demo_auth = Some ?s"
    by (simp add: find_staff_def demo_auth_def sample_staff_def empty_db_def)
  moreover have "accounts_ok demo_auth" "resets_ok demo_auth"
    by (simp_all add: accounts_ok_def resets_ok_def demo_auth_def sample_staff_def empty_db_def)
  moreover have "group_by_id (s_groupId ?s) (ad_db demo_auth) = Some (sample_group 4 False)"
    by (simp add: group_by_id_def demo_auth_def sample_staff_def sample_group_def empty_db_def)
  ultimately show ?thesis
    using account_recovery [of demo_auth "''a@b.c''" ?s "sample_group 4 False" "demo_env 1000 None None ''''" "demo_env 2000 None None ''''"
        "demo_env 3000 None None ''j1''" "''new''" "''ip''" "demo_env 4000 (Some (issued_access (demo_env 3000 None None ''j1'') 7 1)) None ''''"]
    by (simp add: demo_env_def find_reset_def demo_auth_def sample_staff_def sample_group_def)
qed

end
