(* ===== verification/InboundText.thy ===== *)
theory InboundText
  imports ReplyMail FieldEncrypt
begin

text \<open>
  The text of an inbound message (\<open>mail/inbound.service.ts\<close>, \<open>mail/quoted-reply.util.ts\<close>): what the
  MIME parser hands over, the bounds it must keep, message ids, addresses, loop detection, stripping
  of quoted replies, and the parser rules with their guard against expensive patterns. The MIME
  parser and the regular expression engine are parameters.
\<close>

section \<open>Bounds\<close>

definition MAX_SUBJECT_CHARS :: nat where "MAX_SUBJECT_CHARS = 500"
definition MAX_BODY_CHARS :: nat where "MAX_BODY_CHARS = 100000"
definition MAX_ADDRESS_CHARS :: nat where "MAX_ADDRESS_CHARS = 320"
definition MAX_NAME_CHARS :: nat where "MAX_NAME_CHARS = 200"
definition MAX_FILENAME_CHARS :: nat where "MAX_FILENAME_CHARS = 255"
definition MAX_MESSAGE_ID_CHARS :: nat where "MAX_MESSAGE_ID_CHARS = 512"
definition MAX_REFERENCES :: nat where "MAX_REFERENCES = 50"
definition MAX_REFERENCE_CHARS :: nat where "MAX_REFERENCE_CHARS = 8192"
definition MAX_ADDRESSES :: nat where "MAX_ADDRESSES = 100"
definition MAX_ATTACHMENTS :: nat where "MAX_ATTACHMENTS = 10"
definition MAX_RULE_PATTERN_CHARS :: nat where "MAX_RULE_PATTERN_CHARS = 128"

section \<open>The parsed message\<close>

record address =
  ad_address :: "string option"
  ad_name :: "string option"

record mail_file =
  mf_filename :: "string option"
  mf_contentType :: "string option"
  mf_content :: string

datatype ref_header = NoReferences | OneReference string | Refs "string list"

text \<open>\<open>ParsedMail\<close>; \<open>pm_headers\<close> are the header values the loop check reads, flattened to text.\<close>

record parsed_mail =
  pm_subject :: "string option"
  pm_text :: "string option"
  pm_html :: "string option"
  pm_from :: "address list"
  pm_to :: "address list"
  pm_cc :: "address list"
  pm_bcc :: "address list"
  pm_replyTo :: "address list"
  pm_messageId :: "string option"
  pm_inReplyTo :: "string option"
  pm_references :: ref_header
  pm_headerLines :: "(string \<times> string) list"
  pm_headers :: "(string \<times> string) list"
  pm_attachments :: "mail_file list"

section \<open>Message ids\<close>

definition normalizeMessageId :: "string \<Rightarrow> string option" where
  "normalizeMessageId value =
     (let normalized = trim value in
      if normalized = '''' \<or> length normalized > MAX_MESSAGE_ID_CHARS \<or> \<not> starts_with normalized ''<'' \<or>
         \<not> ends_with normalized ''>'' \<or> length normalized < 3 then None
      else if list_ex (\<lambda>c. code_of c \<le> 32 \<or> code_of c = 127 \<or> c = CHR ''<'' \<or> c = CHR ''>'') (butlast (tl normalized)) then None
      else Some normalized)"

definition bad_message_id :: error where
  "bad_message_id = BadRequest ''Message-ID is invalid or too long''"

text \<open>The value of a header line after its first colon, with folded lines joined
  (\<open>replace(/\r?\n[\t ]+/g, '')\<close>).\<close>

definition after_colon :: "string \<Rightarrow> string option" where
  "after_colon line = (if CHR '':'' \<in> set line then Some (tl (dropWhile (\<lambda>c. c \<noteq> CHR '':'') line)) else None)"

definition is_blank :: "char \<Rightarrow> bool" where
  "is_blank c \<longleftrightarrow> c = CHR '' '' \<or> code_of c = 9"

fun unfold_header :: "nat \<Rightarrow> string \<Rightarrow> string" where
  "unfold_header 0 s = s"
| "unfold_header (Suc n) [] = []"
| "unfold_header (Suc n) (c # s) =
     (if code_of c = 10 \<and> s \<noteq> [] \<and> is_blank (hd s) then unfold_header n (dropWhile is_blank s)
      else if code_of c = 13 \<and> s \<noteq> [] \<and> code_of (hd s) = 10 \<and> tl s \<noteq> [] \<and> is_blank (hd (tl s))
        then unfold_header n (dropWhile is_blank (tl s))
      else c # unfold_header n s)"

definition resolveRealMessageId :: "parsed_mail \<Rightarrow> error + string option" where
  "resolveRealMessageId p =
     (case filter (\<lambda>(k, _). lower k = ''message-id'') (pm_headerLines p) of
        [] \<Rightarrow>
          (case pm_messageId p of
             None \<Rightarrow> Inr None
           | Some m \<Rightarrow> if m = '''' then Inr None
               else (case normalizeMessageId m of None \<Rightarrow> Inl bad_message_id | Some n \<Rightarrow> Inr (Some n)))
      | [(_, rawLine)] \<Rightarrow>
          (case after_colon rawLine of
             None \<Rightarrow> Inl bad_message_id
           | Some v \<Rightarrow>
               (case normalizeMessageId (trim (unfold_header (length v) v)) of
                  None \<Rightarrow> Inl bad_message_id
                | Some n \<Rightarrow> Inr (Some n)))
      | _ \<Rightarrow> Inl (BadRequest ''Inbound message contains multiple Message-ID headers''))"

text \<open>Words of a text separated by white space.\<close>

fun words_of :: "string \<Rightarrow> string \<Rightarrow> string list" where
  "words_of acc [] = (if acc = [] then [] else [rev acc])"
| "words_of acc (c # s) =
     (if is_space c then (if acc = [] then words_of [] s else rev acc # words_of [] s) else words_of (c # acc) s)"

fun referenceValues :: "ref_header \<Rightarrow> string list" where
  "referenceValues NoReferences = []"
| "referenceValues (OneReference s) = words_of [] s"
| "referenceValues (Refs xs) = filter (\<lambda>x. x \<noteq> '''') xs"

section \<open>Validation\<close>

definition too_long :: "string option \<Rightarrow> nat \<Rightarrow> bool" where
  "too_long v n = (case v of None \<Rightarrow> False | Some s \<Rightarrow> length s > n)"

definition assertFieldLength :: "string option \<Rightarrow> nat \<Rightarrow> string \<Rightarrow> error option" where
  "assertFieldLength value maxChars label =
     (if too_long value maxChars then Some (BadRequest (label @ '' exceeds the configured character limit'')) else None)"

definition assertValidMessageId :: "string option \<Rightarrow> string \<Rightarrow> error option" where
  "assertValidMessageId value label =
     (case value of
        None \<Rightarrow> None
      | Some v \<Rightarrow> if v = '''' \<or> normalizeMessageId v \<noteq> None then None else Some (BadRequest (label @ '' is invalid or too long'')))"

text \<open>The first failing check of a sequence.\<close>

fun first_error :: "error option list \<Rightarrow> error option" where
  "first_error [] = None"
| "first_error (None # es) = first_error es"
| "first_error (Some e # es) = Some e"

definition check_that :: "bool \<Rightarrow> string \<Rightarrow> error option" where
  "check_that b m = (if b then None else Some (BadRequest m))"

definition all_addresses :: "parsed_mail \<Rightarrow> address list" where
  "all_addresses p = pm_from p @ pm_to p @ pm_cc p @ pm_bcc p @ pm_replyTo p"

definition validateParsedMail :: "parsed_mail \<Rightarrow> error option" where
  "validateParsedMail p =
     (let refs = referenceValues (pm_references p) in
      first_error
        ([assertFieldLength (pm_subject p) MAX_SUBJECT_CHARS ''Subject'',
          assertFieldLength (pm_text p) MAX_BODY_CHARS ''Text body'',
          assertFieldLength (pm_html p) MAX_BODY_CHARS ''HTML body'',
          check_that (length (pm_from p) = 1) ''Inbound message must contain exactly one From address'',
          check_that (\<not> length (all_addresses p) > MAX_ADDRESSES) ''Inbound message contains too many addresses''] @
         concat (map (\<lambda>a. [assertFieldLength (ad_address a) MAX_ADDRESS_CHARS ''Email address'',
                           assertFieldLength (ad_name a) MAX_NAME_CHARS ''Address display name'']) (all_addresses p)) @
         [case resolveRealMessageId p of Inl e \<Rightarrow> Some e | Inr _ \<Rightarrow> None,
          assertValidMessageId (pm_inReplyTo p) ''In-Reply-To'',
          check_that (\<not> length refs > MAX_REFERENCES) ''Inbound message contains too many References'',
          check_that (\<not> sum_list (map length refs) > MAX_REFERENCE_CHARS) ''Inbound References header is too large''] @
         map (\<lambda>r. assertValidMessageId (Some r) ''References'') refs @
         [check_that (\<not> length (pm_attachments p) > MAX_ATTACHMENTS) ''Inbound message contains too many attachments''] @
         concat (map (\<lambda>f. [assertFieldLength (mf_filename f) MAX_FILENAME_CHARS ''Attachment filename'',
                           check_that (case mf_filename f of None \<Rightarrow> True | Some n \<Rightarrow> char_of (0::nat) \<notin> set n)
                             ''Attachment filename contains an invalid character'',
                           assertFieldLength (mf_contentType f) MAX_ADDRESS_CHARS ''Attachment content type'']) (pm_attachments p))))"

section \<open>Addresses\<close>

definition is_alnum :: "char \<Rightarrow> bool" where
  "is_alnum c \<longleftrightarrow> (let n = code_of (lower_char c) in (97 \<le> n \<and> n \<le> 122) \<or> (48 \<le> n \<and> n \<le> 57))"

definition is_local_char :: "char \<Rightarrow> bool" where
  "is_local_char c \<longleftrightarrow> is_alnum c \<or> c \<in> set ''!#$%&*+-/=?^_`{|}~.'' \<or> code_of c = 39"

fun split_at :: "char \<Rightarrow> string \<Rightarrow> string list" where
  "split_at d [] = [[]]"
| "split_at d (c # s) = (if c = d then [] # split_at d s else (case split_at d s of [] \<Rightarrow> [[c]] | w # ws \<Rightarrow> (c # w) # ws))"

definition plausible_label :: "string \<Rightarrow> bool" where
  "plausible_label l \<longleftrightarrow>
     0 < length l \<and> length l \<le> 63 \<and> \<not> starts_with l ''-'' \<and> \<not> ends_with l ''-'' \<and>
     list_all (\<lambda>c. is_alnum c \<or> c = CHR ''-'') l"

definition isPlausibleEmail :: "string \<Rightarrow> bool" where
  "isPlausibleEmail value \<longleftrightarrow>
     value \<noteq> '''' \<and> length value \<le> MAX_ADDRESS_CHARS \<and>
     (case split_at (CHR ''@'') value of
        [local, domain] \<Rightarrow>
          local \<noteq> '''' \<and> length local \<le> 64 \<and> domain \<noteq> '''' \<and>
          \<not> starts_with local ''.'' \<and> \<not> ends_with local ''.'' \<and> \<not> str_includes local ''..'' \<and>
          list_all is_local_char local \<and> length domain \<le> 253 \<and>
          list_all plausible_label (split_at (CHR ''.'') domain)
      | _ \<Rightarrow> False)"

text \<open>\<open>/<([^>]+)>/\<close>: the first \<open><\<close> that is followed by a non-empty text up to a \<open>></\<close>.\<close>

fun angle_part :: "string \<Rightarrow> string option" where
  "angle_part [] = None"
| "angle_part (c # s) =
     (if c = CHR ''<'' \<and> CHR ''>'' \<in> set s \<and> hd s \<noteq> CHR ''>'' then Some (takeWhile (\<lambda>x. x \<noteq> CHR ''>'') s)
      else angle_part s)"

definition extractAddress :: "string \<Rightarrow> string" where
  "extractAddress value = lower (trim (case angle_part value of Some a \<Rightarrow> a | None \<Rightarrow> value))"

text \<open>The address between the last \<open><\<close> and the next \<open>>\<close>.\<close>

definition normalizeConfiguredMailbox :: "string \<Rightarrow> string" where
  "normalizeConfiguredMailbox value =
     (let after = rev (takeWhile (\<lambda>c. c \<noteq> CHR ''<'') (rev value)) in
      normalizeEmail (if CHR ''<'' \<in> set value \<and> CHR ''>'' \<in> set after then takeWhile (\<lambda>c. c \<noteq> CHR ''>'') after else value))"

text \<open>Who may continue a ticket by mail: \<open>senderCanReply\<close>.\<close>

definition senderCanReply :: "string option \<Rightarrow> string list \<Rightarrow> string list \<Rightarrow> string \<Rightarrow> bool" where
  "senderCanReply requesterEmail userEmails recipientEmails fromEmail =
     (let sender = normalizeEmail fromEmail in
      sender \<noteq> '''' \<and>
      list_ex (\<lambda>e. e \<noteq> '''' \<and> normalizeEmail e = sender)
        ((case requesterEmail of None \<Rightarrow> [] | Some e \<Rightarrow> [e]) @ userEmails @ recipientEmails))"

section \<open>Automatic mail\<close>

text \<open>The tokens of a header value, \<open>split(/[\s,;]+/).filter(Boolean)\<close>.\<close>

definition header_tokens :: "string \<Rightarrow> string list" where
  "header_tokens v = words_of [] (map (\<lambda>c. if c = CHR '','' \<or> c = CHR '';'' then CHR '' '' else c) v)"

definition header_value :: "parsed_mail \<Rightarrow> string \<Rightarrow> string" where
  "header_value p k = (case map_of (pm_headers p) k of None \<Rightarrow> '''' | Some v \<Rightarrow> lower v)"

definition hasToken :: "string \<Rightarrow> string list \<Rightarrow> bool" where
  "hasToken v tokens \<longleftrightarrow> list_ex (\<lambda>t. t \<in> set tokens) (header_tokens v)"

definition isLoopMessage :: "string \<Rightarrow> string list \<Rightarrow> parsed_mail \<Rightarrow> string \<Rightarrow> bool" where
  "isLoopMessage mailFrom ownAddresses p fromEmail \<longleftrightarrow>
     (header_value p ''auto-submitted'' \<noteq> '''' \<and> \<not> hasToken (header_value p ''auto-submitted'') [''no'']) \<or>
     hasToken (header_value p ''precedence'') [''bulk'', ''list'', ''junk'', ''auto_reply''] \<or>
     header_value p ''x-loop'' \<noteq> '''' \<or> header_value p ''x-autoreply'' \<noteq> '''' \<or> header_value p ''x-autorespond'' \<noteq> '''' \<or>
     (extractAddress mailFrom \<noteq> '''' \<and> lower fromEmail = extractAddress mailFrom) \<or>
     (normalizeEmail fromEmail \<noteq> '''' \<and> normalizeEmail fromEmail \<in> set ownAddresses)"

section \<open>Quoted replies\<close>

definition DEFAULT_BREAK_LINES :: "string list" where
  "DEFAULT_BREAK_LINES = [''----- Original Message -----'', ''-----Original Message-----'', ''<!-- Break Line -->'']"

text \<open>The index of the first occurrence, and of the first line for which a test holds; a line ends
  before a line feed or carriage return.\<close>

fun index_of :: "string \<Rightarrow> string \<Rightarrow> nat option" where
  "index_of [] m = (if m = [] then Some 0 else None)"
| "index_of (c # s) m = (if starts_with (c # s) m then Some 0 else map_option Suc (index_of s m))"

definition is_newline :: "char \<Rightarrow> bool" where
  "is_newline c \<longleftrightarrow> code_of c = 10 \<or> code_of c = 13"

fun line_index :: "(string \<Rightarrow> bool) \<Rightarrow> bool \<Rightarrow> string \<Rightarrow> nat option" where
  "line_index test start [] = (if start \<and> test [] then Some 0 else None)"
| "line_index test start (c # s) =
     (if start \<and> test (takeWhile (\<lambda>x. \<not> is_newline x) (c # s)) then Some 0
      else map_option Suc (line_index test (is_newline c) s))"

text \<open>\<open>/^On .+ wrote:\s*$/im\<close>, \<open>/^From:.*$/im\<close> and \<open>/^_{5,}\s*$/m\<close> on one line.\<close>

definition trim_end :: "string \<Rightarrow> string" where
  "trim_end s = rev (dropWhile is_space (rev s))"

definition on_wrote :: "string \<Rightarrow> bool" where
  "on_wrote l = (let s = trim_end (lower l) in starts_with s ''on '' \<and> ends_with s '' wrote:'' \<and> length s > 10)"

definition from_line :: "string \<Rightarrow> bool" where
  "from_line l = starts_with (lower l) ''from:''"

definition divider :: "string \<Rightarrow> bool" where
  "divider l = (let s = trim_end l in length s \<ge> 5 \<and> list_all (\<lambda>c. c = CHR ''_'') s)"

definition min_index :: "nat \<Rightarrow> nat option \<Rightarrow> nat" where
  "min_index n z = (case z of None \<Rightarrow> n | Some i \<Rightarrow> min i n)"

definition stripQuotedReply :: "string \<Rightarrow> string list \<Rightarrow> string" where
  "stripQuotedReply body breakLines =
     (if body = '''' then body
      else let cut = foldl min_index (length body)
                 (map (index_of body) breakLines @ map (\<lambda>t. line_index t True body) [on_wrote, from_line, divider]) in
           if cut \<ge> length body then body
           else let stripped = trim_end (take cut body) in if stripped \<noteq> '''' then stripped else body)"

section \<open>Parser rules\<close>

record parser_criterion =
  pc_field :: string
  pc_op :: string
  pc_value :: string

record parser_rule =
  pu_isEnabled :: bool
  pu_isPreParse :: bool
  pu_matchAny :: bool
  pu_stopProcessing :: bool
  pu_sortOrder :: int
  pu_criteria :: "parser_criterion list"
  pu_actions :: "(string \<times> js) list"          \<comment> \<open>type, value\<close>

record parsed_email =
  pe_subject :: string
  pe_fromEmail :: string
  pe_fromName :: string
  pe_toEmail :: "string option"
  pe_body :: string

record rule_result =
  rr_skip :: bool
  rr_departmentId :: "js_number option"
  rr_priorityId :: "js_number option"
  rr_ownerStaffId :: "js_number option"
  rr_tags :: "string list"

text \<open>The scan of \<open>isSafeRuleRegex\<close> over the characters of a pattern.\<close>

record regex_scan =
  rx_escaped :: bool
  rx_inClass :: bool
  rx_classHasCharacter :: bool
  rx_canQuantify :: bool
  rx_quantifiers :: nat
  rx_unbounded :: bool

definition regex_start :: regex_scan where
  "regex_start = \<lparr>rx_escaped = False, rx_inClass = False, rx_classHasCharacter = False, rx_canQuantify = False,
     rx_quantifiers = 0, rx_unbounded = False\<rparr>"

definition scan_char :: "char \<Rightarrow> regex_scan \<Rightarrow> regex_scan option" where
  "scan_char c z =
     (if rx_escaped z then
        (if is_digit c \<or> c \<in> set ''kpP'' then None
         else if rx_inClass z then Some (z\<lparr>rx_escaped := False, rx_classHasCharacter := True\<rparr>)
         else Some (z\<lparr>rx_escaped := False, rx_canQuantify := True\<rparr>))
      else if c = CHR 0x5C then Some (z\<lparr>rx_escaped := True\<rparr>)
      else if rx_inClass z then
        (if c = CHR '']'' then
           (if \<not> rx_classHasCharacter z then None else Some (z\<lparr>rx_inClass := False, rx_canQuantify := True\<rparr>))
         else Some (z\<lparr>rx_classHasCharacter := True\<rparr>))
      else if c = CHR ''['' then Some (z\<lparr>rx_inClass := True, rx_classHasCharacter := False, rx_canQuantify := False\<rparr>)
      else if c \<in> set ''()|{}'' then None
      else if c \<in> set ''*+?'' then
        (if \<not> rx_canQuantify z \<or> rx_quantifiers z \<ge> 1 then None
         else Some (z\<lparr>rx_quantifiers := Suc (rx_quantifiers z), rx_unbounded := rx_unbounded z \<or> c \<noteq> CHR ''?'', rx_canQuantify := False\<rparr>))
      else if c \<in> set ''^$'' then Some (z\<lparr>rx_canQuantify := False\<rparr>)
      else Some (z\<lparr>rx_canQuantify := True\<rparr>))"

fun scan_pattern :: "string \<Rightarrow> regex_scan \<Rightarrow> regex_scan option" where
  "scan_pattern [] z = Some z"
| "scan_pattern (c # s) z = (case scan_char c z of None \<Rightarrow> None | Some z' \<Rightarrow> scan_pattern s z')"

definition isSafeRuleRegex :: "string \<Rightarrow> bool" where
  "isSafeRuleRegex pattern \<longleftrightarrow>
     pattern \<noteq> '''' \<and> length pattern \<le> MAX_RULE_PATTERN_CHARS \<and>
     (case scan_pattern pattern regex_start of
        None \<Rightarrow> False
      | Some z \<Rightarrow> \<not> rx_escaped z \<and> \<not> rx_inClass z \<and> (\<not> rx_unbounded z \<or> starts_with pattern ''^''))"

definition extractField :: "parsed_email \<Rightarrow> string \<Rightarrow> string" where
  "extractField p field =
     (if field = ''subject'' then pe_subject p
      else if field = ''sender'' then pe_fromEmail p
      else if field = ''sendername'' then pe_fromName p
      else if field = ''recipient'' then (case pe_toEmail p of None \<Rightarrow> '''' | Some t \<Rightarrow> t)
      else if field = ''body'' then pe_body p
      else '''')"

text \<open>\<open>rx p v\<close> is \<open>new RegExp(p, 'i').test(v)\<close>, \<open>None\<close> when the pattern does not compile.\<close>

definition matchCriterion :: "(string \<Rightarrow> string \<Rightarrow> bool option) \<Rightarrow> parsed_email \<Rightarrow> parser_criterion \<Rightarrow> bool" where
  "matchCriterion rx p c =
     (let v = lower (extractField p (pc_field c)); t = lower (pc_value c) in
      if pc_op c = ''eq'' then v = t
      else if pc_op c = ''contains'' then str_includes v t
      else if pc_op c = ''not_contains'' then \<not> str_includes v t
      else if pc_op c = ''starts_with'' then starts_with v t
      else if pc_op c = ''ends_with'' then ends_with v t
      else if pc_op c = ''regex'' then
        isSafeRuleRegex (pc_value c) \<and> rx (pc_value c) (extractField p (pc_field c)) = Some True
      else False)"

definition evaluateParserCriteria :: "(string \<Rightarrow> string \<Rightarrow> bool option) \<Rightarrow> parsed_email \<Rightarrow> parser_criterion list \<Rightarrow> bool \<Rightarrow> bool" where
  "evaluateParserCriteria rx p cs matchAny \<longleftrightarrow>
     cs = [] \<or> (if matchAny then list_ex (matchCriterion rx p) cs else list_all (matchCriterion rx p) cs)"

definition rule_action :: "host \<Rightarrow> string \<times> js \<Rightarrow> rule_result \<Rightarrow> rule_result" where
  "rule_action h a r =
     (case a of (type, v) \<Rightarrow>
       if type = ''ignore'' then r\<lparr>rr_skip := True\<rparr>
       else if type = ''route_dept'' then (if v \<noteq> JUndef then r\<lparr>rr_departmentId := Some (js_to_number h v)\<rparr> else r)
       else if type = ''set_priority'' then (if v \<noteq> JUndef then r\<lparr>rr_priorityId := Some (js_to_number h v)\<rparr> else r)
       else if type = ''assign_staff'' then (if v \<noteq> JUndef then r\<lparr>rr_ownerStaffId := Some (js_to_number h v)\<rparr> else r)
       else if type = ''add_tag'' then
         (case v of JStr s \<Rightarrow> if s \<noteq> '''' then r\<lparr>rr_tags := rr_tags r @ [s]\<rparr> else r | _ \<Rightarrow> r)
       else r)"

fun run_parser_rules :: "host \<Rightarrow> (string \<Rightarrow> string \<Rightarrow> bool option) \<Rightarrow> parsed_email \<Rightarrow> parser_rule list \<Rightarrow> rule_result \<Rightarrow> rule_result" where
  "run_parser_rules h rx p [] r = r"
| "run_parser_rules h rx p (u # us) r =
     (if \<not> evaluateParserCriteria rx p (pu_criteria u) (pu_matchAny u) then run_parser_rules h rx p us r
      else let r' = fold (rule_action h) (pu_actions u) r in
           if pu_stopProcessing u then r' else run_parser_rules h rx p us r')"

definition applyParserRules :: "host \<Rightarrow> (string \<Rightarrow> string \<Rightarrow> bool option) \<Rightarrow> parser_rule list \<Rightarrow> parsed_email \<Rightarrow> rule_result" where
  "applyParserRules h rx us p =
     run_parser_rules h rx p (sort_key pu_sortOrder (filter (\<lambda>u. pu_isEnabled u \<and> pu_isPreParse u) us))
       \<lparr>rr_skip = False, rr_departmentId = None, rr_priorityId = None, rr_ownerStaffId = None, rr_tags = []\<rparr>"

section \<open>Failures of the pipeline\<close>

fun isPermanentProcessingError :: "error \<Rightarrow> bool" where
  "isPermanentProcessingError (BadRequest _) = True"
| "isPermanentProcessingError (MessageIdConflict _) = True"
| "isPermanentProcessingError (PayloadTooLarge _) = True"
| "isPermanentProcessingError _ = False"

fun safeProcessingError :: "error \<Rightarrow> string" where
  "safeProcessingError (MessageIdConflict _) = ''Message-ID conflicts with a different logical message; operator review required''"
| "safeProcessingError (PayloadTooLarge _) = ''Inbound message exceeds the configured size limit''"
| "safeProcessingError (BadRequest _) = ''Inbound message was rejected by validation''"
| "safeProcessingError (ServiceUnavailable _) = ''Inbound dependency is temporarily unavailable''"
| "safeProcessingError (OwnerUnresolved _) = ''Inbound dependency is temporarily unavailable''"
| "safeProcessingError _ = ''Inbound processing failed; retry scheduled''"

section \<open>What the pattern guard accepts\<close>

text \<open>A pattern as tokens: escapes, classes with their (escaped or plain) characters, other characters.\<close>

datatype rtok = Esc char | Cls "(bool \<times> char) list" | Raw char

fun class_tokens :: "string \<Rightarrow> ((bool \<times> char) list \<times> string) option" where
  "class_tokens [] = None"
| "class_tokens (c # s) =
     (if c = CHR '']'' then Some ([], s)
      else if c = CHR 0x5C then
        (case s of [] \<Rightarrow> None | e # s' \<Rightarrow> map_option (\<lambda>(xs, r). ((True, e) # xs, r)) (class_tokens s'))
      else map_option (\<lambda>(xs, r). ((False, c) # xs, r)) (class_tokens s))"

lemma class_tokens_shorter: "class_tokens s = Some (xs, r) \<Longrightarrow> length r < length s"
  by (induction s arbitrary: xs r rule: class_tokens.induct) (fastforce split: if_splits list.splits)+

function tokens :: "string \<Rightarrow> rtok list option" where
  "tokens [] = Some []"
| "tokens (c # s) =
     (if c = CHR 0x5C then (case s of [] \<Rightarrow> None | e # s' \<Rightarrow> map_option ((#) (Esc e)) (tokens s'))
      else if c = CHR ''['' then
        (case class_tokens s of None \<Rightarrow> None | Some (xs, r) \<Rightarrow> map_option ((#) (Cls xs)) (tokens r))
      else map_option ((#) (Raw c)) (tokens s))"
  by pat_completeness auto

termination tokens
  by (relation "measure length") (auto dest: class_tokens_shorter)

definition ok_escape :: "char \<Rightarrow> bool" where
  "ok_escape c \<longleftrightarrow> \<not> is_digit c \<and> c \<notin> set ''kpP''"

fun ok_token :: "rtok \<Rightarrow> bool" where
  "ok_token (Esc c) = ok_escape c"
| "ok_token (Cls xs) = (xs \<noteq> [] \<and> list_all (\<lambda>(e, c). e \<longrightarrow> ok_escape c) xs)"
| "ok_token (Raw c) = (c \<notin> set ''()|{}'')"

fun is_quantifier :: "rtok \<Rightarrow> bool" where
  "is_quantifier (Raw c) = (c \<in> set ''*+?'')"
| "is_quantifier _ = False"

fun is_atom :: "rtok \<Rightarrow> bool" where
  "is_atom (Raw c) = (c \<notin> set ''*+?^$'')"
| "is_atom _ = True"

fun is_unbounded :: "rtok \<Rightarrow> bool" where
  "is_unbounded (Raw c) = (c \<in> set ''*+'')"
| "is_unbounded _ = False"

text \<open>Every quantifier follows an atom.\<close>

fun quantified :: "bool \<Rightarrow> rtok list \<Rightarrow> bool" where
  "quantified b [] = True"
| "quantified b (t # ts) = ((is_quantifier t \<longrightarrow> b) \<and> quantified (is_atom t) ts)"

definition linear_tokens :: "rtok list \<Rightarrow> bool" where
  "linear_tokens ts \<longleftrightarrow> list_all ok_token ts \<and> quantified False ts \<and> length (filter is_quantifier ts) \<le> 1 \<and>
     (list_ex is_unbounded ts \<longrightarrow> (\<exists>us. ts = Raw (CHR ''^'') # us))"

lemma scan_class:
  assumes "rx_inClass z" "\<not> rx_escaped z"
  shows "case class_tokens s of
      None \<Rightarrow> (case scan_pattern s z of None \<Rightarrow> True | Some z' \<Rightarrow> rx_inClass z')
    | Some (xs, r) \<Rightarrow>
        (if (rx_classHasCharacter z \<or> xs \<noteq> []) \<and> list_all (\<lambda>(e, c). e \<longrightarrow> ok_escape c) xs
         then \<exists>h. scan_pattern s z = scan_pattern r (z\<lparr>rx_inClass := False, rx_classHasCharacter := h, rx_canQuantify := True\<rparr>)
         else scan_pattern s z = None)"
  using assms
proof (induction s arbitrary: z rule: class_tokens.induct)
  case (2 c s)
  note z = 2(3,4)
  consider "c = CHR '']''" | "c = CHR 0x5C" "s = []" | e s' where "c = CHR 0x5C" "s = e # s'" | "c \<noteq> CHR '']''" "c \<noteq> CHR 0x5C"
    by (cases s) auto
  then show ?case
  proof cases
    case case1: 1
    let ?z = "z\<lparr>rx_inClass := False, rx_canQuantify := True\<rparr>"
    have eq: "z\<lparr>rx_inClass := False, rx_classHasCharacter := rx_classHasCharacter z, rx_canQuantify := True\<rparr> = ?z"
      by (cases z) simp
    have step: "scan_pattern (c # s) z = (if rx_classHasCharacter z then scan_pattern s ?z else None)"
      using case1 z by (simp add: scan_char_def)
    have cls: "class_tokens (c # s) = Some ([], s)" using case1 by simp
    have "\<exists>h. scan_pattern s ?z = scan_pattern s (z\<lparr>rx_inClass := False, rx_classHasCharacter := h, rx_canQuantify := True\<rparr>)"
      by (rule exI [of _ "rx_classHasCharacter z"]) (simp only: eq)
    then show ?thesis unfolding step cls by simp
  next
    case 2
    with z show ?thesis by (simp add: scan_char_def)
  next
    case 3
    let ?z = "z\<lparr>rx_classHasCharacter := True\<rparr>"
    have same: "z\<lparr>rx_escaped := False, rx_classHasCharacter := True\<rparr> = ?z" using z by (cases z) simp
    have step: "scan_pattern (c # s) z = (if ok_escape e then scan_pattern s' ?z else None)"
      using 3 z by (auto simp: scan_char_def ok_escape_def same)
    have "case class_tokens s' of
      None \<Rightarrow> (case scan_pattern s' ?z of None \<Rightarrow> True | Some z' \<Rightarrow> rx_inClass z')
    | Some (xs, r) \<Rightarrow>
        (if (rx_classHasCharacter ?z \<or> xs \<noteq> []) \<and> list_all (\<lambda>(e, c). e \<longrightarrow> ok_escape c) xs
         then \<exists>h. scan_pattern s' ?z = scan_pattern r (?z\<lparr>rx_inClass := False, rx_classHasCharacter := h, rx_canQuantify := True\<rparr>)
         else scan_pattern s' ?z = None)"
      using 3 z by (intro 2(1)) auto
    note ih = this
    show ?thesis
    proof (cases "class_tokens s'")
      case None
      with ih show ?thesis unfolding step using 3 z by (auto split: option.splits)
    next
      case (Some xr)
      obtain xs r where xr: "class_tokens s' = Some (xs, r)" using Some by (cases xr) auto
      have "class_tokens (c # s) = Some ((True, e) # xs, r)" using 3 xr by simp
      then show ?thesis using ih unfolding step xr by (auto split: if_split_asm simp del: class_tokens.simps)
    qed
  next
    case 4
    let ?z = "z\<lparr>rx_classHasCharacter := True\<rparr>"
    have step: "scan_pattern (c # s) z = scan_pattern s ?z" using 4 z by (simp add: scan_char_def)
    have "case class_tokens s of
      None \<Rightarrow> (case scan_pattern s ?z of None \<Rightarrow> True | Some z' \<Rightarrow> rx_inClass z')
    | Some (xs, r) \<Rightarrow>
        (if (rx_classHasCharacter ?z \<or> xs \<noteq> []) \<and> list_all (\<lambda>(e, c). e \<longrightarrow> ok_escape c) xs
         then \<exists>h. scan_pattern s ?z = scan_pattern r (?z\<lparr>rx_inClass := False, rx_classHasCharacter := h, rx_canQuantify := True\<rparr>)
         else scan_pattern s ?z = None)"
      using 4 z by (intro 2(2)) auto
    note ih = this
    show ?thesis
    proof (cases "class_tokens s")
      case None
      with ih show ?thesis unfolding step using 4 z by (auto split: option.splits)
    next
      case (Some xr)
      obtain xs r where xr: "class_tokens s = Some (xs, r)" using Some by (cases xr) auto
      have "class_tokens (c # s) = Some ((False, c) # xs, r)" using 4 xr by simp
      then show ?thesis using ih unfolding step xr by (auto split: if_split_asm simp del: class_tokens.simps)
    qed
  qed
qed simp

definition scan_ok :: "bool \<Rightarrow> regex_scan option \<Rightarrow> bool" where
  "scan_ok anchored r = (case r of None \<Rightarrow> False
     | Some z \<Rightarrow> \<not> rx_escaped z \<and> \<not> rx_inClass z \<and> (\<not> rx_unbounded z \<or> anchored))"

definition tokens_ok :: "bool \<Rightarrow> regex_scan \<Rightarrow> rtok list option \<Rightarrow> bool" where
  "tokens_ok anchored z r = (case r of None \<Rightarrow> False
     | Some ts \<Rightarrow> list_all ok_token ts \<and> quantified (rx_canQuantify z) ts \<and>
         rx_quantifiers z + length (filter is_quantifier ts) \<le> 1 \<and> (rx_unbounded z \<or> list_ex is_unbounded ts \<longrightarrow> anchored))"

lemma scan_tokens:
  assumes "\<not> rx_escaped z" "\<not> rx_inClass z" "rx_quantifiers z \<le> 1"
  shows "scan_ok anchored (scan_pattern s z) \<longleftrightarrow> tokens_ok anchored z (tokens s)"
  using assms
proof (induction s arbitrary: z rule: tokens.induct)
  case 1
  then show ?case by (auto simp: scan_ok_def tokens_ok_def)
next
  case (2 c s)
  note z = 2(4-6)
  consider "c = CHR 0x5C" "s = []" | e s' where "c = CHR 0x5C" "s = e # s'" | "c = CHR ''[''" | "c \<noteq> CHR 0x5C" "c \<noteq> CHR ''[''"
    by (cases s) auto
  then show ?case
  proof cases
    case 1
    with z show ?thesis by (simp add: scan_char_def scan_ok_def tokens_ok_def)
  next
    case 2
    let ?z = "z\<lparr>rx_escaped := False, rx_canQuantify := True\<rparr>"
    have step: "scan_pattern (c # s) z = (if ok_escape e then scan_pattern s' ?z else None)"
      using 2 z by (auto simp: scan_char_def ok_escape_def)
    have "scan_ok anchored (scan_pattern s' ?z) \<longleftrightarrow> tokens_ok anchored ?z (tokens s')" using 2 z by (intro "2.IH"(1)) auto
    then show ?thesis unfolding step using 2 by (auto simp: tokens_ok_def scan_ok_def split: option.splits)
  next
    case 3
    let ?z = "z\<lparr>rx_inClass := True, rx_classHasCharacter := False, rx_canQuantify := False\<rparr>"
    have step: "scan_pattern (c # s) z = scan_pattern s ?z" using 3 z by (simp add: scan_char_def)
    note cls = scan_class [of ?z s]
    show ?thesis
    proof (cases "class_tokens s")
      case None
      with cls z show ?thesis unfolding step by (auto simp: 3 scan_ok_def tokens_ok_def split: option.splits)
    next
      case (Some xr)
      obtain xs r where xr: "class_tokens s = Some (xs, r)" using Some by (cases xr) auto
      show ?thesis
      proof (cases "xs \<noteq> [] \<and> list_all (\<lambda>(e, c). e \<longrightarrow> ok_escape c) xs")
        case True
        with cls xr z obtain h where h: "scan_pattern s ?z = scan_pattern r (z\<lparr>rx_inClass := False, rx_classHasCharacter := h, rx_canQuantify := True\<rparr>)"
          by auto
        have "scan_ok anchored (scan_pattern r (z\<lparr>rx_inClass := False, rx_classHasCharacter := h, rx_canQuantify := True\<rparr>)) \<longleftrightarrow>
            tokens_ok anchored (z\<lparr>rx_inClass := False, rx_classHasCharacter := h, rx_canQuantify := True\<rparr>) (tokens r)"
          using 3 xr z by (intro "2.IH"(2)) auto
        with True show ?thesis unfolding step h by (auto simp: 3 xr tokens_ok_def split: option.splits)
      next
        case False
        with cls xr z have "scan_pattern s ?z = None" by auto
        with False show ?thesis unfolding step by (auto simp: 3 xr scan_ok_def tokens_ok_def split: option.splits)
      qed
    qed
  next
    case other: 4
    have tok: "tokens (c # s) = map_option ((#) (Raw c)) (tokens s)" using other by simp
    have IH: "scan_ok anchored (scan_pattern s z') \<longleftrightarrow> tokens_ok anchored z' (tokens s)"
      if "\<not> rx_escaped z'" "\<not> rx_inClass z'" "rx_quantifiers z' \<le> 1" for z'
      using other that by (intro "2.IH"(3)) auto
    consider (bad) "c \<in> set ''()|{}''" | (quant) "c \<in> set ''*+?''" | (anchor) "c \<in> set ''^$''"
      | (plain) "c \<notin> set ''()|{}''" "c \<notin> set ''*+?''" "c \<notin> set ''^$''" by blast
    then show ?thesis
    proof cases
      case bad
      then have "scan_char c z = None" using other z by (simp add: scan_char_def)
      with bad show ?thesis by (simp add: tok scan_ok_def tokens_ok_def del: tokens.simps split: option.split)
    next
      case quant
      then have nb: "c \<notin> set ''()|{}''" by auto
      let ?z = "z\<lparr>rx_quantifiers := Suc (rx_quantifiers z), rx_unbounded := rx_unbounded z \<or> c \<noteq> CHR ''?'', rx_canQuantify := False\<rparr>"
      have sc: "scan_char c z = (if \<not> rx_canQuantify z \<or> rx_quantifiers z \<ge> 1 then None else Some ?z)"
        unfolding scan_char_def using other z quant nb by simp
      have raw: "ok_token (Raw c)" "is_quantifier (Raw c)" "\<not> is_atom (Raw c)" "is_unbounded (Raw c) \<longleftrightarrow> c \<noteq> CHR ''?''"
        using quant nb by auto
      show ?thesis
      proof (cases "\<not> rx_canQuantify z \<or> rx_quantifiers z \<ge> 1")
        case True
        then have "\<not> tokens_ok anchored z (tokens (c # s))"
          using raw by (auto simp: tok tokens_ok_def simp del: tokens.simps is_quantifier.simps is_atom.simps is_unbounded.simps ok_token.simps split: option.split)
        then show ?thesis using True by (simp add: sc scan_ok_def)
      next
        case False
        have "scan_ok anchored (scan_pattern s ?z) \<longleftrightarrow> tokens_ok anchored ?z (tokens s)" using z False by (intro IH) auto
        also have "\<dots> \<longleftrightarrow> tokens_ok anchored z (tokens (c # s))"
          using raw False by (cases "tokens s") (auto simp: tok tokens_ok_def simp del: tokens.simps is_quantifier.simps is_atom.simps is_unbounded.simps ok_token.simps)
        finally show ?thesis using False by (simp add: sc)
      qed
    next
      case anchor
      then have nb: "c \<notin> set ''()|{}''" "c \<notin> set ''*+?''" by auto
      have sc: "scan_char c z = Some (z\<lparr>rx_canQuantify := False\<rparr>)"
        unfolding scan_char_def using other z anchor nb by simp
      have raw: "ok_token (Raw c)" "\<not> is_quantifier (Raw c)" "\<not> is_atom (Raw c)" "\<not> is_unbounded (Raw c)"
        using anchor nb by auto
      have "scan_ok anchored (scan_pattern s (z\<lparr>rx_canQuantify := False\<rparr>)) \<longleftrightarrow> tokens_ok anchored (z\<lparr>rx_canQuantify := False\<rparr>) (tokens s)"
        using z by (intro IH) auto
      also have "\<dots> \<longleftrightarrow> tokens_ok anchored z (tokens (c # s))"
        using raw by (cases "tokens s") (auto simp: tok tokens_ok_def simp del: tokens.simps is_quantifier.simps is_atom.simps is_unbounded.simps ok_token.simps)
      finally show ?thesis by (simp add: sc)
    next
      case plain
      have sc: "scan_char c z = Some (z\<lparr>rx_canQuantify := True\<rparr>)"
        unfolding scan_char_def using other z plain by simp
      have raw: "ok_token (Raw c)" "\<not> is_quantifier (Raw c)" "is_atom (Raw c)" "\<not> is_unbounded (Raw c)"
        using plain by auto
      have "scan_ok anchored (scan_pattern s (z\<lparr>rx_canQuantify := True\<rparr>)) \<longleftrightarrow> tokens_ok anchored (z\<lparr>rx_canQuantify := True\<rparr>) (tokens s)"
        using z by (intro IH) auto
      also have "\<dots> \<longleftrightarrow> tokens_ok anchored z (tokens (c # s))"
        using raw by (cases "tokens s") (auto simp: tok tokens_ok_def simp del: tokens.simps is_quantifier.simps is_atom.simps is_unbounded.simps ok_token.simps)
      finally show ?thesis by (simp add: sc)
    qed
  qed
qed

lemma starts_with_caret: "tokens p = Some ts \<Longrightarrow> starts_with p ''^'' \<longleftrightarrow> (\<exists>us. ts = Raw (CHR ''^'') # us)"
  by (cases p) (auto simp: starts_with_iff split: if_splits list.splits option.splits)

text \<open>C36: the guard on the patterns of parser rules accepts exactly the non-empty patterns of at most 128
  characters that split into tokens (escapes, closed classes, plain characters) such that no class is
  empty, no escape is a digit (a back reference), \<open>k\<close>, \<open>p\<close> or \<open>P\<close>, there is no group, alternation or
  brace, every quantifier follows an atom, there is at most one quantifier in the whole pattern, and
  a \<open>*\<close> or \<open>+\<close> is allowed only when the pattern starts with \<open>^\<close>. So nothing it accepts nests or sequences
  quantifiers: matching needs no super-linear backtracking.\<close>

theorem safe_regex_linear:
  "isSafeRuleRegex p \<longleftrightarrow> p \<noteq> '''' \<and> length p \<le> 128 \<and> (\<exists>ts. tokens p = Some ts \<and> linear_tokens ts)"
proof -
  have "isSafeRuleRegex p \<longleftrightarrow> p \<noteq> '''' \<and> length p \<le> 128 \<and> scan_ok (starts_with p ''^'') (scan_pattern p regex_start)"
    by (simp add: isSafeRuleRegex_def scan_ok_def MAX_RULE_PATTERN_CHARS_def)
  also have "scan_ok (starts_with p ''^'') (scan_pattern p regex_start) \<longleftrightarrow> tokens_ok (starts_with p ''^'') regex_start (tokens p)"
    by (intro scan_tokens) (simp_all add: regex_start_def)
  also have "\<dots> \<longleftrightarrow> (\<exists>ts. tokens p = Some ts \<and> linear_tokens ts)"
    using starts_with_caret [of p] by (cases "tokens p") (auto simp: tokens_ok_def linear_tokens_def regex_start_def)
  finally show ?thesis .
qed

end
