(* ===== verification/InboundStore.thy ===== *)
theory InboundStore
  imports InboundText MailAccess
begin

text \<open>
  The durable state of inbound mail: the queues with their IMAP cursor, the delivery ledger, the
  reservations of raw messages and their files, the claims on message ids and the operator audit,
  with the gates of \<open>mail/inbound.service.ts\<close> that decide which queue may accept and which
  delivery may be processed. Times are milliseconds. The hash function, the relay, the IMAP server
  and the file system are parameters.
\<close>

section \<open>Rows\<close>

datatype queue_type = IMAP | POP3 | PIPE
datatype sync_state = SyncOK | BOOTSTRAPPING | NEEDS_RECONCILIATION
datatype reconcile_cause = LEGACY_MIGRATION | UIDVALIDITY_CHANGED | MAILBOX_IDENTITY_CHANGED
  | MANUAL_FORCE | TRANSPORT_COLLISION | UNKNOWN
datatype bootstrap_policy = PolicyFromNow | PolicyBackfill
datatype delivery_state = DCaptured | DAccepted | DProcessing | DProcessed | DSkipped | DRetry | DQuarantined
datatype stage_state = StageActive | StageCommitted | StageReaping

text \<open>The advisory time stamps of a queue.\<close>

record queue_live =
  ql_lastConnectionAttemptAt :: "time option"
  ql_lastConnectedAt :: "time option"
  ql_lastDisconnectedAt :: "time option"
  ql_lastConnectionErrorAt :: "time option"
  ql_lastPollStartedAt :: "time option"
  ql_lastPollAt :: "time option"
  ql_lastPollCompletedAt :: "time option"
  ql_lastAcceptedAt :: "time option"

record mail_queue =
  mq_id :: nat
  mq_type :: queue_type
  mq_emailAddress :: string
  mq_host :: string
  mq_port :: nat
  mq_username :: string
  mq_passwordEnc :: string
  mq_useTls :: bool
  mq_mailbox :: string
  mq_departmentId :: "nat option"
  mq_signature :: string
  mq_routingPriority :: int
  mq_sendAutoresponder :: bool
  mq_configGeneration :: nat
  mq_isEnabled :: bool
  mq_lastSeenUid :: nat
  mq_uidValidity :: "nat option"
  mq_syncState :: sync_state
  mq_lastError :: "string option"
  mq_cursorGeneration :: nat
  mq_mailboxEpoch :: nat
  mq_reconcileCause :: "reconcile_cause option"
  mq_reconcileRequestedAt :: "time option"
  mq_bootstrapPolicy :: "bootstrap_policy option"
  mq_bootstrapBackfillLimit :: "int option"
  mq_captureRetiredAt :: "time option"
  mq_live :: queue_live

record routing_entry =
  re_id :: nat
  re_emailAddress :: string
  re_departmentId :: "nat option"
  re_routingPriority :: int
  re_sendAutoresponder :: bool

text \<open>A row of the ledger. Raw messages are byte strings.\<close>

record delivery =
  dv_id :: nat
  dv_transport :: queue_type
  dv_queueId :: "nat option"
  dv_transportKey :: string
  dv_mailboxEpoch :: "nat option"
  dv_uidValidity :: "nat option"
  dv_uid :: "nat option"
  dv_externalId :: "string option"
  dv_observedMessageId :: "string option"
  dv_messageIdHash :: "string option"
  dv_semanticHash :: "string option"
  dv_contentHash :: string
  dv_envelopeFrom :: "string option"
  dv_envelopeTo :: "string option"
  dv_subject :: string
  dv_departmentId :: "nat option"
  dv_sendAutoresponder :: "bool option"
  dv_routingSnapshot :: "routing_entry list"
  dv_routedQueueId :: "nat option"
  dv_routedDepartmentId :: "nat option"
  dv_ownerKind :: owner_kind
  dv_ownerDepartmentId :: "nat option"
  dv_ownerTicketId :: "nat option"
  dv_rawMime :: "string option"
  dv_rawStorageKey :: "string option"
  dv_rawPrunedAt :: "time option"
  dv_truncated :: bool
  dv_sizeBytes :: nat
  dv_state :: delivery_state
  dv_capturePromotedAt :: "time option"
  dv_attempts :: nat
  dv_lastError :: "string option"
  dv_nextAttemptAt :: "time option"
  dv_leaseOwner :: "string option"
  dv_leaseExpiresAt :: "time option"
  dv_ticketId :: "nat option"
  dv_postId :: "nat option"
  dv_createdAt :: time
  dv_updatedAt :: time
  dv_processedAt :: "time option"

record raw_stage =
  rs_storageKey :: string
  rs_queueId :: "nat option"
  rs_state :: stage_state
  rs_leaseExpiresAt :: time

record message_claim =
  mc_messageIdHash :: string
  mc_normalizedMessageId :: string
  mc_semanticHash :: "string option"
  mc_semanticHashVersion :: nat
  mc_winnerDeliveryId :: nat
  mc_routedQueueId :: "nat option"
  mc_departmentId :: "nat option"
  mc_sendAutoresponder :: "bool option"
  mc_ticketId :: "nat option"
  mc_postId :: "nat option"

record inbound_audit =
  ia_action :: string
  ia_queueId :: "nat option"
  ia_deliveryId :: "nat option"
  ia_actorStaffId :: "nat option"
  ia_reason :: "string option"

text \<open>The upload volume: published messages, temporary files and pending markers (with their time).\<close>

record raw_volume =
  rv_files :: "(string \<times> string) list"
  rv_temps :: "(string \<times> string) list"
  rv_markers :: "(string \<times> time) list"

record inbox =
  ib_queues :: "mail_queue list"
  ib_deliveries :: "delivery list"
  ib_stages :: "raw_stage list"
  ib_claims :: "message_claim list"
  ib_audit :: "inbound_audit list"
  ib_volume :: raw_volume
  ib_seq_delivery :: nat
  ib_seq_queue :: nat

type_synonym 'a act_in = "(inbox, 'a) act"

section \<open>Configuration\<close>

text \<open>
  The configuration of a process and what one run of a handler sees of the outside: the clock, the
  hash, a fresh storage key and lease token, and whether the volume answers.
\<close>

record inbound_env =
  ie_now :: time
  ie_deliveryEnabled :: bool
  ie_captureOnlyEnabled :: bool
  ie_captureQueueId :: "int option"
  ie_captureMaxMessages :: "int option"
  ie_canaryQueueId :: "int option"
  ie_canaryDeliveryId :: "int option"
  ie_encryptionKey :: "string option"
  ie_maxSizeMb :: nat
  ie_maxAttempts :: nat
  ie_rawRetentionDays :: nat
  ie_bootstrapPolicy :: bootstrap_policy
  ie_backfillLimit :: int
  ie_defaultDepartmentId :: "nat option"
  ie_sha256 :: "string \<Rightarrow> string"
  ie_rawStorage :: bool            \<comment> \<open>whether the optional storage service is present\<close>
  ie_volumeWrites :: bool
  ie_volumeReads :: bool
  ie_volumeRemoves :: bool
  ie_freshKey :: string
  ie_leaseToken :: string

definition LEASE_MS :: int where "LEASE_MS = 5 * 60000"
definition RAW_STAGING_LEASE_MS :: int where "RAW_STAGING_LEASE_MS = 10 * 60000"
definition MAX_INLINE_RAW_MIME_BYTES :: nat where "MAX_INLINE_RAW_MIME_BYTES = 1024 * 1024"

definition inboundDeliveryEnabled :: "inbound_env \<Rightarrow> bool" where
  "inboundDeliveryEnabled en = ie_deliveryEnabled en"

definition inboundCaptureOnlyEnabled :: "inbound_env \<Rightarrow> bool" where
  "inboundCaptureOnlyEnabled en = ie_captureOnlyEnabled en"

definition positive_id :: "int option \<Rightarrow> nat option" where
  "positive_id z = (case z of None \<Rightarrow> None | Some i \<Rightarrow> if i > 0 then Some (nat i) else None)"

definition captureQueueId :: "inbound_env \<Rightarrow> nat option" where
  "captureQueueId en = positive_id (ie_captureQueueId en)"

definition captureMaxMessages :: "inbound_env \<Rightarrow> nat" where
  "captureMaxMessages en = (if ie_captureMaxMessages en = Some 1 then 1 else 0)"

definition normalDeliveryCanaryQueueId :: "inbound_env \<Rightarrow> nat option" where
  "normalDeliveryCanaryQueueId en = positive_id (ie_canaryQueueId en)"

definition normalDeliveryCanaryDeliveryId :: "inbound_env \<Rightarrow> nat option" where
  "normalDeliveryCanaryDeliveryId en = positive_id (ie_canaryDeliveryId en)"

definition normalDeliveryCanaryConfigured :: "inbound_env \<Rightarrow> bool" where
  "normalDeliveryCanaryConfigured en \<longleftrightarrow>
     normalDeliveryCanaryQueueId en \<noteq> None \<or> normalDeliveryCanaryDeliveryId en \<noteq> None"

text \<open>The canary as the pair of its queue and its delivery.\<close>

definition normalDeliveryCanary :: "inbound_env \<Rightarrow> (nat \<times> nat) option" where
  "normalDeliveryCanary en =
     (case (normalDeliveryCanaryQueueId en, normalDeliveryCanaryDeliveryId en) of
        (Some q, Some i) \<Rightarrow> Some (q, i)
      | _ \<Rightarrow> None)"

definition activeInboundQueueId :: "inbound_env \<Rightarrow> nat option" where
  "activeInboundQueueId en = (if inboundCaptureOnlyEnabled en then captureQueueId en else None)"

definition is_hex :: "char \<Rightarrow> bool" where
  "is_hex c \<longleftrightarrow> is_digit c \<or> lower_char c \<in> set ''abcdef''"

definition captureEncryptionReady :: "inbound_env \<Rightarrow> bool" where
  "captureEncryptionReady en =
     (case ie_encryptionKey en of None \<Rightarrow> False | Some k \<Rightarrow> length k = 64 \<and> list_all is_hex k)"

definition inboundAcceptanceEnabled :: "inbound_env \<Rightarrow> bool" where
  "inboundAcceptanceEnabled en \<longleftrightarrow>
     inboundDeliveryEnabled en \<or>
     (inboundCaptureOnlyEnabled en \<and> captureQueueId en \<noteq> None \<and> captureEncryptionReady en \<and> captureMaxMessages en = 1)"

definition inboundProcessingEnabled :: "inbound_env \<Rightarrow> bool" where
  "inboundProcessingEnabled en \<longleftrightarrow> inboundDeliveryEnabled en \<and> \<not> inboundCaptureOnlyEnabled en"

definition acceptsQueue :: "inbound_env \<Rightarrow> nat \<Rightarrow> bool" where
  "acceptsQueue en queueId =
     (if inboundCaptureOnlyEnabled en then captureQueueId en = Some queueId
      else \<not> normalDeliveryCanaryConfigured en)"

section \<open>Folder names\<close>

definition is_mailbox_edge :: "char \<Rightarrow> bool" where
  "is_mailbox_edge c \<longleftrightarrow> (let n = code_of c in n = 32 \<or> (9 \<le> n \<and> n \<le> 13))"

text \<open>\<open>None\<close> where the code throws.\<close>

definition normalizeImapMailbox :: "string \<Rightarrow> string option" where
  "normalizeImapMailbox value =
     (let mailbox = trim_by is_mailbox_edge value in
      if mailbox = '''' \<or> length mailbox > 255 \<or> list_ex (\<lambda>c. code_of c = 13 \<or> code_of c = 10) mailbox \<or>
         list_ex (\<lambda>c. code_of c = 0) mailbox then None
      else Some mailbox)"

definition readCanonicalImapMailbox :: "string \<Rightarrow> string option" where
  "readCanonicalImapMailbox value =
     (case normalizeImapMailbox value of None \<Rightarrow> None | Some m \<Rightarrow> if m = value then Some m else None)"

fun collapse_spaces :: "string \<Rightarrow> string" where
  "collapse_spaces [] = []"
| "collapse_spaces [c] = [if is_space c then CHR '' '' else c]"
| "collapse_spaces (c # d # s) =
     (if is_space c \<and> is_space d then collapse_spaces (d # s)
      else (if is_space c then CHR '' '' else c) # collapse_spaces (d # s))"

definition KNOWN_UNSAFE_CAPTURE_MAILBOXES :: "string list" where
  "KNOWN_UNSAFE_CAPTURE_MAILBOXES =
     [''INBOX'', ''ALL MAIL'', ''ARCHIVE'', ''SENT'', ''SENT MAIL'', ''DRAFTS'', ''TRASH'', ''JUNK'', ''SPAM'', ''IMPORTANT'',
      ''[GMAIL]/ALL MAIL'', ''[GMAIL]/SENT MAIL'', ''[GMAIL]/DRAFTS'', ''[GMAIL]/TRASH'', ''[GMAIL]/SPAM'', ''[GMAIL]/IMPORTANT'']"

definition isKnownUnsafeCaptureMailbox :: "string \<Rightarrow> bool" where
  "isKnownUnsafeCaptureMailbox mailbox \<longleftrightarrow>
     map upper_char (collapse_spaces (trim mailbox)) \<in> set KNOWN_UNSAFE_CAPTURE_MAILBOXES"

definition selectedMailbox :: "mail_queue \<Rightarrow> string act_in" where
  "selectedMailbox q =
     (case readCanonicalImapMailbox (mq_mailbox q) of
        None \<Rightarrow> throw (ServiceUnavailable ''Configured IMAP mailbox is invalid'')
      | Some m \<Rightarrow> ret m)"

definition captureMailbox :: "inbound_env \<Rightarrow> mail_queue \<Rightarrow> string act_in" where
  "captureMailbox en q =
     bnd (selectedMailbox q) (\<lambda>mailbox.
       if inboundCaptureOnlyEnabled en then
         sq (require (captureQueueId en = Some (mq_id q))
               (ServiceUnavailable ''Capture-only permits IMAP access only for its explicitly selected test queue''))
        (sq (require (mq_useTls q)
               (ServiceUnavailable ''Capture-only requires implicit TLS for the selected IMAP test queue''))
        (sq (require (\<not> isKnownUnsafeCaptureMailbox mailbox)
               (ServiceUnavailable ''Capture-only requires an empty dedicated IMAP test folder; Inbox and provider special-use folders are refused''))
        (ret mailbox)))
       else ret mailbox)"

section \<open>Access to the tables\<close>

definition queue_by_id :: "nat \<Rightarrow> inbox \<Rightarrow> mail_queue option" where
  "queue_by_id i x = find_row (\<lambda>q. mq_id q = i) (ib_queues x)"

definition delivery_by_id :: "nat \<Rightarrow> inbox \<Rightarrow> delivery option" where
  "delivery_by_id i x = find_row (\<lambda>v. dv_id v = i) (ib_deliveries x)"

definition delivery_by_key :: "string \<Rightarrow> inbox \<Rightarrow> delivery option" where
  "delivery_by_key k x = find_row (\<lambda>v. dv_transportKey v = k) (ib_deliveries x)"

text \<open>\<open>updateMany\<close> on queues, on deliveries and on reservations, with the number of rows it matched.
  Every write to a delivery sets its \<open>updatedAt\<close>.\<close>

definition update_queues :: "(mail_queue \<Rightarrow> bool) \<Rightarrow> (mail_queue \<Rightarrow> mail_queue) \<Rightarrow> nat act_in" where
  "update_queues p f =
     bnd (reads (\<lambda>x. count_rows p (ib_queues x))) (\<lambda>n.
       sq (modify (\<lambda>x. x\<lparr>ib_queues := update_rows p f (ib_queues x)\<rparr>)) (ret n))"

definition update_deliveries :: "inbound_env \<Rightarrow> (delivery \<Rightarrow> bool) \<Rightarrow> (delivery \<Rightarrow> delivery) \<Rightarrow> nat act_in" where
  "update_deliveries en p f =
     bnd (reads (\<lambda>x. count_rows p (ib_deliveries x))) (\<lambda>n.
       sq (modify (\<lambda>x. x\<lparr>ib_deliveries := update_rows p (\<lambda>v. (f v)\<lparr>dv_updatedAt := ie_now en\<rparr>) (ib_deliveries x)\<rparr>)) (ret n))"

definition update_stages :: "(raw_stage \<Rightarrow> bool) \<Rightarrow> (raw_stage \<Rightarrow> raw_stage) \<Rightarrow> nat act_in" where
  "update_stages p f =
     bnd (reads (\<lambda>x. count_rows p (ib_stages x))) (\<lambda>n.
       sq (modify (\<lambda>x. x\<lparr>ib_stages := update_rows p f (ib_stages x)\<rparr>)) (ret n))"

definition delete_stages :: "(raw_stage \<Rightarrow> bool) \<Rightarrow> nat act_in" where
  "delete_stages p =
     bnd (reads (\<lambda>x. count_rows p (ib_stages x))) (\<lambda>n.
       sq (modify (\<lambda>x. x\<lparr>ib_stages := delete_rows p (ib_stages x)\<rparr>)) (ret n))"

definition create_audit :: "inbound_audit \<Rightarrow> unit act_in" where
  "create_audit e = modify (\<lambda>x. x\<lparr>ib_audit := ib_audit x @ [e]\<rparr>)"

definition stampQueue :: "nat \<Rightarrow> (mail_queue \<Rightarrow> mail_queue) \<Rightarrow> unit act_in" where
  "stampQueue queueId f = modify (\<lambda>x. x\<lparr>ib_queues := update_rows (\<lambda>q. mq_id q = queueId) f (ib_queues x)\<rparr>)"

text \<open>A row waits in the ledger of a queue, in one of the states of a capture test.\<close>

definition captured_rows :: "nat \<Rightarrow> inbox \<Rightarrow> nat" where
  "captured_rows queueId x =
     count_rows (\<lambda>v. dv_queueId v = Some queueId \<and> dv_state v \<in> {DCaptured, DQuarantined}) (ib_deliveries x)"

definition assertCaptureCapacity :: "inbound_env \<Rightarrow> nat \<Rightarrow> unit act_in" where
  "assertCaptureCapacity en queueId =
     (if \<not> inboundCaptureOnlyEnabled en then ret ()
      else if captureMaxMessages en < 1 then
        throw (ServiceUnavailable ''Inbound capture-only capacity is not configured safely'')
      else bnd (reads (captured_rows queueId)) (\<lambda>captured.
        require (captured < captureMaxMessages en)
          (ServiceUnavailable ''Inbound capture-only limit is reached; review the captured message and stop or reconfigure the test queue before accepting another'')))"

definition captureLimitReached :: "inbound_env \<Rightarrow> nat \<Rightarrow> bool act_in" where
  "captureLimitReached en queueId =
     (if \<not> inboundCaptureOnlyEnabled en then ret False
      else if captureMaxMessages en < 1 then
        throw (ServiceUnavailable ''Inbound capture-only capacity is not configured safely'')
      else bnd (reads (captured_rows queueId)) (\<lambda>captured. ret (captured \<ge> captureMaxMessages en)))"

text \<open>The part of every query that keeps normal ingress and capture apart.\<close>

definition capture_fence :: "inbound_env \<Rightarrow> mail_queue \<Rightarrow> bool" where
  "capture_fence en q = (if inboundCaptureOnlyEnabled en then mq_captureRetiredAt q \<noteq> None else mq_captureRetiredAt q = None)"

end
