(* ===== verification/RawStage.thy ===== *)
theory RawStage
  imports InboundStore "HOL-Library.AList"
begin

text \<open>
  Raw messages on the upload volume: \<open>inbound-raw-storage.service.ts\<close> and the reservation protocol
  around it in \<open>inbound.service.ts\<close>. A message over one mebibyte is written to the volume under a
  reservation that the ledger transaction turns into a commitment; whatever is left behind is
  reaped. The part on the volume is not rolled back with a database transaction.
\<close>

section \<open>The volume\<close>

definition upd_volume :: "(raw_volume \<Rightarrow> raw_volume) \<Rightarrow> unit act_in" where
  "upd_volume f = modify (\<lambda>x. x\<lparr>ib_volume := f (ib_volume x)\<rparr>)"

text \<open>\<open>prisma.$transaction\<close>: an exception undoes the writes to the database, not those to the volume.\<close>

definition db_txn :: "'a act_in \<Rightarrow> 'a act_in" where
  "db_txn m x = (case m x of (Inl e, x') \<Rightarrow> (Inl e, x\<lparr>ib_volume := ib_volume x'\<rparr>) | (Inr r, x') \<Rightarrow> (Inr r, x'))"

definition put_temp :: "inbound_env \<Rightarrow> string \<Rightarrow> string \<Rightarrow> raw_volume \<Rightarrow> raw_volume" where
  "put_temp en storageKey bytes v =
     v\<lparr>rv_markers := AList.update storageKey (ie_now en) (rv_markers v),
       rv_temps := AList.update storageKey bytes (rv_temps v)\<rparr>"

definition rename_temp :: "string \<Rightarrow> string \<Rightarrow> raw_volume \<Rightarrow> raw_volume" where
  "rename_temp storageKey bytes v =
     v\<lparr>rv_files := AList.update storageKey bytes (rv_files v), rv_temps := AList.delete storageKey (rv_temps v)\<rparr>"

definition drop_file :: "string \<Rightarrow> raw_volume \<Rightarrow> raw_volume" where
  "drop_file storageKey v =
     v\<lparr>rv_files := AList.delete storageKey (rv_files v), rv_temps := AList.delete storageKey (rv_temps v)\<rparr>"

definition drop_marker :: "string \<Rightarrow> raw_volume \<Rightarrow> raw_volume" where
  "drop_marker storageKey v = v\<lparr>rv_markers := AList.delete storageKey (rv_markers v)\<rparr>"

definition drop_temp :: "string \<Rightarrow> raw_volume \<Rightarrow> raw_volume" where
  "drop_temp storageKey v = v\<lparr>rv_temps := AList.delete storageKey (rv_temps v)\<rparr>"

definition write_failed :: error where
  "write_failed = ServiceUnavailable ''Inbound raw MIME storage write failed''"

text \<open>The rename of the temporary file; it fails when a reaper removed the file.\<close>

definition publish_file :: "string \<Rightarrow> unit act_in" where
  "publish_file storageKey =
     bnd (reads (\<lambda>x. map_of (rv_temps (ib_volume x)) storageKey)) (\<lambda>z.
       case z of None \<Rightarrow> throw write_failed
       | Some bytes \<Rightarrow> upd_volume (rename_temp storageKey bytes))"

text \<open>
  \<open>writeFenced\<close>: capacity, marker, temporary file, then the fence around the rename. When the fence
  fails before the rename, marker and temporary file are removed.
\<close>

definition writeFenced :: "inbound_env \<Rightarrow> string \<Rightarrow> string \<Rightarrow> (unit act_in \<Rightarrow> unit act_in) \<Rightarrow> string act_in" where
  "writeFenced en bytes storageKey fence =
     sq (require (ie_volumeWrites en) write_failed)
    (sq (upd_volume (put_temp en storageKey bytes))
    (sq (catch_act (fence (publish_file storageKey)) (\<lambda>e.
           bnd (reads (\<lambda>x. map_of (rv_files (ib_volume x)) storageKey \<noteq> None)) (\<lambda>published.
             sq (upd_volume (drop_temp storageKey))
            (sq (when_act (\<not> published) (upd_volume (drop_marker storageKey)))
            (throw e)))))
    (ret storageKey)))"

definition commit_marker :: "inbound_env \<Rightarrow> string \<Rightarrow> unit act_in" where
  "commit_marker en storageKey =
     sq (require (ie_volumeRemoves en) (ServiceUnavailable ''Inbound raw MIME storage marker update failed''))
        (upd_volume (drop_marker storageKey))"

definition read_file :: "inbound_env \<Rightarrow> string \<Rightarrow> string act_in" where
  "read_file en storageKey =
     sq (require (ie_volumeReads en) (ServiceUnavailable ''Inbound raw MIME storage is unavailable''))
    (bnd (reads (\<lambda>x. map_of (rv_files (ib_volume x)) storageKey)) (\<lambda>z.
       case z of None \<Rightarrow> throw (ServiceUnavailable ''Inbound raw MIME storage is unavailable'')
       | Some bytes \<Rightarrow> ret bytes))"

definition removeFile :: "inbound_env \<Rightarrow> string \<Rightarrow> unit act_in" where
  "removeFile en storageKey =
     sq (require (ie_volumeRemoves en) (ServiceUnavailable ''Inbound raw MIME storage cleanup failed''))
        (upd_volume (drop_file storageKey))"

definition remove_raw :: "inbound_env \<Rightarrow> string \<Rightarrow> unit act_in" where
  "remove_raw en storageKey = sq (removeFile en storageKey) (upd_volume (drop_marker storageKey))"

definition listPending :: "inbound_env \<Rightarrow> nat \<Rightarrow> time \<Rightarrow> string list act_in" where
  "listPending en limit olderThan =
     sq (require (ie_volumeReads en) (ServiceUnavailable ''Cannot inspect inbound raw MIME pending storage''))
        (reads (\<lambda>x. take limit (map fst (filter (\<lambda>(k, mtime). mtime \<le> olderThan) (rv_markers (ib_volume x))))))"

section \<open>Reservations\<close>

definition stage_in :: "string \<Rightarrow> stage_state \<Rightarrow> raw_stage \<Rightarrow> bool" where
  "stage_in storageKey st r \<longleftrightarrow> rs_storageKey r = storageKey \<and> rs_state r = st"

definition has_stage :: "string \<Rightarrow> stage_state \<Rightarrow> inbox \<Rightarrow> bool" where
  "has_stage storageKey st x = list_ex (stage_in storageKey st) (ib_stages x)"

definition stage_of :: "string \<Rightarrow> inbox \<Rightarrow> raw_stage option" where
  "stage_of storageKey x = find_row (\<lambda>r. rs_storageKey r = storageKey) (ib_stages x)"

definition referenced :: "string \<Rightarrow> inbox \<Rightarrow> bool" where
  "referenced storageKey x = list_ex (\<lambda>v. dv_rawStorageKey v = Some storageKey) (ib_deliveries x)"

definition reserveRawMimeStage :: "inbound_env \<Rightarrow> nat \<Rightarrow> string \<Rightarrow> bool \<Rightarrow> unit act_in" where
  "reserveRawMimeStage en queueId storageKey expectCaptureRetired =
     db_txn (
       bnd (reads (\<lambda>x. find_row (\<lambda>q. mq_id q = queueId \<and> mq_isEnabled q \<and>
              (if expectCaptureRetired then mq_captureRetiredAt q \<noteq> None else mq_captureRetiredAt q = None)) (ib_queues x))) (\<lambda>z.
       sq (require (z \<noteq> None)
            (Conflict ''Inbound queue changed before raw MIME staging; retry after reloading the queue state''))
      (bnd (reads (stage_of storageKey)) (\<lambda>old.
       sq (require (old = None) (UniqueViolation ''storageKey''))
          (modify (\<lambda>x. x\<lparr>ib_stages := ib_stages x @
             [\<lparr>rs_storageKey = storageKey, rs_queueId = Some queueId, rs_state = StageActive,
               rs_leaseExpiresAt = ie_now en + RAW_STAGING_LEASE_MS\<rparr>]\<rparr>))))))"

definition publishRawMimeStage :: "inbound_env \<Rightarrow> string \<Rightarrow> unit act_in \<Rightarrow> unit act_in" where
  "publishRawMimeStage en storageKey publish =
     db_txn (
       bnd (reads (has_stage storageKey StageActive)) (\<lambda>active.
       sq (require active (ServiceUnavailable ''Inbound raw MIME writer lost its staging fence before publish''))
      (sq publish
      (bnd (update_stages (stage_in storageKey StageActive) (\<lambda>r. r\<lparr>rs_leaseExpiresAt := ie_now en + RAW_STAGING_LEASE_MS\<rparr>)) (\<lambda>n.
       require (n = 1) (ServiceUnavailable ''Inbound raw MIME staging fence changed during publish''))))))"

text \<open>The first transaction of a discard: it claims the reservation for removal.\<close>

definition claim_discard :: "string \<Rightarrow> bool act_in" where
  "claim_discard storageKey =
     db_txn (
       bnd (reads (has_stage storageKey StageActive)) (\<lambda>active.
         if \<not> active then ret False
         else bnd (update_stages (stage_in storageKey StageActive) (\<lambda>r. r\<lparr>rs_state := StageReaping\<rparr>)) (\<lambda>n.
           sq (require (n = 1) (ServiceUnavailable ''Inbound raw MIME stage changed during discard''))
              (ret True))))"

definition discardRawStage :: "inbound_env \<Rightarrow> string option \<Rightarrow> unit act_in" where
  "discardRawStage en rawStorageKey =
     (case rawStorageKey of
        None \<Rightarrow> ret ()
      | Some k \<Rightarrow>
          if \<not> ie_rawStorage en then ret ()
          else catch_act
            (bnd (claim_discard k) (\<lambda>claimed.
               if \<not> claimed then ret ()
               else sq (removeFile en k)
                   (bnd (delete_stages (stage_in k StageReaping)) (\<lambda>n.
                    when_act (n = 1) (commit_marker en k)))))
            (\<lambda>_. ret ()))"

text \<open>A message as the ledger row will hold it: inline, or under a storage key.\<close>

definition persistRawMime :: "inbound_env \<Rightarrow> string \<Rightarrow> nat \<Rightarrow> bool \<Rightarrow> (string option \<times> string option) act_in" where
  "persistRawMime en source queueId expectCaptureRetired =
     (if length source \<le> MAX_INLINE_RAW_MIME_BYTES then ret (Some source, None)
      else if \<not> ie_rawStorage en then
        throw (ServiceUnavailable ''Inbound raw MIME storage is unavailable for a large message'')
      else (let k = ie_freshKey en in
        catch_act
          (sq (reserveRawMimeStage en queueId k expectCaptureRetired)
          (sq (writeFenced en source k (publishRawMimeStage en k))
          (ret (None, Some k))))
          (\<lambda>e. sq (discardRawStage en (Some k)) (throw e))))"

definition lockRawStageForAcceptance :: "string option \<Rightarrow> unit act_in" where
  "lockRawStageForAcceptance rawStorageKey =
     (case rawStorageKey of
        None \<Rightarrow> ret ()
      | Some k \<Rightarrow> bnd (reads (has_stage k StageActive)) (\<lambda>active.
          require active (ServiceUnavailable ''Inbound raw MIME staging fence is unavailable before acceptance'')))"

definition markRawStageCommitted :: "string option \<Rightarrow> unit act_in" where
  "markRawStageCommitted rawStorageKey =
     (case rawStorageKey of
        None \<Rightarrow> ret ()
      | Some k \<Rightarrow> bnd (update_stages (stage_in k StageActive) (\<lambda>r. r\<lparr>rs_state := StageCommitted\<rparr>)) (\<lambda>n.
          require (n = 1) (ServiceUnavailable ''Inbound raw MIME staging fence changed before ledger commit'')))"

text \<open>The transaction that ends a successful acceptance: the reservation of a referenced file goes.\<close>

definition finalize_stage :: "string \<Rightarrow> unit act_in" where
  "finalize_stage k =
     db_txn (
       bnd (reads (stage_of k)) (\<lambda>stage.
       bnd (reads (referenced k)) (\<lambda>reference.
       sq (require reference (ServiceUnavailable ''Inbound raw MIME ledger pointer missing during finalization''))
      (case stage of
         None \<Rightarrow> ret ()
       | Some r \<Rightarrow>
           sq (require (rs_state r = StageCommitted)
                (ServiceUnavailable ''Inbound raw MIME stage is not COMMITTED after acceptance''))
          (bnd (delete_stages (stage_in k StageCommitted)) (\<lambda>n.
           require (n = 1) (ServiceUnavailable ''Inbound raw MIME stage changed during finalization'')))))))"

definition finalizeAcceptedRawStage :: "inbound_env \<Rightarrow> string option \<Rightarrow> unit act_in" where
  "finalizeAcceptedRawStage en rawStorageKey =
     (case rawStorageKey of
        None \<Rightarrow> ret ()
      | Some k \<Rightarrow>
          if \<not> ie_rawStorage en then ret ()
          else catch_act (sq (commit_marker en k) (finalize_stage k)) (\<lambda>_. ret ()))"
section \<open>The reaper\<close>

definition claimExpiredRawMimeStages :: "inbound_env \<Rightarrow> string list \<Rightarrow> unit act_in" where
  "claimExpiredRawMimeStages en keys =
     (if keys = [] then ret ()
      else db_txn (
        let expired = (\<lambda>r. rs_storageKey r \<in> set keys \<and> rs_state r = StageActive \<and> rs_leaseExpiresAt r < ie_now en) in
        bnd (reads (\<lambda>x. map rs_storageKey (filter expired (ib_stages x)))) (\<lambda>claimed.
          if claimed = [] then ret ()
          else bnd (update_stages (\<lambda>r. expired r \<and> rs_storageKey r \<in> set claimed) (\<lambda>r. r\<lparr>rs_state := StageReaping\<rparr>)) (\<lambda>n.
            require (n = length claimed) (ServiceUnavailable ''Inbound raw MIME stage changed during cleanup'')))))"

text \<open>
  The first transaction of a finalization: what is to be done with the key. A row that another
  transaction holds is skipped, so the caller may see no row although there is one: \<open>locked\<close>.
\<close>

datatype stage_verdict = KeepStage | StageSettled | ReapFile | NoStage

definition judge_stage :: "bool \<Rightarrow> string \<Rightarrow> stage_verdict act_in" where
  "judge_stage locked storageKey =
     db_txn (
       bnd (reads (stage_of storageKey)) (\<lambda>z.
         case (if locked then None else z) of
           None \<Rightarrow> ret NoStage
         | Some r \<Rightarrow>
             if rs_state r = StageActive then ret KeepStage
             else bnd (reads (referenced storageKey)) (\<lambda>reference.
               if rs_state r = StageCommitted then
                 (if \<not> reference then ret KeepStage
                  else bnd (delete_stages (stage_in storageKey StageCommitted)) (\<lambda>n.
                    sq (require (n = 1) (ServiceUnavailable ''Inbound raw MIME stage changed during finalization''))
                       (ret StageSettled)))
               else ret (if reference then KeepStage else ReapFile))))"

definition finalizeRawMimeStage :: "inbound_env \<Rightarrow> string \<Rightarrow> bool act_in" where
  "finalizeRawMimeStage en storageKey =
     (if \<not> ie_rawStorage en then ret False
      else catch_act
        (bnd (judge_stage False storageKey) (\<lambda>verdict.
          case verdict of
            StageSettled \<Rightarrow> ret True
          | KeepStage \<Rightarrow> ret False
          | ReapFile \<Rightarrow>
              sq (removeFile en storageKey)
             (bnd (delete_stages (stage_in storageKey StageReaping)) (\<lambda>_. ret True))
          | NoStage \<Rightarrow>
              bnd (reads (stage_of storageKey)) (\<lambda>visible.
                if visible \<noteq> None then ret False
                else bnd (reads (referenced storageKey)) (\<lambda>reference.
                  if reference then ret True
                  else sq (removeFile en storageKey) (ret True)))))
        (\<lambda>_. ret False))"

definition reap_candidate :: "inbound_env \<Rightarrow> raw_stage \<Rightarrow> bool" where
  "reap_candidate en r \<longleftrightarrow>
     rs_state r = StageReaping \<or> rs_state r = StageCommitted \<or> (rs_state r = StageActive \<and> rs_leaseExpiresAt r < ie_now en)"

definition cleanupUncommittedRawStorage :: "inbound_env \<Rightarrow> unit act_in" where
  "cleanupUncommittedRawStorage en =
     (if \<not> ie_rawStorage en then ret ()
      else
       bnd (catch_act (listPending en 100 (ie_now en - 15 * 60000)) (\<lambda>_. ret [])) (\<lambda>pendingKeys.
       bnd (reads (\<lambda>x. map rs_storageKey (take 100 (sort_key rs_leaseExpiresAt (filter (reap_candidate en) (ib_stages x)))))) (\<lambda>stageKeys.
       let candidates = take 100 (js_set (pendingKeys @ stageKeys)) in
       if candidates = [] then ret ()
       else
         catch_act
           (sq (claimExpiredRawMimeStages en candidates)
           (bnd (each (\<lambda>storageKey.
                  bnd (finalizeRawMimeStage en storageKey) (\<lambda>finalized.
                    if \<not> finalized then ret ()
                    else catch_act (commit_marker en storageKey) (\<lambda>_. ret ()))) candidates) (\<lambda>_. ret ())))
           (\<lambda>_. ret ()))))"

section \<open>Retention\<close>

definition prune_candidate :: "time \<Rightarrow> delivery \<Rightarrow> bool" where
  "prune_candidate cutoff v \<longleftrightarrow>
     dv_state v \<in> {DProcessed, DSkipped} \<and> dv_rawPrunedAt v = None \<and> dv_createdAt v < cutoff"

definition mark_pruned :: "inbound_env \<Rightarrow> nat list \<Rightarrow> nat act_in" where
  "mark_pruned en ids =
     update_deliveries en (\<lambda>v. dv_id v \<in> set ids \<and> dv_rawPrunedAt v = None)
       (\<lambda>v. v\<lparr>dv_rawMime := None, dv_rawPrunedAt := Some (ie_now en)\<rparr>)"

definition forget_key :: "inbound_env \<Rightarrow> nat \<Rightarrow> string \<Rightarrow> nat act_in" where
  "forget_key en i k =
     update_deliveries en (\<lambda>v. dv_id v = i \<and> dv_rawStorageKey v = Some k) (\<lambda>v. v\<lparr>dv_rawStorageKey := None\<rparr>)"

definition cleanupPrunedRawStorage :: "inbound_env \<Rightarrow> unit act_in" where
  "cleanupPrunedRawStorage en =
     (if \<not> ie_rawStorage en then ret ()
      else
       bnd (reads (\<lambda>x. take 100 (sort_key dv_id (filter (\<lambda>v. dv_rawPrunedAt v \<noteq> None \<and> dv_rawStorageKey v \<noteq> None) (ib_deliveries x))))) (\<lambda>rows.
       bnd (each (\<lambda>v.
         case dv_rawStorageKey v of
           None \<Rightarrow> ret ()
         | Some k \<Rightarrow> if k = '''' then ret ()
             else catch_act (sq (remove_raw en k) (bnd (forget_key en (dv_id v) k) (\<lambda>_. ret ()))) (\<lambda>_. ret ())) rows) (\<lambda>_. ret ())))"

definition pruneRawMime :: "inbound_env \<Rightarrow> unit act_in" where
  "pruneRawMime en =
     sq (if ie_rawRetentionDays en = 0 then ret ()
         else bnd (reads (\<lambda>x. map dv_id (take 100 (sort_key dv_id
                (filter (prune_candidate (ie_now en - int (ie_rawRetentionDays en) * 24 * 60 * 60000)) (ib_deliveries x)))))) (\<lambda>candidates.
           when_act (candidates \<noteq> []) (bnd (mark_pruned en candidates) (\<lambda>_. ret ()))))
    (sq (cleanupPrunedRawStorage en)
        (cleanupUncommittedRawStorage en))"

end
