(* ===== verification/ImapAccept.thy ===== *)
theory ImapAccept
  imports RawStage
begin

text \<open>
  Acceptance of a message into the ledger (\<open>acceptImapMessage\<close>, \<open>ingestRawMessage\<close> and their helpers in
  \<open>inbound.service.ts\<close>). A poller works on a snapshot of its queue, which is a copy of the row; the
  acceptance transaction locks the row as the snapshot shows it, so a queue that was edited,
  reconciled or halted in between admits nothing.
\<close>

section \<open>Preview of a captured message\<close>

record imap_envelope =
  iv_subject :: "string option"
  iv_messageId :: "string option"
  iv_from :: "string option list"       \<comment> \<open>the address of each sender entry\<close>

record capture_metadata =
  cm_observedMessageId :: "string option"
  cm_envelopeFrom :: "string option"
  cm_subject :: "string option"

definition no_metadata :: capture_metadata where
  "no_metadata = \<lparr>cm_observedMessageId = None, cm_envelopeFrom = None, cm_subject = None\<rparr>"

definition preview_subject :: "string \<Rightarrow> string" where
  "preview_subject s =
     trim (collapse_spaces (map (\<lambda>c. if code_of c \<in> {0, 10, 13} then CHR '' '' else c) (take MAX_SUBJECT_CHARS s)))"

definition captureImapEnvelopeMetadata :: "imap_envelope option \<Rightarrow> capture_metadata" where
  "captureImapEnvelopeMetadata envelope =
     (case envelope of
        None \<Rightarrow> no_metadata
      | Some e \<Rightarrow>
          \<lparr>cm_observedMessageId = (case iv_messageId e of None \<Rightarrow> None | Some m \<Rightarrow> normalizeMessageId m),
           cm_envelopeFrom = List.find isPlausibleEmail (map normalizeEmail (List.map_filter id (iv_from e))),
           cm_subject =
             (case iv_subject e of
                None \<Rightarrow> None
              | Some s \<Rightarrow> if preview_subject s = '''' then None else Some (preview_subject s))\<rparr>)"

section \<open>Routing snapshot\<close>

definition stale_snapshot :: error where
  "stale_snapshot = Failure ''IMAP queue changed before delivery acceptance''"

definition imap_collision :: error where
  "imap_collision = Failure ''IMAP transport collision''"

definition routing_entry_of :: "mail_queue \<Rightarrow> routing_entry" where
  "routing_entry_of q =
     \<lparr>re_id = mq_id q, re_emailAddress = mq_emailAddress q, re_departmentId = mq_departmentId q,
      re_routingPriority = mq_routingPriority q, re_sendAutoresponder = mq_sendAutoresponder q\<rparr>"

definition routing_view :: "inbound_env \<Rightarrow> inbox \<Rightarrow> routing_entry list" where
  "routing_view en x =
     sort_key re_routingPriority (sort_key re_id
       (map routing_entry_of (filter (\<lambda>q. mq_isEnabled q \<and> capture_fence en q \<and> normalizeEmail (mq_emailAddress q) \<noteq> '''') (ib_queues x))))"

definition captureRoutingSnapshot :: "inbound_env \<Rightarrow> mail_queue \<Rightarrow> routing_entry list act_in" where
  "captureRoutingSnapshot en receivingQueue =
     bnd (reads (routing_view en)) (\<lambda>snapshot.
       case find_row (\<lambda>e. re_id e = mq_id receivingQueue) snapshot of
         None \<Rightarrow> throw stale_snapshot
       | Some e \<Rightarrow>
           sq (require (re_emailAddress e = mq_emailAddress receivingQueue \<and>
                re_departmentId e = mq_departmentId receivingQueue \<and>
                re_sendAutoresponder e = mq_sendAutoresponder receivingQueue) stale_snapshot)
              (ret snapshot))"

section \<open>IMAP\<close>

definition imap_key :: "nat \<Rightarrow> nat \<Rightarrow> nat \<Rightarrow> nat \<Rightarrow> string" where
  "imap_key queueId epoch uidValidity uid =
     ''imap:'' @ nat_str queueId @ '':'' @ nat_str epoch @ '':'' @ nat_str uidValidity @ '':'' @ nat_str uid"

text \<open>The row of a snapshot, as the conditional statements of the poller select it.\<close>

definition fenced_row :: "inbound_env \<Rightarrow> mail_queue \<Rightarrow> string \<Rightarrow> mail_queue \<Rightarrow> bool" where
  "fenced_row en snapshot mailbox q \<longleftrightarrow>
     mq_id q = mq_id snapshot \<and> mq_type q = IMAP \<and> mq_isEnabled q \<and> mq_syncState q = SyncOK \<and>
     mq_mailboxEpoch q = mq_mailboxEpoch snapshot \<and> mq_cursorGeneration q = mq_cursorGeneration snapshot \<and>
     mq_configGeneration q = mq_configGeneration snapshot \<and> mq_uidValidity q = mq_uidValidity snapshot \<and>
     mq_mailbox q = mailbox \<and> capture_fence en q"

text \<open>The arguments of one acceptance.\<close>

record acceptance =
  ac_snapshot :: mail_queue
  ac_mailbox :: string
  ac_uidValidity :: nat
  ac_uid :: nat
  ac_source :: string
  ac_metadata :: capture_metadata
  ac_raw :: "string option \<times> string option"

definition is_truncated :: "inbound_env \<Rightarrow> string \<Rightarrow> bool" where
  "is_truncated en source \<longleftrightarrow> length source > ie_maxSizeMb en * 1024 * 1024"

definition ac_key :: "acceptance \<Rightarrow> string" where
  "ac_key a = imap_key (mq_id (ac_snapshot a)) (mq_mailboxEpoch (ac_snapshot a)) (ac_uidValidity a) (ac_uid a)"

definition exact_retry :: "inbound_env \<Rightarrow> acceptance \<Rightarrow> delivery \<Rightarrow> bool" where
  "exact_retry en a v \<longleftrightarrow>
     dv_queueId v = Some (mq_id (ac_snapshot a)) \<and> dv_mailboxEpoch v = Some (mq_mailboxEpoch (ac_snapshot a)) \<and>
     dv_uidValidity v = Some (ac_uidValidity a) \<and> dv_uid v = Some (ac_uid a) \<and>
     dv_contentHash v = ie_sha256 en (ac_source a)"

definition imap_delivery :: "inbound_env \<Rightarrow> acceptance \<Rightarrow> mail_queue \<Rightarrow> routing_entry list \<Rightarrow> nat \<Rightarrow> delivery" where
  "imap_delivery en a lockedQueue routingSnapshot i =
     (let truncated = is_truncated en (ac_source a);
          attended = truncated \<or> inboundCaptureOnlyEnabled en in
      \<lparr>dv_id = i, dv_transport = IMAP, dv_queueId = Some (mq_id (ac_snapshot a)), dv_transportKey = ac_key a,
       dv_mailboxEpoch = Some (mq_mailboxEpoch (ac_snapshot a)), dv_uidValidity = Some (ac_uidValidity a),
       dv_uid = Some (ac_uid a), dv_externalId = None,
       dv_observedMessageId = cm_observedMessageId (ac_metadata a), dv_messageIdHash = None, dv_semanticHash = None,
       dv_contentHash = ie_sha256 en (ac_source a), dv_envelopeFrom = cm_envelopeFrom (ac_metadata a),
       dv_envelopeTo = Some (mq_emailAddress lockedQueue),
       dv_subject = (case cm_subject (ac_metadata a) of None \<Rightarrow> '''' | Some s \<Rightarrow> s),
       dv_departmentId = mq_departmentId lockedQueue, dv_sendAutoresponder = Some (mq_sendAutoresponder lockedQueue),
       dv_routingSnapshot = routingSnapshot, dv_routedQueueId = Some (mq_id lockedQueue),
       dv_routedDepartmentId = mq_departmentId lockedQueue,
       dv_ownerKind = (if attended \<and> mq_departmentId lockedQueue \<noteq> None then RECEIVING else UNRESOLVED),
       dv_ownerDepartmentId = (if attended then mq_departmentId lockedQueue else None), dv_ownerTicketId = None,
       dv_rawMime = fst (ac_raw a), dv_rawStorageKey = snd (ac_raw a), dv_rawPrunedAt = None,
       dv_truncated = truncated, dv_sizeBytes = length (ac_source a),
       dv_state = (if truncated then DQuarantined else if inboundCaptureOnlyEnabled en then DCaptured else DAccepted),
       dv_capturePromotedAt = None, dv_attempts = 0,
       dv_lastError = (if truncated then Some ''oversized: the fetched raw MIME is truncated at the size ceiling'' else None),
       dv_nextAttemptAt = None, dv_leaseOwner = None, dv_leaseExpiresAt = None, dv_ticketId = None, dv_postId = None,
       dv_createdAt = ie_now en, dv_updatedAt = ie_now en, dv_processedAt = None\<rparr>)"

definition insert_delivery :: "(nat \<Rightarrow> delivery) \<Rightarrow> nat act_in" where
  "insert_delivery f =
     bnd (reads ib_seq_delivery) (\<lambda>i.
       sq (modify (\<lambda>x. x\<lparr>ib_deliveries := ib_deliveries x @ [f i], ib_seq_delivery := Suc i\<rparr>)) (ret i))"

datatype accept_outcome = Accepted | Duplicate | Collision

text \<open>The tail of the transaction when the row was inserted; capture retires its queue with it.\<close>

definition settle_accepted :: "inbound_env \<Rightarrow> acceptance \<Rightarrow> accept_outcome act_in" where
  "settle_accepted en a =
     sq (markRawStageCommitted (snd (ac_raw a)))
    (sq (if \<not> inboundCaptureOnlyEnabled en then ret ()
         else bnd (update_queues (fenced_row en (ac_snapshot a) (ac_mailbox a))
                    (\<lambda>q. q\<lparr>mq_isEnabled := False,
                           mq_lastError := Some ''Capture-only queue retired after its one retained message''\<rparr>)) (\<lambda>n.
                require (n = 1) stale_snapshot))
    (ret Accepted))"

text \<open>The tail when the key is taken by another message: halt the queue and record it.\<close>

definition settle_conflict :: "inbound_env \<Rightarrow> acceptance \<Rightarrow> accept_outcome act_in" where
  "settle_conflict en a =
     bnd (reads (delivery_by_key (ac_key a))) (\<lambda>prior.
       if (case prior of None \<Rightarrow> False | Some v \<Rightarrow> exact_retry en a v) then ret Duplicate
       else bnd (update_queues (fenced_row en (ac_snapshot a) (ac_mailbox a))
              (\<lambda>q. q\<lparr>mq_syncState := NEEDS_RECONCILIATION, mq_reconcileCause := Some TRANSPORT_COLLISION,
                     mq_reconcileRequestedAt := None,
                     mq_lastError := Some ''IMAP transport collision: queue halted for explicit reconcile''\<rparr>)) (\<lambda>n.
         sq (require (n = 1) stale_snapshot)
        (sq (create_audit \<lparr>ia_action = ''mail.transport_collision'', ia_queueId = Some (mq_id (ac_snapshot a)), ia_deliveryId = None,
               ia_actorStaffId = None, ia_reason = Some ''IMAP transport identity reused with different content''\<rparr>)
        (ret Collision))))"

definition accept_tx :: "inbound_env \<Rightarrow> acceptance \<Rightarrow> accept_outcome act_in" where
  "accept_tx en a =
     db_txn (
       bnd (reads (\<lambda>x. find_row (fenced_row en (ac_snapshot a) (ac_mailbox a)) (ib_queues x))) (\<lambda>current.
       case current of
         None \<Rightarrow> throw stale_snapshot
       | Some lockedQueue \<Rightarrow>
           sq (require (mq_emailAddress lockedQueue = mq_emailAddress (ac_snapshot a) \<and>
                mq_departmentId lockedQueue = mq_departmentId (ac_snapshot a) \<and>
                mq_sendAutoresponder lockedQueue = mq_sendAutoresponder (ac_snapshot a)) stale_snapshot)
          (bnd (reads (delivery_by_key (ac_key a))) (\<lambda>existingTransport.
           if (case existingTransport of None \<Rightarrow> False | Some v \<Rightarrow> exact_retry en a v) then ret Duplicate
           else
             sq (when_act (existingTransport = None) (assertCaptureCapacity en (mq_id (ac_snapshot a))))
            (bnd (captureRoutingSnapshot en lockedQueue) (\<lambda>routingSnapshot.
             sq (lockRawStageForAcceptance (snd (ac_raw a)))
                (if existingTransport = None
                 then bnd (insert_delivery (imap_delivery en a lockedQueue routingSnapshot)) (\<lambda>_. settle_accepted en a)
                 else settle_conflict en a)))))))"

text \<open>What is refused before anything is written.\<close>

definition accept_gate :: "inbound_env \<Rightarrow> mail_queue \<Rightarrow> nat \<Rightarrow> unit act_in" where
  "accept_gate en snapshot uidValidity =
     sq (require (inboundAcceptanceEnabled en) (ServiceUnavailable ''Inbound acceptance is temporarily disabled''))
    (sq (require (acceptsQueue en (mq_id snapshot))
          (ServiceUnavailable ''This IMAP queue is outside the active inbound scope''))
        (require (mq_type snapshot = IMAP \<and> mq_isEnabled snapshot \<and> mq_syncState snapshot = SyncOK \<and>
           mq_uidValidity snapshot = Some uidValidity \<and> capture_fence en snapshot) stale_snapshot))"

definition acceptImapMessage ::
  "inbound_env \<Rightarrow> mail_queue \<Rightarrow> nat \<Rightarrow> nat \<Rightarrow> string \<Rightarrow> imap_envelope option \<Rightarrow> accept_outcome act_in" where
  "acceptImapMessage en snapshot uidValidity uid source envelope =
     sq (accept_gate en snapshot uidValidity)
    (bnd (captureMailbox en snapshot) (\<lambda>mailbox.
     bnd (persistRawMime en source (mq_id snapshot) (inboundCaptureOnlyEnabled en)) (\<lambda>raw.
     let a = \<lparr>ac_snapshot = snapshot, ac_mailbox = mailbox, ac_uidValidity = uidValidity, ac_uid = uid, ac_source = source,
              ac_metadata = (if inboundCaptureOnlyEnabled en then captureImapEnvelopeMetadata envelope else no_metadata),
              ac_raw = raw\<rparr> in
     bnd (catch_act (accept_tx en a) (\<lambda>e. sq (discardRawStage en (snd raw)) (throw e))) (\<lambda>outcome.
       if outcome = Accepted then sq (finalizeAcceptedRawStage en (snd raw)) (ret outcome)
       else sq (discardRawStage en (snd raw))
              (if outcome = Collision then throw imap_collision else ret outcome)))))"

text \<open>A UIDVALIDITY halt with its audit entry; whether the queue still was as the snapshot shows it.\<close>

definition haltImapSnapshot :: "inbound_env \<Rightarrow> mail_queue \<Rightarrow> reconcile_cause \<Rightarrow> string \<Rightarrow> bool act_in" where
  "haltImapSnapshot en snapshot cause message =
     bnd (captureMailbox en snapshot) (\<lambda>mailbox.
       db_txn (
         bnd (update_queues (fenced_row en snapshot mailbox)
                (\<lambda>q. q\<lparr>mq_syncState := NEEDS_RECONCILIATION, mq_reconcileCause := Some cause,
                       mq_reconcileRequestedAt := None, mq_lastError := Some message\<rparr>)) (\<lambda>n.
           if n \<noteq> 1 then ret False
           else sq (create_audit \<lparr>ia_action = ''mail.reconcile_failed'', ia_queueId = Some (mq_id snapshot), ia_deliveryId = None,
                      ia_actorStaffId = None, ia_reason = Some message\<rparr>) (ret True))))"

section \<open>PIPE\<close>

definition PIPE_DELIVERY_ID_MAX_BYTES :: nat where "PIPE_DELIVERY_ID_MAX_BYTES = 256"

definition is_pipe_char :: "char \<Rightarrow> bool" where
  "is_pipe_char c \<longleftrightarrow> is_alnum c \<or> c \<in> set ''._:@/+?=-''"

text \<open>Delivery ids are ASCII once they pass, so the byte length is the length.\<close>

definition normalizePipeDeliveryId :: "string option \<Rightarrow> error + string" where
  "normalizePipeDeliveryId value =
     (let normalized = (case value of None \<Rightarrow> '''' | Some v \<Rightarrow> trim v) in
      if normalized = '''' then Inl (BadRequest ''x-inbound-delivery-id is required for PIPE ingress'')
      else if length normalized > PIPE_DELIVERY_ID_MAX_BYTES then
        Inl (BadRequest ''x-inbound-delivery-id must be at most 256 UTF-8 bytes'')
      else if \<not> (is_alnum (hd normalized) \<and> list_all is_pipe_char normalized) then
        Inl (BadRequest ''x-inbound-delivery-id contains unsupported characters'')
      else Inr normalized)"

definition lift_sum :: "error + 'a \<Rightarrow> 'a act_in" where
  "lift_sum z = (case z of Inl e \<Rightarrow> throw e | Inr v \<Rightarrow> ret v)"

definition pipe_key :: "inbound_env \<Rightarrow> nat \<Rightarrow> string \<Rightarrow> string" where
  "pipe_key en queueId externalId = ''pipe:'' @ nat_str queueId @ '':id-sha256:'' @ ie_sha256 en externalId"

record pipe_request =
  pp_queueId :: nat
  pp_departmentId :: "nat option option"   \<comment> \<open>what an internal caller claims\<close>
  pp_externalId :: string
  pp_source :: string
  pp_raw :: "string option \<times> string option"

definition pipe_delivery :: "inbound_env \<Rightarrow> pipe_request \<Rightarrow> mail_queue \<Rightarrow> routing_entry list \<Rightarrow> nat \<Rightarrow> delivery" where
  "pipe_delivery en p queue routingSnapshot i =
     \<lparr>dv_id = i, dv_transport = PIPE, dv_queueId = Some (mq_id queue), dv_transportKey = pipe_key en (pp_queueId p) (pp_externalId p),
      dv_mailboxEpoch = None, dv_uidValidity = None, dv_uid = None, dv_externalId = Some (pp_externalId p),
      dv_observedMessageId = None, dv_messageIdHash = None, dv_semanticHash = None,
      dv_contentHash = ie_sha256 en (pp_source p), dv_envelopeFrom = None, dv_envelopeTo = Some (mq_emailAddress queue),
      dv_subject = '''', dv_departmentId = mq_departmentId queue, dv_sendAutoresponder = Some (mq_sendAutoresponder queue),
      dv_routingSnapshot = routingSnapshot, dv_routedQueueId = Some (mq_id queue), dv_routedDepartmentId = mq_departmentId queue,
      dv_ownerKind = UNRESOLVED, dv_ownerDepartmentId = None, dv_ownerTicketId = None,
      dv_rawMime = fst (pp_raw p), dv_rawStorageKey = snd (pp_raw p), dv_rawPrunedAt = None,
      dv_truncated = False, dv_sizeBytes = length (pp_source p), dv_state = DAccepted, dv_capturePromotedAt = None,
      dv_attempts = 0, dv_lastError = None, dv_nextAttemptAt = None, dv_leaseOwner = None, dv_leaseExpiresAt = None,
      dv_ticketId = None, dv_postId = None, dv_createdAt = ie_now en, dv_updatedAt = ie_now en, dv_processedAt = None\<rparr>"

text \<open>The result is the delivery, its department, and whether it was there already.\<close>

definition pipe_tx :: "inbound_env \<Rightarrow> pipe_request \<Rightarrow> (nat \<times> nat option \<times> bool) act_in" where
  "pipe_tx en p =
     db_txn (
       bnd (reads (\<lambda>x. find_row (\<lambda>q. mq_id q = pp_queueId p \<and> mq_type q = PIPE \<and> mq_isEnabled q \<and> mq_captureRetiredAt q = None) (ib_queues x))) (\<lambda>locked.
       case locked of
         None \<Rightarrow> throw (Conflict ''Inbound PIPE queue changed while delivery was accepted; retry after reload'')
       | Some queue \<Rightarrow>
           sq (require (case pp_departmentId p of None \<Rightarrow> True | Some said \<Rightarrow> said = mq_departmentId queue)
                (Conflict ''Inbound PIPE queue department changed while delivery was accepted''))
          (bnd (reads (delivery_by_key (pipe_key en (pp_queueId p) (pp_externalId p)))) (\<lambda>existing.
           case existing of
             Some v \<Rightarrow>
               if dv_contentHash v = ie_sha256 en (pp_source p) then ret (dv_id v, mq_departmentId queue, True)
               else sq (captureRoutingSnapshot en queue)
                   (sq (lockRawStageForAcceptance (snd (pp_raw p)))
                       (throw (UniqueViolation ''transportKey'')))
           | None \<Rightarrow>
               bnd (captureRoutingSnapshot en queue) (\<lambda>routingSnapshot.
               sq (lockRawStageForAcceptance (snd (pp_raw p)))
              (bnd (insert_delivery (pipe_delivery en p queue routingSnapshot)) (\<lambda>i.
               sq (markRawStageCommitted (snd (pp_raw p)))
                  (ret (i, mq_departmentId queue, False)))))))))"

definition recordInboundCollision :: "nat \<Rightarrow> nat option \<Rightarrow> string \<Rightarrow> unit act_in" where
  "recordInboundCollision queueId deliveryId reason =
     create_audit \<lparr>ia_action = ''mail.transport_collision'', ia_queueId = Some queueId, ia_deliveryId = deliveryId,
       ia_actorStaffId = None, ia_reason = Some reason\<rparr>"

text \<open>A failed transaction: a reused delivery id with the same bytes is a repeated delivery.\<close>

definition pipe_failure :: "inbound_env \<Rightarrow> pipe_request \<Rightarrow> error \<Rightarrow> (nat \<times> nat option \<times> bool) act_in" where
  "pipe_failure en p e =
     sq (discardRawStage en (snd (pp_raw p)))
       (case e of
          UniqueViolation _ \<Rightarrow>
            bnd (reads (delivery_by_key (pipe_key en (pp_queueId p) (pp_externalId p)))) (\<lambda>prior.
              case prior of
                None \<Rightarrow>
                  sq (recordInboundCollision (pp_queueId p) None
                        ''PIPE delivery-id collision could not be verified against a prior transport row'')
                     (throw (Conflict ''Inbound delivery collision could not be verified safely''))
              | Some v \<Rightarrow>
                  if dv_contentHash v \<noteq> ie_sha256 en (pp_source p) then
                    sq (recordInboundCollision (pp_queueId p) (Some (dv_id v))
                          ''PIPE delivery id was reused with different message content'')
                       (throw (Conflict ''Inbound delivery id already used for a different message (contentHash mismatch)''))
                  else ret (dv_id v, None, True))
        | _ \<Rightarrow> throw e)"

definition pipe_gate :: "inbound_env \<Rightarrow> string \<Rightarrow> nat option option \<Rightarrow> string option \<Rightarrow> nat option \<Rightarrow> (mail_queue \<times> string) act_in" where
  "pipe_gate en source departmentId externalId queueId =
     sq (require (inboundAcceptanceEnabled en) (ServiceUnavailable ''Inbound acceptance is temporarily disabled''))
    (sq (require (\<not> inboundCaptureOnlyEnabled en) (ServiceUnavailable ''PIPE ingress is disabled during IMAP capture-only mode''))
    (sq (require (\<not> is_truncated en source) (PayloadTooLarge ''Inbound message exceeds the configured size limit''))
    (case queueId of
       None \<Rightarrow> throw (BadRequest ''x-inbound-queue-id is required for PIPE ingress'')
     | Some i \<Rightarrow>
         sq (require (acceptsQueue en i) (ServiceUnavailable ''This PIPE queue is outside the active inbound scope''))
        (bnd (lift_sum (normalizePipeDeliveryId externalId)) (\<lambda>normalizedExternalId.
         bnd (reads (queue_by_id i)) (\<lambda>z.
         case z of
           None \<Rightarrow> throw (BadRequest ''Unknown inbound queue id'')
         | Some q \<Rightarrow>
             sq (require (mq_isEnabled q) (BadRequest ''Inbound PIPE queue is disabled''))
            (sq (require (mq_type q = PIPE) (BadRequest ''Inbound queue must have type PIPE''))
            (sq (require (mq_captureRetiredAt q = None)
                  (Conflict ''Inbound PIPE queue was permanently retired after capture-only use; create a new queue instead''))
            (sq (require (case departmentId of None \<Rightarrow> True | Some said \<Rightarrow> said = mq_departmentId q)
                  (BadRequest ''PIPE department must match the bound queue''))
                (ret (q, normalizedExternalId)))))))))))"

text \<open>\<open>process\<close> is \<open>processDelivery\<close>, of the delivery and its department.\<close>

definition ingestRawMessage ::
  "inbound_env \<Rightarrow> (nat \<Rightarrow> nat option \<Rightarrow> unit act_in) \<Rightarrow> string \<Rightarrow> nat option option \<Rightarrow> string option \<Rightarrow> nat option \<Rightarrow> unit act_in" where
  "ingestRawMessage en process source departmentId externalId queueId =
     bnd (pipe_gate en source departmentId externalId queueId) (\<lambda>(q, normalizedExternalId).
     bnd (persistRawMime en source (mq_id q) False) (\<lambda>raw.
     let p = \<lparr>pp_queueId = mq_id q, pp_departmentId = departmentId, pp_externalId = normalizedExternalId, pp_source = source, pp_raw = raw\<rparr> in
     bnd (catch_act (pipe_tx en p) (pipe_failure en p)) (\<lambda>(i, dep, duplicate).
       if duplicate then discardRawStage en (snd raw)
       else sq (finalizeAcceptedRawStage en (snd raw))
              (when_act (inboundProcessingEnabled en) (process i dep)))))"

section \<open>A sample mailbox\<close>

definition no_live :: queue_live where
  "no_live = \<lparr>ql_lastConnectionAttemptAt = None, ql_lastConnectedAt = None, ql_lastDisconnectedAt = None,
     ql_lastConnectionErrorAt = None, ql_lastPollStartedAt = None, ql_lastPollAt = None, ql_lastPollCompletedAt = None,
     ql_lastAcceptedAt = None\<rparr>"

definition sample_queue :: mail_queue where
  "sample_queue = \<lparr>mq_id = 2, mq_type = IMAP, mq_emailAddress = ''noc@example.com'', mq_host = ''imap.example.com'', mq_port = 993,
     mq_username = ''noc'', mq_passwordEnc = '''', mq_useTls = True, mq_mailbox = ''INBOX'', mq_departmentId = Some 10,
     mq_signature = '''', mq_routingPriority = 100, mq_sendAutoresponder = False, mq_configGeneration = 0, mq_isEnabled = True,
     mq_lastSeenUid = 4, mq_uidValidity = Some 77, mq_syncState = SyncOK, mq_lastError = None, mq_cursorGeneration = 0,
     mq_mailboxEpoch = 2, mq_reconcileCause = None, mq_reconcileRequestedAt = None, mq_bootstrapPolicy = None,
     mq_bootstrapBackfillLimit = None, mq_captureRetiredAt = None, mq_live = no_live\<rparr>"

definition sample_inbox :: inbox where
  "sample_inbox = \<lparr>ib_queues = [sample_queue], ib_deliveries = [], ib_stages = [], ib_claims = [], ib_audit = [],
     ib_volume = \<lparr>rv_files = [], rv_temps = [], rv_markers = []\<rparr>, ib_seq_delivery = 2, ib_seq_queue = 3\<rparr>"

definition sample_env :: inbound_env where
  "sample_env = \<lparr>ie_now = 1700000000000, ie_deliveryEnabled = True, ie_captureOnlyEnabled = False, ie_captureQueueId = None,
     ie_captureMaxMessages = None, ie_canaryQueueId = None, ie_canaryDeliveryId = None, ie_encryptionKey = None,
     ie_maxSizeMb = 25, ie_maxAttempts = 5, ie_rawRetentionDays = 0, ie_bootstrapPolicy = PolicyFromNow, ie_backfillLimit = 50,
     ie_defaultDepartmentId = None, ie_sha256 = (\<lambda>s. CHR ''h'' # s), ie_rawStorage = True, ie_volumeWrites = True,
     ie_volumeReads = True, ie_volumeRemoves = True, ie_freshKey = ''inbound-raw/k1.eml'', ie_leaseToken = ''lease''\<rparr>"

definition sample_source :: string where
  "sample_source = ''Subject: hello''"

definition sample_acceptance :: "string option \<times> string option \<Rightarrow> acceptance" where
  "sample_acceptance raw = \<lparr>ac_snapshot = sample_queue, ac_mailbox = ''INBOX'', ac_uidValidity = 77, ac_uid = 5,
     ac_source = sample_source, ac_metadata = no_metadata, ac_raw = raw\<rparr>"

text \<open>An acceptance against a queue that is still as the snapshot shows it.\<close>

lemma accept_tx_runs:
  assumes "find_row (fenced_row en (ac_snapshot a) (ac_mailbox a)) (ib_queues x) = Some q"
    and "mq_emailAddress q = mq_emailAddress (ac_snapshot a)" "mq_departmentId q = mq_departmentId (ac_snapshot a)"
    and "mq_sendAutoresponder q = mq_sendAutoresponder (ac_snapshot a)"
    and "delivery_by_key (ac_key a) x = None" "\<not> inboundCaptureOnlyEnabled en"
    and "captureRoutingSnapshot en q x = (Inr s, x)" "lockRawStageForAcceptance (snd (ac_raw a)) x = (Inr (), x)"
    and "markRawStageCommitted (snd (ac_raw a))
      (x\<lparr>ib_deliveries := ib_deliveries x @ [imap_delivery en a q s (ib_seq_delivery x)], ib_seq_delivery := Suc (ib_seq_delivery x)\<rparr>) = (Inr (), x')"
  shows "accept_tx en a x = (Inr Accepted, x')"
  by (simp add: accept_tx_def db_txn_def act_defs assertCaptureCapacity_def insert_delivery_def settle_accepted_def assms)

lemma sample_snapshot:
  assumes "ib_queues x = [sample_queue]"
  shows "captureRoutingSnapshot sample_env sample_queue x = (Inr [routing_entry_of sample_queue], x)"
proof -
  have "normalizeEmail (mq_emailAddress sample_queue) \<noteq> ''''"
    by (simp add: sample_queue_def normalizeEmail_def trim_by_def is_ascii_space_def code_of_def lower_def lower_char_def Let_def)
  then have "routing_view sample_env x = [routing_entry_of sample_queue]"
    by (simp add: routing_view_def assms capture_fence_def inboundCaptureOnlyEnabled_def sample_env_def sample_queue_def)
  then show ?thesis
    by (simp add: captureRoutingSnapshot_def act_defs routing_entry_of_def)
qed

end
