(* ===== verification/RawSafety.thy ===== *)
theory RawSafety
  imports ImapAccept
begin

text \<open>
  Writers, discards, reapers and retention run in different processes and stop anywhere. The world of
  this theory interleaves their transactions and their operations on the volume one at a time; the
  theorem is that the bytes of an accepted message survive all of it until retention marks them
  as pruned.
\<close>

section \<open>Tasks\<close>

text \<open>Where a run of one of the procedures stands: what it will do next.\<close>

datatype raw_task =
    Reserved string string         \<comment> \<open>a writer holds the reservation of a key and has the bytes to write\<close>
  | Written string string          \<comment> \<open>\<dots> wrote the temporary file\<close>
  | Published string string        \<comment> \<open>\<dots> published the file and will run the acceptance\<close>
  | Finalizing string
  | Discarding string
  | DiscardRemove string
  | DiscardDelete string
  | Candidates "string list"
  | Reaping string
  | ReapRemove string
  | ReapDelete string
  | ReapLook string
  | ReapRefer string
  | ReapOrphan string
  | PruneFile nat string
  | PruneForget nat string

fun task_keys :: "raw_task \<Rightarrow> string set" where
  "task_keys (Reserved k b) = {k}"
| "task_keys (Written k b) = {k}"
| "task_keys (Published k b) = {k}"
| "task_keys (Finalizing k) = {k}"
| "task_keys (Discarding k) = {k}"
| "task_keys (DiscardRemove k) = {k}"
| "task_keys (DiscardDelete k) = {k}"
| "task_keys (Candidates ks) = set ks"
| "task_keys (Reaping k) = {k}"
| "task_keys (ReapRemove k) = {k}"
| "task_keys (ReapDelete k) = {k}"
| "task_keys (ReapLook k) = {k}"
| "task_keys (ReapRefer k) = {k}"
| "task_keys (ReapOrphan k) = {k}"
| "task_keys (PruneFile i k) = {k}"
| "task_keys (PruneForget i k) = {k}"

fun writer_keys :: "raw_task list \<Rightarrow> string list" where
  "writer_keys [] = []"
| "writer_keys (Reserved k b # ts) = k # writer_keys ts"
| "writer_keys (Written k b # ts) = k # writer_keys ts"
| "writer_keys (Published k b # ts) = k # writer_keys ts"
| "writer_keys (_ # ts) = writer_keys ts"

record raw_world =
  rw_box :: inbox
  rw_tasks :: "raw_task list"
  rw_used :: "string set"        \<comment> \<open>the keys drawn so far\<close>

section \<open>Steps\<close>

definition volume_of :: "(raw_volume \<Rightarrow> raw_volume) \<Rightarrow> inbox \<Rightarrow> inbox" where
  "volume_of f x = x\<lparr>ib_volume := f (ib_volume x)\<rparr>"

text \<open>What a row of the ledger says about its bytes.\<close>

definition raw_facts :: "delivery \<Rightarrow> nat \<times> string option \<times> string option \<times> string \<times> time option" where
  "raw_facts v = (dv_id v, dv_rawStorageKey v, dv_rawMime v, dv_contentHash v, dv_rawPrunedAt v)"

definition same_raw :: "inbox \<Rightarrow> inbox \<Rightarrow> bool" where
  "same_raw x x' \<longleftrightarrow> ib_stages x' = ib_stages x \<and> ib_volume x' = ib_volume x \<and>
     map raw_facts (ib_deliveries x') = map raw_facts (ib_deliveries x)"

text \<open>
  \<open>raw_step H w w'\<close>: one transaction or one operation on the volume, of any process with any clock
  and configuration; \<open>H\<close> is the hash of all of them. \<open>stop\<close> is a process that dies or a call that
  fails; \<open>elsewhere\<close> is a step of the rest of the program, which leaves the bytes and their
  reservations alone.
\<close>

inductive raw_step :: "(string \<Rightarrow> string) \<Rightarrow> raw_world \<Rightarrow> raw_world \<Rightarrow> bool" for H where
  reserve: "k \<notin> U \<Longrightarrow> reserveRawMimeStage en queueId k fence x = (Inr (), x') \<Longrightarrow>
    raw_step H \<lparr>rw_box = x, rw_tasks = T, rw_used = U\<rparr> \<lparr>rw_box = x', rw_tasks = T @ [Reserved k b], rw_used = insert k U\<rparr>"
| put: "x' = volume_of (put_temp en k b) x \<Longrightarrow>
    raw_step H \<lparr>rw_box = x, rw_tasks = T @ Reserved k b # T', rw_used = U\<rparr> \<lparr>rw_box = x', rw_tasks = T @ Written k b # T', rw_used = U\<rparr>"
| publish: "publishRawMimeStage en k (publish_file k) x = (Inr (), x') \<Longrightarrow>
    raw_step H \<lparr>rw_box = x, rw_tasks = T @ Written k b # T', rw_used = U\<rparr> \<lparr>rw_box = x', rw_tasks = T @ Published k b # T', rw_used = U\<rparr>"
| refused: "publishRawMimeStage en k (publish_file k) x = (Inl e, x1) \<Longrightarrow> x' = volume_of (drop_marker k \<circ> drop_temp k) x1 \<Longrightarrow>
    raw_step H \<lparr>rw_box = x, rw_tasks = T @ Written k b # T', rw_used = U\<rparr> \<lparr>rw_box = x', rw_tasks = T @ Discarding k # T', rw_used = U\<rparr>"
| accept_imap: "accept_tx en a x = (r, x') \<Longrightarrow> ie_sha256 en = H \<Longrightarrow> ac_source a = b \<Longrightarrow> ac_raw a = (None, Some k) \<Longrightarrow>
    raw_step H \<lparr>rw_box = x, rw_tasks = T @ Published k b # T', rw_used = U\<rparr>
      \<lparr>rw_box = x', rw_tasks = T @ (if r = Inr Accepted then Finalizing k else Discarding k) # T', rw_used = U\<rparr>"
| accept_imap_inline: "accept_tx en a x = (r, x') \<Longrightarrow> ie_sha256 en = H \<Longrightarrow> ac_raw a = (Some (ac_source a), None) \<Longrightarrow>
    raw_step H \<lparr>rw_box = x, rw_tasks = T, rw_used = U\<rparr> \<lparr>rw_box = x', rw_tasks = T, rw_used = U\<rparr>"
| accept_pipe: "pipe_tx en p x = (r, x') \<Longrightarrow> ie_sha256 en = H \<Longrightarrow> pp_source p = b \<Longrightarrow> pp_raw p = (None, Some k) \<Longrightarrow>
    raw_step H \<lparr>rw_box = x, rw_tasks = T @ Published k b # T', rw_used = U\<rparr>
      \<lparr>rw_box = x', rw_tasks = T @ (case r of Inr (i, dep, False) \<Rightarrow> Finalizing k | _ \<Rightarrow> Discarding k) # T', rw_used = U\<rparr>"
| accept_pipe_inline: "pipe_tx en p x = (r, x') \<Longrightarrow> ie_sha256 en = H \<Longrightarrow> pp_raw p = (Some (pp_source p), None) \<Longrightarrow>
    raw_step H \<lparr>rw_box = x, rw_tasks = T, rw_used = U\<rparr> \<lparr>rw_box = x', rw_tasks = T, rw_used = U\<rparr>"
| finalize: "finalize_stage k x = (r, x') \<Longrightarrow>
    raw_step H \<lparr>rw_box = x, rw_tasks = T @ Finalizing k # T', rw_used = U\<rparr> \<lparr>rw_box = x', rw_tasks = T @ T', rw_used = U\<rparr>"
| discard: "claim_discard k x = (Inr True, x') \<Longrightarrow>
    raw_step H \<lparr>rw_box = x, rw_tasks = T @ Discarding k # T', rw_used = U\<rparr> \<lparr>rw_box = x', rw_tasks = T @ DiscardRemove k # T', rw_used = U\<rparr>"
| discard_remove: "removeFile en k x = (Inr (), x') \<Longrightarrow>
    raw_step H \<lparr>rw_box = x, rw_tasks = T @ DiscardRemove k # T', rw_used = U\<rparr> \<lparr>rw_box = x', rw_tasks = T @ DiscardDelete k # T', rw_used = U\<rparr>"
| discard_delete: "delete_stages (stage_in k StageReaping) x = (Inr n, x') \<Longrightarrow>
    raw_step H \<lparr>rw_box = x, rw_tasks = T @ DiscardDelete k # T', rw_used = U\<rparr> \<lparr>rw_box = x', rw_tasks = T @ T', rw_used = U\<rparr>"
| scan: "set ks \<subseteq> fst ` set (rv_markers (ib_volume x)) \<union> rs_storageKey ` set (ib_stages x) \<Longrightarrow>
    raw_step H \<lparr>rw_box = x, rw_tasks = T, rw_used = U\<rparr> \<lparr>rw_box = x, rw_tasks = T @ [Candidates ks], rw_used = U\<rparr>"
| claim_expired: "claimExpiredRawMimeStages en ks x = (Inr (), x') \<Longrightarrow>
    raw_step H \<lparr>rw_box = x, rw_tasks = T @ Candidates ks # T', rw_used = U\<rparr> \<lparr>rw_box = x', rw_tasks = T @ map Reaping ks @ T', rw_used = U\<rparr>"
| judge: "judge_stage locked k x = (Inr verdict, x') \<Longrightarrow>
    raw_step H \<lparr>rw_box = x, rw_tasks = T @ Reaping k # T', rw_used = U\<rparr>
      \<lparr>rw_box = x', rw_tasks = T @ (case verdict of ReapFile \<Rightarrow> [ReapRemove k] | NoStage \<Rightarrow> [ReapLook k] | _ \<Rightarrow> []) @ T', rw_used = U\<rparr>"
| reap_remove: "removeFile en k x = (Inr (), x') \<Longrightarrow>
    raw_step H \<lparr>rw_box = x, rw_tasks = T @ ReapRemove k # T', rw_used = U\<rparr> \<lparr>rw_box = x', rw_tasks = T @ ReapDelete k # T', rw_used = U\<rparr>"
| reap_delete: "delete_stages (stage_in k StageReaping) x = (Inr n, x') \<Longrightarrow>
    raw_step H \<lparr>rw_box = x, rw_tasks = T @ ReapDelete k # T', rw_used = U\<rparr> \<lparr>rw_box = x', rw_tasks = T @ T', rw_used = U\<rparr>"
| look: "stage_of k x = None \<Longrightarrow>
    raw_step H \<lparr>rw_box = x, rw_tasks = T @ ReapLook k # T', rw_used = U\<rparr> \<lparr>rw_box = x, rw_tasks = T @ ReapRefer k # T', rw_used = U\<rparr>"
| refer: "\<not> referenced k x \<Longrightarrow>
    raw_step H \<lparr>rw_box = x, rw_tasks = T @ ReapRefer k # T', rw_used = U\<rparr> \<lparr>rw_box = x, rw_tasks = T @ ReapOrphan k # T', rw_used = U\<rparr>"
| orphan: "removeFile en k x = (Inr (), x') \<Longrightarrow>
    raw_step H \<lparr>rw_box = x, rw_tasks = T @ ReapOrphan k # T', rw_used = U\<rparr> \<lparr>rw_box = x', rw_tasks = T @ T', rw_used = U\<rparr>"
| unmark: "commit_marker en k x = (Inr (), x') \<Longrightarrow>
    raw_step H \<lparr>rw_box = x, rw_tasks = T, rw_used = U\<rparr> \<lparr>rw_box = x', rw_tasks = T, rw_used = U\<rparr>"
| prune: "mark_pruned en ids x = (Inr n, x') \<Longrightarrow>
    raw_step H \<lparr>rw_box = x, rw_tasks = T, rw_used = U\<rparr> \<lparr>rw_box = x', rw_tasks = T, rw_used = U\<rparr>"
| prune_list: "v \<in> set (ib_deliveries x) \<Longrightarrow> dv_rawPrunedAt v \<noteq> None \<Longrightarrow> dv_rawStorageKey v = Some k \<Longrightarrow>
    raw_step H \<lparr>rw_box = x, rw_tasks = T, rw_used = U\<rparr> \<lparr>rw_box = x, rw_tasks = T @ [PruneFile (dv_id v) k], rw_used = U\<rparr>"
| prune_file: "remove_raw en k x = (Inr (), x') \<Longrightarrow>
    raw_step H \<lparr>rw_box = x, rw_tasks = T @ PruneFile i k # T', rw_used = U\<rparr> \<lparr>rw_box = x', rw_tasks = T @ PruneForget i k # T', rw_used = U\<rparr>"
| prune_forget: "forget_key en i k x = (Inr n, x') \<Longrightarrow>
    raw_step H \<lparr>rw_box = x, rw_tasks = T @ PruneForget i k # T', rw_used = U\<rparr> \<lparr>rw_box = x', rw_tasks = T @ T', rw_used = U\<rparr>"
| stop: "raw_step H \<lparr>rw_box = x, rw_tasks = T @ t # T', rw_used = U\<rparr> \<lparr>rw_box = x, rw_tasks = T @ T', rw_used = U\<rparr>"
| elsewhere: "same_raw x x' \<Longrightarrow>
    raw_step H \<lparr>rw_box = x, rw_tasks = T, rw_used = U\<rparr> \<lparr>rw_box = x', rw_tasks = T, rw_used = U\<rparr>"

definition raw_start :: "raw_world \<Rightarrow> bool" where
  "raw_start w \<longleftrightarrow> ib_deliveries (rw_box w) = [] \<and> ib_stages (rw_box w) = [] \<and> rv_markers (ib_volume (rw_box w)) = [] \<and>
     rw_tasks w = [] \<and> rw_used w = {}"

inductive raw_reachable :: "(string \<Rightarrow> string) \<Rightarrow> raw_world \<Rightarrow> bool" for H where
  start: "raw_start w \<Longrightarrow> raw_reachable H w"
| step: "raw_reachable H w \<Longrightarrow> raw_step H w w' \<Longrightarrow> raw_reachable H w'"

text \<open>The bytes behind a row of the ledger.\<close>

definition raw_bytes :: "inbox \<Rightarrow> delivery \<Rightarrow> string option" where
  "raw_bytes x v = (case dv_rawStorageKey v of None \<Rightarrow> dv_rawMime v | Some k \<Rightarrow> map_of (rv_files (ib_volume x)) k)"

section \<open>The invariant\<close>

abbreviation active :: "string \<Rightarrow> inbox \<Rightarrow> bool" where
  "active k x \<equiv> has_stage k StageActive x"

abbreviation file_at :: "string \<Rightarrow> inbox \<Rightarrow> string option" where
  "file_at k x \<equiv> map_of (rv_files (ib_volume x)) k"

abbreviation temp_at :: "string \<Rightarrow> inbox \<Rightarrow> string option" where
  "temp_at k x \<equiv> map_of (rv_temps (ib_volume x)) k"

text \<open>No acceptance can use the key any more and no row needs its file.\<close>

definition removable :: "string \<Rightarrow> inbox \<Rightarrow> bool" where
  "removable k x \<longleftrightarrow> \<not> active k x \<and>
     (\<forall>v \<in> set (ib_deliveries x). dv_rawStorageKey v = Some k \<longrightarrow> dv_rawPrunedAt v \<noteq> None)"

fun task_ok :: "inbox \<Rightarrow> raw_task \<Rightarrow> bool" where
  "task_ok x (Written k b) = (active k x \<longrightarrow> temp_at k x = Some b)"
| "task_ok x (Published k b) = (active k x \<longrightarrow> file_at k x = Some b)"
| "task_ok x (DiscardRemove k) = removable k x"
| "task_ok x (ReapRemove k) = removable k x"
| "task_ok x (ReapOrphan k) = removable k x"
| "task_ok x (PruneFile i k) = removable k x"
| "task_ok x (PruneForget i k) = removable k x"
| "task_ok x (ReapRefer k) = (\<not> active k x)"
| "task_ok x _ = True"

definition keys_known :: "string set \<Rightarrow> inbox \<Rightarrow> bool" where
  "keys_known U x \<longleftrightarrow> rs_storageKey ` set (ib_stages x) \<subseteq> U \<and> fst ` set (rv_markers (ib_volume x)) \<subseteq> U \<and>
     (\<forall>v \<in> set (ib_deliveries x). \<forall>k. dv_rawStorageKey v = Some k \<longrightarrow> k \<in> U)"

definition alike :: "delivery \<Rightarrow> delivery \<Rightarrow> bool" where
  "alike v v' \<longleftrightarrow> raw_facts v = raw_facts v'"

definition one_row :: "inbox \<Rightarrow> bool" where
  "one_row x \<longleftrightarrow> (\<forall>v \<in> set (ib_deliveries x). \<forall>v' \<in> set (ib_deliveries x). \<forall>k.
     dv_rawStorageKey v = Some k \<and> dv_rawStorageKey v' = Some k \<longrightarrow> alike v v')"

definition unused_active :: "inbox \<Rightarrow> bool" where
  "unused_active x \<longleftrightarrow> (\<forall>k. active k x \<longrightarrow> \<not> referenced k x)"

definition bytes_kept :: "(string \<Rightarrow> string) \<Rightarrow> inbox \<Rightarrow> bool" where
  "bytes_kept H x \<longleftrightarrow> (\<forall>v \<in> set (ib_deliveries x). dv_rawPrunedAt v = None \<longrightarrow>
     (\<exists>b. raw_bytes x v = Some b \<and> H b = dv_contentHash v))"

definition box_ok :: "(string \<Rightarrow> string) \<Rightarrow> string set \<Rightarrow> inbox \<Rightarrow> bool" where
  "box_ok H U x \<longleftrightarrow> distinct (map rs_storageKey (ib_stages x)) \<and> keys_known U x \<and> one_row x \<and> unused_active x \<and> bytes_kept H x"

definition tasks_ok :: "string set \<Rightarrow> inbox \<Rightarrow> raw_task list \<Rightarrow> bool" where
  "tasks_ok U x T \<longleftrightarrow> distinct (writer_keys T) \<and> (\<forall>t \<in> set T. task_keys t \<subseteq> U \<and> task_ok x t)"

definition raw_inv :: "(string \<Rightarrow> string) \<Rightarrow> raw_world \<Rightarrow> bool" where
  "raw_inv H w \<longleftrightarrow> box_ok H (rw_used w) (rw_box w) \<and> tasks_ok (rw_used w) (rw_box w) (rw_tasks w)"

text \<open>
  A step is calm for the tasks of the others: no key becomes active but new ones, rows get their key
  from an active reservation or had it, and the files of active keys stay, but for the own keys.
\<close>

definition calm :: "string set \<Rightarrow> string set \<Rightarrow> inbox \<Rightarrow> inbox \<Rightarrow> bool" where
  "calm new own x x' \<longleftrightarrow>
     (\<forall>k. active k x' \<longrightarrow> active k x \<or> k \<in> new) \<and>
     (\<forall>v' \<in> set (ib_deliveries x'). \<forall>k. dv_rawStorageKey v' = Some k \<longrightarrow>
        active k x \<or> (\<exists>v \<in> set (ib_deliveries x). dv_rawStorageKey v = Some k \<and> (dv_rawPrunedAt v \<noteq> None \<longrightarrow> dv_rawPrunedAt v' \<noteq> None))) \<and>
     (\<forall>k. active k x' \<and> k \<notin> own \<longrightarrow> file_at k x' = file_at k x \<and> temp_at k x' = temp_at k x)"

lemma calm_removable: "calm new own x x' \<Longrightarrow> k \<notin> new \<Longrightarrow> removable k x \<Longrightarrow> removable k x'"
  unfolding calm_def removable_def by blast

lemma calm_active: "calm new own x x' \<Longrightarrow> k \<notin> new \<Longrightarrow> active k x' \<Longrightarrow> active k x"
  unfolding calm_def by blast

lemma calm_files: "calm new own x x' \<Longrightarrow> k \<notin> own \<Longrightarrow> active k x' \<Longrightarrow> file_at k x' = file_at k x \<and> temp_at k x' = temp_at k x"
  unfolding calm_def by blast

lemma calm_task:
  assumes "calm new own x x'" "task_ok x t" "task_keys t \<inter> new = {}" "set (writer_keys [t]) \<inter> own = {}"
  shows "task_ok x' t"
  using assms
  by (cases t) (auto dest: calm_removable calm_active simp: calm_files)

lemma writer_keys_append [simp]: "writer_keys (T @ T') = writer_keys T @ writer_keys T'"
  by (induction T rule: writer_keys.induct) simp_all

lemma writer_keys_member: "t \<in> set T \<Longrightarrow> set (writer_keys [t]) \<subseteq> set (writer_keys T)"
proof -
  assume "t \<in> set T"
  then obtain A B where "T = A @ [t] @ B" by (metis append_Cons append_Nil split_list)
  then show ?thesis by (metis Un_upper1 Un_upper2 set_append subset_trans writer_keys_append)
qed

text \<open>The common shape of the steps: one task is replaced, the others stay.\<close>

lemma tasks_step:
  assumes "tasks_ok U x (T @ t # T')" "calm new own x x'" "new \<inter> U = {}" "own \<subseteq> set (writer_keys [t])"
    and "\<And>s. s \<in> set S \<Longrightarrow> task_keys s \<subseteq> task_keys t \<and> task_ok x' s"
    and "writer_keys S = [] \<or> writer_keys S = writer_keys [t]"
  shows "tasks_ok U x' (T @ S @ T')"
proof -
  have dist: "distinct (writer_keys T @ writer_keys [t] @ writer_keys T')"
    and old: "\<And>s. s \<in> set (T @ t # T') \<Longrightarrow> task_keys s \<subseteq> U \<and> task_ok x s"
    using assms(1) writer_keys_append [of "[t]" T'] by (auto simp: tasks_ok_def)
  have "task_ok x' s" if "s \<in> set T \<or> s \<in> set T'" for s
  proof (rule calm_task [OF assms(2)])
    show "task_ok x s" "task_keys s \<inter> new = {}" using old that assms(3) by (auto 4 3)
    show "set (writer_keys [s]) \<inter> own = {}"
      using that writer_keys_member [of s T] writer_keys_member [of s T'] dist assms(4) by (auto 4 3)
  qed
  moreover have "distinct (writer_keys (T @ S @ T'))"
    using dist assms(6) by auto
  ultimately show ?thesis
    using old assms(5) by (fastforce simp: tasks_ok_def)
qed

lemma tasks_same:
  assumes "tasks_ok U x T" "calm {} {} x x'"
  shows "tasks_ok U x' T"
  using assms calm_task [OF assms(2)] by (auto simp: tasks_ok_def)

lemma tasks_grow: "tasks_ok U x T \<Longrightarrow> U \<subseteq> U' \<Longrightarrow> tasks_ok U' x T"
  unfolding tasks_ok_def by blast

lemma calm_refl: "calm {} {} x x"
  unfolding calm_def by auto

section \<open>Effects of the steps\<close>

subsection \<open>Reservations shrink\<close>

text \<open>The rows and the volume stay, the reservations lose keys or leave the active state.\<close>

definition shrinks :: "inbox \<Rightarrow> inbox \<Rightarrow> bool" where
  "shrinks x x' \<longleftrightarrow> ib_deliveries x' = ib_deliveries x \<and> ib_volume x' = ib_volume x \<and>
     (distinct (map rs_storageKey (ib_stages x)) \<longrightarrow> distinct (map rs_storageKey (ib_stages x'))) \<and>
     rs_storageKey ` set (ib_stages x') \<subseteq> rs_storageKey ` set (ib_stages x) \<and> (\<forall>k. active k x' \<longrightarrow> active k x)"

lemma shrinks_calm: "shrinks x x' \<Longrightarrow> calm {} {} x x'"
  unfolding shrinks_def calm_def by auto

lemma shrinks_box:
  assumes "shrinks x x'" "box_ok H U x"
  shows "box_ok H U x'"
proof -
  have eq: "ib_deliveries x' = ib_deliveries x" "ib_volume x' = ib_volume x"
    using assms(1) by (simp_all add: shrinks_def)
  have "keys_known U x'"
    using assms by (simp add: shrinks_def box_ok_def keys_known_def) (elim conjE, erule (1) subset_trans)
  moreover have "one_row x'" "bytes_kept H x'"
    using assms(2) by (simp_all add: box_ok_def one_row_def bytes_kept_def raw_bytes_def eq cong: option.case_cong)
  moreover have "unused_active x'"
    using assms by (simp add: shrinks_def box_ok_def unused_active_def referenced_def)
  moreover have "distinct (map rs_storageKey (ib_stages x'))"
    using assms by (simp add: shrinks_def box_ok_def)
  ultimately show ?thesis by (simp add: box_ok_def)
qed

lemma has_stage_iff: "has_stage k st x \<longleftrightarrow> (\<exists>r \<in> set (ib_stages x). rs_storageKey r = k \<and> rs_state r = st)"
  by (auto simp: has_stage_def stage_in_def list_ex_iff)

lemma distinct_delete: "distinct (map f rows) \<Longrightarrow> distinct (map f (delete_rows p rows))"
  by (induction rows) (auto simp: delete_rows_def)

lemma shrinks_refl: "shrinks x x"
  by (simp add: shrinks_def)

lemma shrinks_delete: "shrinks x (x\<lparr>ib_stages := delete_rows p (ib_stages x)\<rparr>)"
  by (auto simp: shrinks_def has_stage_iff set_delete_rows distinct_delete)

lemma shrinks_update:
  assumes "\<And>r. rs_storageKey (f r) = rs_storageKey r" "\<And>r. p r \<Longrightarrow> rs_state (f r) = StageActive \<Longrightarrow> rs_state r = StageActive"
  shows "shrinks x (x\<lparr>ib_stages := update_rows p f (ib_stages x)\<rparr>)"
proof -
  let ?x = "x\<lparr>ib_stages := update_rows p f (ib_stages x)\<rparr>"
  have "active k x" if a: "active k ?x" for k
  proof -
    obtain r where "r \<in> set (ib_stages x)" "rs_storageKey (if p r then f r else r) = k" "rs_state (if p r then f r else r) = StageActive"
      using a by (auto simp: has_stage_iff update_rows_def)
    then show ?thesis using assms by (auto simp: has_stage_iff split: if_splits)
  qed
  moreover have "rs_storageKey ` set (ib_stages ?x) = rs_storageKey ` set (ib_stages x)"
    using map_update_rows [of rs_storageKey f p "ib_stages x", OF assms(1)] by (metis inbox.select_convs(3) inbox.surjective inbox.update_convs(3) list.set_map)
  ultimately show ?thesis
    by (simp add: shrinks_def distinct_map_update [of rs_storageKey, OF assms(1)])
qed

lemma update_stages_run: "update_stages p f x = (Inr n, x\<lparr>ib_stages := update_rows p f (ib_stages x)\<rparr>) \<longleftrightarrow> n = count_rows p (ib_stages x)"
  by (auto simp: update_stages_def act_defs)

lemma delete_stages_run: "delete_stages p x = (Inr n, x') \<longleftrightarrow> n = count_rows p (ib_stages x) \<and> x' = x\<lparr>ib_stages := delete_rows p (ib_stages x)\<rparr>"
  by (auto simp: delete_stages_def act_defs)

lemma db_txn_run: "db_txn m x = (Inr r, x') \<longleftrightarrow> m x = (Inr r, x')"
  by (auto simp: db_txn_def split: prod.splits sum.splits)

lemma claim_discard_shrinks: "claim_discard k x = (Inr c, x') \<Longrightarrow> shrinks x x'"
  by (auto simp: claim_discard_def db_txn_run update_stages_def act_defs shrinks_refl intro!: shrinks_update split: if_splits)

lemma finalize_stage_shrinks: "finalize_stage k x = (r, x') \<Longrightarrow> shrinks x x'"
  by (auto simp: finalize_stage_def db_txn_def delete_stages_def act_defs shrinks_refl shrinks_delete split: if_splits option.splits)

lemma claimExpired_shrinks: "claimExpiredRawMimeStages en ks x = (Inr (), x') \<Longrightarrow> shrinks x x'"
  by (auto simp: claimExpiredRawMimeStages_def db_txn_run update_stages_def act_defs shrinks_refl intro!: shrinks_update split: if_splits)

lemma judge_shrinks: "judge_stage locked k x = (Inr verdict, x') \<Longrightarrow> shrinks x x'"
  by (auto simp: judge_stage_def db_txn_run delete_stages_def act_defs shrinks_refl shrinks_delete split: if_splits option.splits)

subsection \<open>Files are removed\<close>

lemma drop_file_box:
  assumes "removable k x" "box_ok H U x"
  shows "box_ok H U (volume_of (drop_file k) x)"
proof -
  have "raw_bytes (volume_of (drop_file k) x) v = raw_bytes x v"
    if "v \<in> set (ib_deliveries x)" "dv_rawPrunedAt v = None" for v
    using that assms(1) by (auto simp: raw_bytes_def volume_of_def drop_file_def removable_def delete_conv' split: option.splits)
  then have "bytes_kept H (volume_of (drop_file k) x)"
    using assms(2) by (auto simp: box_ok_def bytes_kept_def volume_of_def)
  then show ?thesis
    using assms(2) by (simp add: box_ok_def keys_known_def one_row_def unused_active_def has_stage_def referenced_def volume_of_def drop_file_def)
qed

lemma drop_file_calm: "removable k x \<Longrightarrow> calm {} {} x (volume_of (drop_file k) x)"
  by (auto simp: calm_def removable_def has_stage_def volume_of_def drop_file_def delete_conv')

lemma removeFile_run: "removeFile en k x = (Inr (), x') \<Longrightarrow> x' = volume_of (drop_file k) x"
  by (auto simp: removeFile_def upd_volume_def volume_of_def act_defs split: if_splits)

lemma drop_marker_box: "box_ok H U x \<Longrightarrow> box_ok H U (volume_of (drop_marker k) x)"
  by (auto simp: AList.delete_eq box_ok_def keys_known_def one_row_def unused_active_def bytes_kept_def raw_bytes_def has_stage_def referenced_def
      volume_of_def drop_marker_def cong: option.case_cong)

lemma drop_marker_calm: "calm {} {} x (volume_of (drop_marker k) x)"
  by (auto simp: calm_def has_stage_def volume_of_def drop_marker_def)

lemma commit_marker_run: "commit_marker en k x = (Inr (), x') \<Longrightarrow> x' = volume_of (drop_marker k) x"
  by (auto simp: commit_marker_def upd_volume_def volume_of_def act_defs split: if_splits)

subsection \<open>Files are written\<close>

lemma put_box: "k \<in> U \<Longrightarrow> box_ok H U x \<Longrightarrow> box_ok H U (volume_of (put_temp en k b) x)"
  by (auto simp: box_ok_def keys_known_def one_row_def unused_active_def bytes_kept_def raw_bytes_def has_stage_def referenced_def
      volume_of_def put_temp_def dom_update cong: option.case_cong)

lemma put_calm: "calm {} {k} x (volume_of (put_temp en k b) x)"
  by (auto simp: calm_def has_stage_def volume_of_def put_temp_def update_conv')

lemma publish_run:
  assumes "publishRawMimeStage en k (publish_file k) x = (Inr (), x')"
  shows "\<exists>b. active k x \<and> temp_at k x = Some b \<and>
    x' = volume_of (rename_temp k b) x\<lparr>ib_stages := update_rows (stage_in k StageActive) (\<lambda>r. r\<lparr>rs_leaseExpiresAt := ie_now en + RAW_STAGING_LEASE_MS\<rparr>) (ib_stages x)\<rparr>"
  using assms
  by (auto simp: publishRawMimeStage_def publish_file_def db_txn_run upd_volume_def volume_of_def update_stages_def run_rules
      split: option.splits)

lemma rename_box:
  assumes "active k x" "box_ok H U x"
  shows "box_ok H U (volume_of (rename_temp k b) x)"
proof -
  have "raw_bytes (volume_of (rename_temp k b) x) v = raw_bytes x v" if "v \<in> set (ib_deliveries x)" for v
  proof -
    have "dv_rawStorageKey v \<noteq> Some k"
      using that assms by (auto simp: box_ok_def unused_active_def referenced_def list_ex_iff)
    then show ?thesis by (auto simp: raw_bytes_def volume_of_def rename_temp_def update_conv' split: option.splits)
  qed
  then have "bytes_kept H (volume_of (rename_temp k b) x)"
    using assms(2) by (auto simp: box_ok_def bytes_kept_def volume_of_def)
  then show ?thesis
    using assms(2) by (simp add: box_ok_def keys_known_def one_row_def unused_active_def has_stage_def referenced_def volume_of_def rename_temp_def)
qed

lemma rename_calm: "calm {} {k} x (volume_of (rename_temp k b) x)"
  by (auto simp: calm_def has_stage_def volume_of_def rename_temp_def update_conv' delete_conv')

lemma calm_trans:
  assumes a: "calm {} own x x1" and b: "calm {} {} x1 x2"
  shows "calm {} own x x2"
proof -
  have up: "active k x2 \<Longrightarrow> active k x1" "active k x1 \<Longrightarrow> active k x" for k
    using a b by (simp_all add: calm_def)
  have "active k x \<or> (\<exists>v \<in> set (ib_deliveries x). dv_rawStorageKey v = Some k \<and> (dv_rawPrunedAt v \<noteq> None \<longrightarrow> dv_rawPrunedAt v' \<noteq> None))"
    if new: "v' \<in> set (ib_deliveries x2)" "dv_rawStorageKey v' = Some k" for v' k
  proof (cases "active k x1")
    case True
    then show ?thesis using up by blast
  next
    case False
    then obtain v1 where v1: "v1 \<in> set (ib_deliveries x1)" "dv_rawStorageKey v1 = Some k" "dv_rawPrunedAt v1 \<noteq> None \<longrightarrow> dv_rawPrunedAt v' \<noteq> None"
      using b new unfolding calm_def by blast
    then show ?thesis using a unfolding calm_def by blast
  qed
  moreover have "file_at k x2 = file_at k x \<and> temp_at k x2 = temp_at k x" if "active k x2" "k \<notin> own" for k
    using calm_files [OF b _ that(1)] calm_files [OF a that(2) up(1) [OF that(1)]] by simp
  ultimately show ?thesis unfolding calm_def using up by blast
qed

lemma one_active:
  assumes "active k x" "distinct (map rs_storageKey (ib_stages x))"
  shows "count_rows (stage_in k st) (ib_stages x) \<le> 1" "count_rows (stage_in k StageActive) (ib_stages x) = 1"
proof -
  show le: "count_rows (stage_in k st) (ib_stages x) \<le> 1" for st
    by (rule count_rows_distinct [OF assms(2), where i = k]) (simp add: stage_in_def)
  have "count_rows (stage_in k StageActive) (ib_stages x) \<noteq> 0"
    using assms(1) by (auto simp: count_rows_0_iff has_stage_def list_ex_iff)
  then show "count_rows (stage_in k StageActive) (ib_stages x) = 1"
    using le [of StageActive] by linarith
qed

lemma refused_run:
  assumes "publishRawMimeStage en k (publish_file k) x = (Inl e, x1)" "distinct (map rs_storageKey (ib_stages x))"
  shows "x1 = x"
proof (cases "active k x")
  case True
  with one_active(2) [OF True assms(2)] assms(1) show ?thesis
    by (auto simp: publishRawMimeStage_def publish_file_def db_txn_def upd_volume_def update_stages_def act_defs split: option.splits)
next
  case False
  with assms(1) show ?thesis by (auto simp: publishRawMimeStage_def db_txn_def act_defs)
qed

lemma drop_temp_box: "box_ok H U x \<Longrightarrow> box_ok H U (volume_of (drop_temp k) x)"
  by (simp add: box_ok_def keys_known_def one_row_def unused_active_def bytes_kept_def raw_bytes_def has_stage_def referenced_def
      volume_of_def drop_temp_def cong: option.case_cong)

lemma drop_temp_calm: "calm {} {k} x (volume_of (drop_temp k) x)"
  by (auto simp: calm_def has_stage_def volume_of_def drop_temp_def delete_conv')

lemma reserve_run:
  assumes "reserveRawMimeStage en queueId k fence x = (Inr (), x')"
  shows "\<exists>r. rs_storageKey r = k \<and> x' = x\<lparr>ib_stages := ib_stages x @ [r]\<rparr>"
  by (rule exI [of _ "\<lparr>rs_storageKey = k, rs_queueId = Some queueId, rs_state = StageActive,
      rs_leaseExpiresAt = ie_now en + RAW_STAGING_LEASE_MS\<rparr>"])
    (use assms in \<open>auto simp: reserveRawMimeStage_def db_txn_run run_rules\<close>)

lemma reserve_box:
  assumes "k \<notin> U" "box_ok H U x" "rs_storageKey r = k"
  shows "box_ok H (insert k U) (x\<lparr>ib_stages := ib_stages x @ [r]\<rparr>)"
proof -
  have U: "rs_storageKey ` set (ib_stages x) \<subseteq> U" "\<And>v k. v \<in> set (ib_deliveries x) \<Longrightarrow> dv_rawStorageKey v = Some k \<Longrightarrow> k \<in> U"
    using assms(2) by (auto simp: box_ok_def keys_known_def)
  have "unused_active (x\<lparr>ib_stages := ib_stages x @ [r]\<rparr>)"
    using assms U(2) by (auto simp: box_ok_def unused_active_def has_stage_def stage_in_def referenced_def list_ex_iff)
  moreover have "distinct (map rs_storageKey (ib_stages x @ [r]))"
    using assms U(1) by (auto simp: box_ok_def)
  ultimately show ?thesis
    using assms by (auto simp: box_ok_def keys_known_def one_row_def bytes_kept_def raw_bytes_def cong: option.case_cong)
qed

lemma reserve_calm: "rs_storageKey r = k \<Longrightarrow> calm {k} {k} x (x\<lparr>ib_stages := ib_stages x @ [r]\<rparr>)"
  by (auto simp: calm_def has_stage_def stage_in_def)

subsection \<open>Acceptance\<close>

text \<open>An acceptance either leaves the ledger, the reservations and the volume as they are, or adds one
  row with its raw message and turns the reservation of its key into a commitment.\<close>

definition commits :: "string \<Rightarrow> inbox \<Rightarrow> inbox" where
  "commits k x = x\<lparr>ib_stages := update_rows (stage_in k StageActive) (\<lambda>r. r\<lparr>rs_state := StageCommitted\<rparr>) (ib_stages x)\<rparr>"

definition idle_accept :: "inbox \<Rightarrow> inbox \<Rightarrow> bool" where
  "idle_accept x x' \<longleftrightarrow> ib_deliveries x' = ib_deliveries x \<and> ib_stages x' = ib_stages x \<and> ib_volume x' = ib_volume x"

definition adds_row :: "delivery \<Rightarrow> inbox \<Rightarrow> inbox \<Rightarrow> bool" where
  "adds_row v x x' \<longleftrightarrow> ib_deliveries x' = ib_deliveries x @ [v] \<and> ib_volume x' = ib_volume x \<and>
     (case dv_rawStorageKey v of
        None \<Rightarrow> ib_stages x' = ib_stages x
      | Some k \<Rightarrow> active k x \<and> ib_stages x' = ib_stages (commits k x))"

lemma idle_accept_refl: "idle_accept x x"
  by (simp add: idle_accept_def)

lemma db_txn_cases:
  "db_txn m x = (r, x') \<Longrightarrow> (\<And>e x1. r = Inl e \<Longrightarrow> m x = (Inl e, x1) \<Longrightarrow> x' = x\<lparr>ib_volume := ib_volume x1\<rparr> \<Longrightarrow> P) \<Longrightarrow>
   (\<And>v. r = Inr v \<Longrightarrow> m x = (Inr v, x') \<Longrightarrow> P) \<Longrightarrow> P"
  by (auto simp: db_txn_def split: prod.splits sum.splits)

text \<open>None of the operations of an acceptance touches the volume.\<close>

definition volume_same :: "inbox \<Rightarrow> inbox \<Rightarrow> bool" where
  "volume_same x x' \<longleftrightarrow> ib_volume x' = ib_volume x"

interpretation vol: frame volume_same
  by unfold_locales (simp_all add: volume_same_def)

lemma vol_update_queues: "vol.stays (update_queues p f)"
  unfolding update_queues_def by (intro vol.stays_intros vol.stays_modify; simp add: volume_same_def)

lemma vol_update_stages: "vol.stays (update_stages p f)"
  unfolding update_stages_def by (intro vol.stays_intros vol.stays_modify; simp add: volume_same_def)

lemma vol_audit: "vol.stays (create_audit e)"
  unfolding create_audit_def by (intro vol.stays_modify; simp add: volume_same_def)

lemma vol_insert: "vol.stays (insert_delivery f)"
  unfolding insert_delivery_def by (intro vol.stays_intros vol.stays_modify; simp add: volume_same_def)

lemma vol_lock: "vol.stays (lockRawStageForAcceptance z)"
  unfolding lockRawStageForAcceptance_def by (intro vol.stays_intros)

lemma vol_mark: "vol.stays (markRawStageCommitted z)"
  unfolding markRawStageCommitted_def by (intro vol.stays_intros vol_update_stages)

lemma vol_snapshot: "vol.stays (captureRoutingSnapshot en q)"
  unfolding captureRoutingSnapshot_def by (intro vol.stays_intros)

lemma vol_capacity: "vol.stays (assertCaptureCapacity en i)"
  unfolding assertCaptureCapacity_def by (intro vol.stays_intros)

lemma vol_db_txn: "vol.stays m \<Longrightarrow> vol.stays (db_txn m)"
  unfolding vol.stays_def db_txn_def volume_same_def by (auto split: prod.splits sum.splits) (metis snd_conv)+

lemmas vol_intros = vol.stays_intros vol_db_txn vol_update_queues vol_update_stages vol_audit vol_insert vol_lock vol_mark
  vol_snapshot vol_capacity

lemma vol_accept: "vol.stays (accept_tx en a)"
  unfolding accept_tx_def settle_accepted_def settle_conflict_def by (intro vol_intros)

lemma vol_pipe: "vol.stays (pipe_tx en p)"
  unfolding pipe_tx_def by (intro vol_intros)

lemma failed_txn:
  assumes "db_txn m x = (Inl e, x')" "vol.stays (db_txn m)"
  shows "idle_accept x x'"
proof -
  have "ib_volume x' = ib_volume x" using vol.staysD [OF assms(2,1)] by (simp add: volume_same_def)
  then show ?thesis using assms(1) by (auto simp: db_txn_def idle_accept_def split: prod.splits sum.splits)
qed

text \<open>Queues and audit only.\<close>

interpretation led: frame idle_accept
  by unfold_locales (simp_all add: idle_accept_def)

lemma led_update_queues: "led.stays (update_queues p f)"
  unfolding update_queues_def by (intro led.stays_intros led.stays_modify; simp add: idle_accept_def)

lemma led_audit: "led.stays (create_audit e)"
  unfolding create_audit_def by (intro led.stays_modify; simp add: idle_accept_def)

lemma led_conflict: "led.stays (settle_conflict en a)"
  unfolding settle_conflict_def by (intro led.stays_intros led_update_queues led_audit)

lemma led_snapshot: "led.stays (captureRoutingSnapshot en q)"
  unfolding captureRoutingSnapshot_def by (intro led.stays_intros)

lemma led_lock: "led.stays (lockRawStageForAcceptance z)"
  unfolding lockRawStageForAcceptance_def by (intro led.stays_intros)

lemma led_capacity: "led.stays (assertCaptureCapacity en i)"
  unfolding assertCaptureCapacity_def by (intro led.stays_intros)

lemma reads_only_snapshot: "captureRoutingSnapshot en q x = (Inr s, x') \<Longrightarrow> x' = x"
  by (auto simp: captureRoutingSnapshot_def run_rules split: option.splits)

lemma reads_only_lock: "lockRawStageForAcceptance z x = (Inr (), x') \<Longrightarrow> x' = x \<and> (\<forall>k. z = Some k \<longrightarrow> active k x)"
  by (auto simp: lockRawStageForAcceptance_def run_rules split: option.splits)

lemma reads_only_capacity: "assertCaptureCapacity en i x = (Inr (), x') \<Longrightarrow> x' = x"
  by (auto simp: assertCaptureCapacity_def run_rules split: if_splits)

lemma run_when_unit: "when_act b m x = (Inr (), x') \<longleftrightarrow> (if b then m x = (Inr (), x') else x' = x)"
  by (auto simp: when_act_def ret_def)

lemma mark_run:
  "markRawStageCommitted z x = (Inr (), x') \<Longrightarrow>
   x' = (case z of None \<Rightarrow> x | Some k \<Rightarrow> commits k x)"
  by (auto simp: markRawStageCommitted_def update_stages_def commits_def run_rules split: option.splits)

lemma insert_run:
  "insert_delivery f x = (Inr i, x') \<longleftrightarrow>
   i = ib_seq_delivery x \<and> x' = x\<lparr>ib_deliveries := ib_deliveries x @ [f i], ib_seq_delivery := Suc i\<rparr>"
  by (auto simp: insert_delivery_def run_rules)

lemma conflict_not_accepted: "settle_conflict en a x = (Inr out, x') \<Longrightarrow> out \<noteq> Accepted"
  by (auto simp: settle_conflict_def run_rules split: if_splits)

lemma settle_accepted_run:
  assumes "settle_accepted en a x = (Inr out, x')"
  shows "out = Accepted \<and> idle_accept (case snd (ac_raw a) of None \<Rightarrow> x | Some k \<Rightarrow> commits k x) x'"
proof -
  have queues: "led.stays (if \<not> inboundCaptureOnlyEnabled en then ret ()
      else bnd (update_queues p f) (\<lambda>n. require (n = 1) stale_snapshot))" for p f
    by (intro led.stays_intros led_update_queues)
  show ?thesis
    using assms unfolding settle_accepted_def
    by (auto simp: run_sq run_ret dest!: mark_run led.staysD [OF queues])
qed

lemma imap_delivery_raw:
  "dv_rawStorageKey (imap_delivery en a q s i) = snd (ac_raw a)" "dv_rawMime (imap_delivery en a q s i) = fst (ac_raw a)"
  "dv_contentHash (imap_delivery en a q s i) = ie_sha256 en (ac_source a)" "dv_rawPrunedAt (imap_delivery en a q s i) = None"
  by (simp_all add: imap_delivery_def Let_def)

lemma accept_tx_effect:
  assumes "accept_tx en a x = (Inr out, x')"
  shows "if out = Accepted
    then \<exists>v. adds_row v x x' \<and> dv_rawStorageKey v = snd (ac_raw a) \<and> dv_rawMime v = fst (ac_raw a) \<and>
      dv_contentHash v = ie_sha256 en (ac_source a) \<and> dv_rawPrunedAt v = None
    else idle_accept x x'"
proof -
  obtain lockedQueue where run:
    "(if (case delivery_by_key (ac_key a) x of None \<Rightarrow> False | Some v \<Rightarrow> exact_retry en a v) then ret Duplicate
      else sq (when_act (delivery_by_key (ac_key a) x = None) (assertCaptureCapacity en (mq_id (ac_snapshot a))))
            (bnd (captureRoutingSnapshot en lockedQueue) (\<lambda>routingSnapshot.
             sq (lockRawStageForAcceptance (snd (ac_raw a)))
                (if delivery_by_key (ac_key a) x = None
                 then bnd (insert_delivery (imap_delivery en a lockedQueue routingSnapshot)) (\<lambda>_. settle_accepted en a)
                 else settle_conflict en a)))) x = (Inr out, x')"
  proof -
    obtain lockedQueue where "sq (require (mq_emailAddress lockedQueue = mq_emailAddress (ac_snapshot a) \<and>
          mq_departmentId lockedQueue = mq_departmentId (ac_snapshot a) \<and>
          mq_sendAutoresponder lockedQueue = mq_sendAutoresponder (ac_snapshot a)) stale_snapshot)
        (bnd (reads (delivery_by_key (ac_key a))) (\<lambda>existingTransport.
           if (case existingTransport of None \<Rightarrow> False | Some v \<Rightarrow> exact_retry en a v) then ret Duplicate
           else
             sq (when_act (existingTransport = None) (assertCaptureCapacity en (mq_id (ac_snapshot a))))
            (bnd (captureRoutingSnapshot en lockedQueue) (\<lambda>routingSnapshot.
             sq (lockRawStageForAcceptance (snd (ac_raw a)))
                (if existingTransport = None
                 then bnd (insert_delivery (imap_delivery en a lockedQueue routingSnapshot)) (\<lambda>_. settle_accepted en a)
                 else settle_conflict en a))))) x = (Inr out, x')"
      using assms unfolding accept_tx_def db_txn_run run_bnd run_reads
      by (auto simp: run_throw split: option.splits)
    then show thesis
      by (intro that) (subst (asm) run_sq, subst (asm) run_bnd, simp only: run_require run_reads, blast)
  qed
  show ?thesis
  proof (cases "case delivery_by_key (ac_key a) x of None \<Rightarrow> False | Some v \<Rightarrow> exact_retry en a v")
    case True
    with run show ?thesis by (auto simp: run_ret idle_accept_refl)
  next
    case False
    define rest where "rest snap = (if delivery_by_key (ac_key a) x = None
        then bnd (insert_delivery (imap_delivery en a lockedQueue snap)) (\<lambda>_. settle_accepted en a)
        else settle_conflict en a)" for snap
    have "sq (when_act (delivery_by_key (ac_key a) x = None) (assertCaptureCapacity en (mq_id (ac_snapshot a))))
        (bnd (captureRoutingSnapshot en lockedQueue) (\<lambda>s. sq (lockRawStageForAcceptance (snd (ac_raw a))) (rest s))) x = (Inr out, x')"
      using run False unfolding rest_def by simp
    then obtain snap x1 where lock: "lockRawStageForAcceptance (snd (ac_raw a)) x = (Inr (), x1)" and r: "rest snap x1 = (Inr out, x')"
      unfolding run_sq run_bnd by (auto simp: run_when_unit dest!: reads_only_snapshot reads_only_capacity split: if_splits)
    note rest = r [unfolded rest_def]
    have x1: "x1 = x" "\<And>k. snd (ac_raw a) = Some k \<Longrightarrow> active k x"
      using reads_only_lock [OF lock] by auto
    show ?thesis
    proof (cases "delivery_by_key (ac_key a) x = None")
      case False
      with rest x1 have c: "settle_conflict en a x = (Inr out, x')" by simp
      show ?thesis using conflict_not_accepted [OF c] led.staysD [OF led_conflict c] by simp
    next
      case True
      let ?v = "imap_delivery en a lockedQueue snap (ib_seq_delivery x)"
      let ?y = "x\<lparr>ib_deliveries := ib_deliveries x @ [?v], ib_seq_delivery := Suc (ib_seq_delivery x)\<rparr>"
      have "settle_accepted en a ?y = (Inr out, x')"
        using rest x1 True by (auto simp: run_bnd insert_run)
      from settle_accepted_run [OF this] have "out = Accepted" "adds_row ?v x x'"
        using x1(2) by (auto simp: adds_row_def idle_accept_def commits_def imap_delivery_raw split: option.splits)
      then show ?thesis by (auto simp: imap_delivery_raw intro!: exI [of _ ?v])
    qed
  qed
qed

lemma pipe_delivery_raw:
  "dv_rawStorageKey (pipe_delivery en p q s i) = snd (pp_raw p)" "dv_rawMime (pipe_delivery en p q s i) = fst (pp_raw p)"
  "dv_contentHash (pipe_delivery en p q s i) = ie_sha256 en (pp_source p)" "dv_rawPrunedAt (pipe_delivery en p q s i) = None"
  by (simp_all add: pipe_delivery_def)

lemma pipe_tx_effect:
  assumes "pipe_tx en p x = (Inr (i, dep, dup), x')"
  shows "if \<not> dup
    then \<exists>v. adds_row v x x' \<and> dv_rawStorageKey v = snd (pp_raw p) \<and> dv_rawMime v = fst (pp_raw p) \<and>
      dv_contentHash v = ie_sha256 en (pp_source p) \<and> dv_rawPrunedAt v = None
    else idle_accept x x'"
proof -
  obtain queue where run: "(case delivery_by_key (pipe_key en (pp_queueId p) (pp_externalId p)) x of
             Some v \<Rightarrow>
               if dv_contentHash v = ie_sha256 en (pp_source p) then ret (dv_id v, mq_departmentId queue, True)
               else sq (captureRoutingSnapshot en queue)
                   (sq (lockRawStageForAcceptance (snd (pp_raw p)))
                       (throw (UniqueViolation ''transportKey'')))
           | None \<Rightarrow>
               bnd (captureRoutingSnapshot en queue) (\<lambda>routingSnapshot.
               sq (lockRawStageForAcceptance (snd (pp_raw p)))
              (bnd (insert_delivery (pipe_delivery en p queue routingSnapshot)) (\<lambda>i.
               sq (markRawStageCommitted (snd (pp_raw p)))
                  (ret (i, mq_departmentId queue, False)))))) x = (Inr (i, dep, dup), x')"
    using assms unfolding pipe_tx_def db_txn_run run_bnd run_reads
    by (auto simp: run_throw run_sq run_bnd run_reads run_require split: option.splits)
  show ?thesis
  proof (cases "delivery_by_key (pipe_key en (pp_queueId p) (pp_externalId p)) x")
    case (Some v)
    with run show ?thesis by (auto simp: run_sq run_throw run_ret idle_accept_refl split: if_splits)
  next
    case None
    obtain snap x1 x2 where lock: "lockRawStageForAcceptance (snd (pp_raw p)) x = (Inr (), x1)"
      and ins: "insert_delivery (pipe_delivery en p queue snap) x1 = (Inr i, x2)"
      and mark: "markRawStageCommitted (snd (pp_raw p)) x2 = (Inr (), x')" and dup: "\<not> dup"
      using run None by (auto simp: run_sq run_bnd run_ret dest!: reads_only_snapshot)
    let ?v = "pipe_delivery en p queue snap (ib_seq_delivery x)"
    have x1: "x1 = x" "\<And>k. snd (pp_raw p) = Some k \<Longrightarrow> active k x"
      using reads_only_lock [OF lock] by auto
    have "adds_row ?v x x'"
      using ins x1 mark_run [OF mark] by (auto simp: insert_run adds_row_def commits_def pipe_delivery_raw split: option.splits)
    then show ?thesis using dup by (auto simp: pipe_delivery_raw intro!: exI [of _ ?v])
  qed
qed

lemma idle_box: "idle_accept x x' \<Longrightarrow> box_ok H U x \<Longrightarrow> box_ok H U x'"
  by (simp add: idle_accept_def box_ok_def keys_known_def one_row_def unused_active_def bytes_kept_def raw_bytes_def has_stage_def
      referenced_def cong: option.case_cong)

lemma idle_calm: "idle_accept x x' \<Longrightarrow> calm {} {} x x'"
  by (auto simp: idle_accept_def calm_def has_stage_def)

lemma commits_shrinks: "shrinks x (commits k x)"
  unfolding commits_def by (rule shrinks_update) (simp_all add: stage_in_def)

lemma update_rows_gone: "(\<And>r. p r \<Longrightarrow> \<not> p (f r)) \<Longrightarrow> \<not> list_ex p (update_rows p f rows)"
  by (induction rows) simp_all

lemma commits_inactive: "\<not> active k (commits k x)"
proof -
  have "\<not> list_ex (stage_in k StageActive) (update_rows (stage_in k StageActive) (\<lambda>r. r\<lparr>rs_state := StageCommitted\<rparr>) (ib_stages x))"
    by (rule update_rows_gone) (simp add: stage_in_def)
  then show ?thesis by (simp add: commits_def has_stage_def)
qed

lemma adds_stages:
  assumes "adds_row v x x'" "distinct (map rs_storageKey (ib_stages x))"
  shows "distinct (map rs_storageKey (ib_stages x')) \<and>
    rs_storageKey ` set (ib_stages x') \<subseteq> rs_storageKey ` set (ib_stages x) \<and> (\<forall>k. active k x' \<longrightarrow> active k x) \<and>
    (\<forall>k. dv_rawStorageKey v = Some k \<longrightarrow> active k x \<and> \<not> active k x')"
proof (cases "dv_rawStorageKey v")
  case None
  with assms show ?thesis by (simp add: adds_row_def has_stage_def)
next
  case (Some k)
  have st: "ib_stages x' = ib_stages (commits k x)" "active k x" using assms(1) Some by (simp_all add: adds_row_def)
  have "active j x' \<longleftrightarrow> active j (commits k x)" for j by (simp add: has_stage_def st(1))
  then show ?thesis
    using commits_shrinks [of x k] commits_inactive [of k x] assms(2) st Some by (simp add: shrinks_def)
qed

lemma adds_calm:
  assumes "adds_row v x x'" "distinct (map rs_storageKey (ib_stages x))"
  shows "calm {} {} x x'"
  using adds_stages [OF assms] assms(1) by (auto simp: calm_def adds_row_def)

lemma adds_box:
  assumes "adds_row v x x'" "box_ok H U x" "dv_rawPrunedAt v = None" "raw_bytes x v = Some b" "H b = dv_contentHash v"
  shows "box_ok H U x'"
proof -
  have d: "distinct (map rs_storageKey (ib_stages x))" using assms(2) by (simp add: box_ok_def)
  note st = adds_stages [OF assms(1) d]
  have rows: "ib_deliveries x' = ib_deliveries x @ [v]" "ib_volume x' = ib_volume x"
    using assms(1) by (auto simp: adds_row_def)
  have fresh: "dv_rawStorageKey v' \<noteq> Some k" if "dv_rawStorageKey v = Some k" "v' \<in> set (ib_deliveries x)" for v' k
    using that st assms(2) by (auto simp: box_ok_def unused_active_def referenced_def list_ex_iff)
  have "active k x \<Longrightarrow> k \<in> U" for k
    using assms(2) by (auto simp: box_ok_def keys_known_def has_stage_iff)
  then have "\<forall>k. dv_rawStorageKey v = Some k \<longrightarrow> k \<in> U" "rs_storageKey ` set (ib_stages x') \<subseteq> U"
    using assms(2) st by (simp, simp add: box_ok_def keys_known_def) (elim conjE, erule (1) subset_trans)
  then have "keys_known U x'"
    using assms(2) rows by (auto simp: box_ok_def keys_known_def)
  moreover have "one_row x'"
    using assms(2) fresh by (auto simp: rows box_ok_def one_row_def alike_def)
  moreover have "unused_active x'"
    using assms(2) st by (auto simp: rows box_ok_def unused_active_def referenced_def)
  moreover have "bytes_kept H x'"
    using assms(2-5) by (auto simp: rows box_ok_def bytes_kept_def raw_bytes_def cong: option.case_cong)
  ultimately show ?thesis using st by (simp add: box_ok_def)
qed

subsection \<open>Retention\<close>

text \<open>Rows change, but keep the key or lose it, and stay pruned.\<close>

lemma rows_box:
  assumes "ib_deliveries x' = map g (ib_deliveries x)" "ib_stages x' = ib_stages x" "ib_volume x' = ib_volume x" "box_ok H U x"
    and "\<And>v. v \<in> set (ib_deliveries x) \<Longrightarrow> dv_rawStorageKey (g v) = dv_rawStorageKey v \<or> dv_rawStorageKey (g v) = None"
    and "\<And>v. v \<in> set (ib_deliveries x) \<Longrightarrow> dv_rawPrunedAt (g v) = None \<Longrightarrow>
      dv_rawPrunedAt v = None \<and> raw_bytes x (g v) = raw_bytes x v \<and> dv_contentHash (g v) = dv_contentHash v"
    and "\<And>v v'. alike v v' \<Longrightarrow> alike (g v) (g v')"
  shows "box_ok H U x' \<and> calm {} {} x x'"
proof -
  have "bytes_kept H x'"
    using assms(4,6) by (auto simp: box_ok_def bytes_kept_def assms(1) raw_bytes_def assms(3) cong: option.case_cong)
  moreover have "one_row x'"
    unfolding one_row_def assms(1)
  proof (intro ballI allI impI, elim conjE)
    fix u u' k
    assume "u \<in> set (map g (ib_deliveries x))" "u' \<in> set (map g (ib_deliveries x))"
      and k: "dv_rawStorageKey u = Some k" "dv_rawStorageKey u' = Some k"
    then obtain v v' where v: "v \<in> set (ib_deliveries x)" "u = g v" and v': "v' \<in> set (ib_deliveries x)" "u' = g v'" by auto
    have "dv_rawStorageKey v = Some k" "dv_rawStorageKey v' = Some k"
      using assms(5) [OF v(1)] assms(5) [OF v'(1)] k by (auto simp: v(2) v'(2))
    then have "alike v v'"
      using assms(4) v(1) v'(1) unfolding box_ok_def one_row_def by blast
    then show "alike u u'" using assms(7) by (simp add: v(2) v'(2))
  qed
  moreover have had: "dv_rawStorageKey v = Some k" if "v \<in> set (ib_deliveries x)" "dv_rawStorageKey (g v) = Some k" for v k
    using assms(5) [OF that(1)] that(2) by auto
  moreover have "keys_known U x'"
    using assms(4) had by (auto simp: box_ok_def keys_known_def assms(1-3))
  moreover have "unused_active x'"
    using assms(4) had by (fastforce simp: box_ok_def unused_active_def assms(1,2) referenced_def has_stage_def list_ex_iff)
  moreover have "calm {} {} x x'"
  proof -
    have "\<exists>v \<in> set (ib_deliveries x). dv_rawStorageKey v = Some k \<and> (dv_rawPrunedAt v \<noteq> None \<longrightarrow> dv_rawPrunedAt v' \<noteq> None)"
      if new: "v' \<in> set (ib_deliveries x')" "dv_rawStorageKey v' = Some k" for v' k
    proof -
      obtain v where v: "v \<in> set (ib_deliveries x)" "v' = g v" using new(1) by (auto simp: assms(1))
      then have "dv_rawStorageKey v = Some k" "dv_rawPrunedAt v \<noteq> None \<longrightarrow> dv_rawPrunedAt v' \<noteq> None"
        using had [of v k] new(2) assms(6) [of v] by (simp, metis)
      then show ?thesis using v(1) by blast
    qed
    then show ?thesis by (simp add: calm_def has_stage_def assms(2,3))
  qed
  ultimately show ?thesis using assms(2,4) by (simp add: box_ok_def)
qed

lemma update_deliveries_run:
  "update_deliveries en p f x = (Inr n, x') \<longleftrightarrow>
   n = count_rows p (ib_deliveries x) \<and> x' = x\<lparr>ib_deliveries := update_rows p (\<lambda>v. (f v)\<lparr>dv_updatedAt := ie_now en\<rparr>) (ib_deliveries x)\<rparr>"
  by (auto simp: update_deliveries_def run_rules)

lemma prune_ok:
  assumes "mark_pruned en ids x = (Inr n, x')" "box_ok H U x"
  shows "box_ok H U x' \<and> calm {} {} x x'"
  by (rule rows_box [OF _ _ _ assms(2), where g = "\<lambda>v. if dv_id v \<in> set ids \<and> dv_rawPrunedAt v = None
      then v\<lparr>dv_rawMime := None, dv_rawPrunedAt := Some (ie_now en), dv_updatedAt := ie_now en\<rparr> else v"])
    (use assms(1) in \<open>auto simp: mark_pruned_def update_deliveries_run update_rows_def alike_def raw_facts_def split: if_splits\<close>)

lemma forget_ok:
  assumes "forget_key en i k x = (Inr n, x')" "box_ok H U x" "removable k x"
  shows "box_ok H U x' \<and> calm {} {} x x'"
  by (rule rows_box [OF _ _ _ assms(2), where g = "\<lambda>v. if dv_id v = i \<and> dv_rawStorageKey v = Some k
      then v\<lparr>dv_rawStorageKey := None, dv_updatedAt := ie_now en\<rparr> else v"])
    (use assms(1,3) in \<open>auto simp: forget_key_def update_deliveries_run update_rows_def alike_def raw_facts_def removable_def split: if_splits\<close>)

lemma same_raw_box:
  assumes "same_raw x x'" "box_ok H U x"
  shows "box_ok H U x' \<and> calm {} {} x x'"
proof -
  have st: "ib_stages x' = ib_stages x" "ib_volume x' = ib_volume x"
    and mp: "map raw_facts (ib_deliveries x') = map raw_facts (ib_deliveries x)"
    using assms(1) by (simp_all add: same_raw_def)
  have im: "raw_facts ` set (ib_deliveries x') = raw_facts ` set (ib_deliveries x)"
    using arg_cong [OF mp, of set] by simp
  have row: "\<exists>v \<in> set (ib_deliveries x). raw_facts v = raw_facts v'" if "v' \<in> set (ib_deliveries x')" for v'
  proof -
    have "raw_facts v' \<in> raw_facts ` set (ib_deliveries x)" using that im by blast
    then show ?thesis by (auto simp: image_iff)
  qed
  have facts: "dv_rawStorageKey v = dv_rawStorageKey v'" "dv_rawMime v = dv_rawMime v'" "dv_contentHash v = dv_contentHash v'"
    "dv_rawPrunedAt v = dv_rawPrunedAt v'" if "raw_facts v = raw_facts v'" for v v'
    using that by (simp_all add: raw_facts_def)
  have "bytes_kept H x'"
    unfolding bytes_kept_def
  proof (intro ballI impI)
    fix v' assume v': "v' \<in> set (ib_deliveries x')" "dv_rawPrunedAt v' = None"
    then obtain v where "v \<in> set (ib_deliveries x)" "raw_facts v = raw_facts v'" using row by blast
    then show "\<exists>b. raw_bytes x' v' = Some b \<and> H b = dv_contentHash v'"
      using v'(2) facts [of v v'] assms(2) by (simp add: box_ok_def bytes_kept_def raw_bytes_def st(2) cong: option.case_cong) metis
  qed
  moreover have "one_row x'"
    unfolding one_row_def
  proof (intro ballI allI impI)
    fix v' w' k
    assume "v' \<in> set (ib_deliveries x')" "w' \<in> set (ib_deliveries x')" "dv_rawStorageKey v' = Some k \<and> dv_rawStorageKey w' = Some k"
    then obtain v w where "v \<in> set (ib_deliveries x)" "w \<in> set (ib_deliveries x)" "raw_facts v = raw_facts v'" "raw_facts w = raw_facts w'"
      "dv_rawStorageKey v = Some k" "dv_rawStorageKey w = Some k"
      using row facts(1) by metis
    then show "alike v' w'"
      using assms(2) unfolding box_ok_def one_row_def alike_def by metis
  qed
  moreover have "keys_known U x'"
    using assms(2) row facts(1) unfolding box_ok_def keys_known_def st by metis
  moreover have "unused_active x'"
    using assms(2) row facts(1) unfolding box_ok_def unused_active_def has_stage_def referenced_def list_ex_iff st by metis
  moreover have "calm {} {} x x'"
    using row facts(1,4) unfolding calm_def has_stage_def st by metis
  ultimately show ?thesis using assms(2) by (simp add: box_ok_def st(1))
qed

section \<open>The invariant holds\<close>

lemma replaced:
  assumes "raw_inv H \<lparr>rw_box = x, rw_tasks = T @ t # T', rw_used = U\<rparr>" "box_ok H U x'" "calm {} own x x'"
    and "own \<subseteq> set (writer_keys [t])" "\<And>s. s \<in> set S \<Longrightarrow> task_keys s \<subseteq> task_keys t \<and> task_ok x' s"
    and "writer_keys S = [] \<or> writer_keys S = writer_keys [t]"
  shows "raw_inv H \<lparr>rw_box = x', rw_tasks = T @ S @ T', rw_used = U\<rparr>"
  using assms tasks_step [where new = "{}" and S = S, OF _ assms(3) _ assms(4,5,6)] by (simp add: raw_inv_def)

lemma unchanged:
  assumes "raw_inv H \<lparr>rw_box = x, rw_tasks = T, rw_used = U\<rparr>" "box_ok H U x'" "calm {} {} x x'"
  shows "raw_inv H \<lparr>rw_box = x', rw_tasks = T, rw_used = U\<rparr>"
  using assms tasks_same [OF _ assms(3)] by (simp add: raw_inv_def)

lemma inv_box: "raw_inv H \<lparr>rw_box = x, rw_tasks = T, rw_used = U\<rparr> \<Longrightarrow> box_ok H U x"
  by (simp add: raw_inv_def)

lemma inv_task: "raw_inv H \<lparr>rw_box = x, rw_tasks = T @ t # T', rw_used = U\<rparr> \<Longrightarrow> task_ok x t \<and> task_keys t \<subseteq> U"
  by (simp add: raw_inv_def tasks_ok_def)

lemma discard_removable:
  assumes "claim_discard k x = (Inr True, x')" "unused_active x"
  shows "removable k x'"
proof -
  have a: "active k x" and x': "x' = x\<lparr>ib_stages := update_rows (stage_in k StageActive) (\<lambda>r. r\<lparr>rs_state := StageReaping\<rparr>) (ib_stages x)\<rparr>"
    using assms(1) by (auto simp: claim_discard_def db_txn_run update_stages_def run_rules split: if_splits)
  have "\<not> active k x'"
    unfolding x' has_stage_def by (simp, rule update_rows_gone) (simp add: stage_in_def)
  then show ?thesis
    using assms(2) a by (auto simp: x' removable_def unused_active_def referenced_def list_ex_iff)
qed

lemma stage_of_unique:
  assumes "stage_of k x = Some r" "distinct (map rs_storageKey (ib_stages x))" "has_stage k st x"
  shows "rs_state r = st"
proof -
  obtain r' where "r' \<in> set (ib_stages x)" "rs_storageKey r' = k" "rs_state r' = st"
    using assms(3) by (auto simp: has_stage_iff)
  moreover have "r \<in> set (ib_stages x)" "rs_storageKey r = k"
    using find_row_SomeD [OF assms(1) [unfolded stage_of_def]] by auto
  ultimately show ?thesis using assms(2) by (metis distinct_map inj_onD)
qed

lemma judge_removable:
  assumes "judge_stage locked k x = (Inr ReapFile, x')" "distinct (map rs_storageKey (ib_stages x))"
  shows "removable k x'"
proof -
  obtain r where r: "stage_of k x = Some r" "rs_state r \<noteq> StageActive" "\<not> referenced k x" "x' = x"
    using assms(1) by (auto simp: judge_stage_def db_txn_run run_rules split: if_splits option.splits)
  then show ?thesis
    using stage_of_unique [OF r(1) assms(2)] by (auto simp: removable_def referenced_def list_ex_iff)
qed

lemma no_stage_inactive: "stage_of k x = None \<Longrightarrow> \<not> has_stage k st x"
  by (auto simp: stage_of_def find_row_None_iff has_stage_iff)

lemma orphan_removable: "\<not> active k x \<Longrightarrow> \<not> referenced k x \<Longrightarrow> removable k x"
  by (auto simp: removable_def referenced_def list_ex_iff)

lemma pruned_removable:
  assumes "v \<in> set (ib_deliveries x)" "dv_rawPrunedAt v \<noteq> None" "dv_rawStorageKey v = Some k" "box_ok H U x"
  shows "removable k x \<and> k \<in> U"
proof -
  have "referenced k x" using assms(1,3) by (auto simp: referenced_def list_ex_iff)
  then have "\<not> active k x" using assms(4) by (auto simp: box_ok_def unused_active_def)
  moreover have "k \<in> U" using assms by (auto simp: box_ok_def keys_known_def)
  moreover have "dv_rawPrunedAt v' \<noteq> None" if new: "v' \<in> set (ib_deliveries x)" "dv_rawStorageKey v' = Some k" for v'
  proof -
    have "alike v v'" using new assms(1,3,4) unfolding box_ok_def one_row_def by blast
    then show ?thesis using assms(2) by (simp add: alike_def raw_facts_def)
  qed
  ultimately show ?thesis unfolding removable_def by blast
qed

lemma publish_box:
  assumes "publishRawMimeStage en k (publish_file k) x = (Inr (), x')" "box_ok H U x" "task_ok x (Written k b)"
  shows "box_ok H U x' \<and> calm {} {k} x x' \<and> task_ok x' (Published k b)"
proof -
  obtain c where c: "active k x" "temp_at k x = Some c"
    "x' = volume_of (rename_temp k c) x\<lparr>ib_stages := update_rows (stage_in k StageActive)
        (\<lambda>r. r\<lparr>rs_leaseExpiresAt := ie_now en + RAW_STAGING_LEASE_MS\<rparr>) (ib_stages x)\<rparr>"
    using publish_run [OF assms(1)] by blast
  let ?y = "volume_of (rename_temp k c) x"
  have "ib_stages ?y = ib_stages x" by (simp add: volume_of_def)
  then have sh: "shrinks ?y x'"
    unfolding c(3) using shrinks_update [of "\<lambda>r. r\<lparr>rs_leaseExpiresAt := ie_now en + RAW_STAGING_LEASE_MS\<rparr>" "stage_in k StageActive" ?y]
    by simp
  have "box_ok H U x'" using shrinks_box [OF sh rename_box [OF c(1) assms(2)]] .
  moreover have "calm {} {k} x x'" using calm_trans [OF rename_calm shrinks_calm [OF sh]] .
  moreover have "c = b" using c(1,2) assms(3) by simp
  then have "task_ok x' (Published k b)" by (simp add: c(3) volume_of_def rename_temp_def update_conv')
  ultimately show ?thesis by simp
qed

lemma accept_box:
  assumes "accept_tx en a x = (r, x')" "box_ok (ie_sha256 en) U x"
    and "\<And>k. snd (ac_raw a) = Some k \<Longrightarrow> active k x \<Longrightarrow> file_at k x = Some (ac_source a)"
    and "snd (ac_raw a) = None \<Longrightarrow> fst (ac_raw a) = Some (ac_source a)"
  shows "box_ok (ie_sha256 en) U x' \<and> calm {} {} x x'"
proof (cases r)
  case (Inl e)
  have "idle_accept x x'"
    using failed_txn [OF assms(1) [unfolded Inl accept_tx_def]] vol_accept unfolding accept_tx_def by blast
  then show ?thesis using idle_box [OF _ assms(2)] idle_calm by blast
next
  case (Inr out)
  note eff = accept_tx_effect [OF assms(1) [unfolded Inr]]
  show ?thesis
  proof (cases "out = Accepted")
    case False
    then have "idle_accept x x'" using eff by simp
    then show ?thesis using idle_box [OF _ assms(2)] idle_calm by blast
  next
    case True
    then obtain v where v: "adds_row v x x'" "dv_rawStorageKey v = snd (ac_raw a)" "dv_rawMime v = fst (ac_raw a)"
      "dv_contentHash v = ie_sha256 en (ac_source a)" "dv_rawPrunedAt v = None"
      using eff by auto
    have "raw_bytes x v = Some (ac_source a)"
      using v(1-3) assms(3,4) by (auto simp: raw_bytes_def adds_row_def split: option.splits)
    then show ?thesis
      using adds_box [OF v(1) assms(2) v(5)] v(4) adds_calm [OF v(1)] assms(2) by (simp add: box_ok_def)
  qed
qed

lemma pipe_box:
  assumes "pipe_tx en p x = (r, x')" "box_ok (ie_sha256 en) U x"
    and "\<And>k. snd (pp_raw p) = Some k \<Longrightarrow> active k x \<Longrightarrow> file_at k x = Some (pp_source p)"
    and "snd (pp_raw p) = None \<Longrightarrow> fst (pp_raw p) = Some (pp_source p)"
  shows "box_ok (ie_sha256 en) U x' \<and> calm {} {} x x'"
proof (cases r)
  case (Inl e)
  have "idle_accept x x'"
    using failed_txn [OF assms(1) [unfolded Inl pipe_tx_def]] vol_pipe unfolding pipe_tx_def by blast
  then show ?thesis using idle_box [OF _ assms(2)] idle_calm by blast
next
  case (Inr out)
  obtain i dep dup where out: "out = (i, dep, dup)" by (cases out)
  note eff = pipe_tx_effect [OF assms(1) [unfolded Inr out]]
  show ?thesis
  proof (cases dup)
    case True
    then have "idle_accept x x'" using eff by simp
    then show ?thesis using idle_box [OF _ assms(2)] idle_calm by blast
  next
    case False
    then obtain v where v: "adds_row v x x'" "dv_rawStorageKey v = snd (pp_raw p)" "dv_rawMime v = fst (pp_raw p)"
      "dv_contentHash v = ie_sha256 en (pp_source p)" "dv_rawPrunedAt v = None"
      using eff by auto
    have "raw_bytes x v = Some (pp_source p)"
      using v(1-3) assms(3,4) by (auto simp: raw_bytes_def adds_row_def split: option.splits)
    then show ?thesis
      using adds_box [OF v(1) assms(2) v(5)] v(4) adds_calm [OF v(1)] assms(2) by (simp add: box_ok_def)
  qed
qed

lemma remove_raw_run: "remove_raw en k x = (Inr (), x') \<Longrightarrow> x' = volume_of (drop_marker k) (volume_of (drop_file k) x)"
  by (auto simp: remove_raw_def removeFile_def upd_volume_def volume_of_def run_rules)

lemma raw_inv_reserve:
  assumes inv: "raw_inv H \<lparr>rw_box = x, rw_tasks = T, rw_used = U\<rparr>" and k: "k \<notin> U"
    and run: "reserveRawMimeStage en queueId k fence x = (Inr (), x')"
  shows "raw_inv H \<lparr>rw_box = x', rw_tasks = T @ [Reserved k b], rw_used = insert k U\<rparr>"
proof -
  obtain r where r: "rs_storageKey r = k" "x' = x\<lparr>ib_stages := ib_stages x @ [r]\<rparr>"
    using reserve_run [OF run] by blast
  have tasks: "distinct (writer_keys T)" "\<And>t. t \<in> set T \<Longrightarrow> task_keys t \<subseteq> U \<and> task_ok x t"
    using inv by (auto simp: raw_inv_def tasks_ok_def)
  have known: "set (writer_keys [t]) \<subseteq> task_keys t" for t by (cases t) auto
  have "set (writer_keys T) \<subseteq> U"
  proof -
    have "\<forall>t \<in> set T. task_keys t \<subseteq> U" using tasks(2) by blast
    then show ?thesis by (induction T rule: writer_keys.induct) auto
  qed
  then have "distinct (writer_keys (T @ [Reserved k b]))" using tasks(1) k by auto
  moreover have "task_keys t \<subseteq> insert k U \<and> task_ok x' t" if "t \<in> set (T @ [Reserved k b])" for t
  proof (cases "t \<in> set T")
    case True
    have "task_ok x' t"
      by (rule calm_task [OF reserve_calm [OF r(1), of x, folded r(2)]]) (use tasks(2) [OF True] known [of t] k in auto)
    then show ?thesis using tasks(2) [OF True] by auto
  qed (use that in auto)
  ultimately show ?thesis
    using reserve_box [OF k inv_box [OF inv] r(1)] by (simp add: raw_inv_def tasks_ok_def r(2))
qed

lemma raw_inv_append:
  assumes "raw_inv H \<lparr>rw_box = x, rw_tasks = T, rw_used = U\<rparr>" "task_ok x t" "task_keys t \<subseteq> U" "writer_keys [t] = []"
  shows "raw_inv H \<lparr>rw_box = x, rw_tasks = T @ [t], rw_used = U\<rparr>"
  using assms by (auto simp: raw_inv_def tasks_ok_def)

lemma raw_step_inv: "raw_step H w w' \<Longrightarrow> raw_inv H w \<Longrightarrow> raw_inv H w'"
proof (induction rule: raw_step.induct)
  case (reserve k U en queueId fence x x' T b)
  show ?case by (rule raw_inv_reserve [OF reserve(3,1,2)])
next
  case (put x' en k b x T T' U)
  note t = inv_task [OF put(2)] and b = inv_box [OF put(2)]
  show ?case
    using replaced [OF put(2) put_box put_calm, where S = "[Written k b]"] t b
    by (simp add: put(1) volume_of_def put_temp_def update_conv')
next
  case (publish en k x x' T b T' U)
  note t = inv_task [OF publish(2)]
  show ?case
    using replaced [OF publish(2), of x' "{k}" "[Published k b]"]
      publish_box [OF publish(1) inv_box [OF publish(2)] conjunct1 [OF t]] by simp
next
  case (refused en k x e x1 x' T b T' U)
  note b = inv_box [OF refused(3)]
  have x: "x1 = x" using refused_run [OF refused(1)] b by (simp add: box_ok_def)
  have x': "x' = volume_of (drop_marker k) (volume_of (drop_temp k) x)" using refused(2) by (simp add: x volume_of_def)
  show ?case
    using replaced [OF refused(3), of x' "{k}" "[Discarding k]"] drop_marker_box [OF drop_temp_box [OF b]]
      calm_trans [OF drop_temp_calm drop_marker_calm] by (simp add: x')
next
  case (accept_imap en a x r x' b k T T' U)
  note t = inv_task [OF accept_imap(5)] and b = inv_box [OF accept_imap(5)]
  have "box_ok H U x' \<and> calm {} {} x x'"
    using accept_box [OF accept_imap(1), of U] accept_imap(2-4) b t by auto
  then show ?case
    using replaced [OF accept_imap(5), of x' "{}" "[if r = Inr Accepted then Finalizing k else Discarding k]"] by simp
next
  case (accept_imap_inline en a x r x' T U)
  then show ?case
    using unchanged [OF accept_imap_inline(4), of x'] accept_box [OF accept_imap_inline(1), of U] inv_box [OF accept_imap_inline(4)] by simp
next
  case (accept_pipe en p x r x' b k T T' U)
  note t = inv_task [OF accept_pipe(5)] and b = inv_box [OF accept_pipe(5)]
  have "box_ok H U x' \<and> calm {} {} x x'"
    using pipe_box [OF accept_pipe(1), of U] accept_pipe(2-4) b t by auto
  then show ?case
    using replaced [OF accept_pipe(5), of x' "{}" "[case r of Inr (i, dep, False) \<Rightarrow> Finalizing k | _ \<Rightarrow> Discarding k]"]
    by (auto split: sum.splits bool.splits)
next
  case (accept_pipe_inline en p x r x' T U)
  then show ?case
    using unchanged [OF accept_pipe_inline(4), of x'] pipe_box [OF accept_pipe_inline(1), of U] inv_box [OF accept_pipe_inline(4)] by simp
next
  case (finalize k x r x' T T' U)
  note s = finalize_stage_shrinks [OF finalize(1)]
  show ?case
    using replaced [OF finalize(2), of x' "{}" "[]"] shrinks_box [OF s inv_box [OF finalize(2)]] shrinks_calm [OF s] by simp
next
  case (discard k x x' T T' U)
  note s = claim_discard_shrinks [OF discard(1)] and b = inv_box [OF discard(2)]
  have "removable k x'" using discard_removable [OF discard(1)] b by (simp add: box_ok_def)
  then show ?case
    using replaced [OF discard(2), of x' "{}" "[DiscardRemove k]"] shrinks_box [OF s b] shrinks_calm [OF s] by simp
next
  case (discard_remove en k x x' T T' U)
  note t = inv_task [OF discard_remove(2)] and b = inv_box [OF discard_remove(2)]
  show ?case
    using replaced [OF discard_remove(2), of x' "{}" "[DiscardDelete k]"] drop_file_box [OF _ b, of k] drop_file_calm [of k x]
      removeFile_run [OF discard_remove(1)] t by simp
next
  case (discard_delete k x n x' T T' U)
  have "shrinks x x'" using discard_delete(1) shrinks_delete by (simp add: delete_stages_run)
  then show ?case
    using replaced [OF discard_delete(2), of x' "{}" "[]"] shrinks_box [OF _ inv_box [OF discard_delete(2)]] shrinks_calm by simp
next
  case (scan ks x T U)
  have "set ks \<subseteq> U"
  proof (rule subset_trans [OF scan(1)], rule Un_least)
    have "keys_known U x" using inv_box [OF scan(2)] by (simp add: box_ok_def)
    then show "fst ` set (rv_markers (ib_volume x)) \<subseteq> U" "rs_storageKey ` set (ib_stages x) \<subseteq> U"
      by (simp_all add: keys_known_def)
  qed
  then show ?case using raw_inv_append [OF scan(2), of "Candidates ks"] by simp
next
  case (claim_expired en ks x x' T T' U)
  note s = claimExpired_shrinks [OF claim_expired(1)]
  have "writer_keys (map Reaping ks) = []" by (induction ks) simp_all
  moreover have "task_keys s \<subseteq> task_keys (Candidates ks) \<and> task_ok x' s" if "s \<in> set (map Reaping ks)" for s
    using that by auto
  ultimately show ?case
    using replaced [OF claim_expired(2) shrinks_box [OF s inv_box [OF claim_expired(2)]] shrinks_calm [OF s], of "map Reaping ks"] by blast
next
  case (judge locked k x verdict x' T T' U)
  note s = judge_shrinks [OF judge(1)] and b = inv_box [OF judge(2)]
  have "verdict = ReapFile \<Longrightarrow> removable k x'" using judge_removable [of locked k x x'] judge(1) b by (auto simp: box_ok_def)
  then show ?case
    using replaced [OF judge(2), of x' "{}" "case verdict of ReapFile \<Rightarrow> [ReapRemove k] | NoStage \<Rightarrow> [ReapLook k] | _ \<Rightarrow> []"]
      shrinks_box [OF s b] shrinks_calm [OF s] by (auto split: stage_verdict.splits)
next
  case (reap_remove en k x x' T T' U)
  note t = inv_task [OF reap_remove(2)] and b = inv_box [OF reap_remove(2)]
  show ?case
    using replaced [OF reap_remove(2), of x' "{}" "[ReapDelete k]"] drop_file_box [OF _ b, of k] drop_file_calm [of k x]
      removeFile_run [OF reap_remove(1)] t by simp
next
  case (reap_delete k x n x' T T' U)
  have "shrinks x x'" using reap_delete(1) shrinks_delete by (simp add: delete_stages_run)
  then show ?case
    using replaced [OF reap_delete(2), of x' "{}" "[]"] shrinks_box [OF _ inv_box [OF reap_delete(2)]] shrinks_calm by simp
next
  case (look k x T T' U)
  then show ?case
    using replaced [OF look(2) inv_box [OF look(2)] calm_refl, of "[ReapRefer k]"] no_stage_inactive by simp
next
  case (refer k x T T' U)
  then show ?case
    using replaced [OF refer(2) inv_box [OF refer(2)] calm_refl, of "[ReapOrphan k]"] inv_task [OF refer(2)] orphan_removable by simp
next
  case (orphan en k x x' T T' U)
  note t = inv_task [OF orphan(2)] and b = inv_box [OF orphan(2)]
  show ?case
    using replaced [OF orphan(2), of x' "{}" "[]"] drop_file_box [OF _ b, of k] drop_file_calm [of k x]
      removeFile_run [OF orphan(1)] t by simp
next
  case (unmark en k x x' T U)
  show ?case
    using unchanged [OF unmark(2), of x'] drop_marker_box [OF inv_box [OF unmark(2)]] drop_marker_calm
    by (simp add: commit_marker_run [OF unmark(1)])
next
  case (prune en ids x n x' T U)
  show ?case using unchanged [OF prune(2)] prune_ok [OF prune(1) inv_box [OF prune(2)]] by simp
next
  case (prune_list v x k T U)
  show ?case using raw_inv_append [OF prune_list(4), of "PruneFile (dv_id v) k"] pruned_removable [OF prune_list(1-3) inv_box [OF prune_list(4)]] by simp
next
  case (prune_file en k x x' T i T' U)
  note t = inv_task [OF prune_file(2)] and b = inv_box [OF prune_file(2)]
  show ?case
    using replaced [OF prune_file(2), of x' "{}" "[PruneForget i k]"] drop_marker_box [OF drop_file_box [OF _ b, of k]]
      calm_trans [OF drop_file_calm [of k x] drop_marker_calm]
      calm_removable [OF calm_trans [OF drop_file_calm [of k x] drop_marker_calm]] remove_raw_run [OF prune_file(1)] t by simp
next
  case (prune_forget en i k x n x' T T' U)
  have r: "removable k x" using inv_task [OF prune_forget(2)] by simp
  show ?case
    using replaced [OF prune_forget(2), of x' "{}" "[]"] forget_ok [OF prune_forget(1) inv_box [OF prune_forget(2)] r] by simp
next
  case (stop x T t T' U)
  then show ?case
    using replaced [OF stop(1) inv_box [OF stop(1)] calm_refl, of "[]"] by simp
next
  case (elsewhere x x' T U)
  show ?case using unchanged [OF elsewhere(2)] same_raw_box [OF elsewhere(1) inv_box [OF elsewhere(2)]] by simp
qed

lemma raw_inv_start: "raw_start w \<Longrightarrow> raw_inv H w"
  by (cases w) (simp add: raw_start_def raw_inv_def box_ok_def keys_known_def one_row_def unused_active_def bytes_kept_def
      has_stage_def tasks_ok_def)

lemma raw_reachable_inv: "raw_reachable H w \<Longrightarrow> raw_inv H w"
  by (induction rule: raw_reachable.induct) (blast intro: raw_inv_start raw_step_inv)+

text \<open>C6: no accepted message is lost. However writers, acceptances, failed acceptances, the reaper of
  abandoned reservations and retention interleave, and wherever a process stops, the bytes of every
  message in the ledger that retention has not marked as pruned are there, inline or on the volume,
  complete: they hash to the content hash the row records.\<close>

theorem accepted_bytes_survive:
  assumes "raw_reachable H w" "v \<in> set (ib_deliveries (rw_box w))" "dv_rawPrunedAt v = None"
  shows "\<exists>b. raw_bytes (rw_box w) v = Some b \<and> H b = dv_contentHash v"
  using raw_reachable_inv [OF assms(1)] assms(2,3) by (simp add: raw_inv_def box_ok_def bytes_kept_def)

section \<open>A run with a message on the volume\<close>

definition box1 :: inbox where
  "box1 = sample_inbox\<lparr>ib_stages := [\<lparr>rs_storageKey = ''inbound-raw/k1.eml'', rs_queueId = Some 2, rs_state = StageActive,
     rs_leaseExpiresAt = 1700000600000\<rparr>]\<rparr>"

definition box2 :: inbox where
  "box2 = volume_of (put_temp sample_env ''inbound-raw/k1.eml'' sample_source) box1"

definition box3 :: inbox where
  "box3 = box1\<lparr>ib_volume := \<lparr>rv_files = [(''inbound-raw/k1.eml'', sample_source)], rv_temps = [],
     rv_markers = [(''inbound-raw/k1.eml'', 1700000000000)]\<rparr>\<rparr>"

definition stored_delivery :: delivery where
  "stored_delivery = imap_delivery sample_env (sample_acceptance (None, Some ''inbound-raw/k1.eml'')) sample_queue [routing_entry_of sample_queue] 2"

definition box4 :: inbox where
  "box4 = commits ''inbound-raw/k1.eml'' (box3\<lparr>ib_deliveries := [stored_delivery], ib_seq_delivery := 3\<rparr>)"

definition stored_world :: raw_world where
  "stored_world = \<lparr>rw_box = box4, rw_tasks = [Finalizing ''inbound-raw/k1.eml''], rw_used = {''inbound-raw/k1.eml''}\<rparr>"

lemma box_runs:
  "reserveRawMimeStage sample_env 2 ''inbound-raw/k1.eml'' False sample_inbox = (Inr (), box1)"
  "publishRawMimeStage sample_env ''inbound-raw/k1.eml'' (publish_file ''inbound-raw/k1.eml'') box2 = (Inr (), box3)"
  by (simp_all add: reserveRawMimeStage_def publishRawMimeStage_def publish_file_def db_txn_def act_defs box1_def box2_def box3_def
      sample_inbox_def sample_queue_def sample_env_def stage_of_def RAW_STAGING_LEASE_MS_def has_stage_def stage_in_def
      volume_of_def put_temp_def upd_volume_def rename_temp_def update_stages_def)

lemma box4_run: "accept_tx sample_env (sample_acceptance (None, Some ''inbound-raw/k1.eml'')) box3 = (Inr Accepted, box4)"
proof (rule accept_tx_runs)
  show "find_row (fenced_row sample_env (ac_snapshot (sample_acceptance (None, Some ''inbound-raw/k1.eml'')))
      (ac_mailbox (sample_acceptance (None, Some ''inbound-raw/k1.eml'')))) (ib_queues box3) = Some sample_queue"
    by (simp add: box3_def box1_def sample_inbox_def fenced_row_def sample_acceptance_def capture_fence_def inboundCaptureOnlyEnabled_def
        sample_env_def) (simp add: sample_queue_def)
  show "captureRoutingSnapshot sample_env sample_queue box3 = (Inr [routing_entry_of sample_queue], box3)"
    by (rule sample_snapshot) (simp add: box3_def box1_def sample_inbox_def)
  show "markRawStageCommitted (snd (ac_raw (sample_acceptance (None, Some ''inbound-raw/k1.eml''))))
      (box3\<lparr>ib_deliveries := ib_deliveries box3 @ [imap_delivery sample_env (sample_acceptance (None, Some ''inbound-raw/k1.eml''))
         sample_queue [routing_entry_of sample_queue] (ib_seq_delivery box3)], ib_seq_delivery := Suc (ib_seq_delivery box3)\<rparr>) = (Inr (), box4)"
    by (simp add: markRawStageCommitted_def sample_acceptance_def update_stages_def act_defs box3_def box1_def sample_inbox_def
        stage_in_def box4_def commits_def stored_delivery_def)
qed (simp_all add: sample_acceptance_def box3_def box1_def sample_inbox_def delivery_by_key_def inboundCaptureOnlyEnabled_def sample_env_def
      lockRawStageForAcceptance_def act_defs has_stage_def stage_in_def)

lemma stored_world_reachable: "raw_reachable (ie_sha256 sample_env) stored_world"
proof -
  let ?k = "''inbound-raw/k1.eml''" and ?H = "ie_sha256 sample_env" and ?b = sample_source
  have "raw_reachable ?H \<lparr>rw_box = sample_inbox, rw_tasks = [], rw_used = {}\<rparr>"
    by (rule raw_reachable.start) (simp add: raw_start_def sample_inbox_def)
  moreover have "raw_step ?H \<lparr>rw_box = sample_inbox, rw_tasks = [], rw_used = {}\<rparr> \<lparr>rw_box = box1, rw_tasks = [] @ [Reserved ?k ?b], rw_used = insert ?k {}\<rparr>"
    by (rule raw_step.reserve) (simp, rule box_runs(1))
  ultimately have r1: "raw_reachable ?H \<lparr>rw_box = box1, rw_tasks = [] @ Reserved ?k ?b # [], rw_used = {?k}\<rparr>"
    by (simp add: raw_reachable.step)
  have r2: "raw_reachable ?H \<lparr>rw_box = box2, rw_tasks = [] @ Written ?k ?b # [], rw_used = {?k}\<rparr>"
    by (rule raw_reachable.step [OF r1 raw_step.put [OF box2_def]])
  have r3: "raw_reachable ?H \<lparr>rw_box = box3, rw_tasks = [] @ Published ?k ?b # [], rw_used = {?k}\<rparr>"
    by (rule raw_reachable.step [OF r2 raw_step.publish [OF box_runs(2)]])
  have "raw_step ?H \<lparr>rw_box = box3, rw_tasks = [] @ Published ?k ?b # [], rw_used = {?k}\<rparr>
      \<lparr>rw_box = box4, rw_tasks = [] @ (if Inr Accepted = (Inr Accepted :: error + accept_outcome) then Finalizing ?k else Discarding ?k) # [], rw_used = {?k}\<rparr>"
    by (rule raw_step.accept_imap [OF box4_run]) (simp_all add: sample_acceptance_def)
  then show ?thesis
    using raw_reachable.step [OF r3] by (simp add: stored_world_def)
qed

theorem accepted_bytes_survive_witness:
  "\<exists>v \<in> set (ib_deliveries (rw_box stored_world)). dv_rawStorageKey v = Some ''inbound-raw/k1.eml'' \<and>
     (\<exists>b. raw_bytes (rw_box stored_world) v = Some b \<and> ie_sha256 sample_env b = dv_contentHash v)"
proof -
  have "stored_delivery \<in> set (ib_deliveries (rw_box stored_world))"
    by (simp add: stored_world_def box4_def commits_def)
  moreover have "dv_rawStorageKey stored_delivery = Some ''inbound-raw/k1.eml''" "dv_rawPrunedAt stored_delivery = None"
    by (simp_all add: stored_delivery_def imap_delivery_raw sample_acceptance_def)
  ultimately show ?thesis
    using accepted_bytes_survive [OF stored_world_reachable] by blast
qed

end
