(* ===== verification/ImapPoll.thy ===== *)
theory ImapPoll
  imports ImapAccept
begin

text \<open>
  The IMAP side of \<open>inbound.service.ts\<close>: arming a capture queue, the first baseline of a mailbox, the
  baseline of an operator's reconcile, and one poll. What the server answers while the mailbox is
  locked is the record \<open>imap\<close>; the connection registry and the log are left out.
\<close>

section \<open>What the server answers\<close>

record mailbox_entry =
  me_path :: string
  me_listed :: bool
  me_specialUse :: bool
  me_noselect :: bool

record imap =
  im_uidValidity :: "nat option"
  im_uidNext :: "int option"
  im_exists :: "nat option"
  im_list :: "mailbox_entry list option"         \<comment> \<open>LIST; \<open>None\<close> when it fails\<close>
  im_uidsFrom :: "nat \<Rightarrow> nat list"           \<comment> \<open>UID FETCH n:*, in any order\<close>
  im_search :: "nat \<Rightarrow> int list option"     \<comment> \<open>UID SEARCH 1:n\<close>
  im_fetchOne :: "nat \<Rightarrow> error + (string \<times> imap_envelope option) option"

definition MAX_SAFE_INTEGER :: int where "MAX_SAFE_INTEGER = 2 ^ 53 - 1"

text \<open>\<open>uidNext - 1\<close>, when UIDVALIDITY and UIDNEXT are usable.\<close>

definition mailbox_boundary :: "imap \<Rightarrow> (nat \<times> nat) option" where
  "mailbox_boundary im =
     (case (im_uidValidity im, im_uidNext im) of
        (Some v, Some n) \<Rightarrow> if 1 \<le> n \<and> n \<le> MAX_SAFE_INTEGER then Some (v, nat (n - 1)) else None
      | _ \<Rightarrow> None)"

definition assertDedicatedCaptureMailbox :: "inbound_env \<Rightarrow> imap \<Rightarrow> string \<Rightarrow> unit act_in" where
  "assertDedicatedCaptureMailbox en im mailbox =
     (if \<not> inboundCaptureOnlyEnabled en then ret ()
      else case im_list im of
        None \<Rightarrow> throw (ServiceUnavailable ''Capture-only could not verify the selected IMAP test folder'')
      | Some listed \<Rightarrow>
          (case find_row (\<lambda>e. me_path e = mailbox) listed of
             None \<Rightarrow> throw (ServiceUnavailable ''Capture-only selected IMAP test folder was not found by the server'')
           | Some target \<Rightarrow>
               sq (require (me_listed target)
                    (ServiceUnavailable ''Capture-only selected IMAP test folder was not found by the server''))
                  (require (\<not> me_specialUse target \<and> \<not> me_noselect target)
                    (ServiceUnavailable ''Capture-only selected an IMAP special-use/non-select folder; create a new empty test folder instead''))))"

definition assertEmptyCaptureMailbox :: "inbound_env \<Rightarrow> nat option \<Rightarrow> unit act_in" where
  "assertEmptyCaptureMailbox en exists =
     (if \<not> inboundCaptureOnlyEnabled en then ret ()
      else require (exists = Some 0)
        (ServiceUnavailable ''Capture-only selected IMAP test folder is not empty; remove test messages or create a new empty folder before baseline''))"

section \<open>Arming a capture queue\<close>

definition arm_tx :: "inbound_env \<Rightarrow> mail_queue \<Rightarrow> string \<Rightarrow> bool act_in" where
  "arm_tx en queue mailbox =
     db_txn (
       let locked = (\<lambda>q. mq_id q = mq_id queue \<and> mq_type q = IMAP \<and> mq_isEnabled q \<and> mq_syncState q = SyncOK \<and>
              mq_mailboxEpoch q = mq_mailboxEpoch queue \<and> mq_cursorGeneration q = mq_cursorGeneration queue \<and>
              mq_configGeneration q = mq_configGeneration queue \<and> mq_uidValidity q = mq_uidValidity queue \<and>
              mq_mailbox q = mailbox) in
       bnd (reads (\<lambda>x. find_row locked (ib_queues x))) (\<lambda>z.
       case z of
         None \<Rightarrow> throw stale_snapshot
       | Some q \<Rightarrow>
           if mq_captureRetiredAt q \<noteq> None then ret False
           else
             bnd (reads (\<lambda>x. count_rows (\<lambda>v. dv_queueId v = Some (mq_id queue)) (ib_deliveries x))) (\<lambda>existingDeliveries.
             sq (require (existingDeliveries = 0)
                  (ServiceUnavailable ''Capture-only requires a fresh queue with no inbound delivery history; create a new queue and mailbox''))
            (bnd (reads (\<lambda>x. count_rows (\<lambda>r. rs_queueId r = Some (mq_id queue)) (ib_stages x))) (\<lambda>pendingRawStages.
             sq (require (pendingRawStages = 0)
                  (ServiceUnavailable ''Capture-only cannot arm a queue with pending raw MIME staging; wait for cleanup or use a fresh queue and mailbox''))
            (bnd (update_queues (\<lambda>q. locked q \<and> mq_captureRetiredAt q = None) (\<lambda>q. q\<lparr>mq_captureRetiredAt := Some (ie_now en)\<rparr>)) (\<lambda>n.
             sq (require (n = 1) stale_snapshot)
            (sq (create_audit \<lparr>ia_action = ''mail.capture_queue_retired'', ia_queueId = Some (mq_id queue), ia_deliveryId = None,
                   ia_actorStaffId = None, ia_reason = Some ''Capture-only queue armed before IMAP connection''\<rparr>)
            (ret True)))))))))"

definition armCaptureQueue :: "inbound_env \<Rightarrow> mail_queue \<Rightarrow> string \<Rightarrow> bool act_in" where
  "armCaptureQueue en queue mailbox =
     (if \<not> inboundCaptureOnlyEnabled en then ret False
      else sq (cleanupUncommittedRawStorage en) (arm_tx en queue mailbox))"

definition armCaptureQueueForConnection :: "inbound_env \<Rightarrow> nat \<Rightarrow> bool act_in" where
  "armCaptureQueueForConnection en queueId =
     bnd (reads (queue_by_id queueId)) (\<lambda>z.
       case z of
         None \<Rightarrow> throw stale_snapshot
       | Some queue \<Rightarrow>
           sq (require (mq_type queue = IMAP \<and> mq_isEnabled queue) stale_snapshot)
          (bnd (captureMailbox en queue) (\<lambda>mailbox. armCaptureQueue en queue mailbox)))"

section \<open>Baselines\<close>

text \<open>The newest \<open>n\<close> of the existing messages up to the boundary, oldest first.\<close>

definition select_backfill :: "nat \<Rightarrow> int list \<Rightarrow> nat \<Rightarrow> nat list" where
  "select_backfill boundary found limit =
     (let uids = sort (map nat (filter (\<lambda>u. 0 < u \<and> u \<le> int boundary \<and> u \<le> MAX_SAFE_INTEGER) found)) in
      drop (length uids - limit) uids)"

text \<open>The cursor before the oldest selected message.\<close>

definition backfill_cursor :: "nat \<Rightarrow> nat list \<Rightarrow> nat" where
  "backfill_cursor boundary selectedUids = (case selectedUids of [] \<Rightarrow> boundary | u # _ \<Rightarrow> u - 1)"

datatype reconcile_mode = RESUME_MIGRATED | FROM_NOW | BACKFILL

record baseline =
  bl_uidValidity :: nat
  bl_boundary :: nat
  bl_cursor :: nat
  bl_selectedUids :: "nat list"

text \<open>\<open>client\<close> is \<open>None\<close> when no connection with the identity of the snapshot can be made.\<close>

definition captureReconcileBaseline ::
  "inbound_env \<Rightarrow> imap option \<Rightarrow> mail_queue \<Rightarrow> reconcile_mode \<Rightarrow> int \<Rightarrow> baseline act_in" where
  "captureReconcileBaseline en client snapshot mode backfillLimit =
     bnd (captureMailbox en snapshot) (\<lambda>mailbox.
     case client of
       None \<Rightarrow> throw (ServiceUnavailable ''Unable to connect to IMAP mailbox'')
     | Some im \<Rightarrow>
         sq (assertDedicatedCaptureMailbox en im mailbox)
        (sq (assertEmptyCaptureMailbox en (im_exists im))
        (case mailbox_boundary im of
           None \<Rightarrow> throw (ServiceUnavailable ''IMAP server did not provide a valid UIDVALIDITY/UIDNEXT snapshot'')
         | Some (uidValidity, boundary) \<Rightarrow>
             if mode = FROM_NOW then
               ret \<lparr>bl_uidValidity = uidValidity, bl_boundary = boundary, bl_cursor = boundary, bl_selectedUids = []\<rparr>
             else
               sq (require (1 \<le> backfillLimit \<and> backfillLimit \<le> MAX_SAFE_INTEGER)
                    (BadRequest ''BACKFILL requires a positive bounded UID count''))
              (case (if boundary = 0 then Some [] else im_search im boundary) of
                 None \<Rightarrow> throw (ServiceUnavailable ''IMAP SEARCH did not return a UID set'')
               | Some found \<Rightarrow>
                   (let selectedUids = select_backfill boundary found (nat backfillLimit) in
                    ret \<lparr>bl_uidValidity = uidValidity, bl_boundary = boundary,
                         bl_cursor = backfill_cursor boundary selectedUids, bl_selectedUids = selectedUids\<rparr>)))))"

text \<open>The first baseline of a mailbox: the row it may be written to.\<close>

definition bootstrap_row :: "inbound_env \<Rightarrow> mail_queue \<Rightarrow> string \<Rightarrow> mail_queue \<Rightarrow> bool" where
  "bootstrap_row en queue mailbox q \<longleftrightarrow>
     mq_id q = mq_id queue \<and> mq_type q = IMAP \<and> mq_isEnabled q \<and> mq_uidValidity q = None \<and>
     mq_cursorGeneration q = mq_cursorGeneration queue \<and> mq_mailboxEpoch q = mq_mailboxEpoch queue \<and>
     mq_configGeneration q = mq_configGeneration queue \<and> mq_mailbox q = mailbox \<and>
     mq_syncState q = SyncOK \<and> mq_reconcileCause q = None \<and> capture_fence en q"

definition bootstrap_cas :: "inbound_env \<Rightarrow> mail_queue \<Rightarrow> string \<Rightarrow> nat \<Rightarrow> nat \<Rightarrow> nat act_in" where
  "bootstrap_cas en queue mailbox uidValidity baseline =
     update_queues (bootstrap_row en queue mailbox)
       (\<lambda>q. q\<lparr>mq_lastSeenUid := baseline, mq_uidValidity := Some uidValidity, mq_syncState := SyncOK, mq_lastError := None,
              mq_bootstrapPolicy := None, mq_bootstrapBackfillLimit := None\<rparr>)"

text \<open>The start of a bootstrap under the policy of the queue, else of the process; \<open>None\<close> to give up.\<close>

definition bootstrap_baseline :: "inbound_env \<Rightarrow> imap \<Rightarrow> mail_queue \<Rightarrow> (nat \<times> nat) option" where
  "bootstrap_baseline en im queue =
     (case mailbox_boundary im of
        None \<Rightarrow> None
      | Some (uidValidity, boundary) \<Rightarrow>
          (let policy = (case mq_bootstrapPolicy queue of None \<Rightarrow> ie_bootstrapPolicy en | Some p \<Rightarrow> p);
               backfill = (case mq_bootstrapBackfillLimit queue of None \<Rightarrow> ie_backfillLimit en | Some n \<Rightarrow> n) in
           if policy = PolicyBackfill then
             (if backfill < 1 \<or> backfill > MAX_SAFE_INTEGER then None
              else case (if boundary = 0 then Some [] else im_search im boundary) of
                None \<Rightarrow> None
              | Some found \<Rightarrow>
                  Some (uidValidity, backfill_cursor boundary (select_backfill boundary (remdups found) (nat backfill))))
           else Some (uidValidity, boundary)))"

definition bootstrap_arm :: "inbound_env \<Rightarrow> imap \<Rightarrow> mail_queue \<Rightarrow> string \<Rightarrow> bool \<Rightarrow> mail_queue act_in" where
  "bootstrap_arm en im queue mailbox armedBefore =
     (if \<not> inboundCaptureOnlyEnabled en then ret queue
      else
        bnd (if mq_captureRetiredAt queue = None \<and> \<not> armedBefore then armCaptureQueue en queue mailbox else ret armedBefore) (\<lambda>captureArmedNow.
        sq (assertDedicatedCaptureMailbox en im mailbox)
       (sq (when_act captureArmedNow (assertEmptyCaptureMailbox en (im_exists im)))
           (ret (if mq_captureRetiredAt queue = None then queue\<lparr>mq_captureRetiredAt := Some (ie_now en)\<rparr> else queue)))))"

definition bootstrapQueue :: "inbound_env \<Rightarrow> imap \<Rightarrow> nat \<Rightarrow> bool \<Rightarrow> unit act_in" where
  "bootstrapQueue en im queueId captureArmedNow =
     bnd (reads (queue_by_id queueId)) (\<lambda>z.
     case z of
       None \<Rightarrow> ret ()
     | Some row \<Rightarrow>
         if mq_type row \<noteq> IMAP \<or> \<not> mq_isEnabled row then ret ()
         else if mq_captureRetiredAt row \<noteq> None \<and> \<not> inboundCaptureOnlyEnabled en then ret ()
         else
           bnd (captureMailbox en row) (\<lambda>mailbox.
           bnd (bootstrap_arm en im row mailbox captureArmedNow) (\<lambda>queue.
             if mq_uidValidity queue \<noteq> None \<or> mq_syncState queue \<noteq> SyncOK \<or> mq_reconcileCause queue \<noteq> None then ret ()
             else
               sq (assertDedicatedCaptureMailbox en im mailbox)
              (sq (assertEmptyCaptureMailbox en (im_exists im))
              (case bootstrap_baseline en im queue of
                 None \<Rightarrow> ret ()
               | Some (uidValidity, baseline) \<Rightarrow> bnd (bootstrap_cas en queue mailbox uidValidity baseline) (\<lambda>_. ret ()))))))"

section \<open>One poll\<close>

text \<open>The new messages of the batch, in the order they are accepted.\<close>

definition discover :: "imap \<Rightarrow> nat \<Rightarrow> nat list" where
  "discover im lastUid = sort (remdups (filter (\<lambda>u. lastUid < u) (im_uidsFrom im (lastUid + 1))))"

text \<open>
  One message of the batch: \<open>None\<close> when it vanished since the discovery. Over the limit of a capture
  test only a message with a known transport key is fetched.
\<close>

definition poll_one :: "inbound_env \<Rightarrow> imap \<Rightarrow> mail_queue \<Rightarrow> nat \<Rightarrow> nat \<Rightarrow> accept_outcome option act_in" where
  "poll_one en im queue uidValidity uid =
     bnd (captureLimitReached en (mq_id queue)) (\<lambda>full.
     bnd (reads (delivery_by_key (imap_key (mq_id queue) (mq_mailboxEpoch queue) uidValidity uid))) (\<lambda>knownTransport.
     sq (require (\<not> full \<or> knownTransport \<noteq> None)
          (ServiceUnavailable ''Inbound capture-only limit is reached; refusing to fetch another raw message''))
    (case im_fetchOne im uid of
       Inl e \<Rightarrow> throw e
     | Inr None \<Rightarrow> ret None
     | Inr (Some (source, envelope)) \<Rightarrow>
         bnd (acceptImapMessage en queue uidValidity uid source envelope) (\<lambda>outcome. ret (Some outcome)))))"

text \<open>
  The batch, up to the first failure: the greatest processed uid, the failed uid and the number of
  accepted messages.
\<close>

fun poll_batch :: "(nat \<Rightarrow> accept_outcome option act_in) \<Rightarrow> nat list \<Rightarrow> nat \<Rightarrow> nat \<Rightarrow> (nat \<times> nat option \<times> nat) act_in" where
  "poll_batch one [] processedMax acceptedCount = ret (processedMax, None, acceptedCount)"
| "poll_batch one (uid # uids) processedMax acceptedCount =
     bnd (catch_act (bnd (one uid) (\<lambda>z. ret (Some z))) (\<lambda>_. ret None)) (\<lambda>r.
       case r of
         None \<Rightarrow> ret (processedMax, Some uid, acceptedCount)
       | Some z \<Rightarrow> poll_batch one uids (max processedMax uid) (if z = Some Accepted then Suc acceptedCount else acceptedCount))"

definition poll_cursor :: "nat \<Rightarrow> nat option \<Rightarrow> nat" where
  "poll_cursor processedMax lowestFailureUid =
     (case lowestFailureUid of None \<Rightarrow> processedMax | Some f \<Rightarrow> min processedMax (f - 1))"

definition advance_cursor :: "inbound_env \<Rightarrow> mail_queue \<Rightarrow> string \<Rightarrow> nat \<Rightarrow> nat act_in" where
  "advance_cursor en queue mailbox cursor =
     update_queues (\<lambda>q. fenced_row en queue mailbox q \<and> mq_lastSeenUid q = mq_lastSeenUid queue)
       (\<lambda>q. q\<lparr>mq_lastSeenUid := cursor\<rparr>)"

definition dropLiveConnection :: "inbound_env \<Rightarrow> nat \<Rightarrow> unit act_in" where
  "dropLiveConnection en queueId =
     stampQueue queueId (\<lambda>q. q\<lparr>mq_live := (mq_live q)\<lparr>ql_lastDisconnectedAt := Some (ie_now en)\<rparr>\<rparr>)"

text \<open>The part of a poll before the lock: the snapshot to poll with, or \<open>None\<close> to skip.\<close>

definition poll_prepare :: "inbound_env \<Rightarrow> imap \<Rightarrow> mail_queue \<Rightarrow> (mail_queue \<times> string) act_in" where
  "poll_prepare en im row =
     bnd (captureMailbox en row) (\<lambda>mailbox.
       if \<not> inboundCaptureOnlyEnabled en then ret (row, mailbox)
       else
         bnd (if mq_captureRetiredAt row = None then armCaptureQueue en row mailbox else ret False) (\<lambda>captureArmedNow.
         sq (assertDedicatedCaptureMailbox en im mailbox)
        (sq (when_act captureArmedNow (assertEmptyCaptureMailbox en (im_exists im)))
            (ret (if mq_captureRetiredAt row = None then row\<lparr>mq_captureRetiredAt := Some (ie_now en)\<rparr> else row, mailbox)))))"

definition poll_refused :: "inbound_env \<Rightarrow> nat \<Rightarrow> unit act_in" where
  "poll_refused en queueId =
     sq (dropLiveConnection en queueId)
        (stampQueue queueId (\<lambda>q. q\<lparr>mq_live := (mq_live q)\<lparr>ql_lastConnectionErrorAt := Some (ie_now en)\<rparr>,
           mq_lastError := Some ''Capture-only requires a TLS-enabled, canonical dedicated IMAP test folder''\<rparr>))"

text \<open>The part under the mailbox lock; whether the poll went through.\<close>

definition poll_locked :: "inbound_env \<Rightarrow> imap \<Rightarrow> mail_queue \<Rightarrow> string \<Rightarrow> bool act_in" where
  "poll_locked en im queue mailbox =
     (case im_uidValidity im of
        None \<Rightarrow> ret False
      | Some uidValidity \<Rightarrow>
          if mq_uidValidity queue \<noteq> Some uidValidity then
            bnd (haltImapSnapshot en queue UIDVALIDITY_CHANGED ''UIDVALIDITY changed'') (\<lambda>_. ret False)
          else
            bnd (poll_batch (poll_one en im queue uidValidity) (discover im (mq_lastSeenUid queue)) (mq_lastSeenUid queue) 0) (\<lambda>(processedMax, lowestFailureUid, acceptedCount).
            let cursor = poll_cursor processedMax lowestFailureUid in
            sq (if cursor > mq_lastSeenUid queue then bnd (advance_cursor en queue mailbox cursor) (\<lambda>_. ret ()) else ret ())
           (sq (stampQueue (mq_id queue) (\<lambda>q. q\<lparr>mq_live := (mq_live q)\<lparr>ql_lastPollAt := Some (ie_now en),
                  ql_lastAcceptedAt := (if acceptedCount > 0 then Some (ie_now en) else ql_lastAcceptedAt (mq_live q))\<rparr>\<rparr>))
               (ret True))))"

text \<open>\<open>drain\<close> is \<open>drainDeliveries\<close>.\<close>

definition pollQueueOnce :: "inbound_env \<Rightarrow> imap \<Rightarrow> unit act_in \<Rightarrow> nat \<Rightarrow> unit act_in" where
  "pollQueueOnce en im drain queueId =
     bnd (reads (queue_by_id queueId)) (\<lambda>z.
     case z of
       None \<Rightarrow> ret ()
     | Some row \<Rightarrow>
         if \<not> mq_isEnabled row \<or> mq_type row \<noteq> IMAP \<or> \<not> acceptsQueue en queueId then ret ()
         else if mq_captureRetiredAt row \<noteq> None \<and> \<not> inboundCaptureOnlyEnabled en then dropLiveConnection en queueId
         else
           bnd (catch_act (bnd (poll_prepare en im row) (\<lambda>p. ret (Some p))) (\<lambda>_. ret None)) (\<lambda>prepared.
             case prepared of
               None \<Rightarrow> poll_refused en queueId
             | Some (queue, mailbox) \<Rightarrow>
                 if mq_syncState queue \<noteq> SyncOK then ret ()
                 else if mq_uidValidity queue = None then bootstrapQueue en im queueId False
                 else bnd (poll_locked en im queue mailbox) (\<lambda>polled.
                   when_act (polled \<and> inboundProcessingEnabled en) drain)))"

definition pollQueue :: "inbound_env \<Rightarrow> imap \<Rightarrow> unit act_in \<Rightarrow> nat \<Rightarrow> unit act_in" where
  "pollQueue en im drain queueId =
     (if \<not> inboundAcceptanceEnabled en \<or> \<not> acceptsQueue en queueId then ret ()
      else
        sq (stampQueue queueId (\<lambda>q. q\<lparr>mq_live := (mq_live q)\<lparr>ql_lastPollStartedAt := Some (ie_now en)\<rparr>\<rparr>))
       (let stamp_done = stampQueue queueId (\<lambda>q. q\<lparr>mq_live := (mq_live q)\<lparr>ql_lastPollCompletedAt := Some (ie_now en)\<rparr>\<rparr>) in
        sq (catch_act (pollQueueOnce en im drain queueId) (\<lambda>e. sq stamp_done (throw e))) stamp_done))"

end
