(* ===== verification/QueueAdmin.thy ===== *)
theory QueueAdmin
  imports ImapPoll JsValue
begin

text \<open>
  The operator's side of inbound mail (\<open>mail/email-queue.service.ts\<close>): creating, editing and deleting
  queues, the two-phase reconcile of an IMAP cursor, the replay of a quarantined delivery and the
  promotion of a captured one. The department scope \<open>sc\<close> is the result of \<open>mailScope\<close>.
\<close>

section \<open>Modes of a reconcile\<close>

fun allowedReconcileModes :: "reconcile_cause option \<Rightarrow> reconcile_mode list" where
  "allowedReconcileModes (Some LEGACY_MIGRATION) = [RESUME_MIGRATED, FROM_NOW, BACKFILL]"
| "allowedReconcileModes (Some UIDVALIDITY_CHANGED) = [FROM_NOW, BACKFILL]"
| "allowedReconcileModes (Some MAILBOX_IDENTITY_CHANGED) = [FROM_NOW, BACKFILL]"
| "allowedReconcileModes (Some TRANSPORT_COLLISION) = [FROM_NOW, BACKFILL]"
| "allowedReconcileModes (Some UNKNOWN) = [FROM_NOW, BACKFILL]"
| "allowedReconcileModes (Some MANUAL_FORCE) = []"
| "allowedReconcileModes None = []"

definition withAllowedModes :: "mail_queue \<Rightarrow> mail_queue \<times> reconcile_mode list" where
  "withAllowedModes queue =
     (queue, if mq_captureRetiredAt queue \<noteq> None \<or> mq_syncState queue = SyncOK then []
             else allowedReconcileModes (mq_reconcileCause queue))"

definition scoped_row :: "department_scope \<Rightarrow> nat \<Rightarrow> mail_queue \<Rightarrow> bool" where
  "scoped_row sc i q \<longleftrightarrow> mq_id q = i \<and> queueWhereForScope sc (mq_departmentId q)"

definition scoped_queue :: "department_scope \<Rightarrow> nat \<Rightarrow> mail_queue act_in" where
  "scoped_queue sc i =
     bnd (reads (\<lambda>x. find_row (scoped_row sc i) (ib_queues x))) (\<lambda>z.
       case z of None \<Rightarrow> throw (NotFound ''EmailQueue not found'') | Some q \<Rightarrow> ret q)"

section \<open>Create\<close>

text \<open>Passwords are stored encrypted, or not at all.\<close>

definition encryptQueuePassword :: "inbound_env \<Rightarrow> (string \<Rightarrow> string \<Rightarrow> string) \<Rightarrow> string option \<Rightarrow> string act_in" where
  "encryptQueuePassword en encrypt password =
     (case password of
        None \<Rightarrow> ret ''''
      | Some value \<Rightarrow>
          if value = '''' then ret ''''
          else (case ie_encryptionKey en of
            None \<Rightarrow> throw (ServiceUnavailable ''Email queue credentials cannot be stored until a valid field-encryption key is configured'')
          | Some key \<Rightarrow>
              sq (require (captureEncryptionReady en)
                   (ServiceUnavailable ''Email queue credentials cannot be stored until a valid field-encryption key is configured''))
                 (ret (encrypt value key))))"

definition requested_mailbox :: "string \<Rightarrow> string act_in" where
  "requested_mailbox value =
     (case normalizeImapMailbox value of
        None \<Rightarrow> throw (BadRequest ''mailbox must be a non-empty IMAP folder name up to 255 characters'')
      | Some m \<Rightarrow> ret m)"

definition readPersistedImapMailbox :: "string \<Rightarrow> string act_in" where
  "readPersistedImapMailbox value =
     (case readCanonicalImapMailbox value of
        None \<Rightarrow> throw (ServiceUnavailable ''Configured IMAP mailbox is invalid or non-canonical'')
      | Some m \<Rightarrow> ret m)"

text \<open>The fields of the queue form; \<open>None\<close> is a field the request leaves out.\<close>

record queue_patch =
  qp_type :: "queue_type option"
  qp_emailAddress :: "string option"
  qp_host :: "string option"
  qp_port :: "nat option"
  qp_username :: "string option"
  qp_password :: "string option"
  qp_useTls :: "bool option"
  qp_mailbox :: "string option"
  qp_departmentId :: "nat option option"
  qp_signature :: "string option"
  qp_routingPriority :: "int option"
  qp_sendAutoresponder :: "bool option"
  qp_isEnabled :: "bool option"

definition or_else :: "'a \<Rightarrow> 'a option \<Rightarrow> 'a" where
  "or_else y z = (case z of None \<Rightarrow> y | Some v \<Rightarrow> v)"

definition new_queue :: "queue_patch \<Rightarrow> string \<Rightarrow> string \<Rightarrow> nat \<Rightarrow> mail_queue" where
  "new_queue p mailbox passwordEnc i =
     \<lparr>mq_id = i, mq_type = or_else IMAP (qp_type p), mq_emailAddress = or_else '''' (qp_emailAddress p),
      mq_host = or_else '''' (qp_host p), mq_port = or_else 993 (qp_port p), mq_username = or_else '''' (qp_username p),
      mq_passwordEnc = passwordEnc, mq_useTls = or_else True (qp_useTls p), mq_mailbox = mailbox,
      mq_departmentId = or_else None (qp_departmentId p), mq_signature = or_else '''' (qp_signature p),
      mq_routingPriority = or_else 100 (qp_routingPriority p), mq_sendAutoresponder = or_else False (qp_sendAutoresponder p),
      mq_configGeneration = 0, mq_isEnabled = or_else False (qp_isEnabled p), mq_lastSeenUid = 0, mq_uidValidity = None,
      mq_syncState = SyncOK, mq_lastError = None, mq_cursorGeneration = 0, mq_mailboxEpoch = 1, mq_reconcileCause = None,
      mq_reconcileRequestedAt = None, mq_bootstrapPolicy = None, mq_bootstrapBackfillLimit = None,
      mq_captureRetiredAt = None, mq_live = no_live\<rparr>"

definition lift_db :: "db \<Rightarrow> 'a act_db \<Rightarrow> 'a act_in" where
  "lift_db d m x = (fst (m d), x)"

definition create_queue ::
  "inbound_env \<Rightarrow> (string \<Rightarrow> string \<Rightarrow> string) \<Rightarrow> department_scope \<Rightarrow> db \<Rightarrow> queue_patch \<Rightarrow> mail_queue act_in" where
  "create_queue en encrypt sc d p =
     sq (lift_db d (assertCanTargetQueueDepartment sc (or_else None (qp_departmentId p))))
    (bnd (requested_mailbox (or_else ''INBOX'' (qp_mailbox p))) (\<lambda>mailbox.
     bnd (encryptQueuePassword en encrypt (qp_password p)) (\<lambda>passwordEnc.
     bnd (reads (\<lambda>x. list_ex (\<lambda>q. Some (mq_emailAddress q) = qp_emailAddress p) (ib_queues x))) (\<lambda>taken.
     sq (require (\<not> taken) (UniqueViolation ''emailAddress''))
    (bnd (reads ib_seq_queue) (\<lambda>i.
     let q = new_queue p mailbox passwordEnc i in
     sq (modify (\<lambda>x. x\<lparr>ib_queues := ib_queues x @ [q], ib_seq_queue := Suc i\<rparr>)) (ret q)))))))"

section \<open>Update\<close>

definition patch_empty_but_enabled :: "queue_patch \<Rightarrow> bool" where
  "patch_empty_but_enabled p \<longleftrightarrow>
     qp_isEnabled p = Some False \<and> qp_type p = None \<and> qp_emailAddress p = None \<and> qp_host p = None \<and> qp_port p = None \<and>
     qp_username p = None \<and> qp_password p = None \<and> qp_useTls p = None \<and> qp_mailbox p = None \<and> qp_departmentId p = None \<and>
     qp_signature p = None \<and> qp_routingPriority p = None \<and> qp_sendAutoresponder p = None"

definition changes :: "'a \<Rightarrow> 'a option \<Rightarrow> bool" where
  "changes old z \<longleftrightarrow> (case z of None \<Rightarrow> False | Some v \<Rightarrow> v \<noteq> old)"

definition identity_changed :: "mail_queue \<Rightarrow> queue_patch \<Rightarrow> string \<Rightarrow> bool" where
  "identity_changed current p nextMailbox \<longleftrightarrow>
     (mq_type current = IMAP \<or> or_else (mq_type current) (qp_type p) = IMAP) \<and>
     (changes (mq_type current) (qp_type p) \<or> changes (mq_host current) (qp_host p) \<or> changes (mq_port current) (qp_port p) \<or>
      changes (mq_username current) (qp_username p) \<or> changes (mq_useTls current) (qp_useTls p) \<or>
      nextMailbox \<noteq> mq_mailbox current)"

definition write_patch_queue :: "queue_patch \<Rightarrow> string \<Rightarrow> string option \<Rightarrow> mail_queue \<Rightarrow> mail_queue" where
  "write_patch_queue p mailbox passwordEnc q =
     q\<lparr>mq_type := or_else (mq_type q) (qp_type p), mq_emailAddress := or_else (mq_emailAddress q) (qp_emailAddress p),
       mq_host := or_else (mq_host q) (qp_host p), mq_port := or_else (mq_port q) (qp_port p),
       mq_username := or_else (mq_username q) (qp_username p), mq_passwordEnc := or_else (mq_passwordEnc q) passwordEnc,
       mq_useTls := or_else (mq_useTls q) (qp_useTls p), mq_mailbox := (if qp_mailbox p = None then mq_mailbox q else mailbox),
       mq_departmentId := or_else (mq_departmentId q) (qp_departmentId p), mq_signature := or_else (mq_signature q) (qp_signature p),
       mq_routingPriority := or_else (mq_routingPriority q) (qp_routingPriority p),
       mq_sendAutoresponder := or_else (mq_sendAutoresponder q) (qp_sendAutoresponder p),
       mq_isEnabled := or_else (mq_isEnabled q) (qp_isEnabled p), mq_configGeneration := Suc (mq_configGeneration q)\<rparr>"

definition reset_cursor :: "mail_queue \<Rightarrow> mail_queue" where
  "reset_cursor q =
     q\<lparr>mq_uidValidity := None, mq_lastSeenUid := 0, mq_syncState := NEEDS_RECONCILIATION,
       mq_reconcileCause := Some MAILBOX_IDENTITY_CHANGED, mq_reconcileRequestedAt := None,
       mq_lastError := Some ''Mailbox identity changed; cursor reset'', mq_cursorGeneration := Suc (mq_cursorGeneration q),
       mq_mailboxEpoch := Suc (mq_mailboxEpoch q), mq_bootstrapPolicy := None, mq_bootstrapBackfillLimit := None\<rparr>"

definition update_fence :: "department_scope \<Rightarrow> mail_queue \<Rightarrow> mail_queue \<Rightarrow> bool" where
  "update_fence sc current q \<longleftrightarrow>
     scoped_row sc (mq_id current) q \<and> mq_configGeneration q = mq_configGeneration current \<and> mq_syncState q = mq_syncState current \<and>
     mq_cursorGeneration q = mq_cursorGeneration current \<and> mq_mailboxEpoch q = mq_mailboxEpoch current \<and>
     mq_captureRetiredAt q = mq_captureRetiredAt current"

text \<open>The checks between reading the row and writing it.\<close>

definition update_checks :: "mail_queue \<Rightarrow> queue_patch \<Rightarrow> nat \<Rightarrow> unit act_in" where
  "update_checks current p expectedConfigGeneration =
     sq (require (mq_captureRetiredAt current = None \<or> patch_empty_but_enabled p)
          (Conflict ''This capture-only queue is permanently retired from normal ingress; create a new queue and mailbox instead''))
    (sq (require (mq_syncState current \<noteq> BOOTSTRAPPING)
          (Conflict ''Queue is reconciling; reload after the IMAP baseline completes''))
        (require (expectedConfigGeneration = mq_configGeneration current)
          (Conflict ''Queue configuration changed; reload and retry'')))"

definition update_write :: "department_scope \<Rightarrow> mail_queue \<Rightarrow> queue_patch \<Rightarrow> string \<Rightarrow> string option \<Rightarrow> unit act_in" where
  "update_write sc current p nextMailbox passwordEnc =
     bnd (update_queues (update_fence sc current)
            (\<lambda>q. let q' = write_patch_queue p nextMailbox passwordEnc q in
                 if identity_changed current p nextMailbox then reset_cursor q' else q')) (\<lambda>n.
       require (n = 1) (Conflict ''Queue changed concurrently; reload and retry''))"

definition update_queue ::
  "inbound_env \<Rightarrow> (string \<Rightarrow> string \<Rightarrow> string) \<Rightarrow> department_scope \<Rightarrow> db \<Rightarrow> nat \<Rightarrow> nat \<Rightarrow> queue_patch \<Rightarrow>
   (mail_queue \<times> reconcile_mode list) act_in" where
  "update_queue en encrypt sc d i expectedConfigGeneration p =
     sq (case qp_departmentId p of None \<Rightarrow> ret () | Some dep \<Rightarrow> lift_db d (assertCanTargetQueueDepartment sc dep))
    (bnd (scoped_queue sc i) (\<lambda>current.
     sq (update_checks current p expectedConfigGeneration)
    (bnd (case qp_mailbox p of None \<Rightarrow> ret None | Some m \<Rightarrow> bnd (requested_mailbox m) (\<lambda>r. ret (Some r))) (\<lambda>requested.
     bnd (case qp_password p of None \<Rightarrow> ret None | Some w \<Rightarrow> bnd (encryptQueuePassword en encrypt (Some w)) (\<lambda>c. ret (Some c))) (\<lambda>passwordEnc.
     bnd (readPersistedImapMailbox (mq_mailbox current)) (\<lambda>currentMailbox.
     let nextMailbox = or_else currentMailbox requested in
     sq (require (\<not> (inboundCaptureOnlyEnabled en \<and> ie_captureQueueId en = Some (int i) \<and>
            or_else (mq_type current) (qp_type p) = IMAP \<and> isKnownUnsafeCaptureMailbox nextMailbox))
          (BadRequest ''Capture-only requires an empty dedicated IMAP test folder; Inbox and provider special-use folders are refused''))
    (sq (update_write sc current p nextMailbox passwordEnc)
    (bnd (scoped_queue sc i) (\<lambda>r. ret (withAllowedModes r))))))))))"

section \<open>Delete\<close>

text \<open>Deliveries, reservations and claims of a deleted queue keep their rows without it.\<close>

definition orphan_rows :: "nat \<Rightarrow> inbox \<Rightarrow> inbox" where
  "orphan_rows i x =
     x\<lparr>ib_deliveries := map (\<lambda>v. v\<lparr>dv_queueId := (if dv_queueId v = Some i then None else dv_queueId v),
           dv_routedQueueId := (if dv_routedQueueId v = Some i then None else dv_routedQueueId v)\<rparr>) (ib_deliveries x),
       ib_stages := map (\<lambda>r. r\<lparr>rs_queueId := (if rs_queueId r = Some i then None else rs_queueId r)\<rparr>) (ib_stages x),
       ib_claims := map (\<lambda>c. c\<lparr>mc_routedQueueId := (if mc_routedQueueId c = Some i then None else mc_routedQueueId c)\<rparr>) (ib_claims x)\<rparr>"

definition delete_queue :: "department_scope \<Rightarrow> nat \<Rightarrow> nat \<Rightarrow> unit act_in" where
  "delete_queue sc i expectedConfigGeneration =
     bnd (scoped_queue sc i) (\<lambda>current.
     sq (require (mq_captureRetiredAt current = None)
          (Conflict ''This capture-only queue is permanently retired and cannot be deleted; create a new queue and mailbox instead''))
    (sq (require (mq_syncState current \<noteq> BOOTSTRAPPING)
          (Conflict ''Queue is reconciling; it cannot be deleted until the IMAP baseline completes''))
    (sq (require (expectedConfigGeneration = mq_configGeneration current)
          (Conflict ''Queue configuration changed; reload and retry''))
    (let doomed = (\<lambda>q. scoped_row sc i q \<and> mq_configGeneration q = mq_configGeneration current \<and>
           mq_syncState q \<noteq> BOOTSTRAPPING \<and> mq_captureRetiredAt q = None) in
     bnd (reads (\<lambda>x. count_rows doomed (ib_queues x))) (\<lambda>n.
     sq (modify (\<lambda>x. if n = 0 then x else orphan_rows i (x\<lparr>ib_queues := delete_rows doomed (ib_queues x)\<rparr>)))
        (require (n = 1) (Conflict ''Queue changed concurrently; reload and retry'')))))))"

section \<open>Reconcile\<close>

text \<open>The request; \<open>rq_staffId\<close> is the operator.\<close>

record reconcile_request =
  rq_mode :: reconcile_mode
  rq_expectedCursorGeneration :: nat
  rq_backfillLimit :: "int option"
  rq_reason :: string
  rq_staffId :: nat

definition assertReconcileAllowed :: "mail_queue \<Rightarrow> reconcile_request \<Rightarrow> unit act_in" where
  "assertReconcileAllowed before rq =
     sq (require (mq_type before = IMAP) (BadRequest ''Reconcile applies only to IMAP queues''))
    (sq (require (mq_syncState before \<noteq> SyncOK)
          (BadRequest ''A healthy queue cannot be reconciled through the standard endpoint''))
    (sq (require (rq_expectedCursorGeneration rq = mq_cursorGeneration before)
          (Conflict ''Queue cursor generation changed; reload and retry''))
        (require (rq_mode rq \<in> set (allowedReconcileModes (mq_reconcileCause before)))
          (BadRequest ''Reconcile mode is not allowed for the cause''))))"

definition assertCaptureReconcileScope :: "inbound_env \<Rightarrow> mail_queue \<Rightarrow> reconcile_mode \<Rightarrow> unit act_in" where
  "assertCaptureReconcileScope en before mode =
     (if \<not> inboundCaptureOnlyEnabled en then ret ()
      else
        sq (require (captureQueueId en = Some (mq_id before))
             (Conflict ''Capture-only mode permits reconcile only for its explicitly selected test queue''))
       (sq (require (mode = FROM_NOW)
             (Conflict ''Capture-only permits only FROM_NOW; historical mailbox import is refused for the attended test''))
       (sq (require (mq_type before = IMAP \<longrightarrow> mq_useTls before)
             (Conflict ''Capture-only requires implicit TLS for the selected IMAP test queue''))
       (when_act (mq_type before = IMAP)
         (bnd (readPersistedImapMailbox (mq_mailbox before)) (\<lambda>mailbox.
            require (\<not> isKnownUnsafeCaptureMailbox mailbox)
              (Conflict ''Capture-only requires an empty dedicated IMAP test folder; Inbox and provider special-use folders are refused'')))))))"

definition appendReconcileAudit :: "string \<Rightarrow> nat \<Rightarrow> reconcile_request \<Rightarrow> unit act_in" where
  "appendReconcileAudit action queueId rq =
     create_audit \<lparr>ia_action = action, ia_queueId = Some queueId, ia_deliveryId = None,
       ia_actorStaffId = Some (rq_staffId rq), ia_reason = Some (rq_reason rq)\<rparr>"

text \<open>The row the statements of a reconcile select: as it was read, but for the given sync state and cause.\<close>

definition reconcile_fence ::
  "department_scope \<Rightarrow> mail_queue \<Rightarrow> string \<Rightarrow> sync_state \<Rightarrow> reconcile_cause option \<Rightarrow> mail_queue \<Rightarrow> bool" where
  "reconcile_fence sc snapshot mailbox st cause q \<longleftrightarrow>
     scoped_row sc (mq_id snapshot) q \<and> mq_type q = IMAP \<and> mq_syncState q = st \<and> mq_reconcileCause q = cause \<and>
     mq_cursorGeneration q = mq_cursorGeneration snapshot \<and> mq_mailboxEpoch q = mq_mailboxEpoch snapshot \<and>
     mq_configGeneration q = mq_configGeneration snapshot \<and> mq_mailbox q = mailbox \<and>
     mq_captureRetiredAt q = mq_captureRetiredAt snapshot"

definition begin_row :: "inbound_env \<Rightarrow> mail_queue \<Rightarrow> mail_queue" where
  "begin_row en q =
     q\<lparr>mq_syncState := BOOTSTRAPPING, mq_cursorGeneration := Suc (mq_cursorGeneration q), mq_uidValidity := None,
       mq_lastSeenUid := 0, mq_bootstrapPolicy := None, mq_bootstrapBackfillLimit := None,
       mq_reconcileRequestedAt := Some (ie_now en), mq_lastError := None\<rparr>"

text \<open>The first phase makes every poller of the old cursor stale and returns the row to baseline.\<close>

definition beginMailboxReconcile ::
  "inbound_env \<Rightarrow> department_scope \<Rightarrow> mail_queue \<Rightarrow> reconcile_request \<Rightarrow> mail_queue act_in" where
  "beginMailboxReconcile en sc before rq =
     db_txn (
       bnd (readPersistedImapMailbox (mq_mailbox before)) (\<lambda>mailbox.
       bnd (update_queues (reconcile_fence sc before mailbox (mq_syncState before) (mq_reconcileCause before)) (begin_row en)) (\<lambda>n.
       sq (require (n = 1) (Conflict ''Queue changed while reconcile was requested; reload and retry''))
      (sq (appendReconcileAudit ''mail.reconcile_requested'' (mq_id before) rq)
      (bnd (reads (\<lambda>x. find_row (scoped_row sc (mq_id before)) (ib_queues x))) (\<lambda>started.
       case started of
         None \<Rightarrow> throw (Conflict ''Queue disappeared while reconcile was requested'')
       | Some q \<Rightarrow> bnd (readPersistedImapMailbox (mq_mailbox q)) (\<lambda>m. ret (q\<lparr>mq_mailbox := m\<rparr>))))))))"

definition complete_row :: "nat \<Rightarrow> nat \<Rightarrow> mail_queue \<Rightarrow> mail_queue" where
  "complete_row uidValidity cursor q =
     q\<lparr>mq_uidValidity := Some uidValidity, mq_lastSeenUid := cursor, mq_syncState := SyncOK, mq_reconcileCause := None,
       mq_reconcileRequestedAt := None, mq_lastError := None, mq_bootstrapPolicy := None, mq_bootstrapBackfillLimit := None\<rparr>"

definition completeMailboxReconcile ::
  "department_scope \<Rightarrow> mail_queue \<Rightarrow> reconcile_cause option \<Rightarrow> reconcile_request \<Rightarrow> baseline \<Rightarrow> mail_queue act_in" where
  "completeMailboxReconcile sc started cause rq bl =
     db_txn (
       bnd (update_queues (reconcile_fence sc started (mq_mailbox started) BOOTSTRAPPING cause)
              (complete_row (bl_uidValidity bl) (bl_cursor bl))) (\<lambda>n.
       sq (require (n = 1) (Conflict ''Queue changed while IMAP baseline was captured; baseline was discarded''))
      (sq (appendReconcileAudit ''mail.reconcile_completed'' (mq_id started) rq)
      (bnd (reads (\<lambda>x. find_row (scoped_row sc (mq_id started)) (ib_queues x))) (\<lambda>z.
       case z of
         None \<Rightarrow> throw (Conflict ''Queue disappeared while completing reconcile'')
       | Some q \<Rightarrow> ret q)))))"

definition fail_row :: "string \<Rightarrow> mail_queue \<Rightarrow> mail_queue" where
  "fail_row message q =
     q\<lparr>mq_syncState := NEEDS_RECONCILIATION, mq_lastError := Some (take 1000 (''Reconcile baseline failed: '' @ message)),
       mq_bootstrapPolicy := None, mq_bootstrapBackfillLimit := None\<rparr>"

definition failMailboxReconcile ::
  "department_scope \<Rightarrow> mail_queue \<Rightarrow> reconcile_cause option \<Rightarrow> reconcile_request \<Rightarrow> string \<Rightarrow> unit act_in" where
  "failMailboxReconcile sc started cause rq message =
     db_txn (
       bnd (update_queues (reconcile_fence sc started (mq_mailbox started) BOOTSTRAPPING cause) (fail_row message)) (\<lambda>n.
       sq (require (n = 1) (Conflict ''Queue changed while IMAP baseline failed; no stale failure state was written''))
          (appendReconcileAudit ''mail.reconcile_failed'' (mq_id started) rq)))"

text \<open>
  The cursor the previous poller kept in the settings: its state as JSON, else the bare watermark.
  Numbers are rationals, as JSON has them.
\<close>

record legacy_cursor =
  lc_uidValidity :: "nat option"
  lc_watermark :: rat
  lc_pendingUids :: "rat list"

definition safe_nat :: "js \<Rightarrow> rat option" where
  "safe_nat v = (case v of JNum r \<Rightarrow> if safe_integer r \<and> r \<ge> 0 then Some r else None | _ \<Rightarrow> None)"

definition pending_uid :: "js \<Rightarrow> rat option" where
  "pending_uid f =
     (case (js_prop f ''status'', js_prop f ''uid'') of
        (JStr s, JNum r) \<Rightarrow> if s = ''pending'' then Some r else None
      | _ \<Rightarrow> None)"

definition legacy_uidValidity :: "js \<Rightarrow> nat option" where
  "legacy_uidValidity v =
     (case v of JStr s \<Rightarrow> if s \<noteq> '''' \<and> list_all is_digit s then Some (digits_val s) else None | _ \<Rightarrow> None)"

definition readLegacyCursor :: "js option \<Rightarrow> js option \<Rightarrow> legacy_cursor option" where
  "readLegacyCursor stateValue lastSeenValue =
     (case (case stateValue of None \<Rightarrow> None | Some st \<Rightarrow> map_option (Pair st) (safe_nat (js_prop st ''watermark''))) of
        Some (st, watermark) \<Rightarrow>
          Some \<lparr>lc_uidValidity = legacy_uidValidity (js_prop st ''uidValidity''), lc_watermark = watermark,
                lc_pendingUids = (case js_prop st ''failures'' of JArr fs \<Rightarrow> List.map_filter pending_uid fs | _ \<Rightarrow> [])\<rparr>
      | None \<Rightarrow>
          (case (case lastSeenValue of None \<Rightarrow> None | Some v \<Rightarrow> safe_nat v) of
             None \<Rightarrow> None
           | Some r \<Rightarrow> Some \<lparr>lc_uidValidity = None, lc_watermark = r, lc_pendingUids = []\<rparr>))"

text \<open>Before the oldest message that was still pending.\<close>

definition resume_cursor :: "legacy_cursor \<Rightarrow> rat" where
  "resume_cursor lc =
     (case lc_pendingUids lc of
        [] \<Rightarrow> max (lc_watermark lc) 0
      | u # us \<Rightarrow> max (min (lc_watermark lc) (foldl min u us - 1)) 0)"

definition resume_row :: "nat \<Rightarrow> nat \<Rightarrow> mail_queue \<Rightarrow> mail_queue" where
  "resume_row uidValidity cursor q = (complete_row uidValidity cursor q)\<lparr>mq_cursorGeneration := Suc (mq_cursorGeneration q)\<rparr>"

definition resumeLegacyReconcile ::
  "department_scope \<Rightarrow> legacy_cursor option \<Rightarrow> mail_queue \<Rightarrow> reconcile_request \<Rightarrow> mail_queue act_in" where
  "resumeLegacyReconcile sc legacy before rq =
     (case legacy of
        None \<Rightarrow> throw (BadRequest ''No legacy IMAP cursor found for the queue'')
      | Some lc \<Rightarrow>
          (case lc_uidValidity lc of
             None \<Rightarrow> throw (BadRequest ''Legacy cursor has no UIDVALIDITY and cannot be resumed safely'')
           | Some uidValidity \<Rightarrow>
               db_txn (
                 bnd (readPersistedImapMailbox (mq_mailbox before)) (\<lambda>mailbox.
                 sq (require (rat_is_int (resume_cursor lc)) (Failure ''RangeError''))
                (bnd (update_queues (reconcile_fence sc before mailbox (mq_syncState before) (Some LEGACY_MIGRATION))
                        (resume_row uidValidity (nat (rat_int (resume_cursor lc))))) (\<lambda>n.
                 sq (require (n = 1) (Conflict ''Queue changed while legacy reconcile was requested''))
                (sq (appendReconcileAudit ''mail.reconcile_requested'' (mq_id before) rq)
                (sq (appendReconcileAudit ''mail.reconcile_completed'' (mq_id before) rq)
                (bnd (reads (\<lambda>x. find_row (scoped_row sc (mq_id before)) (ib_queues x))) (\<lambda>z.
                 case z of
                   None \<Rightarrow> throw (Conflict ''Queue disappeared while completing legacy reconcile'')
                 | Some q \<Rightarrow> ret q))))))))))"

text \<open>
  The whole operation. \<open>worker\<close> is the mail service of the process, when it runs one: the connection
  it makes for a row.
\<close>

definition reconcile ::
  "inbound_env \<Rightarrow> department_scope \<Rightarrow> (mail_queue \<Rightarrow> imap option) option \<Rightarrow> (nat \<Rightarrow> legacy_cursor option) \<Rightarrow> nat \<Rightarrow>
   reconcile_request \<Rightarrow> (mail_queue \<times> reconcile_mode list) act_in" where
  "reconcile en sc worker legacy i rq =
     bnd (scoped_queue sc i) (\<lambda>before.
     sq (require (mq_captureRetiredAt before = None)
          (Conflict ''This capture-only queue is permanently retired and cannot be reconciled; create a new queue and mailbox instead''))
    (sq (require (\<not> inboundCaptureOnlyEnabled en)
          (Conflict ''Capture-only queues are armed and baselined only by the capture supervisor; reconcile is disabled for this attended test''))
    (sq (assertCaptureReconcileScope en before (rq_mode rq))
    (sq (assertReconcileAllowed before rq)
    (if rq_mode rq = RESUME_MIGRATED then
       bnd (resumeLegacyReconcile sc (legacy (mq_id before)) before rq) (\<lambda>q. ret (withAllowedModes q))
     else
       bnd (beginMailboxReconcile en sc before rq) (\<lambda>started.
       case worker of
         None \<Rightarrow>
           sq (failMailboxReconcile sc started (mq_reconcileCause before) rq ''IMAP reconcile worker unavailable'')
              (throw (ServiceUnavailable ''IMAP reconcile worker unavailable; queue remains halted''))
       | Some client \<Rightarrow>
           bnd (catch_act (bnd (captureReconcileBaseline en (client started) started (rq_mode rq) (or_else 0 (rq_backfillLimit rq)))
                  (\<lambda>bl. ret (Some bl))) (\<lambda>_. ret None)) (\<lambda>z.
             case z of
               None \<Rightarrow>
                 sq (failMailboxReconcile sc started (mq_reconcileCause before) rq ''IMAP baseline capture failed'')
                    (throw (ServiceUnavailable ''IMAP baseline was not captured: IMAP baseline capture failed''))
             | Some bl \<Rightarrow>
                 bnd (completeMailboxReconcile sc started (mq_reconcileCause before) rq bl) (\<lambda>q. ret (withAllowedModes q)))))))))"

section \<open>Replay and promotion\<close>

definition delivery_owner_of :: "delivery \<Rightarrow> delivery_owner" where
  "delivery_owner_of v = \<lparr>dl_id = dv_id v, dl_effectiveOwnerKind = dv_ownerKind v,
     dl_effectiveOwnerDepartmentId = dv_ownerDepartmentId v, dl_effectiveOwnerTicketId = dv_ownerTicketId v\<rparr>"

definition lockDeliveryQueueCaptureState :: "nat option \<Rightarrow> bool \<Rightarrow> bool act_in" where
  "lockDeliveryQueueCaptureState queueId expectCaptureRetired =
     (case queueId of
        None \<Rightarrow> ret (\<not> expectCaptureRetired)
      | Some i \<Rightarrow> bnd (reads (queue_by_id i)) (\<lambda>z.
          case z of
            None \<Rightarrow> ret False
          | Some q \<Rightarrow> ret (if expectCaptureRetired then mq_captureRetiredAt q \<noteq> None else mq_captureRetiredAt q = None)))"

text \<open>The relation filter \<open>queue: { is: { captureRetiredAt: { not: null } } }\<close>.\<close>

definition queue_retired :: "inbox \<Rightarrow> delivery \<Rightarrow> bool" where
  "queue_retired x v = list_ex (\<lambda>q. dv_queueId v = Some (mq_id q) \<and> mq_captureRetiredAt q \<noteq> None) (ib_queues x)"

definition replayed :: "delivery \<Rightarrow> delivery" where
  "replayed v = v\<lparr>dv_state := DAccepted, dv_attempts := 0, dv_nextAttemptAt := None, dv_leaseOwner := None, dv_leaseExpiresAt := None\<rparr>"

definition replayQuarantined ::
  "inbound_env \<Rightarrow> department_scope \<Rightarrow> db \<Rightarrow> nat \<Rightarrow> time \<Rightarrow> string \<Rightarrow> nat \<Rightarrow> unit act_in" where
  "replayQuarantined en sc d deliveryId expectedUpdatedAt reason staffId =
     sq (require (\<not> inboundCaptureOnlyEnabled en)
          (Conflict ''Quarantined deliveries cannot be replayed while inbound capture-only mode is active''))
    (db_txn (
       bnd (reads (\<lambda>x. find_row (\<lambda>v. deliveryByIdWhereForScope deliveryId sc d (delivery_owner_of v)) (ib_deliveries x))) (\<lambda>z.
       case z of
         None \<Rightarrow> throw (NotFound ''Quarantined delivery not found'')
       | Some current \<Rightarrow>
           sq (require (dv_state current = DQuarantined) (NotFound ''Quarantined delivery not found''))
          (sq (require (\<not> dv_truncated current)
                (BadRequest ''Quarantined delivery has truncated raw MIME and cannot be replayed safely''))
          (sq (require (dv_updatedAt current = expectedUpdatedAt)
                (Conflict ''Quarantined delivery changed; refresh before replaying''))
          (bnd (lockDeliveryQueueCaptureState (dv_queueId current) False) (\<lambda>normal.
           sq (require normal
                (Conflict ''Quarantined delivery belongs to a capture-retired queue and cannot be replayed''))
          (bnd (reads queue_retired) (\<lambda>retired.
           bnd (update_deliveries en (\<lambda>v. dv_id v = deliveryId \<and> dv_state v = DQuarantined \<and> dv_updatedAt v = expectedUpdatedAt \<and>
                  \<not> retired v \<and> (ds_unrestricted sc \<or> deliveryWhereForScope sc d (delivery_owner_of v))) replayed) (\<lambda>n.
           sq (require (n = 1) (Conflict ''Quarantined delivery changed; refresh before replaying''))
              (create_audit \<lparr>ia_action = ''mail.quarantine_replay'', ia_queueId = None, ia_deliveryId = Some deliveryId,
                 ia_actorStaffId = Some staffId, ia_reason = Some reason\<rparr>)))))))))))"

definition normalCanaryPromotionScope :: "inbound_env \<Rightarrow> (nat \<times> nat) option act_in" where
  "normalCanaryPromotionScope en =
     (case (normalDeliveryCanaryQueueId en, normalDeliveryCanaryDeliveryId en) of
        (None, None) \<Rightarrow> ret None
      | (Some q, Some i) \<Rightarrow> ret (Some (q, i))
      | _ \<Rightarrow> throw (Conflict ''Inbound normal canary selector is incomplete; captured promotion is fail-closed''))"

definition assertCapturePromotionEnabled :: "inbound_env \<Rightarrow> (nat \<times> nat) act_in" where
  "assertCapturePromotionEnabled en =
     sq (require (ie_deliveryEnabled en \<and> \<not> ie_captureOnlyEnabled en)
          (Conflict ''Captured deliveries can be promoted only when inbound capture-only mode is disabled and normal delivery is enabled''))
    (bnd (normalCanaryPromotionScope en) (\<lambda>canary.
       case canary of
         None \<Rightarrow> throw (Conflict ''Captured delivery promotion requires one exact normal-canary queue and delivery selector'')
       | Some c \<Rightarrow> ret c))"

definition promoted :: "inbound_env \<Rightarrow> delivery \<Rightarrow> delivery" where
  "promoted en v =
     v\<lparr>dv_state := DAccepted, dv_capturePromotedAt := Some (ie_now en), dv_ownerKind := UNRESOLVED, dv_ownerDepartmentId := None,
       dv_ownerTicketId := None, dv_attempts := 0, dv_lastError := None, dv_nextAttemptAt := None, dv_leaseOwner := None,
       dv_leaseExpiresAt := None\<rparr>"

definition promoteCaptured ::
  "inbound_env \<Rightarrow> department_scope \<Rightarrow> db \<Rightarrow> nat \<Rightarrow> time \<Rightarrow> string \<Rightarrow> nat \<Rightarrow> unit act_in" where
  "promoteCaptured en sc d deliveryId expectedUpdatedAt reason staffId =
     bnd (assertCapturePromotionEnabled en) (\<lambda>(canaryQueueId, canaryDeliveryId).
     sq (require (canaryDeliveryId = deliveryId)
          (Conflict ''Only the selected captured delivery may be promoted during the inbound normal canary''))
    (db_txn (
       bnd (reads (\<lambda>x. find_row (\<lambda>v. deliveryByIdWhereForScope deliveryId sc d (delivery_owner_of v)) (ib_deliveries x))) (\<lambda>z.
       case z of
         None \<Rightarrow> throw (NotFound ''Captured delivery not found'')
       | Some current \<Rightarrow>
           sq (require (dv_state current = DCaptured) (NotFound ''Captured delivery not found''))
          (sq (require (dv_queueId current = Some canaryQueueId)
                (Conflict ''Selected captured delivery does not belong to the inbound normal canary queue''))
          (bnd (lockDeliveryQueueCaptureState (dv_queueId current) True) (\<lambda>retiredQueue.
           sq (require retiredQueue
                (Conflict ''Captured delivery does not belong to a capture-retired queue and cannot be promoted''))
          (sq (require (\<not> dv_truncated current)
                (BadRequest ''Captured delivery has truncated raw MIME and cannot be promoted safely''))
          (sq (require (dv_updatedAt current = expectedUpdatedAt)
                (Conflict ''Captured delivery changed; refresh before promoting''))
          (bnd (reads queue_retired) (\<lambda>retired.
           bnd (update_deliveries en (\<lambda>v. dv_id v = deliveryId \<and> dv_queueId v = Some canaryQueueId \<and> dv_state v = DCaptured \<and>
                  dv_updatedAt v = expectedUpdatedAt \<and> retired v \<and> (ds_unrestricted sc \<or> deliveryWhereForScope sc d (delivery_owner_of v)))
                  (promoted en)) (\<lambda>n.
           sq (require (n = 1) (Conflict ''Captured delivery changed; refresh before promoting''))
              (create_audit \<lparr>ia_action = ''mail.capture_promoted'', ia_queueId = None, ia_deliveryId = Some deliveryId,
                 ia_actorStaffId = Some staffId, ia_reason = Some reason\<rparr>)))))))))))))"

end
