(* ===== verification/InboundPipeline.thy ===== *)
theory InboundPipeline
  imports QueueAdmin TicketCreate "HOL-Library.List_Lexorder"
begin

text \<open>
  What happens to an accepted message (\<open>processRawMessage\<close> and its helpers in \<open>inbound.service.ts\<close>): it is
  parsed, routed by the snapshot of its acceptance, claimed by its Message-ID, and threaded into a
  ticket or made a new one. The state is the pair of the inbound tables and the help desk's tables;
  \<open>TicketReply.reply\<close> and \<open>TicketCreate.createTicket\<close> are the operations it ends in. The MIME parser, the
  regular expression engine, Unicode normalisation and collation, and the storage of attachments
  are parameters.
\<close>

type_synonym 'a act_mail = "(inbox \<times> db, 'a) act"

definition on_box :: "'a act_in \<Rightarrow> 'a act_mail" where
  "on_box m s = (case m (fst s) of (r, x) \<Rightarrow> (r, (x, snd s)))"

definition on_tickets :: "'a act_db \<Rightarrow> 'a act_mail" where
  "on_tickets m s = (case m (snd s) of (r, d) \<Rightarrow> (r, (fst s, d)))"

record pipeline_env =
  pl_in :: inbound_env
  pl_ce :: create_env
  pl_parse :: "string \<Rightarrow> error + parsed_mail"
  pl_rx :: "string \<Rightarrow> string \<Rightarrow> bool option"
  pl_rules :: "parser_rule list"
  pl_mailFrom :: string
  pl_ownAddresses :: "string list"
  pl_upload :: "mail_file list \<Rightarrow> nat list act_db"
  pl_nfc :: "string \<Rightarrow> string"           \<comment> \<open>\<open>normalize('NFC')\<close>\<close>
  pl_collate :: "string \<Rightarrow> nat list"      \<comment> \<open>the collation key behind \<open>localeCompare\<close>\<close>
  pl_json :: "js \<Rightarrow> string"

section \<open>Logical content\<close>

text \<open>The steps of \<open>normalizeText\<close>: line ends, blanks before a line end, more than two line ends.\<close>

fun unify_newlines :: "string \<Rightarrow> string" where
  "unify_newlines [] = []"
| "unify_newlines (c # s) =
     (if code_of c = 13 then CHR 0x0A # unify_newlines (if s \<noteq> [] \<and> code_of (hd s) = 10 then tl s else s)
      else c # unify_newlines s)"

definition trim_blanks :: "string \<Rightarrow> string" where
  "trim_blanks l = rev (dropWhile (\<lambda>c. c = CHR '' '' \<or> code_of c = 9) (rev l))"

fun trim_line_ends :: "string \<Rightarrow> string \<Rightarrow> string" where
  "trim_line_ends line [] = rev line"
| "trim_line_ends line (c # s) =
     (if code_of c = 10 then trim_blanks (rev line) @ c # trim_line_ends [] s else trim_line_ends (c # line) s)"

fun squeeze_newlines :: "nat \<Rightarrow> string \<Rightarrow> string" where
  "squeeze_newlines n [] = []"
| "squeeze_newlines n (c # s) =
     (if code_of c = 10 then (if n < 2 then c # squeeze_newlines (Suc n) s else squeeze_newlines n s)
      else c # squeeze_newlines 0 s)"

definition normalizeText :: "pipeline_env \<Rightarrow> string option \<Rightarrow> string" where
  "normalizeText pl value =
     trim (squeeze_newlines 0 (trim_line_ends [] (unify_newlines (pl_nfc pl (case value of None \<Rightarrow> '''' | Some v \<Rightarrow> v)))))"

definition addressField :: "pipeline_env \<Rightarrow> address list \<Rightarrow> js" where
  "addressField pl as =
     JArr (map (\<lambda>(a, n). JObj [(''address'', JStr a), (''name'', JStr n)])
       (sort_key (\<lambda>(a, n). pl_collate pl (a @ nul @ n))
         (filter (\<lambda>(a, n). a \<noteq> '''')
           (map (\<lambda>e. (normalizeEmail (or_else '''' (ad_address e)), lower (normalizeText pl (ad_name e)))) as))))"

definition attachmentSummary :: "pipeline_env \<Rightarrow> mail_file list \<Rightarrow> js" where
  "attachmentSummary pl fs =
     JArr (sort_key (\<lambda>v. pl_collate pl (pl_json pl v))
       (map (\<lambda>f. JObj [(''filename'', JStr (normalizeText pl (mf_filename f))),
                       (''mimeType'', JStr (lower (normalizeText pl (mf_contentType f)))),
                       (''size'', JNum (of_nat (length (mf_content f)))),
                       (''hash'', JStr (ie_sha256 (pl_in pl) (mf_content f)))]) fs))"

definition computeSemanticHash :: "pipeline_env \<Rightarrow> parsed_mail \<Rightarrow> string" where
  "computeSemanticHash pl p =
     ie_sha256 (pl_in pl) (pl_json pl (JObj
       [(''version'', JNum 1), (''from'', addressField pl (pm_from p)), (''to'', addressField pl (pm_to p)),
        (''cc'', addressField pl (pm_cc p)), (''replyTo'', addressField pl (pm_replyTo p)),
        (''subject'', JStr (normalizeText pl (pm_subject p))), (''text'', JStr (normalizeText pl (pm_text p))),
        (''html'', JStr (normalizeText pl (pm_html p))), (''attachments'', attachmentSummary pl (pm_attachments p))]))"

section \<open>Route\<close>

record inbound_route =
  rt_queueId :: "nat option"
  rt_departmentId :: "nat option"
  rt_sendAutoresponder :: "bool option"
  rt_fallback :: bool

text \<open>Entries of the snapshot that are well formed, the first of each id.\<close>

definition entry_ok :: "routing_entry \<Rightarrow> bool" where
  "entry_ok e \<longleftrightarrow> re_id e > 0 \<and> normalizeEmail (re_emailAddress e) \<noteq> '''' \<and> re_departmentId e \<noteq> Some 0 \<and> re_routingPriority e \<ge> 0"

fun first_entries :: "nat list \<Rightarrow> routing_entry list \<Rightarrow> routing_entry list" where
  "first_entries seen [] = []"
| "first_entries seen (e # es) =
     (if re_id e \<in> set seen \<or> \<not> entry_ok e then first_entries seen es else e # first_entries (re_id e # seen) es)"

definition by_priority :: "routing_entry list \<Rightarrow> routing_entry list" where
  "by_priority es = sort_key re_routingPriority (sort_key re_id es)"

definition normalizeRoutingSnapshot :: "routing_entry list \<Rightarrow> routing_entry list" where
  "normalizeRoutingSnapshot es = by_priority (first_entries [] es)"

definition mail_recipients :: "parsed_mail \<Rightarrow> string option \<Rightarrow> string list" where
  "mail_recipients p envelopeTo =
     filter (\<lambda>a. a \<noteq> '''') (map (\<lambda>e. normalizeEmail (or_else '''' (ad_address e))) (pm_to p @ pm_cc p) @
       [normalizeEmail (or_else '''' envelopeTo)])"

text \<open>The route of a row of the ledger; queues are not looked up.\<close>

definition resolveInboundRoute :: "parsed_mail \<Rightarrow> delivery \<Rightarrow> nat option \<Rightarrow> inbound_route" where
  "resolveInboundRoute p v fallbackDepartmentId =
     (case by_priority (filter (\<lambda>e. normalizeEmail (re_emailAddress e) \<in> set (mail_recipients p (dv_envelopeTo v)))
              (normalizeRoutingSnapshot (dv_routingSnapshot v))) of
        e # _ \<Rightarrow> \<lparr>rt_queueId = Some (re_id e),
                  rt_departmentId = (case re_departmentId e of None \<Rightarrow> fallbackDepartmentId | Some i \<Rightarrow> Some i),
                  rt_sendAutoresponder = Some (re_sendAutoresponder e), rt_fallback = False\<rparr>
      | [] \<Rightarrow> \<lparr>rt_queueId = (case dv_routedQueueId v of None \<Rightarrow> dv_queueId v | Some i \<Rightarrow> Some i),
               rt_departmentId = (case dv_routedDepartmentId v of None \<Rightarrow> fallbackDepartmentId | Some i \<Rightarrow> Some i),
               rt_sendAutoresponder = dv_sendAutoresponder v, rt_fallback = True\<rparr>)"

section \<open>Writes under the lease\<close>

definition leased :: "nat \<Rightarrow> string \<Rightarrow> delivery \<Rightarrow> bool" where
  "leased i leaseToken v \<longleftrightarrow> dv_id v = i \<and> dv_state v = DProcessing \<and> dv_leaseOwner v = Some leaseToken"

datatype owner = RoutedTo "nat option" | OwnedBy nat "nat option"

fun set_owner :: "owner \<Rightarrow> delivery \<Rightarrow> delivery" where
  "set_owner (OwnedBy t dep) v =
     v\<lparr>dv_ownerKind := TICKET, dv_ownerDepartmentId := (case dep of None \<Rightarrow> dv_ownerDepartmentId v | Some i \<Rightarrow> Some i),
       dv_ownerTicketId := Some t\<rparr>"
| "set_owner (RoutedTo dep) v = v\<lparr>dv_ownerKind := ROUTED, dv_ownerDepartmentId := dep, dv_ownerTicketId := None\<rparr>"

fun owner_valid :: "owner \<Rightarrow> bool" where
  "owner_valid (RoutedTo dep) \<longleftrightarrow> dep \<noteq> None \<and> dep \<noteq> Some 0"
| "owner_valid (OwnedBy t dep) \<longleftrightarrow> t \<ge> 1 \<and> dep \<noteq> Some 0"

definition persistEffectiveOwner :: "inbound_env \<Rightarrow> nat \<Rightarrow> string \<Rightarrow> owner \<Rightarrow> bool \<Rightarrow> unit act_in" where
  "persistEffectiveOwner en i leaseToken ow preserveTicket =
     sq (require (owner_valid ow) (OwnerUnresolved i))
    (bnd (update_deliveries en (\<lambda>v. leased i leaseToken v \<and> (preserveTicket \<longrightarrow> dv_ownerKind v \<noteq> TICKET)) (set_owner ow)) (\<lambda>n.
       if n = 1 then ret ()
       else bnd (reads (\<lambda>x. list_ex (\<lambda>v. leased i leaseToken v \<and> dv_ownerKind v = TICKET) (ib_deliveries x))) (\<lambda>retained.
         require (preserveTicket \<and> retained) (OwnerUnresolved i))))"

record identity =
  id_messageId :: "string option"
  id_messageIdHash :: "string option"
  id_semanticHash :: string
  id_route :: inbound_route
  id_envelopeFrom :: string
  id_envelopeTo :: "string option"
  id_subject :: string

definition recordDeliveryIdentity :: "inbound_env \<Rightarrow> nat \<Rightarrow> string \<Rightarrow> identity \<Rightarrow> unit act_in" where
  "recordDeliveryIdentity en i leaseToken a =
     bnd (update_deliveries en (leased i leaseToken)
            (\<lambda>v. v\<lparr>dv_observedMessageId := id_messageId a, dv_messageIdHash := id_messageIdHash a,
                   dv_semanticHash := Some (id_semanticHash a), dv_routedQueueId := rt_queueId (id_route a),
                   dv_routedDepartmentId := rt_departmentId (id_route a), dv_envelopeFrom := Some (id_envelopeFrom a),
                   dv_envelopeTo := id_envelopeTo a, dv_subject := take MAX_SUBJECT_CHARS (id_subject a)\<rparr>)) (\<lambda>n.
       require (n = 1) (OwnerUnresolved i))"

definition mail_audit :: "string \<Rightarrow> nat option \<Rightarrow> nat \<Rightarrow> string \<Rightarrow> unit act_in" where
  "mail_audit action queueId i reason =
     create_audit \<lparr>ia_action = action, ia_queueId = queueId, ia_deliveryId = Some i, ia_actorStaffId = None, ia_reason = Some reason\<rparr>"

definition writeRouteFallbackAudit :: "nat \<Rightarrow> inbound_route \<Rightarrow> unit act_in" where
  "writeRouteFallbackAudit i route = mail_audit ''mail.route_fallback'' (rt_queueId route) i ''RECEIVING_QUEUE''"

definition recordHeaderlessDelivery :: "inbound_env \<Rightarrow> nat \<Rightarrow> string \<Rightarrow> identity \<Rightarrow> inbound_route act_in" where
  "recordHeaderlessDelivery en i leaseToken a =
     db_txn (
       sq (recordDeliveryIdentity en i leaseToken (a\<lparr>id_messageId := None, id_messageIdHash := None\<rparr>))
      (sq (when_act (rt_fallback (id_route a)) (writeRouteFallbackAudit i (id_route a)))
      (ret (id_route a))))"

section \<open>Claims on a Message-ID\<close>

datatype claim_result = ClaimWinner inbound_route | ClaimDuplicate "nat option" | ClaimConflict

definition claim_by_hash :: "string \<Rightarrow> inbox \<Rightarrow> message_claim option" where
  "claim_by_hash h x = find_row (\<lambda>c. mc_messageIdHash c = h) (ib_claims x)"

text \<open>\<open>INSERT \<dots> ON CONFLICT DO NOTHING\<close>: both the hash and the winner are unique.\<close>

definition insert_claim :: "message_claim \<Rightarrow> unit act_in" where
  "insert_claim c =
     modify (\<lambda>x. if list_ex (\<lambda>o'. mc_messageIdHash o' = mc_messageIdHash c \<or> mc_winnerDeliveryId o' = mc_winnerDeliveryId c) (ib_claims x)
                 then x else x\<lparr>ib_claims := ib_claims x @ [c]\<rparr>)"

definition new_claim :: "nat \<Rightarrow> string \<Rightarrow> string \<Rightarrow> string \<Rightarrow> inbound_route \<Rightarrow> message_claim" where
  "new_claim i messageId hash semanticHash route =
     \<lparr>mc_messageIdHash = hash, mc_normalizedMessageId = messageId, mc_semanticHash = Some semanticHash,
      mc_semanticHashVersion = 1, mc_winnerDeliveryId = i, mc_routedQueueId = rt_queueId route,
      message_claim.mc_departmentId = rt_departmentId route, mc_sendAutoresponder = rt_sendAutoresponder route,
      mc_ticketId = None, mc_postId = None\<rparr>"

definition claim_route :: "message_claim \<Rightarrow> inbound_route" where
  "claim_route c = \<lparr>rt_queueId = mc_routedQueueId c, rt_departmentId = message_claim.mc_departmentId c,
     rt_sendAutoresponder = mc_sendAutoresponder c, rt_fallback = False\<rparr>"

definition same_content :: "message_claim \<Rightarrow> string \<Rightarrow> bool" where
  "same_content c semanticHash \<longleftrightarrow> mc_semanticHashVersion c = 1 \<and> mc_semanticHash c = Some semanticHash"

definition claimRealMessage :: "inbound_env \<Rightarrow> delivery \<Rightarrow> string \<Rightarrow> string \<Rightarrow> identity \<Rightarrow> claim_result act_in" where
  "claimRealMessage en v leaseToken messageId a =
     (let i = dv_id v; hash = ie_sha256 en messageId in
      db_txn (
        sq (insert_claim (new_claim i messageId hash (id_semanticHash a) (id_route a)))
       (bnd (reads (claim_by_hash hash)) (\<lambda>z.
        case z of
          None \<Rightarrow> throw (ServiceUnavailable ''Logical Message-ID claim was not readable after atomic insert'')
        | Some c \<Rightarrow>
            sq (recordDeliveryIdentity en i leaseToken
                  (a\<lparr>id_messageId := Some messageId, id_messageIdHash := Some hash, id_route := claim_route c\<rparr>))
           (if \<not> same_content c (id_semanticHash a) then
              sq (mail_audit ''mail.message_id_conflict'' (case rt_queueId (id_route a) of None \<Rightarrow> dv_queueId v | Some q \<Rightarrow> Some q) i
                    ''Message-ID reused with different or unreconstructable logical content'')
                 (ret ClaimConflict)
            else if mc_winnerDeliveryId c = i then
              sq (when_act (rt_fallback (id_route a)) (writeRouteFallbackAudit i (id_route a)))
                 (ret (ClaimWinner (claim_route c)))
            else ret (ClaimDuplicate (mc_ticketId c)))))))"

text \<open>The end of a claimed message: the claim and the copies of the same content follow the ticket.\<close>

definition finalize_claim :: "inbound_env \<Rightarrow> nat \<Rightarrow> string \<Rightarrow> string \<Rightarrow> nat option \<Rightarrow> nat option \<Rightarrow> unit act_in" where
  "finalize_claim en i hash semanticHash ticketId postId =
     (if ticketId = None \<and> postId = None then ret ()
      else db_txn (
        bnd (reads (\<lambda>x. count_rows (\<lambda>c. mc_messageIdHash c = hash \<and> mc_winnerDeliveryId c = i) (ib_claims x))) (\<lambda>n.
        sq (modify (\<lambda>x. x\<lparr>ib_claims := update_rows (\<lambda>c. mc_messageIdHash c = hash \<and> mc_winnerDeliveryId c = i)
              (\<lambda>c. c\<lparr>mc_ticketId := ticketId, mc_postId := postId\<rparr>) (ib_claims x)\<rparr>))
       (sq (require (n = 1) (ServiceUnavailable ''Logical Message-ID claim changed before finalization''))
       (case ticketId of
          None \<Rightarrow> ret ()
        | Some t \<Rightarrow> bnd (update_deliveries en (\<lambda>v. dv_messageIdHash v = Some hash \<and> dv_semanticHash v = Some semanticHash)
                          (\<lambda>v. v\<lparr>dv_ownerKind := TICKET, dv_ownerTicketId := Some t\<rparr>)) (\<lambda>_. ret ()))))))"

section \<open>The message\<close>

text \<open>The values \<open>processRawMessage\<close> derives from the parsed message before it routes it.\<close>

definition mail_subject :: "parsed_mail \<Rightarrow> string" where
  "mail_subject p = or_string (trim (or_else ''(no subject)'' (pm_subject p))) ''(no subject)''"

definition mail_from :: "parsed_mail \<Rightarrow> string" where
  "mail_from p = normalizeEmail (case pm_from p of [] \<Rightarrow> '''' | e # _ \<Rightarrow> or_else '''' (ad_address e))"

definition mail_fromName :: "parsed_mail \<Rightarrow> string" where
  "mail_fromName p =
     or_string (trim (case pm_from p of [] \<Rightarrow> mail_from p | e # _ \<Rightarrow> or_else (mail_from p) (ad_name e))) (mail_from p)"

definition mail_to :: "parsed_mail \<Rightarrow> string option" where
  "mail_to p =
     (case pm_to p of
        [] \<Rightarrow> None
      | e # _ \<Rightarrow> (let a = normalizeEmail (or_else '''' (ad_address e)) in if a = '''' then None else Some a))"

definition effective_id :: "pipeline_env \<Rightarrow> delivery \<Rightarrow> string option \<Rightarrow> string" where
  "effective_id pl v realMessageId =
     (case realMessageId of
        Some m \<Rightarrow> m
      | None \<Rightarrow> ''<inbound-'' @ ie_sha256 (pl_in pl) (dv_transportKey v) @ ''@23telecom.local>'')"

text \<open>The ids the poller before the ledger gave to mail without a Message-ID.\<close>

definition legacyDedupIds :: "delivery \<Rightarrow> string list" where
  "legacyDedupIds v =
     (case (dv_queueId v, dv_uidValidity v, dv_uid v) of
        (Some q, Some w, Some u) \<Rightarrow>
          if dv_transport v = IMAP \<and> dv_mailboxEpoch v = Some 1
          then [''<imap-'' @ nat_str q @ ''-'' @ nat_str w @ ''-'' @ nat_str u @ ''@helpdesk.invalid>''] else []
      | _ \<Rightarrow> [])"

definition cleanReferencedIds :: "parsed_mail \<Rightarrow> string list" where
  "cleanReferencedIds p =
     take MAX_REFERENCES (js_set
       ((case pm_inReplyTo p of None \<Rightarrow> [] | Some s \<Rightarrow> (case normalizeMessageId s of None \<Rightarrow> [] | Some m \<Rightarrow> [m])) @
        List.map_filter normalizeMessageId (referenceValues (pm_references p))))"

text \<open>\<open>/TT-\d{6,}/i\<close>, in capitals.\<close>

fun mask_match :: "string \<Rightarrow> string option" where
  "mask_match [] = None"
| "mask_match (c # s) =
     (let ds = takeWhile is_digit (drop 2 s) in
      if lower (take 3 (c # s)) = ''tt-'' \<and> length ds \<ge> 6 then Some (''TT-'' @ ds) else mask_match s)"

text \<open>\<open>senderCanReply\<close> with the addresses the query joins to the ticket.\<close>

definition sender_may_reply :: "db \<Rightarrow> ticket \<Rightarrow> string \<Rightarrow> bool" where
  "sender_may_reply d t fromEmail =
     senderCanReply (Some (t_requesterEmail t))
       (case t_userId t of None \<Rightarrow> [] | Some i \<Rightarrow> concat (map (\<lambda>u. if u_id u = i then map fst (u_emails u) else []) (clients d)))
       (map (\<lambda>(i, e, r). e) (filter (\<lambda>(i, e, r). i = t_id t) (ticket_recipients d))) fromEmail"

section \<open>Routing into tickets\<close>

datatype outcome_state = OutProcessed | OutSkipped

record outcome =
  oc_state :: outcome_state
  oc_ticketId :: "nat option"
  oc_postId :: "nat option"

text \<open>What the steps of one run share.\<close>

record inbound_run =
  mr_delivery :: delivery
  mr_lease :: string
  mr_mail :: parsed_mail
  mr_effectiveId :: string
  mr_semanticHash :: string
  mr_claimed :: "string option"        \<comment> \<open>the hash of the Message-ID when this delivery won it\<close>
  mr_route :: inbound_route
  mr_departmentId :: "nat option"

definition finalize_run :: "pipeline_env \<Rightarrow> inbound_run \<Rightarrow> outcome \<Rightarrow> outcome act_mail" where
  "finalize_run pl mr oc =
     (case mr_claimed mr of
        None \<Rightarrow> ret oc
      | Some hash \<Rightarrow>
          sq (on_box (finalize_claim (pl_in pl) (dv_id (mr_delivery mr)) hash (mr_semanticHash mr) (oc_ticketId oc) (oc_postId oc)))
             (ret oc))"

definition own :: "pipeline_env \<Rightarrow> inbound_run \<Rightarrow> owner \<Rightarrow> unit act_mail" where
  "own pl mr ow = on_box (persistEffectiveOwner (pl_in pl) (dv_id (mr_delivery mr)) (mr_lease mr) ow False)"

definition stage_files :: "pipeline_env \<Rightarrow> inbound_run \<Rightarrow> nat list act_mail" where
  "stage_files pl mr =
     (if pm_attachments (mr_mail mr) = [] then ret [] else on_tickets (pl_upload pl (pm_attachments (mr_mail mr))))"

definition mail_body :: "inbound_run \<Rightarrow> string \<times> bool" where
  "mail_body mr =
     (case pm_html (mr_mail mr) of
        Some h \<Rightarrow> if h \<noteq> '''' then (h, True) else (stripQuotedReply (or_else '''' (pm_text (mr_mail mr))) DEFAULT_BREAK_LINES, False)
      | None \<Rightarrow> (stripQuotedReply (or_else '''' (pm_text (mr_mail mr))) DEFAULT_BREAK_LINES, False))"

definition inbound_reply :: "inbound_run \<Rightarrow> nat list \<Rightarrow> reply_input" where
  "inbound_reply mr files =
     \<lparr>rp_contents = fst (mail_body mr), rp_isHtml = snd (mail_body mr), rp_isNote = False, rp_isEmailed = True,
      rp_isThirdParty = False, rp_attachmentIds = files, rp_ccEmails = [], rp_bccEmails = [],
      rp_creationMode = Some ModeEmail, rp_incomingMessageId = Some (mr_effectiveId mr)\<rparr>"

definition result_id :: "reply_result \<Rightarrow> nat" where
  "result_id r = (case r of RepliedPost p \<Rightarrow> p_id p | AddedNote n \<Rightarrow> n)"

text \<open>A reply to a ticket the sender may continue; the delivery belongs to the ticket before the post exists.\<close>

definition thread_into :: "pipeline_env \<Rightarrow> inbound_run \<Rightarrow> ticket \<Rightarrow> outcome act_mail" where
  "thread_into pl mr t =
     sq (own pl mr (OwnedBy (t_id t) (Some (t_departmentId t))))
    (bnd (stage_files pl mr) (\<lambda>files.
     bnd (on_tickets (reply (ce_env (pl_ce pl)) (t_id t) (inbound_reply mr files) None None)) (\<lambda>r.
       finalize_run pl mr \<lparr>oc_state = OutProcessed, oc_ticketId = Some (t_id t), oc_postId = Some (result_id r)\<rparr>)))"

text \<open>Numbers of a parser rule where an id is expected.\<close>

definition rule_id :: "js_number option \<Rightarrow> error + nat option" where
  "rule_id z =
     (case z of
        None \<Rightarrow> Inr None
      | Some (Fin r) \<Rightarrow> if rat_is_int r \<and> r \<ge> 0 then Inr (Some (nat (rat_int r))) else Inl (Failure ''PrismaClientValidationError'')
      | Some _ \<Rightarrow> Inl (Failure ''PrismaClientValidationError''))"

definition act_of :: "error + 'a \<Rightarrow> ('s, 'a) act" where
  "act_of z = (case z of Inl e \<Rightarrow> throw e | Inr v \<Rightarrow> ret v)"

definition rule_department :: "rule_result \<Rightarrow> inbound_env \<Rightarrow> nat option \<Rightarrow> nat option" where
  "rule_department rr en routed =
     (case rr_departmentId rr of
        None \<Rightarrow> Some (case routed of Some i \<Rightarrow> i | None \<Rightarrow> (case ie_defaultDepartmentId en of None \<Rightarrow> 1 | Some i \<Rightarrow> i))
      | Some (Fin r) \<Rightarrow> if safe_integer r \<and> r \<ge> 1 then Some (nat (rat_int r)) else None
      | Some _ \<Rightarrow> None)"

definition inbound_ticket :: "pipeline_env \<Rightarrow> inbound_run \<Rightarrow> rule_result \<Rightarrow> nat \<Rightarrow> nat option \<Rightarrow> nat option \<Rightarrow> nat list \<Rightarrow> create_input" where
  "inbound_ticket pl mr rr deptId priorityId ownerStaffId files =
     \<lparr>ct_subject = mail_subject (mr_mail mr), ct_contents = fst (mail_body mr), ct_isHtml = snd (mail_body mr),
      ct_departmentId = deptId, ct_statusId = None, ct_priorityId = priorityId, ct_typeId = None, ct_userId = None,
      ct_requesterEmail = mail_from (mr_mail mr), ct_requesterName = mail_fromName (mr_mail mr), ct_ownerStaffId = ownerStaffId,
      ct_slaPlanId = None, ct_customFields = Some [], ct_tags = rr_tags rr, ct_attachmentIds = files, ct_attachmentClaimToken = '''',
      ct_ccEmails = [], ct_bccEmails = [], ct_creationMode = Some ModeEmail, ct_ipAddress = Some ''0.0.0.0'',
      ct_incomingMessageId = Some (mr_effectiveId mr), ct_inboundQueueId = rt_queueId (mr_route mr),
      ct_inboundSendAutoresponder = (rt_sendAutoresponder (mr_route mr) = Some True)\<rparr>"

definition firstPostId :: "nat \<Rightarrow> db \<Rightarrow> nat option" where
  "firstPostId ticketId d =
     (case sort_key p_id (filter (\<lambda>p. p_ticketId p = ticketId) (posts d)) of [] \<Rightarrow> None | p # _ \<Rightarrow> Some (p_id p))"

definition ticket_input :: "pipeline_env \<Rightarrow> inbound_run \<Rightarrow> rule_result \<Rightarrow> nat \<Rightarrow> nat list \<Rightarrow> create_input act_mail" where
  "ticket_input pl mr rr deptId files =
     bnd (act_of (rule_id (rr_priorityId rr))) (\<lambda>priorityId.
     bnd (act_of (rule_id (rr_ownerStaffId rr))) (\<lambda>ownerStaffId.
       ret (inbound_ticket pl mr rr deptId priorityId ownerStaffId files)))"

definition create_from_mail :: "pipeline_env \<Rightarrow> inbound_run \<Rightarrow> rule_result \<Rightarrow> nat option \<Rightarrow> outcome act_mail" where
  "create_from_mail pl mr rr dept =
     sq (own pl mr (RoutedTo dept))
    (bnd (stage_files pl mr) (\<lambda>files.
     bnd (ticket_input pl mr rr (or_else 0 dept) files) (\<lambda>inp.
     bnd (on_tickets (createTicket (pl_ce pl) inp None None)) (\<lambda>t.
     sq (own pl mr (OwnedBy (t_id t) None))
    (bnd (reads (\<lambda>s. firstPostId (t_id t) (snd s))) (\<lambda>postId.
     finalize_run pl mr \<lparr>oc_state = OutProcessed, oc_ticketId = Some (t_id t), oc_postId = postId\<rparr>))))))"

text \<open>A new ticket, unless a parser rule discards the message.\<close>

definition mail_rules :: "pipeline_env \<Rightarrow> inbound_run \<Rightarrow> rule_result" where
  "mail_rules pl mr =
     (let p = mr_mail mr in
      applyParserRules (en_host (ce_env (pl_ce pl))) (pl_rx pl) (pl_rules pl)
        \<lparr>pe_subject = mail_subject p, pe_fromEmail = mail_from p, pe_fromName = mail_fromName p, pe_toEmail = mail_to p,
         pe_body = stripQuotedReply (or_else '''' (pm_text p)) DEFAULT_BREAK_LINES\<rparr>)"

definition open_ticket :: "pipeline_env \<Rightarrow> inbound_run \<Rightarrow> outcome act_mail" where
  "open_ticket pl mr =
     (let rr = mail_rules pl mr;
          routed = (case rt_departmentId (mr_route mr) of None \<Rightarrow> mr_departmentId mr | Some i \<Rightarrow> Some i) in
      if rr_skip rr then finalize_run pl mr \<lparr>oc_state = OutSkipped, oc_ticketId = None, oc_postId = None\<rparr>
      else create_from_mail pl mr rr (rule_department rr (pl_in pl) routed))"

definition thread_by_mask :: "pipeline_env \<Rightarrow> inbound_run \<Rightarrow> outcome act_mail" where
  "thread_by_mask pl mr =
     (case mask_match (mail_subject (mr_mail mr)) of
        None \<Rightarrow> open_ticket pl mr
      | Some tm \<Rightarrow>
          bnd (reads (\<lambda>s. (find_row (\<lambda>t. t_mask t = tm) (tickets (snd s)), snd s))) (\<lambda>(z, d).
            case z of
              None \<Rightarrow> open_ticket pl mr
            | Some t \<Rightarrow> if sender_may_reply d t (mail_from (mr_mail mr)) then thread_into pl mr t else open_ticket pl mr))"

definition thread_by_reference :: "pipeline_env \<Rightarrow> inbound_run \<Rightarrow> outcome act_mail" where
  "thread_by_reference pl mr =
     (let ids = cleanReferencedIds (mr_mail mr) in
      if ids = [] then thread_by_mask pl mr
      else
        bnd (reads (\<lambda>s. (case find_row (\<lambda>q. \<exists>m \<in> set ids. p_messageId q = Some m) (posts (snd s)) of
                           None \<Rightarrow> None | Some q \<Rightarrow> ticket_by_id (p_ticketId q) (snd s), snd s))) (\<lambda>(z, d).
          case z of
            None \<Rightarrow> thread_by_mask pl mr
          | Some t \<Rightarrow> if sender_may_reply d t (mail_from (mr_mail mr)) then thread_into pl mr t else thread_by_mask pl mr))"

text \<open>Automatic mail and messages with a post are skipped; the rest goes to a ticket.\<close>

definition route_message :: "pipeline_env \<Rightarrow> inbound_run \<Rightarrow> outcome act_mail" where
  "route_message pl mr =
     (if isLoopMessage (pl_mailFrom pl) (pl_ownAddresses pl) (mr_mail mr) (mail_from (mr_mail mr))
      then finalize_run pl mr \<lparr>oc_state = OutSkipped, oc_ticketId = None, oc_postId = None\<rparr>
      else
        bnd (reads (\<lambda>s. find_row (\<lambda>q. \<exists>m \<in> set (mr_effectiveId mr # legacyDedupIds (mr_delivery mr)). p_inboundMessageId q = Some m) (posts (snd s)))) (\<lambda>z.
          case z of
            Some q \<Rightarrow>
              sq (own pl mr (OwnedBy (p_ticketId q) None))
                 (finalize_run pl mr \<lparr>oc_state = OutSkipped, oc_ticketId = Some (p_ticketId q), oc_postId = Some (p_id q)\<rparr>)
          | None \<Rightarrow> thread_by_reference pl mr))"

section \<open>The pipeline\<close>

definition semantic_conflict :: error where
  "semantic_conflict = MessageIdConflict ''Message-ID was already claimed by different or unreconstructable logical content''"

text \<open>The messages that are refused before anything is recorded, and the real Message-ID.\<close>

definition read_message :: "pipeline_env \<Rightarrow> string \<Rightarrow> error + (parsed_mail \<times> string option)" where
  "read_message pl source =
     (if length source > ie_maxSizeMb (pl_in pl) * 1024 * 1024
      then Inl (PayloadTooLarge ''Inbound message exceeds the configured size limit'')
      else case pl_parse pl source of
        Inl e \<Rightarrow> Inl e
      | Inr p \<Rightarrow>
          (case resolveRealMessageId p of
             Inl e \<Rightarrow> Inl e
           | Inr realMessageId \<Rightarrow>
               (case validateParsedMail p of
                  Some e \<Rightarrow> Inl e
                | None \<Rightarrow> if isPlausibleEmail (mail_from p) then Inr (p, realMessageId)
                          else Inl (BadRequest ''Inbound message has no valid From address''))))"

definition routed_run :: "pipeline_env \<Rightarrow> inbound_run \<Rightarrow> outcome act_mail" where
  "routed_run pl mr =
     sq (on_box (persistEffectiveOwner (pl_in pl) (dv_id (mr_delivery mr)) (mr_lease mr) (RoutedTo (rt_departmentId (mr_route mr))) True))
        (route_message pl mr)"

text \<open>The record of the message under the lease, its claim, and the route it takes from there.\<close>

definition start_run :: "pipeline_env \<Rightarrow> string \<Rightarrow> nat option \<Rightarrow> delivery \<Rightarrow> parsed_mail \<Rightarrow> string option \<Rightarrow> inbound_run" where
  "start_run pl leaseToken departmentId v p realMessageId =
     \<lparr>mr_delivery = v, mr_lease = leaseToken, mr_mail = p, mr_effectiveId = effective_id pl v realMessageId,
      mr_semanticHash = computeSemanticHash pl p, mr_claimed = None, mr_route = resolveInboundRoute p v departmentId,
      mr_departmentId = departmentId\<rparr>"

definition identity_of :: "inbound_run \<Rightarrow> identity" where
  "identity_of mr =
     (let p = mr_mail mr in
      \<lparr>id_messageId = None, id_messageIdHash = None, id_semanticHash = mr_semanticHash mr, id_route = mr_route mr,
       id_envelopeFrom = mail_from p, id_envelopeTo = (case dv_envelopeTo (mr_delivery mr) of None \<Rightarrow> mail_to p | Some e \<Rightarrow> Some e),
       id_subject = mail_subject p\<rparr>)"

definition after_claim :: "pipeline_env \<Rightarrow> inbound_run \<Rightarrow> string \<Rightarrow> claim_result \<Rightarrow> outcome act_mail" where
  "after_claim pl mr m claim =
     (case claim of
        ClaimDuplicate ticketId \<Rightarrow>
          sq (case ticketId of None \<Rightarrow> ret () | Some t \<Rightarrow> own pl mr (OwnedBy t None))
             (ret \<lparr>oc_state = OutSkipped, oc_ticketId = ticketId, oc_postId = None\<rparr>)
      | ClaimConflict \<Rightarrow> throw semantic_conflict
      | ClaimWinner route \<Rightarrow> routed_run pl (mr\<lparr>mr_route := route, mr_claimed := Some (ie_sha256 (pl_in pl) m)\<rparr>))"

definition record_message :: "pipeline_env \<Rightarrow> inbound_run \<Rightarrow> string option \<Rightarrow> outcome act_mail" where
  "record_message pl mr realMessageId =
     (case realMessageId of
        None \<Rightarrow>
          bnd (on_box (recordHeaderlessDelivery (pl_in pl) (dv_id (mr_delivery mr)) (mr_lease mr) (identity_of mr))) (\<lambda>route.
            routed_run pl (mr\<lparr>mr_route := route\<rparr>))
      | Some m \<Rightarrow>
          bnd (on_box (claimRealMessage (pl_in pl) (mr_delivery mr) (mr_lease mr) m (identity_of mr))) (after_claim pl mr m))"

definition processRawMessage :: "pipeline_env \<Rightarrow> string \<Rightarrow> string \<Rightarrow> nat option \<Rightarrow> delivery \<Rightarrow> outcome act_mail" where
  "processRawMessage pl leaseToken source departmentId v =
     bnd (act_of (read_message pl source)) (\<lambda>(p, realMessageId).
       record_message pl (start_run pl leaseToken departmentId v p realMessageId) realMessageId)"

end
