(* ===== verification/InboundTicketing.thy ===== *)
theory InboundTicketing
  imports InboundPipeline
begin

text \<open>
  What the pipeline does to the help desk: a message is posted once, and only where its sender may
  write.
\<close>

section \<open>Frames\<close>

lemma on_box_run: "on_box m (x, d) = (r, (x', d')) \<longleftrightarrow> m x = (r, x') \<and> d' = d"
  by (auto simp: on_box_def split: prod.splits)

lemma on_db_run: "on_tickets m (x, d) = (r, (x', d')) \<longleftrightarrow> m d = (r, d') \<and> x' = x"
  by (auto simp: on_tickets_def split: prod.splits)

lemma triple_final: "triple P m (\<lambda>_. Q) Q \<Longrightarrow> P s \<Longrightarrow> Q (final m s)"
  unfolding triple_def final_def by (drule spec [of _ s]) (auto split: prod.splits sum.splits)

text \<open>The help desk as it was.\<close>

definition desk :: "db \<Rightarrow> inbox \<times> db \<Rightarrow> bool" where
  "desk d s \<longleftrightarrow> snd s = d"

abbreviation leaves_desk :: "db \<Rightarrow> 'a act_mail \<Rightarrow> bool" where
  "leaves_desk d m \<equiv> triple (desk d) m (\<lambda>_. desk d) (desk d)"

lemma on_box_leaves: "leaves_desk d (on_box m)"
  by (rule tripleI) (auto simp: on_box_def desk_def split: prod.splits sum.splits)

lemma act_of_leaves: "leaves_desk d (act_of z)"
  by (cases z) (auto simp: act_of_def triple_def ret_def throw_def)

lemma finalize_leaves: "leaves_desk d (finalize_run pl mr oc)"
  by (cases "mr_claimed mr") (auto simp: finalize_run_def intro: triple_ret triple_sq on_box_leaves)

lemma own_leaves: "leaves_desk d (own pl mr ow)"
  by (simp add: own_def on_box_leaves)

text \<open>A post that carries one of the ids of the message.\<close>

definition posted :: "string list \<Rightarrow> db \<Rightarrow> bool" where
  "posted ids d \<longleftrightarrow> (\<exists>q \<in> set (posts d). \<exists>m \<in> set ids. p_inboundMessageId q = Some m)"

lemma posted_found:
  "posted ids d \<Longrightarrow> \<exists>q. find_row (\<lambda>q. \<exists>m \<in> set ids. p_inboundMessageId q = Some m) (posts d) = Some q"
  by (cases "find_row (\<lambda>q. \<exists>m \<in> set ids. p_inboundMessageId q = Some m) (posts d)")
    (auto simp: posted_def find_row_None_iff)

lemma route_known_leaves:
  assumes "posted (mr_effectiveId mr # legacyDedupIds (mr_delivery mr)) d"
  shows "leaves_desk d (route_message pl mr)"
proof -
  let ?look = "\<lambda>s. find_row (\<lambda>q. \<exists>m \<in> set (mr_effectiveId mr # legacyDedupIds (mr_delivery mr)). p_inboundMessageId q = Some m) (posts (snd s))"
  have l: "triple (desk d) (reads ?look) (\<lambda>z s. desk d s \<and> z \<noteq> None) (desk d)"
    using posted_found [OF assms] by (intro triple_reads) (auto simp: desk_def)
  have r: "triple (\<lambda>s. desk d s \<and> z \<noteq> None)
      (case z of
         Some q \<Rightarrow> sq (own pl mr (OwnedBy (p_ticketId q) None))
             (finalize_run pl mr \<lparr>oc_state = OutSkipped, oc_ticketId = Some (p_ticketId q), oc_postId = Some (p_id q)\<rparr>)
       | None \<Rightarrow> thread_by_reference pl mr) (\<lambda>_. desk d) (desk d)" for z
  proof (cases z)
    case None
    then show ?thesis by (simp add: triple_def)
  next
    case (Some q)
    then show ?thesis by (auto intro: triple_sq own_leaves finalize_leaves)
  qed
  show ?thesis
    unfolding route_message_def
    by (rule triple_if) (rule finalize_leaves, rule triple_bnd [OF l r])
qed

lemma duplicate_leaves:
  "leaves_desk d (sq (case ticketId of None \<Rightarrow> ret () | Some t \<Rightarrow> own pl mr (OwnedBy t None)) (ret oc))"
  by (cases ticketId) (auto intro!: triple_sq [where R = "desk d"] triple_ret own_leaves)

lemma routed_leaves:
  "posted (mr_effectiveId mr # legacyDedupIds (mr_delivery mr)) d \<Longrightarrow> leaves_desk d (routed_run pl mr)"
  unfolding routed_run_def by (rule triple_sq [OF on_box_leaves route_known_leaves])

lemma after_claim_leaves:
  "posted (mr_effectiveId mr # legacyDedupIds (mr_delivery mr)) d \<Longrightarrow> leaves_desk d (after_claim pl mr m c)"
  by (cases c) (auto simp: after_claim_def intro: routed_leaves duplicate_leaves triple_throw)

lemma record_leaves:
  "posted (mr_effectiveId mr # legacyDedupIds (mr_delivery mr)) d \<Longrightarrow> leaves_desk d (record_message pl mr r)"
  unfolding record_message_def
  by (cases r) (auto intro!: triple_bnd [OF on_box_leaves] routed_leaves after_claim_leaves)

lemma process_read:
  "read_message pl source = Inr (p, r) \<Longrightarrow>
   processRawMessage pl leaseToken source departmentId v = record_message pl (start_run pl leaseToken departmentId v p r) r"
  by (simp add: processRawMessage_def act_of_def bnd_def ret_def fun_eq_iff)

lemma process_known_leaves:
  assumes "read_message pl source = Inr (p, r)" "posted (effective_id pl v r # legacyDedupIds v) d"
  shows "leaves_desk d (processRawMessage pl leaseToken source departmentId v)"
  using assms(2) by (simp add: process_read [OF assms(1)] record_leaves start_run_def)

section \<open>Posts of a reply and of a new ticket\<close>

definition no_post :: "string \<Rightarrow> db \<Rightarrow> bool" where
  "no_post m d \<longleftrightarrow> (\<forall>q \<in> set (posts d). p_inboundMessageId q \<noteq> Some m)"

text \<open>One post more, with the Message-ID, on the ticket.\<close>

definition posts_once :: "db \<Rightarrow> db \<Rightarrow> string \<Rightarrow> nat \<Rightarrow> nat \<Rightarrow> bool" where
  "posts_once d d' m ticketId postId \<longleftrightarrow>
     (\<exists>q. posts d' = posts d @ [q] \<and> p_inboundMessageId q = Some m \<and> p_ticketId q = ticketId \<and> p_id q = postId)"

lemma reply_posts:
  assumes "reply env i inp None None d = (Inr res, d')" "\<not> rp_isNote inp" "rp_incomingMessageId inp = Some m"
    and "trim m = m" "m \<noteq> ''''" "no_post m d"
  shows "posts_once d d' m i (result_id res)"
proof (cases res)
  case (AddedNote n)
  with assms(1,2) show ?thesis
    by (auto simp: reply_def reply_or_note_def answer_ticket_def run_rules split: option.splits)
next
  case (RepliedPost p)
  have none: "findPostByInboundMessageId m d = None" using assms(6) by (simp add: findPostByInboundMessageId_def find_row_None_iff no_post_def)
  from assms(1) [unfolded RepliedPost] show ?thesis
  proof (cases rule: reply_run)
    case (Duplicate k)
    then have "k = m" using assms(3-5) by (auto simp: run_normalize Let_def)
    with Duplicate none show ?thesis by simp
  next
    case (Answered t incoming)
    have inc: "incoming = Some m" using Answered(1) assms(3-5) by (auto simp: run_normalize Let_def)
    have t: "t_id t = i" using Answered(3) by (auto simp: run_find dest: find_row_SomeD)
    from answer_run [OF Answered(4)] obtain author draft reopen where
      "commit_reply env t inp None None author (Some m) draft reopen d = (Inr p, d')" by (auto simp: inc)
    from commit_reply_cases [OF this] none obtain body: "reply_body env t inp None None author (Some m) draft reopen d = (Inr p, d')"
      by auto
    from reply_body_run [OF body] show ?thesis
      by (auto simp: posts_once_def RepliedPost result_id_def reply_post_def t)
  qed
qed

definition same_tickets :: "db \<Rightarrow> db \<Rightarrow> bool" where
  "same_tickets d d' \<longleftrightarrow> posts d' = posts d \<and> tickets d' = tickets d \<and> seq_ticket d' = seq_ticket d"

definition same_posts :: "db \<Rightarrow> db \<Rightarrow> bool" where
  "same_posts d d' \<longleftrightarrow> posts d' = posts d"

interpretation st: frame same_tickets
  by unfold_locales (auto simp: same_tickets_def)

interpretation sp: frame same_posts
  by unfold_locales (auto simp: same_posts_def)

lemma st_act_of_sum: "st.stays (of_sum z)"
  by (cases z) (auto simp: of_sum_def intro: st.stays_ret st.stays_throw)

lemma st_stored_fields: "st.stays (stored_fields ce ct)"
  unfolding stored_fields_def by (intro st.stays_intros st_act_of_sum)

lemma st_create_client: "st.stays (create_client e n)"
  by (auto simp: st.stays_def create_client_def same_tickets_def Let_def)

lemma st_findOrCreate: "st.stays (findOrCreate e n)"
  unfolding findOrCreate_def Let_def by (intro st.stays_intros st_create_client)

lemma st_requester: "st.stays (requester_id ct)"
  unfolding requester_id_def by (intro st.stays_intros st_findOrCreate)

lemma st_default_status: "st.stays defaultStatusId"
  unfolding st.stays_def by (metis default_status_state prod.collapse st.frame_refl)

lemma st_default_priority: "st.stays defaultPriorityId"
  unfolding defaultPriorityId_def
  by (intro st.stays_intros) (simp split: list.split add: st.stays_throw st.stays_ret)

lemma st_default_to: "st.stays m \<Longrightarrow> st.stays (default_to m z)"
  unfolding default_to_def by (intro st.stays_intros)

lemmas st_pre = st_stored_fields st_requester st_default_status st_default_priority st_default_to

lemma sp_insert_outbound: "sp.stays (insert_outbound ob)"
  by (auto simp: sp.stays_def insert_outbound_def same_posts_def Let_def)

lemma sp_render: "sp.stays (renderTemplateRequired k l v)"
  unfolding sp.stays_def by (metis renderTemplateRequired_state prod.collapse sp.frame_refl)

lemma sp_autoresponder: "sp.stays (autoresponder env ct t)"
  unfolding autoresponder_def createAutomatedTicketEmail_def Let_def
  by (intro sp.stays_intros sp_render sp_insert_outbound)

lemma sp_enqueue: "sp.stays (enqueueWorkflowEmailEvent env t ty key)"
  unfolding sp.stays_def by (metis enqueue_tables(1) prod.collapse same_posts_def)

lemma sp_modify: "(\<And>d. posts (f d) = posts d) \<Longrightarrow> sp.stays (modify f)"
  by (simp add: sp.stays_def modify_def same_posts_def)

lemma sp_link: "sp.stays (linkToPost ids k i token)"
proof -
  have "same_posts d (snd (linkToPost ids k i token d))" for d
    using link_tables [of ids k i token d "fst (linkToPost ids k i token d)" "snd (linkToPost ids k i token d)"]
    by (auto simp: same_posts_def)
  then show ?thesis by (simp add: sp.stays_def)
qed

lemma sp_update_ticket: "sp.stays (update_ticket i f)"
  by (auto simp: sp.stays_def update_ticket_def same_posts_def set_tickets_def split: option.splits)

lemma sp_set_mask: "sp.stays (set_mask i b)"
  unfolding set_mask_def by (intro sp.stays_intros sp_update_ticket)

lemma sp_audit: "sp.stays (writeAudit i action s ty f old new)"
  by (auto simp: sp.stays_def writeAudit_def same_posts_def)

lemma create_body_posts:
  assumes "create_body env ct s None row post d = (Inr t, d')" "p_inboundMessageId (post (seq_ticket d)) = Some m"
    and "p_ticketId (post (seq_ticket d)) = seq_ticket d"
  shows "posts_once d d' m (seq_ticket d) (seq_post d) \<and> t_id t = seq_ticket d"
proof -
  from assms(1) obtain d1 postId d2 i u3 d3 u4 d4 d5 u6 d6 u7 d7 u8 d8 u9 where
    c: "create_ticket_row row d = (Inr i, d1)" and p: "create_post (post i) d1 = (Inr postId, d2)"
    and tg: "modify (\<lambda>d. d\<lparr>tag_names := fold add_name (ct_tags ct) (tag_names d)\<rparr>) d2 = (Inr u3, d3)"
    and l: "(if ct_attachmentIds ct \<noteq> [] then linkToPost (ct_attachmentIds ct) postId i (ct_attachmentClaimToken ct) else ret ()) d3 = (Inr u4, d4)"
    and mk: "set_mask i (ct_attachmentIds ct \<noteq> []) d4 = (Inr t, d5)"
    and r: "store_recipients ct i d5 = (Inr u6, d6)"
    and au: "writeAudit i ''CREATE'' s (creator_type s) None None (Some (t_mask t)) d6 = (Inr u7, d7)"
    and ar: "(if shouldQueueAutoresponder ct then autoresponder env ct t else ret 0) d7 = (Inr u8, d8)"
    and en: "enqueueWorkflowEmailEvent env t ''ticket.created'' (post_key postId) d8 = (Inr u9, d')"
    unfolding create_body_def by (auto simp only: run_rules option.case)
  have i: "i = seq_ticket d" "posts d1 = posts d" "seq_post d1 = seq_post d"
    using c by (auto simp: create_ticket_row_def split: if_splits)
  have d2: "posts d2 = posts d @ [(post i)\<lparr>p_id := seq_post d\<rparr>]" using p i(2,3) by (auto simp: run_create_post)
  have "same_posts d2 d3" using tg by (auto simp: run_modify same_posts_def)
  moreover have "same_posts d3 d4" by (rule sp.staysD [OF sp.stays_if [OF sp_link sp.stays_ret] l])
  moreover have "same_posts d4 d5" by (rule sp.staysD [OF sp_set_mask mk])
  moreover have "same_posts d5 d6" using r by (auto simp: store_recipients_def run_modify same_posts_def)
  moreover have "same_posts d6 d7" by (rule sp.staysD [OF sp_audit au])
  moreover have "same_posts d7 d8" by (rule sp.staysD [OF sp.stays_if [OF sp_autoresponder sp.stays_ret] ar])
  moreover have "same_posts d8 d'" by (rule sp.staysD [OF sp_enqueue en])
  ultimately have "posts d' = posts d @ [(post i)\<lparr>p_id := seq_post d\<rparr>]" using d2 by (simp add: same_posts_def)
  moreover have "t_id t = i"
  proof -
    from mk obtain t0 where "ticket_by_id i d4 = Some t0" "t = t0\<lparr>t_mask := formatTicketMask i, t_hasAttachments := (ct_attachmentIds ct \<noteq> [] \<or> t_hasAttachments t0)\<rparr>"
      by (auto simp: set_mask_def run_rules run_update split: if_splits)
    then show ?thesis by (auto simp: ticket_by_id_def dest: find_row_SomeD)
  qed
  ultimately show ?thesis using assms(2,3) i(1) by (auto simp: posts_once_def)
qed

lemma create_new_posts:
  assumes "create_new ce ct s None (Some m) d = (Inr t, d')" "no_post m d"
  shows "\<exists>postId. posts_once d d' m (seq_ticket d) postId \<and> t_id t = seq_ticket d"
proof -
  let ?env = "ce_env ce"
  from assms(1) obtain vals d1 userId d2 statusId d3 priorityId d4 where
    pre: "stored_fields ce ct d = (Inr vals, d1)" "requester_id ct d1 = (Inr userId, d2)"
      "default_to defaultStatusId (ct_statusId ct) d2 = (Inr statusId, d3)" "default_to defaultPriorityId (ct_priorityId ct) d3 = (Inr priorityId, d4)"
    and co: "commit_ticket (Some m) (create_body ?env ct s None
        (created_row ?env ct s userId (plan_of ce ct userId d2) statusId priorityId vals (due_of ?env (plan_of ce ct userId d2) d4))
        (first_post ?env ct s userId (Some m))) d4 = (Inr t, d')"
    unfolding create_new_def Let_def by (auto simp only: run_rules)
  have st: "same_tickets d d4"
    using st.staysD [OF st_pre(1) pre(1)] st.staysD [OF st_pre(2) pre(2)] st.staysD [OF st_pre(5) [OF st_pre(3)] pre(3)]
      st.staysD [OF st_pre(5) [OF st_pre(4)] pre(4)]
    by (simp add: same_tickets_def)
  then have none: "findTicketByInboundMessageId m d4 = None"
    using assms(2) find_row_None_iff [of "\<lambda>p. p_inboundMessageId p = Some m" "posts d"]
    by (simp add: findTicketByInboundMessageId_def findPostByInboundMessageId_def same_tickets_def no_post_def)
  obtain z where body: "create_body ?env ct s None
      (created_row ?env ct s userId (plan_of ce ct userId d2) statusId priorityId vals (due_of ?env (plan_of ce ct userId d2) d4))
      (first_post ?env ct s userId (Some m)) d4 = z" by blast
  have "z = (Inr t, d')"
    using co none body by (cases z; cases "fst z") (auto simp: commit_ticket_def catch_act_def txn_def reads_def bnd_def throw_def
        split: if_splits option.splits)
  from create_body_posts [OF body [unfolded this], of m] st show ?thesis
    by (auto simp: first_post_def same_tickets_def posts_once_def)
qed

lemma createTicket_posts:
  assumes "createTicket ce ct None None d = (Inr t, d')" "ct_incomingMessageId ct = Some m" "trim m = m" "m \<noteq> ''''" "no_post m d"
  shows "\<exists>postId. posts_once d d' m (seq_ticket d) postId \<and> t_id t = seq_ticket d"
proof -
  have none: "findTicketByInboundMessageId m d = None"
    using assms(5) find_row_None_iff [of "\<lambda>p. p_inboundMessageId p = Some m" "posts d"]
    by (simp add: findTicketByInboundMessageId_def findPostByInboundMessageId_def no_post_def)
  from assms(1) obtain incoming d1 where n: "normalizeIncomingMessageId (ct_incomingMessageId ct) d = (Inr incoming, d1)"
    and rest: "bnd (reads (\<lambda>d. case incoming of None \<Rightarrow> None | Some m \<Rightarrow> findTicketByInboundMessageId m d)) (\<lambda>existing. case existing of
       Some t \<Rightarrow> ret t | None \<Rightarrow> create_new ce ct None None incoming) d1 = (Inr t, d')"
    unfolding createTicket_def by (auto simp: run_rules sq_def ret_def bnd_def cong: option.case_cong split: option.splits prod.splits sum.splits)
  have "d1 = d" "incoming = Some m" using n assms(2-4) by (auto simp: run_normalize Let_def)
  with rest none have "create_new ce ct None None (Some m) d = (Inr t, d')" by (simp add: run_bnd run_reads)
  then show ?thesis by (rule create_new_posts [OF _ assms(5)])
qed

section \<open>Posts of the pipeline\<close>

text \<open>Storing files creates rows of the attachment table.\<close>

definition upload_ok :: "pipeline_env \<Rightarrow> bool" where
  "upload_ok pl \<longleftrightarrow> (\<forall>fs. st.stays (pl_upload pl fs))"

text \<open>Ids of tickets are below the sequence, and so are those the posts refer to.\<close>

definition tickets_numbered :: "db \<Rightarrow> bool" where
  "tickets_numbered d \<longleftrightarrow> distinct (map t_id (tickets d)) \<and> (\<forall>t \<in> set (tickets d). t_id t < seq_ticket d) \<and> (\<forall>q \<in> set (posts d). p_ticketId q < seq_ticket d)"

text \<open>What one run may do to the help desk: one post, on a ticket the sender may continue or on a new one.\<close>

definition posted_for :: "string \<Rightarrow> string \<Rightarrow> db \<Rightarrow> db \<Rightarrow> outcome \<Rightarrow> bool" where
  "posted_for m fromEmail d d' oc \<longleftrightarrow>
     (\<exists>i k. oc_ticketId oc = Some i \<and> oc_postId oc = Some k \<and> posts_once d d' m i k \<and>
       (\<forall>t. ticket_by_id i d = Some t \<longrightarrow> sender_may_reply d t fromEmail))"

lemma finalize_run_result: "finalize_run pl mr oc s = (Inr r, s') \<Longrightarrow> r = oc \<and> snd s' = snd s"
  by (cases s; cases s') (auto simp: finalize_run_def run_rules on_box_run split: option.splits)

lemma own_result: "own pl mr ow s = (Inr u, s') \<Longrightarrow> snd s' = snd s"
  by (cases s; cases s') (auto simp: own_def on_box_run)

lemma stage_files_result:
  assumes "stage_files pl mr s = (Inr files, s')" "upload_ok pl"
  shows "same_tickets (snd s) (snd s')"
proof (cases "pm_attachments (mr_mail mr) = []")
  case True
  with assms(1) show ?thesis by (simp add: stage_files_def ret_def same_tickets_def)
next
  case False
  with assms(1) have "pl_upload pl (pm_attachments (mr_mail mr)) (snd s) = (Inr files, snd s')"
    by (cases s; cases s') (simp add: stage_files_def on_db_run)
  then show ?thesis using assms(2) st.staysD [of "pl_upload pl (pm_attachments (mr_mail mr))"] by (simp add: upload_ok_def)
qed

lemma posts_once_from: "posts_once d1 d' m i k \<Longrightarrow> same_tickets d d1 \<Longrightarrow> posts_once d d' m i k"
  by (simp add: posts_once_def same_tickets_def)

lemma thread_into_posts:
  assumes "thread_into pl mr t s = (Inr oc, s')" "upload_ok pl" "trim (mr_effectiveId mr) = mr_effectiveId mr" "mr_effectiveId mr \<noteq> ''''"
    and "no_post (mr_effectiveId mr) (snd s)" "ticket_by_id (t_id t) (snd s) = Some t" "sender_may_reply (snd s) t e"
  shows "posted_for (mr_effectiveId mr) e (snd s) (snd s') oc"
proof -
  from assms(1) obtain u s1 files s2 res s3 where o': "own pl mr (OwnedBy (t_id t) (Some (t_departmentId t))) s = (Inr u, s1)"
    and f: "stage_files pl mr s1 = (Inr files, s2)"
    and r: "on_tickets (reply (ce_env (pl_ce pl)) (t_id t) (inbound_reply mr files) None None) s2 = (Inr res, s3)"
    and z: "finalize_run pl mr \<lparr>oc_state = OutProcessed, oc_ticketId = Some (t_id t), oc_postId = Some (result_id res)\<rparr> s3 = (Inr oc, s')"
    unfolding thread_into_def by (auto simp only: run_rules)
  have st: "same_tickets (snd s) (snd s2)"
    using stage_files_result [OF f assms(2)] own_result [OF o'] by simp
  have "reply (ce_env (pl_ce pl)) (t_id t) (inbound_reply mr files) None None (snd s2) = (Inr res, snd s3)"
    using r by (cases s2; cases s3) (simp add: on_db_run)
  then have "posts_once (snd s2) (snd s3) (mr_effectiveId mr) (t_id t) (result_id res)"
    using assms(3-5) st by (intro reply_posts [of "ce_env (pl_ce pl)"]) (auto simp: inbound_reply_def no_post_def same_tickets_def)
  then show ?thesis
    using finalize_run_result [OF z] posts_once_from [OF _ st] assms(6,7) by (auto simp: posted_for_def)
qed

lemma first_of_new:
  assumes "posts_once d d' m i k" "\<forall>q \<in> set (posts d). p_ticketId q \<noteq> i"
  shows "firstPostId i d' = Some k"
  using assms by (auto simp: posts_once_def firstPostId_def filter_empty_conv)

lemma act_of_run: "act_of z s = (Inr v, s') \<longleftrightarrow> z = Inr v \<and> s' = s"
  by (cases z) (auto simp: act_of_def ret_def throw_def)

lemma ticket_input_run:
  "ticket_input pl mr rr dept files s = (Inr inp, s') \<Longrightarrow> s' = s \<and> ct_incomingMessageId inp = Some (mr_effectiveId mr)"
  by (auto simp: ticket_input_def run_rules act_of_run inbound_ticket_def)

lemma create_from_mail_posts:
  assumes "create_from_mail pl mr rr dept s = (Inr oc, s')" "upload_ok pl" "trim (mr_effectiveId mr) = mr_effectiveId mr" "mr_effectiveId mr \<noteq> ''''"
    and "no_post (mr_effectiveId mr) (snd s)" "tickets_numbered (snd s)"
  shows "posted_for (mr_effectiveId mr) e (snd s) (snd s') oc"
proof -
  let ?m = "mr_effectiveId mr"
  from assms(1) obtain u s1 files s2 inp s3 t s4 u5 s5 where
    o': "own pl mr (RoutedTo dept) s = (Inr u, s1)" and f: "stage_files pl mr s1 = (Inr files, s2)"
    and i: "ticket_input pl mr rr (or_else 0 dept) files s2 = (Inr inp, s3)"
    and c: "on_tickets (createTicket (pl_ce pl) inp None None) s3 = (Inr t, s4)"
    and o2: "own pl mr (OwnedBy (t_id t) None) s4 = (Inr u5, s5)"
    and z: "finalize_run pl mr \<lparr>oc_state = OutProcessed, oc_ticketId = Some (t_id t), oc_postId = firstPostId (t_id t) (snd s5)\<rparr> s5 = (Inr oc, s')"
    unfolding create_from_mail_def by (auto simp only: run_rules)
  have st: "same_tickets (snd s) (snd s2)"
    using stage_files_result [OF f assms(2)] own_result [OF o'] by simp
  note i' = ticket_input_run [OF i]
  have "createTicket (pl_ce pl) inp None None (snd s2) = (Inr t, snd s4)"
    using c i' by (cases s2; cases s4) (simp add: on_db_run)
  moreover have "no_post ?m (snd s2)" using assms(5) st by (simp add: no_post_def same_tickets_def)
  ultimately obtain postId where p: "posts_once (snd s2) (snd s4) ?m (seq_ticket (snd s2)) postId" and t: "t_id t = seq_ticket (snd s2)"
    using createTicket_posts [of "pl_ce pl" inp "snd s2" t "snd s4" ?m] i' assms(3,4) by blast
  have fresh: "\<forall>q \<in> set (posts (snd s2)). p_ticketId q \<noteq> seq_ticket (snd s2)" "ticket_by_id (seq_ticket (snd s2)) (snd s) = None"
    using assms(6) st by (auto simp: tickets_numbered_def same_tickets_def ticket_by_id_def find_row_None_iff)
  have "firstPostId (t_id t) (snd s5) = Some postId"
    using first_of_new [OF p fresh(1)] own_result [OF o2] t by simp
  then show ?thesis
    using finalize_run_result [OF z] own_result [OF o2] posts_once_from [OF p st] fresh(2) t by (auto simp: posted_for_def)
qed

lemma open_ticket_posts:
  assumes "open_ticket pl mr s = (Inr oc, s')" "oc_state oc = OutProcessed" "upload_ok pl" "trim (mr_effectiveId mr) = mr_effectiveId mr"
    and "mr_effectiveId mr \<noteq> ''''" "no_post (mr_effectiveId mr) (snd s)" "tickets_numbered (snd s)"
  shows "posted_for (mr_effectiveId mr) e (snd s) (snd s') oc"
  using assms(1,2) create_from_mail_posts [OF _ assms(3-7)]
  by (auto simp: open_ticket_def Let_def split: if_splits dest: finalize_run_result)

lemma thread_by_mask_posts:
  assumes "thread_by_mask pl mr s = (Inr oc, s')" "oc_state oc = OutProcessed" "upload_ok pl" "trim (mr_effectiveId mr) = mr_effectiveId mr"
    and "mr_effectiveId mr \<noteq> ''''" "no_post (mr_effectiveId mr) (snd s)" "tickets_numbered (snd s)"
  shows "posted_for (mr_effectiveId mr) (mail_from (mr_mail mr)) (snd s) (snd s') oc"
proof -
  have thread: "posted_for (mr_effectiveId mr) (mail_from (mr_mail mr)) (snd s) (snd s') oc"
    if run: "thread_into pl mr t s = (Inr oc, s')" and t: "t \<in> set (tickets (snd s))" and may: "sender_may_reply (snd s) t (mail_from (mr_mail mr))" for t
  proof -
    have "ticket_by_id (t_id t) (snd s) = Some t"
      unfolding ticket_by_id_def
    proof (rule find_row_unique [OF t refl])
      fix t' assume "t' \<in> set (tickets (snd s))" "t_id t' = t_id t"
      moreover have "inj_on t_id (set (tickets (snd s)))" using assms(7) by (simp add: tickets_numbered_def distinct_map)
      ultimately show "t' = t" using t by (auto dest: inj_onD)
    qed
    then show ?thesis by (rule thread_into_posts [OF run assms(3-6) _ may])
  qed
  show ?thesis
    using assms(1) thread open_ticket_posts [OF _ assms(2-7)]
    by (auto simp: thread_by_mask_def run_rules dest: find_row_SomeD split: option.splits if_splits)
qed

lemma thread_by_reference_posts:
  assumes "thread_by_reference pl mr s = (Inr oc, s')" "oc_state oc = OutProcessed" "upload_ok pl" "trim (mr_effectiveId mr) = mr_effectiveId mr"
    and "mr_effectiveId mr \<noteq> ''''" "no_post (mr_effectiveId mr) (snd s)" "tickets_numbered (snd s)"
  shows "posted_for (mr_effectiveId mr) (mail_from (mr_mail mr)) (snd s) (snd s') oc"
proof -
  have thread: "posted_for (mr_effectiveId mr) (mail_from (mr_mail mr)) (snd s) (snd s') oc"
    if run: "thread_into pl mr t s = (Inr oc, s')" and t: "ticket_by_id i (snd s) = Some t" and may: "sender_may_reply (snd s) t (mail_from (mr_mail mr))" for t i
  proof -
    have "t_id t = i" using t by (auto simp: ticket_by_id_def dest: find_row_SomeD)
    then show ?thesis using thread_into_posts [OF run assms(3-6) _ may] t by simp
  qed
  show ?thesis
    using assms(1) thread thread_by_mask_posts [OF _ assms(2-7)]
    by (auto simp: thread_by_reference_def Let_def run_rules split: option.splits if_splits)
qed

lemma route_message_posts:
  assumes "route_message pl mr s = (Inr oc, s')" "oc_state oc = OutProcessed" "upload_ok pl" "trim (mr_effectiveId mr) = mr_effectiveId mr"
    and "mr_effectiveId mr \<noteq> ''''" "tickets_numbered (snd s)"
  shows "posted_for (mr_effectiveId mr) (mail_from (mr_mail mr)) (snd s) (snd s') oc"
proof -
  let ?ids = "mr_effectiveId mr # legacyDedupIds (mr_delivery mr)"
  have none: "find_row (\<lambda>q. \<exists>m \<in> set ?ids. p_inboundMessageId q = Some m) (posts (snd s)) = None"
    and run: "thread_by_reference pl mr s = (Inr oc, s')"
    using assms(1,2) unfolding route_message_def
    by (auto simp: run_rules dest!: finalize_run_result split: if_splits option.splits)
  from none have "no_post (mr_effectiveId mr) (snd s)"
    unfolding find_row_None_iff no_post_def by fastforce
  from thread_by_reference_posts [OF run assms(2-5) this assms(6)] show ?thesis .
qed

lemma routed_run_posts:
  assumes "routed_run pl mr s = (Inr oc, s')" "oc_state oc = OutProcessed" "upload_ok pl" "trim (mr_effectiveId mr) = mr_effectiveId mr"
    and "mr_effectiveId mr \<noteq> ''''" "tickets_numbered (snd s)"
  shows "posted_for (mr_effectiveId mr) (mail_from (mr_mail mr)) (snd s) (snd s') oc"
proof -
  from assms(1) obtain u s1 where "on_box (persistEffectiveOwner (pl_in pl) (dv_id (mr_delivery mr)) (mr_lease mr)
      (RoutedTo (rt_departmentId (mr_route mr))) True) s = (Inr u, s1)" and r: "route_message pl mr s1 = (Inr oc, s')"
    by (auto simp only: routed_run_def run_rules)
  then have "snd s1 = snd s" by (cases s; cases s1) (simp add: on_box_run)
  then show ?thesis using route_message_posts [OF r assms(2-5)] assms(6) by simp
qed

lemma routed_after_box:
  assumes "on_box m s = (Inr y, s1)" "routed_run pl mr s1 = (Inr oc, s')" "oc_state oc = OutProcessed" "upload_ok pl"
    and "trim (mr_effectiveId mr) = mr_effectiveId mr" "mr_effectiveId mr \<noteq> ''''" "tickets_numbered (snd s)"
  shows "posted_for (mr_effectiveId mr) (mail_from (mr_mail mr)) (snd s) (snd s') oc"
proof -
  have "snd s1 = snd s" using assms(1) by (cases s; cases s1) (simp add: on_box_run)
  then show ?thesis using routed_run_posts [OF assms(2-6)] assms(7) by simp
qed

lemma record_message_posts:
  assumes "record_message pl mr rid s = (Inr oc, s')" "oc_state oc = OutProcessed" "upload_ok pl" "trim (mr_effectiveId mr) = mr_effectiveId mr"
    and "mr_effectiveId mr \<noteq> ''''" "tickets_numbered (snd s)"
  shows "posted_for (mr_effectiveId mr) (mail_from (mr_mail mr)) (snd s) (snd s') oc"
proof (cases rid)
  case None
  with assms(1) obtain route s1 where "on_box (recordHeaderlessDelivery (pl_in pl) (dv_id (mr_delivery mr)) (mr_lease mr) (identity_of mr)) s = (Inr route, s1)"
    "routed_run pl (mr\<lparr>mr_route := route\<rparr>) s1 = (Inr oc, s')" by (auto simp: record_message_def run_rules)
  from routed_after_box [OF this assms(2,3)] assms(4-6) show ?thesis by simp
next
  case (Some m)
  with assms(1) obtain c s1 where c: "on_box (claimRealMessage (pl_in pl) (mr_delivery mr) (mr_lease mr) m (identity_of mr)) s = (Inr c, s1)"
    and a: "after_claim pl mr m c s1 = (Inr oc, s')" by (auto simp: record_message_def run_rules)
  from a assms(2) obtain route where "routed_run pl (mr\<lparr>mr_route := route, mr_claimed := Some (ie_sha256 (pl_in pl) m)\<rparr>) s1 = (Inr oc, s')"
    by (cases c) (auto simp: after_claim_def run_rules)
  from routed_after_box [OF c this assms(2,3)] assms(4-6) show ?thesis by simp
qed

lemma normalized_trimmed: "normalizeMessageId v = Some m \<Longrightarrow> trim m = m \<and> m \<noteq> ''''"
  by (auto simp: normalizeMessageId_def Let_def trim_def trim_by_idem split: if_splits)

lemma real_id_trimmed: "resolveRealMessageId p = Inr (Some m) \<Longrightarrow> trim m = m \<and> m \<noteq> ''''"
  by (auto simp: resolveRealMessageId_def split: list.splits option.splits prod.splits if_splits dest!: normalized_trimmed)

lemma bracketed_trimmed: "trim (''<'' @ b @ ''>'') = ''<'' @ b @ ''>''"
  by (simp add: trim_def trim_by_def is_space_def code_of_def)

lemma effective_id_trimmed:
  assumes "read_message pl source = Inr (p, r)"
  shows "trim (effective_id pl v r) = effective_id pl v r \<and> effective_id pl v r \<noteq> ''''"
proof (cases r)
  case None
  have "effective_id pl v r = ''<'' @ (''inbound-'' @ ie_sha256 (pl_in pl) (dv_transportKey v) @ ''@23telecom.local'') @ ''>''"
    by (simp add: effective_id_def None)
  then show ?thesis using bracketed_trimmed by (metis append_is_Nil_conv list.distinct(1))
next
  case (Some m)
  with assms have "resolveRealMessageId p = Inr (Some m)"
    by (auto simp: read_message_def split: if_splits sum.splits option.splits)
  then show ?thesis using real_id_trimmed by (simp add: effective_id_def Some)
qed

lemma process_posts:
  assumes "processRawMessage pl leaseToken source departmentId v (x, d) = (Inr oc, (x', d'))" "oc_state oc = OutProcessed"
    and "upload_ok pl" "tickets_numbered d"
  obtains p r where "read_message pl source = Inr (p, r)" "posted_for (effective_id pl v r) (mail_from p) d d' oc"
proof -
  from assms(1) obtain p r where read: "read_message pl source = Inr (p, r)"
    and run: "record_message pl (start_run pl leaseToken departmentId v p r) r (x, d) = (Inr oc, (x', d'))"
    by (auto simp: processRawMessage_def run_rules act_of_run)
  from record_message_posts [OF run assms(2,3)] effective_id_trimmed [OF read, of v] assms(4) read show thesis
    by (intro that [OF read]) (auto simp: start_run_def)
qed

text \<open>C5: A message that the pipeline reports as processed is in exactly one post: the run adds one post and
  no other, which carries the message's id and belongs to the ticket the ledger is told; when that ticket
  existed before, the sender of the message is its requester, an address of its user or one of its
  recipients.\<close>

theorem processed_mail_posted_once:
  assumes "processRawMessage pl leaseToken source departmentId v (x, d) = (Inr oc, (x', d'))" "oc_state oc = OutProcessed"
    and "upload_ok pl" "tickets_numbered d"
  shows "\<exists>p r. read_message pl source = Inr (p, r) \<and> posted_for (effective_id pl v r) (mail_from p) d d' oc"
  using process_posts [OF assms] by blast


section \<open>A mail that continues a ticket\<close>

definition thanks_mail :: parsed_mail where
  "thanks_mail = \<lparr>pm_subject = Some ''Re: TT-000002'', pm_text = Some ''Thanks'', pm_html = None,
     pm_from = [\<lparr>ad_address = Some ''ann@example.org'', ad_name = Some ''Ann''\<rparr>],
     pm_to = [\<lparr>ad_address = Some ''noc@example.com'', ad_name = None\<rparr>], pm_cc = [], pm_bcc = [], pm_replyTo = [],
     pm_messageId = None, pm_inReplyTo = None, pm_references = NoReferences, pm_headerLines = [], pm_headers = [], pm_attachments = []\<rparr>"

definition sample_pipeline :: pipeline_env where
  "sample_pipeline = \<lparr>pl_in = ImapAccept.sample_env,
     pl_ce = \<lparr>ce_env = Notifications.sample_env, ce_orgPlan = (\<lambda>_. None), ce_date_ok = (\<lambda>_. True), ce_encrypt = (\<lambda>s. s)\<rparr>,
     pl_parse = (\<lambda>_. Inr thanks_mail), pl_rx = (\<lambda>_ _. None), pl_rules = [], pl_mailFrom = '''', pl_ownAddresses = [],
     pl_upload = (\<lambda>_. ret []), pl_nfc = (\<lambda>s. s), pl_collate = (\<lambda>_. []), pl_json = (\<lambda>_. '''')\<rparr>"

definition leased_delivery :: delivery where
  "leased_delivery = \<lparr>dv_id = 2, dv_transport = IMAP, dv_queueId = Some 2, dv_transportKey = ''imap:2:2:77:5'', dv_mailboxEpoch = Some 2, 
     dv_uidValidity = Some 77, dv_uid = Some 5, dv_externalId = None, dv_observedMessageId = None, dv_messageIdHash = None, 
     dv_semanticHash = None, dv_contentHash = ''h'', dv_envelopeFrom = None, dv_envelopeTo = Some ''noc@example.com'', 
     dv_subject = '''', dv_departmentId = Some 10, dv_sendAutoresponder = Some False, 
     dv_routingSnapshot = [routing_entry_of sample_queue], dv_routedQueueId = Some 2, dv_routedDepartmentId = Some 10, 
     dv_ownerKind = UNRESOLVED, dv_ownerDepartmentId = None, dv_ownerTicketId = None, dv_rawMime = Some sample_source, 
     dv_rawStorageKey = None, dv_rawPrunedAt = None, dv_truncated = False, dv_sizeBytes = 14, dv_state = DProcessing, 
     dv_capturePromotedAt = None, dv_attempts = 1, dv_lastError = None, dv_nextAttemptAt = None, 
     dv_leaseOwner = Some ''lease'', dv_leaseExpiresAt = Some 1700000300000, dv_ticketId = None, dv_postId = None, 
     dv_createdAt = 1700000000000, dv_updatedAt = 1700000000000, dv_processedAt = None\<rparr>"

definition thanks_db :: db where
  "thanks_db = merge_db\<lparr>tickets := [(sample_ticket 2 10)\<lparr>t_userId := Some 9, t_mask := ''TT-000002''\<rparr>], seq_post := 3\<rparr>"

definition thanks_box :: inbox where
  "thanks_box = sample_inbox\<lparr>ib_deliveries := [leased_delivery]\<rparr>"

lemma thanks_resolve: "resolveRealMessageId thanks_mail = Inr None"
  by (simp add: resolveRealMessageId_def thanks_mail_def)

lemma thanks_from: "mail_from thanks_mail = ''ann@example.org''"
  by code_simp

lemma thanks_plausible: "isPlausibleEmail ''ann@example.org''"
  by (simp add: isPlausibleEmail_def MAX_ADDRESS_CHARS_def plausible_label_def is_local_char_def is_alnum_def lower_char_def code_of_def ends_with_iff starts_with_iff Let_def)

lemma thanks_valid: "validateParsedMail thanks_mail = None"
  unfolding validateParsedMail_def thanks_resolve
  by (simp add: assertFieldLength_def too_long_def assertValidMessageId_def all_addresses_def check_that_def thanks_mail_def
     MAX_SUBJECT_CHARS_def MAX_BODY_CHARS_def MAX_ADDRESS_CHARS_def MAX_NAME_CHARS_def MAX_ADDRESSES_def MAX_ATTACHMENTS_def MAX_REFERENCES_def MAX_REFERENCE_CHARS_def)

lemma thanks_read: "read_message sample_pipeline sample_source = Inr (thanks_mail, None)"
  using thanks_valid thanks_resolve thanks_from thanks_plausible
  by (simp add: read_message_def sample_pipeline_def ImapAccept.sample_env_def sample_source_def)

lemma thanks_db_ok: "tickets_numbered thanks_db" "posts thanks_db = []"
  by code_simp+

lemma sample_upload_ok: "upload_ok sample_pipeline"
  by (simp add: upload_ok_def sample_pipeline_def st.stays_ret)

lemma thanks_run:
  obtains oc x' d' where "processRawMessage sample_pipeline ''lease'' sample_source (Some 10) leased_delivery (thanks_box, thanks_db) = (Inr oc, (x', d'))"
    "oc_state oc = OutProcessed"
proof -
  let ?run = "record_message sample_pipeline (start_run sample_pipeline ''lease'' (Some 10) leased_delivery thanks_mail None) None (thanks_box, thanks_db)"
  have "case fst ?run of Inr oc \<Rightarrow> oc_state oc = OutProcessed | _ \<Rightarrow> False" by code_simp
  then obtain oc x' d' where "?run = (Inr oc, (x', d'))" "oc_state oc = OutProcessed"
    by (cases ?run; cases "fst ?run") auto
  then show ?thesis using that by (simp add: process_read [OF thanks_read])
qed

theorem processed_mail_posted_once_witness:
  "\<exists>oc x' d' q. processRawMessage sample_pipeline ''lease'' sample_source (Some 10) leased_delivery (thanks_box, thanks_db) = (Inr oc, (x', d')) \<and>
     posts d' = [q] \<and> oc_ticketId oc = Some (p_ticketId q) \<and> oc_postId oc = Some (p_id q)"
proof -
  obtain oc x' d' where run: "processRawMessage sample_pipeline ''lease'' sample_source (Some 10) leased_delivery (thanks_box, thanks_db) = (Inr oc, (x', d'))"
    "oc_state oc = OutProcessed" by (rule thanks_run)
  from processed_mail_posted_once [OF run sample_upload_ok thanks_db_ok(1)]
  show ?thesis using run(1) by (auto simp: posted_for_def posts_once_def thanks_db_ok(2))
qed


end
