(* ===== verification/InboundDelivery.thy ===== *)
theory InboundDelivery
  imports InboundPipeline
begin

text \<open>
  The worker side of the ledger (\<open>drainDeliveries\<close>, \<open>processDelivery\<close> and \<open>processDeliveryClaimed\<close> in
  \<open>inbound.service.ts\<close>): a delivery is claimed with a fresh lease token, run through the pipeline, and
  settled by a write that holds the token. The process-local guards (\<open>inFlight\<close>, \<open>drainInFlight\<close>,
  \<open>stopping\<close>) are left out: they only make a process do less.
\<close>

section \<open>Claim\<close>

definition normalDeliveryLifecycleFence :: "inbound_env \<Rightarrow> inbox \<Rightarrow> delivery \<Rightarrow> bool" where
  "normalDeliveryLifecycleFence en x v \<longleftrightarrow>
     (if normalDeliveryCanary en \<noteq> None then queue_retired x v else \<not> queue_retired x v)"

definition lockDeliveryQueueForNormalProcessing :: "inbound_env \<Rightarrow> nat \<Rightarrow> bool act_in" where
  "lockDeliveryQueueForNormalProcessing en deliveryId =
     (let canary = normalDeliveryCanary en in
      bnd (reads (delivery_by_id deliveryId)) (\<lambda>z.
      case z of
        None \<Rightarrow> ret False
      | Some v \<Rightarrow>
          (case dv_queueId v of
             None \<Rightarrow> ret (canary = None)
           | Some i \<Rightarrow>
               if (case canary of None \<Rightarrow> False | Some c \<Rightarrow> i \<noteq> fst c) then ret False
               else bnd (reads (queue_by_id i)) (\<lambda>queue.
                 case queue of
                   None \<Rightarrow> ret False
                 | Some q \<Rightarrow> ret (if canary \<noteq> None then mq_captureRetiredAt q \<noteq> None else mq_captureRetiredAt q = None)))))"

definition canary_row :: "inbound_env \<Rightarrow> delivery \<Rightarrow> bool" where
  "canary_row en v \<longleftrightarrow>
     (case normalDeliveryCanary en of
        None \<Rightarrow> True
      | Some c \<Rightarrow> dv_queueId v = Some (fst c) \<and> dv_capturePromotedAt v \<noteq> None)"

definition before_now :: "inbound_env \<Rightarrow> time option \<Rightarrow> bool" where
  "before_now en z \<longleftrightarrow> (case z of None \<Rightarrow> False | Some t \<Rightarrow> t < ie_now en)"

definition due :: "inbound_env \<Rightarrow> delivery \<Rightarrow> bool" where
  "due en v \<longleftrightarrow> (case dv_nextAttemptAt v of None \<Rightarrow> True | Some t \<Rightarrow> t \<le> ie_now en)"

definition delivery_claimable :: "inbound_env \<Rightarrow> inbox \<Rightarrow> nat \<Rightarrow> delivery \<Rightarrow> bool" where
  "delivery_claimable en x deliveryId v \<longleftrightarrow>
     dv_id v = deliveryId \<and> normalDeliveryLifecycleFence en x v \<and> canary_row en v \<and>
     (dv_state v = DAccepted \<or> (dv_state v = DRetry \<and> due en v) \<or> (dv_state v = DProcessing \<and> before_now en (dv_leaseExpiresAt v)))"

definition claim_row :: "inbound_env \<Rightarrow> string \<Rightarrow> delivery \<Rightarrow> delivery" where
  "claim_row en leaseToken v =
     v\<lparr>dv_state := DProcessing, dv_leaseOwner := Some leaseToken, dv_leaseExpiresAt := Some (ie_now en + LEASE_MS),
       dv_attempts := Suc (dv_attempts v)\<rparr>"

definition claim_delivery :: "inbound_env \<Rightarrow> nat \<Rightarrow> string \<Rightarrow> nat act_in" where
  "claim_delivery en deliveryId leaseToken =
     db_txn (
       bnd (lockDeliveryQueueForNormalProcessing en deliveryId) (\<lambda>ok.
         if \<not> ok then ret 0
         else bnd (reads (\<lambda>x. x)) (\<lambda>x. update_deliveries en (delivery_claimable en x deliveryId) (claim_row en leaseToken))))"

section \<open>Settlement\<close>

definition settle_delivery :: "inbound_env \<Rightarrow> nat \<Rightarrow> string \<Rightarrow> (delivery \<Rightarrow> delivery) \<Rightarrow> unit act_in" where
  "settle_delivery en deliveryId leaseToken f = bnd (update_deliveries en (leased deliveryId leaseToken) f) (\<lambda>_. ret ())"

definition lease_released :: "delivery \<Rightarrow> delivery" where
  "lease_released v = v\<lparr>dv_leaseOwner := None, dv_leaseExpiresAt := None\<rparr>"

definition quarantine_row :: "string \<Rightarrow> delivery \<Rightarrow> delivery" where
  "quarantine_row message v = lease_released (v\<lparr>dv_state := DQuarantined, dv_lastError := Some message\<rparr>)"

text \<open>One minute, doubled with each attempt.\<close>

definition retry_row :: "inbound_env \<Rightarrow> nat \<Rightarrow> string \<Rightarrow> delivery \<Rightarrow> delivery" where
  "retry_row en attempts message v =
     lease_released (v\<lparr>dv_state := DRetry, dv_nextAttemptAt := Some (ie_now en + 60000 * 2 ^ (attempts - 1)), dv_lastError := Some message\<rparr>)"

definition settled_row :: "inbound_env \<Rightarrow> outcome \<Rightarrow> delivery \<Rightarrow> delivery" where
  "settled_row en oc v =
     (let w = lease_released (v\<lparr>dv_state := (case oc_state oc of OutProcessed \<Rightarrow> DProcessed | OutSkipped \<Rightarrow> DSkipped),
                          dv_ticketId := oc_ticketId oc, dv_postId := oc_postId oc, dv_processedAt := Some (ie_now en),
                          dv_lastError := None\<rparr>) in
      case oc_ticketId oc of None \<Rightarrow> w | Some t \<Rightarrow> w\<lparr>dv_ownerKind := TICKET, dv_ownerTicketId := Some t\<rparr>)"

text \<open>A failed owner write hides the row from everybody but administrators.\<close>

definition close_owner :: "error \<Rightarrow> delivery \<Rightarrow> delivery" where
  "close_owner e v =
     (case e of OwnerUnresolved i \<Rightarrow> v\<lparr>dv_ownerKind := UNRESOLVED, dv_ownerDepartmentId := None, dv_ownerTicketId := None\<rparr> | _ \<Rightarrow> v)"

definition failure_row :: "inbound_env \<Rightarrow> nat \<Rightarrow> error \<Rightarrow> delivery \<Rightarrow> delivery" where
  "failure_row en attempts e v =
     (if isPermanentProcessingError e \<or> attempts \<ge> ie_maxAttempts en
      then quarantine_row (safeProcessingError e) (close_owner e (v\<lparr>dv_attempts := attempts\<rparr>))
      else retry_row en attempts (safeProcessingError e) (close_owner e (v\<lparr>dv_attempts := attempts\<rparr>)))"

text \<open>What is settled without a run: incomplete bytes, and a spent budget.\<close>

definition preflight :: "inbound_env \<Rightarrow> delivery \<Rightarrow> (delivery \<Rightarrow> delivery) option" where
  "preflight en v =
     (if dv_truncated v then
        Some (quarantine_row ''oversized: the fetched raw MIME is truncated at the size ceiling; re-fetch the original message to replay'')
      else if dv_attempts v > ie_maxAttempts en then
        Some (quarantine_row ''exhausted attempts (processing repeatedly exceeded the lease)'')
      else None)"

definition load_raw :: "inbound_env \<Rightarrow> delivery \<Rightarrow> string option act_in" where
  "load_raw en v =
     (case dv_rawMime v of
        Some b \<Rightarrow> ret (Some b)
      | None \<Rightarrow>
          (case dv_rawStorageKey v of
             None \<Rightarrow> ret None
           | Some k \<Rightarrow>
               if k = '''' then ret None
               else sq (require (ie_rawStorage en) (ServiceUnavailable ''Inbound raw MIME storage unavailable''))
                      (bnd (read_file en k) (\<lambda>b. ret (Some b)))))"

definition unavailable_row :: "inbound_env \<Rightarrow> nat \<Rightarrow> delivery \<Rightarrow> delivery" where
  "unavailable_row en attempts v =
     (if attempts \<ge> ie_maxAttempts en
      then quarantine_row ''Inbound raw MIME storage remained unavailable after retry budget'' v
      else retry_row en attempts ''Inbound raw MIME storage temporarily unavailable'' v)"

definition heartbeat :: "inbound_env \<Rightarrow> nat \<Rightarrow> string \<Rightarrow> nat act_in" where
  "heartbeat en deliveryId leaseToken =
     update_deliveries en (leased deliveryId leaseToken) (\<lambda>v. v\<lparr>dv_leaseExpiresAt := Some (ie_now en + LEASE_MS)\<rparr>)"

section \<open>One delivery\<close>

definition settles :: "pipeline_env \<Rightarrow> nat \<Rightarrow> string \<Rightarrow> (delivery \<Rightarrow> delivery) \<Rightarrow> unit act_mail" where
  "settles pl deliveryId leaseToken f = on_box (settle_delivery (pl_in pl) deliveryId leaseToken f)"

definition process_loaded :: "pipeline_env \<Rightarrow> string \<Rightarrow> nat option \<Rightarrow> delivery \<Rightarrow> string option \<Rightarrow> unit act_mail" where
  "process_loaded pl leaseToken departmentId v raw =
     (case raw of
        None \<Rightarrow> settles pl (dv_id v) leaseToken (quarantine_row ''missing rawMime'')
      | Some source \<Rightarrow>
          catch_act
            (bnd (processRawMessage pl leaseToken source departmentId v) (\<lambda>oc. settles pl (dv_id v) leaseToken (settled_row (pl_in pl) oc)))
            (\<lambda>e. settles pl (dv_id v) leaseToken (failure_row (pl_in pl) (dv_attempts v) e)))"

definition process_claimed :: "pipeline_env \<Rightarrow> string \<Rightarrow> nat option \<Rightarrow> delivery \<Rightarrow> unit act_mail" where
  "process_claimed pl leaseToken departmentId v =
     (case preflight (pl_in pl) v of
        Some f \<Rightarrow> settles pl (dv_id v) leaseToken f
      | None \<Rightarrow>
          bnd (catch_act (bnd (on_box (load_raw (pl_in pl) v)) (\<lambda>raw. ret (Some raw))) (\<lambda>_. ret None)) (\<lambda>z.
            case z of
              None \<Rightarrow> settles pl (dv_id v) leaseToken (unavailable_row (pl_in pl) (dv_attempts v))
            | Some raw \<Rightarrow> process_loaded pl leaseToken departmentId v raw))"

definition processDeliveryClaimed :: "pipeline_env \<Rightarrow> string \<Rightarrow> nat \<Rightarrow> nat option \<Rightarrow> unit act_mail" where
  "processDeliveryClaimed pl leaseToken deliveryId departmentId =
     (let en = pl_in pl in
      if normalDeliveryCanaryConfigured en \<and> normalDeliveryCanary en = None then ret ()
      else if (case normalDeliveryCanary en of None \<Rightarrow> False | Some c \<Rightarrow> deliveryId \<noteq> snd c) then ret ()
      else
        bnd (on_box (claim_delivery en deliveryId leaseToken)) (\<lambda>n.
          if n = 0 then ret ()
          else bnd (reads (\<lambda>s. delivery_by_id deliveryId (fst s))) (\<lambda>z.
            case z of None \<Rightarrow> ret () | Some v \<Rightarrow> process_claimed pl leaseToken departmentId v)))"

definition processDelivery :: "pipeline_env \<Rightarrow> string \<Rightarrow> nat \<Rightarrow> nat option \<Rightarrow> unit act_mail" where
  "processDelivery pl leaseToken deliveryId departmentId =
     (if \<not> inboundProcessingEnabled (pl_in pl) then ret ()
      else processDeliveryClaimed pl leaseToken deliveryId departmentId)"

section \<open>The drain\<close>

definition drain_due :: "inbound_env \<Rightarrow> inbox \<Rightarrow> delivery \<Rightarrow> bool" where
  "drain_due en x v \<longleftrightarrow>
     normalDeliveryLifecycleFence en x v \<and> canary_row en v \<and>
     (case normalDeliveryCanary en of None \<Rightarrow> True | Some c \<Rightarrow> dv_id v = snd c) \<and>
     ((dv_state v \<in> {DAccepted, DRetry} \<and> due en v) \<or> (dv_state v = DProcessing \<and> before_now en (dv_leaseExpiresAt v)))"

text \<open>\<open>fresh\<close> is the lease token a claim draws.\<close>

definition drainDeliveries :: "pipeline_env \<Rightarrow> (nat \<Rightarrow> string) \<Rightarrow> unit act_mail" where
  "drainDeliveries pl fresh =
     (let en = pl_in pl in
      if \<not> inboundProcessingEnabled en then ret ()
      else if normalDeliveryCanaryConfigured en \<and> normalDeliveryCanary en = None then ret ()
      else
        bnd (reads (\<lambda>s. take 50 (sort_key dv_id (filter (drain_due en (fst s)) (ib_deliveries (fst s)))))) (\<lambda>rows.
        bnd (each (\<lambda>v. processDelivery pl (fresh (dv_id v)) (dv_id v) (dv_departmentId v)) rows) (\<lambda>_. ret ())))"

end
