(* ===== verification/InboundRun.thy ===== *)
theory InboundRun
  imports InboundDelivery RawSafety
begin

text \<open>
  Workers, operators and acceptances of different processes, interleaved one transaction at a time. A
  worker may stop anywhere and may go on after its lease was taken; the theorems are about the rows of
  the ledger in every state that can be reached: what a row looks like, which rows are ever processed,
  and how often.
\<close>

section \<open>Steps that leave the life of a row alone\<close>

text \<open>Such a step may change the owner, the route, the bytes and the end of the lease of a row.\<close>

definition quiet_row :: "delivery \<Rightarrow> delivery \<Rightarrow> bool" where
  "quiet_row v w \<longleftrightarrow>
     dv_id w = dv_id v \<and> dv_state w = dv_state v \<and> dv_attempts w = dv_attempts v \<and> dv_leaseOwner w = dv_leaseOwner v \<and>
     (dv_leaseOwner v = None \<longrightarrow> dv_leaseExpiresAt w = dv_leaseExpiresAt v) \<and>
     (dv_leaseExpiresAt v \<noteq> None \<longrightarrow> dv_leaseExpiresAt w \<noteq> None) \<and> dv_nextAttemptAt w = dv_nextAttemptAt v \<and>
     dv_processedAt w = dv_processedAt v \<and> dv_capturePromotedAt w = dv_capturePromotedAt v \<and> dv_truncated w = dv_truncated v \<and>
     ((dv_ownerKind v = TICKET \<longrightarrow> dv_ownerTicketId v \<noteq> None) \<longrightarrow> dv_ownerKind w = TICKET \<longrightarrow> dv_ownerTicketId w \<noteq> None)"

definition quiet_box :: "inbox \<Rightarrow> inbox \<Rightarrow> bool" where
  "quiet_box x x' \<longleftrightarrow>
     list_all2 quiet_row (ib_deliveries x) (ib_deliveries x') \<and>
     ib_seq_delivery x' = ib_seq_delivery x \<and> set (ib_audit x) \<subseteq> set (ib_audit x')"

lemma quiet_row_refl [simp]: "quiet_row v v"
  by (simp add: quiet_row_def)

lemma quiet_row_trans: "quiet_row u v \<Longrightarrow> quiet_row v w \<Longrightarrow> quiet_row u w"
  unfolding quiet_row_def by auto

interpretation quiet: frame quiet_box
proof
  show "quiet_box x x" for x by (simp add: quiet_box_def list_all2_refl)
  show "quiet_box x z" if "quiet_box x y" "quiet_box y z" for x y z
    using that list_all2_trans [of quiet_row quiet_row quiet_row, OF quiet_row_trans]
    by (auto simp: quiet_box_def)
qed

lemma quiet_modify:
  assumes "\<And>x. list_all2 quiet_row (ib_deliveries x) (ib_deliveries (f x))"
    and "\<And>x. ib_seq_delivery (f x) = ib_seq_delivery x" "\<And>x. set (ib_audit x) \<subseteq> set (ib_audit (f x))"
  shows "quiet.stays (modify f)"
  using assms by (simp add: quiet.stays_def modify_def quiet_box_def)

lemma quiet_update_queues: "quiet.stays (update_queues p f)"
  unfolding update_queues_def
  by (intro quiet.stays_intros quiet_modify) (simp_all add: list_all2_refl)

lemma quiet_stamp: "quiet.stays (stampQueue i f)"
  unfolding stampQueue_def by (intro quiet_modify) (simp_all add: list_all2_refl)

lemma list_all2_update:
  "(\<And>v. P v v) \<Longrightarrow> (\<And>v. p v \<Longrightarrow> P v (f v)) \<Longrightarrow> list_all2 P rows (update_rows p f rows)"
  by (induction rows) auto

lemma quiet_update_deliveries:
  assumes "\<And>v. p v \<Longrightarrow> quiet_row v ((f v)\<lparr>dv_updatedAt := ie_now en\<rparr>)"
  shows "quiet.stays (update_deliveries en p f)"
  unfolding update_deliveries_def
  by (intro quiet.stays_intros quiet_modify) (auto intro: list_all2_update assms)

lemma quiet_audit: "quiet.stays (create_audit e)"
  unfolding create_audit_def by (intro quiet_modify) (auto simp: list_all2_refl)

lemma quiet_same:
  "(\<And>x. ib_deliveries (f x) = ib_deliveries x \<and> ib_audit (f x) = ib_audit x \<and>
      ib_seq_delivery (f x) = ib_seq_delivery x) \<Longrightarrow> quiet.stays (modify f)"
  by (intro quiet_modify) (auto simp: list_all2_refl)

lemma quiet_db_txn: "quiet.stays m \<Longrightarrow> quiet.stays (db_txn m)"
proof -
  assume m: "quiet.stays m"
  have "quiet_box x (snd (db_txn m x))" for x
  proof (cases "m x")
    case (Pair r x')
    then have "quiet_box x x'" using quiet.staysD [OF m] by blast
    moreover have "quiet_box x (x\<lparr>ib_volume := ib_volume x'\<rparr>)" by (simp add: quiet_box_def list_all2_refl)
    ultimately show ?thesis using Pair by (simp add: db_txn_def split: sum.split)
  qed
  then show ?thesis by (simp add: quiet.stays_def)
qed

lemma quiet_volume: "quiet.stays (upd_volume f)"
  unfolding upd_volume_def by (intro quiet_same) simp

lemma quiet_stages: "quiet.stays (update_stages p g)" "quiet.stays (delete_stages p)"
  unfolding update_stages_def delete_stages_def by (intro quiet.stays_intros quiet_same; simp)+

lemmas quiet_intros = quiet.stays_intros quiet_db_txn quiet_audit quiet_stages quiet_volume

section \<open>Operations that do\<close>

lemma quiet_mailboxes: "quiet.stays (selectedMailbox q)" "quiet.stays (captureMailbox en q)" "quiet.stays (readPersistedImapMailbox m)"
  "quiet.stays (requested_mailbox m)" "quiet.stays (scoped_queue sc i)"
  unfolding selectedMailbox_def captureMailbox_def readPersistedImapMailbox_def requested_mailbox_def scoped_queue_def
  by (intro quiet_intros)+

text \<open>What the pipeline and its heartbeat write.\<close>

lemma quiet_heartbeat: "quiet.stays (heartbeat en i leaseToken)"
  unfolding heartbeat_def
  by (rule quiet_update_deliveries) (simp add: quiet_row_def leased_def)

lemma quiet_owner: "quiet.stays (persistEffectiveOwner en i leaseToken ow pt)"
  unfolding persistEffectiveOwner_def
  by (intro quiet_intros quiet_update_deliveries) (cases ow; simp add: quiet_row_def)

lemma quiet_identity: "quiet.stays (recordDeliveryIdentity en i leaseToken a)"
  unfolding recordDeliveryIdentity_def
  by (intro quiet_intros quiet_update_deliveries) (simp add: quiet_row_def)

lemma quiet_mail_audit: "quiet.stays (mail_audit a q i r)" "quiet.stays (writeRouteFallbackAudit i route)"
  unfolding mail_audit_def writeRouteFallbackAudit_def by (rule quiet_audit)+

lemma quiet_headerless: "quiet.stays (recordHeaderlessDelivery en i leaseToken a)"
  unfolding recordHeaderlessDelivery_def by (intro quiet_intros quiet_identity quiet_mail_audit)

lemma quiet_insert_claim: "quiet.stays (insert_claim c)"
  unfolding insert_claim_def by (intro quiet_same) simp

lemma quiet_claim_message: "quiet.stays (claimRealMessage en v leaseToken m a)"
  unfolding claimRealMessage_def Let_def
  by (intro quiet_intros quiet_identity quiet_mail_audit quiet_insert_claim)

lemma quiet_finalize_claim: "quiet.stays (finalize_claim en i hash sem t p)"
proof -
  have "quiet.stays (update_deliveries en q (\<lambda>v. v\<lparr>dv_ownerKind := TICKET, dv_ownerTicketId := Some k\<rparr>))" for q k
    by (rule quiet_update_deliveries) (simp add: quiet_row_def)
  then show ?thesis
    unfolding finalize_claim_def by (intro quiet_intros quiet_same) simp_all
qed

text \<open>Retention.\<close>

lemma quiet_retention: "quiet.stays (mark_pruned en is)" "quiet.stays (forget_key en i k)"
  unfolding mark_pruned_def forget_key_def by (rule quiet_update_deliveries; simp add: quiet_row_def)+

text \<open>Queues: edits, reconciles, halts, baselines, cursors and the arming of a capture.\<close>

lemma quiet_update_queue: "quiet.stays (update_write sc current p m w)"
  unfolding update_write_def
  by (intro quiet_intros quiet_update_queues)

lemma quiet_reconcile_audit: "quiet.stays (appendReconcileAudit a q rq)"
  unfolding appendReconcileAudit_def by (rule quiet_audit)

lemma quiet_reconcile:
  "quiet.stays (beginMailboxReconcile en sc q rq)" "quiet.stays (completeMailboxReconcile sc q c rq bl)"
  "quiet.stays (failMailboxReconcile sc q c rq m)"
  unfolding beginMailboxReconcile_def completeMailboxReconcile_def failMailboxReconcile_def
  by (intro quiet_intros quiet_mailboxes quiet_reconcile_audit quiet_update_queues)+

lemma quiet_resume: "quiet.stays (resumeLegacyReconcile sc lc q rq)"
  unfolding resumeLegacyReconcile_def
  by (intro quiet_intros quiet_mailboxes quiet_reconcile_audit quiet_update_queues)

lemma quiet_poll:
  "quiet.stays (haltImapSnapshot en q c m)" "quiet.stays (advance_cursor en q m cur)" "quiet.stays (bootstrap_cas en q m v b)"
  "quiet.stays (arm_tx en q m)"
  unfolding haltImapSnapshot_def advance_cursor_def bootstrap_cas_def arm_tx_def Let_def
  by (intro quiet_intros quiet_mailboxes quiet_update_queues)+

lemma quiet_create_queue: "quiet.stays (create_queue en encrypt sc d p)"
proof -
  have db: "quiet.stays (lift_db d m)" for m :: "'a act_db"
    by (simp add: quiet.stays_def lift_db_def quiet.frame_refl)
  have "quiet.stays (encryptQueuePassword en encrypt w)" for w
    unfolding encryptQueuePassword_def by (intro quiet_intros)
  then show ?thesis
    unfolding create_queue_def Let_def
    by (intro quiet_intros quiet_mailboxes db quiet_modify) (simp_all add: list_all2_refl)
qed

lemma quiet_delete_queue: "quiet.stays (delete_queue sc i g)"
proof -
  have "quiet_row v (v\<lparr>dv_queueId := z, dv_routedQueueId := z'\<rparr>)" for v z z'
    by (simp add: quiet_row_def)
  then show ?thesis
    unfolding delete_queue_def Let_def
    by (intro quiet_intros quiet_mailboxes quiet_modify) (auto simp: orphan_rows_def list_all2_map2 list_all2_refl)
qed

section \<open>Acceptance\<close>

lemma sq_require: "sq (require b e) m x = (Inr r, x') \<Longrightarrow> b \<and> m x = (Inr r, x')"
  by (auto simp: run_sq run_require split: if_splits)

lemma accept_tx_run:
  assumes "accept_tx en a x = (Inr out, x')"
  shows "\<exists>q \<in> set (ib_queues x). fenced_row en (ac_snapshot a) (ac_mailbox a) q \<and>
    (out = Duplicate \<and> x' = x \<or> settle_conflict en a x = (Inr out, x') \<or>
     (delivery_by_key (ac_key a) x = None \<and>
      (\<exists>s. settle_accepted en a (x\<lparr>ib_deliveries := ib_deliveries x @ [imap_delivery en a q s (ib_seq_delivery x)],
          ib_seq_delivery := Suc (ib_seq_delivery x)\<rparr>) = (Inr out, x'))))"
proof -
  obtain q where q: "find_row (fenced_row en (ac_snapshot a) (ac_mailbox a)) (ib_queues x) = Some q"
    using assms by (cases "find_row (fenced_row en (ac_snapshot a) (ac_mailbox a)) (ib_queues x)")
      (auto simp: accept_tx_def db_txn_run run_bnd run_reads run_throw)
  have qs: "q \<in> set (ib_queues x)" "fenced_row en (ac_snapshot a) (ac_mailbox a) q" using find_row_SomeD [OF q] by auto
  let ?ex = "delivery_by_key (ac_key a) x"
  have body: "(if (case ?ex of None \<Rightarrow> False | Some v \<Rightarrow> exact_retry en a v) then ret Duplicate
      else sq (when_act (?ex = None) (assertCaptureCapacity en (mq_id (ac_snapshot a))))
        (bnd (captureRoutingSnapshot en q) (\<lambda>s. sq (lockRawStageForAcceptance (snd (ac_raw a)))
          (if ?ex = None then bnd (insert_delivery (imap_delivery en a q s)) (\<lambda>_. settle_accepted en a) else settle_conflict en a)))) x = (Inr out, x')"
    using assms q unfolding accept_tx_def db_txn_run
    by (auto simp: run_bnd run_reads dest!: sq_require)
  show ?thesis
  proof (cases "case ?ex of None \<Rightarrow> False | Some v \<Rightarrow> exact_retry en a v")
    case True
    with body have "out = Duplicate" "x' = x" by (simp_all add: run_ret)
    with qs show ?thesis by blast
  next
    case False
    define rest where "rest s = (if ?ex = None then bnd (insert_delivery (imap_delivery en a q s)) (\<lambda>_. settle_accepted en a)
        else settle_conflict en a)" for s
    have "sq (when_act (?ex = None) (assertCaptureCapacity en (mq_id (ac_snapshot a))))
        (bnd (captureRoutingSnapshot en q) (\<lambda>s. sq (lockRawStageForAcceptance (snd (ac_raw a))) (rest s))) x = (Inr out, x')"
      using body False unfolding rest_def by simp
    then obtain s where r: "rest s x = (Inr out, x')"
      unfolding run_sq run_bnd by (auto simp: run_when_unit dest!: reads_only_snapshot reads_only_capacity reads_only_lock split: if_splits)
    show ?thesis
    proof (cases "?ex = None")
      case True
      with r [unfolded rest_def] have "settle_accepted en a (x\<lparr>ib_deliveries := ib_deliveries x @ [imap_delivery en a q s (ib_seq_delivery x)],
          ib_seq_delivery := Suc (ib_seq_delivery x)\<rparr>) = (Inr out, x')"
        by (auto simp: run_bnd insert_run)
      with qs True show ?thesis by blast
    next
      case False
      with r [unfolded rest_def] qs show ?thesis by auto
    qed
  qed
qed

text \<open>Reservations of raw messages; none of them writes to the ledger except the two of retention.\<close>

lemma quiet_reservations:
  "quiet.stays (reserveRawMimeStage en q k c)" "quiet.stays (claim_discard k)" "quiet.stays (finalize_stage k)"
  "quiet.stays (claimExpiredRawMimeStages en ks)" "quiet.stays (judge_stage b k)" "quiet.stays (removeFile en k)"
  unfolding reserveRawMimeStage_def claim_discard_def finalize_stage_def claimExpiredRawMimeStages_def judge_stage_def removeFile_def Let_def
  by (intro quiet_intros quiet_same; simp)+

lemma quiet_publish: "quiet.stays (publishRawMimeStage en k (publish_file k))"
  unfolding publishRawMimeStage_def publish_file_def Let_def
  by (intro quiet_intros quiet_same; simp)

text \<open>An acceptance appends one row or none.\<close>

definition plus_row :: "(nat \<Rightarrow> delivery) \<Rightarrow> inbox \<Rightarrow> inbox" where
  "plus_row f x = x\<lparr>ib_deliveries := ib_deliveries x @ [f (ib_seq_delivery x)], ib_seq_delivery := Suc (ib_seq_delivery x)\<rparr>"

lemma quiet_marks: "quiet.stays (markRawStageCommitted z)" "quiet.stays (settle_accepted en a)" "quiet.stays (settle_conflict en a)"
  unfolding markRawStageCommitted_def settle_accepted_def settle_conflict_def
  by (intro quiet_intros quiet_update_queues)+

lemma failed_db_txn: "db_txn m x = (Inl e, x') \<Longrightarrow> quiet_box x x'"
  by (auto simp: db_txn_def quiet_box_def list_all2_refl split: prod.splits sum.splits)

lemma accept_tx_rows:
  assumes "accept_tx en a x = (r, x')"
  shows "quiet_box x x' \<or> (\<exists>q s. quiet_box (plus_row (imap_delivery en a q s) x) x')"
proof (cases r)
  case (Inl e)
  then show ?thesis using assms failed_db_txn unfolding accept_tx_def by blast
next
  case (Inr out)
  with assms have "accept_tx en a x = (Inr out, x')" by simp
  from accept_tx_run [OF this] show ?thesis
    using quiet.frame_refl quiet.staysD [OF quiet_marks(3)] quiet.staysD [OF quiet_marks(2)] unfolding plus_row_def by blast
qed

lemma pipe_tx_rows:
  assumes "pipe_tx en p x = (r, x')"
  shows "quiet_box x x' \<or> (\<exists>q s. quiet_box (plus_row (pipe_delivery en p q s) x) x')"
proof (cases r)
  case (Inl e)
  then show ?thesis using assms failed_db_txn unfolding pipe_tx_def by blast
next
  case (Inr out)
  with assms have run: "pipe_tx en p x = (Inr out, x')" by simp
  let ?own = "\<lambda>q. mq_id q = pp_queueId p \<and> mq_type q = PIPE \<and> mq_isEnabled q \<and> mq_captureRetiredAt q = None"
  let ?key = "pipe_key en (pp_queueId p) (pp_externalId p)"
  obtain q where q: "find_row ?own (ib_queues x) = Some q"
    using run by (cases "find_row ?own (ib_queues x)") (auto simp: pipe_tx_def db_txn_run run_bnd run_reads run_throw)
  have body: "(case delivery_by_key ?key x of
      Some v \<Rightarrow> if dv_contentHash v = ie_sha256 en (pp_source p) then ret (dv_id v, mq_departmentId q, True)
        else sq (captureRoutingSnapshot en q) (sq (lockRawStageForAcceptance (snd (pp_raw p))) (throw (UniqueViolation ''transportKey'')))
    | None \<Rightarrow> bnd (captureRoutingSnapshot en q) (\<lambda>s. sq (lockRawStageForAcceptance (snd (pp_raw p)))
        (bnd (insert_delivery (pipe_delivery en p q s)) (\<lambda>i. sq (markRawStageCommitted (snd (pp_raw p))) (ret (i, mq_departmentId q, False)))))) x
    = (Inr out, x')"
    using run q unfolding pipe_tx_def db_txn_run by (auto simp: run_bnd run_reads dest!: sq_require)
  show ?thesis
  proof (cases "delivery_by_key ?key x")
    case (Some v)
    with body show ?thesis by (auto simp: run_sq run_throw run_ret quiet.frame_refl split: if_splits)
  next
    case None
    with body obtain s y where "sq (markRawStageCommitted (snd (pp_raw p))) (ret y) (plus_row (pipe_delivery en p q s) x) = (Inr out, x')"
      by (auto simp: run_bnd run_sq [of "lockRawStageForAcceptance z" for z] insert_run plus_row_def dest!: reads_only_snapshot reads_only_lock)
    from quiet.staysD [OF quiet.stays_sq [OF quiet_marks(1) quiet.stays_ret] this] show ?thesis by blast
  qed
qed

section \<open>The operations\<close>

text \<open>
  Transactions around the ledger that neither claim, settle, replay nor promote a delivery, whatever
  their clock, settings and arguments: reservations and retention of raw messages, the cursors and
  halts of polls, the administration of queues, and what a run of the pipeline writes on the way.
\<close>

inductive side_step :: "inbox \<Rightarrow> inbox \<Rightarrow> bool" where
  reserve: "reserveRawMimeStage en q k c x = (r, x') \<Longrightarrow> side_step x x'"
| publish: "publishRawMimeStage en k (publish_file k) x = (r, x') \<Longrightarrow> side_step x x'"
| discard: "claim_discard k x = (b, x') \<Longrightarrow> side_step x x'"
| finalize_raw: "finalize_stage k x = (r, x') \<Longrightarrow> side_step x x'"
| reap: "claimExpiredRawMimeStages en ks x = (r, x') \<Longrightarrow> side_step x x'"
| judge: "judge_stage b k x = (d, x') \<Longrightarrow> side_step x x'"
| remove_file: "removeFile en k x = (r, x') \<Longrightarrow> side_step x x'"
| prune: "mark_pruned en is x = (n, x') \<Longrightarrow> side_step x x'"
| forget: "forget_key en i k x = (n, x') \<Longrightarrow> side_step x x'"
| collision: "recordInboundCollision q z s x = (r, x') \<Longrightarrow> side_step x x'"
| halt: "haltImapSnapshot en q c m x = (r, x') \<Longrightarrow> side_step x x'"
| advance: "advance_cursor en q m cur x = (n, x') \<Longrightarrow> side_step x x'"
| bootstrap: "bootstrap_cas en q m v b x = (n, x') \<Longrightarrow> side_step x x'"
| arm: "arm_tx en q m x = (b, x') \<Longrightarrow> side_step x x'"
| stamp: "stampQueue i f x = (r, x') \<Longrightarrow> side_step x x'"
| create: "create_queue en encrypt sc d pt x = (q', x') \<Longrightarrow> side_step x x'"
| edit: "update_write sc q pt m w x = (q', x') \<Longrightarrow> side_step x x'"
| delete: "delete_queue sc i g x = (r, x') \<Longrightarrow> side_step x x'"
| begin_reconcile: "beginMailboxReconcile en sc q rq x = (q', x') \<Longrightarrow> side_step x x'"
| complete_reconcile: "completeMailboxReconcile sc q c rq bl x = (q', x') \<Longrightarrow> side_step x x'"
| fail_reconcile: "failMailboxReconcile sc q c rq m x = (r, x') \<Longrightarrow> side_step x x'"
| resume: "resumeLegacyReconcile sc lc q rq x = (q', x') \<Longrightarrow> side_step x x'"
| own_row: "persistEffectiveOwner en i l ow pt x = (r, x') \<Longrightarrow> side_step x x'"
| headerless: "recordHeaderlessDelivery en i l idn x = (route, x') \<Longrightarrow> side_step x x'"
| claim_message: "claimRealMessage en v l m idn x = (cr, x') \<Longrightarrow> side_step x x'"
| finalize_message: "finalize_claim en i hash sem t p x = (r, x') \<Longrightarrow> side_step x x'"
| fallback: "writeRouteFallbackAudit i route x = (r, x') \<Longrightarrow> side_step x x'"
| beat: "heartbeat en i l x = (n, x') \<Longrightarrow> side_step x x'"

lemma quiet_collision: "quiet.stays (recordInboundCollision q z s)"
  unfolding recordInboundCollision_def by (rule quiet_audit)

lemmas quiet_operations = quiet_reservations quiet_publish quiet_retention quiet_collision quiet_poll quiet_stamp
  quiet_create_queue quiet_update_queue quiet_delete_queue quiet_reconcile quiet_resume quiet_owner quiet_headerless
  quiet_claim_message quiet_finalize_claim quiet_mail_audit quiet_heartbeat

lemma side_step_quiet: "side_step x x' \<Longrightarrow> quiet_box x x'"
  by (induction rule: side_step.induct) (blast intro: quiet.staysD quiet_operations)+

section \<open>Writes to the life of a row\<close>

text \<open>\<open>x'\<close> is \<open>x\<close> with the rows that \<open>p\<close> selects rewritten, and at most more audit entries.\<close>

definition touches :: "(delivery \<Rightarrow> bool) \<Rightarrow> (delivery \<Rightarrow> delivery) \<Rightarrow> inbox \<Rightarrow> inbox \<Rightarrow> bool" where
  "touches p f x x' \<longleftrightarrow> (\<exists>t. ib_deliveries x' = update_rows p (\<lambda>v. (f v)\<lparr>dv_updatedAt := t\<rparr>) (ib_deliveries x)) \<and>
     ib_seq_delivery x' = ib_seq_delivery x \<and> set (ib_audit x) \<subseteq> set (ib_audit x')"

lemma update_touches: "update_deliveries en p f x = (r, x') \<Longrightarrow> touches p f x x'"
  by (auto simp: update_deliveries_def act_defs touches_def)

lemma settle_touches: "settle_delivery en i l f x = (r, x') \<Longrightarrow> touches (leased i l) f x x'"
  by (auto simp: settle_delivery_def update_deliveries_def act_defs touches_def)

lemma claim_touches:
  assumes "claim_delivery en i l x = (Inr n, x')"
  shows "x' = x \<and> n = 0 \<or> touches (delivery_claimable en x i) (claim_row en l) x x'"
  using assms unfolding claim_delivery_def db_txn_run
  by (auto simp: run_bnd run_reads run_ret lockDeliveryQueueForNormalProcessing_def Let_def dest!: update_touches split: option.splits if_splits)

lemma state_lock_reads: "lockDeliveryQueueCaptureState z e x = (Inr b, x') \<Longrightarrow> x' = x"
  by (auto simp: lockDeliveryQueueCaptureState_def run_bnd run_reads run_ret split: option.splits)

lemma audit_touches: "touches p f x y \<Longrightarrow> create_audit e y = (Inr u, x') \<Longrightarrow> touches p f x x' \<and> e \<in> set (ib_audit x')"
  by (auto simp: touches_def create_audit_def run_modify)

lemma scoped_id: "find_row (\<lambda>v. deliveryByIdWhereForScope i sc d (delivery_owner_of v)) rows = Some v \<Longrightarrow> v \<in> set rows \<and> dv_id v = i"
  by (auto dest!: find_row_SomeD simp: deliveryByIdWhereForScope_def delivery_owner_of_def)

lemma replay_touches:
  assumes "replayQuarantined en sc d i t reason st x = (Inr u, x')"
  shows "\<exists>p v. v \<in> set (ib_deliveries x) \<and> dv_id v = i \<and> \<not> dv_truncated v \<and>
    (\<forall>w. p w \<longrightarrow> dv_id w = i \<and> dv_state w = DQuarantined) \<and> touches p replayed x x'"
proof -
  let ?row = "find_row (\<lambda>v. deliveryByIdWhereForScope i sc d (delivery_owner_of v)) (ib_deliveries x)"
  obtain v where v: "?row = Some v"
    using assms unfolding replayQuarantined_def run_sq db_txn_run run_bnd run_reads
    by (cases ?row) (auto simp: run_throw run_require)
  define p where "p y w \<longleftrightarrow> dv_id w = i \<and> dv_state w = DQuarantined \<and> dv_updatedAt w = t \<and> \<not> queue_retired y w \<and>
    (ds_unrestricted sc \<or> deliveryWhereForScope sc d (delivery_owner_of w))" for y w
  obtain n y e where run: "update_deliveries en (p x) replayed x = (Inr n, y)" "create_audit e y = (Inr u, x')" and tr: "\<not> dv_truncated v"
    using assms v unfolding replayQuarantined_def p_def
    by (auto simp: run_bnd run_reads db_txn_run dest!: sq_require state_lock_reads)
  have "touches (p x) replayed x x'" using audit_touches [OF update_touches [OF run(1)] run(2)] ..
  then show ?thesis using scoped_id [OF v] tr p_def by blast
qed

lemma promote_touches:
  assumes "promoteCaptured en sc d i t reason st x = (Inr u, x')"
  shows "\<exists>p v. v \<in> set (ib_deliveries x) \<and> dv_id v = i \<and> \<not> dv_truncated v \<and>
    (\<forall>w. p w \<longrightarrow> dv_id w = i \<and> dv_state w = DCaptured) \<and> touches p (promoted en) x x' \<and>
    (\<exists>e \<in> set (ib_audit x'). ia_action e = ''mail.capture_promoted'' \<and> ia_deliveryId e = Some i)"
proof -
  let ?row = "find_row (\<lambda>v. deliveryByIdWhereForScope i sc d (delivery_owner_of v)) (ib_deliveries x)"
  have pre: "assertCapturePromotionEnabled en x = (Inr c, y) \<Longrightarrow> y = x" for c y
    by (auto simp: assertCapturePromotionEnabled_def normalCanaryPromotionScope_def run_sq run_bnd run_require run_ret run_throw
        split: option.splits)
  obtain v where v: "?row = Some v"
    using assms unfolding promoteCaptured_def
    by (cases ?row) (auto simp: run_bnd run_reads run_throw db_txn_run case_prod_beta dest!: sq_require pre)
  define p where "p q y w \<longleftrightarrow> dv_id w = i \<and> dv_queueId w = Some q \<and> dv_state w = DCaptured \<and> dv_updatedAt w = t \<and> queue_retired y w \<and>
    (ds_unrestricted sc \<or> deliveryWhereForScope sc d (delivery_owner_of w))" for q y w
  obtain q n y where run: "update_deliveries en (p q x) (promoted en) x = (Inr n, y)"
      "create_audit \<lparr>ia_action = ''mail.capture_promoted'', ia_queueId = None, ia_deliveryId = Some i,
         ia_actorStaffId = Some st, ia_reason = Some reason\<rparr> y = (Inr u, x')" and tr: "\<not> dv_truncated v"
    using assms v unfolding promoteCaptured_def p_def
    by (auto simp: run_bnd run_reads db_txn_run dest!: sq_require state_lock_reads pre)
  note au = audit_touches [OF update_touches [OF run(1)] run(2)]
  have "(\<forall>w. p q x w \<longrightarrow> dv_id w = i \<and> dv_state w = DCaptured) \<and> touches (p q x) (promoted en) x x' \<and>
    (\<exists>e \<in> set (ib_audit x'). ia_action e = ''mail.capture_promoted'' \<and> ia_deliveryId e = Some i)"
    using au by (auto simp: p_def intro!: bexI [OF _ conjunct2 [OF au]])
  then show ?thesis using scoped_id [OF v] tr by blast
qed

end
