(* ===== verification/LedgerRun.thy ===== *)
theory LedgerRun
  imports InboundRun
begin

text \<open>
  The ledger under several processes. Workers claim deliveries under fresh lease tokens, read them, run
  the pipeline and settle; they may stop anywhere, and go on after another worker took the lease.
  Operators replay and promote, mail is accepted, and all the transactions of
  \<^const>\<open>side_step\<close> happen in between. Every process has the same attempt limit.
\<close>

section \<open>The run\<close>

text \<open>
  A worker that claimed holds the token (\<open>lr_held\<close>) until it has read the row (\<open>lr_loaded\<close>).
  \<open>lr_runs\<close> counts the runs of the pipeline under a valid lease since the row was replayed or promoted.
\<close>

record ledger_run =
  lr_box :: inbox
  lr_held :: "(nat \<times> string) set"
  lr_loaded :: "(nat \<times> string \<times> delivery) set"
  lr_used :: "string set"
  lr_runs :: "nat \<Rightarrow> nat"

text \<open>The writes that may end the processing of the row \<open>v\<close> that was read after the claim.\<close>

inductive settlement :: "inbound_env \<Rightarrow> delivery \<Rightarrow> (delivery \<Rightarrow> delivery) \<Rightarrow> bool" where
  refused: "preflight en v = Some f \<Longrightarrow> settlement en v f"
| unreadable: "preflight en v = None \<Longrightarrow> settlement en v (unavailable_row en (dv_attempts v))"
| no_bytes: "preflight en v = None \<Longrightarrow> settlement en v (quarantine_row ''missing rawMime'')"
| settled: "preflight en v = None \<Longrightarrow> settlement en v (settled_row en oc)"
| failed: "preflight en v = None \<Longrightarrow> settlement en v (failure_row en (dv_attempts v) e)"

inductive ledger_step :: "nat \<Rightarrow> ledger_run \<Rightarrow> ledger_run \<Rightarrow> bool" for M where
  accept_imap: "accept_tx en a (lr_box w) = (r, x') \<Longrightarrow> ledger_step M w (w\<lparr>lr_box := x'\<rparr>)"
| accept_pipe: "pipe_tx en p (lr_box w) = (r', x') \<Longrightarrow> ledger_step M w (w\<lparr>lr_box := x'\<rparr>)"
| claim: "l \<notin> lr_used w \<Longrightarrow> claim_delivery en i l (lr_box w) = (Inr n, x') \<Longrightarrow> n \<noteq> 0 \<Longrightarrow>
    ledger_step M w (w\<lparr>lr_box := x', lr_held := insert (i, l) (lr_held w), lr_used := insert l (lr_used w)\<rparr>)"
| load: "(i, l) \<in> lr_held w \<Longrightarrow> delivery_by_id i (lr_box w) = Some v \<Longrightarrow> ie_maxAttempts en = M \<Longrightarrow>
    ledger_step M w (w\<lparr>lr_held := lr_held w - {(i, l)}, lr_loaded := insert (i, l, v) (lr_loaded w),
      lr_runs := (if preflight en v = None \<and> leased i l v then (lr_runs w)(i := Suc (lr_runs w i)) else lr_runs w)\<rparr>)"
| settle: "(i, l, v) \<in> lr_loaded w \<Longrightarrow> ie_maxAttempts en = M \<Longrightarrow> settlement en v f \<Longrightarrow>
    settle_delivery en i l f (lr_box w) = (r'', x') \<Longrightarrow>
    ledger_step M w (w\<lparr>lr_box := x', lr_loaded := lr_loaded w - {(i, l, v)}\<rparr>)"
| crash: "H \<subseteq> lr_held w \<Longrightarrow> L \<subseteq> lr_loaded w \<Longrightarrow> ledger_step M w (w\<lparr>lr_held := H, lr_loaded := L\<rparr>)"
| replay: "replayQuarantined en sc d i t reason st (lr_box w) = (Inr u, x') \<Longrightarrow>
    ledger_step M w (w\<lparr>lr_box := x', lr_runs := (lr_runs w)(i := 0)\<rparr>)"
| promote: "promoteCaptured en sc d i t reason st (lr_box w) = (Inr u, x') \<Longrightarrow>
    ledger_step M w (w\<lparr>lr_box := x', lr_runs := (lr_runs w)(i := 0)\<rparr>)"
| aside: "side_step (lr_box w) x' \<Longrightarrow> ledger_step M w (w\<lparr>lr_box := x'\<rparr>)"

definition rows :: "ledger_run \<Rightarrow> delivery list" where
  "rows w = ib_deliveries (lr_box w)"

inductive ledger_reached :: "nat \<Rightarrow> ledger_run \<Rightarrow> bool" for M where
  start: "rows w = [] \<Longrightarrow> lr_held w = {} \<Longrightarrow> lr_loaded w = {} \<Longrightarrow> lr_used w = {} \<Longrightarrow> lr_runs w = (\<lambda>_. 0) \<Longrightarrow>
    ledger_reached M w"
| step: "ledger_reached M w \<Longrightarrow> ledger_step M w w' \<Longrightarrow> ledger_reached M w'"

section \<open>What a row looks like\<close>

definition row_consistent :: "delivery \<Rightarrow> bool" where
  "row_consistent v \<longleftrightarrow>
     (dv_state v = DProcessing \<longleftrightarrow> dv_leaseOwner v \<noteq> None) \<and>
     (dv_leaseOwner v = None \<longleftrightarrow> dv_leaseExpiresAt v = None) \<and>
     (dv_state v \<in> {DProcessed, DSkipped} \<longleftrightarrow> dv_processedAt v \<noteq> None) \<and>
     (dv_state v = DRetry \<longrightarrow> dv_nextAttemptAt v \<noteq> None) \<and>
     (dv_ownerKind v = TICKET \<longrightarrow> dv_ownerTicketId v \<noteq> None) \<and>
     (dv_truncated v \<longrightarrow> dv_state v = DQuarantined)"

lemma quiet_consistent: "quiet_row v w \<Longrightarrow> row_consistent v \<Longrightarrow> row_consistent w"
  unfolding quiet_row_def row_consistent_def by (cases "dv_leaseOwner v"; cases "dv_leaseExpiresAt v"; cases "dv_state v"; simp)

lemma new_consistent: "row_consistent (imap_delivery en a q s i)" "row_consistent (pipe_delivery en p q s i)"
  by (simp_all add: row_consistent_def imap_delivery_def pipe_delivery_def Let_def)

lemma stamp_consistent [simp]: "row_consistent (v\<lparr>dv_updatedAt := t\<rparr>) = row_consistent v"
  by (simp add: row_consistent_def)

lemma claim_consistent: "row_consistent v \<Longrightarrow> delivery_claimable en x i v \<Longrightarrow> row_consistent (claim_row en l v)"
  by (auto simp: row_consistent_def claim_row_def delivery_claimable_def)

text \<open>A settled row is one of these.\<close>

definition let_go :: "delivery \<Rightarrow> delivery \<Rightarrow> bool" where
  "let_go v w \<longleftrightarrow> dv_id w = dv_id v \<and> dv_attempts w = dv_attempts v \<and> dv_truncated w = dv_truncated v \<and>
     dv_leaseOwner w = None \<and> dv_leaseExpiresAt w = None \<and> dv_state w \<noteq> DProcessing \<and> dv_state w \<noteq> DCaptured \<and>
     (dv_state w \<in> {DProcessed, DSkipped} \<longleftrightarrow> dv_processedAt w \<noteq> None) \<and> (dv_state w = DRetry \<longrightarrow> dv_nextAttemptAt w \<noteq> None) \<and>
     (dv_ownerKind w = TICKET \<longrightarrow> dv_ownerTicketId w \<noteq> None)"

lemma let_go_consistent: "let_go v w \<Longrightarrow> \<not> dv_truncated v \<or> dv_state w = DQuarantined \<Longrightarrow> row_consistent w"
  by (auto simp: let_go_def row_consistent_def)

lemma quarantine_let_go:
  "dv_processedAt v = None \<Longrightarrow> dv_ownerKind v = TICKET \<longrightarrow> dv_ownerTicketId v \<noteq> None \<Longrightarrow> let_go v (quarantine_row m v)"
  by (simp add: let_go_def quarantine_row_def lease_released_def)

lemma retry_let_go:
  "dv_processedAt v = None \<Longrightarrow> dv_ownerKind v = TICKET \<longrightarrow> dv_ownerTicketId v \<noteq> None \<Longrightarrow> let_go v (retry_row en k m v)"
  by (simp add: let_go_def retry_row_def lease_released_def)

lemma settled_let_go:
  "dv_ownerKind v = TICKET \<longrightarrow> dv_ownerTicketId v \<noteq> None \<Longrightarrow> let_go v (settled_row en oc v)"
  by (cases "oc_state oc"; cases "oc_ticketId oc"; simp add: let_go_def settled_row_def lease_released_def Let_def)

lemma close_owner_simps [simp]:
  "dv_id (close_owner e v) = dv_id v" "dv_attempts (close_owner e v) = dv_attempts v" "dv_truncated (close_owner e v) = dv_truncated v"
  "dv_processedAt (close_owner e v) = dv_processedAt v"
  by (simp_all add: close_owner_def split: error.split)

lemma close_owner_ticket:
  "dv_ownerKind v = TICKET \<longrightarrow> dv_ownerTicketId v \<noteq> None \<Longrightarrow>
   dv_ownerKind (close_owner e v) = TICKET \<longrightarrow> dv_ownerTicketId (close_owner e v) \<noteq> None"
  by (simp add: close_owner_def split: error.split)

lemma failure_let_go:
  assumes "dv_processedAt v = None" "dv_ownerKind v = TICKET \<longrightarrow> dv_ownerTicketId v \<noteq> None"
  shows "let_go v (failure_row en (dv_attempts v) e v)"
proof -
  let ?u = "close_owner e (v\<lparr>dv_attempts := dv_attempts v\<rparr>)"
  have u: "dv_processedAt ?u = None" "dv_ownerKind ?u = TICKET \<longrightarrow> dv_ownerTicketId ?u \<noteq> None"
    using assms close_owner_ticket [of "v\<lparr>dv_attempts := dv_attempts v\<rparr>" e] by simp_all
  have "let_go v y = let_go ?u y" for y by (simp add: let_go_def)
  then show ?thesis unfolding failure_row_def using quarantine_let_go [OF u] retry_let_go [OF u] by simp
qed

lemma settlement_row:
  assumes "settlement en v0 f" "row_consistent v" "leased i l v" "dv_attempts v0 = dv_attempts v"
  shows "let_go v (f v)" "row_consistent (f v)"
proof -
  have v: "dv_processedAt v = None" "dv_ownerKind v = TICKET \<longrightarrow> dv_ownerTicketId v \<noteq> None" "\<not> dv_truncated v"
    using assms(2,3) by (auto simp: row_consistent_def leased_def)
  show l: "let_go v (f v)"
    using assms(1)
  proof cases
    case refused
    then show ?thesis using quarantine_let_go [OF v(1,2)] by (auto simp: preflight_def split: if_splits)
  next
    case unreadable
    then show ?thesis using quarantine_let_go [OF v(1,2)] retry_let_go [OF v(1,2)] by (simp add: unavailable_row_def)
  next
    case no_bytes
    then show ?thesis using quarantine_let_go [OF v(1,2)] by simp
  next
    case (settled oc)
    then show ?thesis using settled_let_go [OF v(2)] by simp
  next
    case (failed e)
    then show ?thesis using failure_let_go [OF v(1,2)] assms(4) by simp
  qed
  show "row_consistent (f v)" using let_go_consistent [OF l] v(3) by simp
qed

lemma replayed_row: "row_consistent v \<Longrightarrow> dv_state v = DQuarantined \<Longrightarrow> \<not> dv_truncated v \<Longrightarrow> row_consistent (replayed v)"
  by (simp add: row_consistent_def replayed_def)

lemma promoted_row: "row_consistent v \<Longrightarrow> dv_state v = DCaptured \<Longrightarrow> \<not> dv_truncated v \<Longrightarrow> row_consistent (promoted en v)"
  by (simp add: row_consistent_def promoted_def)

section \<open>The invariant of the run\<close>

definition row_fine :: "nat \<Rightarrow> ledger_run \<Rightarrow> delivery \<Rightarrow> bool" where
  "row_fine M w v \<longleftrightarrow> row_consistent v \<and> lr_runs w (dv_id v) \<le> M \<and> lr_runs w (dv_id v) \<le> dv_attempts v \<and>
     (\<forall>l. dv_leaseOwner v = Some l \<longrightarrow> l \<in> lr_used w \<and>
        ((dv_id v, l) \<in> lr_held w \<longrightarrow> lr_runs w (dv_id v) < dv_attempts v) \<and>
        (\<forall>v0. (dv_id v, l, v0) \<in> lr_loaded w \<longrightarrow> dv_attempts v0 = dv_attempts v))"

definition run_fine :: "nat \<Rightarrow> ledger_run \<Rightarrow> bool" where
  "run_fine M w \<longleftrightarrow>
     distinct (map dv_id (rows w)) \<and> (\<forall>v \<in> set (rows w). dv_id v < ib_seq_delivery (lr_box w) \<and> row_fine M w v) \<and>
     (\<forall>i. ib_seq_delivery (lr_box w) \<le> i \<longrightarrow> lr_runs w i = 0) \<and> (\<forall>i. lr_runs w i \<le> M) \<and>
     (\<forall>(i, l) \<in> lr_held w. l \<in> lr_used w) \<and> (\<forall>(i, l, v) \<in> lr_loaded w. l \<in> lr_used w)"

lemma quiet_fine: "quiet_row v v' \<Longrightarrow> row_fine M w v \<Longrightarrow> row_fine M w v'"
proof -
  assume q: "quiet_row v v'" and f: "row_fine M w v"
  have "dv_id v' = dv_id v" "dv_attempts v' = dv_attempts v" "dv_leaseOwner v' = dv_leaseOwner v" using q by (simp_all add: quiet_row_def)
  then show ?thesis using f quiet_consistent [OF q] by (simp add: row_fine_def)
qed

lemma row_fine_box: "row_fine M (w\<lparr>lr_box := x\<rparr>) v = row_fine M w v"
  by (simp add: row_fine_def)

lemma quiet_ids: "list_all2 quiet_row vs vs' \<Longrightarrow> map dv_id vs' = map dv_id vs"
  by (induction rule: list_all2_induct) (auto simp: quiet_row_def)

lemma quiet_run:
  assumes "run_fine M w" "quiet_box (lr_box w) x'"
  shows "run_fine M (w\<lparr>lr_box := x'\<rparr>)"
proof -
  have l: "list_all2 quiet_row (rows w) (ib_deliveries x')" using assms(2) by (simp add: quiet_box_def rows_def)
  have "dv_id v' < ib_seq_delivery x' \<and> row_fine M w v'" if "v' \<in> set (ib_deliveries x')" for v'
  proof -
    obtain v where v: "v \<in> set (rows w)" "quiet_row v v'"
      using l \<open>v' \<in> _\<close> by (metis in_set_conv_nth list_all2_conv_all_nth)
    have "dv_id v' = dv_id v" using v(2) by (simp add: quiet_row_def)
    moreover have "dv_id v < ib_seq_delivery (lr_box w)" "row_fine M w v" using v(1) assms(1) by (simp_all add: run_fine_def)
    moreover have "ib_seq_delivery x' = ib_seq_delivery (lr_box w)" using assms(2) by (simp add: quiet_box_def)
    ultimately show ?thesis using quiet_fine [OF v(2)] by simp
  qed
  then show ?thesis
    using assms quiet_ids [OF l] by (auto simp: run_fine_def rows_def row_fine_box quiet_box_def)
qed

lemma plus_run:
  assumes "run_fine M w" "\<And>i. row_consistent (f i)" "\<And>i. dv_id (f i) = i" "\<And>i. dv_leaseOwner (f i) = None"
  shows "run_fine M (w\<lparr>lr_box := plus_row f (lr_box w)\<rparr>)"
  using assms by (auto simp: run_fine_def rows_def plus_row_def row_fine_def less_Suc_eq)

lemma imap_row_facts: "dv_id (imap_delivery en a q s i) = i" "dv_leaseOwner (imap_delivery en a q s i) = None"
  "dv_id (pipe_delivery en p q s i) = i" "dv_leaseOwner (pipe_delivery en p q s i) = None"
  by (simp_all add: imap_delivery_def pipe_delivery_def Let_def)

lemma appended_run:
  assumes "run_fine M w" "quiet_box (plus_row f (lr_box w)) x'"
    and "\<And>i. row_consistent (f i)" "\<And>i. dv_id (f i) = i" "\<And>i. dv_leaseOwner (f i) = None"
  shows "run_fine M (w\<lparr>lr_box := x'\<rparr>)"
  using quiet_run [OF plus_run [OF assms(1,3-5)], of x'] assms(2) by simp

text \<open>A write to some rows.\<close>

lemma touch_run:
  assumes "run_fine M w" "touches p f (lr_box w) (lr_box w')" "\<And>v. p v \<Longrightarrow> dv_id (f v) = dv_id v"
    and "\<And>v t. v \<in> set (rows w) \<Longrightarrow> row_fine M w v \<Longrightarrow> p v \<Longrightarrow> row_fine M w' ((f v)\<lparr>dv_updatedAt := t\<rparr>)"
    and "\<And>v. v \<in> set (rows w) \<Longrightarrow> row_fine M w v \<Longrightarrow> \<not> p v \<Longrightarrow> row_fine M w' v"
    and "\<And>i. lr_runs w' i \<le> lr_runs w i"
    and "\<forall>(i, l) \<in> lr_held w'. l \<in> lr_used w'" "\<forall>(i, l, v) \<in> lr_loaded w'. l \<in> lr_used w'"
  shows "run_fine M w'"
proof -
  obtain t where t: "rows w' = update_rows p (\<lambda>v. (f v)\<lparr>dv_updatedAt := t\<rparr>) (rows w)"
    and s: "ib_seq_delivery (lr_box w') = ib_seq_delivery (lr_box w)"
    using assms(2) by (auto simp: touches_def rows_def)
  have "map dv_id (rows w') = map dv_id (rows w)" unfolding t update_rows_def using assms(3) by simp
  moreover have "dv_id v < ib_seq_delivery (lr_box w') \<and> row_fine M w' v" if "v \<in> set (rows w')" for v
    using that assms(1,3-5) by (auto simp: t s set_update_rows run_fine_def)
  moreover have "\<forall>i. ib_seq_delivery (lr_box w) \<le> i \<longrightarrow> lr_runs w' i = 0" "\<forall>i. lr_runs w' i \<le> M"
    using assms(1,6) unfolding run_fine_def by (metis le_zero_eq, meson le_trans)
  ultimately show ?thesis using assms(1,7,8) by (simp add: run_fine_def s)
qed

section \<open>Every step keeps it\<close>

lemma claim_run:
  assumes "run_fine M w" "l \<notin> lr_used w" "claim_delivery en i l (lr_box w) = (Inr n, x')" "n \<noteq> 0"
  shows "run_fine M (w\<lparr>lr_box := x', lr_held := insert (i, l) (lr_held w), lr_used := insert l (lr_used w)\<rparr>)" (is "run_fine M ?w")
proof -
  have t: "touches (delivery_claimable en (lr_box w) i) (claim_row en l) (lr_box w) (lr_box ?w)"
    using claim_touches [OF assms(3)] assms(4) by simp
  have none: "(i', l, v) \<notin> lr_loaded w" "(i', l) \<notin> lr_held w" for i' v
    using assms(1,2) by (auto simp: run_fine_def)
  show ?thesis
  proof (rule touch_run [OF assms(1) t])
    fix v t assume "row_fine M w v" "delivery_claimable en (lr_box w) i v"
    then show "row_fine M ?w ((claim_row en l v)\<lparr>dv_updatedAt := t\<rparr>)"
      using claim_consistent none by (auto simp: row_fine_def claim_row_def)
  next
    fix v assume "row_fine M w v"
    then show "row_fine M ?w v" using assms(2) by (auto simp: row_fine_def)
  qed (use assms(1) in \<open>auto simp: claim_row_def run_fine_def\<close>)
qed

lemma load_run:
  assumes "run_fine M w" "(i, l) \<in> lr_held w" "delivery_by_id i (lr_box w) = Some v" "ie_maxAttempts en = M"
  shows "run_fine M (w\<lparr>lr_held := lr_held w - {(i, l)}, lr_loaded := insert (i, l, v) (lr_loaded w),
      lr_runs := (if preflight en v = None \<and> leased i l v then (lr_runs w)(i := Suc (lr_runs w i)) else lr_runs w)\<rparr>)" (is "run_fine M ?w")
proof -
  have v: "v \<in> set (rows w)" "dv_id v = i" using assms(3) by (auto simp: delivery_by_id_def rows_def dest: find_row_SomeD)
  have same: "v' = v" if "v' \<in> set (rows w)" "dv_id v' = i" for v'
    using that v assms(1) by (auto simp: run_fine_def distinct_map dest: inj_onD)
  have fv: "row_fine M w v" and lt: "i < ib_seq_delivery (lr_box w)" using v assms(1) by (auto simp: run_fine_def)
  have more: "Suc (lr_runs w i) \<le> dv_attempts v" "dv_attempts v \<le> M" if "preflight en v = None" "leased i l v"
    using that fv v assms(2,4) by (auto simp: row_fine_def leased_def preflight_def split: if_splits)
  have fine: "row_fine M ?w v'" if v': "v' \<in> set (rows w)" for v'
  proof (cases "dv_id v' = i")
    case True
    then have "v' = v" using same v' by blast
    then show ?thesis using fv v(2) more by (auto simp: row_fine_def leased_def)
  next
    case False
    have "row_fine M w v'" using v' assms(1) by (simp add: run_fine_def)
    then show ?thesis using False by (auto simp: row_fine_def)
  qed
  have "l \<in> lr_used w" using assms(1,2) by (auto simp: run_fine_def)
  then show ?thesis using assms(1) fine lt more by (auto simp: run_fine_def rows_def)
qed

lemma settle_run:
  assumes "run_fine M w" "(i, l, v) \<in> lr_loaded w" "settlement en v f" "settle_delivery en i l f (lr_box w) = (r, x')"
  shows "run_fine M (w\<lparr>lr_box := x', lr_loaded := lr_loaded w - {(i, l, v)}\<rparr>)" (is "run_fine M ?w")
proof -
  have t: "touches (leased i l) f (lr_box w) (lr_box ?w)" using settle_touches [OF assms(4)] by simp
  have let_go: "let_go u (f u)" "row_consistent (f u)" if "row_fine M w u" "leased i l u" for u
    using settlement_row [OF assms(3) _ that(2)] that assms(2) by (auto simp: row_fine_def leased_def)
  show ?thesis
  proof (rule touch_run [OF assms(1) t])
    fix u t assume "row_fine M w u" "leased i l u"
    then show "row_fine M ?w ((f u)\<lparr>dv_updatedAt := t\<rparr>)" using let_go by (auto simp: row_fine_def let_go_def)
  next
    fix u assume "row_fine M w u"
    then show "row_fine M ?w u" by (auto simp: row_fine_def)
  next
    show "dv_id (f u) = dv_id u" if "leased i l u" for u
      using assms(3)
      by cases (auto simp: preflight_def unavailable_row_def quarantine_row_def retry_row_def lease_released_def settled_row_def
          failure_row_def Let_def split: if_splits option.splits)
  qed (use assms(1) in \<open>auto simp: run_fine_def\<close>)
qed

lemma reset_run:
  assumes "run_fine M w" "touches p f (lr_box w) x'" "\<And>u. p u \<Longrightarrow> dv_id u = i \<and> dv_state u \<noteq> DProcessing"
    and "\<And>u. p u \<Longrightarrow> u \<in> set (rows w) \<Longrightarrow> row_consistent u \<Longrightarrow> row_consistent (f u)"
    and "\<And>u. dv_id (f u) = dv_id u" "\<And>u. dv_leaseOwner (f u) = None"
  shows "run_fine M (w\<lparr>lr_box := x', lr_runs := (lr_runs w)(i := 0)\<rparr>)" (is "run_fine M ?w")
proof (rule touch_run [OF assms(1)])
  show "touches p f (lr_box w) (lr_box ?w)" using assms(2) by simp
  show "row_fine M ?w ((f u)\<lparr>dv_updatedAt := t\<rparr>)" if "u \<in> set (rows w)" "row_fine M w u" "p u" for u t
    using that assms(3-6) by (auto simp: row_fine_def)
  show "row_fine M ?w u" if "row_fine M w u" for u
    using that by (auto simp: row_fine_def)
qed (use assms(1,5) in \<open>auto simp: run_fine_def\<close>)

lemma only_row: "run_fine M w \<Longrightarrow> u \<in> set (rows w) \<Longrightarrow> v \<in> set (rows w) \<Longrightarrow> dv_id u = dv_id v \<Longrightarrow> u = v"
  by (auto simp: run_fine_def distinct_map dest: inj_onD)

lemma replay_run:
  assumes "run_fine M w" "replayQuarantined en sc d i t reason st (lr_box w) = (Inr u, x')"
  shows "run_fine M (w\<lparr>lr_box := x', lr_runs := (lr_runs w)(i := 0)\<rparr>)"
proof -
  obtain p v where p: "v \<in> set (rows w)" "dv_id v = i" "\<not> dv_truncated v" "\<And>u. p u \<Longrightarrow> dv_id u = i \<and> dv_state u = DQuarantined"
      "touches p replayed (lr_box w) x'"
    using replay_touches [OF assms(2)] unfolding rows_def by blast
  show ?thesis
  proof (rule reset_run [OF assms(1) p(5)])
    show "row_consistent (replayed u)" if "p u" "u \<in> set (rows w)" "row_consistent u" for u
      using that p(1-4) only_row [OF assms(1), of u v] replayed_row by auto
  qed (use p(4) in \<open>auto simp: replayed_def\<close>)
qed

lemma promote_run:
  assumes "run_fine M w" "promoteCaptured en sc d i t reason st (lr_box w) = (Inr u, x')"
  shows "run_fine M (w\<lparr>lr_box := x', lr_runs := (lr_runs w)(i := 0)\<rparr>)"
proof -
  obtain p v where p: "v \<in> set (rows w)" "dv_id v = i" "\<not> dv_truncated v" "\<And>u. p u \<Longrightarrow> dv_id u = i \<and> dv_state u = DCaptured"
      "touches p (promoted en) (lr_box w) x'"
    using promote_touches [OF assms(2)] unfolding rows_def by blast
  show ?thesis
  proof (rule reset_run [OF assms(1) p(5)])
    show "row_consistent (promoted en u)" if "p u" "u \<in> set (rows w)" "row_consistent u" for u
      using that p(1-4) only_row [OF assms(1), of u v] promoted_row by auto
  qed (use p(4) in \<open>auto simp: promoted_def\<close>)
qed

lemma crash_run: "run_fine M w \<Longrightarrow> H \<subseteq> lr_held w \<Longrightarrow> L \<subseteq> lr_loaded w \<Longrightarrow> run_fine M (w\<lparr>lr_held := H, lr_loaded := L\<rparr>)"
  by (auto simp: run_fine_def row_fine_def rows_def)

lemma ledger_step_fine:
  assumes "ledger_step M w w'" "run_fine M w"
  shows "run_fine M w'"
  using assms
proof (induction rule: ledger_step.induct)
  case (accept_imap en a w r x')
  from accept_tx_rows [OF accept_imap(1)] show ?case
    using quiet_run [OF accept_imap(2)] appended_run [OF accept_imap(2) _ new_consistent(1) imap_row_facts(1,2)] by (elim disjE exE)
next
  case (accept_pipe p en w r' x')
  from pipe_tx_rows [OF accept_pipe(1)] show ?case
    using quiet_run [OF accept_pipe(2)] appended_run [OF accept_pipe(2) _ new_consistent(2) imap_row_facts(3,4)] by (elim disjE exE)
next
  case claim
  then show ?case using claim_run by blast
next
  case load
  then show ?case using load_run by blast
next
  case settle
  then show ?case using settle_run by blast
next
  case crash
  then show ?case using crash_run by blast
next
  case replay
  then show ?case using replay_run by blast
next
  case promote
  then show ?case using promote_run by blast
next
  case aside
  then show ?case using quiet_run side_step_quiet by blast
qed

lemma ledger_reached_fine: "ledger_reached M w \<Longrightarrow> run_fine M w"
proof (induction rule: ledger_reached.induct)
  case (start w)
  then show ?case by (simp add: run_fine_def)
next
  case step
  then show ?case using ledger_step_fine by blast
qed

section \<open>What happens to a row in the long run\<close>

definition promotion_recorded :: "nat \<Rightarrow> inbound_audit set \<Rightarrow> bool" where
  "promotion_recorded i A \<longleftrightarrow> (\<exists>e \<in> A. ia_action e = ''mail.capture_promoted'' \<and> ia_deliveryId e = Some i)"

definition moves :: "inbound_audit set \<Rightarrow> delivery \<Rightarrow> delivery \<Rightarrow> bool" where
  "moves A v v' \<longleftrightarrow> dv_id v' = dv_id v \<and>
     (dv_state v \<in> {DProcessed, DSkipped} \<longrightarrow> dv_state v' = dv_state v \<and> dv_processedAt v' = dv_processedAt v) \<and>
     (dv_state v = DCaptured \<longrightarrow> dv_state v' = DCaptured \<or> promotion_recorded (dv_id v) A)"

definition later :: "inbox \<Rightarrow> inbox \<Rightarrow> bool" where
  "later x x' \<longleftrightarrow> set (ib_audit x) \<subseteq> set (ib_audit x') \<and>
     (\<forall>v \<in> set (ib_deliveries x). \<exists>v' \<in> set (ib_deliveries x'). moves (set (ib_audit x')) v v')"

lemma moves_refl: "moves A v v"
  by (simp add: moves_def)

lemma later_refl: "later x x"
  by (auto simp: later_def intro: moves_refl)

lemma later_trans:
  assumes "later x y" "later y z"
  shows "later x z"
proof -
  have "moves (set (ib_audit z)) v v''" if "moves (set (ib_audit y)) v v'" "moves (set (ib_audit z)) v' v''" for v v' v''
    using that assms(2) by (auto simp: moves_def later_def promotion_recorded_def)
  then show ?thesis using assms by (auto simp: later_def) blast
qed

lemma later_quiet: "quiet_box x x' \<Longrightarrow> later x x'"
proof -
  assume q: "quiet_box x x'"
  have m: "moves A v v'" if "quiet_row v v'" for A v v'
    using that by (auto simp: quiet_row_def moves_def)
  have "\<exists>v' \<in> set (ib_deliveries x'). quiet_row v v'" if "v \<in> set (ib_deliveries x)" for v
    using q that unfolding quiet_box_def by (metis in_set_conv_nth list_all2_conv_all_nth)
  then have "\<forall>v \<in> set (ib_deliveries x). \<exists>v' \<in> set (ib_deliveries x'). moves (set (ib_audit x')) v v'" using m by blast
  then show ?thesis using q by (simp add: later_def quiet_box_def)
qed

lemma later_plus: "later x (plus_row f x)"
  by (auto simp: later_def plus_row_def intro: moves_refl)

lemma later_touches:
  assumes "touches p f x x'"
    and "\<And>v t. v \<in> set (ib_deliveries x) \<Longrightarrow> p v \<Longrightarrow> moves (set (ib_audit x')) v ((f v)\<lparr>dv_updatedAt := t\<rparr>)"
  shows "later x x'"
proof -
  obtain t where t: "ib_deliveries x' = update_rows p (\<lambda>v. (f v)\<lparr>dv_updatedAt := t\<rparr>) (ib_deliveries x)"
    using assms(1) by (auto simp: touches_def)
  have "\<exists>v' \<in> set (ib_deliveries x'). moves (set (ib_audit x')) v v'" if "v \<in> set (ib_deliveries x)" for v
    using that assms(2) [of v t] moves_refl by (cases "p v") (auto simp: t set_update_rows)
  then show ?thesis using assms(1) by (simp add: later_def touches_def)
qed

lemma settlement_id: "settlement en v f \<Longrightarrow> dv_id (f u) = dv_id u"
  by (induction rule: settlement.induct)
    (auto simp: preflight_def unavailable_row_def quarantine_row_def retry_row_def lease_released_def settled_row_def
      failure_row_def Let_def split: if_splits option.splits)

lemma ledger_step_later:
  assumes "ledger_step M w w'"
  shows "later (lr_box w) (lr_box w')"
  using assms
proof (induction rule: ledger_step.induct)
  case (accept_imap en a w r x')
  from accept_tx_rows [OF accept_imap] show ?case using later_quiet later_trans [OF later_plus later_quiet] by auto
next
  case (accept_pipe p en w r' x')
  from pipe_tx_rows [OF accept_pipe] show ?case using later_quiet later_trans [OF later_plus later_quiet] by auto
next
  case (claim l w en i n x')
  have "moves A v ((claim_row en l v)\<lparr>dv_updatedAt := t\<rparr>)" if "delivery_claimable en (lr_box w) i v" for A v t
    using that by (auto simp: delivery_claimable_def claim_row_def moves_def)
  then show ?case using claim_touches [OF claim(2)] claim(3) later_touches by auto
next
  case (settle i l v w en f r'' x')
  have "moves A u ((f u)\<lparr>dv_updatedAt := t\<rparr>)" if "leased i l u" for A u t
    using that settlement_id [OF settle(3)] by (auto simp: leased_def moves_def)
  then show ?case using later_touches [OF settle_touches [OF settle(4)]] by simp
next
  case (replay en sc d i t reason st w u x')
  obtain p where p: "\<And>u. p u \<Longrightarrow> dv_state u = DQuarantined" "touches p replayed (lr_box w) x'"
    using replay_touches [OF replay] by blast
  have "moves A u ((replayed u)\<lparr>dv_updatedAt := s\<rparr>)" if "p u" for A u s
    using p(1) [OF that] by (auto simp: replayed_def moves_def)
  then show ?case using later_touches [OF p(2)] by simp
next
  case (promote en sc d i t reason st w u x')
  obtain p where p: "\<And>u. p u \<Longrightarrow> dv_id u = i \<and> dv_state u = DCaptured" "touches p (promoted en) (lr_box w) x'"
      "promotion_recorded i (set (ib_audit x'))"
    using promote_touches [OF promote] unfolding promotion_recorded_def by blast
  have "moves (set (ib_audit x')) u ((promoted en u)\<lparr>dv_updatedAt := s\<rparr>)" if "p u" for u s
    using p(1) [OF that] p(3) by (auto simp: promoted_def moves_def)
  then show ?case using later_touches [OF p(2)] by simp
next
  case aside
  then show ?case using later_quiet side_step_quiet by simp
qed (simp_all add: later_refl)

lemma ledger_steps_later: "(ledger_step M)\<^sup>*\<^sup>* w w' \<Longrightarrow> later (lr_box w) (lr_box w')"
  by (induction rule: rtranclp_induct) (blast intro: later_refl later_trans ledger_step_later)+

lemma ledger_steps_reached: "(ledger_step M)\<^sup>*\<^sup>* w w' \<Longrightarrow> ledger_reached M w \<Longrightarrow> ledger_reached M w'"
  by (induction rule: rtranclp_induct) (blast intro: ledger_reached.step)+

lemma row_moves:
  assumes "ledger_reached M w" "(ledger_step M)\<^sup>*\<^sup>* w w'" "v \<in> set (rows w)" "v' \<in> set (rows w')" "dv_id v' = dv_id v"
  shows "moves (set (ib_audit (lr_box w'))) v v'"
proof -
  obtain u where "u \<in> set (rows w')" "moves (set (ib_audit (lr_box w'))) v u"
    using ledger_steps_later [OF assms(2)] assms(3) by (auto simp: later_def rows_def)
  moreover from this have "u = v'"
    using only_row [OF ledger_reached_fine [OF ledger_steps_reached [OF assms(2,1)]], of u v'] assms(4,5) by (simp add: moves_def)
  ultimately show ?thesis by simp
qed

section \<open>A sample run\<close>

text \<open>Mail is accepted, claimed, read, and settled; a late heartbeat finds nothing.\<close>

definition new_row :: delivery where
  "new_row = imap_delivery sample_env (sample_acceptance (Some sample_source, None)) sample_queue [routing_entry_of sample_queue] 2"

definition held_row :: delivery where
  "held_row = (claim_row sample_env ''t1'' new_row)\<lparr>dv_updatedAt := ie_now sample_env\<rparr>"

definition final_row :: delivery where
  "final_row = (settled_row sample_env \<lparr>oc_state = OutProcessed, oc_ticketId = Some 7, oc_postId = Some 8\<rparr> held_row)\<lparr>dv_updatedAt := ie_now sample_env\<rparr>"

definition box_with :: "delivery \<Rightarrow> inbox" where
  "box_with v = sample_inbox\<lparr>ib_deliveries := [v], ib_seq_delivery := 3\<rparr>"

lemma new_row_facts: "dv_id new_row = 2" "dv_state new_row = DAccepted" "dv_attempts new_row = 0" "dv_queueId new_row = Some 2"
  "\<not> dv_truncated new_row" "dv_leaseOwner new_row = None"
  by (simp_all add: new_row_def imap_delivery_def Let_def is_truncated_def sample_acceptance_def sample_source_def sample_env_def
      sample_queue_def inboundCaptureOnlyEnabled_def)

lemma held_row_facts: "dv_id held_row = 2" "dv_state held_row = DProcessing" "dv_attempts held_row = 1" "dv_leaseOwner held_row = Some ''t1''"
  "\<not> dv_truncated held_row"
  by (simp_all add: held_row_def claim_row_def new_row_facts)

lemma final_row_facts: "dv_id final_row = 2" "dv_state final_row = DProcessed" "dv_processedAt final_row = Some 1700000000000"
  "dv_leaseOwner final_row = None"
  by (simp_all add: final_row_def settled_row_def lease_released_def held_row_facts sample_env_def)

lemma sample_accept: "accept_tx sample_env (sample_acceptance (Some sample_source, None)) sample_inbox = (Inr Accepted, box_with new_row)"
proof (rule accept_tx_runs)
  show "find_row (fenced_row sample_env (ac_snapshot (sample_acceptance (Some sample_source, None)))
      (ac_mailbox (sample_acceptance (Some sample_source, None)))) (ib_queues sample_inbox) = Some sample_queue"
    by (simp add: sample_inbox_def fenced_row_def sample_acceptance_def capture_fence_def inboundCaptureOnlyEnabled_def sample_env_def)
      (simp add: sample_queue_def)
  show "captureRoutingSnapshot sample_env sample_queue sample_inbox = (Inr [routing_entry_of sample_queue], sample_inbox)"
    by (rule sample_snapshot) (simp add: sample_inbox_def)
qed (simp_all add: sample_acceptance_def sample_inbox_def delivery_by_key_def inboundCaptureOnlyEnabled_def sample_env_def
      lockRawStageForAcceptance_def markRawStageCommitted_def act_defs box_with_def new_row_def)

lemma sample_claim: "claim_delivery sample_env 2 ''t1'' (box_with new_row) = (Inr 1, box_with held_row)"
proof -
  have canary: "normalDeliveryCanary sample_env = None"
    by (simp add: normalDeliveryCanary_def normalDeliveryCanaryQueueId_def positive_id_def sample_env_def)
  have "delivery_claimable sample_env (box_with new_row) 2 new_row"
    by (simp add: delivery_claimable_def normalDeliveryLifecycleFence_def canary_row_def canary new_row_facts queue_retired_def
        box_with_def sample_inbox_def sample_queue_def)
  then show ?thesis
    by (simp add: claim_delivery_def lockDeliveryQueueForNormalProcessing_def Let_def canary db_txn_def act_defs update_deliveries_def
        delivery_by_id_def new_row_facts queue_by_id_def box_with_def held_row_def sample_inbox_def sample_queue_def)
qed

lemma sample_settle:
  "settle_delivery sample_env 2 ''t1'' (settled_row sample_env \<lparr>oc_state = OutProcessed, oc_ticketId = Some 7, oc_postId = Some 8\<rparr>) (box_with held_row) =
   (Inr (), box_with final_row)"
  by (simp add: settle_delivery_def act_defs update_deliveries_def leased_def held_row_facts box_with_def final_row_def)

definition run_at :: "inbox \<Rightarrow> (nat \<times> string) set \<Rightarrow> (nat \<times> string \<times> delivery) set \<Rightarrow> string set \<Rightarrow> (nat \<Rightarrow> nat) \<Rightarrow> ledger_run" where
  "run_at x H L U k = \<lparr>lr_box = x, lr_held = H, lr_loaded = L, lr_used = U, lr_runs = k\<rparr>"

definition once :: "nat \<Rightarrow> nat" where
  "once i = (if i = 2 then Suc 0 else 0)"

lemma sample_reached:
  "ledger_reached 5 (run_at (box_with held_row) {} {(2, ''t1'', held_row)} {''t1''} once)"
  "ledger_reached 5 (run_at (box_with final_row) {} {} {''t1''} once)"
proof -
  have max: "ie_maxAttempts sample_env = 5" by (simp add: sample_env_def)
  have 0: "ledger_reached 5 (run_at sample_inbox {} {} {} (\<lambda>_. 0))"
    by (rule ledger_reached.start) (simp_all add: run_at_def rows_def sample_inbox_def)
  have "ledger_reached 5 (run_at (box_with new_row) {} {} {} (\<lambda>_. 0))"
    using ledger_reached.step [OF 0 ledger_step.accept_imap [where x' = "box_with new_row"]] sample_accept by (simp add: run_at_def)
  from ledger_reached.step [OF this ledger_step.claim [where l = "''t1''" and i = 2 and n = 1 and x' = "box_with held_row" and en = sample_env]]
  have held: "ledger_reached 5 (run_at (box_with held_row) {(2, ''t1'')} {} {''t1''} (\<lambda>_. 0))"
    using sample_claim by (simp add: run_at_def)
  have pre: "preflight sample_env held_row = None" "leased 2 ''t1'' held_row"
    by (simp_all add: preflight_def held_row_facts sample_env_def leased_def)
  have by_id: "delivery_by_id 2 (box_with held_row) = Some held_row"
    by (simp add: delivery_by_id_def box_with_def held_row_facts)
  from ledger_reached.step [OF held ledger_step.load [where i = 2 and l = "''t1''" and v = held_row and en = sample_env]]
  show loaded: "ledger_reached 5 (run_at (box_with held_row) {} {(2, ''t1'', held_row)} {''t1''} once)"
    using by_id max pre by (simp add: run_at_def once_def [abs_def] fun_upd_def)
  from ledger_reached.step [OF loaded ledger_step.settle [where i = 2 and l = "''t1''" and v = held_row and en = sample_env, OF _ max
        settlement.settled [OF pre(1)], where x' = "box_with final_row"]]
  show "ledger_reached 5 (run_at (box_with final_row) {} {} {''t1''} once)"
    using sample_settle by (simp add: run_at_def)
qed

lemma late_heartbeat: "ledger_step 5 (run_at (box_with final_row) {} {} {''t1''} once) (run_at (box_with final_row) {} {} {''t1''} once)"
proof -
  have "heartbeat sample_env 2 ''t1'' (box_with final_row) = (Inr 0, box_with final_row)"
    by (simp add: heartbeat_def update_deliveries_def act_defs leased_def box_with_def final_row_facts)
  from side_step.beat [OF this] show ?thesis
    using ledger_step.aside [of "run_at (box_with final_row) {} {} {''t1''} once" "box_with final_row" 5] by (simp add: run_at_def)
qed

text \<open>A message captured in a test and promoted by an operator.\<close>

definition capture_env :: inbound_env where
  "capture_env = sample_env\<lparr>ie_deliveryEnabled := False, ie_captureOnlyEnabled := True, ie_captureQueueId := Some 2, ie_captureMaxMessages := Some 1\<rparr>"

definition canary_env :: inbound_env where
  "canary_env = sample_env\<lparr>ie_canaryQueueId := Some 2, ie_canaryDeliveryId := Some 2\<rparr>"

definition armed_queue :: mail_queue where
  "armed_queue = sample_queue\<lparr>mq_captureRetiredAt := Some 1600000000000\<rparr>"

definition capture_acceptance :: acceptance where
  "capture_acceptance = (sample_acceptance (Some sample_source, None))\<lparr>ac_snapshot := armed_queue\<rparr>"

definition captured_row :: delivery where
  "captured_row = imap_delivery capture_env capture_acceptance armed_queue [routing_entry_of armed_queue] 2"

definition spent_queue :: mail_queue where
  "spent_queue = armed_queue\<lparr>mq_isEnabled := False, mq_lastError := Some ''Capture-only queue retired after its one retained message''\<rparr>"

definition armed_box :: inbox where
  "armed_box = sample_inbox\<lparr>ib_queues := [armed_queue]\<rparr>"

definition captured_box :: inbox where
  "captured_box = armed_box\<lparr>ib_queues := [spent_queue], ib_deliveries := [captured_row], ib_seq_delivery := 3\<rparr>"

definition promoted_row :: delivery where
  "promoted_row = (promoted canary_env captured_row)\<lparr>dv_updatedAt := ie_now canary_env\<rparr>"

definition promoted_box :: inbox where
  "promoted_box = captured_box\<lparr>ib_deliveries := [promoted_row], ib_audit := [\<lparr>ia_action = ''mail.capture_promoted'', ia_queueId = None,
     ia_deliveryId = Some 2, ia_actorStaffId = Some 9, ia_reason = Some ''test passed''\<rparr>]\<rparr>"

lemma captured_row_facts: "dv_id captured_row = 2" "dv_state captured_row = DCaptured" "dv_queueId captured_row = Some 2"
  "\<not> dv_truncated captured_row" "dv_updatedAt captured_row = 1700000000000"
  by (simp_all add: captured_row_def imap_delivery_def Let_def is_truncated_def capture_acceptance_def sample_acceptance_def sample_source_def
      capture_env_def sample_env_def armed_queue_def sample_queue_def inboundCaptureOnlyEnabled_def)

lemma capture_snapshot: "captureRoutingSnapshot capture_env armed_queue armed_box = (Inr [routing_entry_of armed_queue], armed_box)"
proof -
  have "normalizeEmail (mq_emailAddress armed_queue) \<noteq> ''''"
    by (simp add: armed_queue_def sample_queue_def normalizeEmail_def trim_by_def is_ascii_space_def code_of_def lower_def lower_char_def Let_def)
  then have "routing_view capture_env armed_box = [routing_entry_of armed_queue]"
    by (simp add: routing_view_def armed_box_def capture_fence_def inboundCaptureOnlyEnabled_def capture_env_def sample_env_def
        armed_queue_def sample_queue_def)
  then show ?thesis
    by (simp add: captureRoutingSnapshot_def act_defs routing_entry_of_def)
qed

lemma sample_capture: "accept_tx capture_env capture_acceptance armed_box = (Inr Accepted, captured_box)"
proof -
  have mode: "inboundCaptureOnlyEnabled capture_env" by (simp add: inboundCaptureOnlyEnabled_def capture_env_def)
  have fence: "fenced_row capture_env armed_queue ''INBOX'' armed_queue"
    by (simp add: fenced_row_def capture_fence_def mode) (simp add: armed_queue_def sample_queue_def)
  have ac: "ac_snapshot capture_acceptance = armed_queue" "ac_mailbox capture_acceptance = ''INBOX''" "snd (ac_raw capture_acceptance) = None"
    by (simp_all add: capture_acceptance_def sample_acceptance_def)
  have box: "ib_queues armed_box = [armed_queue]" "ib_deliveries armed_box = []" "ib_seq_delivery armed_box = 2"
    by (simp_all add: armed_box_def sample_inbox_def)
  have capacity: "assertCaptureCapacity capture_env n armed_box = (Inr (), armed_box)" for n
    by (simp add: assertCaptureCapacity_def mode captureMaxMessages_def capture_env_def act_defs captured_rows_def box)
  show ?thesis
    by (simp add: accept_tx_def db_txn_def act_defs ac box fence capacity capture_snapshot delivery_by_key_def lockRawStageForAcceptance_def
        insert_delivery_def settle_accepted_def markRawStageCommitted_def mode update_queues_def captured_box_def captured_row_def spent_queue_def)
qed

lemma sample_promotion:
  fixes sc :: department_scope
  assumes "ds_unrestricted sc"
  shows "promoteCaptured canary_env sc d 2 1700000000000 ''test passed'' 9 captured_box = (Inr (), promoted_box)"
proof -
  have canary: "assertCapturePromotionEnabled canary_env captured_box = (Inr (2, 2), captured_box)"
    by (simp add: assertCapturePromotionEnabled_def normalCanaryPromotionScope_def normalDeliveryCanaryQueueId_def
        normalDeliveryCanaryDeliveryId_def positive_id_def canary_env_def sample_env_def act_defs)
  have lock: "lockDeliveryQueueCaptureState (Some 2) True captured_box = (Inr True, captured_box)"
    by (simp add: lockDeliveryQueueCaptureState_def act_defs queue_by_id_def captured_box_def spent_queue_def armed_queue_def sample_queue_def)
  have retired: "queue_retired captured_box captured_row"
    by (simp add: queue_retired_def captured_row_facts captured_box_def spent_queue_def armed_queue_def sample_queue_def)
  have box: "ib_deliveries captured_box = [captured_row]" "ib_audit captured_box = []"
    by (simp_all add: captured_box_def armed_box_def sample_inbox_def)
  have scoped: "deliveryByIdWhereForScope 2 sc d (delivery_owner_of captured_row)"
    using assms by (simp add: deliveryByIdWhereForScope_def delivery_owner_of_def captured_row_facts)
  show ?thesis
    by (simp add: promoteCaptured_def canary db_txn_def act_defs box scoped captured_row_facts lock retired assms update_deliveries_def
        create_audit_def promoted_box_def promoted_row_def)
qed

lemma captured_run:
  fixes sc :: department_scope
  assumes "ds_unrestricted sc"
  shows "ledger_reached 5 (run_at captured_box {} {} {} (\<lambda>_. 0))"
    "(ledger_step 5)\<^sup>*\<^sup>* (run_at captured_box {} {} {} (\<lambda>_. 0)) (run_at promoted_box {} {} {} (\<lambda>_. 0))"
proof -
  have "ledger_reached 5 (run_at armed_box {} {} {} (\<lambda>_. 0))"
    by (rule ledger_reached.start) (simp_all add: run_at_def rows_def armed_box_def sample_inbox_def)
  from ledger_reached.step [OF this ledger_step.accept_imap [where x' = captured_box]]
  show "ledger_reached 5 (run_at captured_box {} {} {} (\<lambda>_. 0))"
    using sample_capture by (simp add: run_at_def)
  have "ledger_step 5 (run_at captured_box {} {} {} (\<lambda>_. 0)) (run_at promoted_box {} {} {} (\<lambda>_. 0))"
    using ledger_step.promote [of canary_env sc d 2 1700000000000 "''test passed''" 9 "run_at captured_box {} {} {} (\<lambda>_. 0)" "()" promoted_box 5 for d]
      sample_promotion [OF assms] by (simp add: run_at_def fun_upd_def)
  then show "(ledger_step 5)\<^sup>*\<^sup>* (run_at captured_box {} {} {} (\<lambda>_. 0)) (run_at promoted_box {} {} {} (\<lambda>_. 0))" by blast
qed

section \<open>The guarantees\<close>

text \<open>C9: Whatever workers, acceptances, operators, retention and queue administration do in whatever order, every row of
  the ledger has the shape its state promises: a lease (owner and end) exactly while it is processed, a time of completion
  exactly when it is processed or skipped, a next attempt when it waits for a retry, a ticket when a ticket owns it, and a
  message cut at the size limit is in quarantine.\<close>

theorem ledger_rows_consistent:
  assumes "ledger_reached M w" "v \<in> set (ib_deliveries (lr_box w))"
  shows "row_consistent v"
  using ledger_reached_fine [OF assms(1)] assms(2) by (auto simp: run_fine_def row_fine_def rows_def)

theorem ledger_rows_consistent_witness: "row_consistent held_row \<and> dv_state held_row = DProcessing"
proof
  have "held_row \<in> set (ib_deliveries (lr_box (run_at (box_with held_row) {} {(2, ''t1'', held_row)} {''t1''} once)))"
    by (simp add: run_at_def box_with_def)
  from ledger_rows_consistent [OF sample_reached(1) this] show "row_consistent held_row" .
  show "dv_state held_row = DProcessing" by (rule held_row_facts)
qed

text \<open>C7: The retry loop ends. However workers crash, lose their lease and claim again, the pipeline is started under a
  valid lease at most \<open>maxAttempts\<close> times for a delivery, until an operator replays or promotes it.\<close>

theorem pipeline_runs_bounded:
  assumes "ledger_reached M w"
  shows "lr_runs w i \<le> M"
  using ledger_reached_fine [OF assms] by (simp add: run_fine_def)

theorem pipeline_runs_bounded_witness:
  "lr_runs (run_at (box_with final_row) {} {} {''t1''} once) 2 = Suc 0 \<and> lr_runs (run_at (box_with final_row) {} {} {''t1''} once) 2 \<le> 5"
  using pipeline_runs_bounded [OF sample_reached(2), of 2] by (simp add: run_at_def once_def)

text \<open>C8: Mail taken in a capture test is not processed on its own: a row that was captured stays captured in every later
  state, unless an operator's promotion of that delivery is in the audit.\<close>

theorem captured_mail_waits:
  assumes "ledger_reached M w" "(ledger_step M)\<^sup>*\<^sup>* w w'" "v \<in> set (ib_deliveries (lr_box w))" "v' \<in> set (ib_deliveries (lr_box w'))"
    and "dv_id v' = dv_id v" "dv_state v = DCaptured" "dv_state v' \<noteq> DCaptured"
  shows "\<exists>e \<in> set (ib_audit (lr_box w')). ia_action e = ''mail.capture_promoted'' \<and> ia_deliveryId e = Some (dv_id v)"
  using row_moves [OF assms(1,2) _ _ assms(5)] assms(3,4,6,7) by (simp add: moves_def rows_def promotion_recorded_def)

theorem captured_mail_waits_witness:
  "dv_state captured_row = DCaptured \<and> dv_state promoted_row = DAccepted \<and>
   (\<exists>e \<in> set (ib_audit promoted_box). ia_action e = ''mail.capture_promoted'' \<and> ia_deliveryId e = Some (dv_id captured_row))"
proof -
  define sc :: department_scope where "sc = \<lparr>ds_unrestricted = True, ds_departmentIds = []\<rparr>"
  have sc: "ds_unrestricted sc" by (simp add: sc_def)
  have rows: "captured_row \<in> set (ib_deliveries (lr_box (run_at captured_box {} {} {} (\<lambda>_. 0))))"
    "promoted_row \<in> set (ib_deliveries (lr_box (run_at promoted_box {} {} {} (\<lambda>_. 0))))"
    by (simp_all add: run_at_def captured_box_def promoted_box_def)
  have states: "dv_id promoted_row = dv_id captured_row" "dv_state promoted_row = DAccepted"
    by (simp_all add: promoted_row_def promoted_def)
  have "\<exists>e \<in> set (ib_audit (lr_box (run_at promoted_box {} {} {} (\<lambda>_. 0)))).
      ia_action e = ''mail.capture_promoted'' \<and> ia_deliveryId e = Some (dv_id captured_row)"
    by (rule captured_mail_waits [OF captured_run [OF sc] rows states(1)]) (simp_all add: captured_row_facts states)
  then show ?thesis using states captured_row_facts by (simp add: run_at_def)
qed

text \<open>C10: A settled delivery is final: once a row is processed or skipped, no later step changes its state or its time of
  completion, so a late worker, a second claim or a replay cannot post its message again.\<close>

theorem settled_mail_is_final:
  assumes "ledger_reached M w" "(ledger_step M)\<^sup>*\<^sup>* w w'" "v \<in> set (ib_deliveries (lr_box w))" "v' \<in> set (ib_deliveries (lr_box w'))"
    and "dv_id v' = dv_id v" "dv_state v \<in> {DProcessed, DSkipped}"
  shows "dv_state v' = dv_state v \<and> dv_processedAt v' = dv_processedAt v"
  using row_moves [OF assms(1,2) _ _ assms(5)] assms(3,4,6) by (auto simp: moves_def rows_def)

theorem settled_mail_is_final_witness:
  "dv_state final_row = DProcessed \<and> final_row \<in> set (ib_deliveries (box_with final_row)) \<and> dv_processedAt final_row = Some 1700000000000"
proof -
  let ?w = "run_at (box_with final_row) {} {} {''t1''} once"
  have row: "final_row \<in> set (ib_deliveries (lr_box ?w))" by (simp add: run_at_def box_with_def)
  have "(ledger_step 5)\<^sup>*\<^sup>* ?w ?w" using late_heartbeat by blast
  from settled_mail_is_final [OF sample_reached(2) this row row] show ?thesis
    using row by (simp add: final_row_facts run_at_def)
qed

end
