(* ===== verification/Spec2Isabelle.thy ===== *)
theory Spec2Isabelle
  imports Permissions MailAccess OutboxRun WorkflowExecutor Sla TicketRequests TicketEffects ReplyMail TicketCreate SessionRecovery RawSafety ImapPoll QueueAdmin InboundTicketing LedgerRun
begin

text \<open>Verification of the KAYAKA help desk.\<close>

end
